(* ===== verification/Prelude.thy ===== *)
theory Prelude
  imports Main "HOL-Library.Sublist" "HOL-Library.AList"
begin

text \<open>
  Shared vocabulary of the development: Rust strings as lists of bytes, the string
  operations of the Rust standard library that the sources use, association lists for the
  hash maps whose values are iterated, and the collections of simplification rules the
  component theories add to.

  A Rust \<open>String\<close> or \<open>str\<close> is a sequence of UTF-8 bytes, so it is a \<open>string\<close> here
  (a list of 8-bit characters) and \<open>length\<close> is Rust's \<open>len()\<close>.
\<close>

named_theorems actor_simps "unfolding rules of the session actor's effects"
named_theorems frame_simps "fields an operation leaves alone"

section \<open>Substrings\<close>

definition starts_with :: "string \<Rightarrow> string \<Rightarrow> bool" where
  "starts_with s p = (take (length p) s = p)"

definition strip_prefix :: "string \<Rightarrow> string \<Rightarrow> string option" where
  "strip_prefix s p = (if starts_with s p then Some (drop (length p) s) else None)"

definition strip_suffix :: "string \<Rightarrow> string \<Rightarrow> string option" where
  "strip_suffix s p =
     (if length p \<le> length s \<and> drop (length s - length p) s = p
      then Some (take (length s - length p) s) else None)"

text \<open>\<open>str::find\<close> with a string pattern: the byte offset of the first match.\<close>

fun str_find :: "string \<Rightarrow> string \<Rightarrow> nat option" where
  "str_find [] p = (if p = [] then Some 0 else None)"
| "str_find (c # s) p =
     (if starts_with (c # s) p then Some 0 else map_option Suc (str_find s p))"

definition str_contains :: "string \<Rightarrow> string \<Rightarrow> bool" where
  "str_contains s p = (str_find s p \<noteq> None)"

lemma starts_with_prefix: "starts_with s p \<longleftrightarrow> prefix p s"
  unfolding starts_with_def
  by (metis append_eq_conv_conj append_take_drop_id prefix_def)

lemma starts_with_Nil [simp]: "starts_with s []"
  by (simp add: starts_with_def)

lemma starts_with_append [simp]: "starts_with (p @ s) p"
  by (simp add: starts_with_def)

lemma str_find_Some_starts: "str_find s p = Some i \<Longrightarrow> starts_with (drop i s) p \<and> i \<le> length s"
  by (induction s arbitrary: i) (auto split: if_splits)

lemma str_find_None_iff: "str_find s p = None \<longleftrightarrow> \<not> sublist p s"
proof (induction s)
  case Nil
  then show ?case by simp
next
  case (Cons c s)
  then show ?case by (auto simp: sublist_Cons_right starts_with_prefix)
qed

lemma str_contains_sublist: "str_contains s p \<longleftrightarrow> sublist p s"
  by (simp add: str_contains_def str_find_None_iff)

lemma str_find_first:
  "str_find s p = Some i \<Longrightarrow> j < i \<Longrightarrow> \<not> starts_with (drop j s) p"
proof (induction s arbitrary: i j)
  case Nil
  then show ?case by (simp split: if_splits)
next
  case (Cons c s)
  then show ?case by (cases j) (auto split: if_splits)
qed

section \<open>Trimming\<close>

text \<open>
  \<open>str::trim\<close> removes the characters with the Unicode property White\_Space. On UTF-8 bytes
  those are six one-byte characters, two two-byte characters (U+0085, U+00A0) and the
  three-byte characters U+1680, U+2000 to U+200A, U+2028, U+2029, U+202F, U+205F and U+3000.
  UTF-8 is self-synchronising, so matching the encodings matches the characters.
\<close>

definition byte :: "char \<Rightarrow> nat" where
  "byte c = of_char c"

definition ws1 :: "char \<Rightarrow> bool" where
  "ws1 a = (let n = byte a in n = 32 \<or> (9 \<le> n \<and> n \<le> 13))"

definition ws2 :: "char \<Rightarrow> char \<Rightarrow> bool" where
  "ws2 a b = (byte a = 194 \<and> (byte b = 133 \<or> byte b = 160))"

definition ws3 :: "char \<Rightarrow> char \<Rightarrow> char \<Rightarrow> bool" where
  "ws3 a b c = (let x = byte a; y = byte b; z = byte c in
     (x = 225 \<and> y = 154 \<and> z = 128)
   \<or> (x = 226 \<and> y = 128 \<and> (128 \<le> z \<and> z \<le> 138 \<or> z = 168 \<or> z = 169 \<or> z = 175))
   \<or> (x = 226 \<and> y = 129 \<and> z = 159)
   \<or> (x = 227 \<and> y = 128 \<and> z = 128))"

fun trim_start :: "string \<Rightarrow> string" where
  "trim_start [] = []"
| "trim_start [a] = (if ws1 a then [] else [a])"
| "trim_start [a, b] =
     (if ws1 a then trim_start [b] else if ws2 a b then [] else [a, b])"
| "trim_start (a # b # c # s) =
     (if ws1 a then trim_start (b # c # s)
      else if ws2 a b then trim_start (c # s)
      else if ws3 a b c then trim_start s
      else a # b # c # s)"

text \<open>The same from the end, on the reversed string.\<close>

fun trim_rev :: "string \<Rightarrow> string" where
  "trim_rev [] = []"
| "trim_rev [a] = (if ws1 a then [] else [a])"
| "trim_rev [b, a] =
     (if ws1 b then trim_rev [a] else if ws2 a b then [] else [b, a])"
| "trim_rev (c # b # a # s) =
     (if ws1 c then trim_rev (b # a # s)
      else if ws2 b c then trim_rev (a # s)
      else if ws3 a b c then trim_rev s
      else c # b # a # s)"

definition trim_end :: "string \<Rightarrow> string" where
  "trim_end s = rev (trim_rev (rev s))"

definition trim :: "string \<Rightarrow> string" where
  "trim s = trim_end (trim_start s)"

lemma trim_start_suffix: "suffix (trim_start s) s"
  by (induction s rule: trim_start.induct) (auto simp: suffix_ConsI)

lemma trim_rev_suffix: "suffix (trim_rev s) s"
  by (induction s rule: trim_rev.induct) (auto simp: suffix_ConsI)

lemma trim_end_prefix: "prefix (trim_end s) s"
  unfolding trim_end_def using trim_rev_suffix [of "rev s"] by (simp add: suffix_to_prefix)

lemma trim_start_idem: "trim_start (trim_start s) = trim_start s"
  by (induction s rule: trim_start.induct) auto

lemma trim_length: "length (trim s) \<le> length s"
  unfolding trim_def
  using trim_end_prefix [of "trim_start s"] trim_start_suffix [of s]
  by (meson le_trans prefix_length_le suffix_length_le)

section \<open>Character boundaries\<close>

text \<open>
  \<open>str::is_char_boundary\<close>: an offset is a boundary when it is 0, the length, or the byte there
  is not a UTF-8 continuation byte (0x80 to 0xBF). Slicing a \<open>str\<close> off a boundary panics.
\<close>

definition is_cont_byte :: "char \<Rightarrow> bool" where
  "is_cont_byte c = (128 \<le> byte c \<and> byte c < 192)"

definition is_char_boundary :: "string \<Rightarrow> nat \<Rightarrow> bool" where
  "is_char_boundary s i =
     (i = 0 \<or> i = length s \<or> (i < length s \<and> \<not> is_cont_byte (s ! i)))"

section \<open>Decimal numerals\<close>

definition digit_char :: "nat \<Rightarrow> char" where
  "digit_char d = char_of (48 + d)"

fun show_nat :: "nat \<Rightarrow> string" where
  "show_nat n = (if n < 10 then [digit_char n] else show_nat (n div 10) @ [digit_char (n mod 10)])"

declare show_nat.simps [simp del]

definition show_int :: "int \<Rightarrow> string" where
  "show_int i = (if i < 0 then ''-'' @ show_nat (nat (- i)) else show_nat (nat i))"

section \<open>Joining\<close>

fun str_join :: "string \<Rightarrow> string list \<Rightarrow> string" where
  "str_join sep [] = []"
| "str_join sep [x] = x"
| "str_join sep (x # xs) = x @ sep @ str_join sep xs"

lemma str_join_Nil_concat: "str_join [] xs = concat xs"
  by (induction "[] :: string" xs rule: str_join.induct) auto

section \<open>Association lists for hash maps\<close>

text \<open>
  A \<open>HashMap\<close> whose size or values the code inspects is an association list with one entry per
  key; \<open>insert\<close> is \<open>AList.update\<close> and \<open>remove\<close> is \<open>AList.delete\<close>.
\<close>

definition hm_insert :: "'k \<Rightarrow> 'v \<Rightarrow> ('k \<times> 'v) list \<Rightarrow> ('k \<times> 'v) list" where
  "hm_insert = AList.update"

definition hm_remove :: "'k \<Rightarrow> ('k \<times> 'v) list \<Rightarrow> ('k \<times> 'v) list" where
  "hm_remove = AList.delete"

lemma hm_get_insert [simp]: "map_of (hm_insert k v m) = (map_of m)(k \<mapsto> v)"
  by (simp add: hm_insert_def update_conv')

lemma hm_get_remove [simp]: "map_of (hm_remove k m) = (map_of m)(k := None)"
  by (simp add: hm_remove_def delete_conv')

lemma hm_keys_remove: "set (map fst (hm_remove k m)) = set (map fst m) - {k}"
  by (auto simp: hm_remove_def delete_keys)

lemma distinct_hm_insert: "distinct (map fst m) \<Longrightarrow> distinct (map fst (hm_insert k v m))"
  by (simp add: hm_insert_def distinct_update)

lemma distinct_hm_remove: "distinct (map fst m) \<Longrightarrow> distinct (map fst (hm_remove k m))"
  by (simp add: hm_remove_def distinct_delete)

section \<open>Transition systems\<close>

text \<open>
  The interface of every state machine of the development: a start predicate, a step relation
  and an invariant that holds at the start and is kept by every step. The client lemma is that
  the invariant holds in every reachable state and along every run.
\<close>

locale invariant_system =
  fixes start :: "'s \<Rightarrow> bool"
    and move :: "'s \<Rightarrow> 's \<Rightarrow> bool"
    and inv :: "'s \<Rightarrow> bool"
  assumes inv_start: "start s \<Longrightarrow> inv s"
    and inv_move: "inv s \<Longrightarrow> move s t \<Longrightarrow> inv t"
begin

lemma inv_reach:
  assumes "move\<^sup>*\<^sup>* s t" and "inv s"
  shows "inv t"
  using assms by (induction rule: rtranclp_induct) (auto intro: inv_move)

lemma inv_from_start: "start s \<Longrightarrow> move\<^sup>*\<^sup>* s t \<Longrightarrow> inv t"
  using inv_reach inv_start by blast

end

end
