(* ===== verification/Json_Value.thy ===== *)
theory Json_Value
  imports Prelude Complex_Main
begin

text \<open>
  The values of \<open>serde_json::Value\<close> and the accessors the sources call on them, with their
  documented behaviour. A number is, as in that crate, an unsigned integer, a negative integer
  or a double; doubles are carried as rational numbers. An object is its list of entries with
  distinct keys. The parser and the printer of the crate are not modelled: they are parameters
  of the definitions that call them.
\<close>

datatype json_num = PosInt nat | NegInt int | Flt rat

datatype json =
    JNull
  | JBool bool
  | JNum json_num
  | JStr string
  | JArr "json list"
  | JObj "(string \<times> json) list"

section \<open>Accessors\<close>

fun jget :: "json \<Rightarrow> string \<Rightarrow> json option" where
  "jget (JObj kvs) k = map_of kvs k"
| "jget _ k = None"

fun as_str :: "json \<Rightarrow> string option" where
  "as_str (JStr s) = Some s"
| "as_str _ = None"

fun as_bool :: "json \<Rightarrow> bool option" where
  "as_bool (JBool b) = Some b"
| "as_bool _ = None"

fun as_array :: "json \<Rightarrow> json list option" where
  "as_array (JArr xs) = Some xs"
| "as_array _ = None"

fun as_object :: "json \<Rightarrow> (string \<times> json) list option" where
  "as_object (JObj kvs) = Some kvs"
| "as_object _ = None"

fun as_u64 :: "json \<Rightarrow> nat option" where
  "as_u64 (JNum (PosInt n)) = Some n"
| "as_u64 _ = None"

fun as_i64 :: "json \<Rightarrow> int option" where
  "as_i64 (JNum (PosInt n)) = (if int n < 2 ^ 63 then Some (int n) else None)"
| "as_i64 (JNum (NegInt i)) = Some i"
| "as_i64 _ = None"

fun as_f64 :: "json \<Rightarrow> rat option" where
  "as_f64 (JNum (PosInt n)) = Some (of_nat n)"
| "as_f64 (JNum (NegInt i)) = Some (of_int i)"
| "as_f64 (JNum (Flt q)) = Some q"
| "as_f64 _ = None"

text \<open>\<open>as i32\<close> on an \<open>i64\<close>: the low 32 bits, read as two's complement.\<close>

definition as_i32 :: "int \<Rightarrow> int" where
  "as_i32 i = (let m = i mod 2 ^ 32 in if m < 2 ^ 31 then m else m - 2 ^ 32)"

lemma as_i32_range: "- (2 ^ 31) \<le> as_i32 i \<and> as_i32 i < 2 ^ 31"
  by (auto simp: as_i32_def Let_def)

lemma as_i32_id:
  assumes "- (2 ^ 31) \<le> i" and "i < 2 ^ 31"
  shows "as_i32 i = i"
proof (cases "0 \<le> i")
  case True
  with assms have "i mod 2 ^ 32 = i" by (intro mod_pos_pos_trivial) auto
  with assms show ?thesis by (simp add: as_i32_def)
next
  case False
  with assms have "(i + 2 ^ 32) mod 2 ^ 32 = i + 2 ^ 32" by (intro mod_pos_pos_trivial) auto
  then have "i mod 2 ^ 32 = i + 2 ^ 32" by simp
  with False assms show ?thesis by (simp add: as_i32_def Let_def)
qed

section \<open>Chained access\<close>

definition jget_opt :: "json option \<Rightarrow> string \<Rightarrow> json option" where
  "jget_opt v k = Option.bind v (\<lambda>x. jget x k)"

text \<open>\<open>v.get(key).and_then(Value::as_str)\<close> and the like.\<close>

definition get_str :: "json \<Rightarrow> string \<Rightarrow> string option" where
  "get_str v k = Option.bind (jget v k) as_str"

definition get_u64 :: "json \<Rightarrow> string \<Rightarrow> nat option" where
  "get_u64 v k = Option.bind (jget v k) as_u64"

definition get_f64 :: "json \<Rightarrow> string \<Rightarrow> rat option" where
  "get_f64 v k = Option.bind (jget v k) as_f64"

definition get_bool :: "json \<Rightarrow> string \<Rightarrow> bool option" where
  "get_bool v k = Option.bind (jget v k) as_bool"

definition get_array :: "json \<Rightarrow> string \<Rightarrow> json list option" where
  "get_array v k = Option.bind (jget v k) as_array"

definition unwrap_or :: "'a option \<Rightarrow> 'a \<Rightarrow> 'a" where
  "unwrap_or v d = (case v of None \<Rightarrow> d | Some x \<Rightarrow> x)"

definition or_else :: "'a option \<Rightarrow> 'a option \<Rightarrow> 'a option" where
  "or_else a b = (case a of None \<Rightarrow> b | Some x \<Rightarrow> Some x)"

definition opt_filter :: "('a \<Rightarrow> bool) \<Rightarrow> 'a option \<Rightarrow> 'a option" where
  "opt_filter P v = (case v of None \<Rightarrow> None | Some x \<Rightarrow> if P x then Some x else None)"

text \<open>\<open>filter_map\<close> of an iterator.\<close>

definition filter_map :: "('a \<Rightarrow> 'b option) \<Rightarrow> 'a list \<Rightarrow> 'b list" where
  "filter_map f xs = List.map_filter f xs"

lemma unwrap_or_simps [simp]:
  "unwrap_or None d = d" "unwrap_or (Some x) d = x"
  by (simp_all add: unwrap_or_def)

lemma or_else_simps [simp]:
  "or_else None b = b" "or_else (Some x) b = Some x"
  by (simp_all add: or_else_def)

lemma opt_filter_simps [simp]:
  "opt_filter P None = None"
  "opt_filter P (Some x) = (if P x then Some x else None)"
  by (simp_all add: opt_filter_def)

lemma opt_filter_Some_iff: "opt_filter P v = Some x \<longleftrightarrow> v = Some x \<and> P x"
  by (cases v) auto

lemma filter_map_simps [simp]:
  "filter_map f [] = []"
  "filter_map f (x # xs) = (case f x of None \<Rightarrow> filter_map f xs | Some y \<Rightarrow> y # filter_map f xs)"
  by (simp_all add: filter_map_def map_filter_simps split: option.splits)

lemma length_filter_map: "length (filter_map f xs) \<le> length xs"
  by (induction xs) (auto split: option.splits)

lemma get_simps [simp]:
  "get_str (JObj kvs) k = Option.bind (map_of kvs k) as_str"
  "get_u64 (JObj kvs) k = Option.bind (map_of kvs k) as_u64"
  "get_f64 (JObj kvs) k = Option.bind (map_of kvs k) as_f64"
  "get_bool (JObj kvs) k = Option.bind (map_of kvs k) as_bool"
  "get_array (JObj kvs) k = Option.bind (map_of kvs k) as_array"
  by (simp_all add: get_str_def get_u64_def get_f64_def get_bool_def get_array_def)

section \<open>Serialisation of strings and options\<close>

definition jopt_str :: "string option \<Rightarrow> json" where
  "jopt_str v = (case v of None \<Rightarrow> JNull | Some s \<Rightarrow> JStr s)"

definition jnat :: "nat \<Rightarrow> json" where
  "jnat n = JNum (PosInt n)"

text \<open>\<open>Map::insert\<close>: replaces the value of an existing key.\<close>

definition jinsert :: "string \<Rightarrow> json \<Rightarrow> (string \<times> json) list \<Rightarrow> (string \<times> json) list" where
  "jinsert = AList.update"

lemma map_of_jinsert [simp]: "map_of (jinsert k v kvs) = (map_of kvs)(k \<mapsto> v)"
  by (simp add: jinsert_def update_conv')

lemma distinct_jinsert: "distinct (map fst kvs) \<Longrightarrow> distinct (map fst (jinsert k v kvs))"
  by (simp add: jinsert_def distinct_update)

end
