(* ===== verification/Models.thy ===== *)
theory Models
  imports Json_Value
begin

text \<open>
  The data types of \<open>src-tauri/src/models.rs\<close> that cross component boundaries: the status of a
  run, the identity of a conversation, the metadata record of a run and the bus events. The
  constructors of \<open>bus_event\<close> are the variants of \<open>BusEvent\<close>, their arguments in the order
  of the source's fields; the two widest variants carry a record.
\<close>

section \<open>Run status and identity\<close>

datatype run_status = Pending | Running | Idle | Completed | Failed | Stopped

fun run_status_str :: "run_status \<Rightarrow> string" where
  "run_status_str Pending = ''pending''"
| "run_status_str Running = ''running''"
| "run_status_str Idle = ''idle''"
| "run_status_str Completed = ''completed''"
| "run_status_str Failed = ''failed''"
| "run_status_str Stopped = ''stopped''"

lemma run_status_str_inj: "run_status_str a = run_status_str b \<Longrightarrow> a = b"
  by (cases a; cases b) auto

datatype execution_path = SessionActor | PipeExec

datatype conversation_ref = ClaudeSession string | CodexThread string

datatype run_source = Native | CliImport

record import_watermark =
  iw_offset :: nat
  iw_mtime_ns :: nat
  iw_file_size :: nat
  iw_last_uuid :: "string option"

record remote_host =
  rh_name :: string
  rh_host :: string
  rh_user :: string
  rh_port :: nat
  rh_key_path :: "string option"
  rh_remote_cwd :: "string option"
  rh_remote_claude_path :: "string option"
  rh_forward_api_key :: bool

record codex_imported_rollout =
  ro_path :: string
  ro_size :: nat
  ro_mtime_ns :: string
  ro_last_event_ts :: "string option"

record run_meta =
  m_id :: string
  m_prompt :: string
  m_cwd :: string
  m_agent :: string
  m_auth_mode :: string
  m_status :: run_status
  m_started_at :: string
  m_ended_at :: "string option"
  m_exit_code :: "int option"
  m_error_message :: "string option"
  m_session_id :: "string option"
  m_result_subtype :: "string option"
  m_model :: "string option"
  m_parent_run_id :: "string option"
  m_name :: "string option"
  m_remote_host_name :: "string option"
  m_remote_cwd :: "string option"
  m_remote_host_snapshot :: "remote_host option"
  m_platform_id :: "string option"
  m_platform_base_url :: "string option"
  m_source :: "run_source option"
  m_cli_import_watermark :: "import_watermark option"
  m_cli_session_path :: "string option"
  m_cli_usage_incomplete :: "bool option"
  m_deleted_at :: "string option"
  m_archived_at :: "string option"
  m_no_session_persistence :: bool
  m_execution_path :: "execution_path option"
  m_conversation_ref :: "conversation_ref option"
  m_codex_process_seq :: "nat option"
  m_codex_imported_rollouts :: "codex_imported_rollout list option"

definition resolved_execution_path :: "run_meta \<Rightarrow> execution_path" where
  "resolved_execution_path m =
     (case m_execution_path m of Some p \<Rightarrow> p
      | None \<Rightarrow> if m_agent m = ''claude'' then SessionActor else PipeExec)"

definition resolved_conversation_ref :: "run_meta \<Rightarrow> conversation_ref option" where
  "resolved_conversation_ref m =
     or_else (m_conversation_ref m) (map_option ClaudeSession (m_session_id m))"

section \<open>Attachment limits\<close>

definition MAX_TEXT_SIZE :: nat where "MAX_TEXT_SIZE = 10 * 1024 * 1024"
definition MAX_PDF_BINARY_SIZE :: nat where "MAX_PDF_BINARY_SIZE = 20 * 1024 * 1024"
definition U64_MAX :: nat where "U64_MAX = 2 ^ 64 - 1"

definition ALLOWED_IMAGE_TYPES :: "string list" where
  "ALLOWED_IMAGE_TYPES = [''image/png'', ''image/jpeg'', ''image/webp'', ''image/gif'']"

definition ALLOWED_DOC_TYPES :: "string list" where
  "ALLOWED_DOC_TYPES = [''application/pdf'']"

definition max_attachment_size :: "string \<Rightarrow> nat" where
  "max_attachment_size mime =
     (if list_ex (starts_with mime) ALLOWED_IMAGE_TYPES then U64_MAX
      else if mime \<in> set ALLOWED_DOC_TYPES then MAX_PDF_BINARY_SIZE
      else MAX_TEXT_SIZE)"

section \<open>Bus events\<close>

record mcp_server_info =
  mcp_name :: string
  mcp_status :: string
  mcp_server_type :: "string option"
  mcp_error :: "string option"

record model_usage_entry =
  mu_input_tokens :: nat
  mu_output_tokens :: nat
  mu_cache_read_tokens :: nat
  mu_cache_write_tokens :: nat
  mu_web_search_requests :: nat
  mu_cost_usd :: rat
  mu_context_window :: "nat option"
  mu_max_output_tokens :: "nat option"

datatype ralph_complete_reason = MaxIterations | CompletionPromise | Cancelled | FailStopped

record session_init_ev =
  si_run_id :: string
  si_session_id :: "string option"
  si_model :: "string option"
  si_tools :: "string list"
  si_cwd :: string
  si_slash_commands :: "json list"
  si_mcp_servers :: "mcp_server_info list"
  si_permission_mode :: "string option"
  si_api_key_source :: "string option"
  si_claude_code_version :: "string option"
  si_output_style :: "string option"
  si_agents :: "string list"
  si_skills :: "string list"
  si_plugins :: "json list"
  si_plugin_errors :: "json list"
  si_fast_mode_state :: "string option"

record usage_ev =
  us_run_id :: string
  us_input_tokens :: nat
  us_output_tokens :: nat
  us_cache_read_tokens :: "nat option"
  us_cache_write_tokens :: "nat option"
  us_total_cost_usd :: rat
  us_turn_index :: "nat option"
  us_model_usage :: "(string \<times> model_usage_entry) list option"
  us_duration_api_ms :: "nat option"
  us_duration_ms :: "nat option"
  us_num_turns :: "nat option"
  us_stop_reason :: "string option"
  us_service_tier :: "string option"
  us_speed :: "string option"
  us_web_fetch_requests :: "nat option"
  us_cache_creation_5m :: "nat option"
  us_cache_creation_1h :: "nat option"

datatype (plugins only: code size) bus_event =
    SessionInit session_init_ev
  | MessageDelta string string "string option"
      \<comment> \<open>run_id, text, parent_tool_use_id\<close>
  | MessageComplete string string string "string option" "string option" "string option" "json option"
      \<comment> \<open>run_id, message_id, text, parent_tool_use_id, model, stop_reason, message_usage\<close>
  | ToolStart string string string json "string option"
      \<comment> \<open>run_id, tool_use_id, tool_name, input, parent_tool_use_id\<close>
  | ToolEnd string string string json string "nat option" "string option" "json option"
      \<comment> \<open>run_id, tool_use_id, tool_name, output, status, duration_ms, parent_tool_use_id, tool_use_result\<close>
  | UserMessage string string "string option" "string option"
      \<comment> \<open>run_id, text, uuid, client_uuid; the actor always sends no attachments\<close>
  | RunState string string "int option" "string option"
      \<comment> \<open>run_id, state, exit_code, error\<close>
  | UsageUpdate usage_ev
  | Raw string string json
      \<comment> \<open>run_id, source, data\<close>
  | PermissionDenied string string string json
      \<comment> \<open>run_id, tool_name, tool_use_id, tool_input\<close>
  | ThinkingDelta string string "string option"
  | ToolInputDelta string string string "string option"
      \<comment> \<open>run_id, tool_use_id, partial_json, parent_tool_use_id\<close>
  | PermissionPrompt string string string string json string "string option" "json list"
      \<comment> \<open>run_id, request_id, tool_name, tool_use_id, tool_input, decision_reason, parent, suggestions\<close>
  | CompactBoundary string string "nat option"
  | SystemStatus string "string option" json
  | HookStarted string string string json "string option"
      \<comment> \<open>run_id, hook_event, hook_id, data, hook_name\<close>
  | HookProgress string string json
  | HookResponse string string string string json "string option" "string option" "string option" "int option"
      \<comment> \<open>run_id, hook_id, hook_event, outcome, data, hook_name, stdout, stderr, exit_code\<close>
  | TaskNotification string string string json
      \<comment> \<open>run_id, task_id, status, data\<close>
  | FilesPersisted string json json
  | ToolProgress string string "rat option" json "string option"
      \<comment> \<open>run_id, tool_use_id, elapsed_time_seconds, data, parent_tool_use_id\<close>
  | ToolOutputDelta string string string "string option"
  | GoalUpdate string json
  | CodexHookRun string string string string "string option" "nat option"
      \<comment> \<open>run_id, hook_id, event_name, status, status_message, duration_ms\<close>
  | CodexMcpStatus string string string "string option"
  | CodexTurnDiff string string string
  | CodexAgentInfo string string "string option" "string option" "string option"
      \<comment> \<open>run_id, thread_id, nickname, role, parent_thread_id\<close>
  | ToolUseSummary string string string "string list" json "string option"
      \<comment> \<open>run_id, tool_use_id, summary, preceding_tool_use_ids, data, parent_tool_use_id\<close>
  | AuthStatus string bool "string list" json
  | HookCallback string string string string "string option" json
      \<comment> \<open>run_id, request_id, hook_event, hook_id, hook_name, data\<close>
  | ControlCancelled string string
  | InteractionResponseStarted string string string "string option"
      \<comment> \<open>run_id, request_id, interaction_kind, resolution\<close>
  | InteractionResponseFailed string string string string
      \<comment> \<open>run_id, request_id, interaction_kind, error\<close>
  | InteractionResolved string string "string option" "string option"
      \<comment> \<open>run_id, request_id, interaction_kind, resolution\<close>
  | CommandOutput string string
  | ElicitationPrompt string string string string "string option" "string option" "string option" "json option"
      \<comment> \<open>run_id, request_id, mcp_server_name, message, elicitation_id, mode, url, requested_schema\<close>
  | RateLimitEvent string string "rat option" "string option" "rat option" json
      \<comment> \<open>run_id, status, resets_at, rate_limit_type, utilization, data\<close>
  | RalphStarted string string nat "string option" string
      \<comment> \<open>run_id, prompt, max_iterations, completion_promise, started_at\<close>
  | RalphIteration string nat nat
  | RalphComplete string ralph_complete_reason nat

text \<open>The run an event belongs to: every variant has the field.\<close>

primrec event_run_id :: "bus_event \<Rightarrow> string" where
  "event_run_id (SessionInit e) = si_run_id e"
| "event_run_id (MessageDelta r _ _) = r"
| "event_run_id (MessageComplete r _ _ _ _ _ _) = r"
| "event_run_id (ToolStart r _ _ _ _) = r"
| "event_run_id (ToolEnd r _ _ _ _ _ _ _) = r"
| "event_run_id (UserMessage r _ _ _) = r"
| "event_run_id (RunState r _ _ _) = r"
| "event_run_id (UsageUpdate e) = us_run_id e"
| "event_run_id (Raw r _ _) = r"
| "event_run_id (PermissionDenied r _ _ _) = r"
| "event_run_id (ThinkingDelta r _ _) = r"
| "event_run_id (ToolInputDelta r _ _ _) = r"
| "event_run_id (PermissionPrompt r _ _ _ _ _ _ _) = r"
| "event_run_id (CompactBoundary r _ _) = r"
| "event_run_id (SystemStatus r _ _) = r"
| "event_run_id (HookStarted r _ _ _ _) = r"
| "event_run_id (HookProgress r _ _) = r"
| "event_run_id (HookResponse r _ _ _ _ _ _ _ _) = r"
| "event_run_id (TaskNotification r _ _ _) = r"
| "event_run_id (FilesPersisted r _ _) = r"
| "event_run_id (ToolProgress r _ _ _ _) = r"
| "event_run_id (ToolOutputDelta r _ _ _) = r"
| "event_run_id (GoalUpdate r _) = r"
| "event_run_id (CodexHookRun r _ _ _ _ _) = r"
| "event_run_id (CodexMcpStatus r _ _ _) = r"
| "event_run_id (CodexTurnDiff r _ _) = r"
| "event_run_id (CodexAgentInfo r _ _ _ _) = r"
| "event_run_id (ToolUseSummary r _ _ _ _ _) = r"
| "event_run_id (AuthStatus r _ _ _) = r"
| "event_run_id (HookCallback r _ _ _ _ _) = r"
| "event_run_id (ControlCancelled r _) = r"
| "event_run_id (InteractionResponseStarted r _ _ _) = r"
| "event_run_id (InteractionResponseFailed r _ _ _) = r"
| "event_run_id (InteractionResolved r _ _ _) = r"
| "event_run_id (CommandOutput r _) = r"
| "event_run_id (ElicitationPrompt r _ _ _ _ _ _ _) = r"
| "event_run_id (RateLimitEvent r _ _ _ _ _) = r"
| "event_run_id (RalphStarted r _ _ _ _) = r"
| "event_run_id (RalphIteration r _ _) = r"
| "event_run_id (RalphComplete r _ _) = r"

end
