(* ===== verification/Pricing.thy ===== *)
theory Pricing
  imports Models
begin

text \<open>
  \<open>src-tauri/src/pricing.rs\<close>: the price table by model name and the cost estimate. Prices are
  USD per million tokens. The table is a chain of substring tests, modelled as three chained
  functions in source order (Claude and older OpenAI models, GPT-5 models, third-party models).
  Doubles are exact rationals: rounding of the arithmetic is not modelled.
\<close>

datatype model_pricing = ModelPricing (price_input: rat) (price_output: rat)
  (price_cache_read: rat) (price_cache_write: rat)

text \<open>Standard Claude pricing: cache reads cost 10\% of the input price, cache writes 125\%.\<close>

definition claude_pricing :: "rat \<Rightarrow> rat \<Rightarrow> model_pricing" where
  "claude_pricing inp outp = ModelPricing inp outp (inp * (1 / 10)) (inp * (5 / 4))"

definition third_party_pricing :: "string \<Rightarrow> model_pricing option" where
  "third_party_pricing model = (
      if str_contains model ''deepseek''
      then Some (ModelPricing (7 / 25) (21 / 50) (7 / 250) (7 / 25)) else
      if str_contains model ''kimi-k2.5'' \<or> str_contains model ''kimi-k25''
      then Some (ModelPricing (3 / 5) (3) (1 / 10) (3 / 5)) else
      if str_contains model ''kimi''
      then Some (ModelPricing (3 / 5) (5 / 2) (3 / 20) (3 / 5)) else
      if str_contains model ''glm-4.5-flash'' \<or> str_contains model ''glm-4-5-flash''
      then Some (ModelPricing (0) (0) (0) (0)) else
      if str_contains model ''glm-4.5-air'' \<or> str_contains model ''glm-4-5-air''
      then Some (ModelPricing (1 / 5) (11 / 10) (3 / 100) (1 / 5)) else
      if str_contains model ''glm-4.7'' \<or> str_contains model ''glm-4-7'' \<or> str_contains model ''glm''
      then Some (ModelPricing (3 / 5) (11 / 5) (11 / 100) (3 / 5)) else
      if str_contains model ''qwen3-max''
      then Some (ModelPricing (6 / 5) (6) (3 / 25) (6 / 5)) else
      if str_contains model ''qwen3.5-plus'' \<or> str_contains model ''qwen35-plus''
      then Some (ModelPricing (2 / 5) (12 / 5) (1 / 25) (2 / 5)) else
      if str_contains model ''qwen-plus''
      then Some (ModelPricing (2 / 5) (6 / 5) (1 / 25) (2 / 5)) else
      if str_contains model ''qwen-flash'' \<or> str_contains model ''qwen''
      then Some (ModelPricing (1 / 20) (2 / 5) (1 / 200) (1 / 20)) else
      if str_contains model ''doubao''
      then Some (ModelPricing (17 / 100) (111 / 100) (17 / 500) (17 / 100)) else
      if str_contains model ''MiniMax-M2.5-highspeed'' \<or> str_contains model ''minimax-m2.5-highspeed''
      then Some (ModelPricing (3 / 10) (12 / 5) (3 / 100) (3 / 10)) else
      if str_contains model ''MiniMax'' \<or> str_contains model ''minimax''
      then Some (ModelPricing (3 / 10) (6 / 5) (3 / 100) (3 / 10)) else
      if str_contains model ''mimo''
      then Some (ModelPricing (1 / 10) (3 / 10) (1 / 100) (1 / 10)) else
      None)"

definition gpt5_pricing :: "string \<Rightarrow> model_pricing option" where
  "gpt5_pricing model = (
      if str_contains model ''gpt-5-codex-mini'' \<or> str_contains model ''gpt-5.1-codex-mini''
      then Some (ModelPricing (1 / 4) (2) (1 / 40) (1 / 4)) else
      if str_contains model ''gpt-5-codex'' \<or> str_contains model ''gpt-5.1-codex''
      then Some (ModelPricing (5 / 4) (10) (1 / 8) (5 / 4)) else
      if str_contains model ''gpt-5.2-codex''
      then Some (ModelPricing (7 / 4) (14) (7 / 40) (7 / 4)) else
      if str_contains model ''gpt-5.3-codex'' \<or> str_contains model ''gpt-5.3-chat''
      then Some (ModelPricing (7 / 4) (14) (7 / 40) (7 / 4)) else
      if str_contains model ''gpt-5.4-pro''
      then Some (ModelPricing (30) (180) (3) (30)) else
      if str_contains model ''gpt-5.4-nano''
      then Some (ModelPricing (1 / 5) (5 / 4) (1 / 50) (1 / 5)) else
      if str_contains model ''gpt-5.4-mini''
      then Some (ModelPricing (3 / 4) (9 / 2) (3 / 40) (3 / 4)) else
      if str_contains model ''gpt-5.4''
      then Some (ModelPricing (5 / 2) (15) (1 / 4) (5 / 2)) else
      if str_contains model ''gpt-5.2''
      then Some (ModelPricing (7 / 4) (14) (7 / 40) (7 / 4)) else
      if str_contains model ''gpt-5.1''
      then Some (ModelPricing (5 / 4) (10) (1 / 8) (5 / 4)) else
      if str_contains model ''gpt-5''
      then Some (ModelPricing (5 / 4) (10) (1 / 8) (5 / 4)) else
      third_party_pricing model)"

definition try_get_pricing :: "string \<Rightarrow> model_pricing option" where
  "try_get_pricing model = (
      if str_contains model ''opus-4-0'' \<or> str_contains model ''opus-4-1'' \<or> str_contains model ''opus-4.0'' \<or> str_contains model ''opus-4.1''
      then Some (claude_pricing (15) (75)) else
      if str_contains model ''opus''
      then Some (claude_pricing (5) (25)) else
      if str_contains model ''haiku''
      then Some (claude_pricing (4 / 5) (4)) else
      if str_contains model ''sonnet''
      then Some (claude_pricing (3) (15)) else
      if str_contains model ''gpt-4o''
      then Some (claude_pricing (5 / 2) (10)) else
      if str_contains model ''gpt-4''
      then Some (claude_pricing (10) (30)) else
      if str_contains model ''o1'' \<or> str_contains model ''o3''
      then Some (claude_pricing (15) (60)) else
      gpt5_pricing model)"

definition get_pricing :: "string \<Rightarrow> model_pricing" where
  "get_pricing model = unwrap_or (try_get_pricing model) (claude_pricing 3 15)"

definition is_third_party :: "string \<Rightarrow> bool" where
  "is_third_party model =
     (str_contains model ''deepseek'' \<or> str_contains model ''kimi'' \<or> str_contains model ''glm''
      \<or> str_contains model ''qwen'' \<or> str_contains model ''doubao'' \<or> str_contains model ''minimax''
      \<or> str_contains model ''MiniMax'' \<or> str_contains model ''mimo'')"

definition compute_cost :: "model_pricing \<Rightarrow> nat \<Rightarrow> nat \<Rightarrow> nat \<Rightarrow> nat \<Rightarrow> rat" where
  "compute_cost p i w r c =
     (of_nat i * price_input p + of_nat w * price_output p
      + of_nat r * price_cache_read p + of_nat c * price_cache_write p) / 1000000"

definition estimate_cost :: "string \<Rightarrow> nat \<Rightarrow> nat \<Rightarrow> nat \<Rightarrow> nat \<Rightarrow> rat" where
  "estimate_cost model i w r c = compute_cost (get_pricing model) i w r c"

definition try_estimate_cost :: "string \<Rightarrow> nat \<Rightarrow> nat \<Rightarrow> nat \<Rightarrow> nat \<Rightarrow> rat option" where
  "try_estimate_cost model i w r c =
     map_option (\<lambda>p. compute_cost p i w r c) (try_get_pricing model)"

section \<open>The table is well formed\<close>

text \<open>Prices are not negative, and a cache read never costs more than a fresh input token.\<close>

definition sane_pricing :: "model_pricing \<Rightarrow> bool" where
  "sane_pricing p = (0 \<le> price_cache_read p \<and> price_cache_read p \<le> price_input p
     \<and> price_input p \<le> price_output p \<and> price_input p \<le> price_cache_write p)"

lemma sane_claude: "0 \<le> i \<Longrightarrow> i \<le> w \<Longrightarrow> sane_pricing (claude_pricing i w)"
  by (simp add: sane_pricing_def claude_pricing_def)

lemma sane_third_party: "third_party_pricing m = Some p \<Longrightarrow> sane_pricing p"
  unfolding third_party_pricing_def
  by (simp split: if_splits) (auto simp: sane_pricing_def)

lemma sane_gpt5: "gpt5_pricing m = Some p \<Longrightarrow> sane_pricing p"
  unfolding gpt5_pricing_def
  by (simp split: if_splits add: sane_third_party) (auto simp: sane_pricing_def)

lemma sane_try_get: "try_get_pricing m = Some p \<Longrightarrow> sane_pricing p"
  unfolding try_get_pricing_def
  by (auto split: if_splits intro: sane_claude sane_gpt5)

lemma sane_get_pricing: "sane_pricing (get_pricing m)"
  unfolding get_pricing_def
  by (cases "try_get_pricing m") (auto intro: sane_claude sane_try_get)

lemma compute_cost_mono:
  assumes "sane_pricing p" and "i \<le> i'" "w \<le> w'" "r \<le> r'" "c \<le> c'"
  shows "compute_cost p i w r c \<le> compute_cost p i' w' r' c'"
proof -
  have "0 \<le> price_input p" "0 \<le> price_output p" "0 \<le> price_cache_read p" "0 \<le> price_cache_write p"
    using assms(1) by (auto simp: sane_pricing_def)
  with assms(2-) show ?thesis
    unfolding compute_cost_def
    by (intro divide_right_mono add_mono mult_right_mono) auto
qed

text \<open>Every model the third-party test recognises has an entry in the table.\<close>

lemma third_party_priced: "is_third_party m \<Longrightarrow> third_party_pricing m \<noteq> None"
  by (auto simp: is_third_party_def third_party_pricing_def)

lemma gpt5_third_party: "is_third_party m \<Longrightarrow> gpt5_pricing m \<noteq> None"
  using third_party_priced [of m] by (auto simp: gpt5_pricing_def)

lemma try_get_third_party: "is_third_party m \<Longrightarrow> try_get_pricing m \<noteq> None"
  using gpt5_third_party [of m] by (auto simp: try_get_pricing_def)

lemma compute_cost_zero [simp]: "compute_cost p 0 0 0 0 = 0"
  by (simp add: compute_cost_def)

lemma compute_cost_nonneg: "sane_pricing p \<Longrightarrow> 0 \<le> compute_cost p i w r c"
  using compute_cost_mono [of p 0 i 0 w 0 r 0 c] by simp

text \<open>Moving tokens from the fresh input to the cache lowers the cost.\<close>

lemma cached_not_dearer:
  assumes "sane_pricing p"
  shows "compute_cost p i w (r + k) c \<le> compute_cost p (i + k) w r c"
proof -
  have "of_nat k * price_cache_read p \<le> of_nat k * price_input p"
    using assms by (intro mult_left_mono) (simp_all add: sane_pricing_def)
  then have "of_nat i * price_input p + of_nat w * price_output p
      + of_nat (r + k) * price_cache_read p + of_nat c * price_cache_write p
    \<le> of_nat (i + k) * price_input p + of_nat w * price_output p
      + of_nat r * price_cache_read p + of_nat c * price_cache_write p"
    by (simp add: distrib_right)
  then show ?thesis unfolding compute_cost_def by (rule divide_right_mono) simp
qed

text \<open>The estimated cost never falls when any of the four token counts grows, it is never
  negative, and tokens read from the cache never cost more than the same tokens sent fresh.\<close>

theorem estimate_cost_monotone:
  assumes "i \<le> i'" "w \<le> w'" "r \<le> r'" "c \<le> c'"
  shows "0 \<le> estimate_cost m i w r c \<and> estimate_cost m i w r c \<le> estimate_cost m i' w' r' c'
    \<and> estimate_cost m i w (r + k) c \<le> estimate_cost m (i + k) w r c"
  using assms sane_get_pricing [of m]
  by (simp add: estimate_cost_def compute_cost_nonneg compute_cost_mono cached_not_dearer)

theorem estimate_cost_monotone_witness:
  "estimate_cost ''claude-sonnet'' 10 5 0 0 \<le> estimate_cost ''claude-sonnet'' 20 5 7 0"
  using estimate_cost_monotone [of 10 20 5 5 0 7 0 0 "''claude-sonnet''"] by simp

text \<open>A model that counts as third-party is always in the price table, so its usage always gets
  a cost, the one \<open>estimate_cost\<close> reports.\<close>

theorem third_party_always_priced:
  assumes "is_third_party m"
  shows "try_estimate_cost m i w r c = Some (estimate_cost m i w r c)"
  using try_get_third_party [OF assms]
  by (auto simp: try_estimate_cost_def estimate_cost_def get_pricing_def unwrap_or_def)

theorem third_party_always_priced_witness:
  "try_estimate_cost ''kimi-k2.5'' 1 1 0 0 = Some (estimate_cost ''kimi-k2.5'' 1 1 0 0)"
  by (rule third_party_always_priced) (simp add: is_third_party_def str_contains_def starts_with_def)

text \<open>
  The substring test for OpenAI's \<open>o1\<close> and \<open>o3\<close> comes before the third-party table: a name such
  as \<open>doubao1.5-pro\<close> is priced as \<open>o1\<close> although the table has an entry for its family.
\<close>

lemma doubao_priced_as_o1:
  "try_get_pricing ''doubao1.5-pro'' = Some (claude_pricing 15 60)
   \<and> third_party_pricing ''doubao1.5-pro'' = Some (ModelPricing (17 / 100) (111 / 100) (17 / 500) (17 / 100))"
  by (simp add: try_get_pricing_def third_party_pricing_def str_contains_def starts_with_def)

end
