(* ===== verification/Claude_Protocol.thy ===== *)
theory Claude_Protocol
  imports Pricing
begin

text \<open>
  \<open>src-tauri/src/agent/claude_protocol.rs\<close>: the stream-json protocol of the Claude CLI. The
  accumulator state \<open>ProtocolState\<close>, the validation of outgoing events, and \<open>map_event\<close>, which
  turns one raw JSON event into bus events. \<open>map_event\<close> is split along its match arms, one
  definition per arm. The text of the fresh UUID the source draws for a message without an id
  is the argument \<open>fresh\<close>; logging is not modelled.
\<close>

section \<open>Helpers\<close>

definition str_field :: "json \<Rightarrow> string \<Rightarrow> string" where
  "str_field v key = unwrap_or (get_str v key) []"

definition opt_str :: "json \<Rightarrow> string \<Rightarrow> string option" where
  "opt_str v key = get_str v key"

definition extract_xml_tag :: "string \<Rightarrow> string \<Rightarrow> string option" where
  "extract_xml_tag text tag =
     (let open_tag = ''<'' @ tag @ ''>''; close_tag = ''</'' @ tag @ ''>'' in
      case str_find text open_tag of
        None \<Rightarrow> None
      | Some start \<Rightarrow>
          let content_start = start + length open_tag; rest = drop content_start text in
          (case str_find rest close_tag of
             None \<Rightarrow> None
           | Some end_pos \<Rightarrow>
               let value = trim (take end_pos rest) in
               if value = [] then None else Some value))"

section \<open>Parsing statistics and the accumulator state\<close>

record parser_stats =
  unknown_event_count :: nat
  parse_warn_count :: nat
  invalid_tool_count :: nat
  dropped_count :: nat

definition parser_stats_default :: parser_stats where
  "parser_stats_default = \<lparr>unknown_event_count = 0, parse_warn_count = 0,
     invalid_tool_count = 0, dropped_count = 0\<rparr>"

record protocol_state =
  emitted_tool_ids :: "string \<rightharpoonup> string"
  input_json_accum :: "string \<rightharpoonup> string"
  last_tool_use_id :: "string option"
  got_result_event :: bool
  result_subtype :: "string option"
  is_resume :: bool
  seen_first_init :: bool
  pending_slash_command :: "string option"
  stats :: parser_stats
  seen_stream_event_envelope :: bool

definition protocol_new :: "bool \<Rightarrow> protocol_state" where
  "protocol_new resume = \<lparr>emitted_tool_ids = Map.empty, input_json_accum = Map.empty,
     last_tool_use_id = None, got_result_event = False, result_subtype = None,
     is_resume = resume, seen_first_init = False, pending_slash_command = None,
     stats = parser_stats_default, seen_stream_event_envelope = False\<rparr>"

definition set_pending_slash_command :: "string option \<Rightarrow> protocol_state \<Rightarrow> protocol_state" where
  "set_pending_slash_command cmd p = p\<lparr>pending_slash_command := cmd\<rparr>"

definition count_unknown :: "protocol_state \<Rightarrow> protocol_state" where
  "count_unknown p =
     p\<lparr>stats := (stats p)\<lparr>unknown_event_count := Suc (unknown_event_count (stats p))\<rparr>\<rparr>"

section \<open>Validation of outgoing events\<close>

text \<open>\<open>True\<close> when the event must be dropped (the source returns \<open>Some(warn)\<close>).\<close>

fun validate_bus_event :: "bus_event \<Rightarrow> bool" where
  "validate_bus_event (ToolStart r tid n i p) = (tid = [])"
| "validate_bus_event (ToolEnd r tid n out st d p tr) = (tid = [])"
| "validate_bus_event (ToolInputDelta r tid j p) = (tid = [])"
| "validate_bus_event (ToolProgress r tid e d p) = (tid = [])"
| "validate_bus_event (ToolOutputDelta r tid d p) = (tid = [])"
| "validate_bus_event (ToolUseSummary r tid s ids d p) = (tid = [])"
| "validate_bus_event _ = False"

section \<open>The stream\_event envelope\<close>

definition nonempty_str :: "json option \<Rightarrow> string option" where
  "nonempty_str v = opt_filter (\<lambda>s. s \<noteq> []) (Option.bind v as_str)"

definition unwrap_envelope ::
  "json \<Rightarrow> protocol_state \<Rightarrow> json \<times> string option \<times> protocol_state" where
  "unwrap_envelope raw p =
     (if str_field raw ''type'' = ''stream_event'' then
        (case opt_filter (\<lambda>v. nonempty_str (jget v ''type'') \<noteq> None) (jget raw ''event'') of
           Some inner \<Rightarrow>
             (inner,
              nonempty_str (or_else (jget inner ''parent_tool_use_id'') (jget raw ''parent_tool_use_id'')),
              p\<lparr>seen_stream_event_envelope := True\<rparr>)
         | None \<Rightarrow> (raw, nonempty_str (jget raw ''parent_tool_use_id''), p))
      else (raw, nonempty_str (jget raw ''parent_tool_use_id''), p))"

section \<open>System events\<close>

definition parse_mcp_server :: "json \<Rightarrow> mcp_server_info option" where
  "parse_mcp_server s =
     map_option (\<lambda>name. \<lparr>mcp_name = name, mcp_status = unwrap_or (get_str s ''status'') ''pending'',
       mcp_server_type = opt_str s ''type'', mcp_error = opt_str s ''error''\<rparr>) (get_str s ''name'')"

definition str_array :: "json \<Rightarrow> string \<Rightarrow> string list" where
  "str_array raw k = (case get_array raw k of None \<Rightarrow> [] | Some arr \<Rightarrow> filter_map as_str arr)"

definition session_init_event :: "string \<Rightarrow> json \<Rightarrow> session_init_ev" where
  "session_init_event run_id raw =
     \<lparr>si_run_id = run_id,
      si_session_id = get_str raw ''session_id'',
      si_model = get_str raw ''model'',
      si_tools = (case get_array raw ''tools'' of None \<Rightarrow> []
         | Some arr \<Rightarrow> filter_map (\<lambda>v. or_else (get_str v ''name'') (as_str v)) arr),
      si_cwd = unwrap_or (get_str raw ''cwd'') [],
      si_slash_commands = unwrap_or (get_array raw ''slash_commands'') [],
      si_mcp_servers = (case get_array raw ''mcp_servers'' of None \<Rightarrow> []
         | Some arr \<Rightarrow> filter_map parse_mcp_server arr),
      si_permission_mode = get_str raw ''permissionMode'',
      si_api_key_source = get_str raw ''apiKeySource'',
      si_claude_code_version = get_str raw ''claude_code_version'',
      si_output_style = get_str raw ''output_style'',
      si_agents = str_array raw ''agents'',
      si_skills = str_array raw ''skills'',
      si_plugins = unwrap_or (get_array raw ''plugins'') [],
      si_plugin_errors = unwrap_or (get_array raw ''plugin_errors'') [],
      si_fast_mode_state = get_str raw ''fast_mode_state''\<rparr>"

definition on_system_init ::
  "string \<Rightarrow> json \<Rightarrow> protocol_state \<Rightarrow> protocol_state \<times> bus_event list" where
  "on_system_init run_id raw p =
     (let ev = session_init_event run_id raw;
          mcp_raw_count = (case get_array raw ''mcp_servers'' of None \<Rightarrow> 0 | Some a \<Rightarrow> length a);
          mcp_dropped = mcp_raw_count - length (si_mcp_servers ev);
          p1 = p\<lparr>stats := (stats p)\<lparr>parse_warn_count := parse_warn_count (stats p) + mcp_dropped\<rparr>\<rparr>
      in (p1\<lparr>seen_first_init := True\<rparr>,
          SessionInit ev #
          (if \<not> seen_first_init p \<and> \<not> is_resume p
           then [RunState run_id ''running'' None None] else [])))"

definition on_system_hook_response :: "string \<Rightarrow> json \<Rightarrow> bus_event" where
  "on_system_hook_response run_id raw =
     HookResponse run_id (unwrap_or (get_str raw ''hook_id'') []) (unwrap_or (get_str raw ''hook_event'') [])
       (unwrap_or (get_str raw ''outcome'') []) raw (get_str raw ''hook_name'')
       (opt_str raw ''stdout'') (opt_str raw ''stderr'')
       (map_option as_i32 (Option.bind (jget raw ''exit_code'') as_i64))"

definition on_system ::
  "string \<Rightarrow> json \<Rightarrow> protocol_state \<Rightarrow> protocol_state \<times> bus_event list" where
  "on_system run_id raw p =
     (let subtype = str_field raw ''subtype'' in
      if subtype = ''init'' then on_system_init run_id raw p
      else if subtype = ''compact_boundary'' then
        (let metadata = jget raw ''compact_metadata'' in
         (p, [CompactBoundary run_id
                (unwrap_or (Option.bind (jget_opt metadata ''trigger'') as_str) ''auto'')
                (Option.bind (jget_opt metadata ''pre_tokens'') as_u64)]))
      else if subtype = ''microcompact_boundary'' then
        (p, [CompactBoundary run_id ''micro_auto'' None])
      else if subtype = ''status'' then
        (p, [SystemStatus run_id (opt_str raw ''status'') raw])
      else if subtype = ''hook_started'' then
        (p, [HookStarted run_id (unwrap_or (get_str raw ''hook_event'') [])
               (unwrap_or (get_str raw ''hook_id'') []) raw (get_str raw ''hook_name'')])
      else if subtype = ''hook_progress'' then
        (p, [HookProgress run_id (unwrap_or (get_str raw ''hook_id'') []) raw])
      else if subtype = ''hook_response'' then
        (p, [on_system_hook_response run_id raw])
      else if subtype = ''task_notification'' then
        (p, [TaskNotification run_id (unwrap_or (get_str raw ''task_id'') [])
               (unwrap_or (get_str raw ''status'') []) raw])
      else if subtype = ''files_persisted'' then
        (p, [FilesPersisted run_id (unwrap_or (jget raw ''files'') (JArr [])) raw])
      else if subtype = ''auth_status'' then
        (p, [AuthStatus run_id (unwrap_or (get_bool raw ''isAuthenticating'') False)
               (str_array raw ''output'') raw])
      else if subtype = ''local_command_output'' then
        (let content = unwrap_or (get_str raw ''content'') [] in
         (set_pending_slash_command None p,
          if content \<noteq> [] then [CommandOutput run_id content] else []))
      else if subtype = ''api_retry'' then
        (p, [SystemStatus run_id (Some ''api_retry'') raw])
      else if subtype = ''thinking_tokens'' then
        (p, [Raw run_id ''claude_system_thinking_tokens'' raw])
      else if subtype \<noteq> [] then
        (count_unknown p, [Raw run_id (''claude_system_'' @ subtype) raw])
      else (p, []))"

section \<open>Streaming events\<close>

definition on_content_block_start ::
  "string \<Rightarrow> json \<Rightarrow> string option \<Rightarrow> protocol_state \<Rightarrow> protocol_state \<times> bus_event list" where
  "on_content_block_start run_id raw parent p =
     (case jget raw ''content_block'' of
        None \<Rightarrow> (p, [])
      | Some block \<Rightarrow>
          let block_type = unwrap_or (get_str block ''type'') [] in
          if block_type = ''tool_use'' then
            (let tid = unwrap_or (get_str block ''id'') [];
                 name = unwrap_or (get_str block ''name'') [] in
             if tid \<noteq> [] then
               (p\<lparr>emitted_tool_ids := (emitted_tool_ids p)(tid \<mapsto> name),
                  input_json_accum := (input_json_accum p)(tid \<mapsto> []),
                  last_tool_use_id := Some tid\<rparr>,
                [ToolStart run_id tid name JNull parent])
             else (p, []))
          else if block_type = ''thinking'' then
            (let text = unwrap_or (get_str block ''thinking'') [] in
             (p, if text \<noteq> [] then [ThinkingDelta run_id text parent] else []))
          else (p, []))"

definition on_input_json_delta ::
  "string \<Rightarrow> string \<Rightarrow> string option \<Rightarrow> protocol_state \<Rightarrow> protocol_state \<times> bus_event list" where
  "on_input_json_delta run_id partial parent p =
     (case last_tool_use_id p of
        None \<Rightarrow> (p, [])
      | Some tid \<Rightarrow>
          ((case input_json_accum p tid of
              None \<Rightarrow> p
            | Some acc \<Rightarrow> p\<lparr>input_json_accum := (input_json_accum p)(tid \<mapsto> acc @ partial)\<rparr>),
           if partial \<noteq> [] then [ToolInputDelta run_id tid partial parent] else []))"

definition on_content_block_delta ::
  "string \<Rightarrow> json \<Rightarrow> string option \<Rightarrow> protocol_state \<Rightarrow> protocol_state \<times> bus_event list" where
  "on_content_block_delta run_id raw parent p =
     (case jget raw ''delta'' of
        None \<Rightarrow> (p, [])
      | Some delta \<Rightarrow>
          let delta_type = str_field delta ''type'' in
          if delta_type = ''text_delta'' then
            (case get_str delta ''text'' of
               None \<Rightarrow> (p, [])
             | Some text \<Rightarrow> (p, if text \<noteq> [] then [MessageDelta run_id text parent] else []))
          else if delta_type = ''thinking_delta'' \<or> delta_type = ''thinking'' then
            (let text = str_field delta ''thinking'' in
             (p, if text \<noteq> [] then [ThinkingDelta run_id text parent] else []))
          else if delta_type = ''input_json_delta'' then
            (case get_str delta ''partial_json'' of
               None \<Rightarrow> (p, [])
             | Some partial \<Rightarrow> on_input_json_delta run_id partial parent p)
          else (p, []))"

section \<open>Complete assistant messages\<close>

text \<open>One block of the content array: the text it adds and the events it emits.\<close>

definition assistant_block ::
  "string \<Rightarrow> string option \<Rightarrow> json \<Rightarrow> protocol_state \<Rightarrow> protocol_state \<times> string list \<times> bus_event list" where
  "assistant_block run_id parent block p =
     (let block_type = str_field block ''type'' in
      if block_type = ''text'' then
        (case get_str block ''text'' of None \<Rightarrow> (p, [], []) | Some t \<Rightarrow> (p, [t], []))
      else if block_type = ''tool_use'' then
        (let tid = unwrap_or (get_str block ''id'') [];
             name = unwrap_or (get_str block ''name'') [] in
         case emitted_tool_ids p tid of
           Some _ \<Rightarrow> (p, [], [])
         | None \<Rightarrow>
             (p\<lparr>emitted_tool_ids := (emitted_tool_ids p)(tid \<mapsto> name)\<rparr>, [],
              [ToolStart run_id tid name (unwrap_or (jget block ''input'') JNull) parent]))
      else (p, [], []))"

fun assistant_blocks ::
  "string \<Rightarrow> string option \<Rightarrow> json list \<Rightarrow> protocol_state \<Rightarrow> protocol_state \<times> string list \<times> bus_event list" where
  "assistant_blocks run_id parent [] p = (p, [], [])"
| "assistant_blocks run_id parent (b # bs) p =
     (let (p1, ts1, es1) = assistant_block run_id parent b p;
          (p2, ts2, es2) = assistant_blocks run_id parent bs p1
      in (p2, ts1 @ ts2, es1 @ es2))"

definition on_assistant ::
  "string \<Rightarrow> string \<Rightarrow> json \<Rightarrow> string option \<Rightarrow> protocol_state \<Rightarrow> protocol_state \<times> bus_event list" where
  "on_assistant fresh run_id raw parent p =
     (let message = unwrap_or (jget raw ''message'') raw;
          message_id = unwrap_or (get_str message ''id'') (str_field raw ''id'') in
      case get_array message ''content'' of
        None \<Rightarrow> (p, [])
      | Some content \<Rightarrow>
          (let (p', texts, evs) = assistant_blocks run_id parent content p in
           (p', evs @
              (if texts \<noteq> [] then
                 [MessageComplete run_id (if message_id = [] then take 12 fresh else message_id)
                    (concat texts) parent (get_str message ''model'')
                    (get_str message ''stop_reason'') (jget message ''usage'')]
               else []))))"

section \<open>User events: command output, task notifications and tool results\<close>

definition task_notification_data ::
  "string \<Rightarrow> string \<Rightarrow> string \<Rightarrow> json" where
  "task_notification_data text tid st =
     JObj [(''task_id'', JStr tid),
           (''tool_use_id'', jopt_str (extract_xml_tag text ''tool-use-id'')),
           (''status'', JStr st),
           (''summary'', jopt_str (extract_xml_tag text ''summary'')),
           (''result'', jopt_str (extract_xml_tag text ''result'')),
           (''output_file'', jopt_str (extract_xml_tag text ''output-file''))]"

definition tool_result_event ::
  "string \<Rightarrow> json option \<Rightarrow> string option \<Rightarrow> protocol_state \<Rightarrow> json \<Rightarrow> bus_event option" where
  "tool_result_event run_id tool_use_result parent p block =
     (if str_field block ''type'' = ''tool_result'' then
        (let tid = unwrap_or (get_str block ''tool_use_id'') [] in
         Some (ToolEnd run_id tid (unwrap_or (emitted_tool_ids p tid) [])
                 (unwrap_or (jget block ''content'') JNull)
                 (if unwrap_or (get_bool block ''is_error'') False then ''error'' else ''success'')
                 None parent tool_use_result))
      else None)"

definition LOCAL_STDOUT_OPEN :: string where
  "LOCAL_STDOUT_OPEN = ''<local-command-stdout>''"

definition LOCAL_STDOUT_CLOSE :: string where
  "LOCAL_STDOUT_CLOSE = ''</local-command-stdout>''"

definition command_output_text :: "string \<Rightarrow> string" where
  "command_output_text text =
     (let inner = unwrap_or (strip_prefix text LOCAL_STDOUT_OPEN) text in
      trim (unwrap_or (strip_suffix inner LOCAL_STDOUT_CLOSE) inner))"

definition on_user ::
  "string \<Rightarrow> json \<Rightarrow> string option \<Rightarrow> protocol_state \<Rightarrow> protocol_state \<times> bus_event list" where
  "on_user run_id raw parent p =
     (let tool_use_result = jget raw ''tool_use_result'';
          message = unwrap_or (jget raw ''message'') raw;
          tool_results =
            (case get_array message ''content'' of
               None \<Rightarrow> []
             | Some content \<Rightarrow> filter_map (tool_result_event run_id tool_use_result parent p) content)
      in case get_str message ''content'' of
           None \<Rightarrow> (p, tool_results)
         | Some text \<Rightarrow>
             if starts_with text LOCAL_STDOUT_OPEN then
               (set_pending_slash_command None p, [CommandOutput run_id (command_output_text text)])
             else if str_contains text ''<task-notification>''
                     \<and> str_contains text ''</task-notification>'' then
               (p, case (extract_xml_tag text ''task-id'', extract_xml_tag text ''status'') of
                     (Some tid, Some st) \<Rightarrow>
                       [TaskNotification run_id tid st (task_notification_data text tid st)]
                   | _ \<Rightarrow> [])
             else (p, tool_results))"

section \<open>Result events\<close>

definition parse_model_usage_entry :: "json \<Rightarrow> model_usage_entry" where
  "parse_model_usage_entry entry =
     \<lparr>mu_input_tokens = unwrap_or (get_u64 entry ''inputTokens'') 0,
      mu_output_tokens = unwrap_or (get_u64 entry ''outputTokens'') 0,
      mu_cache_read_tokens = unwrap_or (get_u64 entry ''cacheReadInputTokens'') 0,
      mu_cache_write_tokens = unwrap_or (get_u64 entry ''cacheCreationInputTokens'') 0,
      mu_web_search_requests = unwrap_or (get_u64 entry ''webSearchRequests'') 0,
      mu_cost_usd = unwrap_or (get_f64 entry ''costUSD'') 0,
      mu_context_window = get_u64 entry ''contextWindow'',
      mu_max_output_tokens = get_u64 entry ''maxOutputTokens''\<rparr>"

definition parse_model_usage :: "json \<Rightarrow> (string \<times> model_usage_entry) list option" where
  "parse_model_usage raw =
     map_option (map (\<lambda>(m, e). (m, parse_model_usage_entry e)))
       (Option.bind (jget raw ''modelUsage'') as_object)"

definition recalculate_entry :: "string \<times> model_usage_entry \<Rightarrow> string \<times> model_usage_entry" where
  "recalculate_entry me =
     (case me of (m, e) \<Rightarrow>
        (m, e\<lparr>mu_cost_usd := estimate_cost m (mu_input_tokens e) (mu_output_tokens e)
                (mu_cache_read_tokens e) (mu_cache_write_tokens e)\<rparr>))"

text \<open>
  Which cost is reported: the CLI's own figure, unless a third-party model is present, in which
  case every entry is priced again from the table and the total is the sum of the new prices.
\<close>

definition reported_cost ::
  "rat \<Rightarrow> (string \<times> model_usage_entry) list option
   \<Rightarrow> rat \<times> (string \<times> model_usage_entry) list option" where
  "reported_cost cli_cost model_usage =
     (case model_usage of
        None \<Rightarrow> (cli_cost, None)
      | Some mu \<Rightarrow>
          if list_ex (\<lambda>(m, e). is_third_party m) mu then
            (let mu' = map recalculate_entry mu in
             (sum_list (map (\<lambda>(m, e). mu_cost_usd e) mu'), Some mu'))
          else (cli_cost, Some mu))"

definition result_usage_event :: "string \<Rightarrow> json \<Rightarrow> json \<Rightarrow> usage_ev" where
  "result_usage_event run_id raw usage =
     (let cli_cost = unwrap_or (or_else (get_f64 raw ''cost_usd'') (get_f64 raw ''total_cost_usd'')) 0;
          (cost, mu) = reported_cost cli_cost (parse_model_usage raw);
          cache_creation = jget usage ''cache_creation''
      in \<lparr>us_run_id = run_id,
          us_input_tokens = unwrap_or (get_u64 usage ''input_tokens'') 0,
          us_output_tokens = unwrap_or (get_u64 usage ''output_tokens'') 0,
          us_cache_read_tokens = get_u64 usage ''cache_read_input_tokens'',
          us_cache_write_tokens = get_u64 usage ''cache_creation_input_tokens'',
          us_total_cost_usd = cost,
          us_turn_index = None,
          us_model_usage = mu,
          us_duration_api_ms = get_u64 raw ''duration_api_ms'',
          us_duration_ms = get_u64 raw ''duration_ms'',
          us_num_turns = get_u64 raw ''num_turns'',
          us_stop_reason = get_str raw ''stop_reason'',
          us_service_tier = get_str usage ''service_tier'',
          us_speed = get_str usage ''speed'',
          us_web_fetch_requests =
            Option.bind (jget_opt (jget usage ''server_tool_use'') ''web_fetch_requests'') as_u64,
          us_cache_creation_5m =
            Option.bind (jget_opt cache_creation ''ephemeral_5m_input_tokens'') as_u64,
          us_cache_creation_1h =
            Option.bind (jget_opt cache_creation ''ephemeral_1h_input_tokens'') as_u64\<rparr>)"

definition slash_hint :: "string \<Rightarrow> string" where
  "slash_hint cmd =
     (if cmd = ''/cost'' then
        ''The /cost output is not available in the current CLI version. Cumulative cost is shown in the status bar.''
      else if cmd = ''/context'' then
        ''The /context output is not available in the current CLI version. Run /context in a terminal session instead.''
      else [])"

text \<open>The part of the arm guarded by \<open>raw.get("usage")\<close>; it takes the pending slash command.\<close>

definition on_result_usage ::
  "string \<Rightarrow> json \<Rightarrow> protocol_state \<Rightarrow> protocol_state \<times> bus_event list" where
  "on_result_usage run_id raw p =
     (case jget raw ''usage'' of
        None \<Rightarrow> (p, [])
      | Some usage \<Rightarrow>
          (set_pending_slash_command None p,
           UsageUpdate (result_usage_event run_id raw usage) #
           (case pending_slash_command p of
              None \<Rightarrow> []
            | Some cmd \<Rightarrow>
                if slash_hint cmd \<noteq> [] then [CommandOutput run_id (slash_hint cmd)] else [])))"

definition permission_denied_event :: "string \<Rightarrow> json \<Rightarrow> bus_event option" where
  "permission_denied_event run_id denial =
     (let name = unwrap_or (get_str denial ''tool_name'') [] in
      if name \<noteq> [] then
        Some (PermissionDenied run_id name (unwrap_or (get_str denial ''tool_use_id'') [])
                (unwrap_or (jget denial ''tool_input'') JNull))
      else None)"

definition result_error_message :: "json \<Rightarrow> string" where
  "result_error_message raw =
     unwrap_or
       (or_else (get_str raw ''error'')
          (map_option (\<lambda>arr. str_join ''; '' (filter_map as_str arr)) (get_array raw ''errors'')))
       ''Unknown error''"

definition on_result ::
  "string \<Rightarrow> json \<Rightarrow> protocol_state \<Rightarrow> protocol_state \<times> bus_event list" where
  "on_result run_id raw p =
     (let subtype = str_field raw ''subtype'';
          (p1, usage_events) = on_result_usage run_id raw p;
          denied = (case get_array raw ''permission_denials'' of None \<Rightarrow> []
                    | Some ds \<Rightarrow> filter_map (permission_denied_event run_id) ds)
      in if starts_with subtype ''error'' then
           (p1\<lparr>got_result_event := True, result_subtype := Some subtype\<rparr>,
            usage_events @ denied @
              [RunState run_id ''idle'' None (Some (result_error_message raw))])
         else
           (p1, usage_events @ denied @ [RunState run_id ''idle'' None None]))"

section \<open>The remaining top-level events\<close>

definition rejected_tool_event :: "string \<Rightarrow> json \<Rightarrow> string option \<Rightarrow> bus_event" where
  "rejected_tool_event run_id raw parent =
     ToolEnd run_id (str_field raw ''tool_use_id'') (str_field raw ''tool_name'') JNull ''rejected''
       None parent None"

definition tool_progress_event :: "string \<Rightarrow> json \<Rightarrow> string option \<Rightarrow> bus_event" where
  "tool_progress_event run_id raw parent =
     ToolProgress run_id (unwrap_or (get_str raw ''tool_use_id'') [])
       (get_f64 raw ''elapsed_time_seconds'') raw parent"

definition tool_use_summary_event :: "string \<Rightarrow> json \<Rightarrow> string option \<Rightarrow> bus_event" where
  "tool_use_summary_event run_id raw parent =
     ToolUseSummary run_id (unwrap_or (get_str raw ''tool_use_id'') [])
       (unwrap_or (get_str raw ''summary'') []) (str_array raw ''preceding_tool_use_ids'') raw parent"

definition protocol_rate_limit_event :: "string \<Rightarrow> json \<Rightarrow> bus_event" where
  "protocol_rate_limit_event run_id raw =
     (let info = jget raw ''rate_limit_info'' in
      RateLimitEvent run_id
        (unwrap_or (Option.bind (jget_opt info ''status'') as_str) ''allowed'')
        (Option.bind (jget_opt info ''resetsAt'') as_f64)
        (Option.bind (jget_opt info ''rateLimitType'') as_str)
        (Option.bind (jget_opt info ''utilization'') as_f64) raw)"

section \<open>The event map\<close>

definition map_event_inner ::
  "string \<Rightarrow> string \<Rightarrow> json \<Rightarrow> string option \<Rightarrow> protocol_state \<Rightarrow> protocol_state \<times> bus_event list" where
  "map_event_inner fresh run_id raw parent p =
     (let event_type = str_field raw ''type'' in
      if event_type = ''system'' then on_system run_id raw p
      else if event_type = ''content_block_start'' then on_content_block_start run_id raw parent p
      else if event_type = ''content_block_delta'' then on_content_block_delta run_id raw parent p
      else if event_type = ''content_block_stop'' then (p, [])
      else if event_type = ''message_stop'' then (p, [])
      else if event_type = ''assistant'' then on_assistant fresh run_id raw parent p
      else if event_type = ''user'' then on_user run_id raw parent p
      else if event_type = ''result'' then on_result run_id raw p
      else if event_type = ''user_rejected_tool_use'' then (p, [rejected_tool_event run_id raw parent])
      else if event_type = ''tool_progress'' then (p, [tool_progress_event run_id raw parent])
      else if event_type = ''tool_use_summary'' then (p, [tool_use_summary_event run_id raw parent])
      else if event_type = ''rate_limit_event'' then (p, [protocol_rate_limit_event run_id raw])
      else if event_type \<noteq> [] then
        (count_unknown p, [Raw run_id (''claude_'' @ event_type) raw])
      else
        (p\<lparr>stats := (stats p)\<lparr>dropped_count := Suc (dropped_count (stats p))\<rparr>\<rparr>, []))"

definition map_event ::
  "string \<Rightarrow> string \<Rightarrow> json \<Rightarrow> protocol_state \<Rightarrow> protocol_state \<times> bus_event list" where
  "map_event fresh run_id raw p =
     (let (raw', parent, p') = unwrap_envelope raw p in map_event_inner fresh run_id raw' parent p')"

text \<open>Mapping a whole stream, one fresh text per event.\<close>

fun map_events ::
  "(nat \<Rightarrow> string) \<Rightarrow> nat \<Rightarrow> string \<Rightarrow> json list \<Rightarrow> protocol_state \<Rightarrow> protocol_state \<times> bus_event list" where
  "map_events fresh n run_id [] p = (p, [])"
| "map_events fresh n run_id (r # rs) p =
     (let (p1, es1) = map_event (fresh n) run_id r p;
          (p2, es2) = map_events fresh (Suc n) run_id rs p1
      in (p2, es1 @ es2))"

end
