(* ===== verification/Runs_Store.thy ===== *)
theory Runs_Store
  imports Models
begin

text \<open>
  \<open>src-tauri/src/storage/runs.rs\<close>: the metadata store of the runs, one \<open>meta.json\<close> per run id.
  The store is a map from run ids to records; the per-run mutex makes every read-modify-write
  atomic, so an operation is one function on the store. What the file system answers is an
  argument: \<open>save_env\<close> holds the outcome of creating the directory, writing the temporary file
  and each attempt to rename it, and the clock's text is the argument \<open>now\<close>.
\<close>

section \<open>Saving\<close>

datatype rename_outcome = RenameOk | PermissionDenied string | RenameErr string

record save_env =
  se_ensure :: "string option"
  se_write :: "string option"
  se_rename :: "nat \<Rightarrow> rename_outcome"

definition save_ok :: save_env where
  "save_ok = \<lparr>se_ensure = None, se_write = None, se_rename = (\<lambda>_. RenameOk)\<rparr>"

text \<open>
  The loop over the attempts 0, 1, 2: \<open>fuel\<close> counts the attempts left. A permission error is
  retried only while \<open>attempt < 2\<close>.
\<close>

fun rename_loop :: "(nat \<Rightarrow> rename_outcome) \<Rightarrow> nat \<Rightarrow> nat \<Rightarrow> string + unit" where
  "rename_loop out attempt 0 = Inl ''rename: PermissionDenied after 3 retries''"
| "rename_loop out attempt (Suc fuel) =
     (case out attempt of
        RenameOk \<Rightarrow> Inr ()
      | PermissionDenied e \<Rightarrow>
          if attempt < 2 then rename_loop out (Suc attempt) fuel else Inl (''rename: '' @ e)
      | RenameErr e \<Rightarrow> Inl (''rename: '' @ e))"

type_synonym meta_store = "string \<rightharpoonup> run_meta"

definition save_meta :: "save_env \<Rightarrow> run_meta \<Rightarrow> meta_store \<Rightarrow> (string + unit) \<times> meta_store" where
  "save_meta se m st =
     (case se_ensure se of
        Some e \<Rightarrow> (Inl e, st)
      | None \<Rightarrow>
          (case se_write se of
             Some e \<Rightarrow> (Inl (''write tmp: '' @ e), st)
           | None \<Rightarrow>
               (case rename_loop (se_rename se) 0 3 of
                  Inl e \<Rightarrow> (Inl e, st)
                | Inr _ \<Rightarrow> (Inr (), st(m_id m \<mapsto> m)))))"

section \<open>Reading and read-modify-write\<close>

definition get_run_raw :: "meta_store \<Rightarrow> string \<Rightarrow> run_meta option" where
  "get_run_raw st rid = st rid"

definition get_run :: "meta_store \<Rightarrow> string \<Rightarrow> run_meta option" where
  "get_run st rid = opt_filter (\<lambda>m. m_deleted_at m = None) (get_run_raw st rid)"

definition not_found :: "string \<Rightarrow> string" where
  "not_found rid = ''Run '' @ rid @ '' not found''"

definition with_meta ::
  "save_env \<Rightarrow> string \<Rightarrow> (run_meta \<Rightarrow> run_meta) \<Rightarrow> meta_store \<Rightarrow> (string + unit) \<times> meta_store" where
  "with_meta se rid f st =
     (case get_run st rid of
        None \<Rightarrow> (Inl (not_found rid), st)
      | Some m \<Rightarrow> save_meta se (f m) st)"

definition next_codex_process_seq ::
  "save_env \<Rightarrow> string \<Rightarrow> meta_store \<Rightarrow> (string + nat) \<times> meta_store" where
  "next_codex_process_seq se rid st =
     (let bump = (\<lambda>m. Suc (unwrap_or (m_codex_process_seq m) 0)) in
      case with_meta se rid (\<lambda>m. m\<lparr>m_codex_process_seq := Some (bump m)\<rparr>) st of
        (Inl e, st') \<Rightarrow> (Inl e, st')
      | (Inr _, st') \<Rightarrow> (Inr (case get_run st rid of None \<Rightarrow> 0 | Some m \<Rightarrow> bump m), st'))"

definition update_session_id ::
  "save_env \<Rightarrow> string \<Rightarrow> string \<Rightarrow> meta_store \<Rightarrow> (string + unit) \<times> meta_store" where
  "update_session_id se rid sid st =
     (if sid = [] then (Inr (), st)
      else with_meta se rid
             (\<lambda>m. if m_session_id m = Some sid then m else m\<lparr>m_session_id := Some sid\<rparr>) st)"

definition rename_run ::
  "save_env \<Rightarrow> string \<Rightarrow> string \<Rightarrow> meta_store \<Rightarrow> (string + unit) \<times> meta_store" where
  "rename_run se rid name st =
     with_meta se rid (\<lambda>m. m\<lparr>m_name := (if name = [] then None else Some name)\<rparr>) st"

definition update_run_model ::
  "save_env \<Rightarrow> string \<Rightarrow> string \<Rightarrow> meta_store \<Rightarrow> (string + unit) \<times> meta_store" where
  "update_run_model se rid model st = with_meta se rid (\<lambda>m. m\<lparr>m_model := Some model\<rparr>) st"

fun is_terminal :: "run_status \<Rightarrow> bool" where
  "is_terminal Completed = True"
| "is_terminal Failed = True"
| "is_terminal Stopped = True"
| "is_terminal _ = False"

definition status_update ::
  "string \<Rightarrow> run_status \<Rightarrow> int option \<Rightarrow> string option \<Rightarrow> run_meta \<Rightarrow> run_meta" where
  "status_update now status exit_code err m =
     (let m1 = m\<lparr>m_status := status\<rparr>;
          m2 = (if is_terminal status then
                  (let m' = m1\<lparr>m_ended_at := Some now\<rparr> in
                   if status \<noteq> Failed then m'\<lparr>m_result_subtype := None\<rparr> else m')
                else m1\<lparr>m_ended_at := None\<rparr>)
      in m2\<lparr>m_exit_code := exit_code, m_error_message := err\<rparr>)"

definition update_status ::
  "save_env \<Rightarrow> string \<Rightarrow> string \<Rightarrow> run_status \<Rightarrow> int option \<Rightarrow> string option
   \<Rightarrow> meta_store \<Rightarrow> (string + unit) \<times> meta_store" where
  "update_status se now rid status exit_code err st =
     with_meta se rid (status_update now status exit_code err) st"

definition persist_result_error ::
  "save_env \<Rightarrow> string \<Rightarrow> string option \<Rightarrow> string option \<Rightarrow> meta_store
   \<Rightarrow> (string + unit) \<times> meta_store" where
  "persist_result_error se rid err subtype st =
     with_meta se rid (\<lambda>m. m\<lparr>m_error_message := err, m_result_subtype := subtype\<rparr>) st"

definition clear_result_error_if_present ::
  "save_env \<Rightarrow> string \<Rightarrow> meta_store \<Rightarrow> (string + unit) \<times> meta_store" where
  "clear_result_error_if_present se rid st =
     (case get_run st rid of
        None \<Rightarrow> (Inl (not_found rid), st)
      | Some m \<Rightarrow>
          if m_error_message m = None \<and> m_result_subtype m = None then (Inr (), st)
          else save_meta se (m\<lparr>m_error_message := None, m_result_subtype := None\<rparr>) st)"

section \<open>Restart, deletion and archiving\<close>

text \<open>What \<open>reconcile\_orphaned\_runs\<close> does to one record; the flag says whether it is saved.\<close>

definition reconcile_run :: "string \<Rightarrow> run_meta \<Rightarrow> run_meta \<times> bool" where
  "reconcile_run now m0 =
     (let (m1, d1) =
        (if m_status m0 = Running \<or> m_status m0 = Idle
         then (m0\<lparr>m_status := Stopped, m_ended_at := Some now,
                  m_error_message := Some ''Recovered after app restart''\<rparr>, True)
         else (m0, False))
      in if m_status m1 = Pending
         then (m1\<lparr>m_status := Failed, m_ended_at := Some now,
                  m_error_message := Some ''Session never started''\<rparr>, True)
         else (m1, d1))"

fun reconcile_orphaned_runs ::
  "(nat \<Rightarrow> save_env) \<Rightarrow> nat \<Rightarrow> string \<Rightarrow> string list \<Rightarrow> meta_store \<Rightarrow> meta_store" where
  "reconcile_orphaned_runs env n now [] st = st"
| "reconcile_orphaned_runs env n now (rid # rids) st =
     (case st rid of
        None \<Rightarrow> reconcile_orphaned_runs env n now rids st
      | Some m \<Rightarrow>
          (case reconcile_run now m of (m', dirty) \<Rightarrow>
             reconcile_orphaned_runs env (Suc n) now rids
               (if dirty then snd (save_meta (env n) m' st) else st)))"

text \<open>First occurrences only, as the \<open>HashSet\<close> filter keeps them.\<close>

fun dedup :: "string list \<Rightarrow> string list \<Rightarrow> string list" where
  "dedup seen [] = []"
| "dedup seen (x # xs) = (if x \<in> set seen then dedup seen xs else x # dedup (x # seen) xs)"

text \<open>Phase 1 of a deletion: every id must exist and be inactive; deleted ones are skipped.\<close>

fun delete_precheck :: "meta_store \<Rightarrow> string list \<Rightarrow> string + run_meta list" where
  "delete_precheck st [] = Inr []"
| "delete_precheck st (rid # rids) =
     (case get_run_raw st rid of
        None \<Rightarrow> Inl (not_found rid)
      | Some m \<Rightarrow>
          if m_deleted_at m \<noteq> None then delete_precheck st rids
          else if m_status m \<in> {Running, Pending, Idle} then
            Inl (''Cannot delete: run '' @ rid @ '' is still active'')
          else (case delete_precheck st rids of Inl e \<Rightarrow> Inl e | Inr ms \<Rightarrow> Inr (m # ms)))"

text \<open>Phase 1 of archiving: records already in the target state are skipped.\<close>

fun archive_precheck :: "bool \<Rightarrow> meta_store \<Rightarrow> string list \<Rightarrow> string + run_meta list" where
  "archive_precheck archived st [] = Inr []"
| "archive_precheck archived st (rid # rids) =
     (case get_run_raw st rid of
        None \<Rightarrow> Inl (not_found rid)
      | Some m \<Rightarrow>
          if (m_archived_at m \<noteq> None) = archived then archive_precheck archived st rids
          else (case archive_precheck archived st rids of Inl e \<Rightarrow> Inl e | Inr ms \<Rightarrow> Inr (m # ms)))"

text \<open>Best-effort rollback: the originals up to and including the failed one are saved again.\<close>

fun save_all :: "(nat \<Rightarrow> save_env) \<Rightarrow> nat \<Rightarrow> run_meta list \<Rightarrow> meta_store \<Rightarrow> meta_store" where
  "save_all env n [] st = st"
| "save_all env n (m # ms) st = save_all env (Suc n) ms (snd (save_meta (env n) m st))"

text \<open>Phase 2: write the changed records in order; the first failure rolls back and stops.\<close>

fun write_with_rollback ::
  "(nat \<Rightarrow> save_env) \<Rightarrow> nat \<Rightarrow> (run_meta \<Rightarrow> run_meta) \<Rightarrow> run_meta list \<Rightarrow> run_meta list \<Rightarrow> meta_store
   \<Rightarrow> ((run_meta \<times> string) + nat) \<times> meta_store" where
  "write_with_rollback env n f done_ms [] st = (Inr (length done_ms), st)"
| "write_with_rollback env n f done_ms (m # ms) st =
     (case save_meta (env n) (f m) st of
        (Inl e, st') \<Rightarrow> (Inl (m, e), save_all env (Suc n) (done_ms @ [m]) st')
      | (Inr _, st') \<Rightarrow> write_with_rollback env (Suc n) f (done_ms @ [m]) ms st')"

definition soft_delete_runs ::
  "(nat \<Rightarrow> save_env) \<Rightarrow> string \<Rightarrow> string list \<Rightarrow> meta_store \<Rightarrow> (string + nat) \<times> meta_store" where
  "soft_delete_runs env now ids st =
     (case delete_precheck st (dedup [] ids) of
        Inl e \<Rightarrow> (Inl e, st)
      | Inr ms \<Rightarrow>
          (case write_with_rollback env 0 (\<lambda>m. m\<lparr>m_deleted_at := Some now\<rparr>) [] ms st of
             (Inl (m, e), st') \<Rightarrow>
               (Inl (''Failed to delete run '' @ m_id m @ '': '' @ e @ ''. Rollback attempted.''), st')
           | (Inr n, st') \<Rightarrow> (Inr n, st')))"

definition set_runs_archived ::
  "(nat \<Rightarrow> save_env) \<Rightarrow> string \<Rightarrow> string list \<Rightarrow> bool \<Rightarrow> meta_store \<Rightarrow> (string + nat) \<times> meta_store" where
  "set_runs_archived env now ids archived st =
     (case archive_precheck archived st (dedup [] ids) of
        Inl e \<Rightarrow> (Inl e, st)
      | Inr ms \<Rightarrow>
          (case write_with_rollback env 0
                  (\<lambda>m. m\<lparr>m_archived_at := (if archived then Some now else None)\<rparr>) [] ms st of
             (Inl (m, e), st') \<Rightarrow>
               (Inl (''Failed to set archived on run '' @ m_id m @ '': '' @ e @ ''. Rollback attempted.''), st')
           | (Inr n, st') \<Rightarrow> (Inr n, st')))"

end
