(* ===== verification/Turn_Engine.thy ===== *)
theory Turn_Engine
  imports Models
begin

text \<open>
  \<open>src-tauri/src/agent/turn\_engine.rs\<close> and the transport types of
  \<open>src-tauri/src/agent/session\_protocol.rs\<close>: turns, tickets and internal jobs, the extractor of
  the internal turns, the timeouts and the gate functions. Instants and durations are
  milliseconds (\<open>nat\<close>).
\<close>

section \<open>Turns\<close>

datatype user_turn_kind =
    Normal nat \<comment> \<open>auto_ctx_id\<close>
  | Slash string \<comment> \<open>command\<close>

datatype internal_job_kind = AutoContext

datatype turn_origin = User user_turn_kind | Internal internal_job_kind | Ralph

datatype turn_phase = Active | Draining

record active_turn =
  at_seq :: nat
  at_origin :: turn_origin
  at_phase :: turn_phase
  at_started :: nat
  at_soft :: nat
  at_hard :: nat
  at_index :: nat

record attachment_data =
  att_content_base64 :: string
  att_media_type :: string
  att_filename :: string

record codex_skill_ref =
  skill_name :: string
  skill_path :: string

text \<open>A queued user message; \<open>tk_reply\<close> names the oneshot channel of its caller.\<close>

record user_ticket =
  tk_seq :: nat
  tk_text :: string
  tk_attachments :: "attachment_data list"
  tk_skills :: "codex_skill_ref list"
  tk_kind :: user_turn_kind
  tk_index :: nat
  tk_reply :: nat

record internal_job =
  ij_seq :: nat
  ij_kind :: internal_job_kind
  ij_auto_ctx_id :: nat
  ij_index :: nat

fun is_internal_origin :: "turn_origin \<Rightarrow> bool" where
  "is_internal_origin (Internal k) = True"
| "is_internal_origin _ = False"

section \<open>The context extractor\<close>

record context_extractor =
  ex_run_id :: string
  ex_index :: nat
  ex_captured :: bool

text \<open>The payload of a \<open>context-snapshot\<close> message: run id, content, turn index.\<close>

type_synonym context_snapshot = "string \<times> string \<times> nat"

definition emit_context_snapshot :: "context_extractor \<Rightarrow> string \<Rightarrow> context_snapshot" where
  "emit_context_snapshot ex content = (ex_run_id ex, content, ex_index ex)"

fun extractor_on_event ::
  "context_extractor \<Rightarrow> bus_event \<Rightarrow> context_extractor \<times> context_snapshot list" where
  "extractor_on_event ex (CommandOutput r content) =
     (ex\<lparr>ex_captured := True\<rparr>, [emit_context_snapshot ex content])"
| "extractor_on_event ex (MessageComplete r mid text parent md sr us) =
     (if text \<noteq> [] \<and> \<not> ex_captured ex
      then (ex\<lparr>ex_captured := True\<rparr>, [emit_context_snapshot ex text])
      else (ex, []))"
| "extractor_on_event ex _ = (ex, [])"

section \<open>Gates and timeouts\<close>

definition should_trigger_auto_context :: "nat \<Rightarrow> nat option \<Rightarrow> bool" where
  "should_trigger_auto_context auto_ctx_id last_id = (last_id \<noteq> Some auto_ctx_id)"

definition USER_SOFT_TIMEOUT :: nat where "USER_SOFT_TIMEOUT = 300 * 1000"
definition USER_HARD_TIMEOUT :: nat where "USER_HARD_TIMEOUT = 1800 * 1000"
definition INTERNAL_SOFT_TIMEOUT :: nat where "INTERNAL_SOFT_TIMEOUT = 15 * 1000"
definition INTERNAL_HARD_TIMEOUT :: nat where "INTERNAL_HARD_TIMEOUT = 60 * 1000"
definition QUARANTINE_DEADLINE :: nat where "QUARANTINE_DEADLINE = 10 * 1000"
definition TICK_INTERVAL :: nat where "TICK_INTERVAL = 250"

lemmas timeout_defs = USER_SOFT_TIMEOUT_def USER_HARD_TIMEOUT_def INTERNAL_SOFT_TIMEOUT_def
  INTERNAL_HARD_TIMEOUT_def QUARANTINE_DEADLINE_def TICK_INTERVAL_def

text \<open>
  The deadline reset on CLI output; the flag says whether the deadline was extended.
\<close>

definition apply_activity_reset ::
  "nat \<Rightarrow> bool \<Rightarrow> nat option \<Rightarrow> active_turn option \<Rightarrow> active_turn option \<times> bool" where
  "apply_activity_reset now quarantine user_hard_timeout turn =
     (if quarantine then (turn, False)
      else case turn of
        None \<Rightarrow> (None, False)
      | Some t \<Rightarrow>
          if is_internal_origin (at_origin t) then (Some t, False)
          else (case user_hard_timeout of
                  None \<Rightarrow> (Some t, False)
                | Some d \<Rightarrow> (Some (t\<lparr>at_hard := now + d\<rparr>), True)))"

text \<open>The reset touches nothing but the hard deadline.\<close>

lemma activity_reset_frame:
  "map_option (\<lambda>t. t\<lparr>at_hard := 0\<rparr>) (fst (apply_activity_reset now q d turn))
   = map_option (\<lambda>t. t\<lparr>at_hard := 0\<rparr>) turn"
  by (simp add: apply_activity_reset_def split: option.splits)

lemma activity_reset_None [simp]:
  "(fst (apply_activity_reset now q d turn) = None) = (turn = None)"
  by (simp add: apply_activity_reset_def split: option.splits)

lemma activity_reset_Some:
  "fst (apply_activity_reset now q d turn) = Some t' \<Longrightarrow>
   \<exists>t. turn = Some t \<and> at_origin t' = at_origin t \<and> at_index t' = at_index t
       \<and> at_seq t' = at_seq t \<and> at_phase t' = at_phase t"
  by (auto simp: apply_activity_reset_def split: option.splits if_splits)

section \<open>Transport types\<close>

record startup_ctx =
  sc_cwd :: string
  sc_resume_thread_id :: "string option"
  sc_model :: "string option"
  sc_model_provider :: "string option"
  sc_approval_policy :: "string option"
  sc_sandbox :: "string option"
  sc_effort :: "string option"
  sc_add_dirs :: "string list"

record codex_turn_overrides =
  ov_approval_policy :: "string option"
  ov_sandbox :: "string option"
  ov_model :: "string option"
  ov_effort :: "string option"

definition no_overrides :: codex_turn_overrides where
  "no_overrides = \<lparr>ov_approval_policy = None, ov_sandbox = None, ov_model = None, ov_effort = None\<rparr>"

datatype pending_kind = Permission | Hook | Elicitation | UserInput

datatype lifecycle_signal = TurnStarted | TurnCompleted | TurnFailed "string option"

record parsed_line =
  pl_events :: "bus_event list"
  pl_interactive :: "(string \<times> pending_kind) list"
  pl_lifecycle :: "lifecycle_signal option"
  pl_thread_id :: "string option"
  pl_control_response :: "(string \<times> json) option"
  pl_outbound :: "json list"

definition parsed_line_default :: parsed_line where
  "parsed_line_default = \<lparr>pl_events = [], pl_interactive = [], pl_lifecycle = None,
     pl_thread_id = None, pl_control_response = None, pl_outbound = []\<rparr>"

end
