(* ===== verification/Codex_Driver.thy ===== *)
theory Codex_Driver
  imports Turn_Engine
begin

text \<open>
  The state of the Codex \<open>app-server\<close> driver (\<open>src-tauri/src/agent/codex\_appserver.rs\<close>), its
  outgoing frames, the pending server requests and the bounded buffer of messages from threads
  nobody has claimed yet. The printer of JSON values is the argument \<open>jtext\<close>, the clock the
  argument \<open>now\<close> (milliseconds), the crate version the argument \<open>pkg\_version\<close>. The out-parameter
  \<open>out: \&mut ParsedLine\<close> of the buffer operations only ever receives outbound frames there, so
  they return the list of frames they add.
\<close>

definition MAX_UNCLAIMED_THREADS :: nat where "MAX_UNCLAIMED_THREADS = 32"
definition MAX_DEFERRED_MESSAGES_PER_THREAD :: nat where "MAX_DEFERRED_MESSAGES_PER_THREAD = 64"
definition MAX_DEFERRED_PAYLOAD_BYTES :: nat where "MAX_DEFERRED_PAYLOAD_BYTES = 512 * 1024"
definition DEFERRED_MESSAGE_TTL :: nat where "DEFERRED_MESSAGE_TTL = 30 * 1000"

definition M_CMD_APPROVAL :: string where "M_CMD_APPROVAL = ''item/commandExecution/requestApproval''"
definition M_CMD_APPROVAL_LEGACY :: string where "M_CMD_APPROVAL_LEGACY = ''execCommandApproval''"
definition M_FILE_APPROVAL :: string where "M_FILE_APPROVAL = ''item/fileChange/requestApproval''"
definition M_FILE_APPROVAL_LEGACY :: string where "M_FILE_APPROVAL_LEGACY = ''applyPatchApproval''"
definition M_PERM_APPROVAL :: string where "M_PERM_APPROVAL = ''item/permissions/requestApproval''"
definition M_REQUEST_USER_INPUT :: string where "M_REQUEST_USER_INPUT = ''item/tool/requestUserInput''"
definition M_ELICITATION :: string where "M_ELICITATION = ''mcpServer/elicitation/request''"

section \<open>State\<close>

datatype codex_phase = Opening | Ready

record pending_server_req =
  pr_raw_id :: json
  pr_method :: string
  pr_requested_permissions :: "json option"
  pr_kind :: pending_kind

datatype deferred_message =
    Notification string json \<comment> \<open>method, params\<close>
  | Interactive string json \<comment> \<open>method, message\<close>

fun is_interactive_msg :: "deferred_message \<Rightarrow> bool" where
  "is_interactive_msg (Interactive m v) = True"
| "is_interactive_msg (Notification m v) = False"

fun payload_size :: "(json \<Rightarrow> string) \<Rightarrow> deferred_message \<Rightarrow> nat" where
  "payload_size jtext (Notification m params) = length m + length (jtext params)"
| "payload_size jtext (Interactive m message) = length m + length (jtext message)"

record deferred_entry =
  de_message :: deferred_message
  de_received_at :: nat
  de_sequence :: nat
  de_payload_bytes :: nat

record codex_app_server =
  cx_phase :: codex_phase
  cx_thread_id :: "string option"
  cx_active_turn_id :: "string option"
  cx_next_client_id :: int
  cx_pending :: "(string \<times> pending_server_req) list"
  cx_client_waiters :: "int \<rightharpoonup> string"
  cx_internal_waiters :: "int \<rightharpoonup> string"
  cx_seen_subagent_threads :: "string list"
  cx_child_parent_tools :: "string \<rightharpoonup> string"
  cx_deferred :: "(string \<times> deferred_entry list) list"
  cx_deferred_bytes :: nat
  cx_next_deferred_sequence :: nat
  cx_add_dirs :: "string list"
  cx_startup_overrides :: codex_turn_overrides
  cx_pending_startup_replay :: bool

definition codex_new :: codex_app_server where
  "codex_new = \<lparr>cx_phase = Opening, cx_thread_id = None, cx_active_turn_id = None,
     cx_next_client_id = 3, cx_pending = [], cx_client_waiters = Map.empty,
     cx_internal_waiters = Map.empty, cx_seen_subagent_threads = [],
     cx_child_parent_tools = Map.empty, cx_deferred = [], cx_deferred_bytes = 0,
     cx_next_deferred_sequence = 0, cx_add_dirs = [], cx_startup_overrides = no_overrides,
     cx_pending_startup_replay = True\<rparr>"

definition next_id :: "codex_app_server \<Rightarrow> int \<times> codex_app_server" where
  "next_id c = (cx_next_client_id c, c\<lparr>cx_next_client_id := cx_next_client_id c + 1\<rparr>)"

definition jint :: "int \<Rightarrow> json" where
  "jint i = (if i < 0 then JNum (NegInt i) else JNum (PosInt (nat i)))"

definition rpc_request :: "int \<Rightarrow> string \<Rightarrow> json \<Rightarrow> json" where
  "rpc_request i method params =
     JObj [(''jsonrpc'', JStr ''2.0''), (''id'', jint i), (''method'', JStr method), (''params'', params)]"

section \<open>The buffer of unclaimed messages\<close>

definition reject_deferred_interactive :: "deferred_message \<Rightarrow> string \<Rightarrow> json list" where
  "reject_deferred_interactive msg reason =
     (case msg of
        Interactive m message \<Rightarrow>
          [JObj [(''jsonrpc'', JStr ''2.0''), (''id'', unwrap_or (jget message ''id'') JNull),
                 (''error'', JObj [(''code'', JNum (NegInt (- 32600))), (''message'', JStr reason)])]]
      | Notification m params \<Rightarrow> [])"

fun take_sequence :: "nat \<Rightarrow> deferred_entry list \<Rightarrow> (deferred_entry \<times> deferred_entry list) option" where
  "take_sequence sq [] = None"
| "take_sequence sq (e # es) =
     (if de_sequence e = sq then Some (e, es)
      else map_option (\<lambda>(x, rest). (x, e # rest)) (take_sequence sq es))"

definition put_queue ::
  "string \<Rightarrow> deferred_entry list \<Rightarrow> (string \<times> deferred_entry list) list
   \<Rightarrow> (string \<times> deferred_entry list) list" where
  "put_queue tid q d = (if q = [] then hm_remove tid d else hm_insert tid q d)"

definition remove_deferred_entry ::
  "string \<Rightarrow> nat \<Rightarrow> string \<Rightarrow> codex_app_server \<Rightarrow> codex_app_server \<times> json list" where
  "remove_deferred_entry tid sq reason c =
     (case map_of (cx_deferred c) tid of
        None \<Rightarrow> (c, [])
      | Some q \<Rightarrow>
          (case take_sequence sq q of
             None \<Rightarrow> (c\<lparr>cx_deferred := put_queue tid q (cx_deferred c)\<rparr>, [])
           | Some (e, rest) \<Rightarrow>
               (c\<lparr>cx_deferred := put_queue tid rest (cx_deferred c),
                  cx_deferred_bytes := cx_deferred_bytes c - de_payload_bytes e\<rparr>,
                reject_deferred_interactive (de_message e) reason)))"

definition all_deferred :: "codex_app_server \<Rightarrow> (string \<times> deferred_entry) list" where
  "all_deferred c = concat (map (\<lambda>(tid, q). map (Pair tid) q) (cx_deferred c))"

text \<open>\<open>min\_by\_key\<close> on the sequence number: the first of the smallest.\<close>

fun min_by_sequence :: "(string \<times> deferred_entry) list \<Rightarrow> (string \<times> nat) option" where
  "min_by_sequence [] = None"
| "min_by_sequence ((tid, e) # xs) =
     (case min_by_sequence xs of
        None \<Rightarrow> Some (tid, de_sequence e)
      | Some (t', s') \<Rightarrow>
          if de_sequence e \<le> s' then Some (tid, de_sequence e) else Some (t', s'))"

definition oldest_matching :: "codex_app_server \<Rightarrow> bool \<Rightarrow> (string \<times> nat) option" where
  "oldest_matching c interactive =
     min_by_sequence (filter (\<lambda>(t, e). is_interactive_msg (de_message e) = interactive) (all_deferred c))"

text \<open>\<open>None\<close>: nothing may be evicted (the source returns \<open>false\<close>).\<close>

definition evict_oldest_deferred ::
  "bool \<Rightarrow> codex_app_server \<Rightarrow> (codex_app_server \<times> json list) option" where
  "evict_oldest_deferred incoming_interactive c =
     (case or_else (oldest_matching c False)
             (if incoming_interactive then oldest_matching c True else None) of
        None \<Rightarrow> None
      | Some (tid, sq) \<Rightarrow>
          Some (remove_deferred_entry tid sq ''Interactive request evicted from buffer'' c))"

definition evict_oldest_deferred_in_thread ::
  "string \<Rightarrow> bool \<Rightarrow> codex_app_server \<Rightarrow> (codex_app_server \<times> json list) option" where
  "evict_oldest_deferred_in_thread tid incoming_interactive c =
     (case map_of (cx_deferred c) tid of
        None \<Rightarrow> None
      | Some q \<Rightarrow>
          (case or_else
                  (map_option de_sequence (find (\<lambda>e. \<not> is_interactive_msg (de_message e)) q))
                  (if incoming_interactive
                   then (case q of [] \<Rightarrow> None | e # es \<Rightarrow> Some (de_sequence e)) else None) of
             None \<Rightarrow> None
           | Some sq \<Rightarrow>
               Some (remove_deferred_entry tid sq ''Interactive request evicted from buffer'' c)))"

text \<open>The entries at the head of each queue that have outlived the time limit.\<close>

definition expired_entries :: "nat \<Rightarrow> codex_app_server \<Rightarrow> (string \<times> nat) list" where
  "expired_entries now c =
     concat (map (\<lambda>(tid, q).
       map (\<lambda>e. (tid, de_sequence e))
         (takeWhile (\<lambda>e. DEFERRED_MESSAGE_TTL \<le> now - de_received_at e) q)) (cx_deferred c))"

fun remove_all ::
  "(string \<times> nat) list \<Rightarrow> string \<Rightarrow> codex_app_server \<Rightarrow> codex_app_server \<times> json list" where
  "remove_all [] reason c = (c, [])"
| "remove_all ((tid, sq) # xs) reason c =
     (let (c1, f1) = remove_deferred_entry tid sq reason c;
          (c2, f2) = remove_all xs reason c1
      in (c2, f1 @ f2))"

definition expire_deferred_messages :: "nat \<Rightarrow> codex_app_server \<Rightarrow> codex_app_server \<times> json list" where
  "expire_deferred_messages now c = remove_all (expired_entries now c) ''Interactive request expired'' c"

definition expire_deferred :: "nat \<Rightarrow> codex_app_server \<Rightarrow> codex_app_server \<times> json list" where
  "expire_deferred now c = expire_deferred_messages now c"

text \<open>
  The three eviction loops: while the guard holds, evict; \<open>fuel\<close> bounds the iterations and
  \<open>None\<close> is running out of it. The flag is \<open>False\<close> when nothing could be evicted.
\<close>

fun evict_while ::
  "nat \<Rightarrow> (codex_app_server \<Rightarrow> bool) \<Rightarrow> (codex_app_server \<Rightarrow> (codex_app_server \<times> json list) option)
   \<Rightarrow> codex_app_server \<Rightarrow> (bool \<times> codex_app_server \<times> json list) option" where
  "evict_while 0 guard evict c = None"
| "evict_while (Suc fuel) guard evict c =
     (if \<not> guard c then Some (True, c, [])
      else case evict c of
        None \<Rightarrow> Some (False, c, [])
      | Some (c', fr) \<Rightarrow>
          map_option (\<lambda>(ok, c2, fr2). (ok, c2, fr @ fr2)) (evict_while fuel guard evict c'))"

definition too_many_threads :: "string \<Rightarrow> codex_app_server \<Rightarrow> bool" where
  "too_many_threads tid c =
     (MAX_UNCLAIMED_THREADS \<le> length (cx_deferred c) \<and> map_of (cx_deferred c) tid = None)"

definition thread_full :: "string \<Rightarrow> codex_app_server \<Rightarrow> bool" where
  "thread_full tid c =
     (case map_of (cx_deferred c) tid of None \<Rightarrow> False
      | Some q \<Rightarrow> MAX_DEFERRED_MESSAGES_PER_THREAD \<le> length q)"

definition bytes_full :: "nat \<Rightarrow> codex_app_server \<Rightarrow> bool" where
  "bytes_full n c = (MAX_DEFERRED_PAYLOAD_BYTES < cx_deferred_bytes c + n)"

definition push_deferred ::
  "nat \<Rightarrow> string \<Rightarrow> deferred_message \<Rightarrow> nat \<Rightarrow> codex_app_server \<Rightarrow> codex_app_server" where
  "push_deferred now tid msg n c =
     c\<lparr>cx_deferred := hm_insert tid
          (unwrap_or (map_of (cx_deferred c) tid) [] @
             [\<lparr>de_message = msg, de_received_at = now,
               de_sequence = cx_next_deferred_sequence c, de_payload_bytes = n\<rparr>]) (cx_deferred c),
        cx_deferred_bytes := cx_deferred_bytes c + n,
        cx_next_deferred_sequence := (cx_next_deferred_sequence c + 1) mod 2 ^ 64\<rparr>"

definition evict_fuel :: "codex_app_server \<Rightarrow> nat" where
  "evict_fuel c = Suc (length (all_deferred c))"

text \<open>One of the three loops, followed by the rejection of the message when it gave up.\<close>

definition make_room ::
  "(codex_app_server \<Rightarrow> bool) \<Rightarrow> (codex_app_server \<Rightarrow> (codex_app_server \<times> json list) option)
   \<Rightarrow> deferred_message \<Rightarrow> codex_app_server \<Rightarrow> (bool \<times> codex_app_server \<times> json list) option" where
  "make_room guard evict msg c =
     map_option (\<lambda>(ok, c', fr).
         (ok, c', if ok then fr
                  else fr @ reject_deferred_interactive msg ''Interactive request buffer is full''))
       (evict_while (evict_fuel c) guard evict c)"

text \<open>Running the loops one after the other, stopping at the first that gives up.\<close>

definition room_then ::
  "(bool \<times> codex_app_server \<times> json list) option
   \<Rightarrow> (codex_app_server \<Rightarrow> (bool \<times> codex_app_server \<times> json list) option)
   \<Rightarrow> (bool \<times> codex_app_server \<times> json list) option" where
  "room_then r k =
     (case r of
        None \<Rightarrow> None
      | Some (ok, c, fr) \<Rightarrow>
          if ok then map_option (\<lambda>(ok', c', fr'). (ok', c', fr @ fr')) (k c)
          else Some (False, c, fr))"

definition defer_thread_message ::
  "(json \<Rightarrow> string) \<Rightarrow> nat \<Rightarrow> string \<Rightarrow> deferred_message \<Rightarrow> codex_app_server
   \<Rightarrow> (bool \<times> codex_app_server \<times> json list) option" where
  "defer_thread_message jtext now tid msg c =
     (let (c0, fr0) = expire_deferred_messages now c;
          n = payload_size jtext msg;
          interactive = is_interactive_msg msg in
      if MAX_DEFERRED_PAYLOAD_BYTES < n then
        Some (False, c0, fr0 @ reject_deferred_interactive msg ''Interactive request exceeds buffer limit'')
      else
        map_option (\<lambda>(ok, c', fr).
            (ok, if ok then push_deferred now tid msg n c' else c', fr0 @ fr))
          (room_then (make_room (too_many_threads tid) (evict_oldest_deferred interactive) msg c0)
             (\<lambda>c1. room_then
                (make_room (thread_full tid) (evict_oldest_deferred_in_thread tid interactive) msg c1)
                (\<lambda>c2. make_room (bytes_full n) (evict_oldest_deferred interactive) msg c2))))"

section \<open>Requests to the server\<close>

definition is_ready :: "codex_app_server \<Rightarrow> bool" where
  "is_ready c = (cx_phase c = Ready)"

definition frame_tracked ::
  "string \<Rightarrow> string \<Rightarrow> (string \<times> json) list \<Rightarrow> codex_app_server \<Rightarrow> json list \<times> codex_app_server" where
  "frame_tracked request_id method extra c =
     (case cx_thread_id c of
        None \<Rightarrow> ([], c)
      | Some tid \<Rightarrow>
          let (i, c1) = next_id c;
              params = fold (\<lambda>(k, v) m. jinsert k v m) extra (jinsert ''threadId'' (JStr tid) []) in
          ([rpc_request i method (JObj params)],
           c1\<lparr>cx_client_waiters := (cx_client_waiters c1)(i \<mapsto> request_id)\<rparr>))"

definition frame_compact :: "string \<Rightarrow> codex_app_server \<Rightarrow> json list \<times> codex_app_server" where
  "frame_compact request_id c = frame_tracked request_id ''thread/compact/start'' [] c"

definition frame_rollback :: "string \<Rightarrow> nat \<Rightarrow> codex_app_server \<Rightarrow> json list \<times> codex_app_server" where
  "frame_rollback request_id num_turns c =
     frame_tracked request_id ''thread/rollback'' [(''numTurns'', jnat (max num_turns 1))] c"

definition frame_fork :: "string \<Rightarrow> codex_app_server \<Rightarrow> json list \<times> codex_app_server" where
  "frame_fork request_id c = frame_tracked request_id ''thread/fork'' [] c"

definition opt_entry :: "string \<Rightarrow> json option \<Rightarrow> (string \<times> json) list" where
  "opt_entry k v = (case v of None \<Rightarrow> [] | Some x \<Rightarrow> [(k, x)])"

definition frame_goal_set ::
  "string \<Rightarrow> string option \<Rightarrow> string option \<Rightarrow> nat option \<Rightarrow> codex_app_server
   \<Rightarrow> json list \<times> codex_app_server" where
  "frame_goal_set request_id objective status token_budget c =
     frame_tracked request_id ''thread/goal/set''
       (opt_entry ''objective'' (map_option JStr objective)
        @ opt_entry ''status'' (map_option JStr status)
        @ opt_entry ''tokenBudget'' (map_option jnat token_budget)) c"

definition frame_goal_get :: "string \<Rightarrow> codex_app_server \<Rightarrow> json list \<times> codex_app_server" where
  "frame_goal_get request_id c = frame_tracked request_id ''thread/goal/get'' [] c"

definition frame_goal_clear :: "string \<Rightarrow> codex_app_server \<Rightarrow> json list \<times> codex_app_server" where
  "frame_goal_clear request_id c = frame_tracked request_id ''thread/goal/clear'' [] c"

definition frame_mcp_status :: "string \<Rightarrow> codex_app_server \<Rightarrow> json list \<times> codex_app_server" where
  "frame_mcp_status request_id c = frame_tracked request_id ''mcpServerStatus/list'' [] c"

definition frame_skills_list :: "string \<Rightarrow> codex_app_server \<Rightarrow> json list \<times> codex_app_server" where
  "frame_skills_list request_id c = frame_tracked request_id ''skills/list'' [] c"

definition frame_experimental_feature_list ::
  "string \<Rightarrow> codex_app_server \<Rightarrow> json list \<times> codex_app_server" where
  "frame_experimental_feature_list request_id c =
     frame_tracked request_id ''experimentalFeature/list'' [] c"

definition frame_model_list :: "string \<Rightarrow> codex_app_server \<Rightarrow> json list \<times> codex_app_server" where
  "frame_model_list request_id c = frame_tracked request_id ''model/list'' [] c"

definition req_id_str :: "(json \<Rightarrow> string) \<Rightarrow> json \<Rightarrow> string" where
  "req_id_str jtext raw_id = (case raw_id of JStr s \<Rightarrow> s | other \<Rightarrow> jtext other)"

definition sandbox_policy_value :: "string \<Rightarrow> string list \<Rightarrow> json" where
  "sandbox_policy_value mode writable_roots =
     (if mode = ''read-only'' then
        JObj [(''type'', JStr ''readOnly''), (''networkAccess'', JBool False)]
      else if mode = ''danger-full-access'' then JObj [(''type'', JStr ''dangerFullAccess'')]
      else JObj [(''type'', JStr ''workspaceWrite''),
                 (''writableRoots'', JArr (map JStr writable_roots)),
                 (''networkAccess'', JBool False), (''excludeTmpdirEnvVar'', JBool False),
                 (''excludeSlashTmp'', JBool False)])"

definition startup_messages ::
  "string \<Rightarrow> startup_ctx \<Rightarrow> codex_app_server \<Rightarrow> json list \<times> codex_app_server" where
  "startup_messages pkg_version ctx c =
     (let c1 = c\<lparr>cx_add_dirs := sc_add_dirs ctx,
                 cx_startup_overrides := \<lparr>ov_approval_policy = sc_approval_policy ctx,
                   ov_sandbox = sc_sandbox ctx, ov_model = sc_model ctx, ov_effort = sc_effort ctx\<rparr>,
                 cx_pending_startup_replay := True\<rparr>;
          initialize = rpc_request 1 ''initialize''
            (JObj [(''clientInfo'', JObj [(''name'', JStr ''opencovibe''),
                                        (''version'', JStr pkg_version),
                                        (''title'', JStr ''OpenCovibe'')])])
      in case sc_resume_thread_id ctx of
           Some tid \<Rightarrow>
             ([initialize, rpc_request 2 ''thread/resume'' (JObj [(''threadId'', JStr tid)])],
              c1\<lparr>cx_thread_id := Some tid\<rparr>)
         | None \<Rightarrow>
             ([initialize,
               rpc_request 2 ''thread/start''
                 (JObj ([(''cwd'', JStr (sc_cwd ctx))]
                        @ opt_entry ''approvalPolicy'' (map_option JStr (sc_approval_policy ctx))
                        @ opt_entry ''sandbox'' (map_option JStr (sc_sandbox ctx))
                        @ opt_entry ''model'' (map_option JStr (sc_model ctx))
                        @ opt_entry ''modelProvider'' (map_option JStr (sc_model_provider ctx))))],
              c1))"

definition skill_item :: "codex_skill_ref \<Rightarrow> json" where
  "skill_item sk = JObj [(''type'', JStr ''skill''), (''name'', JStr (skill_name sk)),
                         (''path'', JStr (skill_path sk))]"

definition text_item :: "string \<Rightarrow> json" where
  "text_item text = JObj [(''type'', JStr ''text''), (''text'', JStr text), (''text_elements'', JArr [])]"

definition image_item :: "string \<Rightarrow> json" where
  "image_item path = JObj [(''type'', JStr ''localImage''), (''path'', JStr path)]"

text \<open>A live override wins; on the first turn the spawn-time default fills the gap.\<close>

definition pick_override :: "bool \<Rightarrow> string option \<Rightarrow> string option \<Rightarrow> string option" where
  "pick_override first_turn actor startup = or_else actor (if first_turn then startup else None)"

definition sandbox_entry :: "bool \<Rightarrow> string option \<Rightarrow> string list \<Rightarrow> (string \<times> json) list" where
  "sandbox_entry first_turn sandbox add_dirs =
     (case sandbox of
        Some s \<Rightarrow> [(''sandboxPolicy'', sandbox_policy_value s add_dirs)]
      | None \<Rightarrow>
          if first_turn \<and> add_dirs \<noteq> []
          then [(''sandboxPolicy'', sandbox_policy_value ''workspace-write'' add_dirs)] else [])"

definition frame_user_turn ::
  "string \<Rightarrow> string list \<Rightarrow> codex_skill_ref list \<Rightarrow> codex_turn_overrides \<Rightarrow> codex_app_server
   \<Rightarrow> json list \<times> codex_app_server" where
  "frame_user_turn text image_paths skills overrides c =
     (case cx_thread_id c of
        None \<Rightarrow> ([], c)
      | Some tid \<Rightarrow>
          let input = map skill_item skills @ [text_item text] @ map image_item image_paths;
              (i, c1) = next_id c;
              first_turn = cx_pending_startup_replay c1;
              c2 = c1\<lparr>cx_pending_startup_replay := False\<rparr>;
              su = cx_startup_overrides c2;
              pick = pick_override first_turn in
          ([rpc_request i ''turn/start''
              (JObj ([(''threadId'', JStr tid), (''input'', JArr input)]
                @ opt_entry ''approvalPolicy''
                    (map_option JStr (pick (ov_approval_policy overrides) (ov_approval_policy su)))
                @ sandbox_entry first_turn (pick (ov_sandbox overrides) (ov_sandbox su)) (cx_add_dirs c2)
                @ opt_entry ''model'' (map_option JStr (pick (ov_model overrides) (ov_model su)))
                @ opt_entry ''effort'' (map_option JStr (pick (ov_effort overrides) (ov_effort su)))))],
           c2))"

definition frame_interrupt :: "codex_app_server \<Rightarrow> json list \<times> codex_app_server" where
  "frame_interrupt c =
     (case (cx_thread_id c, cx_active_turn_id c) of
        (Some tid, Some turn) \<Rightarrow>
          let (i, c1) = next_id c in
          ([rpc_request i ''turn/interrupt''
              (JObj [(''threadId'', JStr tid), (''turnId'', JStr turn)])], c1)
      | _ \<Rightarrow> ([], c))"

definition frame_steer :: "string \<Rightarrow> codex_app_server \<Rightarrow> json list \<times> codex_app_server" where
  "frame_steer text c =
     (case (cx_thread_id c, cx_active_turn_id c) of
        (Some tid, Some expected) \<Rightarrow>
          let (i, c1) = next_id c in
          ([rpc_request i ''turn/steer''
              (JObj [(''threadId'', JStr tid), (''input'', JArr [text_item text]),
                     (''expectedTurnId'', JStr expected)])], c1)
      | _ \<Rightarrow> ([], c))"

section \<open>Responses to the server's interactive requests\<close>

fun pending_kind_debug :: "pending_kind \<Rightarrow> string" where
  "pending_kind_debug Permission = ''Permission''"
| "pending_kind_debug Hook = ''Hook''"
| "pending_kind_debug Elicitation = ''Elicitation''"
| "pending_kind_debug UserInput = ''UserInput''"

definition unknown_request :: "string \<Rightarrow> string" where
  "unknown_request request_id = ''unknown Codex interactive request_id '' @ request_id"

definition validate_response :: "pending_kind \<Rightarrow> string \<Rightarrow> codex_app_server \<Rightarrow> string + unit" where
  "validate_response kind request_id c =
     (case map_of (cx_pending c) request_id of
        None \<Rightarrow> Inl (unknown_request request_id)
      | Some pr \<Rightarrow>
          if pr_kind pr \<noteq> kind then
            Inl (''Codex interactive request kind mismatch for '' @ request_id @ '': expected ''
                 @ pending_kind_debug (pr_kind pr) @ '', got '' @ pending_kind_debug kind)
          else Inr ())"

definition wrap_answers :: "json \<Rightarrow> json" where
  "wrap_answers val =
     (let arr = (case jget val ''answers'' of
                   Some inner \<Rightarrow> inner
                 | None \<Rightarrow> (case val of JArr xs \<Rightarrow> val | _ \<Rightarrow> JArr [val]))
      in JObj [(''answers'', arr)])"

definition build_user_input_result :: "json \<Rightarrow> json" where
  "build_user_input_result response =
     (let entries = unwrap_or (Option.bind (jget response ''answers'') as_object) [] in
      JObj [(''answers'', JObj (fold (\<lambda>(qid, v) m. jinsert qid (wrap_answers v) m) entries []))])"

definition permission_result :: "pending_server_req \<Rightarrow> json \<Rightarrow> json" where
  "permission_result pr response =
     (let behavior = unwrap_or (get_str response ''behavior'') ''deny'' in
      if pr_method pr = M_PERM_APPROVAL then
        JObj [(''permissions'',
                 if behavior = ''allow'' then unwrap_or (pr_requested_permissions pr) (JObj [])
                 else JObj []),
              (''scope'', JStr ''turn'')]
      else JObj [(''decision'', JStr
                 (if behavior = ''allow'' then ''accept''
                  else if get_bool response ''interrupt'' = Some True then ''cancel''
                  else ''decline''))])"

definition elicitation_result :: "json \<Rightarrow> json" where
  "elicitation_result response =
     JObj ([(''action'', JStr (unwrap_or (get_str response ''action'') ''decline''))]
           @ opt_entry ''content'' (jget response ''content''))"

definition response_result :: "pending_kind \<Rightarrow> pending_server_req \<Rightarrow> json \<Rightarrow> json" where
  "response_result kind pr response =
     (case kind of
        Hook \<Rightarrow> response
      | Permission \<Rightarrow> permission_result pr response
      | Elicitation \<Rightarrow> elicitation_result response
      | UserInput \<Rightarrow> build_user_input_result response)"

definition frame_response ::
  "pending_kind \<Rightarrow> string \<Rightarrow> json \<Rightarrow> codex_app_server
   \<Rightarrow> (string + json list) \<times> codex_app_server" where
  "frame_response kind request_id response c =
     (case validate_response kind request_id c of
        Inl e \<Rightarrow> (Inl e, c)
      | Inr _ \<Rightarrow>
          (case map_of (cx_pending c) request_id of
             None \<Rightarrow> (Inl (unknown_request request_id), c)
           | Some pr \<Rightarrow>
               let c1 = c\<lparr>cx_pending := hm_remove request_id (cx_pending c)\<rparr>;
                   frame = JObj [(''jsonrpc'', JStr ''2.0''), (''id'', pr_raw_id pr),
                                 (''result'', response_result kind pr response)] in
               if pr_method pr = M_PERM_APPROVAL
                  \<and> get_str response ''behavior'' \<noteq> Some ''allow''
                  \<and> get_bool response ''interrupt'' = Some True
               then (let (fr, c2) = frame_interrupt c1 in (Inr (frame # fr), c2))
               else (Inr [frame], c1)))"

definition is_interactive_method :: "string \<Rightarrow> bool" where
  "is_interactive_method method =
     (method \<in> {M_CMD_APPROVAL, M_CMD_APPROVAL_LEGACY, M_FILE_APPROVAL, M_FILE_APPROVAL_LEGACY,
                M_PERM_APPROVAL, M_REQUEST_USER_INPUT, M_ELICITATION})"

definition is_legacy_interactive_method :: "string \<Rightarrow> bool" where
  "is_legacy_interactive_method method = (method \<in> {M_CMD_APPROVAL_LEGACY, M_FILE_APPROVAL_LEGACY})"

end
