(* ===== verification/Codex_Events.thy ===== *)
theory Codex_Events
  imports Codex_Driver
begin

text \<open>
  How the Codex transports turn wire values into bus events: the classification of items shared by
  both transports (\<open>src-tauri/src/agent/codex\_parser.rs\<close>) and the event builders of the app-server
  driver (\<open>src-tauri/src/agent/codex\_appserver.rs\<close>). Each definition is the function of the same
  name; an \<open>out: \&mut Vec\<close> parameter of the source is the list the function appends.
\<close>

section \<open>Items\<close>

datatype codex_tool_kind = Command | FileChange | WebSearch | McpToolCall | CollabToolCall

definition from_item_type :: "string \<Rightarrow> codex_tool_kind option" where
  "from_item_type t =
     (if t = ''command_execution'' \<or> t = ''commandExecution'' then Some Command
      else if t = ''file_change'' \<or> t = ''fileChange'' then Some FileChange
      else if t = ''web_search'' \<or> t = ''webSearch'' then Some WebSearch
      else if t = ''mcp_tool_call'' \<or> t = ''mcpToolCall'' then Some McpToolCall
      else if t = ''collab_tool_call'' \<or> t = ''collabToolCall'' then Some CollabToolCall
      else None)"

fun fixed_tool_name :: "codex_tool_kind \<Rightarrow> string option" where
  "fixed_tool_name Command = Some ''Bash''"
| "fixed_tool_name FileChange = Some ''Edit''"
| "fixed_tool_name WebSearch = Some ''WebSearch''"
| "fixed_tool_name CollabToolCall = Some ''Agent''"
| "fixed_tool_name McpToolCall = None"

definition codex_normalize_status :: "string \<Rightarrow> string" where
  "codex_normalize_status raw = (if raw = ''failed'' \<or> raw = ''declined'' then ''error'' else ''success'')"

text \<open>\<open>v.get(key).and\_then(Value::as\_str).unwrap\_or(default)\<close>.\<close>

definition str_or :: "json \<Rightarrow> string \<Rightarrow> string \<Rightarrow> string" where
  "str_or v k d = unwrap_or (get_str v k) d"

definition item_tool_name :: "json \<Rightarrow> string option" where
  "item_tool_name item =
     Option.bind (get_str item ''type'') (\<lambda>t.
       Option.bind (from_item_type t) (\<lambda>kind.
         case kind of
           McpToolCall \<Rightarrow> Some (str_or item ''server'' ''mcp'' @ '':'' @ str_or item ''tool'' ''tool'')
         | CollabToolCall \<Rightarrow> None
         | _ \<Rightarrow> fixed_tool_name kind))"

section \<open>Prompts\<close>

definition approval_prompt ::
  "string \<Rightarrow> string \<Rightarrow> string \<Rightarrow> json \<Rightarrow> string option \<Rightarrow> bus_event" where
  "approval_prompt run_id request_id tool_name params parent =
     PermissionPrompt run_id request_id tool_name (str_or params ''itemId'' request_id)
       (JObj (opt_entry ''command'' (map_option JStr (get_str params ''command''))
              @ opt_entry ''cwd'' (jget params ''cwd'')
              @ opt_entry ''permissions'' (jget params ''permissions'')
              @ opt_entry ''changes'' (jget params ''changes'')))
       (str_or params ''reason'' []) parent []"

definition question_option :: "json \<Rightarrow> json" where
  "question_option v =
     JObj [(''label'', JStr (str_or v ''label'' [])), (''description'', JStr (str_or v ''description'' []))]"

definition question_value :: "json \<Rightarrow> json" where
  "question_value q =
     JObj [(''id'', JStr (str_or q ''id'' [])), (''header'', JStr (str_or q ''header'' [])),
           (''question'', JStr (str_or q ''question'' [])),
           (''options'', JArr (map question_option (unwrap_or (get_array q ''options'') []))),
           (''multiSelect'', JBool False)]"

definition ask_user_question_events ::
  "string \<Rightarrow> string \<Rightarrow> json \<Rightarrow> string option \<Rightarrow> bus_event list" where
  "ask_user_question_events run_id request_id params parent =
     (let input = JObj [(''questions'',
                         JArr (map question_value (unwrap_or (get_array params ''questions'') [])))] in
      [ToolStart run_id request_id ''AskUserQuestion'' input parent,
       ToolEnd run_id request_id ''AskUserQuestion'' input ''error'' None parent None])"

definition elicitation_prompt :: "string \<Rightarrow> string \<Rightarrow> json \<Rightarrow> bus_event" where
  "elicitation_prompt run_id request_id params =
     ElicitationPrompt run_id request_id (str_or params ''serverName'' []) (str_or params ''message'' [])
       (get_str params ''elicitationId'') (get_str params ''mode'') (get_str params ''url'')
       (jget params ''requestedSchema'')"

section \<open>Sub-agents\<close>

definition collab_agent :: "string \<times> json \<Rightarrow> json" where
  "collab_agent e =
     (case e of (tid, st) \<Rightarrow>
        JObj [(''thread_id'', JStr tid), (''status'', jopt_str (get_str st ''status'')),
              (''message'', jopt_str (get_str st ''message''))])"

definition collab_input :: "json \<Rightarrow> json" where
  "collab_input item =
     JObj [(''codexCollab'', JBool True),
           (''operation'', JStr (str_or item ''tool'' ''collab'')),
           (''prompt'', JStr (str_or item ''prompt'' [])),
           (''model'', jopt_str (get_str item ''model'')),
           (''reasoningEffort'', jopt_str (get_str item ''reasoningEffort'')),
           (''status'', jopt_str (get_str item ''status'')),
           (''senderThreadId'', jopt_str (get_str item ''senderThreadId'')),
           (''receiverThreadIds'', unwrap_or (jget item ''receiverThreadIds'') (JArr [])),
           (''agents'', JArr (map collab_agent
              (unwrap_or (Option.bind (jget item ''agentsStates'') as_object) [])))]"

definition subagent_activity_input :: "json \<Rightarrow> bool \<Rightarrow> json" where
  "subagent_activity_input item completed =
     (let thread_id = str_or item ''agentThreadId'' [];
          kind = str_or item ''kind'' [];
          operation = (if kind = ''started'' then ''spawnAgent''
                       else if kind = ''interacted'' then ''interacted''
                       else if kind = ''interrupted'' then ''interrupted''
                       else ''subAgentActivity'');
          activity_status = (if kind = ''interrupted'' then ''interrupted''
                             else if completed then ''completed'' else ''inProgress'');
          agent_status = (if kind = ''interrupted'' then ''interrupted'' else ''running'') in
      JObj [(''codexCollab'', JBool True), (''operation'', JStr operation),
            (''activityKind'', JStr kind), (''status'', JStr activity_status),
            (''agentPath'', jopt_str (get_str item ''agentPath'')),
            (''receiverThreadIds'', JArr (if thread_id = [] then [] else [JStr thread_id])),
            (''agents'', JArr (if thread_id = [] then []
               else [JObj [(''thread_id'', JStr thread_id), (''status'', JStr agent_status),
                           (''message'', JNull)]]))])"

section \<open>Items as tool events\<close>

definition item_started_event :: "string \<Rightarrow> json \<Rightarrow> string option \<Rightarrow> bus_event option" where
  "item_started_event run_id item parent =
     (let i = str_or item ''id'' [] in
      if get_str item ''type'' = Some ''subAgentActivity'' then
        Some (ToolStart run_id i ''Agent'' (subagent_activity_input item False) parent)
      else if get_str item ''type'' = Some ''collabAgentToolCall'' then
        Some (ToolStart run_id i ''Agent'' (collab_input item) parent)
      else map_option (\<lambda>tool_name.
             ToolStart run_id i tool_name
               (JObj (opt_entry ''command'' (map_option JStr (get_str item ''command'')))) parent)
           (item_tool_name item))"

definition item_completed_events :: "string \<Rightarrow> json \<Rightarrow> string option \<Rightarrow> bus_event list" where
  "item_completed_events run_id item parent =
     (let item_type = str_or item ''type'' []; i = str_or item ''id'' [] in
      if item_type = ''subAgentActivity'' then
        (let payload = subagent_activity_input item True in
         [ToolEnd run_id i ''Agent'' (JObj [(''content'', payload)])
            (if get_str item ''kind'' = Some ''interrupted'' then ''error'' else ''success'')
            None parent (Some payload)])
      else if item_type = ''agentMessage'' then
        [MessageComplete run_id i (str_or item ''text'' []) parent None None None]
      else if item_type = ''userMessage'' \<or> item_type = ''reasoning'' then []
      else if item_type = ''contextCompaction'' then
        [CommandOutput run_id ''[notice] context compacted'']
      else if item_type = ''collabAgentToolCall'' then
        (let payload = collab_input item in
         [ToolEnd run_id i ''Agent'' (JObj [(''content'', payload)])
            (if get_str item ''status'' = Some ''failed'' then ''error'' else ''success'')
            None parent (Some payload)])
      else case item_tool_name item of
        None \<Rightarrow> []
      | Some tool_name \<Rightarrow>
          let output = unwrap_or (or_else (jget item ''aggregatedOutput'')
                (or_else (jget item ''aggregated_output'')
                  (or_else (jget item ''output'') (jget item ''changes'')))) JNull in
          [ToolEnd run_id i tool_name (JObj [(''content'', output)])
             (codex_normalize_status (str_or item ''status'' [])) None parent None])"

section \<open>Usage, hooks, notices, plans and limits\<close>

definition token_usage_event :: "string \<Rightarrow> json \<Rightarrow> bus_event option" where
  "token_usage_event run_id params =
     map_option (\<lambda>total. UsageUpdate
         \<lparr>us_run_id = run_id,
          us_input_tokens = unwrap_or (get_u64 total ''inputTokens'') 0,
          us_output_tokens = unwrap_or (get_u64 total ''outputTokens'') 0,
          us_cache_read_tokens = get_u64 total ''cachedInputTokens'',
          us_cache_write_tokens = None, us_total_cost_usd = 0, us_turn_index = None,
          us_model_usage = None, us_duration_api_ms = None, us_duration_ms = None,
          us_num_turns = None, us_stop_reason = None, us_service_tier = None, us_speed = None,
          us_web_fetch_requests = None, us_cache_creation_5m = None, us_cache_creation_1h = None\<rparr>)
       (jget_opt (jget params ''tokenUsage'') ''total'')"

definition hook_run_event :: "string \<Rightarrow> string \<Rightarrow> json \<Rightarrow> bus_event option" where
  "hook_run_event run_id method params =
     Option.bind (jget params ''run'') (\<lambda>run.
       map_option (\<lambda>hook_id.
           CodexHookRun run_id hook_id (str_or run ''eventName'' [])
             (if method = ''hook/started'' then ''running'' else str_or run ''status'' ''completed'')
             (get_str run ''statusMessage'') (get_u64 run ''durationMs''))
         (get_str run ''id''))"

text \<open>The UTF-8 bytes of the dash U+2014 and of the arrow U+2192 in the notices.\<close>

definition em_dash :: string where "em_dash = [CHR 0xE2, CHR 0x80, CHR 0x94]"
definition right_arrow :: string where "right_arrow = [CHR 0xE2, CHR 0x86, CHR 0x92]"

definition reviewed_action :: "json option \<Rightarrow> string \<Rightarrow> string" where
  "reviewed_action action t =
     (if t = ''command'' \<or> t = ''execve'' then
        ''command `'' @ unwrap_or (Option.bind (Option.bind action
            (\<lambda>a. or_else (jget a ''command'') (jget a ''program''))) as_str) ''command'' @ ''`''
      else if t = ''applyPatch'' then ''file edit''
      else if t = ''mcpToolCall'' then
        ''MCP tool `'' @ unwrap_or (Option.bind (jget_opt action ''toolName'') as_str) ''tool'' @ ''`''
      else if t = ''networkAccess'' then
        ''network access to '' @ unwrap_or (Option.bind (jget_opt action ''host'') as_str) ''network''
      else t)"

definition guardian_notice :: "json \<Rightarrow> string option" where
  "guardian_notice params =
     (let action = jget params ''action'';
          what = unwrap_or (map_option (reviewed_action action)
                   (Option.bind (jget_opt action ''type'') as_str)) ''action'';
          status = Option.bind (jget_opt (jget params ''review'') ''status'') as_str;
          rationale = opt_filter (\<lambda>s. s \<noteq> [])
                        (Option.bind (jget_opt (jget params ''review'') ''rationale'') as_str);
          head = (case status of
                    Some s \<Rightarrow> ''[guardian] auto-review '' @ s @ '': '' @ what
                  | None \<Rightarrow> ''[guardian] auto-review: '' @ what) in
      Some (case rationale of
              Some r \<Rightarrow> head @ '' '' @ em_dash @ '' '' @ r
            | None \<Rightarrow> head))"

definition plan_step :: "json \<Rightarrow> json" where
  "plan_step step =
     (let content = str_or step ''step'' [];
          status = (case get_str step ''status'' of
                      Some s \<Rightarrow> if s = ''inProgress'' then ''in_progress''
                               else if s = ''completed'' then ''completed'' else ''pending''
                    | None \<Rightarrow> ''pending'') in
      JObj [(''content'', JStr content), (''status'', JStr status), (''activeForm'', JStr content)])"

definition plan_updated_events :: "string \<Rightarrow> json \<Rightarrow> bus_event list" where
  "plan_updated_events run_id params =
     (let tool_use_id = ''codex-plan-'' @ str_or params ''turnId'' ''turn'';
          new_todos = JArr (map plan_step (unwrap_or (get_array params ''plan'') [])) in
      [ToolStart run_id tool_use_id ''TodoWrite'' (JObj [(''todos'', new_todos)]) None,
       ToolEnd run_id tool_use_id ''TodoWrite'' (JObj []) ''success'' None None
         (Some (JObj [(''newTodos'', new_todos)]))])"

definition rate_limit_window :: "json \<Rightarrow> json option" where
  "rate_limit_window limits =
     or_else (opt_filter (\<lambda>v. v \<noteq> JNull) (jget limits ''primary''))
             (opt_filter (\<lambda>v. v \<noteq> JNull) (jget limits ''secondary''))"

definition rate_limit_status :: "rat option \<Rightarrow> string" where
  "rate_limit_status utilization =
     (case utilization of
        Some u \<Rightarrow> if 1 \<le> u then ''rejected'' else if 8 / 10 \<le> u then ''allowed_warning'' else ''allowed''
      | None \<Rightarrow> ''allowed'')"

definition rate_limit_event :: "string \<Rightarrow> json \<Rightarrow> bus_event option" where
  "rate_limit_event run_id params =
     Option.bind (jget params ''rateLimits'') (\<lambda>limits.
       map_option (\<lambda>window.
           let utilization = map_option (\<lambda>p. p / 100) (get_f64 window ''usedPercent'') in
           RateLimitEvent run_id (rate_limit_status utilization) (get_f64 window ''resetsAt'')
             (map_option (\<lambda>m. show_nat m @ ''_min'') (get_u64 window ''windowDurationMins''))
             utilization limits)
         (rate_limit_window limits))"

section \<open>The text of a one-shot payload\<close>

text \<open>
  \<open>extract\_codex\_delta\<close>: the text the terminal shows for a line of the one-shot transport. The
  source returns at the first rule that applies; a command execution with an empty command falls
  through to the later rules.
\<close>

definition completed_item_text :: "json \<Rightarrow> string option option" where
  "completed_item_text payload =
     (case jget payload ''item'' of
        None \<Rightarrow> None
      | Some item \<Rightarrow>
          let item_type = str_or item ''type'' [] in
          if item_type = ''agent_message'' then Some (get_str item ''text'')
          else if item_type = ''command_execution'' then
            (let cmd = str_or item ''command'' [];
                 output = unwrap_or (Option.bind
                   (or_else (jget item ''aggregated_output'') (jget item ''output'')) as_str) [] in
             if cmd \<noteq> [] then Some (Some (''$ '' @ cmd @ [CHR 0x0A] @ output)) else None)
          else None)"

definition nonempty_field :: "json \<Rightarrow> string \<Rightarrow> string option" where
  "nonempty_field v k = opt_filter (\<lambda>s. s \<noteq> []) (get_str v k)"

definition extract_codex_delta :: "json \<Rightarrow> string option" where
  "extract_codex_delta payload =
     (let type_str = str_or payload ''type'' []; is_delta = str_contains type_str ''delta'' in
      case (if type_str = ''item.completed'' then completed_item_text payload else None) of
        Some r \<Rightarrow> r
      | None \<Rightarrow>
          or_else (if is_delta then or_else (get_str payload ''delta'') (get_str payload ''text'') else None)
            (or_else (nonempty_field payload ''output_text'')
              (Option.bind (jget payload ''data'') (\<lambda>data.
                 or_else (get_str data ''delta'')
                   (or_else (if is_delta then get_str data ''text'' else None)
                      (nonempty_field data ''output_text''))))))"

end
