(* ===== verification/Codex_Parser.thy ===== *)
theory Codex_Parser
  imports Codex_Events
begin

text \<open>
  \<open>parse\_line\<close> of the Codex app-server driver (\<open>src-tauri/src/agent/codex\_appserver.rs\<close>): server
  requests, notifications, replies, the registration of sub-agent threads and the replay of the
  messages that were waiting for their thread. A handler takes and returns the driver together
  with the \<open>ParsedLine\<close> it fills.

  Registering a thread replays its waiting messages, and a replayed message can register another
  thread: \<open>handle\_notification\<close> recurses with \<open>fuel\<close>, \<open>None\<close> is running out of it. Every nested
  replay takes one thread out of the buffer, so \<open>replay\_fuel\<close> is enough.
\<close>

type_synonym driver_out = "codex_app_server \<times> parsed_line"

definition add_events :: "bus_event list \<Rightarrow> driver_out \<Rightarrow> driver_out" where
  "add_events evs s = (fst s, (snd s)\<lparr>pl_events := pl_events (snd s) @ evs\<rparr>)"

definition add_outbound :: "json list \<Rightarrow> driver_out \<Rightarrow> driver_out" where
  "add_outbound frames s = (fst s, (snd s)\<lparr>pl_outbound := pl_outbound (snd s) @ frames\<rparr>)"

definition set_lifecycle :: "lifecycle_signal \<Rightarrow> driver_out \<Rightarrow> driver_out" where
  "set_lifecycle sig s = (fst s, (snd s)\<lparr>pl_lifecycle := Some sig\<rparr>)"

definition set_turn :: "string option \<Rightarrow> driver_out \<Rightarrow> driver_out" where
  "set_turn turn s = ((fst s)\<lparr>cx_active_turn_id := turn\<rparr>, snd s)"

definition opt_list :: "'a option \<Rightarrow> 'a list" where
  "opt_list v = (case v of None \<Rightarrow> [] | Some x \<Rightarrow> [x])"

text \<open>A message names a thread that is neither the session's own nor a registered child.\<close>

definition is_foreign :: "codex_app_server \<Rightarrow> string option \<Rightarrow> bool" where
  "is_foreign c thread =
     (case thread of None \<Rightarrow> False
      | Some t \<Rightarrow> cx_thread_id c \<noteq> Some t \<and> cx_child_parent_tools c t = None)"

section \<open>Requests of the server\<close>

definition missing_thread_error :: "json \<Rightarrow> json" where
  "missing_thread_error raw_id =
     JObj [(''jsonrpc'', JStr ''2.0''), (''id'', raw_id),
           (''error'', JObj [(''code'', JNum (NegInt (- 32602))),
                             (''message'', JStr ''Interactive request is missing threadId'')])]"

definition interactive_prompt ::
  "string \<Rightarrow> string \<Rightarrow> string \<Rightarrow> json \<Rightarrow> string option \<Rightarrow> (pending_kind \<times> bus_event list) option" where
  "interactive_prompt run_id request_id method params parent =
     (if method = M_CMD_APPROVAL \<or> method = M_CMD_APPROVAL_LEGACY then
        Some (Permission, [approval_prompt run_id request_id ''Bash'' params parent])
      else if method = M_FILE_APPROVAL \<or> method = M_FILE_APPROVAL_LEGACY then
        Some (Permission, [approval_prompt run_id request_id ''Edit'' params parent])
      else if method = M_PERM_APPROVAL then
        Some (Permission, [approval_prompt run_id request_id ''RequestPermissions'' params parent])
      else if method = M_REQUEST_USER_INPUT then
        Some (UserInput, ask_user_question_events run_id request_id params parent)
      else if method = M_ELICITATION then
        Some (Elicitation, [elicitation_prompt run_id request_id params])
      else None)"

definition handle_server_request ::
  "(json \<Rightarrow> string) \<Rightarrow> nat \<Rightarrow> string \<Rightarrow> string \<Rightarrow> json \<Rightarrow> codex_app_server \<Rightarrow> driver_out option" where
  "handle_server_request jtext now run_id method msg c =
     (let raw_id = unwrap_or (jget msg ''id'') JNull;
          request_id = req_id_str jtext raw_id;
          params = unwrap_or (jget msg ''params'') JNull;
          thread = get_str params ''threadId'' in
      if \<not> is_legacy_interactive_method method \<and> unwrap_or thread [] = [] then
        Some (c, parsed_line_default\<lparr>pl_outbound := [missing_thread_error raw_id]\<rparr>)
      else if is_foreign c thread then
        map_option (\<lambda>(ok, c', fr). (c', parsed_line_default\<lparr>pl_outbound := fr\<rparr>))
          (defer_thread_message jtext now (unwrap_or thread []) (Interactive method msg) c)
      else case interactive_prompt run_id request_id method params
                  (Option.bind thread (cx_child_parent_tools c)) of
        None \<Rightarrow> Some (c, parsed_line_default)
      | Some (kind, events) \<Rightarrow>
          Some (c\<lparr>cx_pending := hm_insert request_id
                    \<lparr>pr_raw_id = raw_id, pr_method = method,
                     pr_requested_permissions =
                       (if method = M_PERM_APPROVAL then jget params ''permissions'' else None),
                     pr_kind = kind\<rparr> (cx_pending c)\<rparr>,
                parsed_line_default\<lparr>pl_events := events, pl_interactive := [(request_id, kind)]\<rparr>))"

section \<open>The arms of a notification\<close>

definition on_thread_started :: "json \<Rightarrow> driver_out \<Rightarrow> driver_out" where
  "on_thread_started params s =
     (case Option.bind (jget_opt (jget params ''thread'') ''id'') as_str of
        None \<Rightarrow> s
      | Some t \<Rightarrow>
          if cx_thread_id (fst s) = Some t
          then ((fst s)\<lparr>cx_phase := Ready\<rparr>, (snd s)\<lparr>pl_thread_id := Some t\<rparr>) else s)"

definition on_turn_started :: "json \<Rightarrow> driver_out \<Rightarrow> driver_out" where
  "on_turn_started params s =
     set_lifecycle TurnStarted
       (case Option.bind (jget_opt (jget params ''turn'') ''id'') as_str of
          None \<Rightarrow> s
        | Some t \<Rightarrow> set_turn (Some t) s)"

definition on_turn_completed :: "driver_out \<Rightarrow> driver_out" where
  "on_turn_completed s = set_lifecycle TurnCompleted (set_turn None s)"

definition on_turn_failed :: "json \<Rightarrow> driver_out \<Rightarrow> driver_out" where
  "on_turn_failed params s =
     set_lifecycle (TurnFailed (Option.bind (jget_opt (jget params ''error'') ''message'') as_str))
       (set_turn None s)"

text \<open>A transient error keeps the turn; a terminal one of the session's own thread ends it.\<close>

definition on_error :: "string \<Rightarrow> json \<Rightarrow> bool \<Rightarrow> driver_out \<Rightarrow> driver_out" where
  "on_error run_id params is_child s =
     (let m = unwrap_or (or_else (Option.bind (jget_opt (jget params ''error'') ''message'') as_str)
                (get_str params ''message'')) ''unknown error'';
          will_retry = unwrap_or (get_bool params ''willRetry'') False in
      if will_retry \<or> is_child then s
      else add_events [CommandOutput run_id (''[error] '' @ m)] (set_turn None s))"

definition output_delta_events ::
  "string \<Rightarrow> json \<Rightarrow> string \<Rightarrow> string \<Rightarrow> string option \<Rightarrow> bus_event list" where
  "output_delta_events run_id params key ending parent =
     (case (get_str params ''itemId'', get_str params key) of
        (Some i, Some delta) \<Rightarrow>
          if i \<noteq> [] \<and> delta \<noteq> [] then [ToolOutputDelta run_id i (delta @ ending) parent] else []
      | _ \<Rightarrow> [])"

definition rerouted_notice :: "json \<Rightarrow> string" where
  "rerouted_notice params =
     (let reason = str_or params ''reason'' [];
          head = ''[notice] model rerouted: '' @ str_or params ''fromModel'' ''?'' @ '' ''
                 @ right_arrow @ '' '' @ str_or params ''toModel'' ''?'' in
      if reason = [] then head else head @ '' ('' @ reason @ '')'')"

definition summary_notice :: "json \<Rightarrow> string option" where
  "summary_notice params =
     map_option (\<lambda>summary.
         case opt_filter (\<lambda>d. d \<noteq> []) (get_str params ''details'') of
           Some d \<Rightarrow> ''[notice] '' @ summary @ '': '' @ d
         | None \<Rightarrow> ''[notice] '' @ summary)
       (get_str params ''summary'')"

definition verification_names :: "json \<Rightarrow> string list" where
  "verification_names params = filter_map as_str (unwrap_or (get_array params ''verifications'') [])"

text \<open>The arms that only append events.\<close>

definition notification_events ::
  "string \<Rightarrow> string \<Rightarrow> json \<Rightarrow> bool \<Rightarrow> string option \<Rightarrow> bus_event list" where
  "notification_events run_id method params is_child parent =
     (if method = ''item/agentMessage/delta'' then
        opt_list (map_option (\<lambda>d. MessageDelta run_id d parent) (get_str params ''delta''))
      else if method = ''item/reasoning/textDelta'' \<or> method = ''item/reasoning/summaryTextDelta'' then
        opt_list (map_option (\<lambda>d. ThinkingDelta run_id d parent) (get_str params ''delta''))
      else if method = ''thread/tokenUsage/updated'' \<and> \<not> is_child then
        opt_list (token_usage_event run_id params)
      else if method = ''thread/goal/updated'' then
        opt_list (map_option (GoalUpdate run_id) (jget params ''goal''))
      else if method = ''thread/goal/cleared'' then [GoalUpdate run_id JNull]
      else if method = ''turn/plan/updated'' then plan_updated_events run_id params
      else if method = ''item/commandExecution/outputDelta'' then
        output_delta_events run_id params ''delta'' [] parent
      else if method = ''account/rateLimits/updated'' then opt_list (rate_limit_event run_id params)
      else if method = ''model/rerouted'' then [CommandOutput run_id (rerouted_notice params)]
      else if method = ''warning'' then
        opt_list (map_option (\<lambda>m. CommandOutput run_id (''[notice] '' @ m)) (get_str params ''message''))
      else if method = ''guardianWarning'' then
        opt_list (map_option (\<lambda>m. CommandOutput run_id (''[guardian] '' @ m)) (get_str params ''message''))
      else if method = ''model/verification'' then
        (let names = verification_names params in
         if names = [] then []
         else [CommandOutput run_id (''[notice] model verification: '' @ str_join '', '' names)])
      else if method = ''deprecationNotice'' \<or> method = ''configWarning'' then
        opt_list (map_option (CommandOutput run_id) (summary_notice params))
      else if method = ''turn/diff/updated'' then
        opt_list (map_option (CodexTurnDiff run_id (str_or params ''turnId'' [])) (get_str params ''diff''))
      else if method = ''hook/started'' \<or> method = ''hook/completed'' then
        opt_list (hook_run_event run_id method params)
      else if method = ''item/mcpToolCall/progress'' then
        output_delta_events run_id params ''message'' [CHR 0x0A] parent
      else if method = ''item/autoApprovalReview/completed'' then
        opt_list (map_option (CommandOutput run_id) (guardian_notice params))
      else if method = ''mcpServer/startupStatus/updated'' then
        opt_list (map_option (\<lambda>n. CodexMcpStatus run_id n (str_or params ''status'' ''starting'')
                    (get_str params ''error'')) (get_str params ''name''))
      else if method = ''skills/changed'' then [CommandOutput run_id ''[notice] skills changed'']
      else [])"

text \<open>What a registered sub-agent's thread may send.\<close>

definition child_methods :: "string list" where
  "child_methods =
     [''turn/started'', ''turn/completed'', ''turn/failed'', ''error'', ''item/agentMessage/delta'',
      ''item/reasoning/textDelta'', ''item/reasoning/summaryTextDelta'', ''item/started'',
      ''item/completed'', ''item/commandExecution/outputDelta'', ''item/mcpToolCall/progress'']"

section \<open>Sub-agents\<close>

definition spawned_threads :: "json \<Rightarrow> string list" where
  "spawned_threads item =
     (if get_str item ''type'' = Some ''subAgentActivity'' \<and> get_str item ''kind'' = Some ''started'' then
        opt_list (get_str item ''agentThreadId'')
      else if get_str item ''type'' = Some ''collabAgentToolCall'' \<and> get_str item ''tool'' = Some ''spawnAgent''
      then filter_map as_str (unwrap_or (get_array item ''receiverThreadIds'') [])
      else [])"

text \<open>Asking for the identity of a thread the first time it is seen.\<close>

definition request_identity :: "string \<Rightarrow> driver_out \<Rightarrow> driver_out" where
  "request_identity tid s =
     (if tid \<in> set (cx_seen_subagent_threads (fst s)) then s
      else let c0 = (fst s)\<lparr>cx_seen_subagent_threads := tid # cx_seen_subagent_threads (fst s)\<rparr>;
               (i, c1) = next_id c0 in
        add_outbound
          [rpc_request i ''thread/read''
             (JObj [(''threadId'', JStr tid), (''includeTurns'', JBool False)])]
          (c1\<lparr>cx_internal_waiters := (cx_internal_waiters c1)(i \<mapsto> tid)\<rparr>, snd s))"

definition claim_child :: "string \<Rightarrow> string \<Rightarrow> driver_out \<Rightarrow> driver_out" where
  "claim_child tid parent s =
     ((fst s)\<lparr>cx_child_parent_tools := (cx_child_parent_tools (fst s))(tid \<mapsto> parent)\<rparr>, snd s)"

fun register_threads ::
  "(string \<Rightarrow> driver_out \<Rightarrow> driver_out option) \<Rightarrow> string \<Rightarrow> string list \<Rightarrow> driver_out
   \<Rightarrow> driver_out option" where
  "register_threads replay parent [] s = Some s"
| "register_threads replay parent (tid # tids) s =
     (if tid = [] then register_threads replay parent tids s
      else Option.bind
        (if parent = [] then Some s else replay tid (claim_child tid parent s))
        (\<lambda>s'. register_threads replay parent tids (request_identity tid s')))"

definition register_subagents ::
  "(string \<Rightarrow> driver_out \<Rightarrow> driver_out option) \<Rightarrow> json \<Rightarrow> string option \<Rightarrow> driver_out
   \<Rightarrow> driver_out option" where
  "register_subagents replay item containing s =
     register_threads replay (unwrap_or (or_else containing (get_str item ''id'')) [])
       (spawned_threads item) s"

section \<open>Replaying what waited for a thread\<close>

definition merge_replayed :: "parsed_line \<Rightarrow> parsed_line \<Rightarrow> parsed_line" where
  "merge_replayed out replayed =
     out\<lparr>pl_events := pl_events out @ pl_events replayed,
         pl_interactive := pl_interactive out @ pl_interactive replayed,
         pl_outbound := pl_outbound out @ pl_outbound replayed\<rparr>"

definition replay_entry ::
  "(json \<Rightarrow> string) \<Rightarrow> nat \<Rightarrow> string \<Rightarrow> (string \<Rightarrow> json \<Rightarrow> driver_out \<Rightarrow> driver_out option)
   \<Rightarrow> deferred_entry \<Rightarrow> driver_out \<Rightarrow> driver_out option" where
  "replay_entry jtext now run_id handle e s =
     (let c = (fst s)\<lparr>cx_deferred_bytes := cx_deferred_bytes (fst s) - de_payload_bytes e\<rparr> in
      if DEFERRED_MESSAGE_TTL \<le> now - de_received_at e then
        Some (add_outbound (reject_deferred_interactive (de_message e) ''Interactive request expired'')
                (c, snd s))
      else case de_message e of
        Notification method params \<Rightarrow> handle method params (c, snd s)
      | Interactive method message \<Rightarrow>
          map_option (\<lambda>(c', replayed). (c', merge_replayed (snd s) replayed))
            (handle_server_request jtext now run_id method message c))"

fun replay_queue ::
  "(json \<Rightarrow> string) \<Rightarrow> nat \<Rightarrow> string \<Rightarrow> (string \<Rightarrow> json \<Rightarrow> driver_out \<Rightarrow> driver_out option)
   \<Rightarrow> deferred_entry list \<Rightarrow> driver_out \<Rightarrow> driver_out option" where
  "replay_queue jtext now run_id handle [] s = Some s"
| "replay_queue jtext now run_id handle (e # es) s =
     Option.bind (replay_entry jtext now run_id handle e s)
       (replay_queue jtext now run_id handle es)"

definition replay_deferred_thread ::
  "(json \<Rightarrow> string) \<Rightarrow> nat \<Rightarrow> string \<Rightarrow> (string \<Rightarrow> json \<Rightarrow> driver_out \<Rightarrow> driver_out option)
   \<Rightarrow> string \<Rightarrow> driver_out \<Rightarrow> driver_out option" where
  "replay_deferred_thread jtext now run_id handle tid s =
     (case map_of (cx_deferred (fst s)) tid of
        None \<Rightarrow> Some s
      | Some q \<Rightarrow>
          replay_queue jtext now run_id handle q
            ((fst s)\<lparr>cx_deferred := hm_remove tid (cx_deferred (fst s))\<rparr>, snd s))"

section \<open>Notifications\<close>

definition claimed_notification ::
  "(json \<Rightarrow> string option \<Rightarrow> driver_out \<Rightarrow> driver_out option)
   \<Rightarrow> string \<Rightarrow> string \<Rightarrow> json \<Rightarrow> string option \<Rightarrow> driver_out \<Rightarrow> driver_out option" where
  "claimed_notification register run_id method params parent s =
     (if method = ''thread/started'' then Some (on_thread_started params s)
      else if method = ''turn/started'' then Some (if parent = None then on_turn_started params s else s)
      else if method = ''turn/completed'' then Some (if parent = None then on_turn_completed s else s)
      else if method = ''turn/failed'' then Some (if parent = None then on_turn_failed params s else s)
      else if method = ''error'' then Some (on_error run_id params (parent \<noteq> None) s)
      else if method = ''item/started'' then
        (case jget params ''item'' of
           None \<Rightarrow> Some s
         | Some item \<Rightarrow>
             register item parent (add_events (opt_list (item_started_event run_id item parent)) s))
      else if method = ''item/completed'' then
        (case jget params ''item'' of
           None \<Rightarrow> Some s
         | Some item \<Rightarrow> register item parent (add_events (item_completed_events run_id item parent) s))
      else Some (add_events (notification_events run_id method params (parent \<noteq> None) parent) s))"

fun handle_notification ::
  "nat \<Rightarrow> (json \<Rightarrow> string) \<Rightarrow> nat \<Rightarrow> string \<Rightarrow> string \<Rightarrow> json \<Rightarrow> driver_out \<Rightarrow> driver_out option" where
  "handle_notification 0 jtext now run_id method params s = None"
| "handle_notification (Suc fuel) jtext now run_id method params s =
     (let thread = get_str params ''threadId'';
          parent = Option.bind thread (cx_child_parent_tools (fst s)) in
      if is_foreign (fst s) thread \<and> method \<noteq> ''thread/started'' then
        map_option (\<lambda>(ok, c', fr). add_outbound fr (c', snd s))
          (defer_thread_message jtext now (unwrap_or thread []) (Notification method params) (fst s))
      else if parent \<noteq> None \<and> method \<notin> set child_methods then Some s
      else claimed_notification
             (register_subagents (replay_deferred_thread jtext now run_id
                (\<lambda>m p t. handle_notification fuel jtext now run_id m p t)))
             run_id method params parent s)"

definition replay_fuel :: "codex_app_server \<Rightarrow> nat" where
  "replay_fuel c = Suc (length (cx_deferred c))"

section \<open>Replies\<close>

definition agent_info :: "string \<Rightarrow> string \<Rightarrow> json \<Rightarrow> bus_event list" where
  "agent_info run_id thread_id msg =
     (case jget_opt (jget msg ''result'') ''thread'' of
        None \<Rightarrow> []
      | Some thread \<Rightarrow>
          [CodexAgentInfo run_id thread_id (get_str thread ''agentNickname'')
             (get_str thread ''agentRole'') (get_str thread ''parentThreadId'')])"

text \<open>The reply that opens the thread (request id 2).\<close>

definition open_thread ::
  "(json \<Rightarrow> string) \<Rightarrow> nat \<Rightarrow> string \<Rightarrow> json \<Rightarrow> codex_app_server \<Rightarrow> driver_out option" where
  "open_thread jtext now run_id msg c =
     map_option (\<lambda>s. ((fst s)\<lparr>cx_phase := Ready\<rparr>, snd s))
       (case (cx_thread_id c, Option.bind (jget_opt (jget_opt (jget msg ''result'') ''thread'') ''id'') as_str) of
          (None, Some t) \<Rightarrow>
            replay_deferred_thread jtext now run_id
              (handle_notification (replay_fuel c) jtext now run_id) t
              (c\<lparr>cx_thread_id := Some t\<rparr>, parsed_line_default\<lparr>pl_thread_id := Some t\<rparr>)
        | _ \<Rightarrow> Some (c, parsed_line_default))"

definition handle_reply ::
  "(json \<Rightarrow> string) \<Rightarrow> nat \<Rightarrow> string \<Rightarrow> json \<Rightarrow> codex_app_server \<Rightarrow> driver_out option" where
  "handle_reply jtext now run_id msg c =
     (let i = Option.bind (jget msg ''id'') as_i64 in
      case Option.bind i (cx_internal_waiters c) of
        Some thread_id \<Rightarrow>
          Some (c\<lparr>cx_internal_waiters := (cx_internal_waiters c)(the i := None)\<rparr>,
                parsed_line_default\<lparr>pl_events := agent_info run_id thread_id msg\<rparr>)
      | None \<Rightarrow>
          (case Option.bind i (cx_client_waiters c) of
             Some request_id \<Rightarrow>
               Some (c\<lparr>cx_client_waiters := (cx_client_waiters c)(the i := None)\<rparr>,
                     parsed_line_default\<lparr>pl_control_response :=
                       Some (request_id, unwrap_or (or_else (jget msg ''result'') (jget msg ''error'')) JNull)\<rparr>)
           | None \<Rightarrow>
               if i = Some 2 \<and> jget msg ''error'' = None then open_thread jtext now run_id msg c
               else Some (c, parsed_line_default)))"

section \<open>A line of the child's output\<close>

definition handle_message ::
  "(json \<Rightarrow> string) \<Rightarrow> nat \<Rightarrow> string \<Rightarrow> json \<Rightarrow> codex_app_server \<Rightarrow> driver_out option" where
  "handle_message jtext now run_id msg c =
     (case get_str msg ''method'' of
        Some method \<Rightarrow>
          if jget msg ''id'' \<noteq> None then
            (if is_interactive_method method then handle_server_request jtext now run_id method msg c
             else Some (c, parsed_line_default))
          else handle_notification (replay_fuel c) jtext now run_id method
                 (unwrap_or (jget msg ''params'') JNull) (c, parsed_line_default)
      | None \<Rightarrow> handle_reply jtext now run_id msg c)"

definition parse_line ::
  "(string \<Rightarrow> json option) \<Rightarrow> (json \<Rightarrow> string) \<Rightarrow> nat \<Rightarrow> string \<Rightarrow> string \<Rightarrow> codex_app_server
   \<Rightarrow> driver_out option" where
  "parse_line jparse jtext now run_id line c =
     (let text = trim line in
      if text = [] then Some (c, parsed_line_default)
      else case jparse text of
        None \<Rightarrow> Some (c, parsed_line_default)
      | Some msg \<Rightarrow> handle_message jtext now run_id msg c)"

end
