(* ===== verification/Actor_State.thy ===== *)
theory Actor_State
  imports Claude_Protocol Runs_Store Codex_Parser
begin

text \<open>
  The private state of a session actor (\<open>src-tauri/src/agent/session\_actor.rs\<close>), its pure
  helpers and its effects. The first part of the record \<open>actor\<close> is the source's struct, field by
  field; the fields \<open>x\_...\<close> record what the actor did to the world: the lines written to the
  child's stdin, the events persisted and emitted, the replies sent on oneshot channels.

  Everything the environment decides is in the record \<open>world\<close>: the JSON parser and printer, the
  UUIDs, the outcome of the n-th input/output operation, the texts of timestamps, the file
  system as the attachments see it, and the Unicode table behind \<open>char::is\_alphanumeric\<close>.
  A handler runs without interruption, so one instant \<open>now\<close> stands for the calls of
  \<open>Instant::now()\<close> it makes.
\<close>

section \<open>The environment\<close>

record world =
  w_parse :: "string \<Rightarrow> json option"
  w_text :: "json \<Rightarrow> string"
  w_uuid :: "nat \<Rightarrow> string"
  w_write :: "nat \<Rightarrow> string option"
  w_flush :: "nat \<Rightarrow> string option"
  w_persist :: "nat \<Rightarrow> string option"
  w_save :: "nat \<Rightarrow> save_env"
  w_iso :: "nat \<Rightarrow> string"
  w_alnum :: "string \<Rightarrow> bool"
  w_att_dir :: "string \<Rightarrow> string option"
  w_base64 :: "string \<Rightarrow> string option"
  w_millis :: "nat \<Rightarrow> string"
  w_write_file :: "string \<Rightarrow> bool"
  w_file_size :: "string \<Rightarrow> nat"

section \<open>Pure helpers\<close>

text \<open>Skips to just behind the final byte (\<open>@\<close> to \<open>~\<close>) of a control sequence.\<close>

fun skip_csi :: "string \<Rightarrow> string" where
  "skip_csi [] = []"
| "skip_csi (n # s) = (if 64 \<le> byte n \<and> byte n \<le> 126 then s else skip_csi s)"

lemma skip_csi_length [simp]: "length (skip_csi s) \<le> length s"
  by (induction s) auto

function strip_ansi :: "string \<Rightarrow> string" where
  "strip_ansi [] = []"
| "strip_ansi (c # s) =
     (if byte c = 27 then
        (if s \<noteq> [] \<and> hd s = CHR ''['' then strip_ansi (skip_csi (tl s)) else strip_ansi s)
      else c # strip_ansi s)"
  by pat_completeness auto
termination
proof (relation "measure length"; simp)
  fix s :: string
  assume "s \<noteq> [] \<and> hd s = CHR ''[''"
  then show "length (skip_csi (tl s)) < Suc (length s)"
    using skip_csi_length [of "tl s"] by (cases s) (auto simp: le_imp_less_Suc le_SucI)
qed

definition extract_promise_tag :: "string \<Rightarrow> string option" where
  "extract_promise_tag text =
     (case str_find text ''<promise>'' of
        None \<Rightarrow> None
      | Some start \<Rightarrow>
          (case str_find text ''</promise>'' of
             None \<Rightarrow> None
           | Some end_pos \<Rightarrow>
               if end_pos \<le> start + 9 then None
               else Some (trim (drop (start + 9) (take end_pos text)))))"

text \<open>The greatest character boundary not above \<open>n\<close>.\<close>

fun snap_boundary :: "string \<Rightarrow> nat \<Rightarrow> nat" where
  "snap_boundary s 0 = 0"
| "snap_boundary s (Suc n) = (if is_char_boundary s (Suc n) then Suc n else snap_boundary s n)"

definition truncate_str :: "string \<Rightarrow> nat \<Rightarrow> string" where
  "truncate_str s max_len = (if length s \<le> max_len then s else take (snap_boundary s max_len) s)"

fun pending_kind_name :: "pending_kind \<Rightarrow> string" where
  "pending_kind_name Permission = ''permission''"
| "pending_kind_name Hook = ''hook''"
| "pending_kind_name Elicitation = ''elicitation''"
| "pending_kind_name UserInput = ''user_input''"

definition ensure_control_cancel_supported :: "bool \<Rightarrow> string + unit" where
  "ensure_control_cancel_supported is_codex =
     (if is_codex
      then Inl ''[interaction:not_started] cancel_control_request is unsupported for Codex app-server''
      else Inr ())"

fun quarantine_event_passthrough :: "bus_event \<Rightarrow> bool" where
  "quarantine_event_passthrough (ToolEnd r tid n out st d p tr) = True"
| "quarantine_event_passthrough _ = False"

text \<open>The result is (emit the state, clear the pending interrupt, the error to emit).\<close>

definition quarantine_lift_recovery ::
  "bool \<Rightarrow> string \<Rightarrow> string option \<Rightarrow> bool \<Rightarrow> bool \<times> bool \<times> string option" where
  "quarantine_lift_recovery from_internal state error pending_interrupt =
     (if from_internal then (False, False, None)
      else (True, pending_interrupt, if state = ''failed'' then error else None))"

definition idle_error_persist ::
  "string option \<Rightarrow> string option \<Rightarrow> string option \<times> string option" where
  "idle_error_persist subtype error =
     (case subtype of
        Some s \<Rightarrow> if starts_with s ''error'' then (error, Some s) else (None, None)
      | None \<Rightarrow> (None, None))"

definition build_control_response :: "string \<Rightarrow> string + json \<Rightarrow> json" where
  "build_control_response request_id outcome =
     JObj [(''type'', JStr ''control_response''),
           (''response'',
             (case outcome of
                Inr response \<Rightarrow> JObj [(''subtype'', JStr ''success''), (''request_id'', JStr request_id),
                                     (''response'', response)]
              | Inl error \<Rightarrow> JObj [(''subtype'', JStr ''error''), (''request_id'', JStr request_id),
                                  (''error'', JStr error)]))]"

definition map_state_to_run_status :: "string \<Rightarrow> run_status option" where
  "map_state_to_run_status state =
     (if state = ''spawning'' \<or> state = ''running'' then Some Running
      else if state = ''completed'' then Some Completed
      else if state = ''failed'' then Some Failed
      else if state = ''stopped'' then Some Stopped
      else if state = ''idle'' then Some Idle
      else None)"

section \<open>Attachments\<close>

text \<open>The characters of a UTF-8 string: each is a byte with the continuation bytes behind it.\<close>

fun utf8_chars :: "string \<Rightarrow> string list" where
  "utf8_chars [] = []"
| "utf8_chars (c # s) =
     (case utf8_chars s of
        [] \<Rightarrow> [[c]]
      | ch # chs \<Rightarrow> if is_cont_byte (hd ch) then (c # ch) # chs else [c] # ch # chs)"

definition safe_char :: "(string \<Rightarrow> bool) \<Rightarrow> string \<Rightarrow> bool" where
  "safe_char alnum ch = (alnum ch \<or> ch = ''.'' \<or> ch = ''_'' \<or> ch = ''-'')"

text \<open>
  \<open>None\<close> is the panic of the slice \<open>\&cleaned[..120]\<close> when byte 120 is inside a character.
\<close>

definition att_safe_filename :: "(string \<Rightarrow> bool) \<Rightarrow> string \<Rightarrow> string option" where
  "att_safe_filename alnum name =
     (let cleaned = concat (map (\<lambda>ch. if safe_char alnum ch then ch else ''_'') (utf8_chars name));
          truncated = (if 120 < length cleaned
                       then (if is_char_boundary cleaned 120 then Some (take 120 cleaned) else None)
                       else Some cleaned)
      in map_option (\<lambda>t. if t = [] then ''attachment.bin'' else t) truncated)"

definition att_extension :: "string \<Rightarrow> string" where
  "att_extension mime =
     (if starts_with mime ''image/png'' then ''.png''
      else if starts_with mime ''image/jpeg'' then ''.jpg''
      else if starts_with mime ''image/webp'' then ''.webp''
      else if starts_with mime ''image/gif'' then ''.gif''
      else if starts_with mime ''application/pdf'' then ''.pdf''
      else [])"

datatype save_outcome = SavePanic | NotSaved | Saved string

definition save_attachment_to_disk ::
  "world \<Rightarrow> nat \<Rightarrow> string \<Rightarrow> string \<Rightarrow> attachment_data \<Rightarrow> save_outcome" where
  "save_attachment_to_disk w now uuid run_id att =
     (case w_att_dir w run_id of
        None \<Rightarrow> NotSaved
      | Some dir \<Rightarrow>
          (case w_base64 w (att_content_base64 att) of
             None \<Rightarrow> NotSaved
           | Some bytes \<Rightarrow>
               if bytes = [] then NotSaved
               else (case att_safe_filename (w_alnum w) (att_filename att) of
                  None \<Rightarrow> SavePanic
                | Some safe_name \<Rightarrow>
                    let full_path = dir @ ''/'' @ w_millis w now @ ''-'' @ take 6 uuid @ ''-''
                          @ safe_name @ att_extension (att_media_type att) in
                    if w_write_file w full_path then Saved full_path else NotSaved)))"

definition base64_block :: "string \<Rightarrow> attachment_data \<Rightarrow> json" where
  "base64_block kind att =
     JObj [(''type'', JStr kind),
           (''source'', JObj [(''type'', JStr ''base64''), (''media_type'', JStr (att_media_type att)),
                             (''data'', JStr (att_content_base64 att))])]"

definition attachment_block :: "attachment_data \<Rightarrow> json list" where
  "attachment_block att =
     (if att_media_type att \<in> set ALLOWED_DOC_TYPES then [base64_block ''document'' att]
      else if att_media_type att \<in> set ALLOWED_IMAGE_TYPES then [base64_block ''image'' att]
      else [])"

definition oversized :: "attachment_data \<Rightarrow> bool" where
  "oversized att =
     (max_attachment_size (att_media_type att) < length (att_content_base64 att) * 3 div 4)"

text \<open>
  The loop over the attachments: the blocks and the saved paths; \<open>n\<close> counts the UUIDs drawn.
  \<open>None\<close> is a panic while a file is saved.
\<close>

fun payload_parts ::
  "world \<Rightarrow> nat \<Rightarrow> string \<Rightarrow> nat \<Rightarrow> attachment_data list \<Rightarrow> (nat \<times> json list \<times> string list) option" where
  "payload_parts w now run_id n [] = Some (n, [], [])"
| "payload_parts w now run_id n (att # atts) =
     (if oversized att then payload_parts w now run_id n atts
      else case save_attachment_to_disk w now (w_uuid w n) run_id att of
        SavePanic \<Rightarrow> None
      | NotSaved \<Rightarrow>
          map_option (\<lambda>(m, bs, ps). (m, attachment_block att @ bs, ps))
            (payload_parts w now run_id (Suc n) atts)
      | Saved path \<Rightarrow>
          map_option (\<lambda>(m, bs, ps). (m, attachment_block att @ bs, path # ps))
            (payload_parts w now run_id (Suc n) atts))"

definition NL :: string where "NL = [char_of (10 :: nat)]"

definition saved_files_text :: "string \<Rightarrow> string list \<Rightarrow> string" where
  "saved_files_text text paths =
     (if paths = [] then text
      else text @ NL @ NL @ ''[Attached files saved at:'' @ NL
           @ str_join NL (map (\<lambda>p. ''- '' @ p) paths) @ NL
           @ ''Use these file paths with the Read tool if you need to access them later.]'')"

definition user_content ::
  "world \<Rightarrow> nat \<Rightarrow> string \<Rightarrow> nat \<Rightarrow> string \<Rightarrow> attachment_data list \<Rightarrow> (nat \<times> json) option" where
  "user_content w now run_id n text atts =
     (if atts = [] then Some (n, JStr text)
      else map_option (\<lambda>(m, blocks, paths).
          (m, JArr (JObj [(''type'', JStr ''text''), (''text'', JStr (saved_files_text text paths))] # blocks)))
        (payload_parts w now run_id n atts))"

text \<open>The stream-json user message and the UUID it carries.\<close>

definition build_user_payload ::
  "world \<Rightarrow> nat \<Rightarrow> string \<Rightarrow> nat \<Rightarrow> string \<Rightarrow> attachment_data list \<Rightarrow> (nat \<times> json \<times> string) option" where
  "build_user_payload w now run_id n text atts =
     map_option (\<lambda>(m, content).
        (Suc m,
         JObj [(''type'', JStr ''user''), (''uuid'', JStr (w_uuid w m)),
               (''message'', JObj [(''role'', JStr ''user''), (''content'', content)])],
         w_uuid w m))
       (user_content w now run_id n text atts)"

section \<open>Ralph loop data\<close>

datatype ralph_phase = RRunning | RWaitingRetry | RPausedByUser ralph_phase | RCancelPending

record ralph_loop_state =
  rl_prompt :: string
  rl_phase :: ralph_phase
  rl_iteration :: nat
  rl_max_iterations :: nat
  rl_completion_promise :: "string option"
  rl_started_at :: string
  rl_consecutive_failures :: nat
  rl_max_consecutive_failures :: nat
  rl_retry_after :: "nat option"
  rl_turn_toplevel_texts :: "string list"

record ralph_cancel_result =
  rc_iteration :: nat
  rc_immediate :: bool

record pending_interactive_request =
  pi_request_id :: string
  pi_kind :: pending_kind
  pi_subtype :: string
  pi_detail :: string
  pi_received_at :: nat

section \<open>The actor\<close>

datatype reply_value =
    ReplyUnit "string + unit"
  | ReplyControl "string + string"
  | ReplyCancel "string + ralph_cancel_result"

record actor =
  a_run_id :: string
  a_protocol :: protocol_state
  a_codex :: "codex_app_server option"
  a_codex_startup :: "json list"
  a_codex_ready :: bool
  a_codex_overrides :: codex_turn_overrides
  a_state :: string
  a_stdin :: bool
  a_child :: bool
  a_cancelled :: bool
  a_pending_interrupt :: bool
  a_control_waiters :: "(string \<times> nat) list"
  a_active_turn :: "active_turn option"
  a_active_extractor :: "context_extractor option"
  a_queued_user :: "user_ticket list"
  a_queued_internal :: "internal_job list"
  a_next_turn_index :: nat
  a_next_auto_ctx_id :: nat
  a_next_turn_seq :: nat
  a_last_auto_context_for :: "nat option"
  a_must_run_internal_for_turn :: "nat option"
  a_quarantine :: bool
  a_quarantine_deadline :: "nat option"
  a_interrupt_sent :: bool
  a_quarantine_from_internal :: bool
  a_terminated :: bool
  a_json_parse_fail_count :: nat
  a_user_hard_timeout :: "nat option"
  a_ralph_loop :: "ralph_loop_state option"
  a_ralph_needs_dispatch :: bool
  a_pending :: "(string \<times> pending_interactive_request) list"
  a_remembered_tools :: "string list"
  \<comment> \<open>effects\<close>
  x_wire :: "json list"
  x_log :: "bus_event list"
  x_emitted :: "bus_event list"
  x_realtime :: "bus_event list"
  x_status_changed :: "run_status list"
  x_replies :: "(nat \<times> reply_value) list"
  x_waiter_out :: "(nat \<times> json) list"
  x_snapshots :: "context_snapshot list"
  x_notified :: nat
  x_store :: meta_store
  x_io :: nat
  x_uuids :: nat
  x_killed :: bool
  x_panicked :: bool

text \<open>\<open>spawn\_actor\<close>: the actor's first state, over a metadata store.\<close>

definition spawn_actor ::
  "string \<Rightarrow> bool \<Rightarrow> nat \<Rightarrow> nat \<Rightarrow> codex_app_server option \<Rightarrow> json list \<Rightarrow> nat option \<Rightarrow> meta_store \<Rightarrow> actor" where
  "spawn_actor run_id resume turn_index auto_ctx codex startup timeout store =
     \<lparr>a_run_id = run_id, a_protocol = protocol_new resume, a_codex = codex,
      a_codex_startup = startup, a_codex_ready = False, a_codex_overrides = no_overrides,
      a_state = [], a_stdin = True, a_child = True, a_cancelled = False,
      a_pending_interrupt = False, a_control_waiters = [], a_active_turn = None,
      a_active_extractor = None, a_queued_user = [], a_queued_internal = [],
      a_next_turn_index = turn_index, a_next_auto_ctx_id = auto_ctx, a_next_turn_seq = 0,
      a_last_auto_context_for = None, a_must_run_internal_for_turn = None,
      a_quarantine = False, a_quarantine_deadline = None, a_interrupt_sent = False,
      a_quarantine_from_internal = False, a_terminated = False, a_json_parse_fail_count = 0,
      a_user_hard_timeout = timeout, a_ralph_loop = None, a_ralph_needs_dispatch = False,
      a_pending = [], a_remembered_tools = [],
      x_wire = [], x_log = [], x_emitted = [], x_realtime = [], x_status_changed = [],
      x_replies = [], x_waiter_out = [], x_snapshots = [], x_notified = 0, x_store = store,
      x_io = 0, x_uuids = 0, x_killed = False, x_panicked = False\<rparr>"

end
