(* ===== verification/Text_Props.thy ===== *)
theory Text_Props
  imports Actor_State
begin

text \<open>
  The text helpers of the session actor: escape sequences are stripped completely, error texts are
  cut at character boundaries, and the files saved for attachments stay in the run's directory
  whatever name the webview sends.
\<close>

section \<open>Stripping escape sequences\<close>

lemma strip_ansi_clean_set: "c \<in> set (strip_ansi s) \<Longrightarrow> byte c \<noteq> 27"
  by (induction s rule: strip_ansi.induct) (auto split: if_splits)

lemma strip_ansi_plain: "(\<And>c. c \<in> set s \<Longrightarrow> byte c \<noteq> 27) \<Longrightarrow> strip_ansi s = s"
  by (induction s) auto

lemma skip_csi_suffix: "suffix (skip_csi s) s"
  by (induction s) (auto simp: suffix_ConsI)

lemma strip_ansi_subseq: "subseq (strip_ansi s) s"
proof (induction s rule: strip_ansi.induct)
  case (2 c s)
  show ?case
  proof (cases "byte c = 27")
    case esc: True
    show ?thesis
    proof (cases "s \<noteq> [] \<and> hd s = CHR ''[''")
      case True
      then have "subseq (skip_csi (tl s)) s"
        using skip_csi_suffix [of "tl s"]
        by (cases s) (auto simp: suffix_imp_subseq)
      then have "subseq (strip_ansi (skip_csi (tl s))) s"
        using 2 esc True subseq_order.order_trans by blast
      then show ?thesis using esc True list_emb_Cons by simp
    next
      case False
      then have "subseq (strip_ansi s) s" using 2 esc by blast
      then show ?thesis using esc False by (auto intro: list_emb_Cons)
    qed
  next
    case False
    then show ?thesis using 2 by simp
  qed
qed simp

text \<open>Stripping leaves no escape byte, keeps the other bytes in order, and a second pass changes
  nothing.\<close>

theorem strip_ansi_clean:
  "CHR 0x1B \<notin> set (strip_ansi s) \<and> subseq (strip_ansi s) s
   \<and> strip_ansi (strip_ansi s) = strip_ansi s"
proof -
  have "byte (CHR 0x1B) = 27" by (simp add: byte_def)
  then have "CHR 0x1B \<notin> set (strip_ansi s)" using strip_ansi_clean_set by blast
  then show ?thesis using strip_ansi_subseq strip_ansi_plain strip_ansi_clean_set by blast
qed

section \<open>Truncation\<close>

lemma snap_boundary_le: "snap_boundary s n \<le> n"
  by (induction n) auto

lemma snap_boundary_ok: "is_char_boundary s (snap_boundary s n)"
  by (induction n) (auto simp: is_char_boundary_def)

lemma snap_boundary_greatest: "is_char_boundary s m \<Longrightarrow> m \<le> n \<Longrightarrow> m \<le> snap_boundary s n"
  by (induction n) (auto simp: le_Suc_eq)

text \<open>A truncated string is the longest prefix within the limit that ends at a character
  boundary.\<close>

theorem truncate_longest:
  "prefix (truncate_str s n) s \<and> length (truncate_str s n) \<le> n
   \<and> is_char_boundary s (length (truncate_str s n))
   \<and> (is_char_boundary s m \<and> m \<le> length s \<and> m \<le> n \<longrightarrow> m \<le> length (truncate_str s n))"
proof (cases "length s \<le> n")
  case True
  then show ?thesis by (simp add: truncate_str_def is_char_boundary_def)
next
  case False
  then have "length (take (snap_boundary s n) s) = snap_boundary s n"
    using snap_boundary_le [of s n] by simp
  then show ?thesis
    using False snap_boundary_le [of s n] snap_boundary_ok [of s n] snap_boundary_greatest [of s m n]
    by (simp add: truncate_str_def take_is_prefix)
qed

theorem truncate_longest_witness: "3 \<le> length (truncate_str ''abcdef'' 4)"
  using truncate_longest [of "''abcdef''" 4 3]
  by (simp add: is_char_boundary_def is_cont_byte_def byte_def)

section \<open>Attachment file names\<close>

lemma concat_utf8_chars: "concat (utf8_chars s) = s"
  by (induction s) (auto split: list.split)

lemma utf8_chars_nonempty: "[] \<notin> set (utf8_chars s)"
  by (induction s) (auto split: list.split)

lemma utf8_chars_tail: "ch \<in> set (utf8_chars s) \<Longrightarrow> list_all is_cont_byte (tl ch)"
proof (induction s arbitrary: ch)
  case (Cons c s)
  show ?case
  proof (cases "utf8_chars s")
    case Nil
    then show ?thesis using Cons.prems by simp
  next
    case tail: (Cons d ds)
    have "d \<noteq> []" using tail utf8_chars_nonempty [of s] by auto
    then have "list_all is_cont_byte (tl d)" "is_cont_byte (hd d) \<Longrightarrow> list_all is_cont_byte d"
      using Cons.IH [of d] tail by (auto simp: neq_Nil_conv)
    then show ?thesis using Cons.prems Cons.IH tail by (auto split: if_splits)
  qed
qed simp

text \<open>
  What the code relies on of \<open>char::is\_alphanumeric\<close>: the ASCII characters it accepts are letters
  and digits, so it never accepts a path separator or a NUL.
\<close>

definition ascii_alnum :: "char \<Rightarrow> bool" where
  "ascii_alnum c = (let n = byte c in
     (48 \<le> n \<and> n \<le> 57) \<or> (65 \<le> n \<and> n \<le> 90) \<or> (97 \<le> n \<and> n \<le> 122))"

definition alnum_table :: "(string \<Rightarrow> bool) \<Rightarrow> bool" where
  "alnum_table alnum = (\<forall>c cs. alnum (c # cs) \<longrightarrow> byte c < 128 \<longrightarrow> ascii_alnum c)"

text \<open>A byte a saved name may contain.\<close>

definition name_byte :: "char \<Rightarrow> bool" where
  "name_byte c = (128 \<le> byte c \<or> ascii_alnum c \<or> c \<in> {CHR ''.'', CHR ''_'', CHR ''-''})"

lemma safe_char_bytes:
  assumes "alnum_table alnum" "ch \<in> set (utf8_chars s)" "safe_char alnum ch"
  shows "list_all name_byte ch"
proof (cases ch)
  case (Cons c cs)
  have "list_all name_byte cs"
    using utf8_chars_tail [OF assms(2)] Cons
    by (auto simp: list_all_iff is_cont_byte_def name_byte_def)
  moreover have "name_byte c"
    using assms(1,3) Cons by (auto simp: safe_char_def alnum_table_def name_byte_def not_less)
  ultimately show ?thesis using Cons by simp
qed simp

lemma cleaned_bytes:
  assumes "alnum_table alnum"
  shows "list_all name_byte
    (concat (map (\<lambda>ch. if safe_char alnum ch then ch else ''_'') (utf8_chars s)))"
proof -
  have "list_all name_byte (if safe_char alnum ch then ch else ''_'')" if "ch \<in> set (utf8_chars s)" for ch
    using safe_char_bytes [OF assms that] by (simp add: name_byte_def)
  then show ?thesis by (auto simp: list_all_iff)
qed

lemma safe_filename_cases:
  assumes "att_safe_filename alnum s = Some t"
    and "c = concat (map (\<lambda>ch. if safe_char alnum ch then ch else ''_'') (utf8_chars s))"
  shows "t = ''attachment.bin'' \<or> (t \<noteq> [] \<and> prefix t c \<and> length t \<le> 120)"
  using assms(1) unfolding att_safe_filename_def Let_def assms(2) [symmetric]
  by (auto simp: take_is_prefix split: if_splits)

lemma safe_filename_ok:
  assumes "alnum_table alnum" "att_safe_filename alnum s = Some t"
  shows "t \<noteq> [] \<and> length t \<le> 120 \<and> list_all name_byte t"
proof -
  define c where "c = concat (map (\<lambda>ch. if safe_char alnum ch then ch else ''_'') (utf8_chars s))"
  have "list_all name_byte c" using cleaned_bytes [OF assms(1)] by (simp only: c_def)
  then have "prefix t c \<Longrightarrow> list_all name_byte t" by (auto simp: prefix_def)
  moreover have "list_all name_byte ''attachment.bin''"
    by (simp add: name_byte_def ascii_alnum_def byte_def Let_def)
  ultimately show ?thesis using safe_filename_cases [OF assms(2) c_def] by auto
qed

lemma name_byte_no_slash: "list_all name_byte t \<Longrightarrow> CHR ''/'' \<notin> set t"
proof -
  have "\<not> name_byte (CHR ''/'')" by (simp add: name_byte_def ascii_alnum_def byte_def Let_def)
  then show "list_all name_byte t \<Longrightarrow> CHR ''/'' \<notin> set t" by (auto simp: list_all_iff)
qed

lemma extension_no_slash: "CHR ''/'' \<notin> set (att_extension mime)"
  by (simp add: att_extension_def)

text \<open>C39: an attachment is saved directly in the run's attachment directory, whatever file name came
  with it, and the file name has a bounded length.\<close>

theorem attachment_stays_in_dir:
  assumes "alnum_table (w_alnum w)"
    and "CHR ''/'' \<notin> set (w_millis w now)" "CHR ''/'' \<notin> set uuid"
    and "save_attachment_to_disk w now uuid run_id att = Saved path"
  shows "\<exists>dir name. w_att_dir w run_id = Some dir \<and> path = dir @ ''/'' @ name
    \<and> CHR ''/'' \<notin> set name \<and> name \<notin> {[], ''.'', ''..''} \<and> length name \<le> length (w_millis w now) + 133"
proof -
  obtain dir t where d: "w_att_dir w run_id = Some dir"
    and t: "att_safe_filename (w_alnum w) (att_filename att) = Some t"
    and p: "path = dir @ ''/'' @ w_millis w now @ ''-'' @ take 6 uuid @ ''-'' @ t
               @ att_extension (att_media_type att)"
    using assms(4)
    by (auto simp: save_attachment_to_disk_def Let_def split: option.splits if_splits)
  let ?n = "w_millis w now @ ''-'' @ take 6 uuid @ ''-'' @ t @ att_extension (att_media_type att)"
  have ok: "t \<noteq> []" "length t \<le> 120" "CHR ''/'' \<notin> set t"
    using safe_filename_ok [OF assms(1) t] name_byte_no_slash by auto
  have "length (att_extension (att_media_type att)) \<le> 5" by (simp add: att_extension_def)
  then have "length ?n \<le> length (w_millis w now) + 133" using ok by simp
  moreover have "CHR ''/'' \<notin> set ?n"
    using ok assms(2,3) extension_no_slash in_set_takeD by fastforce
  moreover have "?n \<notin> {[], ''.'', ''..''}"
    by (auto simp: append_eq_Cons_conv)
  ultimately show ?thesis using d p by blast
qed

definition demo_disk :: world where
  "demo_disk = \<lparr>w_parse = \<lambda>s. None, w_text = \<lambda>v. [], w_uuid = \<lambda>n. ''0a1b2c3d'', w_write = \<lambda>n. None,
     w_flush = \<lambda>n. None, w_persist = \<lambda>n. None, w_save = \<lambda>n. save_ok, w_iso = \<lambda>n. [],
     w_alnum = \<lambda>ch. case ch of [] \<Rightarrow> False | c # cs \<Rightarrow> ascii_alnum c \<or> 128 \<le> byte c,
     w_att_dir = \<lambda>r. Some (''/data/'' @ r), w_base64 = \<lambda>s. Some s, w_millis = \<lambda>n. ''1700000000000'',
     w_write_file = \<lambda>p. True, w_file_size = \<lambda>p. 3\<rparr>"

definition demo_attachment :: "string \<Rightarrow> attachment_data" where
  "demo_attachment name =
     \<lparr>att_content_base64 = ''YWJj'', att_media_type = ''text/plain'', att_filename = name\<rparr>"

lemma demo_disk_table: "alnum_table (w_alnum demo_disk)"
  by (auto simp: alnum_table_def demo_disk_def)

lemma demo_saved:
  "save_attachment_to_disk demo_disk 0 ''0a1b2c3d'' ''r1'' (demo_attachment ''../etc'') =
     Saved ''/data/r1/1700000000000-0a1b2c-.._etc''"
  by (simp add: save_attachment_to_disk_def demo_disk_def demo_attachment_def att_safe_filename_def
      safe_char_def ascii_alnum_def is_cont_byte_def byte_def att_extension_def starts_with_def Let_def)

theorem attachment_stays_in_dir_witness:
  "\<exists>dir name. w_att_dir demo_disk ''r1'' = Some dir
    \<and> ''/data/r1/1700000000000-0a1b2c-.._etc'' = dir @ ''/'' @ name \<and> CHR ''/'' \<notin> set name"
  using attachment_stays_in_dir [OF demo_disk_table _ _ demo_saved]
  by (simp add: demo_disk_def)

text \<open>
  The cut at 120 bytes is not moved to a character boundary: a long name of alphanumeric characters
  with byte 120 inside a character panics, here one ASCII letter before 60 two-byte letters.
\<close>

lemma attachment_name_panics:
  assumes "list_all alnum (utf8_chars s)" "120 < length s" "\<not> is_char_boundary s 120"
  shows "att_safe_filename alnum s = None"
proof -
  have "map (\<lambda>ch. if safe_char alnum ch then ch else ''_'') (utf8_chars s) = utf8_chars s"
    using assms(1) by (induction "utf8_chars s") (auto simp: safe_char_def list_all_iff intro: map_idI)
  then show ?thesis using assms(2,3) by (simp add: att_safe_filename_def concat_utf8_chars)
qed

lemma e_acute_name_panics:
  "att_safe_filename (w_alnum demo_disk)
     (CHR ''a'' # concat (replicate 60 [CHR 0xC3, CHR 0xA9])) = None"
  by code_simp

end
