(* ===== verification/Store_Props.thy ===== *)
theory Store_Props
  imports Runs_Store
begin

text \<open>
  Properties of the metadata store: what a successful or failed read-modify-write does, the
  lifecycle fields a status change sets, the recovery after a restart, and the two-phase
  deletion with its rollback. The interface \<open>record\_store\<close> is what the clients of the store (the
  session actor, the commands) rely on.
\<close>

section \<open>The interface of the store\<close>

locale record_store =
  fixes ok :: "'s \<Rightarrow> bool"
    and get :: "'s \<Rightarrow> string \<Rightarrow> 'm option"
    and good :: "('m \<Rightarrow> 'm) \<Rightarrow> bool"
    and put :: "'e \<Rightarrow> string \<Rightarrow> ('m \<Rightarrow> 'm) \<Rightarrow> 's \<Rightarrow> (string + unit) \<times> 's"
  assumes put_keeps_ok: "ok s \<Longrightarrow> good f \<Longrightarrow> ok (snd (put e k f s))"
    and put_done: "ok s \<Longrightarrow> good f \<Longrightarrow> put e k f s = (Inr (), s') \<Longrightarrow>
      \<exists>m. get s k = Some m \<and> get s' k = Some (f m)"
    and put_failed: "put e k f s = (Inl x, s') \<Longrightarrow> s' = s"
    and put_other: "ok s \<Longrightarrow> good f \<Longrightarrow> k' \<noteq> k \<Longrightarrow> get (snd (put e k f s)) k' = get s k'"
begin

text \<open>Two updates of one record compose: none is lost.\<close>

lemma put_put:
  assumes "ok s" "good f" "good g" "put e k f s = (Inr (), s1)" "put e' k g s1 = (Inr (), s2)"
  shows "\<exists>m. get s k = Some m \<and> get s2 k = Some (g (f m))"
proof -
  have "ok s1" using put_keeps_ok [OF assms(1,2), of e k] assms(4) by simp
  from put_done [OF this assms(3,5)] put_done [OF assms(1,2,4)] show ?thesis by auto
qed

text \<open>A record changes only by a successful update, and then by exactly that update.\<close>

lemma put_cases:
  assumes "ok s" "good f"
  shows "get (snd (put e k f s)) k =
    (case fst (put e k f s) of Inl x \<Rightarrow> get s k | Inr _ \<Rightarrow> map_option f (get s k))"
proof (cases "put e k f s")
  case (Pair r s')
  show ?thesis
  proof (cases r)
    case (Inl x)
    then have "s' = s" using Pair put_failed by blast
    then show ?thesis using Inl Pair by simp
  next
    case (Inr u)
    then show ?thesis using Pair put_done [OF assms, of e k s'] by auto
  qed
qed

lemma put_domain:
  assumes "ok s" "good f"
  shows "(get (snd (put e k f s)) k' = None) = (get s k' = None)"
  using put_cases [OF assms, of e k] put_other [OF assms, of k' k e]
  by (cases "k' = k"; cases "fst (put e k f s)") auto

end

section \<open>The metadata store provides it\<close>

definition store_ok :: "meta_store \<Rightarrow> bool" where
  "store_ok st = (\<forall>rid m. st rid = Some m \<longrightarrow> m_id m = rid)"

text \<open>An update that keeps the identity of a record and does not delete it.\<close>

definition keeps_identity :: "(run_meta \<Rightarrow> run_meta) \<Rightarrow> bool" where
  "keeps_identity f = (\<forall>m. m_id (f m) = m_id m \<and> m_deleted_at (f m) = m_deleted_at m)"

lemma save_meta_cases:
  "save_meta se m st = (Inr (), st(m_id m \<mapsto> m)) \<or> (\<exists>e. save_meta se m st = (Inl e, st))"
  by (auto simp: save_meta_def split: option.split sum.split)

lemma get_run_Some: "get_run st rid = Some m \<longleftrightarrow> st rid = Some m \<and> m_deleted_at m = None"
  by (simp add: get_run_def get_run_raw_def opt_filter_Some_iff)

lemma get_run_ok: "store_ok st \<Longrightarrow> get_run st rid = Some m \<Longrightarrow> m_id m = rid"
  by (auto simp: get_run_Some store_ok_def)

lemma get_run_cong: "st' rid = st rid \<Longrightarrow> get_run st' rid = get_run st rid"
  by (simp add: get_run_def get_run_raw_def)

lemma with_meta_cases:
  assumes "with_meta se rid f st = (r, st')"
  obtains (failed) e where "r = Inl e" "st' = st"
    | (saved) m where "r = Inr ()" "get_run st rid = Some m" "st' = st(m_id (f m) \<mapsto> f m)"
proof (cases "get_run st rid")
  case None
  then show thesis using assms failed [of "not_found rid"] by (auto simp: with_meta_def)
next
  case (Some m)
  then show thesis
    using assms save_meta_cases [of se "f m" st] failed saved by (auto simp: with_meta_def)
qed

lemma with_meta_ok:
  assumes "store_ok st" "keeps_identity f"
  shows "store_ok (snd (with_meta se rid f st))"
proof -
  obtain r st' where w: "with_meta se rid f st = (r, st')" by fastforce
  from w show ?thesis
    by (rule with_meta_cases) (use assms w in \<open>auto simp: store_ok_def\<close>)
qed

lemma with_meta_other:
  assumes "store_ok st" "keeps_identity f" "k' \<noteq> rid"
  shows "get_run (snd (with_meta se rid f st)) k' = get_run st k'"
proof -
  obtain r st' where w: "with_meta se rid f st = (r, st')" by fastforce
  from w show ?thesis
  proof (rule with_meta_cases)
    fix m assume "r = Inr ()" "get_run st rid = Some m" "st' = st(m_id (f m) \<mapsto> f m)"
    moreover from this(2) have "m_id (f m) = rid"
      using assms get_run_ok by (simp add: keeps_identity_def)
    ultimately show ?thesis using w assms(3) by (simp add: get_run_def get_run_raw_def)
  qed (use w in simp)
qed

interpretation metas: record_store store_ok get_run keeps_identity with_meta
proof
  fix s :: meta_store and f e k s' x k'
  show "store_ok s \<Longrightarrow> keeps_identity f \<Longrightarrow> store_ok (snd (with_meta e k f s))"
    by (rule with_meta_ok)
  show "store_ok s \<Longrightarrow> keeps_identity f \<Longrightarrow> with_meta e k f s = (Inr (), s') \<Longrightarrow>
      \<exists>m. get_run s k = Some m \<and> get_run s' k = Some (f m)"
    by (erule with_meta_cases) (auto simp: get_run_Some keeps_identity_def store_ok_def)
  show "with_meta e k f s = (Inl x, s') \<Longrightarrow> s' = s"
    by (erule with_meta_cases) auto
  show "store_ok s \<Longrightarrow> keeps_identity f \<Longrightarrow> k' \<noteq> k \<Longrightarrow> get_run (snd (with_meta e k f s)) k' = get_run s k'"
    by (rule with_meta_other)
qed

section \<open>The rename loop\<close>

lemma rename_loop_three:
  "rename_loop out 0 3 =
     (case out 0 of RenameOk \<Rightarrow> Inr () | RenameErr e \<Rightarrow> Inl (''rename: '' @ e)
      | PermissionDenied _ \<Rightarrow>
          (case out 1 of RenameOk \<Rightarrow> Inr () | RenameErr e \<Rightarrow> Inl (''rename: '' @ e)
           | PermissionDenied _ \<Rightarrow>
               (case out 2 of RenameOk \<Rightarrow> Inr () | RenameErr e \<Rightarrow> Inl (''rename: '' @ e)
                | PermissionDenied e \<Rightarrow> Inl (''rename: '' @ e))))"
  by (simp add: numeral_3_eq_3 numeral_2_eq_2 split: rename_outcome.split)

section \<open>Phase 1 of the two-phase operations\<close>

lemma set_dedup: "set (dedup seen xs) = set xs - set seen"
  by (induction xs arbitrary: seen) auto

lemma distinct_dedup: "distinct (dedup seen xs) \<and> set (dedup seen xs) \<inter> set seen = {}"
  by (induction xs arbitrary: seen) (auto simp: set_dedup)

lemma delete_precheck_Inr:
  assumes "delete_precheck st rids = Inr ms" "store_ok st"
  shows "(\<forall>m\<in>set ms. st (m_id m) = Some m \<and> m_id m \<in> set rids \<and> m_deleted_at m = None
            \<and> m_status m \<notin> {Running, Pending, Idle})
         \<and> (\<forall>rid\<in>set rids. \<exists>m. st rid = Some m \<and> (m_deleted_at m \<noteq> None \<or> m \<in> set ms))"
  using assms
proof (induction rids arbitrary: ms)
  case (Cons rid rids)
  from Cons.prems(1) obtain m where m: "st rid = Some m"
    by (auto simp: get_run_raw_def split: option.splits)
  show ?case
  proof (cases "m_deleted_at m")
    case (Some t)
    then show ?thesis using Cons m by (auto simp: get_run_raw_def)
  next
    case None
    then obtain ms' where "delete_precheck st rids = Inr ms'" "ms = m # ms'"
      "m_status m \<notin> {Running, Pending, Idle}"
      using Cons.prems(1) m by (auto simp: get_run_raw_def split: if_splits sum.splits)
    then show ?thesis using Cons m None by (fastforce simp: store_ok_def)
  qed
qed simp

lemma delete_precheck_distinct:
  assumes "delete_precheck st rids = Inr ms" "store_ok st" "distinct rids"
  shows "distinct (map m_id ms)"
  using assms
proof (induction rids arbitrary: ms)
  case (Cons rid rids)
  from Cons.prems(1) obtain m where m: "st rid = Some m"
    by (auto simp: get_run_raw_def split: option.splits)
  show ?case
  proof (cases "m_deleted_at m")
    case (Some t)
    then show ?thesis using Cons m by (auto simp: get_run_raw_def)
  next
    case None
    then obtain ms' where p: "delete_precheck st rids = Inr ms'" "ms = m # ms'"
      using Cons.prems(1) m by (auto simp: get_run_raw_def split: if_splits sum.splits)
    moreover have "m_id m = rid" using m Cons.prems(2) by (auto simp: store_ok_def)
    ultimately show ?thesis
      using Cons delete_precheck_Inr [OF p(1) Cons.prems(2)] by auto
  qed
qed simp

section \<open>Phase 2 and its rollback\<close>

fun write_all :: "(run_meta \<Rightarrow> run_meta) \<Rightarrow> run_meta list \<Rightarrow> meta_store \<Rightarrow> meta_store" where
  "write_all f [] st = st"
| "write_all f (m # ms) st = write_all f ms (st(m_id (f m) \<mapsto> f m))"

lemma write_all_other: "k \<notin> m_id ` f ` set ms \<Longrightarrow> write_all f ms st k = st k"
  by (induction ms arbitrary: st) auto

lemma write_all_written:
  "k \<in> m_id ` f ` set ms \<Longrightarrow> \<exists>m\<in>set ms. m_id (f m) = k \<and> write_all f ms st k = Some (f m)"
proof (induction ms arbitrary: st)
  case (Cons m ms)
  then show ?case
    using write_all_other [of k f ms "st(m_id (f m) \<mapsto> f m)"]
    by (cases "k \<in> m_id ` f ` set ms") auto
qed simp

lemma write_all_saved:
  assumes "write_with_rollback env n f ds ms st = (Inr k, st')"
  shows "k = length ds + length ms \<and> st' = write_all f ms st"
  using assms
proof (induction ms arbitrary: n ds st)
  case (Cons m ms)
  then have "save_meta (env n) (f m) st = (Inr (), st(m_id (f m) \<mapsto> f m))"
    using save_meta_cases [of "env n" "f m" st] by auto
  then show ?case
    using Cons.prems Cons.IH [of "Suc n" "ds @ [m]" "st(m_id (f m) \<mapsto> f m)"]
    by (simp del: fun_upd_apply)
qed simp

text \<open>The original records saved again over a store they came from.\<close>

definition all_ok :: "(nat \<Rightarrow> save_env) \<Rightarrow> nat \<Rightarrow> bool" where
  "all_ok env n = (\<forall>i\<ge>n. env i = save_ok)"

lemma save_ok_saves [simp]: "save_meta save_ok m st = (Inr (), st(m_id m \<mapsto> m))"
  by (simp add: save_meta_def save_ok_def numeral_3_eq_3)

lemma save_all_ok:
  "all_ok env n \<Longrightarrow> save_all env n ms st = write_all (\<lambda>m. m) ms st"
  by (induction ms arbitrary: n st) (auto simp: all_ok_def)

lemma fold_restore:
  assumes "\<forall>m\<in>set ms. st0 (m_id m) = Some m" and "\<forall>k. k \<notin> m_id ` set ms \<longrightarrow> st k = st0 k"
  shows "write_all (\<lambda>m. m) ms st = st0"
  using assms
proof (induction ms arbitrary: st)
  case (Cons m ms)
  then show ?case by (auto intro!: Cons.IH)
qed auto

lemma rollback_restores:
  assumes "write_with_rollback env n f ds ms st = (Inl (m, e), st')"
    and "\<forall>m\<in>set (ds @ ms). st0 (m_id m) = Some m"
    and "\<forall>k. k \<notin> m_id ` set ds \<longrightarrow> st k = st0 k"
    and "\<And>m. m_id (f m) = m_id m"
    and "\<exists>i\<ge>n. (\<forall>j\<ge>n. j < i \<longrightarrow> env j = save_ok) \<and> all_ok env (Suc i)"
  shows "st' = st0"
  using assms
proof (induction ms arbitrary: n ds st)
  case (Cons x ms)
  show ?case
  proof (cases "fst (save_meta (env n) (f x) st)")
    case (Inl e')
    then have s: "save_meta (env n) (f x) st = (Inl e', st)"
      using save_meta_cases [of "env n" "f x" st] by auto
    obtain i where i: "n \<le> i" "\<forall>j\<ge>n. j < i \<longrightarrow> env j = save_ok" "all_ok env (Suc i)"
      using Cons.prems(5) by blast
    have "i = n"
    proof (rule ccontr)
      assume "i \<noteq> n"
      then have "env n = save_ok" using i by simp
      then show False using s by simp
    qed
    then have "st' = save_all env (Suc n) (ds @ [x]) st" "all_ok env (Suc n)"
      using Cons.prems(1) s i by auto
    then have "st' = write_all (\<lambda>m. m) (ds @ [x]) st" by (simp add: save_all_ok)
    then show ?thesis
      using fold_restore [of "ds @ [x]" st0 st] Cons.prems(2,3) by auto
  next
    case (Inr u)
    then have s: "save_meta (env n) (f x) st = (Inr (), st(m_id (f x) \<mapsto> f x))"
      using save_meta_cases [of "env n" "f x" st] by auto
    have ex: "\<exists>i\<ge>Suc n. (\<forall>j\<ge>Suc n. j < i \<longrightarrow> env j = save_ok) \<and> all_ok env (Suc i)"
    proof -
      obtain i where i: "n \<le> i" "\<forall>j\<ge>n. j < i \<longrightarrow> env j = save_ok" "all_ok env (Suc i)"
        using Cons.prems(5) by blast
      show ?thesis
      proof (cases "i = n")
        case True
        then show ?thesis using i by (intro exI [of _ "Suc n"]) (auto simp: all_ok_def)
      next
        case False
        then show ?thesis using i by (intro exI [of _ i]) auto
      qed
    qed
    show ?thesis
      by (rule Cons.IH [of "Suc n" "ds @ [x]" "st(m_id (f x) \<mapsto> f x)"])
        (use Cons.prems s ex in \<open>auto simp del: fun_upd_apply\<close>, use Cons.prems(3,4) in auto)
  qed
qed simp


section \<open>The properties of the store\<close>

text \<open>C33: updating a run's status is atomic: it either fails and leaves the whole store as it
  was, or it changes exactly that run, and then the end time is set exactly for the terminal
  states, the exit code and error are the given ones, and a clean end drops the error subtype.\<close>

theorem update_status_atomic:
  assumes "store_ok st"
  shows "case update_status se now rid status code err st of
      (Inl e, st') \<Rightarrow> st' = st
    | (Inr _, st') \<Rightarrow>
        (\<exists>m m'. get_run st rid = Some m \<and> get_run st' rid = Some m' \<and> m_status m' = status
           \<and> (m_ended_at m' \<noteq> None \<longleftrightarrow> is_terminal status) \<and> m_exit_code m' = code
           \<and> m_error_message m' = err \<and> m_session_id m' = m_session_id m
           \<and> m_result_subtype m' = (if status = Completed \<or> status = Stopped then None
                                      else m_result_subtype m))
        \<and> (\<forall>k. k \<noteq> rid \<longrightarrow> get_run st' k = get_run st k)"
proof -
  let ?f = "status_update now status code err"
  have g: "keeps_identity ?f"
    by (simp add: keeps_identity_def status_update_def Let_def)
  obtain r st' where w: "with_meta se rid ?f st = (r, st')" by fastforce
  show ?thesis
  proof (cases r)
    case (Inl e)
    then show ?thesis using w metas.put_failed by (auto simp: update_status_def)
  next
    case (Inr u)
    then obtain m where m: "get_run st rid = Some m" "get_run st' rid = Some (?f m)"
      using metas.put_done [OF assms g, of se rid st'] w by auto
    moreover have "\<forall>k. k \<noteq> rid \<longrightarrow> get_run st' k = get_run st k"
      using metas.put_other [OF assms g, of _ rid se] w by auto
    ultimately show ?thesis
      using w Inr by (cases status) (simp_all add: update_status_def status_update_def Let_def)
  qed
qed

definition example_meta :: "string \<Rightarrow> run_status \<Rightarrow> run_meta" where
  "example_meta rid status = \<lparr>m_id = rid, m_prompt = [], m_cwd = [], m_agent = ''claude'',
     m_auth_mode = [], m_status = status, m_started_at = [], m_ended_at = None, m_exit_code = None,
     m_error_message = None, m_session_id = None, m_result_subtype = None, m_model = None,
     m_parent_run_id = None, m_name = None, m_remote_host_name = None, m_remote_cwd = None,
     m_remote_host_snapshot = None, m_platform_id = None, m_platform_base_url = None, m_source = None,
     m_cli_import_watermark = None, m_cli_session_path = None, m_cli_usage_incomplete = None,
     m_deleted_at = None, m_archived_at = None, m_no_session_persistence = False,
     m_execution_path = None, m_conversation_ref = None, m_codex_process_seq = None,
     m_codex_imported_rollouts = None\<rparr>"

definition example_store :: meta_store where
  "example_store = [''r1'' \<mapsto> example_meta ''r1'' Running, ''r2'' \<mapsto> example_meta ''r2'' Completed]"

lemma example_store_ok: "store_ok example_store"
  by (auto simp: store_ok_def example_store_def example_meta_def split: if_splits)

theorem update_status_atomic_witness:
  "snd (update_status save_ok ''t'' ''r1'' Failed (Some 1) (Some ''e'') example_store) ''r2''
     = example_store ''r2''
   \<and> (\<exists>m. get_run (snd (update_status save_ok ''t'' ''r1'' Failed (Some 1) (Some ''e'') example_store)) ''r1'' = Some m
        \<and> m_status m = Failed \<and> m_ended_at m \<noteq> None)"
proof -
  obtain st' where u: "update_status save_ok ''t'' ''r1'' Failed (Some 1) (Some ''e'') example_store = (Inr (), st')"
    and r: "st' ''r2'' = example_store ''r2''"
    by (simp add: update_status_def with_meta_def get_run_def get_run_raw_def example_store_def
        example_meta_def status_update_def)
  from update_status_atomic [OF example_store_ok, where se = save_ok and now = "''t''"
      and rid = "''r1''" and status = Failed and code = "Some 1" and err = "Some ''e''"]
  show ?thesis using u r by auto
qed

text \<open>A rename that meets permission errors is tried three times; it succeeds exactly when
  one of the attempts does after nothing but permission errors, and otherwise reports the error
  of its last attempt. The fall-through message behind the loop is never produced.\<close>

theorem rename_retries:
  "case rename_loop out 0 3 of
     Inr _ \<Rightarrow> \<exists>k\<le>2. out k = RenameOk \<and> (\<forall>j<k. \<exists>e. out j = PermissionDenied e)
   | Inl msg \<Rightarrow> \<exists>k\<le>2. \<exists>e. (out k = RenameErr e \<or> k = 2 \<and> out k = PermissionDenied e)
       \<and> (\<forall>j<k. \<exists>e. out j = PermissionDenied e) \<and> msg = ''rename: '' @ e"
proof -
  have two: "j < 2 \<longleftrightarrow> j = 0 \<or> j = 1" for j :: nat by auto
  show ?thesis
  proof (cases "out 0")
    case RenameOk
    then show ?thesis by (auto simp: rename_loop_three intro!: exI [of _ 0])
  next
    case (RenameErr e)
    then show ?thesis by (auto simp: rename_loop_three intro!: exI [of _ 0])
  next
    case d0: (PermissionDenied e0)
    show ?thesis
    proof (cases "out 1")
      case RenameOk
      then show ?thesis using d0 by (auto simp: rename_loop_three intro!: exI [of _ 1])
    next
      case (RenameErr e)
      then show ?thesis using d0 by (auto simp: rename_loop_three intro!: exI [of _ 1])
    next
      case d1: (PermissionDenied e1)
      then show ?thesis
        using d0 by (cases "out 2") (auto simp: rename_loop_three two intro!: exI [of _ 2])
    qed
  qed
qed

theorem rename_retries_witness:
  "rename_loop (\<lambda>k. if k < 2 then PermissionDenied ''busy'' else RenameOk) 0 3 = Inr ()
   \<and> (\<exists>k\<le>(2 :: nat). (if k < 2 then PermissionDenied ''busy'' else RenameOk) = RenameOk)"
  using rename_retries [of "\<lambda>k. if k < 2 then PermissionDenied ''busy'' else RenameOk"]
  by (auto simp: rename_loop_three)

lemma reconcile_run_settled:
  "m_status (fst (reconcile_run now m)) \<notin> {Running, Idle, Pending}
   \<and> m_id (fst (reconcile_run now m)) = m_id m
   \<and> (\<not> snd (reconcile_run now m) \<longrightarrow> fst (reconcile_run now m) = m)
   \<and> (m_status m \<notin> {Running, Idle, Pending} \<longrightarrow> reconcile_run now m = (m, False))"
  by (cases "m_status m") (simp_all add: reconcile_run_def)

lemma reconcile_one:
  assumes "store_ok st" "st rid = Some m"
  shows "(if snd (reconcile_run now m) then snd (save_meta save_ok (fst (reconcile_run now m)) st) else st)
     = st(rid \<mapsto> fst (reconcile_run now m))"
proof -
  have "m_id (fst (reconcile_run now m)) = rid"
    using reconcile_run_settled [of now m] assms by (simp add: store_ok_def)
  moreover have "\<not> snd (reconcile_run now m) \<Longrightarrow> fst (reconcile_run now m) = m"
    using reconcile_run_settled by blast
  ultimately show ?thesis using assms(2) by (auto simp: fun_upd_idem_iff)
qed

lemma reconcile_all:
  assumes "\<forall>i. env i = save_ok" "store_ok st"
  shows "reconcile_orphaned_runs env n now rids st = (\<lambda>rid.
     if rid \<in> set rids then map_option (\<lambda>m. fst (reconcile_run now m)) (st rid) else st rid)"
  using assms(2)
proof (induction rids arbitrary: n st)
  case (Cons rid rids)
  show ?case
  proof (cases "st rid")
    case None
    then show ?thesis using Cons by auto
  next
    case (Some m)
    let ?m = "fst (reconcile_run now m)"
    have ok: "store_ok (st(rid \<mapsto> ?m))"
      using Cons.prems Some reconcile_run_settled [of now m] by (auto simp: store_ok_def)
    have idem: "fst (reconcile_run now ?m) = ?m"
      using reconcile_run_settled [of now m] reconcile_run_settled [of now ?m] by simp
    have "reconcile_orphaned_runs env n now (rid # rids) st
        = reconcile_orphaned_runs env (Suc n) now rids
            (if snd (reconcile_run now m) then snd (save_meta (env n) ?m st) else st)"
      by (simp only: reconcile_orphaned_runs.simps Some option.case case_prod_beta)
    also have "\<dots> = reconcile_orphaned_runs env (Suc n) now rids (st(rid \<mapsto> ?m))"
      using assms(1) reconcile_one [OF Cons.prems Some, of now] by presburger
    finally show ?thesis using Cons.IH [OF ok] Some idem by (auto simp: fun_eq_iff)
  qed
qed simp

text \<open>C34: after the recovery of a restart that could save its records, no listed run is still
  running, idle or pending; settled runs and runs that were not listed are untouched.\<close>

theorem restart_settles_runs:
  assumes "\<forall>i. env i = save_ok" "store_ok st" "rid \<in> set rids" "st rid = Some m"
  shows "\<exists>m'. reconcile_orphaned_runs env n now rids st rid = Some m'
     \<and> m_status m' \<notin> {Running, Idle, Pending}
     \<and> (m_status m \<notin> {Running, Idle, Pending} \<longrightarrow> m' = m)
     \<and> (\<forall>k. k \<notin> set rids \<longrightarrow> reconcile_orphaned_runs env n now rids st k = st k)"
  unfolding reconcile_all [OF assms(1,2)]
  using assms(3,4) reconcile_run_settled [of now m] by auto

theorem restart_settles_runs_witness:
  "\<exists>m'. reconcile_orphaned_runs (\<lambda>_. save_ok) 0 ''t'' [''r1'', ''r2''] example_store ''r1'' = Some m'
     \<and> m_status m' \<notin> {Running, Idle, Pending}"
  using restart_settles_runs [of "\<lambda>_. save_ok" example_store "''r1''" "[''r1'', ''r2'']"
      "example_meta ''r1'' Running" 0 "''t''"] example_store_ok
  by (auto simp: example_store_def)

text \<open>A successful deletion hides exactly the given runs: each of them existed and was not
  active (or was deleted before), the others keep what they had, and the count is the number of
  newly deleted ones.\<close>

theorem soft_delete_success:
  assumes "store_ok st" "soft_delete_runs env now ids st = (Inr n, st')"
  shows "(\<forall>rid\<in>set ids. st rid \<noteq> None \<and> get_run st' rid = None)
     \<and> (\<forall>rid m. get_run st rid = Some m \<longrightarrow> rid \<in> set ids \<longrightarrow> m_status m \<notin> {Running, Pending, Idle})
     \<and> (\<forall>k. k \<notin> set ids \<longrightarrow> st' k = st k)
     \<and> n = card {rid \<in> set ids. get_run st rid \<noteq> None}"
proof -
  let ?f = "\<lambda>m. m\<lparr>m_deleted_at := Some now\<rparr>"
  obtain ms where pre: "delete_precheck st (dedup [] ids) = Inr ms"
    using assms(2) by (auto simp: soft_delete_runs_def split: sum.splits)
  then have "write_with_rollback env 0 ?f [] ms st = (Inr n, st')"
    using assms(2) by (auto simp: soft_delete_runs_def split: sum.splits prod.splits)
  then have n: "n = length ms" and st': "st' = write_all ?f ms st"
    using write_all_saved by fastforce+
  have set_ids: "set (dedup [] ids) = set ids" by (simp add: set_dedup)
  note ms = delete_precheck_Inr [OF pre assms(1), unfolded set_ids]
  have dist: "distinct (map m_id ms)"
    using delete_precheck_distinct [OF pre assms(1)] distinct_dedup by blast
  have img: "m_id ` ?f ` set ms = m_id ` set ms" by (force simp: image_iff)
  have ids_ms: "{rid \<in> set ids. get_run st rid \<noteq> None} = m_id ` set ms"
  proof (intro equalityI subsetI)
    fix rid assume "rid \<in> {rid \<in> set ids. get_run st rid \<noteq> None}"
    then obtain m where m: "rid \<in> set ids" "st rid = Some m" "m_deleted_at m = None"
      using get_run_Some by auto
    then have "m \<in> set ms" using ms by fastforce
    moreover have "m_id m = rid" using m(2) assms(1) by (simp add: store_ok_def)
    ultimately show "rid \<in> m_id ` set ms" by blast
  next
    fix rid assume "rid \<in> m_id ` set ms"
    then obtain m where m: "m \<in> set ms" "rid = m_id m" by blast
    then have "get_run st rid = Some m" "rid \<in> set ids" using ms by (simp_all add: get_run_Some)
    then show "rid \<in> {rid \<in> set ids. get_run st rid \<noteq> None}" by simp
  qed
  have "n = card {rid \<in> set ids. get_run st rid \<noteq> None}"
    using n dist ids_ms by (metis card_image distinct_card distinct_map length_map set_map)
  moreover have "get_run st' rid = None" if "rid \<in> set ids" for rid
  proof (cases "rid \<in> m_id ` set ms")
    case True
    then show ?thesis
      using write_all_written [of rid ?f ms st] img st' by (auto simp: get_run_def get_run_raw_def)
  next
    case False
    then have "st' rid = st rid" using write_all_other [of rid ?f ms st] img st' by simp
    moreover have "get_run st rid = None" using ids_ms False that by blast
    ultimately show ?thesis using get_run_cong by metis
  qed
  moreover have "st' k = st k" if "k \<notin> set ids" for k
    using write_all_other [of k ?f ms st] img st' that ids_ms by blast
  moreover have "m_status m \<notin> {Running, Pending, Idle}"
    if "get_run st rid = Some m" "rid \<in> set ids" for rid m
  proof -
    have "rid \<in> m_id ` set ms" using that ids_ms by auto
    then obtain x where "x \<in> set ms" "m_id x = rid" by blast
    then show ?thesis using ms that(1) by (auto simp: get_run_Some)
  qed
  ultimately show ?thesis using ms by fastforce
qed


theorem soft_delete_success_witness:
  "\<exists>st'. soft_delete_runs (\<lambda>_. save_ok) ''t'' [''r2'', ''r2''] example_store = (Inr 1, st')
     \<and> get_run st' ''r2'' = None \<and> st' ''r1'' = example_store ''r1''"
proof -
  have e: "soft_delete_runs (\<lambda>_. save_ok) ''t'' [''r2'', ''r2''] example_store =
      (Inr 1, example_store(''r2'' \<mapsto> (example_meta ''r2'' Completed)\<lparr>m_deleted_at := Some ''t''\<rparr>))"
    by (simp add: soft_delete_runs_def get_run_raw_def example_store_def) (simp add: example_meta_def)
  from soft_delete_success [OF example_store_ok e] show ?thesis using e by simp
qed

lemma delete_precheck_active:
  assumes "rid \<in> set rids" "get_run st rid = Some m" "m_status m \<in> {Running, Pending, Idle}"
  shows "\<exists>e. delete_precheck st rids = Inl e"
  using assms(1)
proof (induction rids)
  case (Cons x rids)
  then show ?case
    using assms(2,3)
    by (auto simp: get_run_raw_def get_run_Some split: option.split sum.split)
qed simp

text \<open>A deletion that names an active run deletes nothing at all, whatever else it names.\<close>

theorem soft_delete_refuses_active:
  assumes "rid \<in> set ids" "get_run st rid = Some m" "m_status m \<in> {Running, Pending, Idle}"
  shows "\<exists>e. soft_delete_runs env now ids st = (Inl e, st)"
proof -
  have "rid \<in> set (dedup [] ids)" using assms(1) by (simp add: set_dedup)
  from delete_precheck_active [OF this assms(2,3)] show ?thesis
    by (auto simp: soft_delete_runs_def)
qed

theorem soft_delete_refuses_active_witness:
  "\<exists>e. soft_delete_runs (\<lambda>_. save_ok) ''t'' [''r2'', ''r1''] example_store = (Inl e, example_store)"
  by (rule soft_delete_refuses_active [where rid = "''r1''" and m = "example_meta ''r1'' Running"])
    (simp_all add: get_run_Some example_store_def example_meta_def)

text \<open>C35: when writing one of the records fails and the rollback can save, a failed deletion
  leaves the store exactly as it was.\<close>

theorem soft_delete_rolls_back:
  assumes "store_ok st" "soft_delete_runs env now ids st = (Inl e, st')"
    and "\<forall>j<i. env j = save_ok" "\<forall>j>i. env j = save_ok"
  shows "st' = st"
proof (cases "delete_precheck st (dedup [] ids)")
  case (Inl x)
  then show ?thesis using assms(2) by (simp add: soft_delete_runs_def)
next
  case (Inr ms)
  then obtain m x where w: "write_with_rollback env 0 (\<lambda>m. m\<lparr>m_deleted_at := Some now\<rparr>) [] ms st = (Inl (m, x), st')"
    using assms(2) by (auto simp: soft_delete_runs_def split: prod.splits sum.splits)
  show ?thesis
    by (rule rollback_restores [OF w])
      (use delete_precheck_Inr [OF Inr assms(1)] assms(3,4) in \<open>auto simp: all_ok_def\<close>)
qed

definition second_save_fails :: "nat \<Rightarrow> save_env" where
  "second_save_fails n = (if n = 1 then save_ok\<lparr>se_write := Some ''disk full''\<rparr> else save_ok)"

definition example_store2 :: meta_store where
  "example_store2 = [''r1'' \<mapsto> example_meta ''r1'' Failed, ''r2'' \<mapsto> example_meta ''r2'' Completed]"

lemma save_disk_full [simp]:
  "save_meta (save_ok\<lparr>se_write := Some e\<rparr>) m st = (Inl (''write tmp: '' @ e), st)"
  by (simp add: save_meta_def save_ok_def)

theorem soft_delete_rolls_back_witness:
  "\<exists>e. soft_delete_runs second_save_fails ''t'' [''r1'', ''r2''] example_store2 = (Inl e, example_store2)"
proof -
  have ok: "store_ok example_store2"
    by (auto simp: store_ok_def example_store2_def example_meta_def split: if_splits)
  obtain e st' where e: "soft_delete_runs second_save_fails ''t'' [''r1'', ''r2''] example_store2 = (Inl e, st')"
    by (simp add: soft_delete_runs_def get_run_raw_def example_store2_def second_save_fails_def
        example_meta_def)
  have "st' = example_store2"
    by (rule soft_delete_rolls_back [OF ok e, where i = 1]) (simp_all add: second_save_fails_def)
  then show ?thesis using e by blast
qed

text \<open>Clearing a stale result error succeeds without touching the store when there is
  nothing to clear, and after a successful call there is never anything to clear.\<close>

theorem clear_result_error_idempotent:
  assumes "store_ok st" "clear_result_error_if_present se rid st = (Inr (), st')"
  shows "(\<exists>m. get_run st' rid = Some m \<and> m_error_message m = None \<and> m_result_subtype m = None)
     \<and> clear_result_error_if_present se' rid st' = (Inr (), st')"
proof -
  obtain m where m: "get_run st rid = Some m"
    using assms(2) by (auto simp: clear_result_error_if_present_def split: option.splits)
  let ?m = "m\<lparr>m_error_message := None, m_result_subtype := None\<rparr>"
  show ?thesis
  proof (cases "m_error_message m = None \<and> m_result_subtype m = None")
    case True
    then show ?thesis using m assms(2) by (auto simp: clear_result_error_if_present_def)
  next
    case False
    then have "save_meta se ?m st = (Inr (), st')"
      using m assms(2) by (auto simp: clear_result_error_if_present_def)
    then have "st' = st(m_id m \<mapsto> ?m)" using save_meta_cases [of se ?m st] by auto
    then have "get_run st' rid = Some ?m"
      using get_run_ok [OF assms(1) m] m by (simp add: get_run_Some)
    then show ?thesis by (simp add: clear_result_error_if_present_def)
  qed
qed

theorem clear_result_error_idempotent_witness:
  "clear_result_error_if_present save_ok ''r1''
     (snd (clear_result_error_if_present save_ok ''r1''
        (example_store(''r1'' \<mapsto> (example_meta ''r1'' Idle)\<lparr>m_error_message := Some ''e''\<rparr>))))
   = (Inr (), snd (clear_result_error_if_present save_ok ''r1''
        (example_store(''r1'' \<mapsto> (example_meta ''r1'' Idle)\<lparr>m_error_message := Some ''e''\<rparr>))))"
proof -
  let ?st = "example_store(''r1'' \<mapsto> (example_meta ''r1'' Idle)\<lparr>m_error_message := Some ''e''\<rparr>)"
  have ok: "store_ok ?st"
    using example_store_ok by (simp add: store_ok_def example_meta_def)
  obtain st' where c: "clear_result_error_if_present save_ok ''r1'' ?st = (Inr (), st')"
    by (simp add: clear_result_error_if_present_def get_run_def get_run_raw_def example_meta_def)
  from clear_result_error_idempotent [OF ok c, of save_ok] show ?thesis using c by simp
qed

end
