(* ===== verification/Driver_Props.thy ===== *)
theory Driver_Props
  imports Codex_Driver
begin

text \<open>
  Properties of the Codex driver: the bounds of its buffer of unclaimed messages, the
  termination of the eviction loops, what eviction may remove, the answers to interactive
  requests and the frames of a turn.
\<close>

section \<open>Association lists with one entry per key\<close>

lemma hm_insert_absent: "map_of d k = None \<Longrightarrow> hm_insert k v d = d @ [(k, v)]"
  unfolding hm_insert_def by (induction d) (auto split: if_splits)

lemma hm_insert_present:
  assumes "map_of d k = Some q"
  shows "map fst (hm_insert k v d) = map fst d
     \<and> sum_list (map (\<lambda>(t, q). f q) (hm_insert k v d)) + f q = sum_list (map (\<lambda>(t, q). f q) d) + (f v :: nat)"
  using assms unfolding hm_insert_def by (induction d) (auto split: if_splits)

lemma hm_remove_absent: "k \<notin> fst ` set d \<Longrightarrow> hm_remove k d = d"
  unfolding hm_remove_def by (simp add: delete_notin_dom dom_map_of_conv_image_fst)

lemma hm_remove_Cons [simp]:
  "hm_remove k ((k', v) # d) = (if k = k' then hm_remove k d else (k', v) # hm_remove k d)"
  by (simp add: hm_remove_def)

lemma hm_remove_present:
  assumes "map_of d k = Some q" "distinct (map fst d)"
  shows "sum_list (map (\<lambda>(t, q). f q) (hm_remove k d)) + f q = (sum_list (map (\<lambda>(t, q). f q) d) :: nat)
     \<and> Suc (length (hm_remove k d)) = length d"
  using assms
proof (induction d)
  case (Cons x d)
  obtain k' v where x: "x = (k', v)" by fastforce
  show ?case
  proof (cases "k' = k")
    case True
    then show ?thesis using Cons.prems x hm_remove_absent [of k d] by auto
  next
    case False
    then show ?thesis using Cons x by simp
  qed
qed simp

lemma set_hm_insert: "distinct (map fst d) \<Longrightarrow> set (hm_insert k v d) = {(t, q) \<in> set d. t \<noteq> k} \<union> {(k, v)}"
  unfolding hm_insert_def by (induction d) (auto simp: image_iff)

lemma set_hm_remove: "set (hm_remove k d) = {(t, q) \<in> set d. t \<noteq> k}"
  by (induction d) (auto simp: hm_remove_def)

section \<open>The buffer\<close>

definition count_deferred :: "codex_app_server \<Rightarrow> nat" where
  "count_deferred c = sum_list (map (\<lambda>(t, q). length q) (cx_deferred c))"

definition queue_bytes :: "deferred_entry list \<Rightarrow> nat" where
  "queue_bytes q = sum_list (map de_payload_bytes q)"

definition total_bytes :: "codex_app_server \<Rightarrow> nat" where
  "total_bytes c = sum_list (map (\<lambda>(t, q). queue_bytes q) (cx_deferred c))"

text \<open>
  Every bound of the buffer: the number of threads, the length of each queue, the byte total,
  which is also the sum of what is stored; and the representation: one non-empty queue a thread.
\<close>

text \<open>Sequence numbers identify the entries of a queue.\<close>

definition queue_numbered :: "nat \<Rightarrow> deferred_entry list \<Rightarrow> bool" where
  "queue_numbered n q = (distinct (map de_sequence q) \<and> (\<forall>e\<in>set q. de_sequence e < n))"

definition buffer_ok :: "codex_app_server \<Rightarrow> bool" where
  "buffer_ok c =
     (distinct (map fst (cx_deferred c))
      \<and> (\<forall>(t, q)\<in>set (cx_deferred c). q \<noteq> [] \<and> length q \<le> MAX_DEFERRED_MESSAGES_PER_THREAD
           \<and> queue_numbered (cx_next_deferred_sequence c) q)
      \<and> length (cx_deferred c) \<le> MAX_UNCLAIMED_THREADS
      \<and> cx_deferred_bytes c = total_bytes c
      \<and> cx_deferred_bytes c \<le> MAX_DEFERRED_PAYLOAD_BYTES)"

lemma count_all: "length (all_deferred c) = count_deferred c"
proof -
  have "length (concat (map (\<lambda>(tid, q). map (Pair tid) q) d)) = sum_list (map (\<lambda>(t, q). length q) d)"
    for d :: "(string \<times> deferred_entry list) list" by (induction d) auto
  then show ?thesis by (simp add: all_deferred_def count_deferred_def)
qed

lemma take_sequence_Some:
  "take_sequence sq q = Some (e, rest) \<Longrightarrow>
   length q = Suc (length rest) \<and> queue_bytes q = de_payload_bytes e + queue_bytes rest
   \<and> set q = insert e (set rest) \<and> de_sequence e = sq"
  by (induction q arbitrary: rest) (auto simp: queue_bytes_def split: if_splits)

lemma take_sequence_subseq:
  "take_sequence sq q = Some (e, rest) \<Longrightarrow> set rest \<subseteq> set q
     \<and> (distinct (map de_sequence q) \<longrightarrow> distinct (map de_sequence rest) \<and> e \<notin> set rest)"
proof (induction q arbitrary: rest)
  case (Cons a q)
  then show ?case
    using take_sequence_Some [of sq q e] by (fastforce split: if_splits)
qed simp

lemma take_sequence_exists:
  "e \<in> set q \<Longrightarrow> \<exists>x rest. take_sequence (de_sequence e) q = Some (x, rest)"
  by (induction q) auto

lemma map_of_queue: "distinct (map fst d) \<Longrightarrow> (t, q) \<in> set d \<longleftrightarrow> map_of d t = Some q"
  by simp

text \<open>Removing an entry that is there: one fewer, its bytes less, every bound kept.\<close>

lemma remove_present:
  assumes "buffer_ok c" "map_of (cx_deferred c) tid = Some q" "take_sequence sq q = Some (e, rest)"
    "remove_deferred_entry tid sq reason c = (c', fr)"
  shows "buffer_ok c' \<and> Suc (count_deferred c') = count_deferred c
     \<and> length (cx_deferred c') \<le> length (cx_deferred c)
     \<and> (\<forall>t q'. map_of (cx_deferred c') t = Some q' \<longrightarrow>
          (t \<noteq> tid \<and> map_of (cx_deferred c) t = Some q' \<or> t = tid \<and> q' = rest))
     \<and> (\<forall>t. t \<noteq> tid \<longrightarrow> map_of (cx_deferred c') t = map_of (cx_deferred c) t)
     \<and> (rest \<noteq> [] \<longrightarrow> map_of (cx_deferred c') tid = Some rest)
     \<and> (map_of (cx_deferred c') tid = None \<longrightarrow> length (cx_deferred c') < length (cx_deferred c))
     \<and> fr = reject_deferred_interactive (de_message e) reason"
proof -
  let ?d = "cx_deferred c"
  have d: "distinct (map fst ?d)" using assms(1) by (simp add: buffer_ok_def)
  have c': "c' = c\<lparr>cx_deferred := put_queue tid rest ?d, cx_deferred_bytes := cx_deferred_bytes c - de_payload_bytes e\<rparr>"
    and fr: "fr = reject_deferred_interactive (de_message e) reason"
    using assms(2-4) by (auto simp: remove_deferred_entry_def)
  note t = take_sequence_Some [OF assms(3)]
  have q: "length q \<le> MAX_DEFERRED_MESSAGES_PER_THREAD" "queue_numbered (cx_next_deferred_sequence c) q"
    using assms(1,2) map_of_SomeD [OF assms(2)] by (auto simp: buffer_ok_def)
  have len: "length (hm_insert tid rest ?d) = length ?d"
    using hm_insert_present [OF assms(2), of rest length] by (metis length_map)
  have sums: "sum_list (map (\<lambda>(t, q). length q) (put_queue tid rest ?d)) + length q
        = sum_list (map (\<lambda>(t, q). length q) ?d) + length rest"
    "sum_list (map (\<lambda>(t, q). queue_bytes q) (put_queue tid rest ?d)) + queue_bytes q
        = sum_list (map (\<lambda>(t, q). queue_bytes q) ?d) + queue_bytes rest"
    "length (put_queue tid rest ?d) \<le> length ?d"
    using hm_remove_present [OF assms(2) d, of length] hm_remove_present [OF assms(2) d, of queue_bytes]
      hm_insert_present [OF assms(2), of rest length] hm_insert_present [OF assms(2), of rest queue_bytes]
      len
    by (auto simp: put_queue_def queue_bytes_def)
  have num: "queue_numbered (cx_next_deferred_sequence c) rest"
    using q(2) take_sequence_subseq [OF assms(3)] by (auto simp: queue_numbered_def)
  have "\<forall>(t, q)\<in>set (put_queue tid rest ?d). q \<noteq> [] \<and> length q \<le> MAX_DEFERRED_MESSAGES_PER_THREAD
      \<and> queue_numbered (cx_next_deferred_sequence c) q"
    using assms(1) t q num set_hm_insert [OF d, of tid rest] set_hm_remove [of tid ?d]
    by (auto simp: put_queue_def buffer_ok_def)
  moreover have "distinct (map fst (put_queue tid rest ?d))"
    using d by (simp add: put_queue_def distinct_hm_insert distinct_hm_remove)
  moreover have "cx_deferred_bytes c' = total_bytes c' \<and> cx_deferred_bytes c' \<le> MAX_DEFERRED_PAYLOAD_BYTES"
  proof -
    have "total_bytes c' + de_payload_bytes e = total_bytes c"
      using sums(2) t by (simp add: total_bytes_def c')
    moreover have "cx_deferred_bytes c' = cx_deferred_bytes c - de_payload_bytes e" by (simp add: c')
    ultimately show ?thesis using assms(1) unfolding buffer_ok_def by linarith
  qed
  ultimately have "buffer_ok c'"
    using assms(1) sums(3) unfolding buffer_ok_def by (simp add: c')
  moreover have "Suc (count_deferred c') = count_deferred c"
    using sums(1) t by (simp add: count_deferred_def c')
  moreover have "map_of (cx_deferred c') tid = None \<longrightarrow> length (cx_deferred c') < length ?d"
    using hm_remove_present [OF assms(2) d, of length] by (auto simp: c' put_queue_def)
  ultimately show ?thesis
    using sums(3) fr by (auto simp: c' put_queue_def split: if_splits)
qed

lemma remove_ok:
  assumes "buffer_ok c"
  shows "buffer_ok (fst (remove_deferred_entry tid sq reason c))"
proof (cases "map_of (cx_deferred c) tid")
  case None
  then show ?thesis using assms by (simp add: remove_deferred_entry_def)
next
  case (Some q)
  show ?thesis
  proof (cases "take_sequence sq q")
    case None
    have d: "distinct (map fst (cx_deferred c))" and q: "q \<noteq> []" "(tid, q) \<in> set (cx_deferred c)"
      using assms Some map_of_SomeD [OF Some] by (auto simp: buffer_ok_def)
    have "hm_insert tid q (cx_deferred c) = cx_deferred c"
      using Some by (simp add: hm_insert_def update_triv)
    then show ?thesis using assms Some None q by (simp add: remove_deferred_entry_def put_queue_def)
  next
    case (Some r)
    then show ?thesis
      using remove_present [OF assms \<open>map_of (cx_deferred c) tid = Some q\<close>, of sq "fst r" "snd r" reason]
      by (cases r; cases "remove_deferred_entry tid sq reason c") auto
  qed
qed

lemma remove_all_ok: "buffer_ok c \<Longrightarrow> buffer_ok (fst (remove_all xs reason c))"
proof (induction xs arbitrary: c)
  case (Cons x xs)
  then show ?case using remove_ok by (cases x) (simp add: case_prod_beta Let_def)
qed simp

lemma expire_ok: "buffer_ok c \<Longrightarrow> buffer_ok (fst (expire_deferred_messages now c))"
  by (simp add: expire_deferred_messages_def remove_all_ok)


section \<open>The eviction loops\<close>

text \<open>
  The interface of an evicting operation: it keeps the buffer's invariant and removes one entry.
  A loop over it then returns within the fuel the source's buffer size gives, with the guard
  false or nothing left to evict.
\<close>

locale evictor =
  fixes evict :: "codex_app_server \<Rightarrow> (codex_app_server \<times> json list) option"
    and kept :: "codex_app_server \<Rightarrow> codex_app_server \<Rightarrow> bool"
  assumes evict_ok: "buffer_ok c \<Longrightarrow> evict c = Some (c', fr) \<Longrightarrow>
      buffer_ok c' \<and> Suc (count_deferred c') = count_deferred c \<and> kept c c'"
    and kept_refl: "kept c c"
    and kept_trans: "kept a b \<Longrightarrow> kept b c \<Longrightarrow> kept a c"
begin

lemma evict_while_returns:
  assumes "buffer_ok c" "count_deferred c < fuel"
  shows "\<exists>ok c' fr. evict_while fuel guard evict c = Some (ok, c', fr) \<and> buffer_ok c' \<and> kept c c'
     \<and> count_deferred c' \<le> count_deferred c \<and> (ok \<longrightarrow> \<not> guard c') \<and> (\<not> ok \<longrightarrow> guard c' \<and> evict c' = None)"
  using assms
proof (induction fuel arbitrary: c)
  case (Suc fuel)
  show ?case
  proof (cases "guard c")
    case False
    then have "evict_while (Suc fuel) guard evict c = Some (True, c, [])" by simp
    then show ?thesis using Suc.prems kept_refl False by blast
  next
    case True
    show ?thesis
    proof (cases "evict c")
      case None
      then have "evict_while (Suc fuel) guard evict c = Some (False, c, [])" using True by simp
      then show ?thesis using Suc.prems kept_refl True None by blast
    next
      case (Some r)
      obtain c1 fr1 where r: "r = (c1, fr1)" by fastforce
      have c1: "buffer_ok c1" "Suc (count_deferred c1) = count_deferred c" "kept c c1"
        using evict_ok [OF Suc.prems(1)] Some r by auto
      then have "count_deferred c1 < fuel" using Suc.prems(2) by simp
      from Suc.IH [OF c1(1) this] obtain ok c' fr where
        "evict_while fuel guard evict c1 = Some (ok, c', fr)" "buffer_ok c'" "kept c1 c'"
        "count_deferred c' \<le> count_deferred c1" "ok \<longrightarrow> \<not> guard c'"
        "\<not> ok \<longrightarrow> guard c' \<and> evict c' = None" by blast
      then show ?thesis using True Some r c1 kept_trans [OF c1(3)] by auto
    qed
  qed
qed simp

lemma make_room_returns:
  assumes "buffer_ok c"
  shows "\<exists>ok c' fr. make_room guard evict msg c = Some (ok, c', fr) \<and> buffer_ok c' \<and> kept c c'
     \<and> (ok \<longrightarrow> \<not> guard c')"
proof -
  have "count_deferred c < evict_fuel c" by (simp add: evict_fuel_def count_all)
  from evict_while_returns [OF assms this, of guard] show ?thesis by (auto simp: make_room_def)
qed

end

text \<open>
  What evicting for a message may not lose: for a notification, every interactive request; and
  room once made stays.
\<close>

definition waiting_requests :: "codex_app_server \<Rightarrow> (string \<times> deferred_entry) set" where
  "waiting_requests c = {(t, e) \<in> set (all_deferred c). is_interactive_msg (de_message e)}"

definition keeps_requests :: "bool \<Rightarrow> codex_app_server \<Rightarrow> codex_app_server \<Rightarrow> bool" where
  "keeps_requests interactive c c' =
     ((\<not> interactive \<longrightarrow> waiting_requests c \<subseteq> waiting_requests c')
      \<and> set (all_deferred c') \<subseteq> set (all_deferred c)
      \<and> (\<forall>tid. too_many_threads tid c' \<longrightarrow> too_many_threads tid c)
      \<and> (\<forall>tid. thread_full tid c' \<longrightarrow> thread_full tid c)
      \<and> cx_next_deferred_sequence c' = cx_next_deferred_sequence c)"

lemma all_deferred_iff: "(t, e) \<in> set (all_deferred c) \<longleftrightarrow> (\<exists>q. (t, q) \<in> set (cx_deferred c) \<and> e \<in> set q)"
  by (force simp: all_deferred_def)

lemma all_deferred_map:
  "buffer_ok c \<Longrightarrow> (t, e) \<in> set (all_deferred c) \<longleftrightarrow> (\<exists>q. map_of (cx_deferred c) t = Some q \<and> e \<in> set q)"
  by (simp add: all_deferred_iff buffer_ok_def)

lemma min_by_sequence_in:
  "min_by_sequence xs = Some (t, n) \<Longrightarrow> \<exists>e. (t, e) \<in> set xs \<and> de_sequence e = n"
proof (induction xs arbitrary: t n rule: min_by_sequence.induct)
  case (2 tid e xs)
  show ?case
  proof (cases "min_by_sequence xs")
    case None
    then show ?thesis using "2.prems" by auto
  next
    case (Some r)
    obtain t' n' where r: "r = (t', n')" by fastforce
    have "(t, n) = (tid, de_sequence e) \<or> (t, n) = (t', n')"
      using "2.prems" Some r by (auto split: if_splits)
    then show ?thesis using "2.IH" Some r by auto
  qed
qed simp

lemma oldest_matching_in:
  assumes "oldest_matching c b = Some (t, n)"
  shows "\<exists>e. (t, e) \<in> set (all_deferred c) \<and> de_sequence e = n \<and> is_interactive_msg (de_message e) = b"
  using min_by_sequence_in [OF assms [unfolded oldest_matching_def]] by auto

text \<open>Evicting a numbered entry removes that entry.\<close>

lemma evict_entry:
  assumes ok: "buffer_ok c" and e: "(t, e) \<in> set (all_deferred c)"
    and i: "\<not> interactive \<longrightarrow> \<not> is_interactive_msg (de_message e)"
    and r: "remove_deferred_entry t (de_sequence e) reason c = (c', fr)"
  shows "buffer_ok c' \<and> Suc (count_deferred c') = count_deferred c \<and> keeps_requests interactive c c'"
proof -
  obtain q where q: "map_of (cx_deferred c) t = Some q" "e \<in> set q"
    using e all_deferred_map [OF ok] by blast
  obtain x rest where x: "take_sequence (de_sequence e) q = Some (x, rest)"
    using take_sequence_exists [OF q(2)] by blast
  have num: "distinct (map de_sequence q)"
    using ok map_of_SomeD [OF q(1)] by (auto simp: buffer_ok_def queue_numbered_def)
  have xe: "x = e"
  proof -
    have "x \<in> set q" "de_sequence x = de_sequence e" using take_sequence_Some [OF x] by auto
    then show ?thesis using num q(2) by (auto simp: distinct_map dest: inj_onD)
  qed
  note p = remove_present [OF ok q(1) x r]
  have ok': "buffer_ok c'" using p by blast
  have sub: "set (all_deferred c') \<subseteq> set (all_deferred c)"
  proof
    fix y assume "y \<in> set (all_deferred c')"
    then obtain t' e' q' where y: "y = (t', e')" "map_of (cx_deferred c') t' = Some q'" "e' \<in> set q'"
      using all_deferred_map [OF ok'] by (metis surj_pair)
    then have "t' \<noteq> t \<and> map_of (cx_deferred c) t' = Some q' \<or> t' = t \<and> q' = rest" using p by blast
    then show "y \<in> set (all_deferred c)"
      using y q take_sequence_subseq [OF x] all_deferred_map [OF ok] by auto
  qed
  have "waiting_requests c \<subseteq> waiting_requests c'" if ni: "\<not> interactive"
  proof
    fix y assume "y \<in> waiting_requests c"
    then obtain t' e' q' where y: "y = (t', e')" "map_of (cx_deferred c) t' = Some q'" "e' \<in> set q'"
      "is_interactive_msg (de_message e')"
      using all_deferred_map [OF ok] by (auto simp: waiting_requests_def)
    have "\<exists>q''. map_of (cx_deferred c') t' = Some q'' \<and> e' \<in> set q''"
    proof (cases "t' = t")
      case False
      then show ?thesis using p y by auto
    next
      case True
      then have "q' = q" using q y by simp
      moreover have "e' \<noteq> x" using i ni y xe by auto
      ultimately have "e' \<in> set rest" using take_sequence_Some [OF x] y by auto
      then show ?thesis using p True by (cases rest) auto
    qed
    then show "y \<in> waiting_requests c'"
      using y all_deferred_map [OF ok'] by (auto simp: waiting_requests_def)
  qed
  moreover have "too_many_threads t' c' \<longrightarrow> too_many_threads t' c" for t'
    using p ok q(1) by (cases "t' = t") (auto simp: too_many_threads_def buffer_ok_def)
  moreover have "thread_full t' c' \<longrightarrow> thread_full t' c" for t'
  proof (cases "map_of (cx_deferred c') t'")
    case None
    then show ?thesis by (simp add: thread_full_def)
  next
    case (Some q')
    then have "t' \<noteq> t \<and> map_of (cx_deferred c) t' = Some q' \<or> t' = t \<and> q' = rest" using p by blast
    then show ?thesis using Some q(1) take_sequence_Some [OF x] by (auto simp: thread_full_def)
  qed
  moreover have "cx_next_deferred_sequence c' = cx_next_deferred_sequence c"
    using r by (auto simp: remove_deferred_entry_def split: option.splits)
  ultimately show ?thesis using p sub unfolding keeps_requests_def by blast
qed

interpretation oldest: evictor "evict_oldest_deferred b" "keeps_requests b" for b
proof
  fix c c' fr assume ok: "buffer_ok c" and ev: "evict_oldest_deferred b c = Some (c', fr)"
  obtain t n where o: "or_else (oldest_matching c False) (if b then oldest_matching c True else None) = Some (t, n)"
    and r: "remove_deferred_entry t n ''Interactive request evicted from buffer'' c = (c', fr)"
    using ev by (auto simp: evict_oldest_deferred_def split: option.splits)
  have "\<exists>e. (t, e) \<in> set (all_deferred c) \<and> de_sequence e = n \<and> (\<not> b \<longrightarrow> \<not> is_interactive_msg (de_message e))"
    using o oldest_matching_in [of c False t n] oldest_matching_in [of c True t n]
    by (auto simp: or_else_def split: option.splits if_splits)
  then show "buffer_ok c' \<and> Suc (count_deferred c') = count_deferred c \<and> keeps_requests b c c'"
    using evict_entry [OF ok _ _ ] r by blast
qed (auto simp: keeps_requests_def)

interpretation in_thread: evictor "evict_oldest_deferred_in_thread t b" "keeps_requests b" for t b
proof
  fix c c' fr assume ok: "buffer_ok c" and ev: "evict_oldest_deferred_in_thread t b c = Some (c', fr)"
  obtain q where q: "map_of (cx_deferred c) t = Some q"
    using ev by (auto simp: evict_oldest_deferred_in_thread_def split: option.splits)
  let ?pick = "or_else (map_option de_sequence (find (\<lambda>e. \<not> is_interactive_msg (de_message e)) q))
      (if b then (case q of [] \<Rightarrow> None | e # es \<Rightarrow> Some (de_sequence e)) else None)"
  obtain n where n: "?pick = Some n"
    and r: "remove_deferred_entry t n ''Interactive request evicted from buffer'' c = (c', fr)"
    using ev q by (auto simp: evict_oldest_deferred_in_thread_def split: option.splits)
  have "\<exists>e\<in>set q. de_sequence e = n \<and> (\<not> b \<longrightarrow> \<not> is_interactive_msg (de_message e))"
  proof (cases "find (\<lambda>e. \<not> is_interactive_msg (de_message e)) q")
    case None
    then show ?thesis using n by (cases q) (auto split: if_splits)
  next
    case (Some e)
    then have "e \<in> set q" "\<not> is_interactive_msg (de_message e)" by (auto simp: find_Some_iff)
    moreover have "de_sequence e = n" using n Some by simp
    ultimately show ?thesis by blast
  qed
  then obtain e where "(t, e) \<in> set (all_deferred c)" "de_sequence e = n"
    "\<not> b \<longrightarrow> \<not> is_interactive_msg (de_message e)"
    using all_deferred_map [OF ok] q by blast
  then show "buffer_ok c' \<and> Suc (count_deferred c') = count_deferred c \<and> keeps_requests b c c'"
    using evict_entry [OF ok] r by blast
qed (auto simp: keeps_requests_def)


section \<open>Deferring a message\<close>

lemma push_ok:
  assumes ok: "buffer_ok c" and g: "\<not> too_many_threads tid c" "\<not> thread_full tid c" "\<not> bytes_full n c"
    and seq: "cx_next_deferred_sequence c + 1 < 2 ^ 64"
  shows "buffer_ok (push_deferred now tid msg n c)"
proof -
  let ?d = "cx_deferred c"
  let ?e = "\<lparr>de_message = msg, de_received_at = now, de_sequence = cx_next_deferred_sequence c,
      de_payload_bytes = n\<rparr>"
  let ?q = "unwrap_or (map_of ?d tid) []"
  let ?d' = "hm_insert tid (?q @ [?e]) ?d"
  have d: "distinct (map fst ?d)" using ok by (simp add: buffer_ok_def)
  have q: "queue_numbered (cx_next_deferred_sequence c) ?q" "length ?q < MAX_DEFERRED_MESSAGES_PER_THREAD"
  proof -
    have "queue_numbered (cx_next_deferred_sequence c) ?q \<and> length ?q < MAX_DEFERRED_MESSAGES_PER_THREAD"
    proof (cases "map_of ?d tid")
      case None
      then show ?thesis by (simp add: queue_numbered_def MAX_DEFERRED_MESSAGES_PER_THREAD_def)
    next
      case (Some x)
      then have "queue_numbered (cx_next_deferred_sequence c) x"
        using ok map_of_SomeD [OF Some] unfolding buffer_ok_def by blast
      then show ?thesis using Some g(2) by (simp add: thread_full_def)
    qed
    then show "queue_numbered (cx_next_deferred_sequence c) ?q" "length ?q < MAX_DEFERRED_MESSAGES_PER_THREAD"
      by blast+
  qed
  have "\<forall>(t, q)\<in>set ?d'. q \<noteq> [] \<and> length q \<le> MAX_DEFERRED_MESSAGES_PER_THREAD
      \<and> queue_numbered (Suc (cx_next_deferred_sequence c)) q"
  proof (intro ballI, clarify)
    fix t x assume "(t, x) \<in> set ?d'"
    then have "(t, x) \<in> set ?d \<or> x = ?q @ [?e]" by (auto simp only: set_hm_insert [OF d])
    then show "x \<noteq> [] \<and> length x \<le> MAX_DEFERRED_MESSAGES_PER_THREAD
        \<and> queue_numbered (Suc (cx_next_deferred_sequence c)) x"
    proof
      assume "(t, x) \<in> set ?d"
      then have "x \<noteq> []" "length x \<le> MAX_DEFERRED_MESSAGES_PER_THREAD"
        "queue_numbered (cx_next_deferred_sequence c) x" using ok by (auto simp: buffer_ok_def)
      then show ?thesis by (auto simp: queue_numbered_def less_SucI)
    next
      assume "x = ?q @ [?e]"
      then show ?thesis using q by (auto simp: queue_numbered_def less_SucI)
    qed
  qed
  moreover have "length ?d' \<le> MAX_UNCLAIMED_THREADS"
  proof (cases "map_of ?d tid")
    case None
    then show ?thesis using g(1) by (simp add: hm_insert_absent too_many_threads_def)
  next
    case (Some q)
    have "length ?d' = length ?d"
      using hm_insert_present [OF Some, of "?q @ [?e]" length] by (metis length_map)
    then show ?thesis using ok by (simp add: buffer_ok_def)
  qed
  moreover have "sum_list (map (\<lambda>(t, q). queue_bytes q) ?d') = sum_list (map (\<lambda>(t, q). queue_bytes q) ?d) + n"
  proof (cases "map_of ?d tid")
    case None
    then show ?thesis by (simp add: hm_insert_absent queue_bytes_def)
  next
    case (Some q)
    then show ?thesis
      using hm_insert_present [OF Some, of "?q @ [?e]" queue_bytes] by (simp add: queue_bytes_def)
  qed
  moreover have "distinct (map fst ?d')" using d by (rule distinct_hm_insert)
  ultimately have "distinct (map fst ?d')"
    "\<forall>(t, q)\<in>set ?d'. q \<noteq> [] \<and> length q \<le> MAX_DEFERRED_MESSAGES_PER_THREAD
      \<and> queue_numbered (Suc (cx_next_deferred_sequence c)) q"
    "length ?d' \<le> MAX_UNCLAIMED_THREADS"
    "cx_deferred_bytes c + n = sum_list (map (\<lambda>(t, q). queue_bytes q) ?d')"
    "cx_deferred_bytes c + n \<le> MAX_DEFERRED_PAYLOAD_BYTES"
    using ok g(3) by (simp_all add: buffer_ok_def total_bytes_def bytes_full_def)
  moreover have "(cx_next_deferred_sequence c + 1) mod 2 ^ 64 = Suc (cx_next_deferred_sequence c)"
    using seq by simp
  ultimately show ?thesis unfolding buffer_ok_def push_deferred_def total_bytes_def by simp
qed


text \<open>The three loops: they return, keep the bounds, and on success leave room.\<close>

definition three_loops ::
  "string \<Rightarrow> deferred_message \<Rightarrow> nat \<Rightarrow> codex_app_server \<Rightarrow> (bool \<times> codex_app_server \<times> json list) option" where
  "three_loops tid msg n c0 =
     (let interactive = is_interactive_msg msg in
      room_then (make_room (too_many_threads tid) (evict_oldest_deferred interactive) msg c0)
        (\<lambda>c1. room_then
           (make_room (thread_full tid) (evict_oldest_deferred_in_thread tid interactive) msg c1)
           (\<lambda>c2. make_room (bytes_full n) (evict_oldest_deferred interactive) msg c2)))"

lemma three_loops_return:
  assumes "buffer_ok c0"
  shows "\<exists>ok c' fr. three_loops tid msg n c0 = Some (ok, c', fr) \<and> buffer_ok c'
     \<and> keeps_requests (is_interactive_msg msg) c0 c'
     \<and> (ok \<longrightarrow> \<not> too_many_threads tid c' \<and> \<not> thread_full tid c' \<and> \<not> bytes_full n c')"
proof -
  let ?b = "is_interactive_msg msg"
  obtain ok1 c1 fr1 where l1: "make_room (too_many_threads tid) (evict_oldest_deferred ?b) msg c0 = Some (ok1, c1, fr1)"
    "buffer_ok c1" "keeps_requests ?b c0 c1" "ok1 \<longrightarrow> \<not> too_many_threads tid c1"
    using oldest.make_room_returns [OF assms] by blast
  obtain ok2 c2 fr2 where l2: "make_room (thread_full tid) (evict_oldest_deferred_in_thread tid ?b) msg c1 = Some (ok2, c2, fr2)"
    "buffer_ok c2" "keeps_requests ?b c1 c2" "ok2 \<longrightarrow> \<not> thread_full tid c2"
    using in_thread.make_room_returns [OF l1(2)] by blast
  obtain ok3 c3 fr3 where l3: "make_room (bytes_full n) (evict_oldest_deferred ?b) msg c2 = Some (ok3, c3, fr3)"
    "buffer_ok c3" "keeps_requests ?b c2 c3" "ok3 \<longrightarrow> \<not> bytes_full n c3"
    using oldest.make_room_returns [OF l2(2)] by blast
  have k2: "keeps_requests ?b c0 c2" using oldest.kept_trans l1(3) l2(3) .
  have k3: "keeps_requests ?b c0 c3" using oldest.kept_trans k2 l3(3) .
  have room: "ok1 \<Longrightarrow> \<not> too_many_threads tid c3" "ok2 \<Longrightarrow> \<not> thread_full tid c3"
    using l1(4) l2(3,4) l3(3) unfolding keeps_requests_def by blast+
  show ?thesis
  proof (cases "ok1 \<and> ok2")
    case True
    then have "three_loops tid msg n c0 = Some (ok3, c3, fr1 @ fr2 @ fr3)"
      using l1(1) l2(1) l3(1) by (simp add: three_loops_def room_then_def)
    then show ?thesis using l3 k3 room True by blast
  next
    case False
    show ?thesis
    proof (cases ok1)
      case True
      then have "three_loops tid msg n c0 = Some (False, c2, fr1 @ fr2)"
        using False l1(1) l2(1) by (simp add: three_loops_def room_then_def)
      then show ?thesis using l2 k2 by blast
    next
      case False
      then have "three_loops tid msg n c0 = Some (False, c1, fr1)"
        using l1(1) by (simp add: three_loops_def room_then_def)
      then show ?thesis using l1 by blast
    qed
  qed
qed

lemma defer_eq:
  "defer_thread_message jtext now tid msg c =
     (let (c0, fr0) = expire_deferred_messages now c; n = payload_size jtext msg in
      if MAX_DEFERRED_PAYLOAD_BYTES < n then
        Some (False, c0, fr0 @ reject_deferred_interactive msg ''Interactive request exceeds buffer limit'')
      else map_option (\<lambda>(ok, c', fr). (ok, if ok then push_deferred now tid msg n c' else c', fr0 @ fr))
             (three_loops tid msg n c0))"
  by (simp only: defer_thread_message_def three_loops_def Let_def)

lemma waiting_push: "waiting_requests c \<subseteq> waiting_requests (push_deferred now tid msg n c)"
  if "distinct (map fst (cx_deferred c))"
proof
  fix y assume "y \<in> waiting_requests c"
  then obtain t e q where y: "y = (t, e)" "(t, q) \<in> set (cx_deferred c)" "e \<in> set q" "is_interactive_msg (de_message e)"
    by (auto simp: waiting_requests_def all_deferred_iff)
  have "\<exists>q'. (t, q') \<in> set (cx_deferred (push_deferred now tid msg n c)) \<and> e \<in> set q'"
  proof (cases "t = tid")
    case True
    then have "map_of (cx_deferred c) tid = Some q" using y that by simp
    then show ?thesis using y True by (auto simp: push_deferred_def set_hm_insert [OF that])
  next
    case False
    then show ?thesis using y by (auto simp: push_deferred_def set_hm_insert [OF that])
  qed
  then show "y \<in> waiting_requests (push_deferred now tid msg n c)"
    using y by (auto simp: waiting_requests_def all_deferred_iff)
qed

section \<open>The properties of the driver\<close>

lemma defer_returns:
  assumes "buffer_ok c" "cx_next_deferred_sequence c + 1 < 2 ^ 64"
  shows "\<exists>ok c' fr. defer_thread_message jtext now tid msg c = Some (ok, c', fr) \<and> buffer_ok c'
     \<and> (ok \<longrightarrow> (\<exists>q e. map_of (cx_deferred c') tid = Some (q @ [e]) \<and> de_message e = msg))
     \<and> cx_next_deferred_sequence c' \<le> cx_next_deferred_sequence c + 1"
proof -
  obtain c0 fr0 where e: "expire_deferred_messages now c = (c0, fr0)" by fastforce
  have ok0: "buffer_ok c0" using expire_ok [OF assms(1), of now] e by simp
  have "cx_next_deferred_sequence (fst (remove_all xs r d)) = cx_next_deferred_sequence d" for xs r d
    by (induction xs arbitrary: d)
      (auto simp: remove_deferred_entry_def case_prod_beta Let_def split: option.split)
  then have seq: "cx_next_deferred_sequence c0 = cx_next_deferred_sequence c"
    using e by (metis expire_deferred_messages_def fst_conv)
  then have seq0: "cx_next_deferred_sequence c0 + 1 < 2 ^ 64" using assms(2) by simp
  show ?thesis
  proof (cases "MAX_DEFERRED_PAYLOAD_BYTES < payload_size jtext msg")
    case True
    then obtain fr where "defer_thread_message jtext now tid msg c = Some (False, c0, fr)"
      using e by (simp add: defer_eq)
    then show ?thesis using ok0 seq by auto
  next
    case False
    obtain ok c' fr where l: "three_loops tid msg (payload_size jtext msg) c0 = Some (ok, c', fr)" "buffer_ok c'"
      "keeps_requests (is_interactive_msg msg) c0 c'"
      "ok \<longrightarrow> \<not> too_many_threads tid c' \<and> \<not> thread_full tid c' \<and> \<not> bytes_full (payload_size jtext msg) c'"
      using three_loops_return [OF ok0] by blast
    have n: "cx_next_deferred_sequence c' = cx_next_deferred_sequence c" using l(3) seq by (simp add: keeps_requests_def)
    then have "ok \<Longrightarrow> buffer_ok (push_deferred now tid msg (payload_size jtext msg) c')"
      using l push_ok assms(2) by simp
    then show ?thesis using False e l n assms(2) by (auto simp: defer_eq push_deferred_def)
  qed
qed

text \<open>Deferring a message always returns (the eviction loops terminate) and keeps every bound
  of the buffer: at most 32 threads, 64 messages a thread and 512 KiB in all, with the byte
  counter equal to what is stored; an accepted message is the last of its thread's queue.\<close>

theorem defer_keeps_bounds:
  assumes "buffer_ok c" "cx_next_deferred_sequence c + 1 < 2 ^ 64"
  shows "\<exists>ok c' fr. defer_thread_message jtext now tid msg c = Some (ok, c', fr) \<and> buffer_ok c'
     \<and> (ok \<longrightarrow> (\<exists>q e. map_of (cx_deferred c') tid = Some (q @ [e]) \<and> de_message e = msg))"
  using defer_returns [OF assms] by blast

lemma new_buffer_ok: "buffer_ok codex_new"
  by (simp add: buffer_ok_def codex_new_def total_bytes_def)

theorem defer_keeps_bounds_witness:
  "\<exists>ok c' fr. defer_thread_message (\<lambda>_. []) 0 ''t1'' (Notification ''item/started'' JNull) codex_new
     = Some (ok, c', fr) \<and> buffer_ok c'"
  using defer_keeps_bounds [OF new_buffer_ok, of "\<lambda>_. []" 0 "''t1''" "Notification ''item/started'' JNull"]
  by (auto simp: codex_new_def)

text \<open>A notification never displaces an interactive request: whatever is evicted to make room
  for it, every request that had not expired is still in the buffer, so its server is not left
  without an answer.\<close>

theorem notification_spares_requests:
  assumes "buffer_ok c" "\<not> is_interactive_msg msg"
    and "defer_thread_message jtext now tid msg c = Some (ok, c', fr)"
  shows "waiting_requests (fst (expire_deferred_messages now c)) \<subseteq> waiting_requests c'"
proof -
  obtain c0 fr0 where e: "expire_deferred_messages now c = (c0, fr0)" by fastforce
  have ok0: "buffer_ok c0" using expire_ok [OF assms(1), of now] e by simp
  show ?thesis
  proof (cases "MAX_DEFERRED_PAYLOAD_BYTES < payload_size jtext msg")
    case True
    then show ?thesis using e assms(3) by (simp add: defer_eq)
  next
    case False
    obtain k c1 fr1 where l: "three_loops tid msg (payload_size jtext msg) c0 = Some (k, c1, fr1)" "buffer_ok c1"
      "keeps_requests (is_interactive_msg msg) c0 c1"
      using three_loops_return [OF ok0] by blast
    have "c' = (if k then push_deferred now tid msg (payload_size jtext msg) c1 else c1)"
      using assms(3) False e l(1) by (auto simp: defer_eq)
    moreover have "waiting_requests c0 \<subseteq> waiting_requests c1"
      using l(3) assms(2) by (simp add: keeps_requests_def)
    moreover have "distinct (map fst (cx_deferred c1))" using l(2) by (simp add: buffer_ok_def)
    ultimately have "waiting_requests c0 \<subseteq> waiting_requests c'"
      using subset_trans [OF _ waiting_push [of c1]] by (cases k) auto
    then show ?thesis using e by simp
  qed
qed


definition example_buffer :: codex_app_server where
  "example_buffer = codex_new\<lparr>cx_deferred := [(''t1'', [\<lparr>de_message = Interactive ''item/tool/requestUserInput'' JNull,
     de_received_at = 0, de_sequence = 0, de_payload_bytes = 28\<rparr>])],
     cx_deferred_bytes := 28, cx_next_deferred_sequence := 1\<rparr>"

lemma example_buffer_ok: "buffer_ok example_buffer"
  by (simp add: buffer_ok_def example_buffer_def total_bytes_def queue_bytes_def queue_numbered_def
      MAX_DEFERRED_MESSAGES_PER_THREAD_def MAX_UNCLAIMED_THREADS_def MAX_DEFERRED_PAYLOAD_BYTES_def)

theorem notification_spares_requests_witness:
  "\<exists>ok c' fr. defer_thread_message (\<lambda>_. []) 0 ''t2'' (Notification ''item/started'' JNull) example_buffer
     = Some (ok, c', fr)
     \<and> waiting_requests (fst (expire_deferred_messages 0 example_buffer)) \<subseteq> waiting_requests c'
     \<and> waiting_requests example_buffer \<noteq> {}"
proof -
  have n: "cx_next_deferred_sequence example_buffer + 1 < 2 ^ 64" by (simp add: example_buffer_def)
  obtain ok c' fr where d: "defer_thread_message (\<lambda>_. []) 0 ''t2'' (Notification ''item/started'' JNull) example_buffer
      = Some (ok, c', fr)"
    using defer_returns [OF example_buffer_ok n] by blast
  moreover have "waiting_requests example_buffer \<noteq> {}"
    by (auto simp: waiting_requests_def all_deferred_iff example_buffer_def)
  ultimately show ?thesis
    using notification_spares_requests [OF example_buffer_ok _ d] by auto
qed

text \<open>C32: an answer to an interactive request is framed exactly once: an unknown id or the wrong
  kind changes nothing; otherwise the pending entry goes, the first frame answers the server's
  own request id, and a second answer to it is refused.\<close>

theorem response_framed_once:
  "case frame_response kind rid response c of
     (Inl e, c') \<Rightarrow> c' = c \<and> (\<forall>pr. map_of (cx_pending c) rid = Some pr \<longrightarrow> pr_kind pr \<noteq> kind)
   | (Inr frames, c') \<Rightarrow>
       (\<exists>pr rest. map_of (cx_pending c) rid = Some pr \<and> pr_kind pr = kind
          \<and> frames = JObj [(''jsonrpc'', JStr ''2.0''), (''id'', pr_raw_id pr),
                            (''result'', response_result kind pr response)] # rest)
       \<and> map_of (cx_pending c') = (map_of (cx_pending c))(rid := None)
       \<and> fst (frame_response kind' rid response' c') = Inl (unknown_request rid)"
proof (cases "map_of (cx_pending c) rid")
  case None
  then show ?thesis by (simp add: frame_response_def validate_response_def)
next
  case (Some pr)
  show ?thesis
  proof (cases "pr_kind pr = kind")
    case False
    then show ?thesis using Some by (simp add: frame_response_def validate_response_def)
  next
    case True
    have "cx_pending (snd (frame_interrupt d)) = cx_pending d" for d
      by (simp add: frame_interrupt_def next_id_def split: option.split)
    then show ?thesis
      using Some True by (simp add: frame_response_def validate_response_def Let_def case_prod_beta)
  qed
qed

definition asked :: codex_app_server where
  "asked = codex_new\<lparr>cx_pending := [(''7'', \<lparr>pr_raw_id = JNum (PosInt 7), pr_method = M_CMD_APPROVAL,
     pr_requested_permissions = None, pr_kind = Permission\<rparr>)]\<rparr>"

theorem response_framed_once_witness:
  "\<exists>frames c'. frame_response Permission ''7'' JNull asked = (Inr frames, c')
     \<and> fst (frame_response Permission ''7'' JNull c') = Inl (unknown_request ''7'')"
proof -
  obtain frames c' where f: "frame_response Permission ''7'' JNull asked = (Inr frames, c')"
    by (simp add: asked_def frame_response_def validate_response_def M_CMD_APPROVAL_def M_PERM_APPROVAL_def)
  then show ?thesis
    using response_framed_once [where kind = Permission and rid = "''7''" and response = JNull and c = asked
        and kind' = Permission and response' = JNull] by auto
qed

text \<open>Approvals fail closed: an answer whose behavior is not \<open>allow\<close> grants nothing (an empty
  permission set, or a decision that is not \<open>accept\<close>), and an allowing one grants no more than
  what the server asked for.\<close>

theorem permission_fails_closed:
  "case get_str response ''behavior'' of
     Some b \<Rightarrow>
       if b = ''allow''
       then jget (permission_result pr response) ''permissions'' \<in>
              {None, Some (unwrap_or (pr_requested_permissions pr) (JObj []))}
       else jget (permission_result pr response) ''decision'' \<noteq> Some (JStr ''accept'')
         \<and> jget (permission_result pr response) ''permissions'' \<in> {None, Some (JObj [])}
   | None \<Rightarrow> jget (permission_result pr response) ''decision'' \<noteq> Some (JStr ''accept'')
         \<and> jget (permission_result pr response) ''permissions'' \<in> {None, Some (JObj [])}"
  by (simp add: permission_result_def Let_def split: option.split)

text \<open>The defaults chosen at spawn are sent with the first turn only: afterwards a turn without
  live overrides carries nothing but the thread and the input, so a setting changed meanwhile on
  the server is not silently reverted.\<close>

theorem startup_defaults_sent_once:
  assumes "cx_thread_id c = Some tid"
  shows "\<exists>i input c''. frame_user_turn text' imgs' skills' no_overrides
       (snd (frame_user_turn text imgs skills ov c)) =
     ([rpc_request i ''turn/start'' (JObj [(''threadId'', JStr tid), (''input'', input)])], c'')"
  using assms
  by (simp add: frame_user_turn_def next_id_def Let_def no_overrides_def pick_override_def
      opt_entry_def sandbox_entry_def) blast

theorem startup_defaults_sent_once_witness:
  "\<exists>i input c''. frame_user_turn ''b'' [] [] no_overrides
       (snd (frame_user_turn ''a'' [] [] no_overrides
          (codex_new\<lparr>cx_thread_id := Some ''t1'', cx_add_dirs := [''/x'']\<rparr>))) =
     ([rpc_request i ''turn/start'' (JObj [(''threadId'', JStr ''t1''), (''input'', input)])], c'')"
  by (rule startup_defaults_sent_once) simp

text \<open>The waiters of client requests have ids below the next one.\<close>

definition ids_ok :: "codex_app_server \<Rightarrow> bool" where
  "ids_ok c = (\<forall>i\<in>dom (cx_client_waiters c). i < cx_next_client_id c)"

text \<open>Every tracked request gets an id no earlier request has: the reply of one request can
  never be routed to the waiter of another.\<close>

theorem tracked_ids_fresh:
  assumes "ids_ok c" "frame_tracked rid meth extra c = (frame # frames, c')"
  shows "\<exists>i params. frame = rpc_request i meth params \<and> frames = []
     \<and> cx_client_waiters c i = None \<and> cx_client_waiters c' = (cx_client_waiters c)(i \<mapsto> rid) \<and> ids_ok c'"
proof -
  obtain tid where "cx_thread_id c = Some tid"
    using assms(2) by (auto simp: frame_tracked_def split: option.splits)
  moreover have "cx_client_waiters c (cx_next_client_id c) = None"
    using assms(1) by (auto simp: ids_ok_def)
  moreover obtain params where "frame = rpc_request (cx_next_client_id c) meth params" "frames = []"
    "c' = c\<lparr>cx_next_client_id := cx_next_client_id c + 1,
            cx_client_waiters := (cx_client_waiters c)(cx_next_client_id c \<mapsto> rid)\<rparr>"
    using assms(2) calculation(1) by (auto simp: frame_tracked_def next_id_def Let_def)
  moreover have "ids_ok c'" unfolding ids_ok_def
  proof
    fix i assume i: "i \<in> dom (cx_client_waiters c')"
    have n: "cx_next_client_id c' = cx_next_client_id c + 1"
      and "dom (cx_client_waiters c') = insert (cx_next_client_id c) (dom (cx_client_waiters c))"
      using calculation(5) by simp_all
    then have "i = cx_next_client_id c \<or> i < cx_next_client_id c"
      using i assms(1) unfolding ids_ok_def by (metis insertE)
    then show "i < cx_next_client_id c'" using n by linarith
  qed
  ultimately show ?thesis by auto
qed

theorem tracked_ids_fresh_witness:
  "\<exists>frame c'. frame_tracked ''q1'' ''thread/fork'' [] (codex_new\<lparr>cx_thread_id := Some ''t1''\<rparr>) = ([frame], c')
     \<and> ids_ok c'"
proof -
  obtain frame c' where f: "frame_tracked ''q1'' ''thread/fork'' [] (codex_new\<lparr>cx_thread_id := Some ''t1''\<rparr>) = ([frame], c')"
    by (simp add: frame_tracked_def next_id_def Let_def)
  moreover have "ids_ok (codex_new\<lparr>cx_thread_id := Some ''t1''\<rparr>)" by (simp add: ids_ok_def codex_new_def)
  ultimately show ?thesis using tracked_ids_fresh by blast
qed

end
