(* ===== verification/Protocol_Props.thy ===== *)
theory Protocol_Props
  imports Claude_Protocol
begin

text \<open>
  Properties of the stream-json protocol: whose events they are, the bookkeeping of tool calls,
  the run states and error tracking of a stream, the accumulation of tool inputs, and the
  reported cost.
\<close>

section \<open>Ownership\<close>

definition owned_by :: "string \<Rightarrow> bus_event list \<Rightarrow> bool" where
  "owned_by run_id evs = (\<forall>ev\<in>set evs. event_run_id ev = run_id)"

lemma owned_simps [simp]:
  "owned_by r []"
  "owned_by r (ev # evs) = (event_run_id ev = r \<and> owned_by r evs)"
  "owned_by r (xs @ ys) = (owned_by r xs \<and> owned_by r ys)"
  by (auto simp: owned_by_def)

lemma owned_filter_map:
  assumes "\<And>x ev. f x = Some ev \<Longrightarrow> event_run_id ev = r"
  shows "owned_by r (filter_map f xs)"
  using assms by (induction xs) (auto split: option.splits)

named_theorems arm_defs
declare on_system_init_def [arm_defs] on_system_def [arm_defs] on_system_hook_response_def [arm_defs]
  on_content_block_start_def [arm_defs] on_content_block_delta_def [arm_defs]
  on_input_json_delta_def [arm_defs] on_result_def [arm_defs] on_result_usage_def [arm_defs]

lemma on_system_owned: "owned_by r (snd (on_system r raw p))"
  by (simp add: arm_defs session_init_event_def Let_def)

lemma on_block_start_owned: "owned_by r (snd (on_content_block_start r raw parent p))"
  by (simp add: arm_defs Let_def split: option.split)

lemma on_block_delta_owned: "owned_by r (snd (on_content_block_delta r raw parent p))"
  by (simp add: arm_defs Let_def split: option.split)

lemma assistant_block_owned: "owned_by r (snd (snd (assistant_block r parent b p)))"
  by (simp add: assistant_block_def Let_def split: option.split)

lemma assistant_blocks_owned: "owned_by r (snd (snd (assistant_blocks r parent bs p)))"
  by (induction bs arbitrary: p) (simp_all add: case_prod_beta Let_def assistant_block_owned)

lemma on_assistant_owned: "owned_by r (snd (on_assistant fresh r raw parent p))"
  by (simp add: on_assistant_def Let_def case_prod_beta assistant_blocks_owned split: option.split)

lemma tool_result_owned: "tool_result_event r tur parent p b = Some ev \<Longrightarrow> event_run_id ev = r"
  by (auto simp: tool_result_event_def Let_def split: if_splits)

lemma on_user_owned: "owned_by r (snd (on_user r raw parent p))"
  by (simp add: on_user_def Let_def owned_filter_map [OF tool_result_owned] split: option.split)

lemma denied_owned: "permission_denied_event r d = Some ev \<Longrightarrow> event_run_id ev = r"
  by (auto simp: permission_denied_event_def Let_def split: if_splits)

lemma on_result_owned: "owned_by r (snd (on_result r raw p))"
  by (simp add: arm_defs result_usage_event_def Let_def case_prod_beta
      owned_filter_map [OF denied_owned] split: option.split)

lemma map_event_inner_owned: "owned_by r (snd (map_event_inner fresh r raw parent p))"
  by (simp add: map_event_inner_def Let_def on_system_owned on_block_start_owned
      on_block_delta_owned on_assistant_owned on_user_owned on_result_owned
      rejected_tool_event_def tool_progress_event_def tool_use_summary_event_def
      protocol_rate_limit_event_def)


section \<open>Relations along a stream\<close>

text \<open>
  A relation between the state before, the events and the state after, that holds for one raw
  event and composes, holds for a whole stream.
\<close>

locale stream_relation =
  fixes run_id :: string
    and R :: "protocol_state \<Rightarrow> bus_event list \<Rightarrow> protocol_state \<Rightarrow> bool"
  assumes no_event: "R p [] p"
    and seq: "R p xs q \<Longrightarrow> R q ys r \<Longrightarrow> R p (xs @ ys) r"
    and one: "R p (snd (map_event fresh run_id raw p)) (fst (map_event fresh run_id raw p))"
begin

lemma stream: "R p (snd (map_events fresh n run_id raws p)) (fst (map_events fresh n run_id raws p))"
proof (induction raws arbitrary: n p)
  case (Cons raw raws)
  show ?case using seq [OF one Cons.IH] by (simp add: case_prod_beta Let_def)
next
  case Nil
  show ?case using no_event by simp
qed

end

text \<open>The envelope only sets a flag.\<close>

lemma map_event_unwraps:
  obtains raw' parent b where
    "map_event fresh r raw p = map_event_inner fresh r raw' parent (p\<lparr>seen_stream_event_envelope := b\<rparr>)"
proof -
  have p: "\<exists>b. p = p\<lparr>seen_stream_event_envelope := b\<rparr>"
    by (rule exI [of _ "seen_stream_event_envelope p"]) simp
  have "\<exists>raw' parent b. unwrap_envelope raw p = (raw', parent, p\<lparr>seen_stream_event_envelope := b\<rparr>)"
    unfolding unwrap_envelope_def using p by (auto split: option.split)
  then show thesis using that by (auto simp: map_event_def)
qed

interpretation ownership: stream_relation r "\<lambda>p evs q. owned_by r evs" for r
proof
  fix fresh raw p
  show "owned_by r (snd (map_event fresh r raw p))"
    by (rule map_event_unwraps [of fresh r raw p]) (simp add: map_event_inner_owned)
qed auto

section \<open>Tool calls\<close>

text \<open>The ids of the ToolStart events, and the state that knows them.\<close>

fun tool_start_id :: "bus_event \<Rightarrow> string option" where
  "tool_start_id (ToolStart r tid n i parent) = Some tid"
| "tool_start_id _ = None"

definition started :: "bus_event list \<Rightarrow> string list" where
  "started evs = filter_map tool_start_id evs"

lemma filter_map_app [simp]: "filter_map f (xs @ ys) = filter_map f xs @ filter_map f ys"
  by (simp add: filter_map_def List.map_filter_def)

lemma started_simps [simp]:
  "started [] = []"
  "started (ev # evs) = (case tool_start_id ev of None \<Rightarrow> started evs | Some t \<Rightarrow> t # started evs)"
  "started (xs @ ys) = started xs @ started ys"
  by (simp_all add: started_def split: option.split)

lemma started_filter_map:
  assumes "\<And>x ev. f x = Some ev \<Longrightarrow> tool_start_id ev = None"
  shows "started (filter_map f xs) = []"
  using assms by (induction xs) (auto split: option.splits)

abbreviation known_tools :: "protocol_state \<Rightarrow> string set" where
  "known_tools p \<equiv> dom (emitted_tool_ids p)"

text \<open>Known tools stay known, and every tool that is started becomes known.\<close>

definition tools_grow :: "protocol_state \<Rightarrow> bus_event list \<Rightarrow> protocol_state \<Rightarrow> bool" where
  "tools_grow p evs q = (known_tools q = known_tools p \<union> set (started evs))"

lemma tools_grow_simps [simp]:
  "emitted_tool_ids q = emitted_tool_ids p \<Longrightarrow> tools_grow p [] q"
  "emitted_tool_ids q = emitted_tool_ids p \<Longrightarrow> tool_start_id ev = None \<Longrightarrow> tools_grow p [ev] q"
  by (simp_all add: tools_grow_def)

lemma assistant_block_tools:
  "tools_grow p (snd (snd (assistant_block r parent b p))) (fst (assistant_block r parent b p))
   \<and> distinct (started (snd (snd (assistant_block r parent b p))))
   \<and> set (started (snd (snd (assistant_block r parent b p)))) \<inter> known_tools p = {}"
  by (auto simp: assistant_block_def tools_grow_def Let_def split: option.split)

lemma assistant_blocks_tools:
  "tools_grow p (snd (snd (assistant_blocks r parent bs p))) (fst (assistant_blocks r parent bs p))
   \<and> distinct (started (snd (snd (assistant_blocks r parent bs p))))
   \<and> set (started (snd (snd (assistant_blocks r parent bs p)))) \<inter> known_tools p = {}"
proof (induction bs arbitrary: p)
  case (Cons b bs)
  show ?case
    using assistant_block_tools [of p r parent b] Cons.IH [of "fst (assistant_block r parent b p)"]
    by (auto simp: tools_grow_def case_prod_beta Let_def)
qed (simp add: tools_grow_def)

lemma on_assistant_tools:
  "tools_grow p (snd (on_assistant fresh r raw parent p)) (fst (on_assistant fresh r raw parent p))
   \<and> distinct (started (snd (on_assistant fresh r raw parent p)))
   \<and> set (started (snd (on_assistant fresh r raw parent p))) \<inter> known_tools p = {}"
  using assistant_blocks_tools [of p r parent]
  by (simp add: on_assistant_def Let_def case_prod_beta split: option.split)
    (simp add: tools_grow_def)

lemma tool_result_no_start: "tool_result_event r tur parent p b = Some ev \<Longrightarrow> tool_start_id ev = None"
  by (auto simp: tool_result_event_def Let_def split: if_splits)

lemma denied_no_start: "permission_denied_event r d = Some ev \<Longrightarrow> tool_start_id ev = None"
  by (auto simp: permission_denied_event_def Let_def split: if_splits)

lemma on_result_usage_frame [simp]:
  "emitted_tool_ids (fst (on_result_usage r raw p)) = emitted_tool_ids p"
  "input_json_accum (fst (on_result_usage r raw p)) = input_json_accum p"
  "got_result_event (fst (on_result_usage r raw p)) = got_result_event p"
  "result_subtype (fst (on_result_usage r raw p)) = result_subtype p"
  "is_resume (fst (on_result_usage r raw p)) = is_resume p"
  "seen_first_init (fst (on_result_usage r raw p)) = seen_first_init p"
  "started (snd (on_result_usage r raw p)) = []"
  by (simp_all add: on_result_usage_def set_pending_slash_command_def split: option.split)

lemma map_event_inner_tools:
  "tools_grow p (snd (map_event_inner fresh r raw parent p)) (fst (map_event_inner fresh r raw parent p))"
proof -
  have "tools_grow p (snd (on_system r raw p)) (fst (on_system r raw p))"
    by (simp add: arm_defs tools_grow_def Let_def count_unknown_def set_pending_slash_command_def)
  moreover have "tools_grow p (snd (on_content_block_start r raw parent p)) (fst (on_content_block_start r raw parent p))"
    by (simp add: arm_defs tools_grow_def Let_def split: option.split)
  moreover have "tools_grow p (snd (on_content_block_delta r raw parent p)) (fst (on_content_block_delta r raw parent p))"
    by (simp add: arm_defs tools_grow_def Let_def split: option.split)
  moreover have "tools_grow p (snd (on_user r raw parent p)) (fst (on_user r raw parent p))"
    by (simp add: on_user_def tools_grow_def Let_def set_pending_slash_command_def
        started_filter_map [OF tool_result_no_start] split: option.split)
  moreover have "tools_grow p (snd (on_result r raw p)) (fst (on_result r raw p))"
    by (simp add: on_result_def tools_grow_def Let_def case_prod_beta
        started_filter_map [OF denied_no_start] split: option.split)
  ultimately show ?thesis
    using on_assistant_tools [of p fresh r raw parent]
    by (simp add: map_event_inner_def Let_def count_unknown_def rejected_tool_event_def tool_progress_event_def tool_use_summary_event_def
        protocol_rate_limit_event_def)
qed

interpretation tools: stream_relation r tools_grow for r
proof
  fix fresh raw p
  show "tools_grow p (snd (map_event fresh r raw p)) (fst (map_event fresh r raw p))"
    using map_event_inner_tools
    by (rule_tac map_event_unwraps [of fresh r raw p]) (simp add: tools_grow_def)
qed (auto simp: tools_grow_def)

section \<open>Run states\<close>

fun run_state_of :: "bus_event \<Rightarrow> string option" where
  "run_state_of (RunState r st code err) = Some st"
| "run_state_of _ = None"

definition states_of :: "bus_event list \<Rightarrow> string list" where
  "states_of evs = filter_map run_state_of evs"

lemma states_of_simps [simp]:
  "states_of [] = []"
  "states_of (ev # evs) = (case run_state_of ev of None \<Rightarrow> states_of evs | Some t \<Rightarrow> t # states_of evs)"
  "states_of (xs @ ys) = states_of xs @ states_of ys"
  by (simp_all add: states_of_def split: option.split)

lemma states_of_filter_map:
  assumes "\<And>x ev. f x = Some ev \<Longrightarrow> run_state_of ev = None"
  shows "states_of (filter_map f xs) = []"
  using assms by (induction xs) (auto split: option.splits)

text \<open>The \<open>running\<close> events a stream may still emit.\<close>

definition running_budget :: "protocol_state \<Rightarrow> nat" where
  "running_budget p = (if seen_first_init p \<or> is_resume p then 0 else 1)"

definition spends_running :: "protocol_state \<Rightarrow> bus_event list \<Rightarrow> protocol_state \<Rightarrow> bool" where
  "spends_running p evs q =
     (count_list (states_of evs) ''running'' + running_budget q = running_budget p
      \<and> set (states_of evs) \<subseteq> {''running'', ''idle''})"

lemma spends_running_simps [simp]:
  "seen_first_init q = seen_first_init p \<Longrightarrow> is_resume q = is_resume p \<Longrightarrow> spends_running p [] q"
  "seen_first_init q = seen_first_init p \<Longrightarrow> is_resume q = is_resume p \<Longrightarrow> run_state_of ev = None
   \<Longrightarrow> spends_running p [ev] q"
  by (simp_all add: spends_running_def running_budget_def)

lemma assistant_blocks_states:
  "states_of (snd (snd (assistant_blocks r parent bs p))) = []
   \<and> seen_first_init (fst (assistant_blocks r parent bs p)) = seen_first_init p
   \<and> is_resume (fst (assistant_blocks r parent bs p)) = is_resume p
   \<and> got_result_event (fst (assistant_blocks r parent bs p)) = got_result_event p
   \<and> result_subtype (fst (assistant_blocks r parent bs p)) = result_subtype p"
  by (induction bs arbitrary: p)
    (simp_all add: assistant_block_def case_prod_beta Let_def split: option.split)

lemma tool_result_no_state: "tool_result_event r tur parent p b = Some ev \<Longrightarrow> run_state_of ev = None"
  by (auto simp: tool_result_event_def Let_def split: if_splits)

lemma denied_no_state: "permission_denied_event r d = Some ev \<Longrightarrow> run_state_of ev = None"
  by (auto simp: permission_denied_event_def Let_def split: if_splits)

lemma on_result_usage_states [simp]: "states_of (snd (on_result_usage r raw p)) = []"
  by (simp add: on_result_usage_def split: option.split)

lemma map_event_inner_running:
  "spends_running p (snd (map_event_inner fresh r raw parent p)) (fst (map_event_inner fresh r raw parent p))"
proof -
  have "spends_running p (snd (on_system_init r raw p)) (fst (on_system_init r raw p))"
    by (simp add: on_system_init_def spends_running_def running_budget_def Let_def)
  then have "spends_running p (snd (on_system r raw p)) (fst (on_system r raw p))"
    by (simp add: on_system_def on_system_hook_response_def Let_def count_unknown_def
        set_pending_slash_command_def)
  moreover have "spends_running p (snd (on_content_block_start r raw parent p)) (fst (on_content_block_start r raw parent p))"
    by (simp add: on_content_block_start_def Let_def split: option.split)
  moreover have "spends_running p (snd (on_content_block_delta r raw parent p)) (fst (on_content_block_delta r raw parent p))"
    by (simp add: on_content_block_delta_def on_input_json_delta_def Let_def split: option.split)
  moreover have "spends_running p (snd (on_assistant fresh r raw parent p)) (fst (on_assistant fresh r raw parent p))"
    using assistant_blocks_states [of r parent]
    by (simp add: on_assistant_def spends_running_def running_budget_def Let_def case_prod_beta
        split: option.split)
  moreover have "spends_running p (snd (on_user r raw parent p)) (fst (on_user r raw parent p))"
    by (simp add: on_user_def spends_running_def running_budget_def Let_def
        set_pending_slash_command_def states_of_filter_map [OF tool_result_no_state] split: option.split)
  moreover have "spends_running p (snd (on_result r raw p)) (fst (on_result r raw p))"
    by (simp add: on_result_def spends_running_def running_budget_def Let_def case_prod_beta
        states_of_filter_map [OF denied_no_state] split: option.split)
  ultimately show ?thesis
    by (simp add: map_event_inner_def Let_def count_unknown_def rejected_tool_event_def tool_progress_event_def tool_use_summary_event_def
        protocol_rate_limit_event_def)
qed

interpretation running: stream_relation r spends_running for r
proof
  fix fresh raw p
  have "running_budget (p\<lparr>seen_stream_event_envelope := b\<rparr>) = running_budget p" for b
    by (simp add: running_budget_def)
  then show "spends_running p (snd (map_event fresh r raw p)) (fst (map_event fresh r raw p))"
    using map_event_inner_running
    by (rule_tac map_event_unwraps [of fresh r raw p]) (auto simp: spends_running_def)
qed (auto simp: spends_running_def)


section \<open>Error tracking\<close>

text \<open>The error flag and the recorded subtype go together, and the subtype is an error's.\<close>

fun tracks :: "bool \<Rightarrow> string option \<Rightarrow> bool" where
  "tracks got None = (\<not> got)"
| "tracks got (Some s) = (got \<and> starts_with s ''error'')"

definition tracking_ok :: "protocol_state \<Rightarrow> bool" where
  "tracking_ok p = tracks (got_result_event p) (result_subtype p)"

lemma tracking_ok_cong:
  "got_result_event q = got_result_event p \<Longrightarrow> result_subtype q = result_subtype p
   \<Longrightarrow> tracking_ok q = tracking_ok p"
  by (simp add: tracking_ok_def)

lemma map_event_inner_tracking:
  assumes "tracking_ok p"
  shows "tracking_ok (fst (map_event_inner fresh r raw parent p))"
proof -
  have eq: "tracking_ok (fst (on_system r raw p)) = tracking_ok p"
    "tracking_ok (fst (on_content_block_start r raw parent p)) = tracking_ok p"
    "tracking_ok (fst (on_content_block_delta r raw parent p)) = tracking_ok p"
    "tracking_ok (fst (on_assistant fresh r raw parent p)) = tracking_ok p"
    "tracking_ok (fst (on_user r raw parent p)) = tracking_ok p"
    subgoal by (rule tracking_ok_cong) (simp_all add: on_system_def on_system_init_def Let_def
        count_unknown_def set_pending_slash_command_def)
    subgoal by (rule tracking_ok_cong) (simp_all add: on_content_block_start_def Let_def split: option.split)
    subgoal by (rule tracking_ok_cong)
      (simp_all add: on_content_block_delta_def on_input_json_delta_def Let_def split: option.split)
    subgoal by (rule tracking_ok_cong)
      (use assistant_blocks_states [of r parent] in
        \<open>simp_all add: on_assistant_def Let_def case_prod_beta split: option.split\<close>)
    subgoal by (rule tracking_ok_cong)
      (simp_all add: on_user_def Let_def set_pending_slash_command_def split: option.split)
    done
  have "tracking_ok (fst (on_result_usage r raw p))"
    using assms tracking_ok_cong [of "fst (on_result_usage r raw p)" p] by simp
  then have "tracking_ok (fst (on_result r raw p))"
    by (simp add: on_result_def Let_def case_prod_beta) (simp add: tracking_ok_def)
  then show ?thesis
    using assms eq
    by (simp add: map_event_inner_def Let_def) (simp add: count_unknown_def tracking_ok_def)
qed

interpretation tracking: stream_relation r "\<lambda>p evs q. tracking_ok p \<longrightarrow> tracking_ok q" for r
proof
  fix fresh raw p
  show "tracking_ok p \<longrightarrow> tracking_ok (fst (map_event fresh r raw p))"
  proof
    assume p: "tracking_ok p"
    then have "tracking_ok (p\<lparr>seen_stream_event_envelope := b\<rparr>)" for b by (simp add: tracking_ok_def)
    then show "tracking_ok (fst (map_event fresh r raw p))"
      by (rule_tac map_event_unwraps [of fresh r raw p]) (simp add: map_event_inner_tracking)
  qed
qed auto

section \<open>Results\<close>

lemma on_result_shape:
  "\<exists>evs err. snd (on_result r raw p) = evs @ [RunState r ''idle'' None err] \<and> states_of evs = []
     \<and> (err \<noteq> None \<longleftrightarrow> starts_with (str_field raw ''subtype'') ''error'')"
proof -
  let ?evs = "snd (on_result_usage r raw p)
    @ (case get_array raw ''permission_denials'' of None \<Rightarrow> []
       | Some ds \<Rightarrow> filter_map (permission_denied_event r) ds)"
  let ?err = "if starts_with (str_field raw ''subtype'') ''error'' then Some (result_error_message raw) else None"
  have "snd (on_result r raw p) = ?evs @ [RunState r ''idle'' None ?err]"
    by (simp add: on_result_def Let_def case_prod_beta)
  moreover have "states_of ?evs = []"
    by (simp add: states_of_filter_map [OF denied_no_state] split: option.split)
  moreover have "?err \<noteq> None \<longleftrightarrow> starts_with (str_field raw ''subtype'') ''error''" by simp
  ultimately show ?thesis by blast
qed

section \<open>Tool inputs\<close>

fun input_delta_of :: "string \<Rightarrow> bus_event \<Rightarrow> string option" where
  "input_delta_of tid (ToolInputDelta r t partial parent) = (if t = tid then Some partial else None)"
| "input_delta_of tid _ = None"

text \<open>Consecutive deltas of the tool that was started last.\<close>

fun input_deltas ::
  "string \<Rightarrow> string option \<Rightarrow> string list \<Rightarrow> protocol_state \<Rightarrow> protocol_state \<times> bus_event list" where
  "input_deltas r parent [] p = (p, [])"
| "input_deltas r parent (x # xs) p =
     (let (p1, es1) = on_input_json_delta r x parent p; (p2, es2) = input_deltas r parent xs p1
      in (p2, es1 @ es2))"

lemma input_deltas_accumulate:
  assumes "last_tool_use_id p = Some tid" "input_json_accum p tid = Some acc"
  shows "input_json_accum (fst (input_deltas r parent xs p)) tid = Some (acc @ concat xs)
         \<and> concat (filter_map (input_delta_of tid) (snd (input_deltas r parent xs p))) = concat xs"
  using assms
  by (induction xs arbitrary: p acc) (simp_all add: on_input_json_delta_def case_prod_beta Let_def)


section \<open>Tagged text\<close>

lemma str_find_skip:
  assumes "p \<noteq> []" "hd p \<notin> set pre"
  shows "str_find (pre @ s) p = map_option ((+) (length pre)) (str_find s p)"
  using assms(2)
proof (induction pre)
  case Nil
  show ?case by (simp add: option.map_ident)
next
  case (Cons c pre)
  have "\<not> starts_with ((c # pre) @ s) p"
    using assms(1) Cons.prems by (cases p) (auto simp: starts_with_def)
  then show ?case using Cons by (simp add: option.map_comp o_def)
qed

lemma str_find_here: "p \<noteq> [] \<Longrightarrow> str_find (p @ s) p = Some 0"
  by (cases p) (simp_all add: starts_with_def)

lemma extract_between:
  assumes "CHR ''<'' \<notin> set pre" "CHR ''<'' \<notin> set v" "trim v \<noteq> []"
  shows "extract_xml_tag (pre @ (''<'' @ tag @ ''>'') @ v @ (''</'' @ tag @ ''>'') @ post) tag = Some (trim v)"
proof -
  let ?o = "''<'' @ tag @ ''>''" and ?c = "''</'' @ tag @ ''>''"
  have o: "str_find (pre @ ?o @ v @ ?c @ post) ?o = Some (length pre)"
    using str_find_skip [of ?o pre "?o @ v @ ?c @ post"] str_find_here [of ?o "v @ ?c @ post"] assms(1)
    by simp
  have c: "str_find (v @ ?c @ post) ?c = Some (length v)"
    using str_find_skip [of ?c v "?c @ post"] str_find_here [of ?c post] assms(2) by simp
  have d: "drop (length pre + length ?o) (pre @ ?o @ v @ ?c @ post) = v @ ?c @ post"
    by simp
  show ?thesis
    unfolding extract_xml_tag_def Let_def o
    using c assms(3) by (simp only: option.case d) simp
qed

section \<open>Costs\<close>

lemma recalculated_cost: "mu_cost_usd (snd (recalculate_entry (m, e))) =
    estimate_cost m (mu_input_tokens e) (mu_output_tokens e) (mu_cache_read_tokens e) (mu_cache_write_tokens e)"
  by (simp add: recalculate_entry_def)


section \<open>The properties of the protocol\<close>

text \<open>Every event mapped from a stream read for a run carries that run's id.\<close>

theorem stream_events_owned:
  "owned_by run_id (snd (map_events fresh n run_id raws p))"
  by (rule ownership.stream)

text \<open>C36: over a whole stream the tools known to the state are exactly those known before plus
  those a ToolStart event announced: no tool is forgotten, none is known silently.\<close>

theorem stream_tools_known:
  "known_tools (fst (map_events fresh n run_id raws p))
     = known_tools p \<union> set (started (snd (map_events fresh n run_id raws p)))"
  using tools.stream [of p fresh n run_id raws] by (simp add: tools_grow_def)

text \<open>A complete assistant message never announces a tool again that streaming already
  announced, nor one tool twice.\<close>

theorem assistant_announces_once:
  "distinct (started (snd (on_assistant fresh run_id raw parent p)))
   \<and> set (started (snd (on_assistant fresh run_id raw parent p))) \<inter> known_tools p = {}"
  using on_assistant_tools [of p fresh run_id raw parent] by blast

text \<open>A session's stream reports \<open>running\<close> at most once, a resumed session never, and the
  parser emits no run state but \<open>running\<close> and \<open>idle\<close> (terminal states are the actor's).\<close>

theorem running_at_most_once:
  "count_list (states_of (snd (map_events fresh n run_id raws (protocol_new resume)))) ''running''
     \<le> (if resume then 0 else 1)
   \<and> set (states_of (snd (map_events fresh n run_id raws (protocol_new resume)))) \<subseteq> {''running'', ''idle''}"
  using running.stream [of "protocol_new resume" fresh n run_id raws]
  by (auto simp: spends_running_def running_budget_def protocol_new_def split: if_splits)

text \<open>Whatever a stream contains, the error flag is set exactly when an error subtype is
  recorded, and the recorded subtype starts with \<open>error\<close>: finalising a run can rely on either.\<close>

theorem error_tracking_consistent:
  "tracking_ok (fst (map_events fresh n run_id raws (protocol_new resume)))"
  using tracking.stream [of "protocol_new resume" fresh n run_id raws]
  by (simp add: tracking_ok_def protocol_new_def)

text \<open>A result event ends with exactly one run state, \<open>idle\<close>, which is its last event and
  carries an error exactly for an error subtype; the flag for the end of the run is set with it.\<close>

theorem result_ends_turn:
  assumes "str_field raw ''type'' = ''result''"
  shows "\<exists>evs err. snd (map_event fresh run_id raw p) = evs @ [RunState run_id ''idle'' None err]
     \<and> states_of evs = []
     \<and> (err \<noteq> None \<longleftrightarrow> starts_with (str_field raw ''subtype'') ''error'')
     \<and> (err \<noteq> None \<longrightarrow> got_result_event (fst (map_event fresh run_id raw p)))"
proof -
  have m: "map_event fresh run_id raw p = on_result run_id raw p"
    using assms by (simp add: map_event_def unwrap_envelope_def map_event_inner_def)
  have "starts_with (str_field raw ''subtype'') ''error'' \<longrightarrow> got_result_event (fst (on_result run_id raw p))"
    by (simp add: on_result_def Let_def case_prod_beta)
  then show ?thesis using on_result_shape [of run_id raw p] by (auto simp: m)
qed

definition example_result :: json where
  "example_result = JObj [(''type'', JStr ''result''), (''subtype'', JStr ''error_during_execution''),
     (''error'', JStr ''boom'')]"

theorem result_ends_turn_witness:
  "\<exists>evs err. snd (map_event [] ''r1'' example_result (protocol_new False))
       = evs @ [RunState ''r1'' ''idle'' None err] \<and> states_of evs = [] \<and> err \<noteq> None"
proof -
  have "str_field example_result ''type'' = ''result''"
    and e: "starts_with (str_field example_result ''subtype'') ''error''"
    by (simp_all add: example_result_def str_field_def starts_with_def)
  from result_ends_turn [OF this(1), of "[]" "''r1''" "protocol_new False"] e show ?thesis by blast
qed

text \<open>The input of the tool that was started last is accumulated from its deltas without
  loss: the buffer ends with the concatenation of the partial texts, and the deltas shown to the
  user concatenate to the same text.\<close>

theorem tool_input_accumulates:
  assumes "last_tool_use_id p = Some tid" "input_json_accum p tid = Some acc"
  shows "input_json_accum (fst (input_deltas run_id parent xs p)) tid = Some (acc @ concat xs)
         \<and> concat (filter_map (input_delta_of tid) (snd (input_deltas run_id parent xs p))) = concat xs"
  using assms by (rule input_deltas_accumulate)

theorem tool_input_accumulates_witness:
  "input_json_accum (fst (input_deltas ''r1'' None [''{a'', [], ''b}'']
     ((protocol_new False)\<lparr>last_tool_use_id := Some ''t1'', input_json_accum := [''t1'' \<mapsto> []]\<rparr>))) ''t1''
   = Some ''{ab}''"
  using tool_input_accumulates
    [of "(protocol_new False)\<lparr>last_tool_use_id := Some ''t1'', input_json_accum := [''t1'' \<mapsto> []]\<rparr>"
      "''t1''" "[]" "''r1''" None "[''{a'', [], ''b}'']"]
  by simp

text \<open>When a third-party model took part, every entry is priced from the table, the reported
  total is their sum and is not negative, and no token count changes.\<close>

theorem third_party_cost_is_sum:
  assumes "list_ex (\<lambda>(m, e). is_third_party m) mu"
  shows "\<exists>mu'. reported_cost cli (Some mu) = (sum_list (map (\<lambda>(m, e). mu_cost_usd e) mu'), Some mu')
     \<and> map fst mu' = map fst mu
     \<and> map (\<lambda>(m, e). e\<lparr>mu_cost_usd := 0\<rparr>) mu' = map (\<lambda>(m, e). e\<lparr>mu_cost_usd := 0\<rparr>) mu
     \<and> 0 \<le> fst (reported_cost cli (Some mu))"
proof -
  let ?mu = "map recalculate_entry mu"
  have "0 \<le> estimate_cost m i w r c" for m i w r c
    using compute_cost_mono [OF sane_get_pricing [of m], of 0 i 0 w 0 r 0 c]
    by (simp add: estimate_cost_def compute_cost_def)
  then have "\<forall>c\<in>set (map (\<lambda>(m, e). mu_cost_usd e) ?mu). 0 \<le> c"
    by (auto simp: recalculate_entry_def)
  then have "0 \<le> sum_list (map (\<lambda>(m, e). mu_cost_usd e) ?mu)" by (intro sum_list_nonneg) auto
  moreover have "map fst ?mu = map fst mu" by (auto simp: recalculate_entry_def)
  moreover have "map (\<lambda>(m, e). e\<lparr>mu_cost_usd := 0\<rparr>) ?mu = map (\<lambda>(m, e). e\<lparr>mu_cost_usd := 0\<rparr>) mu"
    by (auto simp: recalculate_entry_def)
  ultimately show ?thesis using assms by (auto simp: reported_cost_def Let_def)
qed

definition example_usage :: "(string \<times> model_usage_entry) list" where
  "example_usage = [(''kimi-k2'', parse_model_usage_entry (JObj [(''inputTokens'', JNum (PosInt 1000))]))]"

theorem third_party_cost_is_sum_witness:
  "0 \<le> fst (reported_cost 7 (Some example_usage))"
proof -
  have "list_ex (\<lambda>(m, e). is_third_party m) example_usage"
    by (simp add: example_usage_def is_third_party_def str_contains_def starts_with_def)
  from third_party_cost_is_sum [OF this, of 7] show ?thesis by blast
qed

text \<open>The text between an opening and a closing tag comes back trimmed.\<close>

theorem xml_tag_roundtrip:
  assumes "CHR ''<'' \<notin> set pre" "CHR ''<'' \<notin> set v" "trim v \<noteq> []"
  shows "extract_xml_tag (pre @ (''<'' @ tag @ ''>'') @ v @ (''</'' @ tag @ ''>'') @ post) tag = Some (trim v)"
  using assms by (rule extract_between)

theorem xml_tag_roundtrip_witness:
  "extract_xml_tag (''x '' @ (''<'' @ ''status'' @ ''>'') @ '' done '' @ (''</'' @ ''status'' @ ''>'') @ ''y'') ''status''
   = Some (trim '' done '') \<and> trim '' done '' \<noteq> []"
proof -
  have t: "trim '' done '' \<noteq> []" by code_simp
  then show ?thesis using xml_tag_roundtrip [of "''x ''" "'' done ''" "''status''" "''y''"] by simp
qed

end
