(* ===== verification/Actor_Effects.thy ===== *)
theory Actor_Effects
  imports Actor_State
begin

text \<open>
  The effects of the session actor: writing JSON lines to the child's stdin, persisting and
  emitting events (\<open>BroadcastEmitter\<close>), updating the run's metadata, RunState emission with
  identity dedup, and writing user messages in either transport.
\<close>

section \<open>Writing to stdin\<close>

definition write_json_line ::
  "world \<Rightarrow> string \<Rightarrow> json \<Rightarrow> actor \<Rightarrow> (string + unit) \<times> actor" where
  "write_json_line w ctx payload a =
     (if \<not> a_stdin a then (Inl ''stdin closed'', a)
      else
        let n = x_io a; a1 = a\<lparr>x_io := Suc n\<rparr> in
        case w_write w n of
          Some e \<Rightarrow> (Inl (ctx @ '' write failed: '' @ e), a1)
        | None \<Rightarrow>
            let a2 = a1\<lparr>x_wire := x_wire a1 @ [payload]\<rparr> in
            (case w_flush w n of
               Some e \<Rightarrow> (Inl (ctx @ '' flush failed: '' @ e), a2)
             | None \<Rightarrow> (Inr (), a2)))"

text \<open>Several lines with \<open>?\<close> after each: the first failure stops.\<close>

fun write_json_lines ::
  "world \<Rightarrow> string \<Rightarrow> json list \<Rightarrow> actor \<Rightarrow> (string + unit) \<times> actor" where
  "write_json_lines w ctx [] a = (Inr (), a)"
| "write_json_lines w ctx (v # vs) a =
     (case write_json_line w ctx v a of
        (Inl e, a1) \<Rightarrow> (Inl e, a1)
      | (Inr _, a1) \<Rightarrow> write_json_lines w ctx vs a1)"

text \<open>Several lines whose failures are only logged.\<close>

definition write_json_lines_log :: "world \<Rightarrow> string \<Rightarrow> json list \<Rightarrow> actor \<Rightarrow> actor" where
  "write_json_lines_log w ctx vs a = fold (\<lambda>v a. snd (write_json_line w ctx v a)) vs a"

definition write_control_response ::
  "world \<Rightarrow> string \<Rightarrow> json \<Rightarrow> actor \<Rightarrow> (string + unit) \<times> actor" where
  "write_control_response w request_id response a =
     write_json_line w ''control response'' (build_control_response request_id (Inr response)) a"

definition write_control_response_error ::
  "world \<Rightarrow> string \<Rightarrow> string \<Rightarrow> actor \<Rightarrow> (string + unit) \<times> actor" where
  "write_control_response_error w request_id error a =
     write_json_line w ''control response (error)'' (build_control_response request_id (Inl error)) a"

section \<open>Events\<close>

definition persist_and_emit_durable ::
  "world \<Rightarrow> bus_event \<Rightarrow> actor \<Rightarrow> (string + unit) \<times> actor" where
  "persist_and_emit_durable w ev a =
     (let n = x_io a; a1 = a\<lparr>x_io := Suc n\<rparr> in
      case w_persist w n of
        Some e \<Rightarrow> (Inl e, a1)
      | None \<Rightarrow> (Inr (), a1\<lparr>x_log := x_log a1 @ [ev], x_emitted := x_emitted a1 @ [ev]\<rparr>))"

text \<open>When persisting fails the event still reaches the webview.\<close>

definition persist_and_emit :: "world \<Rightarrow> bus_event \<Rightarrow> actor \<Rightarrow> actor" where
  "persist_and_emit w ev a =
     (case persist_and_emit_durable w ev a of
        (Inr _, a1) \<Rightarrow> a1
      | (Inl e, a1) \<Rightarrow> a1\<lparr>x_emitted := x_emitted a1 @ [ev]\<rparr>)"

definition emit_realtime :: "bus_event \<Rightarrow> actor \<Rightarrow> actor" where
  "emit_realtime ev a = a\<lparr>x_realtime := x_realtime a @ [ev]\<rparr>"

definition notify :: "actor \<Rightarrow> actor" where
  "notify a = a\<lparr>x_notified := Suc (x_notified a)\<rparr>"

definition reply :: "nat \<Rightarrow> reply_value \<Rightarrow> actor \<Rightarrow> actor" where
  "reply ch v a = a\<lparr>x_replies := x_replies a @ [(ch, v)]\<rparr>"

section \<open>Metadata\<close>

definition on_store ::
  "(save_env \<Rightarrow> meta_store \<Rightarrow> (string + unit) \<times> meta_store) \<Rightarrow> world \<Rightarrow> actor
   \<Rightarrow> (string + unit) \<times> actor" where
  "on_store f w a =
     (case f (w_save w (x_io a)) (x_store a) of
        (r, st) \<Rightarrow> (r, a\<lparr>x_store := st, x_io := Suc (x_io a)\<rparr>))"

definition meta_update_status ::
  "world \<Rightarrow> nat \<Rightarrow> run_status \<Rightarrow> int option \<Rightarrow> string option \<Rightarrow> actor \<Rightarrow> (string + unit) \<times> actor" where
  "meta_update_status w now status exit_code err a =
     on_store (\<lambda>se. update_status se (w_iso w now) (a_run_id a) status exit_code err) w a"

definition meta_persist_result_error ::
  "world \<Rightarrow> string option \<Rightarrow> string option \<Rightarrow> actor \<Rightarrow> actor" where
  "meta_persist_result_error w err subtype a =
     snd (on_store (\<lambda>se. persist_result_error se (a_run_id a) err subtype) w a)"

definition meta_clear_result_error :: "world \<Rightarrow> actor \<Rightarrow> actor" where
  "meta_clear_result_error w a =
     snd (on_store (\<lambda>se. clear_result_error_if_present se (a_run_id a)) w a)"

definition with_own_meta :: "world \<Rightarrow> (run_meta \<Rightarrow> run_meta) \<Rightarrow> actor \<Rightarrow> actor" where
  "with_own_meta w f a = snd (on_store (\<lambda>se. with_meta se (a_run_id a) f) w a)"

definition finalize_run_meta :: "string \<Rightarrow> int option \<Rightarrow> run_meta \<Rightarrow> run_meta" where
  "finalize_run_meta now exit_code m =
     (let had_result_error =
            (case m_result_subtype m of None \<Rightarrow> False | Some s \<Rightarrow> starts_with s ''error'');
          terminal_status = (if had_result_error then Failed
                             else if exit_code = Some 0 then Completed else Failed)
      in m\<lparr>m_status := terminal_status, m_exit_code := exit_code,
           m_ended_at := (case m_ended_at m of None \<Rightarrow> Some now | Some t \<Rightarrow> Some t)\<rparr>)"

definition finalize_meta :: "world \<Rightarrow> nat \<Rightarrow> int option \<Rightarrow> actor \<Rightarrow> actor" where
  "finalize_meta w now exit_code a = with_own_meta w (finalize_run_meta (w_iso w now) exit_code) a"

text \<open>Only Running to Idle and Idle to Running are persisted.\<close>

definition idle_running_allowed :: "run_status \<Rightarrow> run_status \<Rightarrow> bool" where
  "idle_running_allowed from_status target =
     ((from_status = Running \<and> target = Idle) \<or> (from_status = Idle \<and> target = Running))"

definition persist_idle_running :: "world \<Rightarrow> nat \<Rightarrow> run_status \<Rightarrow> actor \<Rightarrow> actor" where
  "persist_idle_running w now target a =
     (case get_run (x_store a) (a_run_id a) of
        None \<Rightarrow> a
      | Some m \<Rightarrow>
          if \<not> idle_running_allowed (m_status m) target then a
          else (case meta_update_status w now target None None a of
                  (Inl e, a1) \<Rightarrow> a1
                | (Inr _, a1) \<Rightarrow> a1\<lparr>x_status_changed := x_status_changed a1 @ [target]\<rparr>))"

section \<open>RunState emission\<close>

definition emit_state_meta ::
  "world \<Rightarrow> nat \<Rightarrow> string \<Rightarrow> int option \<Rightarrow> string option \<Rightarrow> actor \<Rightarrow> actor" where
  "emit_state_meta w now new_state exit_code error a =
     (let a1 = (case map_state_to_run_status new_state of
                  None \<Rightarrow> a
                | Some status \<Rightarrow>
                    snd (meta_update_status w now status exit_code
                           (if new_state = ''failed'' then error else None) a))
      in if new_state = ''failed''
         then meta_persist_result_error w error (result_subtype (a_protocol a1)) a1
         else a1)"

definition emit_state ::
  "world \<Rightarrow> nat \<Rightarrow> string \<Rightarrow> int option \<Rightarrow> string option \<Rightarrow> bool \<Rightarrow> actor \<Rightarrow> actor" where
  "emit_state w now new_state exit_code error update_meta a =
     (if a_state a = new_state then a
      else
        let a1 = a\<lparr>a_state := new_state\<rparr>;
            a2 = persist_and_emit w (RunState (a_run_id a1) new_state exit_code error) a1
        in if update_meta then emit_state_meta w now new_state exit_code error a2 else a2)"

section \<open>Replies of queued messages\<close>

definition fail_all_pending_replies :: "string \<Rightarrow> actor \<Rightarrow> actor" where
  "fail_all_pending_replies reason a =
     (fold (\<lambda>t. reply (tk_reply t) (ReplyUnit (Inl reason))) (a_queued_user a) a)
       \<lparr>a_queued_user := [], a_queued_internal := [], a_must_run_internal_for_turn := None\<rparr>"

section \<open>User messages\<close>

text \<open>
  The Codex path: save each attachment, collect image paths and breadcrumb lines; \<open>None\<close> is a
  panic while saving.
\<close>

fun codex_attachments ::
  "world \<Rightarrow> nat \<Rightarrow> string \<Rightarrow> nat \<Rightarrow> attachment_data list \<Rightarrow> (nat \<times> string list \<times> string list) option" where
  "codex_attachments w now run_id n [] = Some (n, [], [])"
| "codex_attachments w now run_id n (att # atts) =
     (case save_attachment_to_disk w now (w_uuid w n) run_id att of
        SavePanic \<Rightarrow> None
      | NotSaved \<Rightarrow> codex_attachments w now run_id (Suc n) atts
      | Saved path \<Rightarrow>
          map_option (\<lambda>(m, imgs, crumbs).
             (m, (if starts_with (att_media_type att) ''image/'' then path # imgs else imgs),
              (''- '' @ att_filename att @ '' ('' @ att_media_type att @ '', ''
               @ show_nat (w_file_size w path) @ '' bytes) => '' @ path) # crumbs))
            (codex_attachments w now run_id (Suc n) atts))"

definition codex_augmented :: "string \<Rightarrow> string list \<Rightarrow> string" where
  "codex_augmented text crumbs =
     (if crumbs = [] then text
      else text @ NL @ NL @ ''Attached files:'' @ NL @ str_join NL crumbs @ NL
           @ ''Use these local file paths directly when needed.'')"

definition panic :: "actor \<Rightarrow> actor" where
  "panic a = a\<lparr>x_panicked := True\<rparr>"

definition write_user_codex ::
  "world \<Rightarrow> nat \<Rightarrow> string \<Rightarrow> attachment_data list \<Rightarrow> codex_skill_ref list \<Rightarrow> codex_app_server \<Rightarrow> actor
   \<Rightarrow> (string + string) \<times> actor" where
  "write_user_codex w now text atts skills codex a =
     (case codex_attachments w now (a_run_id a) (x_uuids a) atts of
        None \<Rightarrow> (Inl ''panic'', panic a)
      | Some (n, imgs, crumbs) \<Rightarrow>
          (case frame_user_turn (codex_augmented text crumbs) imgs skills (a_codex_overrides a) codex of
             (frames, codex') \<Rightarrow>
               (case write_json_lines w ''codex turn/start'' frames
                       (a\<lparr>a_codex := Some codex', x_uuids := n\<rparr>) of
                  (Inl e, a1) \<Rightarrow> (Inl e, a1)
                | (Inr _, a1) \<Rightarrow>
                    (Inr (w_uuid w (x_uuids a1)), a1\<lparr>x_uuids := Suc (x_uuids a1)\<rparr>))))"

definition write_user_claude ::
  "world \<Rightarrow> nat \<Rightarrow> string \<Rightarrow> attachment_data list \<Rightarrow> actor \<Rightarrow> (string + string) \<times> actor" where
  "write_user_claude w now text atts a =
     (if \<not> a_stdin a then (Inl ''stdin closed'', a)
      else case build_user_payload w now (a_run_id a) (x_uuids a) text atts of
        None \<Rightarrow> (Inl ''panic'', panic a)
      | Some (n, payload, user_uuid) \<Rightarrow>
          (case write_json_line w ''stdin'' payload (a\<lparr>x_uuids := n\<rparr>) of
             (Inl e, a1) \<Rightarrow> (Inl e, a1)
           | (Inr _, a1) \<Rightarrow> (Inr user_uuid, a1)))"

definition write_user_to_stdin ::
  "world \<Rightarrow> nat \<Rightarrow> string \<Rightarrow> attachment_data list \<Rightarrow> codex_skill_ref list \<Rightarrow> actor
   \<Rightarrow> (string + string) \<times> actor" where
  "write_user_to_stdin w now text atts skills a =
     (case a_codex a of
        Some codex \<Rightarrow> write_user_codex w now text atts skills codex a
      | None \<Rightarrow> write_user_claude w now text atts a)"

text \<open>The interrupt of a quarantine; its outcome is only logged.\<close>

definition interrupt_payload :: "string \<Rightarrow> json" where
  "interrupt_payload request_id =
     JObj [(''type'', JStr ''control_request''), (''request_id'', JStr request_id),
           (''request'', JObj [(''subtype'', JStr ''interrupt'')])]"

definition send_interrupt_to_cli :: "world \<Rightarrow> actor \<Rightarrow> actor" where
  "send_interrupt_to_cli w a =
     (let request_id = ''ocv_qint_'' @ w_uuid w (x_uuids a);
          a1 = a\<lparr>x_uuids := Suc (x_uuids a)\<rparr>
      in snd (write_json_line w ''interrupt'' (interrupt_payload request_id) a1))"

definition is_internal_turn :: "actor \<Rightarrow> bool" where
  "is_internal_turn a =
     (case a_active_turn a of None \<Rightarrow> False | Some t \<Rightarrow> is_internal_origin (at_origin t))"

definition set_slash :: "string option \<Rightarrow> actor \<Rightarrow> actor" where
  "set_slash cmd a = a\<lparr>a_protocol := set_pending_slash_command cmd (a_protocol a)\<rparr>"

text \<open>\<open>got\_result\_event = false; result\_subtype = None\<close>.\<close>

definition clear_result_tracking :: "actor \<Rightarrow> actor" where
  "clear_result_tracking a =
     a\<lparr>a_protocol := (a_protocol a)\<lparr>got_result_event := False, result_subtype := None\<rparr>\<rparr>"

end
