(* ===== verification/Actor_Turns.thy ===== *)
theory Actor_Turns
  imports Actor_Effects
begin

text \<open>
  The turn transaction engine of the session actor: enqueueing and dispatching turns, the Ralph
  loop, the end of a turn, and the timeout clock with its quarantine
  (\<open>session\_actor.rs\<close>, from \<open>handle\_send\_message\<close> to \<open>on\_tick\_timeout\<close>).
\<close>

section \<open>Ralph loop steps\<close>

definition update_ralph :: "(ralph_loop_state \<Rightarrow> ralph_loop_state) \<Rightarrow> actor \<Rightarrow> actor" where
  "update_ralph f a = a\<lparr>a_ralph_loop := map_option f (a_ralph_loop a)\<rparr>"

definition emit_ralph_complete :: "world \<Rightarrow> ralph_complete_reason \<Rightarrow> actor \<Rightarrow> actor" where
  "emit_ralph_complete w reason a =
     (let iteration = (case a_ralph_loop a of None \<Rightarrow> 0 | Some r \<Rightarrow> rl_iteration r) in
      persist_and_emit w (RalphComplete (a_run_id a) reason iteration) (a\<lparr>a_ralph_loop := None\<rparr>))"

definition ralph_backoff :: "nat \<Rightarrow> nat" where
  "ralph_backoff failures = 2 * failures * 1000"

text \<open>A failed write of the prompt counts as a failed attempt.\<close>

definition ralph_write_failed :: "world \<Rightarrow> nat \<Rightarrow> actor \<Rightarrow> actor" where
  "ralph_write_failed w now a =
     (case a_ralph_loop a of
        None \<Rightarrow> a
      | Some r \<Rightarrow>
          let n = Suc (rl_consecutive_failures r); r1 = r\<lparr>rl_consecutive_failures := n\<rparr> in
          if rl_max_consecutive_failures r \<le> n
          then emit_ralph_complete w FailStopped (a\<lparr>a_ralph_loop := Some r1\<rparr>)
          else a\<lparr>a_ralph_loop := Some (r1\<lparr>rl_retry_after := Some (now + ralph_backoff n),
                                          rl_phase := RWaitingRetry\<rparr>)\<rparr>)"

definition new_turn :: "nat \<Rightarrow> turn_origin \<Rightarrow> nat \<Rightarrow> nat \<Rightarrow> nat \<Rightarrow> nat \<Rightarrow> active_turn" where
  "new_turn sq origin now soft hard idx =
     \<lparr>at_seq = sq, at_origin = origin, at_phase = Active, at_started = now,
      at_soft = now + soft, at_hard = now + hard, at_index = idx\<rparr>"

text \<open>What a user or Ralph turn does once its message is written.\<close>

definition announce_turn :: "world \<Rightarrow> nat \<Rightarrow> string \<Rightarrow> string \<Rightarrow> actor \<Rightarrow> actor" where
  "announce_turn w now text user_uuid a =
     (let a1 = persist_and_emit w (UserMessage (a_run_id a) text (Some user_uuid) None) a;
          a2 = clear_result_tracking a1;
          a3 = emit_state w now ''running'' None None False a2
      in persist_idle_running w now Running a3)"

definition user_hard :: "actor \<Rightarrow> nat" where
  "user_hard a = (case a_user_hard_timeout a of None \<Rightarrow> USER_HARD_TIMEOUT | Some d \<Rightarrow> d)"

definition start_ralph_turn :: "world \<Rightarrow> nat \<Rightarrow> string \<Rightarrow> actor \<Rightarrow> actor" where
  "start_ralph_turn w now prompt a =
     (let turn_index = a_next_turn_index a; sq = a_next_turn_seq a;
          a1 = update_ralph (\<lambda>r. r\<lparr>rl_turn_toplevel_texts := []\<rparr>)
                 (a\<lparr>a_next_turn_index := Suc turn_index, a_next_turn_seq := Suc sq\<rparr>)
      in case write_user_to_stdin w now prompt [] [] a1 of
           (Inl e, a2) \<Rightarrow> ralph_write_failed w now a2
         | (Inr user_uuid, a2) \<Rightarrow>
             let a3 = announce_turn w now prompt user_uuid a2 in
             a3\<lparr>a_active_turn :=
                  Some (new_turn sq Ralph now USER_SOFT_TIMEOUT (user_hard a3) turn_index)\<rparr>)"

section \<open>Starting user and internal turns\<close>

fun slash_of_kind :: "user_turn_kind \<Rightarrow> string option" where
  "slash_of_kind (Slash command) = Some command"
| "slash_of_kind (Normal n) = None"

definition start_user_turn :: "world \<Rightarrow> nat \<Rightarrow> user_ticket \<Rightarrow> actor \<Rightarrow> actor" where
  "start_user_turn w now t a =
     (let a1 = set_slash (slash_of_kind (tk_kind t)) a in
      case write_user_to_stdin w now (tk_text t) (tk_attachments t) (tk_skills t) a1 of
        (Inl e, a2) \<Rightarrow> if x_panicked a2 then a2 else reply (tk_reply t) (ReplyUnit (Inl e)) a2
      | (Inr user_uuid, a2) \<Rightarrow>
          let a3 = announce_turn w now (tk_text t) user_uuid a2;
              a4 = reply (tk_reply t) (ReplyUnit (Inr ())) a3 in
          a4\<lparr>a_active_turn :=
               Some (new_turn (tk_seq t) (User (tk_kind t)) now USER_SOFT_TIMEOUT (user_hard a4)
                       (tk_index t))\<rparr>)"

definition start_internal_turn :: "world \<Rightarrow> nat \<Rightarrow> internal_job \<Rightarrow> actor \<Rightarrow> actor" where
  "start_internal_turn w now job a =
     (let a1 = set_slash (Some ''/context'') a in
      case write_user_to_stdin w now ''/context'' [] [] a1 of
        (Inl e, a2) \<Rightarrow> set_slash None (a2\<lparr>a_must_run_internal_for_turn := None\<rparr>)
      | (Inr user_uuid, a2) \<Rightarrow>
          a2\<lparr>a_active_turn :=
               Some (new_turn (ij_seq job) (Internal (ij_kind job)) now INTERNAL_SOFT_TIMEOUT
                       INTERNAL_HARD_TIMEOUT (ij_index job)),
             a_active_extractor :=
               Some \<lparr>ex_run_id = a_run_id a2, ex_index = ij_index job, ex_captured = False\<rparr>,
             a_last_auto_context_for := Some (ij_auto_ctx_id job),
             a_must_run_internal_for_turn := None\<rparr>)"

section \<open>Dispatch\<close>

text \<open>The first queued job for the barrier's turn, and the queue without it.\<close>

fun take_job :: "nat \<Rightarrow> internal_job list \<Rightarrow> (internal_job \<times> internal_job list) option" where
  "take_job idx [] = None"
| "take_job idx (j # js) =
     (if ij_index j = idx then Some (j, js)
      else map_option (\<lambda>(x, rest). (x, j # rest)) (take_job idx js))"

definition barrier_job :: "actor \<Rightarrow> (internal_job \<times> internal_job list) option" where
  "barrier_job a =
     (case a_must_run_internal_for_turn a of
        None \<Rightarrow> None
      | Some idx \<Rightarrow> take_job idx (a_queued_internal a))"

fun paused_phase :: "ralph_phase \<Rightarrow> ralph_phase" where
  "paused_phase RRunning = RPausedByUser RRunning"
| "paused_phase RWaitingRetry = RPausedByUser RWaitingRetry"
| "paused_phase ph = ph"

definition pause_ralph :: "actor \<Rightarrow> actor" where
  "pause_ralph a = update_ralph (\<lambda>r. r\<lparr>rl_phase := paused_phase (rl_phase r)\<rparr>) a"

text \<open>The Ralph part of the dispatcher: \<open>None\<close> when the loop has nothing to start now.\<close>

definition dispatch_ralph :: "world \<Rightarrow> nat \<Rightarrow> actor \<Rightarrow> actor option" where
  "dispatch_ralph w now a =
     (case a_ralph_loop a of
        None \<Rightarrow> None
      | Some r \<Rightarrow>
          (case rl_phase r of
             RRunning \<Rightarrow> Some (start_ralph_turn w now (rl_prompt r) a)
           | RWaitingRetry \<Rightarrow>
               (case rl_retry_after r of
                  None \<Rightarrow> None
                | Some deadline \<Rightarrow>
                    if deadline \<le> now then
                      Some (start_ralph_turn w now (rl_prompt r)
                        (update_ralph (\<lambda>r. r\<lparr>rl_phase := RRunning, rl_retry_after := None\<rparr>) a))
                    else None)
           | _ \<Rightarrow> None))"

definition dispatch_gate :: "actor \<Rightarrow> bool" where
  "dispatch_gate a =
     (a_active_turn a = None \<and> \<not> a_quarantine a \<and> \<not> a_terminated a
      \<and> (a_codex a = None \<or> a_codex_ready a))"

definition try_dispatch :: "world \<Rightarrow> nat \<Rightarrow> actor \<Rightarrow> actor" where
  "try_dispatch w now a =
     (if \<not> dispatch_gate a then a
      else case barrier_job a of
        Some (job, rest) \<Rightarrow> start_internal_turn w now job (a\<lparr>a_queued_internal := rest\<rparr>)
      | None \<Rightarrow>
          (case (a_must_run_internal_for_turn a, a_queued_user a) of
             (None, t # ts) \<Rightarrow> start_user_turn w now t (pause_ralph (a\<lparr>a_queued_user := ts\<rparr>))
           | _ \<Rightarrow>
               (case dispatch_ralph w now a of
                  Some a' \<Rightarrow> a'
                | None \<Rightarrow>
                    (case a_queued_internal a of
                       [] \<Rightarrow> a
                     | job # jobs \<Rightarrow>
                         start_internal_turn w now job (a\<lparr>a_queued_internal := jobs\<rparr>)))))"

definition handle_send_message ::
  "world \<Rightarrow> nat \<Rightarrow> string \<Rightarrow> attachment_data list \<Rightarrow> codex_skill_ref list \<Rightarrow> nat \<Rightarrow> actor \<Rightarrow> actor" where
  "handle_send_message w now text atts skills ch a =
     (if a_terminated a then reply ch (ReplyUnit (Inl ''Session terminated'')) a
      else
        let trimmed = trim text; turn_index = a_next_turn_index a; sq = a_next_turn_seq a;
            is_slash = starts_with trimmed ''/'';
            kind = (if is_slash then Slash trimmed else Normal (a_next_auto_ctx_id a));
            ticket = \<lparr>tk_seq = sq, tk_text = text, tk_attachments = atts, tk_skills = skills,
                      tk_kind = kind, tk_index = turn_index, tk_reply = ch\<rparr> in
        try_dispatch w now
          (a\<lparr>a_next_turn_index := Suc turn_index,
             a_next_auto_ctx_id := (if is_slash then a_next_auto_ctx_id a else Suc (a_next_auto_ctx_id a)),
             a_next_turn_seq := Suc sq,
             a_queued_user := a_queued_user a @ [ticket]\<rparr>))"

section \<open>The end of a turn\<close>

definition end_turn_and_dispatch :: "world \<Rightarrow> nat \<Rightarrow> actor \<Rightarrow> actor" where
  "end_turn_and_dispatch w now a =
     try_dispatch w now (set_slash None (a\<lparr>a_active_turn := None, a_active_extractor := None\<rparr>))"

definition on_user_turn_finished :: "active_turn \<Rightarrow> actor \<Rightarrow> actor" where
  "on_user_turn_finished turn a =
     (case at_origin turn of
        User (Normal auto_ctx_id) \<Rightarrow> a\<lparr>a_last_auto_context_for := Some auto_ctx_id\<rparr>
      | _ \<Rightarrow> a)"

definition promise_matched :: "ralph_loop_state \<Rightarrow> string \<Rightarrow> bool" where
  "promise_matched r promise =
     list_ex (\<lambda>text. extract_promise_tag text = Some promise) (rl_turn_toplevel_texts r)"

definition natural_reason :: "ralph_loop_state \<Rightarrow> ralph_complete_reason option" where
  "natural_reason r =
     (if 0 < rl_max_iterations r \<and> rl_max_iterations r \<le> rl_iteration r then Some MaxIterations
      else case rl_completion_promise r of
        None \<Rightarrow> None
      | Some promise \<Rightarrow> if promise_matched r promise then Some CompletionPromise else None)"

datatype ralph_action =
    RComplete ralph_complete_reason
  | REmitIteration nat nat
  | RSetWaitingRetry nat
  | RResumeFrom ralph_phase
  | RNoop

text \<open>Step 1 of \<open>ralph\_on\_turn\_end\<close>: the updated loop state and the action to run.\<close>

definition ralph_turn_action ::
  "ralph_loop_state \<Rightarrow> turn_origin \<Rightarrow> bool \<Rightarrow> ralph_loop_state \<times> ralph_action" where
  "ralph_turn_action r origin turn_failed =
     (case origin of
        Ralph \<Rightarrow>
          let is_cancel_pending = (rl_phase r = RCancelPending) in
          if turn_failed then
            (if is_cancel_pending then (r, RComplete Cancelled)
             else
               let n = Suc (rl_consecutive_failures r); r1 = r\<lparr>rl_consecutive_failures := n\<rparr> in
               if rl_max_consecutive_failures r \<le> n then (r1, RComplete FailStopped)
               else (r1, RSetWaitingRetry (ralph_backoff n)))
          else
            let r1 = r\<lparr>rl_consecutive_failures := 0, rl_iteration := Suc (rl_iteration r)\<rparr> in
            (case natural_reason r1 of
               Some reason \<Rightarrow> (r1, RComplete reason)
             | None \<Rightarrow>
                 if is_cancel_pending then (r1, RComplete Cancelled)
                 else (r1, REmitIteration (rl_iteration r1) (rl_max_iterations r1)))
      | User k \<Rightarrow>
          (case rl_phase r of
             RPausedByUser was \<Rightarrow> (r, RResumeFrom was)
           | _ \<Rightarrow> (r, RNoop))
      | Internal k \<Rightarrow> (r, RNoop))"

definition ralph_execute :: "world \<Rightarrow> nat \<Rightarrow> ralph_action \<Rightarrow> actor \<Rightarrow> actor" where
  "ralph_execute w now act a =
     (case act of
        RComplete reason \<Rightarrow> emit_ralph_complete w reason a
      | REmitIteration i m \<Rightarrow> persist_and_emit w (RalphIteration (a_run_id a) i m) a
      | RSetWaitingRetry backoff \<Rightarrow>
          update_ralph (\<lambda>r. r\<lparr>rl_phase := RWaitingRetry, rl_retry_after := Some (now + backoff)\<rparr>) a
      | RResumeFrom ph \<Rightarrow> update_ralph (\<lambda>r. r\<lparr>rl_phase := ph\<rparr>) a
      | RNoop \<Rightarrow> a)"

definition ralph_on_turn_end :: "world \<Rightarrow> nat \<Rightarrow> turn_origin \<Rightarrow> bool \<Rightarrow> actor \<Rightarrow> actor" where
  "ralph_on_turn_end w now origin turn_failed a =
     (case a_ralph_loop a of
        None \<Rightarrow> a
      | Some r \<Rightarrow>
          (case ralph_turn_action r origin turn_failed of
             (r1, act) \<Rightarrow> ralph_execute w now act (a\<lparr>a_ralph_loop := Some r1\<rparr>)))"

section \<open>The timeout clock\<close>

fun oldest_pending_interactive ::
  "(string \<times> pending_interactive_request) list \<Rightarrow> pending_interactive_request option" where
  "oldest_pending_interactive [] = None"
| "oldest_pending_interactive ((k, r) # rs) =
     (case oldest_pending_interactive rs of
        None \<Rightarrow> Some r
      | Some r' \<Rightarrow> if pi_received_at r \<le> pi_received_at r' then Some r else Some r')"

definition EM_DASH :: string where
  "EM_DASH = map char_of [226 :: nat, 128, 148]"

definition quarantine_error :: "nat \<Rightarrow> actor \<Rightarrow> string" where
  "quarantine_error now a =
     (if a_quarantine_from_internal a then
        ''Auto-context hard timeout '' @ EM_DASH @ '' process killed''
      else case oldest_pending_interactive (a_pending a) of
        Some req \<Rightarrow>
          ''Session timeout '' @ EM_DASH @ '' waited '' @ show_nat ((now - pi_received_at req) div 1000)
          @ ''s for '' @ pi_subtype req @ '' response ('' @ pi_detail req
          @ (if 1 < length (a_pending a)
             then '' +'' @ show_nat (length (a_pending a) - 1) @ '' more pending'' else [])
          @ ''). Process killed.''
      | None \<Rightarrow> ''Session timeout '' @ EM_DASH @ '' no output from CLI for 30 minutes. Process killed.'')"

definition kill_quarantined :: "world \<Rightarrow> nat \<Rightarrow> actor \<Rightarrow> actor" where
  "kill_quarantined w now a =
     (let a1 = set_slash None a;
          a2 = (if a_child a1 then a1\<lparr>x_killed := True\<rparr> else a1);
          a3 = emit_state w now ''failed'' None (Some (quarantine_error now a2)) True a2;
          a4 = fail_all_pending_replies ''Session hard timeout'' a3
      in a4\<lparr>a_terminated := True\<rparr>)"

definition tick_quarantine :: "world \<Rightarrow> nat \<Rightarrow> actor \<Rightarrow> actor" where
  "tick_quarantine w now a =
     (if (case a_quarantine_deadline a of None \<Rightarrow> False | Some d \<Rightarrow> d \<le> now)
      then kill_quarantined w now a
      else if \<not> a_interrupt_sent a then
        (send_interrupt_to_cli w a)\<lparr>a_interrupt_sent := True,
           a_quarantine_deadline := Some (now + QUARANTINE_DEADLINE)\<rparr>
      else a)"

definition tick_idle :: "nat \<Rightarrow> actor \<Rightarrow> actor" where
  "tick_idle now a =
     (case a_ralph_loop a of
        None \<Rightarrow> a
      | Some r \<Rightarrow>
          if rl_phase r = RWaitingRetry
             \<and> (case rl_retry_after r of None \<Rightarrow> False | Some d \<Rightarrow> d \<le> now)
          then a\<lparr>a_ralph_needs_dispatch := True\<rparr> else a)"

definition enter_quarantine :: "bool \<Rightarrow> actor \<Rightarrow> actor" where
  "enter_quarantine from_internal a =
     (set_slash None a)\<lparr>a_active_turn := None, a_quarantine := True, a_interrupt_sent := False,
        a_quarantine_deadline := None, a_quarantine_from_internal := from_internal\<rparr>"

definition tick_internal_turn :: "nat \<Rightarrow> active_turn \<Rightarrow> actor \<Rightarrow> actor" where
  "tick_internal_turn now t a =
     (if at_hard t \<le> now then enter_quarantine True (a\<lparr>a_active_extractor := None\<rparr>)
      else if at_soft t \<le> now \<and> at_phase t = Active
      then a\<lparr>a_active_turn := Some (t\<lparr>at_phase := Draining\<rparr>)\<rparr>
      else a)"

definition tick_user_turn :: "nat \<Rightarrow> active_turn \<Rightarrow> actor \<Rightarrow> actor" where
  "tick_user_turn now t a =
     (if a_user_hard_timeout a \<noteq> None \<and> at_hard t \<le> now then
        (if a_pending a = [] then enter_quarantine False a
         else a\<lparr>a_active_turn := Some (t\<lparr>at_hard := now + USER_HARD_TIMEOUT\<rparr>)\<rparr>)
      else a)"

definition tick_codex :: "world \<Rightarrow> nat \<Rightarrow> actor \<Rightarrow> actor" where
  "tick_codex w now a =
     (case a_codex a of
        None \<Rightarrow> a
      | Some c \<Rightarrow>
          (case expire_deferred now c of
             (c', frames) \<Rightarrow>
               write_json_lines_log w ''expired codex interactive request'' frames
                 (a\<lparr>a_codex := Some c'\<rparr>)))"

definition on_tick_timeout :: "world \<Rightarrow> nat \<Rightarrow> actor \<Rightarrow> actor" where
  "on_tick_timeout w now a0 =
     (let a = tick_codex w now a0 in
      if a_quarantine a then tick_quarantine w now a
      else case a_active_turn a of
        None \<Rightarrow> tick_idle now a
      | Some t \<Rightarrow>
          if is_internal_origin (at_origin t) then tick_internal_turn now t a
          else tick_user_turn now t a)"

text \<open>The tick arm of the main loop: the clock, then the retry of the Ralph loop.\<close>

definition handle_tick :: "world \<Rightarrow> nat \<Rightarrow> actor \<Rightarrow> actor" where
  "handle_tick w now a =
     (let a1 = on_tick_timeout w now a in
      if a_ralph_needs_dispatch a1
      then try_dispatch w now (a1\<lparr>a_ralph_needs_dispatch := False\<rparr>) else a1)"

end
