(* ===== verification/Actor_Control.thy ===== *)
theory Actor_Control
  imports Actor_Turns
begin

text \<open>
  The command handlers of the session actor (\<open>session\_actor.rs\<close>): control requests for either
  transport, stopping, the delivery of the user's answers to interactive requests, cancelling
  such a request, and starting and cancelling the Ralph loop. The receiving half of the oneshot
  channel of a control request goes back to the caller with the reply on its channel \<open>ch\<close>, so
  \<open>ch\<close> also names the waiter.
\<close>

section \<open>Permission modes\<close>

definition map_permission_mode :: "string \<Rightarrow> string" where
  "map_permission_mode mode =
     (if mode = ''ask'' then ''default''
      else if mode = ''auto_read'' then ''acceptEdits''
      else if mode = ''auto_all'' then ''bypassPermissions''
      else if mode = ''auto'' then ''auto''
      else if mode = ''delegate'' then ''acceptEdits''
      else if mode = ''dont_ask'' then ''dontAsk''
      else if mode = ''plan'' then ''plan''
      else mode)"

definition codex_sandbox_for :: "string option \<Rightarrow> string" where
  "codex_sandbox_for perm =
     (if perm = Some ''plan'' then ''read-only''
      else if perm = Some ''bypassPermissions'' \<or> perm = Some ''dontAsk'' then ''danger-full-access''
      else ''workspace-write'')"

definition codex_approval_for :: "string option \<Rightarrow> string" where
  "codex_approval_for perm =
     (if perm = Some ''bypassPermissions'' \<or> perm = Some ''dontAsk'' then ''never'' else ''on-request'')"

section \<open>Control requests\<close>

definition insert_waiter :: "string \<Rightarrow> nat \<Rightarrow> actor \<Rightarrow> actor" where
  "insert_waiter rid ch a = a\<lparr>a_control_waiters := hm_insert rid ch (a_control_waiters a)\<rparr>"

definition send_waiter :: "nat \<Rightarrow> json \<Rightarrow> actor \<Rightarrow> actor" where
  "send_waiter ch v a = a\<lparr>x_waiter_out := x_waiter_out a @ [(ch, v)]\<rparr>"

definition as_result :: "string \<Rightarrow> (string + unit) \<times> actor \<Rightarrow> (string + string) \<times> actor" where
  "as_result rid r = (case r of (Inl e, a) \<Rightarrow> (Inl e, a) | (Inr _, a) \<Rightarrow> (Inr rid, a))"

text \<open>The data-returning subtypes: the tracked frames and the context of their writes.\<close>

definition codex_query ::
  "string \<Rightarrow> json \<Rightarrow> string \<Rightarrow> codex_app_server \<Rightarrow> (string \<times> json list \<times> codex_app_server) option" where
  "codex_query subtype request rid c =
     (if subtype = ''rollback'' then
        Some (''codex thread/rollback'',
              frame_rollback rid (unwrap_or (get_u64 request ''num_turns'') 1) c)
      else if subtype = ''fork'' then Some (''codex thread/fork'', frame_fork rid c)
      else if subtype = ''goal_get'' then Some (''codex thread/goal/get'', frame_goal_get rid c)
      else if subtype = ''mcp_status'' then Some (''codex mcpServerStatus/list'', frame_mcp_status rid c)
      else if subtype = ''skills_list'' then Some (''codex skills/list'', frame_skills_list rid c)
      else if subtype = ''experimental_feature_list'' then
        Some (''codex experimentalFeature/list'', frame_experimental_feature_list rid c)
      else if subtype = ''model_list'' then Some (''codex model/list'', frame_model_list rid c)
      else None)"

definition no_thread_reply :: json where
  "no_thread_reply = JObj [(''ok'', JBool False), (''error'', JStr ''no thread'')]"

definition ok_reply :: json where
  "ok_reply = JObj [(''ok'', JBool True)]"

definition run_codex_query ::
  "world \<Rightarrow> string \<Rightarrow> nat \<Rightarrow> string \<Rightarrow> json list \<Rightarrow> codex_app_server \<Rightarrow> actor
   \<Rightarrow> (string + string) \<times> actor" where
  "run_codex_query w rid ch ctx frames c a =
     (if frames = [] then (Inr rid, send_waiter ch no_thread_reply (a\<lparr>a_codex := Some c\<rparr>))
      else as_result rid
             (write_json_lines w ctx frames (insert_waiter rid ch (a\<lparr>a_codex := Some c\<rparr>))))"

text \<open>The other subtypes: the changed overrides, the frames to write and their context.\<close>

definition codex_set_mode :: "json \<Rightarrow> codex_turn_overrides \<Rightarrow> codex_turn_overrides" where
  "codex_set_mode request ov =
     (case get_str request ''mode'' of
        None \<Rightarrow> ov
      | Some mode \<Rightarrow>
          let cli_mode = map_permission_mode mode in
          ov\<lparr>ov_approval_policy := Some (codex_approval_for (Some cli_mode)),
             ov_sandbox := Some (codex_sandbox_for (Some cli_mode))\<rparr>)"

definition codex_set_overrides ::
  "string \<Rightarrow> json \<Rightarrow> codex_turn_overrides \<Rightarrow> codex_turn_overrides" where
  "codex_set_overrides subtype request ov =
     (if subtype = ''set_permission_mode'' then codex_set_mode request ov
      else if subtype = ''set_model'' then
        (case get_str request ''model'' of None \<Rightarrow> ov | Some m \<Rightarrow> ov\<lparr>ov_model := Some m\<rparr>)
      else if subtype = ''set_effort'' then
        (case get_str request ''effort'' of None \<Rightarrow> ov | Some e \<Rightarrow> ov\<lparr>ov_effort := Some e\<rparr>)
      else ov)"

definition codex_action ::
  "string \<Rightarrow> json \<Rightarrow> string \<Rightarrow> codex_app_server \<Rightarrow> string \<times> json list \<times> codex_app_server" where
  "codex_action subtype request rid c =
     (if subtype = ''interrupt'' then (''codex turn/interrupt'', frame_interrupt c)
      else if subtype = ''steer'' then
        (case get_str request ''text'' of
           None \<Rightarrow> ([], [], c)
         | Some text \<Rightarrow> (''codex turn/steer'', frame_steer text c))
      else if subtype = ''compact'' then (''codex thread/compact/start'', frame_compact rid c)
      else if subtype = ''goal_set'' then
        (''codex thread/goal/set'',
         frame_goal_set rid (get_str request ''objective'') (get_str request ''status'')
           (get_u64 request ''token_budget'') c)
      else if subtype = ''goal_clear'' then (''codex thread/goal/clear'', frame_goal_clear rid c)
      else ([], [], c))"

definition run_codex_action ::
  "world \<Rightarrow> string \<Rightarrow> json \<Rightarrow> string \<Rightarrow> nat \<Rightarrow> codex_app_server \<Rightarrow> actor \<Rightarrow> (string + string) \<times> actor" where
  "run_codex_action w subtype request rid ch c a =
     (case codex_action subtype request rid c of
        (ctx, frames, c') \<Rightarrow>
          (case write_json_lines w ctx frames
                  (a\<lparr>a_codex := Some c',
                     a_codex_overrides := codex_set_overrides subtype request (a_codex_overrides a)\<rparr>) of
             (Inl e, a1) \<Rightarrow> (Inl e, a1)
           | (Inr _, a1) \<Rightarrow> (Inr rid, send_waiter ch ok_reply a1)))"

definition handle_codex_control ::
  "world \<Rightarrow> string \<Rightarrow> json \<Rightarrow> string \<Rightarrow> nat \<Rightarrow> codex_app_server \<Rightarrow> actor \<Rightarrow> (string + string) \<times> actor" where
  "handle_codex_control w subtype request rid ch c a =
     (case codex_query subtype request rid c of
        Some (ctx, frames, c') \<Rightarrow> run_codex_query w rid ch ctx frames c' a
      | None \<Rightarrow> run_codex_action w subtype request rid ch c a)"

definition control_payload :: "string \<Rightarrow> json \<Rightarrow> json" where
  "control_payload rid request =
     JObj [(''type'', JStr ''control_request''), (''request_id'', JStr rid), (''request'', request)]"

definition handle_send_control_async ::
  "world \<Rightarrow> json \<Rightarrow> nat \<Rightarrow> actor \<Rightarrow> (string + string) \<times> actor" where
  "handle_send_control_async w request ch a =
     (let rid = ''ocv_ctrl_'' @ w_uuid w (x_uuids a);
          a0 = a\<lparr>x_uuids := Suc (x_uuids a)\<rparr>;
          subtype = unwrap_or (get_str request ''subtype'') [] in
      case a_codex a0 of
        Some c \<Rightarrow> handle_codex_control w subtype request rid ch c a0
      | None \<Rightarrow>
          let a1 = (if subtype = ''interrupt'' then a0\<lparr>a_pending_interrupt := True\<rparr> else a0) in
          as_result rid
            (write_json_line w ''control request'' (control_payload rid request)
               (insert_waiter rid ch a1)))"

section \<open>Stopping\<close>

text \<open>Closing stdin and reaping the child; a child is reaped at most once.\<close>

definition handle_stop :: "actor \<Rightarrow> actor" where
  "handle_stop a =
     (if a_child a then a\<lparr>a_stdin := False, x_killed := True\<rparr> else a\<lparr>a_stdin := False\<rparr>)"

section \<open>Answers to interactive requests\<close>

definition persist_interaction_started ::
  "world \<Rightarrow> string \<Rightarrow> string \<Rightarrow> string option \<Rightarrow> actor \<Rightarrow> (string + unit) \<times> actor" where
  "persist_interaction_started w rid ikind resolution a =
     persist_and_emit_durable w (InteractionResponseStarted (a_run_id a) rid ikind resolution) a"

definition persist_interaction_failed ::
  "world \<Rightarrow> string \<Rightarrow> string \<Rightarrow> string \<Rightarrow> actor \<Rightarrow> (string + unit) \<times> actor" where
  "persist_interaction_failed w rid ikind error a =
     persist_and_emit_durable w
       (InteractionResponseFailed (a_run_id a) rid ikind (truncate_str error 512)) a"

definition persist_interaction_resolved ::
  "world \<Rightarrow> string \<Rightarrow> string \<Rightarrow> string option \<Rightarrow> actor \<Rightarrow> (string + unit) \<times> actor" where
  "persist_interaction_resolved w rid ikind resolution a =
     persist_and_emit_durable w (InteractionResolved (a_run_id a) rid (Some ikind) resolution) a"

definition write_interactive_response ::
  "world \<Rightarrow> pending_kind \<Rightarrow> string \<Rightarrow> json \<Rightarrow> actor \<Rightarrow> (string + unit) \<times> actor" where
  "write_interactive_response w kind rid response a =
     (case a_codex a of
        None \<Rightarrow> write_control_response w rid response a
      | Some c \<Rightarrow>
          (case frame_response kind rid response c of
             (Inl e, c') \<Rightarrow> (Inl e, a\<lparr>a_codex := Some c'\<rparr>)
           | (Inr frames, c') \<Rightarrow>
               write_json_lines w ''codex interactive response'' frames (a\<lparr>a_codex := Some c'\<rparr>)))"

definition clear_pending_interactive_request :: "string \<Rightarrow> actor \<Rightarrow> actor" where
  "clear_pending_interactive_request rid a = a\<lparr>a_pending := hm_remove rid (a_pending a)\<rparr>"

definition not_started :: "string \<Rightarrow> string" where
  "not_started e = ''[interaction:not_started] '' @ e"

definition delivery_failed :: "string \<Rightarrow> string + unit \<Rightarrow> string" where
  "delivery_failed e durable =
     ''[interaction:delivery_failed] '' @ e
     @ (case durable of Inr _ \<Rightarrow> [] | Inl pe \<Rightarrow> ''; failed to persist response failure: '' @ pe)"

definition check_pending_kind :: "pending_kind \<Rightarrow> string \<Rightarrow> actor \<Rightarrow> string + unit" where
  "check_pending_kind kind rid a =
     (case a_codex a of
        Some c \<Rightarrow>
          (case validate_response kind rid c of Inl e \<Rightarrow> Inl (not_started e) | Inr _ \<Rightarrow> Inr ())
      | None \<Rightarrow>
          (case map_of (a_pending a) rid of
             None \<Rightarrow> Inl (not_started ''no pending interactive request'')
           | Some p \<Rightarrow>
               if pi_kind p \<noteq> kind
               then Inl (not_started (''unknown or mismatched interactive request_id '' @ rid))
               else Inr ()))"

definition deliver_interaction_response ::
  "world \<Rightarrow> pending_kind \<Rightarrow> string \<Rightarrow> string \<Rightarrow> string option \<Rightarrow> json \<Rightarrow> actor
   \<Rightarrow> (string + unit) \<times> actor" where
  "deliver_interaction_response w kind rid ikind resolution response a =
     (case check_pending_kind kind rid a of
        Inl e \<Rightarrow> (Inl e, a)
      | Inr _ \<Rightarrow>
          (case persist_interaction_started w rid ikind resolution a of
             (Inl e, a1) \<Rightarrow> (Inl (not_started e), a1)
           | (Inr _, a1) \<Rightarrow>
               (case write_interactive_response w kind rid response
                       (clear_pending_interactive_request rid a1) of
                  (Inl e, a2) \<Rightarrow>
                    (case persist_interaction_failed w rid ikind e a2 of
                       (d, a3) \<Rightarrow> (Inl (delivery_failed e d), a3))
                | (Inr _, a2) \<Rightarrow>
                    (case persist_interaction_resolved w rid ikind resolution a2 of
                       (Inl e, a3) \<Rightarrow> (Inl (''[interaction:delivery_unknown] '' @ e), a3)
                     | (Inr _, a3) \<Rightarrow> (Inr (), a3)))))"

text \<open>The tool a permission answer asks to remember.\<close>

definition tool_to_remember :: "string \<Rightarrow> json \<Rightarrow> bool \<Rightarrow> actor \<Rightarrow> string option" where
  "tool_to_remember rid response remember_tool a =
     (if remember_tool \<and> get_str response ''behavior'' = Some ''allow'' then
        map_option pi_detail
          (opt_filter (\<lambda>p. pi_subtype p = ''can_use_tool'') (map_of (a_pending a) rid))
      else None)"

definition remember :: "string option \<Rightarrow> actor \<Rightarrow> actor" where
  "remember tool a =
     (case tool of
        None \<Rightarrow> a
      | Some t \<Rightarrow> a\<lparr>a_remembered_tools := List.insert t (a_remembered_tools a)\<rparr>)"

definition handle_respond_permission ::
  "world \<Rightarrow> string \<Rightarrow> json \<Rightarrow> bool \<Rightarrow> actor \<Rightarrow> (string + unit) \<times> actor" where
  "handle_respond_permission w rid response remember_tool a =
     deliver_interaction_response w Permission rid ''permission'' (get_str response ''behavior'')
       response (remember (tool_to_remember rid response remember_tool a) a)"

definition cancel_payload :: "string \<Rightarrow> json" where
  "cancel_payload rid =
     JObj [(''type'', JStr ''control_cancel_request''), (''request_id'', JStr rid)]"

definition cancel_written ::
  "world \<Rightarrow> string \<Rightarrow> string \<Rightarrow> (string + unit) \<times> actor \<Rightarrow> (string + unit) \<times> actor" where
  "cancel_written w rid ikind r =
     (case r of
        (Inl e, a) \<Rightarrow>
          (case persist_interaction_failed w rid ikind e (clear_pending_interactive_request rid a) of
             (d, a1) \<Rightarrow> (Inl (delivery_failed e d), a1))
      | (Inr _, a) \<Rightarrow>
          (case persist_and_emit_durable w (ControlCancelled (a_run_id a) rid)
                  (clear_pending_interactive_request rid a) of
             (Inl e, a1) \<Rightarrow> (Inl (''[interaction:delivery_unknown] '' @ e), a1)
           | (Inr _, a1) \<Rightarrow> (Inr (), a1)))"

definition handle_cancel_control_request ::
  "world \<Rightarrow> string \<Rightarrow> actor \<Rightarrow> (string + unit) \<times> actor" where
  "handle_cancel_control_request w rid a =
     (case ensure_control_cancel_supported (a_codex a \<noteq> None) of
        Inl e \<Rightarrow> (Inl e, a)
      | Inr _ \<Rightarrow>
          (case map_of (a_pending a) rid of
             None \<Rightarrow> (Inl (not_started (''unknown interactive request_id '' @ rid)), a)
           | Some p \<Rightarrow>
               let ikind = pending_kind_name (pi_kind p) in
               (case persist_interaction_started w rid ikind (Some ''cancel'') a of
                  (Inl e, a1) \<Rightarrow> (Inl (not_started e), a1)
                | (Inr _, a1) \<Rightarrow>
                    cancel_written w rid ikind
                      (write_json_line w ''cancel control request'' (cancel_payload rid) a1))))"

section \<open>Starting and cancelling the Ralph loop\<close>

definition new_ralph :: "string \<Rightarrow> nat \<Rightarrow> string option \<Rightarrow> string \<Rightarrow> ralph_loop_state" where
  "new_ralph prompt max_iterations promise started_at =
     \<lparr>rl_prompt = prompt, rl_phase = RRunning, rl_iteration = 0, rl_max_iterations = max_iterations,
      rl_completion_promise = promise, rl_started_at = started_at, rl_consecutive_failures = 0,
      rl_max_consecutive_failures = 3, rl_retry_after = None, rl_turn_toplevel_texts = []\<rparr>"

definition start_ralph_loop ::
  "world \<Rightarrow> nat \<Rightarrow> string \<Rightarrow> nat \<Rightarrow> string option \<Rightarrow> nat \<Rightarrow> actor \<Rightarrow> actor" where
  "start_ralph_loop w now prompt max_iterations promise ch a =
     (if a_ralph_loop a \<noteq> None
      then reply ch (ReplyUnit (Inl ''Ralph loop already active'')) a
      else
        let started_at = w_iso w now;
            a1 = a\<lparr>a_ralph_loop := Some (new_ralph prompt max_iterations promise started_at)\<rparr>;
            a2 = persist_and_emit w
                   (RalphStarted (a_run_id a1) prompt max_iterations promise started_at) a1
        in try_dispatch w now (reply ch (ReplyUnit (Inr ())) a2))"

definition is_ralph_turn :: "actor \<Rightarrow> bool" where
  "is_ralph_turn a =
     (case a_active_turn a of None \<Rightarrow> False | Some t \<Rightarrow> at_origin t = Ralph)"

definition cancel_ralph_loop :: "world \<Rightarrow> nat \<Rightarrow> actor \<Rightarrow> actor" where
  "cancel_ralph_loop w ch a =
     (case a_ralph_loop a of
        None \<Rightarrow> reply ch (ReplyCancel (Inl ''No active ralph loop'')) a
      | Some r \<Rightarrow>
          if is_ralph_turn a then
            reply ch (ReplyCancel (Inr \<lparr>rc_iteration = rl_iteration r, rc_immediate = False\<rparr>))
              (update_ralph (\<lambda>r. r\<lparr>rl_phase := RCancelPending\<rparr>) a)
          else
            emit_ralph_complete w Cancelled
              (reply ch (ReplyCancel (Inr \<lparr>rc_iteration = rl_iteration r, rc_immediate = True\<rparr>)) a))"

end
