(* ===== verification/Actor_Stdout.thy ===== *)
theory Actor_Stdout
  imports Actor_Control
begin

text \<open>
  The input side of the session actor (\<open>session\_actor.rs\<close>): a line of the child's stdout in
  either transport (quarantine routing, control routing, event mapping), control requests of
  the CLI, stderr, the end of stdout and the cleanup. A panic while a queued message is written
  ends the actor's task, so the loops over events stop there.
\<close>

section \<open>Control events\<close>

definition response_request_id :: "json \<Rightarrow> string option" where
  "response_request_id v =
     or_else (Option.bind (jget_opt (jget v ''response'') ''request_id'') as_str)
             (get_str v ''request_id'')"

definition take_waiter :: "string \<Rightarrow> json \<Rightarrow> actor \<Rightarrow> actor" where
  "take_waiter rid v a =
     (case map_of (a_control_waiters a) rid of
        None \<Rightarrow> a
      | Some ch \<Rightarrow>
          send_waiter ch v (a\<lparr>a_control_waiters := hm_remove rid (a_control_waiters a)\<rparr>))"

definition on_control_response :: "json \<Rightarrow> actor \<Rightarrow> actor" where
  "on_control_response v a =
     (case response_request_id v of
        None \<Rightarrow> a
      | Some rid \<Rightarrow> take_waiter rid (unwrap_or (jget v ''response'') JNull) a)"

definition drop_waiter :: "string \<Rightarrow> actor \<Rightarrow> actor" where
  "drop_waiter rid a = a\<lparr>a_control_waiters := hm_remove rid (a_control_waiters a)\<rparr>"

definition on_control_cancel :: "world \<Rightarrow> json \<Rightarrow> actor \<Rightarrow> actor" where
  "on_control_cancel w v a =
     (let rid = unwrap_or (get_str v ''request_id'') [] in
      persist_and_emit w (ControlCancelled (a_run_id a) rid) (drop_waiter rid a))"

definition insert_pending ::
  "nat \<Rightarrow> string \<Rightarrow> pending_kind \<Rightarrow> string \<Rightarrow> string \<Rightarrow> actor \<Rightarrow> actor" where
  "insert_pending now rid kind subtype detail a =
     a\<lparr>a_pending := hm_insert rid
          \<lparr>pi_request_id = rid, pi_kind = kind, pi_subtype = subtype, pi_detail = detail,
           pi_received_at = now\<rparr> (a_pending a)\<rparr>"

definition decision_allow :: json where
  "decision_allow = JObj [(''decision'', JStr ''allow'')]"

definition on_hook_callback :: "world \<Rightarrow> nat \<Rightarrow> json \<Rightarrow> actor \<Rightarrow> actor" where
  "on_hook_callback w now v a =
     (let rid = unwrap_or (get_str v ''request_id'') [];
          request = unwrap_or (jget v ''request'') JNull;
          hook_event = unwrap_or (get_str request ''hook_event'') [];
          hook_id = unwrap_or (get_str request ''hook_id'') [];
          hook_name = get_str request ''tool_name'';
          a1 = persist_and_emit w (HookCallback (a_run_id a) rid hook_event hook_id hook_name request) a
      in if hook_event \<noteq> ''PreToolUse'' then snd (write_control_response w rid decision_allow a1)
         else notify (insert_pending now rid Hook ''hook_callback''
                        (''PreToolUse:'' @ unwrap_or hook_name ''hook'') a1))"

definition on_elicitation :: "world \<Rightarrow> nat \<Rightarrow> json \<Rightarrow> actor \<Rightarrow> actor" where
  "on_elicitation w now v a =
     (let rid = unwrap_or (get_str v ''request_id'') [];
          request = unwrap_or (jget v ''request'') JNull;
          server = unwrap_or (get_str request ''mcp_server_name'') [];
          a1 = persist_and_emit w
                 (ElicitationPrompt (a_run_id a) rid server (unwrap_or (get_str request ''message'') [])
                    (get_str request ''elicitation_id'') (get_str request ''mode'')
                    (get_str request ''url'') (jget request ''requested_schema'')) a
      in notify (insert_pending now rid Elicitation ''elicitation'' server a1))"

definition auto_allow :: "json \<Rightarrow> json" where
  "auto_allow tool_input =
     JObj [(''behavior'', JStr ''allow''), (''updatedInput'', tool_input)]"

definition permission_prompt_event :: "string \<Rightarrow> string \<Rightarrow> string \<Rightarrow> json \<Rightarrow> json \<Rightarrow> json \<Rightarrow> bus_event" where
  "permission_prompt_event run_id rid tool_name tool_input request v =
     PermissionPrompt run_id rid tool_name (unwrap_or (get_str request ''tool_use_id'') []) tool_input
       (unwrap_or (get_str request ''decision_reason'') [])
       (opt_filter (\<lambda>s. s \<noteq> []) (get_str v ''parent_tool_use_id''))
       (unwrap_or (get_array request ''suggestions'') [])"

definition on_can_use_tool :: "world \<Rightarrow> nat \<Rightarrow> json \<Rightarrow> actor \<Rightarrow> actor" where
  "on_can_use_tool w now v a =
     (let rid = unwrap_or (get_str v ''request_id'') [];
          request = unwrap_or (jget v ''request'') JNull;
          tool_name = unwrap_or (get_str request ''tool_name'') ''unknown'';
          tool_input = unwrap_or (jget request ''input'') (JObj [])
      in if tool_name \<in> set (a_remembered_tools a)
         then snd (write_control_response w rid (auto_allow tool_input) a)
         else notify (insert_pending now rid Permission ''can_use_tool'' tool_name
                (persist_and_emit w
                   (permission_prompt_event (a_run_id a) rid tool_name tool_input request v) a)))"

definition request_subtype :: "json \<Rightarrow> string" where
  "request_subtype v =
     unwrap_or (Option.bind (jget_opt (jget v ''request'') ''subtype'') as_str) []"

definition on_unknown_control :: "world \<Rightarrow> json \<Rightarrow> actor \<Rightarrow> actor" where
  "on_unknown_control w v a =
     (let rid = unwrap_or (get_str v ''request_id'') [] in
      if rid = [] then a
      else snd (write_control_response_error w rid
                  (''unsupported control_request subtype: '' @ request_subtype v) a))"

text \<open>Control events during user turns or while idle.\<close>

definition handle_control_event :: "world \<Rightarrow> nat \<Rightarrow> json \<Rightarrow> string \<Rightarrow> actor \<Rightarrow> actor" where
  "handle_control_event w now v event_type a =
     (if event_type = ''control_response'' then on_control_response v a
      else if event_type = ''control_cancel_request'' then on_control_cancel w v a
      else
        let subtype = request_subtype v in
        if subtype = ''hook_callback'' then on_hook_callback w now v a
        else if subtype = ''mcp_message'' then
          emit_realtime (Raw (a_run_id a) ''mcp_message'' v) a
        else if subtype = ''elicitation'' then on_elicitation w now v a
        else if subtype = ''can_use_tool'' then on_can_use_tool w now v a
        else on_unknown_control w v a)"

text \<open>Control events during internal turns and quarantine: automatic answers only.\<close>

definition internal_outcome :: "string \<Rightarrow> string + json" where
  "internal_outcome subtype =
     (if subtype = ''can_use_tool'' then
        Inr (JObj [(''behavior'', JStr ''deny''),
                   (''message'', JStr ''Tool use not allowed during internal turn'')])
      else if subtype = ''hook_callback'' then Inr decision_allow
      else Inl (''unsupported control_request subtype during internal turn: '' @ subtype))"

definition handle_control_event_internal :: "world \<Rightarrow> json \<Rightarrow> string \<Rightarrow> actor \<Rightarrow> actor" where
  "handle_control_event_internal w v event_type a =
     (if event_type = ''control_response'' then on_control_response v a
      else if event_type = ''control_cancel_request'' then
        drop_waiter (unwrap_or (get_str v ''request_id'') []) a
      else
        let rid = unwrap_or (get_str v ''request_id'') [] in
        if rid = [] then a
        else case internal_outcome (request_subtype v) of
          Inr response \<Rightarrow> snd (write_control_response w rid response a)
        | Inl msg \<Rightarrow> snd (write_control_response_error w rid msg a))"

section \<open>Quarantine\<close>

definition count_invalid :: "actor \<Rightarrow> actor" where
  "count_invalid a =
     a\<lparr>a_protocol := (a_protocol a)\<lparr>stats := (stats (a_protocol a))
         \<lparr>invalid_tool_count := Suc (invalid_tool_count (stats (a_protocol a)))\<rparr>\<rparr>\<rparr>"

definition leave_quarantine :: "actor \<Rightarrow> actor" where
  "leave_quarantine a =
     set_slash None (a\<lparr>a_quarantine := False, a_quarantine_deadline := None,
       a_interrupt_sent := False, a_quarantine_from_internal := False\<rparr>)"

definition lift_emit ::
  "world \<Rightarrow> nat \<Rightarrow> string \<Rightarrow> int option \<Rightarrow> string option \<Rightarrow> actor \<Rightarrow> actor" where
  "lift_emit w now st exit_code emit_error a =
     (let a1 = emit_state w now st exit_code emit_error False (clear_result_tracking a) in
      if st = ''idle'' then meta_clear_result_error w (persist_idle_running w now Idle a1) else a1)"

definition lift_quarantine ::
  "world \<Rightarrow> nat \<Rightarrow> string \<Rightarrow> int option \<Rightarrow> string option \<Rightarrow> actor \<Rightarrow> actor" where
  "lift_quarantine w now st exit_code error a =
     (let (emit, clear_interrupt, emit_error) =
            quarantine_lift_recovery (a_quarantine_from_internal a) st error (a_pending_interrupt a);
          a1 = leave_quarantine a;
          a2 = (if clear_interrupt then a1\<lparr>a_pending_interrupt := False\<rparr> else a1);
          a3 = (if emit then lift_emit w now st exit_code emit_error a2 else a2)
      in try_dispatch w now a3)"

fun turn_boundary :: "bus_event \<Rightarrow> (string \<times> int option \<times> string option) option" where
  "turn_boundary (RunState r st code err) =
     (if st = ''idle'' \<or> st = ''failed'' then Some (st, code, err) else None)"
| "turn_boundary _ = None"

text \<open>A turn boundary lifts the quarantine and drops the events behind it.\<close>

fun quarantine_events :: "world \<Rightarrow> nat \<Rightarrow> bus_event list \<Rightarrow> actor \<Rightarrow> actor" where
  "quarantine_events w now [] a = a"
| "quarantine_events w now (ev # evs) a =
     (if validate_bus_event ev then quarantine_events w now evs (count_invalid a)
      else case turn_boundary ev of
        Some (st, code, err) \<Rightarrow> lift_quarantine w now st code err a
      | None \<Rightarrow>
          quarantine_events w now evs
            (if quarantine_event_passthrough ev then persist_and_emit w ev a else a))"

definition map_with_protocol :: "world \<Rightarrow> json \<Rightarrow> actor \<Rightarrow> actor \<times> bus_event list" where
  "map_with_protocol w v a =
     (case map_event (w_uuid w (x_uuids a)) (a_run_id a) v (a_protocol a) of
        (p, evs) \<Rightarrow> (a\<lparr>a_protocol := p, x_uuids := Suc (x_uuids a)\<rparr>, evs))"

section \<open>Events of a turn\<close>

definition feed_extractor :: "bus_event \<Rightarrow> actor \<Rightarrow> actor" where
  "feed_extractor ev a =
     (case a_active_extractor a of
        None \<Rightarrow> a
      | Some ext \<Rightarrow>
          (case extractor_on_event ext ev of
             (ext', snaps) \<Rightarrow>
               a\<lparr>a_active_extractor := Some ext', x_snapshots := x_snapshots a @ snaps\<rparr>))"

text \<open>The accumulation of Ralph's texts, placed as in the source inside the internal-turn branch.\<close>

definition push_ralph_text :: "string \<Rightarrow> string option \<Rightarrow> actor \<Rightarrow> actor" where
  "push_ralph_text text parent a =
     (if parent = None \<and> is_ralph_turn a
      then update_ralph (\<lambda>r. r\<lparr>rl_turn_toplevel_texts := rl_turn_toplevel_texts r @ [text]\<rparr>) a
      else a)"

fun internal_turn_event :: "world \<Rightarrow> nat \<Rightarrow> bus_event \<Rightarrow> actor \<Rightarrow> actor" where
  "internal_turn_event w now (CommandOutput r c) a = feed_extractor (CommandOutput r c) a"
| "internal_turn_event w now (MessageComplete r mid text parent md sr us) a =
     push_ralph_text text parent (feed_extractor (MessageComplete r mid text parent md sr us) a)"
| "internal_turn_event w now (RunState r st code err) a = end_turn_and_dispatch w now a"
| "internal_turn_event w now _ a = a"

text \<open>The idle part of the RunState arm: meta status, then error fields set or cleared.\<close>

definition persist_idle_outcome :: "world \<Rightarrow> nat \<Rightarrow> string option \<Rightarrow> actor \<Rightarrow> actor" where
  "persist_idle_outcome w now emit_error a =
     (let a1 = persist_idle_running w now Idle a;
          (idle_error, idle_subtype) =
            idle_error_persist (result_subtype (a_protocol a1)) emit_error
      in if idle_subtype \<noteq> None then meta_persist_result_error w idle_error idle_subtype a1
         else meta_clear_result_error w a1)"

definition finish_turn :: "world \<Rightarrow> nat \<Rightarrow> bool \<Rightarrow> active_turn \<Rightarrow> actor \<Rightarrow> actor" where
  "finish_turn w now turn_failed turn a =
     (let a1 = on_user_turn_finished turn (a\<lparr>a_active_turn := None\<rparr>);
          a2 = set_slash None (a1\<lparr>a_active_extractor := None\<rparr>)
      in try_dispatch w now (ralph_on_turn_end w now (at_origin turn) turn_failed a2))"

text \<open>The result of a user's interrupt is only its acknowledgement: idle, without an error.\<close>

definition suppress_interrupt ::
  "string \<Rightarrow> string option \<Rightarrow> actor \<Rightarrow> string \<times> string option \<times> actor" where
  "suppress_interrupt st error a =
     (if a_pending_interrupt a \<and> (st = ''idle'' \<or> st = ''failed'')
      then (''idle'', None, clear_result_tracking (a\<lparr>a_pending_interrupt := False\<rparr>))
      else (st, error, a))"

definition on_run_state ::
  "world \<Rightarrow> nat \<Rightarrow> string \<Rightarrow> int option \<Rightarrow> string option \<Rightarrow> actor \<Rightarrow> actor" where
  "on_run_state w now st exit_code error a =
     (let (st', error', a1) = suppress_interrupt st error a;
          a2 = emit_state w now st' exit_code error' False a1;
          a3 = (if st' = ''idle'' then persist_idle_outcome w now error' a2 else a2);
          a4 = (if st' = ''failed''
                then meta_persist_result_error w error' (result_subtype (a_protocol a3)) a3 else a3)
      in case a_active_turn a4 of
           Some turn \<Rightarrow>
             if st' = ''idle'' \<or> st' = ''failed''
             then finish_turn w now (st' = ''failed'' \<or> (st' = ''idle'' \<and> error' \<noteq> None)) turn a4
             else a4
         | None \<Rightarrow> a4)"

definition save_session_id :: "world \<Rightarrow> string \<Rightarrow> actor \<Rightarrow> actor" where
  "save_session_id w sid a =
     with_own_meta w
       (\<lambda>m. m\<lparr>m_session_id := Some sid, m_conversation_ref := Some (ClaudeSession sid)\<rparr>) a"

definition inject_turn_index :: "actor \<Rightarrow> usage_ev \<Rightarrow> usage_ev" where
  "inject_turn_index a u =
     (case a_active_turn a of None \<Rightarrow> u | Some t \<Rightarrow> u\<lparr>us_turn_index := Some (at_index t)\<rparr>)"

fun user_turn_event :: "world \<Rightarrow> nat \<Rightarrow> bus_event \<Rightarrow> actor \<Rightarrow> actor" where
  "user_turn_event w now (RunState r st code err) a = on_run_state w now st code err a"
| "user_turn_event w now (SessionInit s) a =
     (case si_session_id s of
        Some sid \<Rightarrow> persist_and_emit w (SessionInit s) (save_session_id w sid a)
      | None \<Rightarrow> persist_and_emit w (SessionInit s) a)"
| "user_turn_event w now (UsageUpdate u) a =
     persist_and_emit w (UsageUpdate (inject_turn_index a u)) a"
| "user_turn_event w now ev a = persist_and_emit w ev a"

fun turn_events :: "world \<Rightarrow> nat \<Rightarrow> bus_event list \<Rightarrow> actor \<Rightarrow> actor" where
  "turn_events w now [] a = a"
| "turn_events w now (ev # evs) a =
     (if x_panicked a then a
      else if validate_bus_event ev then turn_events w now evs (count_invalid a)
      else turn_events w now evs
             (if is_internal_turn a then internal_turn_event w now ev a
              else user_turn_event w now ev a))"

section \<open>A line of stdout\<close>

text \<open>The effects of a Codex line, given what the driver's parser returned for it.\<close>

definition save_thread_id :: "world \<Rightarrow> string option \<Rightarrow> actor \<Rightarrow> actor" where
  "save_thread_id w tid a =
     (case tid of
        None \<Rightarrow> a
      | Some t \<Rightarrow> with_own_meta w (\<lambda>m. m\<lparr>m_conversation_ref := Some (CodexThread t)\<rparr>) a)"

definition codex_driver_ready :: "actor \<Rightarrow> bool" where
  "codex_driver_ready a = (case a_codex a of None \<Rightarrow> False | Some c \<Rightarrow> is_ready c)"

definition open_codex_gate :: "world \<Rightarrow> nat \<Rightarrow> actor \<Rightarrow> actor" where
  "open_codex_gate w now a =
     (if \<not> a_codex_ready a \<and> codex_driver_ready a
      then try_dispatch w now (a\<lparr>a_codex_ready := True\<rparr>) else a)"

definition emit_codex_events :: "world \<Rightarrow> bus_event list \<Rightarrow> actor \<Rightarrow> actor" where
  "emit_codex_events w evs a =
     fold (\<lambda>ev a. if validate_bus_event ev then a else persist_and_emit w ev a) evs a"

fun codex_pending_subtype :: "pending_kind \<Rightarrow> string" where
  "codex_pending_subtype Permission = ''can_use_tool''"
| "codex_pending_subtype Hook = ''hook_callback''"
| "codex_pending_subtype Elicitation = ''elicitation''"
| "codex_pending_subtype UserInput = ''request_user_input''"

definition track_interactive :: "nat \<Rightarrow> (string \<times> pending_kind) list \<Rightarrow> actor \<Rightarrow> actor" where
  "track_interactive now pis a =
     fold (\<lambda>(rid, kind) a.
        notify (insert_pending now rid kind (codex_pending_subtype kind) [] a)) pis a"

definition codex_turn_over :: "world \<Rightarrow> nat \<Rightarrow> int option \<Rightarrow> string option \<Rightarrow> actor \<Rightarrow> actor" where
  "codex_turn_over w now exit_code err a =
     end_turn_and_dispatch w now
       (persist_idle_running w now Idle (emit_state w now ''idle'' exit_code err True a))"

definition codex_lifecycle :: "world \<Rightarrow> nat \<Rightarrow> lifecycle_signal option \<Rightarrow> actor \<Rightarrow> actor" where
  "codex_lifecycle w now sig a =
     (case sig of
        None \<Rightarrow> a
      | Some TurnStarted \<Rightarrow> emit_state w now ''running'' None None False a
      | Some TurnCompleted \<Rightarrow> codex_turn_over w now (Some 0) None a
      | Some (TurnFailed err) \<Rightarrow> codex_turn_over w now None err a)"

definition reset_activity :: "nat \<Rightarrow> actor \<Rightarrow> actor" where
  "reset_activity now a =
     a\<lparr>a_active_turn :=
          fst (apply_activity_reset now (a_quarantine a) (a_user_hard_timeout a) (a_active_turn a))\<rparr>"

definition handle_codex_parsed :: "world \<Rightarrow> nat \<Rightarrow> parsed_line \<Rightarrow> actor \<Rightarrow> actor" where
  "handle_codex_parsed w now pl a =
     (let a1 = write_json_lines_log w ''codex protocol request'' (pl_outbound pl) a;
          a2 = (case pl_control_response pl of None \<Rightarrow> a1 | Some (rid, v) \<Rightarrow> take_waiter rid v a1);
          a3 = open_codex_gate w now (save_thread_id w (pl_thread_id pl) a2)
      in if x_panicked a3 then a3
         else codex_lifecycle w now (pl_lifecycle pl)
                (track_interactive now (pl_interactive pl) (emit_codex_events w (pl_events pl) a3)))"

text \<open>
  The driver's \<open>parse\_line\<close>: the parsed line and the driver after it. The recursion of the parser
  never runs out (\<open>line\_returns\<close> of \<open>Parser_Total\<close>), so the second branch is never taken from a
  driver whose buffer is in order.
\<close>

definition codex_line ::
  "world \<Rightarrow> nat \<Rightarrow> string \<Rightarrow> string \<Rightarrow> codex_app_server \<Rightarrow> parsed_line \<times> codex_app_server" where
  "codex_line w now run_id text c =
     (case parse_line (w_parse w) (w_text w) now run_id text c of
        Some (c', out) \<Rightarrow> (out, c')
      | None \<Rightarrow> (parsed_line_default, c))"

definition handle_codex_line ::
  "world \<Rightarrow> nat \<Rightarrow> string \<Rightarrow> codex_app_server \<Rightarrow> actor \<Rightarrow> actor" where
  "handle_codex_line w now text c a =
     (case codex_line w now (a_run_id a) text c of
        (pl, c') \<Rightarrow> handle_codex_parsed w now pl ((reset_activity now a)\<lparr>a_codex := Some c'\<rparr>))"

definition handle_unparsed :: "world \<Rightarrow> string \<Rightarrow> actor \<Rightarrow> actor" where
  "handle_unparsed w text a0 =
     (let a = a0\<lparr>a_json_parse_fail_count := Suc (a_json_parse_fail_count a0)\<rparr> in
      if a_quarantine a \<or> is_internal_turn a then a
      else persist_and_emit w (Raw (a_run_id a) ''claude_stdout_text'' (JStr text)) a)"

definition is_control_type :: "string \<Rightarrow> bool" where
  "is_control_type t =
     (t = ''control_response'' \<or> t = ''control_cancel_request'' \<or> t = ''control_request'')"

definition handle_claude_value :: "world \<Rightarrow> nat \<Rightarrow> json \<Rightarrow> actor \<Rightarrow> actor" where
  "handle_claude_value w now v a0 =
     (let a = reset_activity now a0; event_type = unwrap_or (get_str v ''type'') [] in
      if is_control_type event_type then
        (if a_quarantine a \<or> is_internal_turn a
         then handle_control_event_internal w v event_type a
         else handle_control_event w now v event_type a)
      else case map_with_protocol w v a of
        (a1, evs) \<Rightarrow>
          if a_quarantine a then quarantine_events w now evs a1 else turn_events w now evs a1)"

definition handle_stdout_line :: "world \<Rightarrow> nat \<Rightarrow> string \<Rightarrow> actor \<Rightarrow> actor" where
  "handle_stdout_line w now line a =
     (let text = trim line in
      if text = [] then a
      else case a_codex a of
        Some c \<Rightarrow> handle_codex_line w now text c a
      | None \<Rightarrow>
          (case w_parse w text of
             None \<Rightarrow> handle_unparsed w text a
           | Some v \<Rightarrow> handle_claude_value w now v a))"

section \<open>Stderr, the end of stdout, cleanup\<close>

definition handle_stderr_line :: "world \<Rightarrow> string \<Rightarrow> actor \<Rightarrow> actor" where
  "handle_stderr_line w line a =
     (if a_cancelled a then a
      else
        let text = trim line in
        if text = [] \<or> a_codex a \<noteq> None then a
        else persist_and_emit w (Raw (a_run_id a) ''claude_stderr'' (JStr (strip_ansi text))) a)"

definition show_exit_code :: "int option \<Rightarrow> string" where
  "show_exit_code c = (case c of None \<Rightarrow> ''None'' | Some n \<Rightarrow> ''Some('' @ show_int n @ '')'')"

definition eof_state :: "bool \<Rightarrow> int option \<Rightarrow> string" where
  "eof_state cancelled exit_code =
     (if cancelled then ''stopped'' else if exit_code = Some 0 then ''completed'' else ''failed'')"

definition eof_error :: "string \<Rightarrow> int option \<Rightarrow> string option" where
  "eof_error st exit_code =
     (if st = ''failed'' then Some (''Process exited with code '' @ show_exit_code exit_code) else None)"

text \<open>\<open>exit\_code\<close> is what waiting for the child returned (\<open>None\<close> without a child).\<close>

definition handle_eof :: "world \<Rightarrow> nat \<Rightarrow> int option \<Rightarrow> actor \<Rightarrow> actor" where
  "handle_eof w now child_code a =
     (let exit_code = (if a_child a then child_code else None);
          a1 = (fail_all_pending_replies ''Session ended'' a)
                 \<lparr>a_active_turn := None, a_active_extractor := None, a_quarantine := False\<rparr>
      in if \<not> got_result_event (a_protocol a1) then
           (let st = eof_state (a_cancelled a1) exit_code in
            emit_state w now st exit_code (eof_error st exit_code) True a1)
         else finalize_meta w now exit_code a1)"

definition cleanup :: "actor \<Rightarrow> actor" where
  "cleanup a =
     (fail_all_pending_replies ''Session cleanup'' (a\<lparr>a_stdin := False\<rparr>))
       \<lparr>a_control_waiters := []\<rparr>"

end
