(* ===== verification/Actor_Loop.thy ===== *)
theory Actor_Loop
  imports Actor_Stdout
begin

text \<open>
  The main loop of the session actor (\<open>SessionActor::run\<close> in \<open>session\_actor.rs\<close>). The branches
  of the \<open>select!\<close> are the constructors of \<open>actor\_input\<close>; which of the ready branches runs is
  the environment's choice, so the loop is a step relation. A break runs the cleanup; a panic
  ends the task without it.
\<close>

section \<open>Commands and inputs\<close>

datatype actor_command =
    SendMessage string "attachment_data list" "codex_skill_ref list" nat
  | Stop nat
  | SendControl json nat
  | RespondPermission string json bool nat
  | CancelControlRequest string nat
  | RespondHookCallback string json nat
  | RespondElicitation string json nat
  | RespondUserInput string json nat
  | StartRalphLoop string nat "string option" nat
  | CancelRalphLoop nat

datatype actor_input =
    Command actor_command
  | CommandsClosed
  | StdoutLine string
  | StdoutEof "int option"
  | StderrLine string
  | Tick
  | TokenSet \<comment> \<open>the application sets the cancellation token\<close>
  | Cancellation \<comment> \<open>the branch waiting for the token runs\<close>

section \<open>One turn of the loop\<close>

definition handshake :: "world \<Rightarrow> actor \<Rightarrow> actor" where
  "handshake w a =
     (if a_codex_startup a = [] then a
      else write_json_lines_log w ''codex handshake'' (a_codex_startup a) (a\<lparr>a_codex_startup := []\<rparr>))"

definition reply_with :: "nat \<Rightarrow> ('a \<Rightarrow> reply_value) \<Rightarrow> 'a \<times> actor \<Rightarrow> actor" where
  "reply_with ch f r = reply ch (f (fst r)) (snd r)"

fun handle_command :: "world \<Rightarrow> nat \<Rightarrow> actor_command \<Rightarrow> actor \<Rightarrow> actor \<times> bool" where
  "handle_command w now (SendMessage text atts skills ch) a =
     (handle_send_message w now text atts skills ch a, False)"
| "handle_command w now (Stop ch) a = (reply ch (ReplyUnit (Inr ())) (handle_stop a), True)"
| "handle_command w now (SendControl request ch) a =
     (reply_with ch ReplyControl (handle_send_control_async w request ch a), False)"
| "handle_command w now (RespondPermission rid response remember_tool ch) a =
     (reply_with ch ReplyUnit (handle_respond_permission w rid response remember_tool a), False)"
| "handle_command w now (CancelControlRequest rid ch) a =
     (reply_with ch ReplyUnit (handle_cancel_control_request w rid a), False)"
| "handle_command w now (RespondHookCallback rid response ch) a =
     (reply_with ch ReplyUnit
        (deliver_interaction_response w Hook rid ''hook'' (get_str response ''decision'') response a),
      False)"
| "handle_command w now (RespondElicitation rid response ch) a =
     (reply_with ch ReplyUnit
        (deliver_interaction_response w Elicitation rid ''elicitation'' (get_str response ''action'')
           response a), False)"
| "handle_command w now (RespondUserInput rid response ch) a =
     (reply_with ch ReplyUnit
        (deliver_interaction_response w UserInput rid ''user_input'' None response a), False)"
| "handle_command w now (StartRalphLoop prompt max_iterations promise ch) a =
     (start_ralph_loop w now prompt max_iterations promise ch a, False)"
| "handle_command w now (CancelRalphLoop ch) a = (cancel_ralph_loop w ch a, False)"

text \<open>The result is the actor after one branch and whether the loop breaks.\<close>

fun handle_input :: "world \<Rightarrow> nat \<Rightarrow> actor_input \<Rightarrow> actor \<Rightarrow> actor \<times> bool" where
  "handle_input w now (Command c) a = handle_command w now c a"
| "handle_input w now CommandsClosed a = (a, True)"
| "handle_input w now (StdoutLine line) a = (handle_stdout_line w now line a, False)"
| "handle_input w now (StdoutEof code) a = (handle_eof w now code a, True)"
| "handle_input w now (StderrLine line) a = (handle_stderr_line w line a, False)"
| "handle_input w now Tick a = (handle_tick w now a, False)"
| "handle_input w now TokenSet a = (a\<lparr>a_cancelled := True\<rparr>, False)"
| "handle_input w now Cancellation a = (if a_cancelled a then (handle_stop a, True) else (a, False))"

datatype loop_state = Looping actor | Finished actor

fun loop_actor :: "loop_state \<Rightarrow> actor" where
  "loop_actor (Looping a) = a"
| "loop_actor (Finished a) = a"

text \<open>The loop as a function of one input, and of a schedule of timed inputs.\<close>

fun loop_next :: "world \<Rightarrow> nat \<Rightarrow> actor_input \<Rightarrow> loop_state \<Rightarrow> loop_state" where
  "loop_next w now inp (Finished a) = Finished a"
| "loop_next w now inp (Looping a) =
     (if x_panicked a then Looping a
      else if a_terminated a then Finished (cleanup a)
      else case handle_input w now inp a of
        (a', brk) \<Rightarrow> if brk then Finished (cleanup a') else Looping a')"

definition run_schedule ::
  "world \<Rightarrow> (nat \<times> actor_input) list \<Rightarrow> loop_state \<Rightarrow> loop_state" where
  "run_schedule w = fold (\<lambda>(now, inp). loop_next w now inp)"

section \<open>The step relation\<close>

inductive actor_step :: "world \<Rightarrow> loop_state \<Rightarrow> loop_state \<Rightarrow> bool"
  for w :: world where
  handled: "\<not> x_panicked a \<Longrightarrow> \<not> a_terminated a \<Longrightarrow> handle_input w now inp a = (a', False)
    \<Longrightarrow> actor_step w (Looping a) (Looping a')"
| broke: "\<not> x_panicked a \<Longrightarrow> \<not> a_terminated a \<Longrightarrow> handle_input w now inp a = (a', True)
    \<Longrightarrow> actor_step w (Looping a) (Finished (cleanup a'))"
| ended: "\<not> x_panicked a \<Longrightarrow> a_terminated a \<Longrightarrow> actor_step w (Looping a) (Finished (cleanup a))"

inductive_cases actor_step_LoopingE [elim!]: "actor_step w (Looping a) s"
inductive_cases actor_step_FinishedE [elim!]: "actor_step w (Finished a) s"
inductive_simps actor_step_Finished [simp]: "actor_step w (Finished a) s"

text \<open>The first states: a spawned actor after the handshake.\<close>

inductive actor_init :: "world \<Rightarrow> loop_state \<Rightarrow> bool" for w :: world where
  spawned: "actor_init w (Looping (handshake w
     (spawn_actor run_id resume turn_index auto_ctx codex startup timeout store)))"

inductive_cases actor_initE [elim!]: "actor_init w s"

lemma actor_step_next:
  assumes "actor_step w s s'"
  shows "\<exists>now inp. s' = loop_next w now inp s"
  using assms
proof cases
  case (handled a now inp a')
  then have "s' = loop_next w now inp s" by simp
  then show ?thesis by blast
next
  case (broke a now inp a')
  then have "s' = loop_next w now inp s" by simp
  then show ?thesis by blast
next
  case (ended a)
  then have "s' = loop_next w 0 Tick s" by simp
  then show ?thesis by blast
qed

end
