(* ===== verification/Actor_Frames.thy ===== *)
theory Actor_Frames
  imports Actor_Loop Protocol_Props
begin

text \<open>
  What the effects of the session actor leave alone. \<open>turn\_frame a' a\<close> says that \<open>a'\<close> has the
  turn state, the queues, the Ralph loop, the pending requests and the replies of \<open>a\<close>; it is
  proved for every effect that only writes, persists, emits or updates metadata, and every fact
  is a simplification rule. \<open>emission\_frame\<close> does the same for the deduplicated run state.
\<close>

section \<open>Frames\<close>

abbreviation turn_frame :: "actor \<Rightarrow> actor \<Rightarrow> bool" where
  "turn_frame a' a \<equiv>
     a_run_id a' = a_run_id a \<and> a_active_turn a' = a_active_turn a
     \<and> a_active_extractor a' = a_active_extractor a \<and> a_queued_user a' = a_queued_user a
     \<and> a_queued_internal a' = a_queued_internal a
     \<and> a_must_run_internal_for_turn a' = a_must_run_internal_for_turn a
     \<and> a_quarantine a' = a_quarantine a \<and> a_quarantine_deadline a' = a_quarantine_deadline a
     \<and> a_interrupt_sent a' = a_interrupt_sent a
     \<and> a_quarantine_from_internal a' = a_quarantine_from_internal a
     \<and> a_ralph_loop a' = a_ralph_loop a \<and> a_ralph_needs_dispatch a' = a_ralph_needs_dispatch a
     \<and> a_next_turn_seq a' = a_next_turn_seq a \<and> a_next_turn_index a' = a_next_turn_index a
     \<and> a_next_auto_ctx_id a' = a_next_auto_ctx_id a \<and> a_terminated a' = a_terminated a
     \<and> a_user_hard_timeout a' = a_user_hard_timeout a \<and> a_cancelled a' = a_cancelled a
     \<and> a_codex_ready a' = a_codex_ready a \<and> a_codex_overrides a' = a_codex_overrides a
     \<and> a_pending a' = a_pending a \<and> a_remembered_tools a' = a_remembered_tools a
     \<and> x_replies a' = x_replies a \<and> a_child a' = a_child a \<and> a_stdin a' = a_stdin a
     \<and> a_control_waiters a' = a_control_waiters a \<and> x_waiter_out a' = x_waiter_out a"

text \<open>The states of the emitted RunState events, in order.\<close>

definition run_states :: "actor \<Rightarrow> string list" where
  "run_states a = filter_map run_state_of (x_emitted a)"

abbreviation emission_frame :: "actor \<Rightarrow> actor \<Rightarrow> bool" where
  "emission_frame a' a \<equiv> a_state a' = a_state a \<and> run_states a' = run_states a"

lemma run_states_cong: "x_emitted a' = x_emitted a \<Longrightarrow> run_states a' = run_states a"
  by (simp add: run_states_def)

section \<open>Writing\<close>

lemma write_json_line_frame [simp]:
  "turn_frame (snd (write_json_line w ctx v a)) a"
  "emission_frame (snd (write_json_line w ctx v a)) a"
  "a_codex (snd (write_json_line w ctx v a)) = a_codex a"
  "a_protocol (snd (write_json_line w ctx v a)) = a_protocol a"
  "x_panicked (snd (write_json_line w ctx v a)) = x_panicked a"
  "x_emitted (snd (write_json_line w ctx v a)) = x_emitted a"
  by (simp_all add: write_json_line_def Let_def run_states_def split: option.split)

lemma write_json_lines_frame [simp]:
  "turn_frame (snd (write_json_lines w ctx vs a)) a"
  "emission_frame (snd (write_json_lines w ctx vs a)) a"
  "a_codex (snd (write_json_lines w ctx vs a)) = a_codex a"
  "a_protocol (snd (write_json_lines w ctx vs a)) = a_protocol a"
  "x_panicked (snd (write_json_lines w ctx vs a)) = x_panicked a"
  "x_emitted (snd (write_json_lines w ctx vs a)) = x_emitted a"
  by (induction vs arbitrary: a; simp add: case_prod_beta split: sum.split)+

lemma write_json_lines_log_frame [simp]:
  "turn_frame (write_json_lines_log w ctx vs a) a"
  "emission_frame (write_json_lines_log w ctx vs a) a"
  "a_codex (write_json_lines_log w ctx vs a) = a_codex a"
  "a_protocol (write_json_lines_log w ctx vs a) = a_protocol a"
  "x_panicked (write_json_lines_log w ctx vs a) = x_panicked a"
  "x_emitted (write_json_lines_log w ctx vs a) = x_emitted a"
  unfolding write_json_lines_log_def by (induction vs arbitrary: a; simp)+

lemma write_control_response_frame [simp]:
  "turn_frame (snd (write_control_response w rid v a)) a"
  "emission_frame (snd (write_control_response w rid v a)) a"
  "a_codex (snd (write_control_response w rid v a)) = a_codex a"
  "x_panicked (snd (write_control_response w rid v a)) = x_panicked a"
  by (simp_all add: write_control_response_def)

lemma write_control_response_error_frame [simp]:
  "turn_frame (snd (write_control_response_error w rid e a)) a"
  "emission_frame (snd (write_control_response_error w rid e a)) a"
  "a_codex (snd (write_control_response_error w rid e a)) = a_codex a"
  "x_panicked (snd (write_control_response_error w rid e a)) = x_panicked a"
  by (simp_all add: write_control_response_error_def)

section \<open>Events\<close>

lemma persist_durable_frame [simp]:
  "turn_frame (snd (persist_and_emit_durable w ev a)) a"
  "a_state (snd (persist_and_emit_durable w ev a)) = a_state a"
  "a_codex (snd (persist_and_emit_durable w ev a)) = a_codex a"
  "a_protocol (snd (persist_and_emit_durable w ev a)) = a_protocol a"
  "x_panicked (snd (persist_and_emit_durable w ev a)) = x_panicked a"
  "x_store (snd (persist_and_emit_durable w ev a)) = x_store a"
  by (simp_all add: persist_and_emit_durable_def Let_def split: option.split)

lemma persist_and_emit_frame [simp]:
  "turn_frame (persist_and_emit w ev a) a"
  "a_state (persist_and_emit w ev a) = a_state a"
  "a_codex (persist_and_emit w ev a) = a_codex a"
  "a_protocol (persist_and_emit w ev a) = a_protocol a"
  "x_panicked (persist_and_emit w ev a) = x_panicked a"
  "x_store (persist_and_emit w ev a) = x_store a"
  by (simp_all add: persist_and_emit_def case_prod_beta split: sum.split)

text \<open>An event always reaches the webview, whether or not it could be persisted.\<close>

lemma persist_and_emit_emitted [simp]:
  "x_emitted (persist_and_emit w ev a) = x_emitted a @ [ev]"
  by (simp add: persist_and_emit_def persist_and_emit_durable_def Let_def split: option.split)

lemma filter_map_single: "filter_map f [x] = (case f x of None \<Rightarrow> [] | Some y \<Rightarrow> [y])"
  by (simp add: filter_map_def List.map_filter_def split: option.split)

lemma run_states_persist [simp]:
  "run_states (persist_and_emit w ev a) =
     run_states a @ (case run_state_of ev of None \<Rightarrow> [] | Some st \<Rightarrow> [st])"
  by (simp add: run_states_def filter_map_single split: option.split)

lemma run_states_persist_durable:
  "run_state_of ev = None \<Longrightarrow> run_states (snd (persist_and_emit_durable w ev a)) = run_states a"
  by (simp add: run_states_def persist_and_emit_durable_def filter_map_single Let_def split: option.split)

section \<open>Metadata\<close>

lemma on_store_frame [simp]:
  "turn_frame (snd (on_store f w a)) a"
  "emission_frame (snd (on_store f w a)) a"
  "a_codex (snd (on_store f w a)) = a_codex a"
  "a_protocol (snd (on_store f w a)) = a_protocol a"
  "x_panicked (snd (on_store f w a)) = x_panicked a"
  "x_emitted (snd (on_store f w a)) = x_emitted a"
  by (simp_all add: on_store_def case_prod_beta run_states_def)

lemmas meta_defs = meta_update_status_def meta_persist_result_error_def
  meta_clear_result_error_def with_own_meta_def finalize_meta_def

lemma meta_update_status_frame [simp]:
  "turn_frame (snd (meta_update_status w now st code err a)) a"
  "emission_frame (snd (meta_update_status w now st code err a)) a"
  "a_codex (snd (meta_update_status w now st code err a)) = a_codex a"
  "a_protocol (snd (meta_update_status w now st code err a)) = a_protocol a"
  "x_panicked (snd (meta_update_status w now st code err a)) = x_panicked a"
  "x_emitted (snd (meta_update_status w now st code err a)) = x_emitted a"
  by (simp_all add: meta_defs)

lemma meta_persist_result_error_frame [simp]:
  "turn_frame (meta_persist_result_error w err subtype a) a"
  "emission_frame (meta_persist_result_error w err subtype a) a"
  "a_codex (meta_persist_result_error w err subtype a) = a_codex a"
  "a_protocol (meta_persist_result_error w err subtype a) = a_protocol a"
  "x_panicked (meta_persist_result_error w err subtype a) = x_panicked a"
  "x_emitted (meta_persist_result_error w err subtype a) = x_emitted a"
  by (simp_all add: meta_defs)

lemma meta_clear_result_error_frame [simp]:
  "turn_frame (meta_clear_result_error w a) a"
  "emission_frame (meta_clear_result_error w a) a"
  "a_codex (meta_clear_result_error w a) = a_codex a"
  "a_protocol (meta_clear_result_error w a) = a_protocol a"
  "x_panicked (meta_clear_result_error w a) = x_panicked a"
  "x_emitted (meta_clear_result_error w a) = x_emitted a"
  by (simp_all add: meta_defs)

lemma with_own_meta_frame [simp]:
  "turn_frame (with_own_meta w f a) a"
  "emission_frame (with_own_meta w f a) a"
  "a_codex (with_own_meta w f a) = a_codex a"
  "a_protocol (with_own_meta w f a) = a_protocol a"
  "x_panicked (with_own_meta w f a) = x_panicked a"
  "x_emitted (with_own_meta w f a) = x_emitted a"
  by (simp_all add: meta_defs)

lemma finalize_meta_frame [simp]:
  "turn_frame (finalize_meta w now code a) a"
  "emission_frame (finalize_meta w now code a) a"
  "a_codex (finalize_meta w now code a) = a_codex a"
  "x_panicked (finalize_meta w now code a) = x_panicked a"
  by (simp_all add: finalize_meta_def)

lemma persist_idle_running_frame [simp]:
  "turn_frame (persist_idle_running w now target a) a"
  "emission_frame (persist_idle_running w now target a) a"
  "a_codex (persist_idle_running w now target a) = a_codex a"
  "a_protocol (persist_idle_running w now target a) = a_protocol a"
  "x_panicked (persist_idle_running w now target a) = x_panicked a"
  "x_emitted (persist_idle_running w now target a) = x_emitted a"
  by (simp_all add: persist_idle_running_def case_prod_beta run_states_def
        split: option.split sum.split)

section \<open>RunState emission\<close>

lemma emit_state_meta_frame [simp]:
  "turn_frame (emit_state_meta w now st code err a) a"
  "emission_frame (emit_state_meta w now st code err a) a"
  "a_codex (emit_state_meta w now st code err a) = a_codex a"
  "a_protocol (emit_state_meta w now st code err a) = a_protocol a"
  "x_panicked (emit_state_meta w now st code err a) = x_panicked a"
  "x_emitted (emit_state_meta w now st code err a) = x_emitted a"
  by (simp_all add: emit_state_meta_def Let_def split: option.split)

lemma emit_state_frame [simp]:
  "turn_frame (emit_state w now st code err upd a) a"
  "a_codex (emit_state w now st code err upd a) = a_codex a"
  "a_protocol (emit_state w now st code err upd a) = a_protocol a"
  "x_panicked (emit_state w now st code err upd a) = x_panicked a"
  by (simp_all add: emit_state_def Let_def)

lemma emit_state_current [simp]: "a_state (emit_state w now st code err upd a) = st"
  by (simp add: emit_state_def Let_def)

lemma emit_state_run_states:
  "run_states (emit_state w now st code err upd a) =
     (if a_state a = st then run_states a else run_states a @ [st])"
  by (simp add: emit_state_def Let_def run_states_def filter_map_single)

section \<open>User messages and interrupts\<close>

lemma write_user_claude_frame [simp]:
  "turn_frame (snd (write_user_claude w now text atts a)) a"
  "emission_frame (snd (write_user_claude w now text atts a)) a"
  "a_codex (snd (write_user_claude w now text atts a)) = a_codex a"
  "a_protocol (snd (write_user_claude w now text atts a)) = a_protocol a"
  by (simp_all add: write_user_claude_def panic_def case_prod_beta run_states_def
        split: option.split sum.split)

lemma write_user_codex_frame [simp]:
  "turn_frame (snd (write_user_codex w now text atts skills c a)) a"
  "emission_frame (snd (write_user_codex w now text atts skills c a)) a"
  "a_protocol (snd (write_user_codex w now text atts skills c a)) = a_protocol a"
  by (simp_all add: write_user_codex_def panic_def case_prod_beta run_states_def
        split: option.split sum.split)

lemma write_user_codex_mode [simp]:
  "a_codex a \<noteq> None \<Longrightarrow> a_codex (snd (write_user_codex w now text atts skills c a)) \<noteq> None"
  by (simp add: write_user_codex_def panic_def case_prod_beta split: option.split sum.split)

lemma write_user_frame [simp]:
  "turn_frame (snd (write_user_to_stdin w now text atts skills a)) a"
  "emission_frame (snd (write_user_to_stdin w now text atts skills a)) a"
  "a_protocol (snd (write_user_to_stdin w now text atts skills a)) = a_protocol a"
  by (simp_all add: write_user_to_stdin_def split: option.split)

lemma write_user_mode [simp]:
  "(a_codex (snd (write_user_to_stdin w now text atts skills a)) = None) = (a_codex a = None)"
  by (cases "a_codex a") (simp_all add: write_user_to_stdin_def)

lemma send_interrupt_frame [simp]:
  "turn_frame (send_interrupt_to_cli w a) a"
  "emission_frame (send_interrupt_to_cli w a) a"
  "a_codex (send_interrupt_to_cli w a) = a_codex a"
  "a_protocol (send_interrupt_to_cli w a) = a_protocol a"
  "x_panicked (send_interrupt_to_cli w a) = x_panicked a"
  by (simp_all add: send_interrupt_to_cli_def Let_def run_states_def)

lemma set_slash_frame [simp]:
  "turn_frame (set_slash cmd a) a"
  "emission_frame (set_slash cmd a) a"
  "a_codex (set_slash cmd a) = a_codex a"
  "x_panicked (set_slash cmd a) = x_panicked a"
  by (simp_all add: set_slash_def run_states_def)

lemma clear_result_tracking_frame [simp]:
  "turn_frame (clear_result_tracking a) a"
  "emission_frame (clear_result_tracking a) a"
  "a_codex (clear_result_tracking a) = a_codex a"
  "x_panicked (clear_result_tracking a) = x_panicked a"
  by (simp_all add: clear_result_tracking_def run_states_def)

lemma announce_turn_frame [simp]:
  "turn_frame (announce_turn w now text uuid a) a"
  "a_codex (announce_turn w now text uuid a) = a_codex a"
  "x_panicked (announce_turn w now text uuid a) = x_panicked a"
  by (simp_all add: announce_turn_def Let_def)

lemma count_invalid_frame [simp]:
  "turn_frame (count_invalid a) a"
  "emission_frame (count_invalid a) a"
  "a_codex (count_invalid a) = a_codex a"
  "x_panicked (count_invalid a) = x_panicked a"
  by (simp_all add: count_invalid_def run_states_def)

lemma map_with_protocol_frame [simp]:
  "turn_frame (fst (map_with_protocol w v a)) a"
  "emission_frame (fst (map_with_protocol w v a)) a"
  "a_codex (fst (map_with_protocol w v a)) = a_codex a"
  "x_panicked (fst (map_with_protocol w v a)) = x_panicked a"
  by (simp_all add: map_with_protocol_def case_prod_beta run_states_def)

lemma save_session_id_frame [simp]:
  "turn_frame (save_session_id w sid a) a"
  "emission_frame (save_session_id w sid a) a"
  "a_codex (save_session_id w sid a) = a_codex a"
  "x_panicked (save_session_id w sid a) = x_panicked a"
  by (simp_all add: save_session_id_def)

lemma save_thread_id_frame [simp]:
  "turn_frame (save_thread_id w tid a) a"
  "emission_frame (save_thread_id w tid a) a"
  "a_codex (save_thread_id w tid a) = a_codex a"
  "x_panicked (save_thread_id w tid a) = x_panicked a"
  by (simp_all add: save_thread_id_def split: option.split)

lemma persist_idle_outcome_frame [simp]:
  "turn_frame (persist_idle_outcome w now err a) a"
  "emission_frame (persist_idle_outcome w now err a) a"
  "a_codex (persist_idle_outcome w now err a) = a_codex a"
  "x_panicked (persist_idle_outcome w now err a) = x_panicked a"
  by (simp_all add: persist_idle_outcome_def Let_def case_prod_beta)

end
