(* ===== verification/Actor_Invariants.thy ===== *)
theory Actor_Invariants
  imports Actor_Frames
begin

text \<open>
  The invariant of the turn engine, kept by every branch of the actor's loop: the internal-turn
  machinery is idle, a quarantined actor has no turn, the queued tickets are in the order they
  were accepted and behind the running turn, and the Ralph loop's state is well-formed and
  within its bounds.
\<close>

section \<open>The invariant\<close>

definition internal_free :: "actor \<Rightarrow> bool" where
  "internal_free a =
     (a_queued_internal a = [] \<and> a_must_run_internal_for_turn a = None
      \<and> a_active_extractor a = None \<and> \<not> is_internal_turn a \<and> \<not> a_quarantine_from_internal a)"

text \<open>The running turn, the next sequence number and the queue.\<close>

definition queue_ok :: "nat \<Rightarrow> user_ticket list \<Rightarrow> bool" where
  "queue_ok n q = (sorted_wrt (<) (map tk_seq q) \<and> (\<forall>t\<in>set q. tk_seq t < n))"

fun fifo_ok :: "active_turn option \<Rightarrow> nat \<Rightarrow> user_ticket list \<Rightarrow> bool" where
  "fifo_ok None n q = queue_ok n q"
| "fifo_ok (Some t) n q = (at_seq t < n \<and> (\<forall>u\<in>set q. at_seq t < tk_seq u) \<and> queue_ok n q)"

fun phase_ok :: "ralph_phase \<Rightarrow> bool" where
  "phase_ok (RPausedByUser ph) = (ph = RRunning \<or> ph = RWaitingRetry)"
| "phase_ok _ = True"

definition ralph_ok :: "ralph_loop_state \<Rightarrow> bool" where
  "ralph_ok r =
     (rl_turn_toplevel_texts r = []
      \<and> (0 < rl_max_iterations r \<longrightarrow> rl_iteration r < rl_max_iterations r)
      \<and> rl_consecutive_failures r < rl_max_consecutive_failures r
      \<and> phase_ok (rl_phase r)
      \<and> (rl_phase r \<in> {RWaitingRetry, RPausedByUser RWaitingRetry} \<longrightarrow> rl_retry_after r \<noteq> None))"

definition ralph_busy_ok :: "bool \<Rightarrow> ralph_loop_state \<Rightarrow> bool" where
  "ralph_busy_ok busy r = (ralph_ok r \<and> (busy \<longrightarrow> rl_phase r \<in> {RRunning, RCancelPending}))"

text \<open>The loop and whether the running turn is one of its turns.\<close>

fun ralph_inv :: "ralph_loop_state option \<Rightarrow> bool \<Rightarrow> bool" where
  "ralph_inv None busy = (\<not> busy)"
| "ralph_inv (Some r) busy = ralph_busy_ok busy r"

definition turn_inv :: "actor \<Rightarrow> bool" where
  "turn_inv a =
     (internal_free a \<and> (a_quarantine a \<longrightarrow> a_active_turn a = None)
      \<and> fifo_ok (a_active_turn a) (a_next_turn_seq a) (a_queued_user a)
      \<and> ralph_inv (a_ralph_loop a) (is_ralph_turn a))"

named_theorems inv_defs
declare internal_free_def [inv_defs] turn_inv_def [inv_defs] is_internal_turn_def [inv_defs]
  is_ralph_turn_def [inv_defs] queue_ok_def [inv_defs]

lemmas ralph_defs = ralph_ok_def ralph_busy_ok_def

text \<open>Effects that keep the turn frame keep the invariant.\<close>

lemma turn_inv_frame: "turn_frame a' a \<Longrightarrow> turn_inv a' = turn_inv a"
  by (simp add: inv_defs)

section \<open>The Ralph loop\<close>

lemma update_ralph_frame [simp]:
  "a_active_turn (update_ralph f a) = a_active_turn a"
  "a_queued_user (update_ralph f a) = a_queued_user a"
  "a_next_turn_seq (update_ralph f a) = a_next_turn_seq a"
  "a_quarantine (update_ralph f a) = a_quarantine a"
  "a_codex (update_ralph f a) = a_codex a"
  "a_stdin (update_ralph f a) = a_stdin a"
  "a_terminated (update_ralph f a) = a_terminated a"
  "a_codex_ready (update_ralph f a) = a_codex_ready a"
  "x_panicked (update_ralph f a) = x_panicked a"
  "x_replies (update_ralph f a) = x_replies a"
  "a_pending (update_ralph f a) = a_pending a"
  "a_ralph_loop (update_ralph f a) = map_option f (a_ralph_loop a)"
  "emission_frame (update_ralph f a) a"
  by (simp_all add: update_ralph_def run_states_def)

lemma update_ralph_inv:
  assumes "turn_inv a"
    and "\<And>r. ralph_busy_ok (is_ralph_turn a) r \<Longrightarrow> ralph_busy_ok (is_ralph_turn a) (f r)"
  shows "turn_inv (update_ralph f a)"
  using assms by (cases "a_ralph_loop a") (auto simp: inv_defs update_ralph_def)

lemma emit_ralph_complete_inv:
  "turn_inv a \<Longrightarrow> \<not> is_ralph_turn a \<Longrightarrow> turn_inv (emit_ralph_complete w reason a)"
  by (simp add: inv_defs emit_ralph_complete_def Let_def)

lemma ralph_write_failed_inv:
  "turn_inv a \<Longrightarrow> \<not> is_ralph_turn a \<Longrightarrow> turn_inv (ralph_write_failed w now a)"
  by (cases "a_ralph_loop a")
    (simp_all add: inv_defs ralph_defs ralph_write_failed_def emit_ralph_complete_def Let_def)

lemma clear_texts_inv:
  "turn_inv a \<Longrightarrow> turn_inv (update_ralph (\<lambda>r. r\<lparr>rl_turn_toplevel_texts := []\<rparr>) a)"
  by (rule update_ralph_inv) (auto simp: ralph_defs)

text \<open>A Ralph turn is numbered behind everything accepted so far, so the queue must be empty.\<close>

lemma start_ralph_turn_inv:
  assumes inv: "turn_inv a" and idle: "a_active_turn a = None" "\<not> a_quarantine a" "a_queued_user a = []"
    and r: "a_ralph_loop a = Some r" "rl_phase r = RRunning"
  shows "turn_inv (start_ralph_turn w now prompt a)"
proof -
  let ?a1 = "update_ralph (\<lambda>r. r\<lparr>rl_turn_toplevel_texts := []\<rparr>)
      (a\<lparr>a_next_turn_index := Suc (a_next_turn_index a), a_next_turn_seq := Suc (a_next_turn_seq a)\<rparr>)"
  let ?p = "write_user_to_stdin w now prompt [] [] ?a1"
  have i1: "turn_inv ?a1"
    by (rule clear_texts_inv) (use inv idle in \<open>simp add: inv_defs\<close>)
  have i2: "turn_inv (snd ?p)" using i1 turn_inv_frame write_user_frame(1) by blast
  have nr: "\<not> is_ralph_turn (snd ?p)" using idle by (simp add: is_ralph_turn_def)
  show ?thesis
  proof (cases "fst ?p")
    case (Inl e)
    then show ?thesis
      using ralph_write_failed_inv [OF i2 nr]
      by (simp add: start_ralph_turn_def Let_def case_prod_beta del: write_user_frame)
  next
    case (Inr u)
    then show ?thesis
      using i2 idle r
      by (simp add: start_ralph_turn_def Let_def case_prod_beta inv_defs new_turn_def update_ralph_def
            ralph_defs)
  qed
qed

section \<open>Starting turns and dispatching\<close>

lemma reply_frame [simp]:
  "turn_frame (reply ch v a) (a\<lparr>x_replies := x_replies a @ [(ch, v)]\<rparr>)"
  "emission_frame (reply ch v a) a"
  "a_codex (reply ch v a) = a_codex a"
  "x_panicked (reply ch v a) = x_panicked a"
  "a_protocol (reply ch v a) = a_protocol a"
  by (simp_all add: reply_def run_states_def)

lemma reply_inv [simp]: "turn_inv (reply ch v a) = turn_inv a"
  by (simp add: inv_defs)

lemma start_user_turn_inv:
  assumes inv: "turn_inv a" and idle: "a_active_turn a = None" "\<not> a_quarantine a"
    and seq: "tk_seq t < a_next_turn_seq a" "\<forall>u\<in>set (a_queued_user a). tk_seq t < tk_seq u"
  shows "turn_inv (start_user_turn w now t a)"
  using assms
  by (simp add: start_user_turn_def Let_def case_prod_beta inv_defs new_turn_def
      split: sum.split option.splits)

lemma pause_ralph_inv:
  assumes "turn_inv a" "\<not> is_ralph_turn a"
  shows "turn_inv (pause_ralph a)"
  unfolding pause_ralph_def
proof (rule update_ralph_inv [OF assms(1)])
  fix r assume "ralph_busy_ok (is_ralph_turn a) r"
  then show "ralph_busy_ok (is_ralph_turn a) (r\<lparr>rl_phase := paused_phase (rl_phase r)\<rparr>)"
    using assms(2) by (cases "rl_phase r") (auto simp: ralph_defs)
qed

lemma pause_ralph_frame [simp]:
  "a_active_turn (pause_ralph a) = a_active_turn a"
  "a_queued_user (pause_ralph a) = a_queued_user a"
  "a_next_turn_seq (pause_ralph a) = a_next_turn_seq a"
  "a_quarantine (pause_ralph a) = a_quarantine a"
  "a_codex (pause_ralph a) = a_codex a"
  "a_stdin (pause_ralph a) = a_stdin a"
  "x_panicked (pause_ralph a) = x_panicked a"
  "x_replies (pause_ralph a) = x_replies a"
  "emission_frame (pause_ralph a) a"
  by (simp_all add: pause_ralph_def)

lemma dispatch_ralph_inv:
  assumes inv: "turn_inv a" and idle: "a_active_turn a = None" "\<not> a_quarantine a" "a_queued_user a = []"
    and d: "dispatch_ralph w now a = Some a'"
  shows "turn_inv a'"
proof -
  obtain r where r: "a_ralph_loop a = Some r"
    using d by (auto simp: dispatch_ralph_def split: option.splits)
  show ?thesis
  proof (cases "rl_phase r")
    case RRunning
    then show ?thesis using start_ralph_turn_inv [OF inv idle r] d r by (auto simp: dispatch_ralph_def)
  next
    case RWaitingRetry
    let ?f = "\<lambda>r. r\<lparr>rl_phase := RRunning, rl_retry_after := None\<rparr>"
    have i: "turn_inv (update_ralph ?f a)"
      by (rule update_ralph_inv [OF inv]) (use idle in \<open>auto simp: ralph_defs is_ralph_turn_def\<close>)
    have "a' = start_ralph_turn w now (rl_prompt r) (update_ralph ?f a)"
      using d r RWaitingRetry by (auto simp: dispatch_ralph_def split: option.splits if_splits)
    moreover have "turn_inv \<dots>"
      using i idle r by (intro start_ralph_turn_inv [where r = "?f r"]) simp_all
    ultimately show ?thesis by simp
  qed (use d r in \<open>auto simp: dispatch_ralph_def\<close>)
qed

lemma no_barrier: "turn_inv a \<Longrightarrow> barrier_job a = None"
  by (simp add: barrier_job_def inv_defs)

text \<open>With the internal machinery idle, the dispatcher is the queue, then the Ralph loop.\<close>

lemma try_dispatch_eq:
  assumes "turn_inv a"
  shows "try_dispatch w now a =
     (if \<not> dispatch_gate a then a
      else case a_queued_user a of
        t # ts \<Rightarrow> start_user_turn w now t (pause_ralph (a\<lparr>a_queued_user := ts\<rparr>))
      | [] \<Rightarrow> (case dispatch_ralph w now a of Some a' \<Rightarrow> a' | None \<Rightarrow> a))"
  using assms no_barrier [OF assms]
  by (simp add: try_dispatch_def inv_defs split: list.split option.split)

lemma try_dispatch_inv:
  assumes inv: "turn_inv a"
  shows "turn_inv (try_dispatch w now a)"
proof (cases "dispatch_gate a")
  case True
  then have idle: "a_active_turn a = None" "\<not> a_quarantine a" by (auto simp: dispatch_gate_def)
  show ?thesis
  proof (cases "a_queued_user a")
    case Nil
    then show ?thesis
      using True inv dispatch_ralph_inv [OF inv idle Nil]
      by (simp add: try_dispatch_eq [OF inv] split: option.split)
  next
    case (Cons t ts)
    have i: "turn_inv (a\<lparr>a_queued_user := ts\<rparr>)" and n: "\<not> is_ralph_turn (a\<lparr>a_queued_user := ts\<rparr>)"
      using inv idle Cons by (auto simp: inv_defs)
    have "turn_inv (start_user_turn w now t (pause_ralph (a\<lparr>a_queued_user := ts\<rparr>)))"
      by (rule start_user_turn_inv [OF pause_ralph_inv [OF i n]])
        (use inv idle Cons in \<open>auto simp: inv_defs\<close>)
    then show ?thesis using True Cons by (simp add: try_dispatch_eq [OF inv])
  qed
qed (simp add: try_dispatch_def inv)

lemma handle_send_message_inv:
  assumes "turn_inv a"
  shows "turn_inv (handle_send_message w now text atts skills ch a)"
proof -
  have "turn_inv (a\<lparr>a_next_turn_index := i, a_next_auto_ctx_id := j,
      a_next_turn_seq := Suc (a_next_turn_seq a),
      a_queued_user := a_queued_user a @ [t]\<rparr>)" if "tk_seq t = a_next_turn_seq a" for i j t
    using assms that by (auto simp: inv_defs sorted_wrt_append less_SucI split: option.splits)
  then show ?thesis
    using assms by (simp add: handle_send_message_def Let_def try_dispatch_inv)
qed

section \<open>The end of a turn and the clock\<close>

lemma ralph_inv_release: "ralph_inv rl busy \<Longrightarrow> ralph_inv rl False"
  by (cases rl) (auto simp: ralph_busy_ok_def)

lemma turn_inv_release: "turn_inv a \<Longrightarrow> turn_inv (a\<lparr>a_active_turn := None\<rparr>)"
  by (auto simp: inv_defs split: option.splits intro: ralph_inv_release)

lemma turn_inv_no_extractor [simp]:
  "turn_inv a \<Longrightarrow> turn_inv (a\<lparr>a_active_extractor := None\<rparr>)"
  by (simp add: inv_defs)

lemma set_slash_inv [simp]: "turn_inv (set_slash cmd a) = turn_inv a"
  by (rule turn_inv_frame) simp

lemma end_turn_and_dispatch_inv:
  "turn_inv a \<Longrightarrow> turn_inv (end_turn_and_dispatch w now a)"
  using turn_inv_no_extractor [OF turn_inv_release]
  by (simp add: end_turn_and_dispatch_def try_dispatch_inv)

text \<open>The action chosen at the end of a turn keeps the loop's bounds.\<close>

lemma natural_reason_None:
  "natural_reason r = None \<Longrightarrow> 0 < rl_max_iterations r \<Longrightarrow> rl_iteration r < rl_max_iterations r"
  by (simp add: natural_reason_def split: if_splits)

lemma ralph_turn_action_ok:
  assumes ok: "ralph_ok r" and act: "ralph_turn_action r origin failed = (r1, act)"
  shows "(\<exists>reason. act = RComplete reason)
         \<or> ralph_ok r1 \<and> (\<forall>ph. act = RResumeFrom ph \<longrightarrow> rl_phase r1 = RPausedByUser ph)"
proof (cases origin)
  case (User k)
  then show ?thesis using ok act by (cases "rl_phase r") (auto simp: ralph_turn_action_def)
next
  case (Internal k)
  then show ?thesis using ok act by (auto simp: ralph_turn_action_def)
next
  case Ralph
  show ?thesis
  proof (cases failed)
    case True
    then show ?thesis
      using Ralph ok act by (auto simp: ralph_turn_action_def ralph_ok_def Let_def split: if_splits)
  next
    case False
    let ?r = "r\<lparr>rl_consecutive_failures := 0, rl_iteration := Suc (rl_iteration r)\<rparr>"
    show ?thesis
    proof (cases "natural_reason ?r")
      case None
      then have "ralph_ok ?r" using ok natural_reason_None [OF None] by (simp add: ralph_ok_def)
      then show ?thesis
        using Ralph False None act by (auto simp: ralph_turn_action_def Let_def split: if_splits)
    qed (use Ralph False act in \<open>auto simp: ralph_turn_action_def Let_def\<close>)
  qed
qed

lemma ralph_execute_inv:
  assumes "turn_inv a" "a_active_turn a = None" "a_ralph_loop a = Some r"
    and "\<forall>ph. act = RResumeFrom ph \<longrightarrow> rl_phase r = RPausedByUser ph"
  shows "turn_inv (ralph_execute w now act a)"
  using assms
  by (cases act)
    (simp_all add: ralph_execute_def inv_defs ralph_defs emit_ralph_complete_def Let_def update_ralph_def, auto)

lemma ralph_on_turn_end_inv:
  assumes inv: "turn_inv a" and idle: "a_active_turn a = None"
  shows "turn_inv (ralph_on_turn_end w now origin failed a)"
proof (cases "a_ralph_loop a")
  case None
  then show ?thesis using inv by (simp add: ralph_on_turn_end_def)
next
  case (Some r)
  obtain r1 act where act: "ralph_turn_action r origin failed = (r1, act)" by fastforce
  have ok: "ralph_ok r" using inv idle Some by (simp add: inv_defs ralph_defs)
  let ?a = "a\<lparr>a_ralph_loop := Some r1\<rparr>"
  have eq: "ralph_on_turn_end w now origin failed a = ralph_execute w now act ?a"
    using Some act by (simp add: ralph_on_turn_end_def)
  from ralph_turn_action_ok [OF ok act] show ?thesis
  proof (elim disjE exE conjE)
    fix reason assume "act = RComplete reason"
    then show ?thesis
      using inv idle eq by (simp add: ralph_execute_def emit_ralph_complete_def Let_def inv_defs)
  next
    assume r1: "ralph_ok r1" "\<forall>ph. act = RResumeFrom ph \<longrightarrow> rl_phase r1 = RPausedByUser ph"
    have "turn_inv ?a" using inv idle r1(1) by (simp add: inv_defs ralph_defs)
    then show ?thesis using ralph_execute_inv [of ?a r1 act] idle r1(2) eq by simp
  qed
qed

lemma on_user_turn_finished_frame [simp]:
  "turn_frame (on_user_turn_finished t a) a"
  "emission_frame (on_user_turn_finished t a) a"
  "a_codex (on_user_turn_finished t a) = a_codex a"
  "x_panicked (on_user_turn_finished t a) = x_panicked a"
  by (simp_all add: on_user_turn_finished_def run_states_def
        split: turn_origin.split user_turn_kind.split)

lemma finish_turn_inv:
  assumes "turn_inv a"
  shows "turn_inv (finish_turn w now failed turn a)"
proof -
  let ?a = "set_slash None ((on_user_turn_finished turn (a\<lparr>a_active_turn := None\<rparr>))\<lparr>a_active_extractor := None\<rparr>)"
  have "turn_inv (on_user_turn_finished turn (a\<lparr>a_active_turn := None\<rparr>))"
    using turn_inv_release [OF assms] turn_inv_frame on_user_turn_finished_frame(1) by blast
  then have "turn_inv ?a" by simp
  then show ?thesis
    by (simp add: finish_turn_def Let_def try_dispatch_inv ralph_on_turn_end_inv)
qed

section \<open>The timeout clock\<close>

lemma fail_all_eq [simp]:
  "fail_all_pending_replies e a =
     a\<lparr>x_replies := x_replies a @ map (\<lambda>t. (tk_reply t, ReplyUnit (Inl e))) (a_queued_user a),
       a_queued_user := [], a_queued_internal := [], a_must_run_internal_for_turn := None\<rparr>"
proof -
  have "fold (\<lambda>t. reply (tk_reply t) (ReplyUnit (Inl e))) ts a =
      a\<lparr>x_replies := x_replies a @ map (\<lambda>t. (tk_reply t, ReplyUnit (Inl e))) ts\<rparr>" for ts :: "user_ticket list"
    by (induction ts arbitrary: a) (simp_all add: reply_def)
  then show ?thesis by (simp add: fail_all_pending_replies_def)
qed

lemma fail_all_inv: "turn_inv a \<Longrightarrow> turn_inv (fail_all_pending_replies e a)"
  by (cases "a_active_turn a") (simp_all add: inv_defs)

lemma kill_quarantined_inv: "turn_inv a \<Longrightarrow> turn_inv (kill_quarantined w now a)"
  by (cases "a_active_turn a") (simp_all add: kill_quarantined_def Let_def inv_defs)

lemma tick_quarantine_inv: "turn_inv a \<Longrightarrow> turn_inv (tick_quarantine w now a)"
  using kill_quarantined_inv [of a w now] by (simp add: tick_quarantine_def inv_defs)

lemma tick_idle_inv: "turn_inv a \<Longrightarrow> turn_inv (tick_idle now a)"
  by (cases "a_ralph_loop a") (simp_all add: tick_idle_def inv_defs)

lemma enter_quarantine_inv: "turn_inv a \<Longrightarrow> turn_inv (enter_quarantine False a)"
  using turn_inv_release [of a] by (simp add: enter_quarantine_def inv_defs)

lemma tick_user_turn_inv:
  assumes "turn_inv a" "a_active_turn a = Some t"
  shows "turn_inv (tick_user_turn now t a)"
  using assms enter_quarantine_inv [OF assms(1)] by (simp add: tick_user_turn_def inv_defs)

lemma tick_codex_inv: "turn_inv a \<Longrightarrow> turn_inv (tick_codex w now a)"
  by (simp add: tick_codex_def case_prod_beta inv_defs split: option.split)

lemma on_tick_timeout_inv: "turn_inv a \<Longrightarrow> turn_inv (on_tick_timeout w now a)"
proof -
  assume a: "turn_inv a"
  let ?b = "tick_codex w now a"
  have b: "turn_inv ?b" using a by (rule tick_codex_inv)
  then have "\<not> is_internal_origin (at_origin t)" if "a_active_turn ?b = Some t" for t
    using that by (simp add: inv_defs)
  then show ?thesis
    using b tick_quarantine_inv tick_idle_inv tick_user_turn_inv
    by (simp add: on_tick_timeout_def Let_def split: option.split)
qed

lemma handle_tick_inv: "turn_inv a \<Longrightarrow> turn_inv (handle_tick w now a)"
  using on_tick_timeout_inv [of a w now] try_dispatch_inv [of "(on_tick_timeout w now a)\<lparr>a_ralph_needs_dispatch := False\<rparr>"]
  by (simp add: handle_tick_def Let_def inv_defs)

end
