(* ===== verification/Actor_Reach.thy ===== *)
theory Actor_Reach
  imports Actor_Invariants
begin

text \<open>
  The invariant of the turn engine through the input side of the actor and its main loop: every
  branch of the loop keeps it, so it holds in every reachable state.
\<close>

section \<open>Control requests and answers\<close>

lemma send_waiter_frame [simp]:
  "turn_inv (send_waiter ch v a) = turn_inv a"
  by (simp add: send_waiter_def inv_defs)

lemma insert_waiter_inv [simp]: "turn_inv (insert_waiter rid ch a) = turn_inv a"
  by (simp add: insert_waiter_def inv_defs)

lemma write_json_line_inv [simp]: "turn_inv (snd (write_json_line w ctx v a)) = turn_inv a"
  by (rule turn_inv_frame) simp

lemma write_json_lines_inv [simp]: "turn_inv (snd (write_json_lines w ctx vs a)) = turn_inv a"
  by (rule turn_inv_frame) simp

lemma write_json_lines_log_inv [simp]: "turn_inv (write_json_lines_log w ctx vs a) = turn_inv a"
  by (rule turn_inv_frame) simp

lemma persist_durable_inv [simp]: "turn_inv (snd (persist_and_emit_durable w ev a)) = turn_inv a"
  by (rule turn_inv_frame) simp

lemma persist_and_emit_inv [simp]: "turn_inv (persist_and_emit w ev a) = turn_inv a"
  by (rule turn_inv_frame) simp

lemma emit_state_inv [simp]: "turn_inv (emit_state w now st code err upd a) = turn_inv a"
  by (rule turn_inv_frame) simp

lemma write_control_inv [simp]:
  "turn_inv (snd (write_control_response w rid v a)) = turn_inv a"
  "turn_inv (snd (write_control_response_error w rid e a)) = turn_inv a"
  by (simp_all add: write_control_response_def write_control_response_error_def)

lemma turn_inv_fields [simp]:
  "turn_inv (a\<lparr>a_codex := c\<rparr>) = turn_inv a"
  "turn_inv (a\<lparr>a_codex_ready := b\<rparr>) = turn_inv a"
  "turn_inv (a\<lparr>a_codex_overrides := ov\<rparr>) = turn_inv a"
  "turn_inv (a\<lparr>a_pending_interrupt := b\<rparr>) = turn_inv a"
  "turn_inv (a\<lparr>a_pending := ps\<rparr>) = turn_inv a"
  "turn_inv (a\<lparr>a_remembered_tools := ts\<rparr>) = turn_inv a"
  "turn_inv (a\<lparr>a_control_waiters := ws\<rparr>) = turn_inv a"
  "turn_inv (a\<lparr>a_protocol := p\<rparr>) = turn_inv a"
  "turn_inv (a\<lparr>a_cancelled := b\<rparr>) = turn_inv a"
  "turn_inv (a\<lparr>a_stdin := b\<rparr>) = turn_inv a"
  "turn_inv (a\<lparr>a_json_parse_fail_count := n\<rparr>) = turn_inv a"
  "turn_inv (a\<lparr>a_codex_startup := js\<rparr>) = turn_inv a"
  "turn_inv (a\<lparr>x_uuids := n\<rparr>) = turn_inv a"
  "turn_inv (a\<lparr>x_killed := b\<rparr>) = turn_inv a"
  "turn_inv (a\<lparr>x_realtime := es\<rparr>) = turn_inv a"
  "turn_inv (a\<lparr>x_notified := n\<rparr>) = turn_inv a"
  "turn_inv (a\<lparr>x_panicked := b\<rparr>) = turn_inv a"
  by (simp_all add: inv_defs)

lemma as_result_snd [simp]: "snd (as_result rid r) = snd r"
  by (simp add: as_result_def case_prod_beta split: sum.split)

lemma handle_codex_control_inv [simp]:
  "turn_inv (snd (handle_codex_control w subtype request rid ch c a)) = turn_inv a"
  by (simp add: handle_codex_control_def run_codex_query_def run_codex_action_def case_prod_beta
      split: option.split sum.split)

lemma handle_send_control_inv [simp]:
  "turn_inv (snd (handle_send_control_async w request ch a)) = turn_inv a"
  by (simp add: handle_send_control_async_def Let_def split: option.split)

lemma clear_pending_inv [simp]:
  "turn_inv (clear_pending_interactive_request rid a) = turn_inv a"
  by (simp add: clear_pending_interactive_request_def)

lemma write_interactive_inv [simp]:
  "turn_inv (snd (write_interactive_response w kind rid v a)) = turn_inv a"
  by (simp add: write_interactive_response_def case_prod_beta split: option.split sum.split)

lemmas interaction_defs = persist_interaction_started_def persist_interaction_failed_def
  persist_interaction_resolved_def

lemma deliver_inv [simp]:
  "turn_inv (snd (deliver_interaction_response w kind rid ik res v a)) = turn_inv a"
  by (simp add: deliver_interaction_response_def interaction_defs case_prod_beta split: sum.split)

lemma respond_permission_inv [simp]:
  "turn_inv (snd (handle_respond_permission w rid v remember_tool a)) = turn_inv a"
  by (simp add: handle_respond_permission_def remember_def split: option.split)

lemma cancel_control_inv [simp]:
  "turn_inv (snd (handle_cancel_control_request w rid a)) = turn_inv a"
  by (simp add: handle_cancel_control_request_def cancel_written_def interaction_defs Let_def
      case_prod_beta split: sum.split option.split)

lemma handle_stop_inv [simp]: "turn_inv (handle_stop a) = turn_inv a"
  by (simp add: handle_stop_def)

lemma start_ralph_loop_inv:
  assumes "turn_inv a"
  shows "turn_inv (start_ralph_loop w now prompt m promise ch a)"
proof (cases "a_ralph_loop a")
  case None
  then have "turn_inv (a\<lparr>a_ralph_loop := Some (new_ralph prompt m promise s)\<rparr>)" for s
    using assms by (simp add: inv_defs ralph_defs new_ralph_def)
  then show ?thesis using None by (simp add: start_ralph_loop_def Let_def try_dispatch_inv)
qed (simp add: start_ralph_loop_def assms)

lemma cancel_ralph_loop_inv:
  assumes "turn_inv a"
  shows "turn_inv (cancel_ralph_loop w ch a)"
proof -
  have "turn_inv (update_ralph (\<lambda>r. r\<lparr>rl_phase := RCancelPending\<rparr>) a)"
    by (rule update_ralph_inv [OF assms]) (auto simp: ralph_defs)
  moreover have "turn_inv (emit_ralph_complete w Cancelled (reply ch v a))" if "\<not> is_ralph_turn a" for v
    by (rule emit_ralph_complete_inv) (use assms that in \<open>simp_all add: is_ralph_turn_def\<close>)
  ultimately show ?thesis
    using assms by (simp add: cancel_ralph_loop_def split: option.split)
qed

section \<open>Stdout\<close>

lemma take_waiter_inv [simp]: "turn_inv (take_waiter rid v a) = turn_inv a"
  by (simp add: take_waiter_def split: option.split)

lemma drop_waiter_inv [simp]: "turn_inv (drop_waiter rid a) = turn_inv a"
  by (simp add: drop_waiter_def)

lemma on_control_response_inv [simp]: "turn_inv (on_control_response v a) = turn_inv a"
  by (simp add: on_control_response_def split: option.split)

lemma insert_pending_inv [simp]: "turn_inv (insert_pending now rid k st d a) = turn_inv a"
  by (simp add: insert_pending_def)

lemma notify_inv [simp]: "turn_inv (notify a) = turn_inv a"
  by (simp add: notify_def)

lemma emit_realtime_inv [simp]: "turn_inv (emit_realtime ev a) = turn_inv a"
  by (simp add: emit_realtime_def)

lemmas control_event_defs = on_control_cancel_def on_hook_callback_def on_elicitation_def
  on_can_use_tool_def on_unknown_control_def

lemma handle_control_event_inv [simp]:
  "turn_inv (handle_control_event w now v ty a) = turn_inv a"
  by (simp add: handle_control_event_def control_event_defs Let_def)

lemma handle_control_internal_inv [simp]:
  "turn_inv (handle_control_event_internal w v ty a) = turn_inv a"
  by (simp add: handle_control_event_internal_def Let_def split: sum.split)

lemma count_invalid_inv [simp]: "turn_inv (count_invalid a) = turn_inv a"
  by (rule turn_inv_frame) simp

lemma meta_inv [simp]:
  "turn_inv (persist_idle_running w now target a) = turn_inv a"
  "turn_inv (meta_clear_result_error w a) = turn_inv a"
  "turn_inv (meta_persist_result_error w err sub a) = turn_inv a"
  "turn_inv (clear_result_tracking a) = turn_inv a"
  "turn_inv (finalize_meta w now code a) = turn_inv a"
  "turn_inv (persist_idle_outcome w now err a) = turn_inv a"
  "turn_inv (save_session_id w sid a) = turn_inv a"
  "turn_inv (save_thread_id w tid a) = turn_inv a"
  "turn_inv (fst (map_with_protocol w v a)) = turn_inv a"
  by (rule turn_inv_frame; simp)+

lemma leave_quarantine_inv: "turn_inv a \<Longrightarrow> turn_inv (leave_quarantine a)"
  by (simp add: leave_quarantine_def) (simp add: inv_defs)

lemma lift_quarantine_inv:
  "turn_inv a \<Longrightarrow> turn_inv (lift_quarantine w now st code err a)"
  by (simp add: lift_quarantine_def lift_emit_def Let_def case_prod_beta try_dispatch_inv
      leave_quarantine_inv)

lemma quarantine_events_inv:
  "turn_inv a \<Longrightarrow> turn_inv (quarantine_events w now evs a)"
  by (induction evs arbitrary: a)
    (simp_all add: lift_quarantine_inv case_prod_beta split: option.split)

lemma on_run_state_inv:
  "turn_inv a \<Longrightarrow> turn_inv (on_run_state w now st code err a)"
  by (simp add: on_run_state_def suppress_interrupt_def Let_def finish_turn_inv split: option.split)

lemma user_turn_event_inv: "turn_inv a \<Longrightarrow> turn_inv (user_turn_event w now ev a)"
  by (cases ev) (simp_all add: on_run_state_inv split: option.split)

lemma no_internal_turn: "turn_inv a \<Longrightarrow> \<not> is_internal_turn a"
  by (simp add: turn_inv_def internal_free_def)

lemma turn_events_inv: "turn_inv a \<Longrightarrow> turn_inv (turn_events w now evs a)"
  by (induction evs arbitrary: a) (simp_all add: no_internal_turn user_turn_event_inv)

lemma reset_activity_inv: "turn_inv a \<Longrightarrow> turn_inv (reset_activity now a)"
proof -
  assume a: "turn_inv a"
  show ?thesis
  proof (cases "a_active_turn a")
    case None
    then show ?thesis
      using a by (simp add: reset_activity_def apply_activity_reset_def inv_defs)
  next
    case (Some t)
    then show ?thesis
      using a
      by (simp add: reset_activity_def apply_activity_reset_def inv_defs split: option.split)
  qed
qed

lemma open_codex_gate_inv: "turn_inv a \<Longrightarrow> turn_inv (open_codex_gate w now a)"
  by (simp add: open_codex_gate_def try_dispatch_inv)

lemma emit_codex_events_inv [simp]: "turn_inv (emit_codex_events w evs a) = turn_inv a"
  unfolding emit_codex_events_def by (induction evs arbitrary: a) simp_all

lemma track_interactive_inv [simp]: "turn_inv (track_interactive now pis a) = turn_inv a"
  unfolding track_interactive_def by (induction pis arbitrary: a) (simp_all add: case_prod_beta)

lemma codex_lifecycle_inv: "turn_inv a \<Longrightarrow> turn_inv (codex_lifecycle w now sig a)"
  by (simp add: codex_lifecycle_def codex_turn_over_def end_turn_and_dispatch_inv
      split: option.split lifecycle_signal.split)

lemma handle_codex_parsed_inv: "turn_inv a \<Longrightarrow> turn_inv (handle_codex_parsed w now pl a)"
  by (simp add: handle_codex_parsed_def Let_def case_prod_beta open_codex_gate_inv
      codex_lifecycle_inv split: option.split)

lemma handle_unparsed_inv [simp]: "turn_inv (handle_unparsed w text a) = turn_inv a"
  by (simp add: handle_unparsed_def Let_def)

lemma handle_claude_value_inv: "turn_inv a \<Longrightarrow> turn_inv (handle_claude_value w now v a)"
  by (simp add: handle_claude_value_def Let_def case_prod_beta reset_activity_inv
      quarantine_events_inv turn_events_inv)

lemma handle_stdout_line_inv: "turn_inv a \<Longrightarrow> turn_inv (handle_stdout_line w now line a)"
  by (simp add: handle_stdout_line_def handle_codex_line_def Let_def case_prod_beta
      reset_activity_inv handle_codex_parsed_inv handle_claude_value_inv split: option.split)

lemma handle_stderr_line_inv [simp]: "turn_inv (handle_stderr_line w line a) = turn_inv a"
  by (simp add: handle_stderr_line_def Let_def)

lemma eof_reset_inv:
  "turn_inv a \<Longrightarrow> turn_inv ((fail_all_pending_replies e a)
     \<lparr>a_active_turn := None, a_active_extractor := None, a_quarantine := False\<rparr>)"
  by (auto simp: inv_defs intro: ralph_inv_release)

lemma handle_eof_inv: "turn_inv a \<Longrightarrow> turn_inv (handle_eof w now code a)"
  using eof_reset_inv [of a "''Session ended''"]
  by (simp add: handle_eof_def Let_def del: fail_all_eq)

lemma cleanup_inv: "turn_inv a \<Longrightarrow> turn_inv (cleanup a)"
  by (simp add: cleanup_def fail_all_inv del: fail_all_eq)

section \<open>The loop\<close>

lemma reply_with_inv [simp]: "turn_inv (reply_with ch f r) = turn_inv (snd r)"
  by (simp add: reply_with_def)

lemma handle_command_inv: "turn_inv a \<Longrightarrow> turn_inv (fst (handle_command w now c a))"
  by (cases c)
    (simp_all add: handle_send_message_inv start_ralph_loop_inv cancel_ralph_loop_inv)

lemma handle_input_inv: "turn_inv a \<Longrightarrow> turn_inv (fst (handle_input w now inp a))"
  by (cases inp)
    (simp_all add: handle_command_inv handle_stdout_line_inv handle_eof_inv handle_tick_inv)

lemma loop_next_inv:
  assumes "turn_inv (loop_actor s)"
  shows "turn_inv (loop_actor (loop_next w now inp s))"
  using assms handle_input_inv [of "loop_actor s" w now inp]
  by (cases s) (simp_all add: case_prod_beta cleanup_inv)

lemma spawn_inv: "turn_inv (spawn_actor r res i c cx st t store)"
  by (simp add: spawn_actor_def inv_defs)

lemma handshake_inv [simp]: "turn_inv (handshake w a) = turn_inv a"
  by (simp add: handshake_def)

interpretation turns: invariant_system "actor_init w" "actor_step w" "\<lambda>s. turn_inv (loop_actor s)"
  for w
proof
  fix s assume "actor_init w s"
  then show "turn_inv (loop_actor s)" by (auto simp: spawn_inv)
next
  fix s t assume "turn_inv (loop_actor s)" "actor_step w s t"
  then show "turn_inv (loop_actor t)" using loop_next_inv actor_step_next by metis
qed

end
