(* ===== verification/Actor_Quiet.thy ===== *)
theory Actor_Quiet
  imports Actor_Reach "HOL-Library.Multiset"
begin

text \<open>
  The handlers that answer, route or record but leave the turn engine alone: \<open>quiet a' a\<close>
  collects what they keep. With it, an invariant of the actor needs an argument only for the
  few operations that start, end or time out a turn.
\<close>

section \<open>Quiet handlers\<close>

abbreviation quiet :: "actor \<Rightarrow> actor \<Rightarrow> bool" where
  "quiet a' a \<equiv>
     a_run_id a' = a_run_id a \<and> a_queued_user a' = a_queued_user a \<and> x_replies a' = x_replies a
     \<and> a_active_turn a' = a_active_turn a \<and> a_quarantine a' = a_quarantine a
     \<and> a_terminated a' = a_terminated a \<and> a_codex_ready a' = a_codex_ready a
     \<and> (a_codex a' = None) = (a_codex a = None) \<and> x_panicked a' = x_panicked a
     \<and> a_stdin a' = a_stdin a \<and> a_state a' = a_state a \<and> run_states a' = run_states a
     \<and> a_ralph_loop a' = a_ralph_loop a \<and> a_cancelled a' = a_cancelled a
     \<and> a_child a' = a_child a \<and> a_user_hard_timeout a' = a_user_hard_timeout a"

text \<open>Only \<open>x\_emitted\<close> carries the emitted run states.\<close>

lemma run_states_fields [simp]:
  "run_states (a\<lparr>a_protocol := v0\<rparr>) = run_states a"
  "run_states (a\<lparr>a_codex := v1\<rparr>) = run_states a"
  "run_states (a\<lparr>a_codex_startup := v2\<rparr>) = run_states a"
  "run_states (a\<lparr>a_codex_ready := v3\<rparr>) = run_states a"
  "run_states (a\<lparr>a_codex_overrides := v4\<rparr>) = run_states a"
  "run_states (a\<lparr>a_state := v5\<rparr>) = run_states a"
  "run_states (a\<lparr>a_stdin := v6\<rparr>) = run_states a"
  "run_states (a\<lparr>a_child := v7\<rparr>) = run_states a"
  "run_states (a\<lparr>a_cancelled := v8\<rparr>) = run_states a"
  "run_states (a\<lparr>a_pending_interrupt := v9\<rparr>) = run_states a"
  "run_states (a\<lparr>a_control_waiters := v10\<rparr>) = run_states a"
  "run_states (a\<lparr>a_active_turn := v11\<rparr>) = run_states a"
  "run_states (a\<lparr>a_active_extractor := v12\<rparr>) = run_states a"
  "run_states (a\<lparr>a_queued_user := v13\<rparr>) = run_states a"
  "run_states (a\<lparr>a_queued_internal := v14\<rparr>) = run_states a"
  "run_states (a\<lparr>a_next_turn_index := v15\<rparr>) = run_states a"
  "run_states (a\<lparr>a_next_auto_ctx_id := v16\<rparr>) = run_states a"
  "run_states (a\<lparr>a_next_turn_seq := v17\<rparr>) = run_states a"
  "run_states (a\<lparr>a_last_auto_context_for := v18\<rparr>) = run_states a"
  "run_states (a\<lparr>a_must_run_internal_for_turn := v19\<rparr>) = run_states a"
  "run_states (a\<lparr>a_quarantine := v20\<rparr>) = run_states a"
  "run_states (a\<lparr>a_quarantine_deadline := v21\<rparr>) = run_states a"
  "run_states (a\<lparr>a_interrupt_sent := v22\<rparr>) = run_states a"
  "run_states (a\<lparr>a_quarantine_from_internal := v23\<rparr>) = run_states a"
  "run_states (a\<lparr>a_terminated := v24\<rparr>) = run_states a"
  "run_states (a\<lparr>a_json_parse_fail_count := v25\<rparr>) = run_states a"
  "run_states (a\<lparr>a_ralph_loop := v26\<rparr>) = run_states a"
  "run_states (a\<lparr>a_ralph_needs_dispatch := v27\<rparr>) = run_states a"
  "run_states (a\<lparr>a_pending := v28\<rparr>) = run_states a"
  "run_states (a\<lparr>a_remembered_tools := v29\<rparr>) = run_states a"
  "run_states (a\<lparr>x_wire := v30\<rparr>) = run_states a"
  "run_states (a\<lparr>x_log := v31\<rparr>) = run_states a"
  "run_states (a\<lparr>x_realtime := v32\<rparr>) = run_states a"
  "run_states (a\<lparr>x_status_changed := v33\<rparr>) = run_states a"
  "run_states (a\<lparr>x_replies := v34\<rparr>) = run_states a"
  "run_states (a\<lparr>x_waiter_out := v35\<rparr>) = run_states a"
  "run_states (a\<lparr>x_snapshots := v36\<rparr>) = run_states a"
  "run_states (a\<lparr>x_notified := v37\<rparr>) = run_states a"
  "run_states (a\<lparr>x_store := v38\<rparr>) = run_states a"
  "run_states (a\<lparr>x_io := v39\<rparr>) = run_states a"
  "run_states (a\<lparr>x_uuids := v40\<rparr>) = run_states a"
  "run_states (a\<lparr>x_killed := v41\<rparr>) = run_states a"
  "run_states (a\<lparr>x_panicked := v42\<rparr>) = run_states a"
  by (simp_all add: run_states_def)

lemma quiet_ready: "quiet a' a \<Longrightarrow> dispatch_gate a' = dispatch_gate a"
  by (simp add: dispatch_gate_def)

lemma send_waiter_quiet [simp]: "quiet (send_waiter ch v a) a"
  by (simp add: send_waiter_def run_states_def)

lemma insert_waiter_quiet [simp]: "quiet (insert_waiter rid ch a) a"
  by (simp add: insert_waiter_def run_states_def)

lemma handle_codex_control_quiet [simp]:
  "a_codex a \<noteq> None \<Longrightarrow> quiet (snd (handle_codex_control w subtype request rid ch c a)) a"
  by (simp add: handle_codex_control_def run_codex_query_def run_codex_action_def case_prod_beta
      split: option.split sum.split)

lemma handle_send_control_quiet [simp]:
  "quiet (snd (handle_send_control_async w request ch a)) a"
  by (simp add: handle_send_control_async_def Let_def split: option.split)

lemma clear_pending_quiet [simp]: "quiet (clear_pending_interactive_request rid a) a"
  by (simp add: clear_pending_interactive_request_def run_states_def)

lemma write_interactive_quiet [simp]:
  "quiet (snd (write_interactive_response w kind rid v a)) a"
  by (simp add: write_interactive_response_def case_prod_beta 
      split: option.split sum.split)

lemma interaction_quiet [simp]:
  "quiet (snd (persist_interaction_started w rid ik res a)) a"
  "quiet (snd (persist_interaction_failed w rid ik e a)) a"
  "quiet (snd (persist_interaction_resolved w rid ik res a)) a"
  by (simp_all add: interaction_defs run_states_persist_durable)

lemma deliver_quiet [simp]:
  "quiet (snd (deliver_interaction_response w kind rid ik res v a)) a"
  by (simp add: deliver_interaction_response_def case_prod_beta split: sum.split)

lemma remember_quiet [simp]: "quiet (remember tool a) a"
  by (simp add: remember_def run_states_def split: option.split)

lemma respond_permission_quiet [simp]:
  "quiet (snd (handle_respond_permission w rid v remember_tool a)) a"
  by (simp add: handle_respond_permission_def)

lemma cancel_control_quiet [simp]:
  "quiet (snd (handle_cancel_control_request w rid a)) a"
  by (simp add: handle_cancel_control_request_def cancel_written_def Let_def case_prod_beta
      run_states_persist_durable split: sum.split option.split)

lemma take_waiter_quiet [simp]: "quiet (take_waiter rid v a) a"
  by (simp add: take_waiter_def  split: option.split)

lemma drop_waiter_quiet [simp]: "quiet (drop_waiter rid a) a"
  by (simp add: drop_waiter_def run_states_def)

lemma on_control_response_quiet [simp]: "quiet (on_control_response v a) a"
  by (simp add: on_control_response_def split: option.split)

lemma insert_pending_quiet [simp]: "quiet (insert_pending now rid k st d a) a"
  by (simp add: insert_pending_def run_states_def)

lemma notify_quiet [simp]: "quiet (notify a) a"
  by (simp add: notify_def run_states_def)

lemma emit_realtime_quiet [simp]: "quiet (emit_realtime ev a) a"
  by (simp add: emit_realtime_def run_states_def)

lemma handle_control_event_quiet [simp]: "quiet (handle_control_event w now v ty a) a"
  by (simp add: handle_control_event_def control_event_defs permission_prompt_event_def Let_def)

lemma handle_control_internal_quiet [simp]:
  "quiet (handle_control_event_internal w v ty a) a"
  by (simp add: handle_control_event_internal_def Let_def split: sum.split)

lemma handle_unparsed_quiet [simp]: "quiet (handle_unparsed w text a) a"
  by (simp add: handle_unparsed_def Let_def)

lemma handle_stderr_line_quiet [simp]: "quiet (handle_stderr_line w line a) a"
  by (simp add: handle_stderr_line_def Let_def)

lemma track_interactive_quiet [simp]: "quiet (track_interactive now pis a) a"
  unfolding track_interactive_def by (induction pis arbitrary: a) (simp_all add: case_prod_beta)

lemma tick_codex_quiet [simp]: "quiet (tick_codex w now a) a"
  by (simp add: tick_codex_def case_prod_beta  split: option.split)

lemma handshake_quiet [simp]: "quiet (handshake w a) a"
  by (simp add: handshake_def )

text \<open>The Codex events are quiet except for the run states among them.\<close>

lemma emit_codex_events_quiet [simp]:
  "turn_frame (emit_codex_events w evs a) a"
  "a_codex (emit_codex_events w evs a) = a_codex a"
  "x_panicked (emit_codex_events w evs a) = x_panicked a"
  "a_state (emit_codex_events w evs a) = a_state a"
  unfolding emit_codex_events_def by (induction evs arbitrary: a; simp)+

section \<open>The channels of the callers\<close>

text \<open>The reply channels the actor still owes an answer, and those it has answered.\<close>

definition channels :: "actor \<Rightarrow> nat multiset" where
  "channels a = mset (map tk_reply (a_queued_user a)) + mset (map fst (x_replies a))"

lemma channels_cong:
  "a_queued_user a' = a_queued_user a \<Longrightarrow> x_replies a' = x_replies a \<Longrightarrow> channels a' = channels a"
  by (simp add: channels_def)

lemma channels_reply [simp]: "channels (reply ch v a) = add_mset ch (channels a)"
  by (simp add: channels_def)

lemma emit_ralph_complete_quiet [simp]:
  "a_queued_user (emit_ralph_complete w reason a) = a_queued_user a"
  "x_replies (emit_ralph_complete w reason a) = x_replies a"
  "a_active_turn (emit_ralph_complete w reason a) = a_active_turn a"
  "a_quarantine (emit_ralph_complete w reason a) = a_quarantine a"
  "a_terminated (emit_ralph_complete w reason a) = a_terminated a"
  "a_codex (emit_ralph_complete w reason a) = a_codex a"
  "a_codex_ready (emit_ralph_complete w reason a) = a_codex_ready a"
  "a_stdin (emit_ralph_complete w reason a) = a_stdin a"
  "x_panicked (emit_ralph_complete w reason a) = x_panicked a"
  "emission_frame (emit_ralph_complete w reason a) a"
  by (simp_all add: emit_ralph_complete_def Let_def)

lemma ralph_write_failed_quiet [simp]:
  "a_queued_user (ralph_write_failed w now a) = a_queued_user a"
  "x_replies (ralph_write_failed w now a) = x_replies a"
  "a_active_turn (ralph_write_failed w now a) = a_active_turn a"
  "a_codex (ralph_write_failed w now a) = a_codex a"
  "x_panicked (ralph_write_failed w now a) = x_panicked a"
  "emission_frame (ralph_write_failed w now a) a"
  by (simp_all add: ralph_write_failed_def Let_def split: option.split)

lemma ralph_execute_quiet [simp]:
  "a_queued_user (ralph_execute w now act a) = a_queued_user a"
  "x_replies (ralph_execute w now act a) = x_replies a"
  "a_active_turn (ralph_execute w now act a) = a_active_turn a"
  "a_codex (ralph_execute w now act a) = a_codex a"
  "x_panicked (ralph_execute w now act a) = x_panicked a"
  "emission_frame (ralph_execute w now act a) a"
  by (simp_all add: ralph_execute_def split: ralph_action.split)

lemma ralph_on_turn_end_quiet [simp]:
  "a_queued_user (ralph_on_turn_end w now origin failed a) = a_queued_user a"
  "x_replies (ralph_on_turn_end w now origin failed a) = x_replies a"
  "a_active_turn (ralph_on_turn_end w now origin failed a) = a_active_turn a"
  "a_codex (ralph_on_turn_end w now origin failed a) = a_codex a"
  "x_panicked (ralph_on_turn_end w now origin failed a) = x_panicked a"
  "emission_frame (ralph_on_turn_end w now origin failed a) a"
  by (simp_all add: ralph_on_turn_end_def case_prod_beta  split: option.split)

end
