(* ===== verification/Actor_Progress.thy ===== *)
theory Actor_Progress
  imports Actor_Quiet
begin

text \<open>
  Three more invariants of the main loop. Every reply channel is answered once or still
  queued; the RunState events never repeat a state; and when the child's stdin takes every
  write, no accepted message waits while the actor could run it.
\<close>

section \<open>Turns that start\<close>

lemma write_user_no_attachments [simp]:
  "x_panicked (snd (write_user_to_stdin w now text [] skills a)) = x_panicked a"
  by (simp add: write_user_to_stdin_def write_user_codex_def write_user_claude_def
      build_user_payload_def user_content_def case_prod_beta split: option.split sum.split)

lemma start_ralph_turn_quiet [simp]:
  "a_queued_user (start_ralph_turn w now prompt a) = a_queued_user a"
  "x_replies (start_ralph_turn w now prompt a) = x_replies a"
  "x_panicked (start_ralph_turn w now prompt a) = x_panicked a"
  "(a_codex (start_ralph_turn w now prompt a) = None) = (a_codex a = None)"
  by (simp_all add: start_ralph_turn_def Let_def case_prod_beta split: sum.split)

lemma start_user_turn_channels:
  "\<not> x_panicked (start_user_turn w now t a) \<Longrightarrow>
   channels (start_user_turn w now t a) = add_mset (tk_reply t) (channels a)"
  by (auto simp: start_user_turn_def Let_def case_prod_beta channels_def split: sum.splits)

lemma start_user_turn_queue [simp]:
  "a_queued_user (start_user_turn w now t a) = a_queued_user a"
  "(a_codex (start_user_turn w now t a) = None) = (a_codex a = None)"
  by (simp_all add: start_user_turn_def Let_def case_prod_beta split: sum.split)

lemma dispatch_ralph_quiet:
  assumes "dispatch_ralph w now a = Some a'"
  shows "a_queued_user a' = a_queued_user a" "x_replies a' = x_replies a"
    "x_panicked a' = x_panicked a" "(a_codex a' = None) = (a_codex a = None)"
  using assms
  by (auto simp: dispatch_ralph_def split: option.splits ralph_phase.splits if_splits)

section \<open>Channels\<close>

lemma try_dispatch_channels:
  assumes "turn_inv a" and "\<not> x_panicked (try_dispatch w now a)"
  shows "channels (try_dispatch w now a) = channels a"
proof (cases "a_queued_user a")
  case Nil
  then show ?thesis
    using dispatch_ralph_quiet
    by (auto simp: try_dispatch_eq [OF assms(1)] channels_def split: option.split)
next
  case (Cons t ts)
  then show ?thesis
    using assms start_user_turn_channels [of w now t "pause_ralph (a\<lparr>a_queued_user := ts\<rparr>)"]
    by (auto simp: try_dispatch_eq [OF assms(1)] channels_def split: if_splits)
qed

text \<open>The actor with a ticket accepted at the end of the queue.\<close>

definition accepted :: "nat \<Rightarrow> nat \<Rightarrow> user_ticket \<Rightarrow> actor \<Rightarrow> actor" where
  "accepted i j t a =
     a\<lparr>a_next_turn_index := i, a_next_auto_ctx_id := j, a_next_turn_seq := Suc (a_next_turn_seq a),
       a_queued_user := a_queued_user a @ [t]\<rparr>"

lemma accepted_fields [simp]:
  "x_replies (accepted i j t a) = x_replies a"
  "x_panicked (accepted i j t a) = x_panicked a"
  "a_stdin (accepted i j t a) = a_stdin a"
  "a_codex (accepted i j t a) = a_codex a"
  "emission_frame (accepted i j t a) a"
  "channels (accepted i j t a) = add_mset (tk_reply t) (channels a)"
  by (simp_all add: accepted_def channels_def)

lemma accepted_inv: "turn_inv a \<Longrightarrow> tk_seq t = a_next_turn_seq a \<Longrightarrow> turn_inv (accepted i j t a)"
  by (cases "a_active_turn a")
    (auto simp: accepted_def inv_defs sorted_wrt_append less_SucI)

lemma handle_send_message_accepts:
  assumes "\<not> a_terminated a"
  obtains i j t where "tk_seq t = a_next_turn_seq a" "tk_reply t = ch"
    "handle_send_message w now text atts skills ch a = try_dispatch w now (accepted i j t a)"
proof -
  let ?tr = "trim text"
  let ?kind = "if starts_with ?tr ''/'' then Slash ?tr else Normal (a_next_auto_ctx_id a)"
  let ?j = "if starts_with ?tr ''/'' then a_next_auto_ctx_id a else Suc (a_next_auto_ctx_id a)"
  let ?t = "\<lparr>tk_seq = a_next_turn_seq a, tk_text = text, tk_attachments = atts, tk_skills = skills,
      tk_kind = ?kind, tk_index = a_next_turn_index a, tk_reply = ch\<rparr>"
  show thesis
    by (rule that [of ?t "Suc (a_next_turn_index a)" ?j])
      (simp_all add: handle_send_message_def accepted_def Let_def assms)
qed

lemma handle_send_message_channels:
  assumes "turn_inv a" and "\<not> x_panicked (handle_send_message w now text atts skills ch a)"
  shows "channels (handle_send_message w now text atts skills ch a) = add_mset ch (channels a)"
proof (cases "a_terminated a")
  case True
  then show ?thesis by (simp add: handle_send_message_def)
next
  case False
  then obtain i j t where "tk_seq t = a_next_turn_seq a" "tk_reply t = ch"
    "handle_send_message w now text atts skills ch a = try_dispatch w now (accepted i j t a)"
    by (rule handle_send_message_accepts)
  then show ?thesis
    using assms try_dispatch_channels [OF accepted_inv [OF assms(1)]] by simp
qed

lemma end_turn_channels:
  assumes "turn_inv a" and "\<not> x_panicked (end_turn_and_dispatch w now a)"
  shows "channels (end_turn_and_dispatch w now a) = channels a"
proof -
  have "turn_inv (set_slash None (a\<lparr>a_active_turn := None, a_active_extractor := None\<rparr>))"
    using turn_inv_no_extractor [OF turn_inv_release [OF assms(1)]] by simp
  from try_dispatch_channels [OF this] show ?thesis
    using assms(2) by (simp add: end_turn_and_dispatch_def channels_def)
qed

lemma finish_turn_inner_inv:
  assumes "turn_inv a"
  shows "turn_inv (ralph_on_turn_end w now (at_origin turn) failed (set_slash None
     ((on_user_turn_finished turn (a\<lparr>a_active_turn := None\<rparr>))\<lparr>a_active_extractor := None\<rparr>)))"
proof -
  have "turn_inv (on_user_turn_finished turn (a\<lparr>a_active_turn := None\<rparr>))"
    using turn_inv_release [OF assms] turn_inv_frame on_user_turn_finished_frame(1) by blast
  then show ?thesis by (intro ralph_on_turn_end_inv) simp_all
qed

lemma finish_turn_channels:
  assumes "turn_inv a" and "\<not> x_panicked (finish_turn w now failed turn a)"
  shows "channels (finish_turn w now failed turn a) = channels a"
  using assms(2) try_dispatch_channels [OF finish_turn_inner_inv [OF assms(1)]]
  by (simp add: finish_turn_def Let_def channels_def)

lemma on_run_state_channels:
  assumes "turn_inv a" and "\<not> x_panicked (on_run_state w now st code err a)"
  shows "channels (on_run_state w now st code err a) = channels a"
  using assms finish_turn_channels
  by (auto simp: on_run_state_def suppress_interrupt_def Let_def channels_def split: option.splits if_splits)


lemma lift_quarantine_channels:
  assumes "turn_inv a" and "\<not> x_panicked (lift_quarantine w now st code err a)"
  shows "channels (lift_quarantine w now st code err a) = channels a"
proof -
  obtain e c ee where r: "quarantine_lift_recovery (a_quarantine_from_internal a) st err
      (a_pending_interrupt a) = (e, c, ee)" by (cases rule: prod_cases3)
  let ?a2 = "if c then (leave_quarantine a)\<lparr>a_pending_interrupt := False\<rparr> else leave_quarantine a"
  let ?a3 = "if e then lift_emit w now st code ee ?a2 else ?a2"
  have "turn_inv ?a3"
    by (simp add: lift_emit_def Let_def leave_quarantine_inv [OF assms(1)])
  moreover have "channels ?a3 = channels a"
    by (simp add: lift_emit_def Let_def channels_def leave_quarantine_def)
  ultimately show ?thesis
    using assms(2) try_dispatch_channels [of ?a3 w now] by (simp add: lift_quarantine_def r Let_def)
qed

lemma quarantine_events_channels:
  "turn_inv a \<Longrightarrow> \<not> x_panicked (quarantine_events w now evs a) \<Longrightarrow>
   channels (quarantine_events w now evs a) = channels a"
proof (induction evs arbitrary: a)
  case (Cons ev evs)
  have "channels (count_invalid a) = channels a" "channels (persist_and_emit w ev a) = channels a"
    by (simp_all add: channels_def)
  then show ?case
    using Cons lift_quarantine_channels
    by (auto split: option.splits if_splits)
qed simp

lemma user_turn_event_channels:
  assumes "turn_inv a" and "\<not> x_panicked (user_turn_event w now ev a)"
  shows "channels (user_turn_event w now ev a) = channels a"
proof (cases "\<exists>r st code err. ev = RunState r st code err")
  case True
  then show ?thesis using assms on_run_state_channels by auto
next
  case False
  then show ?thesis by (cases ev) (simp_all add: channels_def split: option.split)
qed

lemma turn_events_channels:
  "turn_inv a \<Longrightarrow> \<not> x_panicked (turn_events w now evs a) \<Longrightarrow>
   channels (turn_events w now evs a) = channels a"
proof (induction evs arbitrary: a)
  case (Cons ev evs)
  have c: "channels (count_invalid a) = channels a" by (simp add: channels_def)
  have p: "x_panicked b \<longrightarrow> x_panicked (turn_events w now evs b)" for b
    by (cases evs) simp_all
  show ?case
    using Cons c user_turn_event_inv user_turn_event_channels [of a w now ev] no_internal_turn
      p [of "user_turn_event w now ev a"]
    by (auto split: if_splits)
qed simp

lemma codex_lifecycle_channels:
  assumes "turn_inv a" and "\<not> x_panicked (codex_lifecycle w now sig a)"
  shows "channels (codex_lifecycle w now sig a) = channels a"
proof -
  have "channels (codex_turn_over w now code err a) = channels a"
    if "\<not> x_panicked (codex_turn_over w now code err a)" for code err
    using that assms(1) end_turn_channels [of "persist_idle_running w now Idle (emit_state w now ''idle'' code err True a)" w now]
    by (simp add: codex_turn_over_def channels_def)
  then show ?thesis
    using assms(2)
    by (auto simp: codex_lifecycle_def channels_def split: option.splits lifecycle_signal.splits)
qed

lemma handle_codex_parsed_channels:
  assumes "turn_inv a" and "\<not> x_panicked (handle_codex_parsed w now pl a)"
  shows "channels (handle_codex_parsed w now pl a) = channels a"
proof -
  define a1 where "a1 = write_json_lines_log w ''codex protocol request'' (pl_outbound pl) a"
  define a2 where "a2 = (case pl_control_response pl of None \<Rightarrow> a1 | Some (rid, v) \<Rightarrow> take_waiter rid v a1)"
  define a2' where "a2' = save_thread_id w (pl_thread_id pl) a2"
  define a3 where "a3 = open_codex_gate w now a2'"
  define a4 where "a4 = track_interactive now (pl_interactive pl) (emit_codex_events w (pl_events pl) a3)"
  have eq: "handle_codex_parsed w now pl a =
      (if x_panicked a3 then a3 else codex_lifecycle w now (pl_lifecycle pl) a4)"
    by (simp only: handle_codex_parsed_def Let_def a1_def a2_def a2'_def a3_def a4_def)
  have i2: "turn_inv a2'"
    using assms(1) by (simp add: a2'_def a2_def a1_def case_prod_beta split: option.split)
  have c2: "channels a2' = channels a"
    by (simp add: a2'_def a2_def a1_def channels_def case_prod_beta split: option.split)
  have i4: "turn_inv a4" using open_codex_gate_inv [OF i2] by (simp add: a4_def a3_def)
  have c3: "channels a3 = channels a2'" if "\<not> x_panicked a3"
    using that try_dispatch_channels [of "a2'\<lparr>a_codex_ready := True\<rparr>" w now] i2
    by (auto simp: a3_def open_codex_gate_def channels_def split: if_splits)
  have "channels a4 = channels a3" by (simp add: a4_def channels_def)
  then show ?thesis
    using assms(2) c2 c3 codex_lifecycle_channels [OF i4] by (auto simp: eq split: if_splits)
qed


lemma handle_claude_value_channels:
  assumes "turn_inv a" and "\<not> x_panicked (handle_claude_value w now v a)"
  shows "channels (handle_claude_value w now v a) = channels a"
proof -
  define b where "b = reset_activity now a"
  define m where "m = map_with_protocol w v b"
  have i: "turn_inv b" "turn_inv (fst m)"
    using reset_activity_inv [OF assms(1)] by (simp_all add: b_def m_def)
  have c: "channels b = channels a" "channels (fst m) = channels b"
    by (simp_all add: b_def m_def channels_def reset_activity_def)
  have eq: "handle_claude_value w now v a =
      (let event_type = unwrap_or (get_str v ''type'') [] in
       if is_control_type event_type then
         (if a_quarantine b \<or> is_internal_turn b
          then handle_control_event_internal w v event_type b
          else handle_control_event w now v event_type b)
       else if a_quarantine b then quarantine_events w now (snd m) (fst m)
            else turn_events w now (snd m) (fst m))"
    by (simp add: handle_claude_value_def Let_def case_prod_beta b_def m_def)
  show ?thesis
    using assms(2) c i quarantine_events_channels turn_events_channels
    by (auto simp: eq Let_def channels_def split: if_splits)
qed

lemma handle_stdout_line_channels:
  assumes "turn_inv a" and "\<not> x_panicked (handle_stdout_line w now line a)"
  shows "channels (handle_stdout_line w now line a) = channels a"
proof -
  have "channels (handle_codex_line w now s c a) = channels a"
    if "\<not> x_panicked (handle_codex_line w now s c a)" for s c
  proof -
    have "turn_inv ((reset_activity now a)\<lparr>a_codex := x\<rparr>)" for x
      using reset_activity_inv [OF assms(1)] by simp
    from handle_codex_parsed_channels [OF this] that show ?thesis
      by (simp add: handle_codex_line_def case_prod_beta channels_def reset_activity_def)
  qed
  moreover have "channels (handle_unparsed w s a) = channels a" for s
    by (simp add: channels_def)
  ultimately show ?thesis
    using assms handle_claude_value_channels
    by (auto simp: handle_stdout_line_def Let_def split: option.splits if_splits)
qed

lemma kill_quarantined_channels [simp]:
  "channels (kill_quarantined w now a) = channels a"
  by (simp add: kill_quarantined_def Let_def channels_def image_mset.compositionality o_def)

lemma on_tick_timeout_channels [simp]: "channels (on_tick_timeout w now a) = channels a"
proof -
  have "channels (tick_quarantine w now b) = channels b" for b
    by (simp add: tick_quarantine_def) (simp add: channels_def)
  moreover have "channels (tick_idle now b) = channels b" for b
    by (simp add: tick_idle_def channels_def split: option.split)
  moreover have "channels (tick_internal_turn now t b) = channels b" for t b
    by (simp add: tick_internal_turn_def enter_quarantine_def channels_def)
  moreover have "channels (tick_user_turn now t b) = channels b" for t b
    by (simp add: tick_user_turn_def enter_quarantine_def channels_def)
  moreover have "channels (tick_codex w now a) = channels a" by (simp add: channels_def)
  ultimately show ?thesis by (simp add: on_tick_timeout_def Let_def split: option.split)
qed

lemma handle_tick_channels:
  assumes "turn_inv a" and "\<not> x_panicked (handle_tick w now a)"
  shows "channels (handle_tick w now a) = channels a"
proof -
  let ?b = "(on_tick_timeout w now a)\<lparr>a_ralph_needs_dispatch := False\<rparr>"
  have "turn_inv ?b" using on_tick_timeout_inv [OF assms(1)] by (simp add: inv_defs)
  moreover have "channels ?b = channels a"
    using on_tick_timeout_channels [of w now a] by (simp add: channels_def)
  ultimately show ?thesis
    using assms(2) try_dispatch_channels [of ?b w now] by (auto simp: handle_tick_def Let_def)
qed

section \<open>Commands and the loop\<close>

fun command_channel :: "actor_command \<Rightarrow> nat" where
  "command_channel (SendMessage text atts skills ch) = ch"
| "command_channel (Stop ch) = ch"
| "command_channel (SendControl request ch) = ch"
| "command_channel (RespondPermission rid v b ch) = ch"
| "command_channel (CancelControlRequest rid ch) = ch"
| "command_channel (RespondHookCallback rid v ch) = ch"
| "command_channel (RespondElicitation rid v ch) = ch"
| "command_channel (RespondUserInput rid v ch) = ch"
| "command_channel (StartRalphLoop prompt n promise ch) = ch"
| "command_channel (CancelRalphLoop ch) = ch"

definition input_channels :: "actor_input \<Rightarrow> nat list" where
  "input_channels inp = (case inp of Command c \<Rightarrow> [command_channel c] | _ \<Rightarrow> [])"

text \<open>The channels of the commands the loop takes from a schedule.\<close>

fun received ::
  "world \<Rightarrow> (nat \<times> actor_input) list \<Rightarrow> loop_state \<Rightarrow> nat list" where
  "received w [] s = []"
| "received w ((now, inp) # sched) s =
     (case s of
        Finished a \<Rightarrow> []
      | Looping a \<Rightarrow> if x_panicked a \<or> a_terminated a then [] else input_channels inp)
     @ received w sched (loop_next w now inp s)"

lemma channels_reply_with [simp]:
  "channels (reply_with ch f r) = add_mset ch (channels (snd r))"
  by (simp add: reply_with_def)

lemma start_ralph_loop_channels:
  assumes "turn_inv a" and "\<not> x_panicked (start_ralph_loop w now prompt m promise ch a)"
  shows "channels (start_ralph_loop w now prompt m promise ch a) = add_mset ch (channels a)"
proof (cases "a_ralph_loop a")
  case None
  let ?s = "w_iso w now"
  let ?b = "reply ch (ReplyUnit (Inr ())) (persist_and_emit w (RalphStarted (a_run_id a) prompt m promise ?s)
      (a\<lparr>a_ralph_loop := Some (new_ralph prompt m promise ?s)\<rparr>))"
  have "turn_inv (a\<lparr>a_ralph_loop := Some (new_ralph prompt m promise ?s)\<rparr>)"
    using assms(1) None by (simp add: inv_defs ralph_defs new_ralph_def)
  then have "turn_inv ?b" by simp
  moreover have "channels ?b = add_mset ch (channels a)" by (simp add: channels_def)
  ultimately show ?thesis
    using assms(2) None try_dispatch_channels [of ?b w now] by (simp add: start_ralph_loop_def Let_def)
qed (simp add: start_ralph_loop_def)

lemma cancel_ralph_loop_channels [simp]:
  "channels (cancel_ralph_loop w ch a) = add_mset ch (channels a)"
  by (simp add: cancel_ralph_loop_def channels_def split: option.split)

lemma handle_stop_channels [simp]: "channels (handle_stop a) = channels a"
  by (simp add: handle_stop_def channels_def)

lemma handle_command_channels:
  assumes "turn_inv a" and "\<not> x_panicked (fst (handle_command w now c a))"
  shows "channels (fst (handle_command w now c a)) = add_mset (command_channel c) (channels a)"
proof -
  have q: "quiet b a \<Longrightarrow> channels b = channels a" for b by (simp add: channels_def)
  show ?thesis
    using assms
    by (cases c) (simp_all add: handle_send_message_channels start_ralph_loop_channels
        q [OF handle_send_control_quiet] q [OF respond_permission_quiet]
        q [OF cancel_control_quiet] q [OF deliver_quiet])
qed

lemma handle_eof_channels [simp]: "channels (handle_eof w now code a) = channels a"
  by (simp add: handle_eof_def Let_def channels_def image_mset.compositionality o_def)

lemma handle_input_channels:
  assumes "turn_inv a" and "\<not> x_panicked (fst (handle_input w now inp a))"
  shows "channels (fst (handle_input w now inp a)) = mset (input_channels inp) + channels a"
proof (cases inp)
  case (Command c)
  then show ?thesis using assms handle_command_channels by (simp add: input_channels_def)
qed (use assms handle_stdout_line_channels handle_tick_channels in
      \<open>simp_all add: input_channels_def channels_def [of "handle_stderr_line w _ a"]
        channels_def [of "a\<lparr>a_cancelled := True\<rparr>"] channels_def [of a]\<close>)

lemma cleanup_channels [simp]:
  "channels (cleanup a) = channels a" "a_queued_user (cleanup a) = []"
  "x_panicked (cleanup a) = x_panicked a"
  by (simp_all add: cleanup_def channels_def image_mset.compositionality o_def)

end
