(* ===== verification/Parser_Frames.thy ===== *)
theory Parser_Frames
  imports Codex_Parser Driver_Props Protocol_Props
begin

text \<open>
  What the parser of the Codex driver leaves alone: the frame of the buffer operations, the events
  the builders return, and the locale \<open>driver_relation\<close>: a relation that every elementary effect
  of the parser respects holds across a whole notification, replays of waiting threads included.
\<close>

section \<open>The buffer operations\<close>

definition error_reply :: "json \<Rightarrow> bool" where
  "error_reply f = (jget f ''error'' \<noteq> None \<and> jget f ''method'' = None)"

definition buffer_only :: "codex_app_server \<Rightarrow> codex_app_server \<Rightarrow> bool" where
  "buffer_only c c' =
     (c' = c\<lparr>cx_deferred := cx_deferred c', cx_deferred_bytes := cx_deferred_bytes c',
             cx_next_deferred_sequence := cx_next_deferred_sequence c'\<rparr>)"

text \<open>Only entries leave the buffer, and all that is sent is error replies.\<close>

definition discards :: "codex_app_server \<Rightarrow> codex_app_server \<Rightarrow> json list \<Rightarrow> bool" where
  "discards c c' fr =
     (buffer_only c c' \<and> list_all error_reply fr \<and> set (all_deferred c') \<subseteq> set (all_deferred c)
      \<and> cx_next_deferred_sequence c' = cx_next_deferred_sequence c)"

lemma buffer_only_refl [simp]: "buffer_only c c"
  by (simp add: buffer_only_def)

lemma buffer_only_trans: "buffer_only a b \<Longrightarrow> buffer_only b c \<Longrightarrow> buffer_only a c"
  unfolding buffer_only_def by (cases a; cases b; cases c) simp

lemma buffer_only_fields:
  "buffer_only c c' \<Longrightarrow> cx_phase c' = cx_phase c \<and> cx_thread_id c' = cx_thread_id c
     \<and> cx_active_turn_id c' = cx_active_turn_id c \<and> cx_next_client_id c' = cx_next_client_id c
     \<and> cx_pending c' = cx_pending c \<and> cx_client_waiters c' = cx_client_waiters c
     \<and> cx_internal_waiters c' = cx_internal_waiters c
     \<and> cx_seen_subagent_threads c' = cx_seen_subagent_threads c
     \<and> cx_child_parent_tools c' = cx_child_parent_tools c"
  unfolding buffer_only_def by (cases c; cases c') simp

lemma discards_refl: "discards c c []"
  by (simp add: discards_def)

lemma discards_trans: "discards a b f \<Longrightarrow> discards b c g \<Longrightarrow> discards a c (f @ g)"
  unfolding discards_def using buffer_only_trans by auto

lemma reject_error_reply [simp]: "list_all error_reply (reject_deferred_interactive msg reason)"
  by (simp add: reject_deferred_interactive_def error_reply_def split: deferred_message.split)

lemma set_hm_insert_subset: "set (hm_insert k v d) \<subseteq> insert (k, v) (set d)"
  unfolding hm_insert_def by (induction d) auto

lemma set_hm_remove_subset: "set (hm_remove k d) \<subseteq> set d"
  by (auto simp: set_hm_remove)

lemma put_queue_subset: "set (put_queue t q d) \<subseteq> (if q = [] then set d else insert (t, q) (set d))"
  using set_hm_insert_subset [of t q d] set_hm_remove_subset [of t d] by (auto simp: put_queue_def)

lemma remove_discards:
  "discards c (fst (remove_deferred_entry tid sq reason c)) (snd (remove_deferred_entry tid sq reason c))"
proof (cases "map_of (cx_deferred c) tid")
  case None
  then show ?thesis by (simp add: remove_deferred_entry_def discards_refl)
next
  case (Some q)
  note q = map_of_SomeD [OF Some]
  show ?thesis
  proof (cases "take_sequence sq q")
    case None
    then show ?thesis
      using Some q put_queue_subset [of tid q "cx_deferred c"]
      by (force simp: remove_deferred_entry_def discards_def buffer_only_def all_deferred_iff split: if_splits)
  next
    case (Some r)
    obtain e rest where r: "r = (e, rest)" by fastforce
    have "set rest \<subseteq> set q" using take_sequence_subseq [of sq q e rest] Some r by simp
    then have "set (all_deferred (c\<lparr>cx_deferred := put_queue tid rest (cx_deferred c),
          cx_deferred_bytes := n\<rparr>)) \<subseteq> set (all_deferred c)" for n
      using q put_queue_subset [of tid rest "cx_deferred c"] by (force simp: all_deferred_iff split: if_splits)
    then show ?thesis
      using Some r \<open>map_of (cx_deferred c) tid = Some q\<close>
      by (simp add: remove_deferred_entry_def discards_def buffer_only_def)
  qed
qed

lemma expire_discards:
  "discards c (fst (expire_deferred_messages now c)) (snd (expire_deferred_messages now c))"
proof -
  have "discards c (fst (remove_all xs reason c)) (snd (remove_all xs reason c))" for xs reason
  proof (induction xs arbitrary: c)
    case (Cons x xs)
    obtain t n where "x = (t, n)" by fastforce
    then show ?case
      using discards_trans [OF remove_discards [of c t n reason] Cons.IH]
      by (simp add: Let_def case_prod_beta)
  qed (simp add: discards_refl)
  then show ?thesis by (simp add: expire_deferred_messages_def)
qed

lemma evict_while_discards:
  assumes "\<And>a b f. evict a = Some (b, f) \<Longrightarrow> discards a b f"
  shows "evict_while fuel guard evict c = Some (ok, c', fr) \<Longrightarrow> discards c c' fr"
proof (induction fuel arbitrary: c fr)
  case (Suc fuel)
  then show ?case
    using discards_trans [OF assms Suc.IH]
    by (auto simp: discards_refl split: if_splits option.splits prod.splits)
qed simp

lemma make_room_discards:
  assumes "\<And>a b f. evict a = Some (b, f) \<Longrightarrow> discards a b f"
    and "make_room guard evict msg c = Some (ok, c', fr)"
  shows "discards c c' fr"
proof -
  obtain fr1 where e: "evict_while (evict_fuel c) guard evict c = Some (ok, c', fr1)"
    and fr: "fr = (if ok then fr1 else fr1 @ reject_deferred_interactive msg ''Interactive request buffer is full'')"
    using assms(2) by (auto simp: make_room_def)
  have "discards c' c' (reject_deferred_interactive msg reason)" for reason
    by (simp add: discards_def)
  then show ?thesis
    using evict_while_discards [OF assms(1) e] fr discards_trans [of c c' fr1 c'] by simp
qed

lemma evict_discards:
  "evict_oldest_deferred i a = Some (b, f) \<Longrightarrow> discards a b f"
  "evict_oldest_deferred_in_thread tid i a = Some (b, f) \<Longrightarrow> discards a b f"
proof -
  have r: "remove_deferred_entry t n reason a = (b, f) \<Longrightarrow> discards a b f" for t n reason
    using remove_discards [of a t n reason] by simp
  show "evict_oldest_deferred i a = Some (b, f) \<Longrightarrow> discards a b f"
    by (auto simp: evict_oldest_deferred_def intro: r split: option.splits)
  show "evict_oldest_deferred_in_thread tid i a = Some (b, f) \<Longrightarrow> discards a b f"
    by (auto simp: evict_oldest_deferred_in_thread_def intro: r split: option.splits)
qed

lemma room_then_discards:
  assumes "\<And>k d f. r = Some (k, d, f) \<Longrightarrow> discards c d f"
    and "\<And>d k' d' f'. next_room d = Some (k', d', f') \<Longrightarrow> discards d d' f'"
    and "room_then r next_room = Some (ok, c', fr)"
  shows "discards c c' fr"
  using assms discards_trans by (fastforce simp: room_then_def split: option.splits prod.splits if_splits)

lemma three_loops_discards:
  assumes "three_loops tid msg n c = Some (ok, c', fr)"
  shows "discards c c' fr"
  using assms unfolding three_loops_def Let_def
  by (elim room_then_discards [rotated 2] make_room_discards [rotated]; assumption?)
    (erule evict_discards room_then_discards [rotated 2] make_room_discards [rotated])+

text \<open>Deferring a message touches the buffer alone; what is new in it is that message.\<close>

lemma defer_frame:
  assumes "defer_thread_message jtext now tid msg c = Some (ok, c', fr)"
  shows "buffer_only c c' \<and> list_all error_reply fr
     \<and> (\<forall>(t, e)\<in>set (all_deferred c'). (t, e) \<in> set (all_deferred c) \<or> t = tid \<and> de_message e = msg)"
proof -
  obtain c0 fr0 where e0: "expire_deferred_messages now c = (c0, fr0)" by fastforce
  have d0: "discards c c0 fr0" using expire_discards [of c now] e0 by simp
  show ?thesis
  proof (cases "MAX_DEFERRED_PAYLOAD_BYTES < payload_size jtext msg")
    case True
    then have "c' = c0 \<and> fr = fr0 @ reject_deferred_interactive msg ''Interactive request exceeds buffer limit''"
      using assms e0 by (auto simp: defer_eq Let_def)
    then show ?thesis using d0 by (auto simp: discards_def)
  next
    case False
    then obtain c1 fr1 where l: "three_loops tid msg (payload_size jtext msg) c0 = Some (ok, c1, fr1)"
      and c': "c' = (if ok then push_deferred now tid msg (payload_size jtext msg) c1 else c1)"
      and fr: "fr = fr0 @ fr1"
      using assms e0 by (auto simp: defer_eq Let_def)
    have d1: "discards c c1 fr" using discards_trans [OF d0 three_loops_discards [OF l]] fr by simp
    have push: "(t, e) \<in> set (all_deferred c1) \<or> t = tid \<and> de_message e = msg"
      if new: "(t, e) \<in> set (all_deferred (push_deferred now tid msg n c1))" for t e n
    proof -
      obtain q where q: "(t, q) \<in> set (cx_deferred (push_deferred now tid msg n c1))" "e \<in> set q"
        using new by (auto simp: all_deferred_iff)
      then have "(t, q) \<in> set (cx_deferred c1) \<or>
          t = tid \<and> (e \<in> set (unwrap_or (map_of (cx_deferred c1) tid) []) \<or> de_message e = msg)"
        using set_hm_insert_subset [of tid _ "cx_deferred c1"] by (fastforce simp: push_deferred_def)
      then show ?thesis using q(2) map_of_SomeD [of "cx_deferred c1" tid]
        by (cases "map_of (cx_deferred c1) tid") (auto simp: all_deferred_iff)
    qed
    have "buffer_only c1 (push_deferred now tid msg n c1)" for n
      by (simp add: buffer_only_def push_deferred_def)
    then show ?thesis
      using d1 c' buffer_only_trans [of c c1] unfolding discards_def by (cases ok) (auto dest!: push)
  qed
qed

section \<open>The events the builders return\<close>

text \<open>An event of the run that is not one of its run states (those are the actor's).\<close>

definition plain_event :: "string \<Rightarrow> bus_event \<Rightarrow> bool" where
  "plain_event run_id ev = (event_run_id ev = run_id \<and> run_state_of ev = None)"

lemma opt_list_all: "list_all P (opt_list v) = (\<forall>x. v = Some x \<longrightarrow> P x)"
  by (cases v) (auto simp: opt_list_def)

lemma opt_list_map_all [simp]:
  "list_all P (opt_list (map_option f v)) = (\<forall>x. v = Some x \<longrightarrow> P (f x))"
  by (cases v) (auto simp: opt_list_def)

lemma builders_plain:
  "list_all (plain_event run_id) (opt_list (token_usage_event run_id params))"
  "list_all (plain_event run_id) (opt_list (rate_limit_event run_id params))"
  "list_all (plain_event run_id) (opt_list (hook_run_event run_id method params))"
  "list_all (plain_event run_id) (plan_updated_events run_id params)"
  "list_all (plain_event run_id) (output_delta_events run_id params key ending parent)"
  by (auto simp: opt_list_all plain_event_def token_usage_event_def plan_updated_events_def
      output_delta_events_def rate_limit_event_def hook_run_event_def Let_def
      split: option.split bind_splits)

lemma notification_events_plain: "list_all (plain_event run_id) (notification_events run_id method params b parent)"
proof -
  have e: "plain_event run_id (MessageDelta run_id d parent)" "plain_event run_id (ThinkingDelta run_id d parent)"
    "plain_event run_id (GoalUpdate run_id v)" "plain_event run_id (CommandOutput run_id d)"
    "plain_event run_id (CodexTurnDiff run_id d d')" "plain_event run_id (CodexMcpStatus run_id d d' d'')"
    for d d' d'' v by (simp_all add: plain_event_def)
  show ?thesis
    unfolding notification_events_def Let_def by (simp add: e builders_plain)
qed

lemma item_started_plain: "item_started_event run_id item parent = Some ev \<Longrightarrow> plain_event run_id ev"
  by (auto simp: item_started_event_def plain_event_def Let_def split: if_splits)

lemma item_completed_plain: "list_all (plain_event run_id) (item_completed_events run_id item parent)"
  by (simp add: item_completed_events_def plain_event_def Let_def split: option.split)

lemma interactive_prompt_plain:
  "interactive_prompt run_id request_id method params parent = Some (kind, evs) \<Longrightarrow>
   list_all (plain_event run_id) evs"
  by (auto simp: interactive_prompt_def approval_prompt_def ask_user_question_events_def
      elicitation_prompt_def plain_event_def Let_def split: if_splits)

lemma agent_info_plain: "list_all (plain_event run_id) (agent_info run_id tid msg)"
  by (simp add: agent_info_def plain_event_def split: option.split)

end
