(* ===== verification/Parser_Relation.thy ===== *)
theory Parser_Relation
  imports Parser_Frames
begin

text \<open>
  The locale \<open>driver_relation\<close>: a relation between the driver and its output before and after,
  respected by every elementary effect of the parser, holds across a whole notification, however
  deep the replays it sets off. \<open>inv\<close> is an invariant of the driver, \<open>ok\<close> the messages the
  relation speaks about, \<open>claimed\<close> the threads whose waiting messages are such messages.
\<close>

definition message_thread :: "deferred_message \<Rightarrow> string option" where
  "message_thread msg =
     (case msg of
        Notification m params \<Rightarrow> get_str params ''threadId''
      | Interactive m message \<Rightarrow> get_str (unwrap_or (jget message ''params'') JNull) ''threadId'')"

lemma message_thread_simps [simp]:
  "message_thread (Notification m params) = get_str params ''threadId''"
  "message_thread (Interactive m message) = get_str (unwrap_or (jget message ''params'') JNull) ''threadId''"
  by (simp_all add: message_thread_def)

text \<open>The arms only the session's own thread reaches.\<close>

definition own_arms :: "string \<Rightarrow> json \<Rightarrow> driver_out \<Rightarrow> driver_out list" where
  "own_arms run_id params s =
     [on_thread_started params s, on_turn_started params s, on_turn_completed s,
      on_turn_failed params s, on_error run_id params False s]"

definition not_child :: "codex_app_server \<Rightarrow> json \<Rightarrow> bool" where
  "not_child c params = (Option.bind (get_str params ''threadId'') (cx_child_parent_tools c) = None)"

text \<open>What a claimed notification can come to.\<close>

definition arm_results ::
  "(json \<Rightarrow> string option \<Rightarrow> driver_out \<Rightarrow> driver_out option)
   \<Rightarrow> string \<Rightarrow> string \<Rightarrow> json \<Rightarrow> string option \<Rightarrow> driver_out \<Rightarrow> driver_out \<Rightarrow> bool" where
  "arm_results reg run_id m params parent s t =
     (parent = None \<and> t \<in> set (own_arms run_id params s) \<or> t = s
      \<or> t = add_events (notification_events run_id m params (parent \<noteq> None) parent) s
      \<or> (\<exists>item. reg item parent (add_events (opt_list (item_started_event run_id item parent)) s) = Some t)
      \<or> (\<exists>item. reg item parent (add_events (item_completed_events run_id item parent) s) = Some t))"

lemma child_error [simp]: "on_error run_id params True s = s"
  by (simp add: on_error_def Let_def)

lemma claimed_arms:
  assumes "parent = None \<or> m \<noteq> ''thread/started''"
    and "claimed_notification reg run_id m params parent s = Some t"
  shows "arm_results reg run_id m params parent s t"
proof -
  define tests where "tests = (m = ''thread/started'', m = ''turn/started'', m = ''turn/completed'',
    m = ''turn/failed'', m = ''error'', m = ''item/started'', m = ''item/completed'')"
  obtain b1 b2 b3 b4 b5 b6 b7 where "tests = (b1, b2, b3, b4, b5, b6, b7)" by (cases tests) auto
  then have b: "(m = ''thread/started'') = b1" "(m = ''turn/started'') = b2" "(m = ''turn/completed'') = b3"
    "(m = ''turn/failed'') = b4" "(m = ''error'') = b5" "(m = ''item/started'') = b6" "(m = ''item/completed'') = b7"
    unfolding tests_def by (simp_all only: prod.inject)
  have c: "claimed_notification reg run_id m params parent s =
      (if b1 then Some (on_thread_started params s)
       else if b2 then Some (if parent = None then on_turn_started params s else s)
       else if b3 then Some (if parent = None then on_turn_completed s else s)
       else if b4 then Some (if parent = None then on_turn_failed params s else s)
       else if b5 then Some (on_error run_id params (parent \<noteq> None) s)
       else if b6 then (case jget params ''item'' of None \<Rightarrow> Some s
         | Some item \<Rightarrow> reg item parent (add_events (opt_list (item_started_event run_id item parent)) s))
       else if b7 then (case jget params ''item'' of None \<Rightarrow> Some s
         | Some item \<Rightarrow> reg item parent (add_events (item_completed_events run_id item parent) s))
       else Some (add_events (notification_events run_id m params (parent \<noteq> None) parent) s))"
    by (simp only: claimed_notification_def b)
  show ?thesis
    using assms unfolding arm_results_def own_arms_def c b(1)
    by (cases parent) (auto split: if_split_asm option.split_asm)
qed

locale driver_relation =
  fixes jtext :: "json \<Rightarrow> string"
    and now :: nat
    and run_id :: string
    and R :: "driver_out \<Rightarrow> driver_out \<Rightarrow> bool"
    and inv :: "codex_app_server \<Rightarrow> bool"
    and ok :: "codex_app_server \<Rightarrow> deferred_message \<Rightarrow> bool"
    and claimed :: "codex_app_server \<Rightarrow> string \<Rightarrow> bool"
  assumes R_refl: "R s s"
    and R_trans: "R s t \<Longrightarrow> R t u \<Longrightarrow> R s u"
    and R_inv: "R s t \<Longrightarrow> inv (fst s) \<Longrightarrow> inv (fst t)"
    and R_ok: "R s t \<Longrightarrow> inv (fst s) \<Longrightarrow> ok (fst s) msg \<Longrightarrow> ok (fst t) msg"
    and R_events: "list_all (plain_event run_id) evs \<Longrightarrow> R s (add_events evs s)"
    and R_defer: "inv (fst s) \<Longrightarrow> ok (fst s) msg \<Longrightarrow> is_foreign (fst s) (message_thread msg) \<Longrightarrow>
      defer_thread_message jtext now (unwrap_or (message_thread msg) []) msg (fst s) = Some (k, c', fr) \<Longrightarrow>
      R s (add_outbound fr (c', snd s))"
    and R_request: "inv (fst s) \<Longrightarrow> ok (fst s) (Interactive m v) \<Longrightarrow>
      handle_server_request jtext now run_id m v (fst s) = Some (c', r) \<Longrightarrow>
      R s (c', merge_replayed (snd s) r)"
    and R_own: "inv (fst s) \<Longrightarrow> ok (fst s) (Notification m params) \<Longrightarrow> not_child (fst s) params \<Longrightarrow>
      t \<in> set (own_arms run_id params s) \<Longrightarrow> R s t"
    and R_claim: "tid \<noteq> [] \<Longrightarrow> parent \<noteq> [] \<Longrightarrow> R s (claim_child tid parent s)"
    and R_identity: "R s (request_identity tid s)"
    and R_drop: "R s ((fst s)\<lparr>cx_deferred := hm_remove tid (cx_deferred (fst s))\<rparr>, snd s)"
    and R_bytes: "R s ((fst s)\<lparr>cx_deferred_bytes := n\<rparr>, snd s)"
    and R_reject: "R s (add_outbound (reject_deferred_interactive msg reason) s)"
    and claimed_child: "claimed (fst (claim_child tid parent s)) tid"
    and queued_ok: "inv c \<Longrightarrow> claimed c tid \<Longrightarrow> map_of (cx_deferred c) tid = Some q \<Longrightarrow>
      e \<in> set q \<Longrightarrow> ok c (de_message e)"
begin

definition respected :: "(string \<Rightarrow> json \<Rightarrow> driver_out \<Rightarrow> driver_out option) \<Rightarrow> bool" where
  "respected handle =
     (\<forall>m p s t. handle m p s = Some t \<longrightarrow> inv (fst s) \<longrightarrow> ok (fst s) (Notification m p) \<longrightarrow> R s t)"

lemma replay_entry_rel:
  assumes "respected handle" "inv (fst s)" "ok (fst s) (de_message e)"
    and "replay_entry jtext now run_id handle e s = Some t"
  shows "R s t"
proof -
  let ?c = "(fst s)\<lparr>cx_deferred_bytes := cx_deferred_bytes (fst s) - de_payload_bytes e\<rparr>"
  have R1: "R s (?c, snd s)" by (rule R_bytes)
  have i: "inv ?c" and o: "ok ?c (de_message e)"
    using R_inv [OF R1 assms(2)] R_ok [OF R1 assms(2,3)] by simp_all
  have "R (?c, snd s) t"
  proof (cases "DEFERRED_MESSAGE_TTL \<le> now - de_received_at e")
    case True
    then show ?thesis using assms(4) R_reject [of "(?c, snd s)"] by (auto simp: replay_entry_def Let_def)
  next
    case False
    show ?thesis
    proof (cases "de_message e")
      case (Notification m p)
      then have "handle m p (?c, snd s) = Some t"
        using False assms(4) by (simp add: replay_entry_def Let_def)
      then show ?thesis using assms(1) i o Notification unfolding respected_def by (metis fst_conv)
    next
      case (Interactive m v)
      then obtain c' r where h: "handle_server_request jtext now run_id m v ?c = Some (c', r)"
        and t: "t = (c', merge_replayed (snd s) r)"
        using False assms(4) by (auto simp: replay_entry_def Let_def)
      then show ?thesis using R_request [of "(?c, snd s)" m v c' r] i o Interactive by simp
    qed
  qed
  then show ?thesis using R_trans R1 by blast
qed

lemma replay_queue_rel:
  assumes "respected handle"
  shows "inv (fst s) \<Longrightarrow> \<forall>e\<in>set q. ok (fst s) (de_message e) \<Longrightarrow>
    replay_queue jtext now run_id handle q s = Some t \<Longrightarrow> R s t"
proof (induction q arbitrary: s)
  case Nil
  then show ?case by (simp add: R_refl)
next
  case (Cons e q)
  then obtain u where u: "replay_entry jtext now run_id handle e s = Some u"
    "replay_queue jtext now run_id handle q u = Some t" by (auto split: bind_splits)
  have R1: "R s u" using replay_entry_rel [OF assms Cons.prems(1) _ u(1)] Cons.prems(2) by simp
  moreover have "R u t"
    using Cons.IH [OF _ _ u(2)] R_inv [OF R1] R_ok [OF R1] Cons.prems by simp
  ultimately show ?case by (rule R_trans)
qed

lemma replay_rel:
  assumes "respected handle" "inv (fst s)" "claimed (fst s) tid"
    and "replay_deferred_thread jtext now run_id handle tid s = Some t"
  shows "R s t"
proof (cases "map_of (cx_deferred (fst s)) tid")
  case None
  then show ?thesis using assms(4) by (simp add: replay_deferred_thread_def R_refl)
next
  case (Some q)
  let ?u = "((fst s)\<lparr>cx_deferred := hm_remove tid (cx_deferred (fst s))\<rparr>, snd s)"
  have R1: "R s ?u" by (rule R_drop)
  have "\<forall>e\<in>set q. ok (fst ?u) (de_message e)"
    using queued_ok [OF assms(2,3) Some] R_ok [OF R1 assms(2)] by blast
  then have "R ?u t"
    using replay_queue_rel [OF assms(1) R_inv [OF R1 assms(2)], of q t] assms(4) Some
    by (simp add: replay_deferred_thread_def)
  then show ?thesis using R_trans R1 by blast
qed

lemma register_rel:
  assumes "respected handle"
  shows "inv (fst s) \<Longrightarrow>
    register_threads (replay_deferred_thread jtext now run_id handle) parent tids s = Some t \<Longrightarrow> R s t"
proof (induction tids arbitrary: s)
  case Nil
  then show ?case by (simp add: R_refl)
next
  case (Cons tid tids)
  show ?case
  proof (cases "tid = []")
    case True
    then show ?thesis using Cons by simp
  next
    case False
    then obtain u where u: "(if parent = [] then Some s
          else replay_deferred_thread jtext now run_id handle tid (claim_child tid parent s)) = Some u"
      and t: "register_threads (replay_deferred_thread jtext now run_id handle) parent tids
          (request_identity tid u) = Some t"
      using Cons.prems(2) by (auto split: bind_splits if_splits)
    have Ru: "R s u"
    proof (cases "parent = []")
      case True
      then show ?thesis using u by (simp add: R_refl)
    next
      case p: False
      have Rc: "R s (claim_child tid parent s)" using R_claim False p by blast
      then have "R (claim_child tid parent s) u"
        using replay_rel [OF assms R_inv [OF Rc Cons.prems(1)] claimed_child] u p by simp
      then show ?thesis using R_trans Rc by blast
    qed
    then have Ri: "R s (request_identity tid u)" using R_trans R_identity by blast
    then have "R (request_identity tid u) t" using Cons.IH [OF R_inv t] Cons.prems(1) by blast
    then show ?thesis using R_trans Ri by blast
  qed
qed

lemma claimed_rel:
  assumes "respected handle" "inv (fst s)" "ok (fst s) (Notification m params)"
    and "parent = Option.bind (get_str params ''threadId'') (cx_child_parent_tools (fst s))"
    and "parent = None \<or> m \<in> set child_methods"
    and "claimed_notification (register_subagents (replay_deferred_thread jtext now run_id handle))
           run_id m params parent s = Some t"
  shows "R s t"
proof -
  have own_rel: "R s u" if "parent = None" "u \<in> set (own_arms run_id params s)" for u
    using R_own [OF assms(2,3) _ that(2)] that(1) assms(4) by (simp add: not_child_def)
  have item: "R s t" if "list_all (plain_event run_id) evs"
    "register_subagents (replay_deferred_thread jtext now run_id handle) item parent (add_events evs s) = Some t"
    for evs item
  proof -
    have Re: "R s (add_events evs s)" using R_events that(1) by blast
    then have "R (add_events evs s) t"
      using register_rel [OF assms(1) R_inv [OF Re assms(2)]] that(2) by (simp add: register_subagents_def)
    then show ?thesis using R_trans Re by blast
  qed
  have c: "''thread/started'' \<notin> set child_methods" by (simp add: child_methods_def)
  let ?reg = "register_subagents (replay_deferred_thread jtext now run_id handle)"
  have started: "list_all (plain_event run_id) (opt_list (item_started_event run_id item parent))" for item
    using item_started_plain by (simp add: opt_list_all)
  consider (own) "parent = None" "t \<in> set (own_arms run_id params s)" | (same) "t = s"
    | (events) "t = add_events (notification_events run_id m params (parent \<noteq> None) parent) s"
    | (begun) it where "?reg it parent (add_events (opt_list (item_started_event run_id it parent)) s) = Some t"
    | (done_item) it where "?reg it parent (add_events (item_completed_events run_id it parent) s) = Some t"
    using claimed_arms [OF _ assms(6)] assms(5) c unfolding arm_results_def by blast
  then show ?thesis
  proof cases
    case own
    then show ?thesis by (rule own_rel)
  next
    case same
    then show ?thesis by (simp add: R_refl)
  next
    case events
    then show ?thesis using R_events [OF notification_events_plain] by simp
  next
    case begun
    then show ?thesis by (rule item [OF started])
  next
    case done_item
    then show ?thesis by (rule item [OF item_completed_plain])
  qed
qed

lemma handle_respected: "respected (\<lambda>m p s. handle_notification fuel jtext now run_id m p s)"
proof (induction fuel)
  case 0
  then show ?case by (simp add: respected_def)
next
  case (Suc fuel)
  show ?case unfolding respected_def
  proof (intro allI impI)
    fix m params s t
    assume h: "handle_notification (Suc fuel) jtext now run_id m params s = Some t"
      and i: "inv (fst s)" and o: "ok (fst s) (Notification m params)"
    let ?thread = "get_str params ''threadId''"
    let ?parent = "Option.bind ?thread (cx_child_parent_tools (fst s))"
    consider (deferred) "is_foreign (fst s) ?thread" "m \<noteq> ''thread/started''"
      | (ignored) "\<not> (is_foreign (fst s) ?thread \<and> m \<noteq> ''thread/started'')"
          "?parent \<noteq> None" "m \<notin> set child_methods"
      | (handled) "\<not> (is_foreign (fst s) ?thread \<and> m \<noteq> ''thread/started'')"
          "?parent = None \<or> m \<in> set child_methods" by argo
    then show "R s t"
    proof cases
      case deferred
      then obtain k c' fr where d: "defer_thread_message jtext now (unwrap_or ?thread []) (Notification m params) (fst s)
          = Some (k, c', fr)" and t: "t = add_outbound fr (c', snd s)"
        using h by (auto simp: Let_def)
      then show ?thesis using R_defer [OF i o] deferred(1) by simp
    next
      case ignored
      then show ?thesis using h R_refl by (auto simp: Let_def split: if_split_asm)
    next
      case handled
      then have "claimed_notification
          (register_subagents (replay_deferred_thread jtext now run_id
             (\<lambda>m p t. handle_notification fuel jtext now run_id m p t))) run_id m params ?parent s = Some t"
        using h by (auto simp: Let_def)
      then show ?thesis using claimed_rel [OF Suc.IH i o refl handled(2)] by blast
    qed
  qed
qed

lemma handle_rel:
  "handle_notification fuel jtext now run_id m params s = Some t \<Longrightarrow> inv (fst s) \<Longrightarrow>
   ok (fst s) (Notification m params) \<Longrightarrow> R s t"
  using handle_respected [of fuel] unfolding respected_def by blast

lemma open_rel:
  assumes "replay_deferred_thread jtext now run_id (handle_notification fuel jtext now run_id) tid s = Some t"
    and "inv (fst s)" "claimed (fst s) tid"
  shows "R s t"
  using replay_rel [OF handle_respected assms(2,3), of fuel t] assms(1) by simp

end

end
