(* ===== verification/Parser_Props.thy ===== *)
theory Parser_Props
  imports Parser_Relation
begin

text \<open>
  Properties of \<open>parse\_line\<close> of the Codex driver: what its events are, that a sub-agent is asked
  for its identity once, that replies reach the request they answer, that prompts can be answered
  and that threads which do not belong to the session cannot steer it.
\<close>

section \<open>The outcomes of a server request\<close>

definition request_thread :: "json \<Rightarrow> string option" where
  "request_thread msg = get_str (unwrap_or (jget msg ''params'') JNull) ''threadId''"

lemma message_thread_Interactive: "message_thread (Interactive m msg) = request_thread msg"
  by (simp add: request_thread_def)

lemma server_request_cases:
  assumes "handle_server_request jtext now run_id m msg c = Some (c', r)"
  obtains (missing) raw where "c' = c" "r = parsed_line_default\<lparr>pl_outbound := [missing_thread_error raw]\<rparr>"
    | (deferred) k fr where "is_foreign c (request_thread msg)"
        "defer_thread_message jtext now (unwrap_or (request_thread msg) []) (Interactive m msg) c = Some (k, c', fr)"
        "r = parsed_line_default\<lparr>pl_outbound := fr\<rparr>"
    | (unknown) "c' = c" "r = parsed_line_default"
    | (prompt) rid kind evs pr where "list_all (plain_event run_id) evs"
        "c' = c\<lparr>cx_pending := hm_insert rid pr (cx_pending c)\<rparr>" "pr_kind pr = kind"
        "r = parsed_line_default\<lparr>pl_events := evs, pl_interactive := [(rid, kind)]\<rparr>"
proof -
  let ?raw = "unwrap_or (jget msg ''id'') JNull"
  let ?rid = "req_id_str jtext ?raw"
  let ?params = "unwrap_or (jget msg ''params'') JNull"
  let ?prompt = "interactive_prompt run_id ?rid m ?params (Option.bind (request_thread msg) (cx_child_parent_tools c))"
  note d = assms [unfolded handle_server_request_def Let_def, folded request_thread_def]
  show thesis
  proof (cases "\<not> is_legacy_interactive_method m \<and> unwrap_or (request_thread msg) [] = []")
    case True
    then show thesis using d missing [of ?raw] by auto
  next
    case claimed: False
    show thesis
    proof (cases "is_foreign c (request_thread msg)")
      case True
      then show thesis using d claimed deferred by auto
    next
      case False
      show thesis
      proof (cases ?prompt)
        case None
        then have "c' = c \<and> r = parsed_line_default" using d claimed False by simp
        then show thesis using unknown by blast
      next
        case (Some p)
        obtain kind evs where p: "p = (kind, evs)" by fastforce
        have "list_all (plain_event run_id) evs" using interactive_prompt_plain Some p by simp
        moreover have "c' = c\<lparr>cx_pending := hm_insert ?rid
            \<lparr>pr_raw_id = ?raw, pr_method = m,
             pr_requested_permissions = (if m = M_PERM_APPROVAL then jget ?params ''permissions'' else None),
             pr_kind = kind\<rparr> (cx_pending c)\<rparr>
            \<and> r = parsed_line_default\<lparr>pl_events := evs, pl_interactive := [(?rid, kind)]\<rparr>"
          using d claimed False Some p by auto
        ultimately show thesis using prompt by auto
      qed
    qed
  qed
qed

lemma default_fields [simp]:
  "pl_events parsed_line_default = []" "pl_outbound parsed_line_default = []"
  "pl_interactive parsed_line_default = []" "pl_lifecycle parsed_line_default = None"
  "pl_thread_id parsed_line_default = None" "pl_control_response parsed_line_default = None"
  by (simp_all add: parsed_line_default_def)

lemma merge_fields [simp]:
  "pl_events (merge_replayed a b) = pl_events a @ pl_events b"
  "pl_outbound (merge_replayed a b) = pl_outbound a @ pl_outbound b"
  "pl_interactive (merge_replayed a b) = pl_interactive a @ pl_interactive b"
  "pl_lifecycle (merge_replayed a b) = pl_lifecycle a" "pl_thread_id (merge_replayed a b) = pl_thread_id a"
  by (simp_all add: merge_replayed_def)

lemmas out_defs = add_events_def add_outbound_def claim_child_def set_turn_def set_lifecycle_def

text \<open>The fields the arms of the session's own thread write.\<close>

definition arm_frame :: "string \<Rightarrow> driver_out \<Rightarrow> driver_out \<Rightarrow> bool" where
  "arm_frame run_id s t =
     (cx_pending (fst t) = cx_pending (fst s) \<and> cx_next_client_id (fst t) = cx_next_client_id (fst s)
    \<and> cx_client_waiters (fst t) = cx_client_waiters (fst s)
    \<and> cx_internal_waiters (fst t) = cx_internal_waiters (fst s)
    \<and> cx_seen_subagent_threads (fst t) = cx_seen_subagent_threads (fst s)
    \<and> cx_child_parent_tools (fst t) = cx_child_parent_tools (fst s)
    \<and> cx_thread_id (fst t) = cx_thread_id (fst s) \<and> cx_deferred (fst t) = cx_deferred (fst s)
    \<and> cx_deferred_bytes (fst t) = cx_deferred_bytes (fst s)
    \<and> cx_next_deferred_sequence (fst t) = cx_next_deferred_sequence (fst s)
    \<and> pl_outbound (snd t) = pl_outbound (snd s) \<and> pl_interactive (snd t) = pl_interactive (snd s)
    \<and> (pl_events (snd t) = pl_events (snd s)
       \<or> (\<exists>m. pl_events (snd t) = pl_events (snd s) @ [CommandOutput run_id m])))"

lemma own_arms_frame:
  assumes "t \<in> set (own_arms run_id params s)"
  shows "arm_frame run_id s t"
proof -
  have "arm_frame run_id s (on_thread_started params s)"
    by (simp add: arm_frame_def on_thread_started_def split: option.split)
  moreover have "arm_frame run_id s (on_turn_started params s)"
    by (simp add: arm_frame_def on_turn_started_def out_defs split: option.split)
  moreover have "arm_frame run_id s (on_turn_completed s)"
    by (simp add: arm_frame_def on_turn_completed_def out_defs)
  moreover have "arm_frame run_id s (on_turn_failed params s)"
    by (simp add: arm_frame_def on_turn_failed_def out_defs)
  moreover have "arm_frame run_id s (on_error run_id params False s)"
    by (simp add: arm_frame_def on_error_def out_defs Let_def)
  ultimately show ?thesis using assms by (auto simp: own_arms_def)
qed

lemma request_identity_frame:
  "cx_pending (fst (request_identity tid s)) = cx_pending (fst s)"
  "cx_client_waiters (fst (request_identity tid s)) = cx_client_waiters (fst s)"
  "cx_child_parent_tools (fst (request_identity tid s)) = cx_child_parent_tools (fst s)"
  "cx_thread_id (fst (request_identity tid s)) = cx_thread_id (fst s)"
  "cx_phase (fst (request_identity tid s)) = cx_phase (fst s)"
  "cx_active_turn_id (fst (request_identity tid s)) = cx_active_turn_id (fst s)"
  "cx_deferred (fst (request_identity tid s)) = cx_deferred (fst s)"
  "cx_deferred_bytes (fst (request_identity tid s)) = cx_deferred_bytes (fst s)"
  "cx_next_deferred_sequence (fst (request_identity tid s)) = cx_next_deferred_sequence (fst s)"
  "pl_events (snd (request_identity tid s)) = pl_events (snd s)"
  "pl_interactive (snd (request_identity tid s)) = pl_interactive (snd s)"
  "pl_lifecycle (snd (request_identity tid s)) = pl_lifecycle (snd s)"
  "pl_thread_id (snd (request_identity tid s)) = pl_thread_id (snd s)"
  by (simp_all add: request_identity_def next_id_def out_defs Let_def)

section \<open>The outcomes of a message\<close>

lemma open_thread_cases:
  assumes "open_thread jtext now run_id msg c = Some (c', out)"
  obtains (opened) tid u where "cx_thread_id c = None"
      "replay_deferred_thread jtext now run_id (handle_notification (replay_fuel c) jtext now run_id) tid
         (c\<lparr>cx_thread_id := Some tid\<rparr>, parsed_line_default\<lparr>pl_thread_id := Some tid\<rparr>) = Some u"
      "c' = (fst u)\<lparr>cx_phase := Ready\<rparr>" "out = snd u"
    | (ready) "c' = c\<lparr>cx_phase := Ready\<rparr>" "out = parsed_line_default"
  using assms unfolding open_thread_def
  by (cases "cx_thread_id c"; cases "Option.bind (jget_opt (jget_opt (jget msg ''result'') ''thread'') ''id'') as_str")
    auto

lemma message_cases:
  assumes "handle_message jtext now run_id msg c = Some (c', out)"
  obtains (request) m where "is_interactive_method m" "handle_server_request jtext now run_id m msg c = Some (c', out)"
    | (ignored) "c' = c" "out = parsed_line_default"
    | (notification) m where "get_str msg ''method'' = Some m" "jget msg ''id'' = None"
        "handle_notification (replay_fuel c) jtext now run_id m (unwrap_or (jget msg ''params'') JNull)
           (c, parsed_line_default) = Some (c', out)"
    | (identity) i tid where "cx_internal_waiters c i = Some tid"
        "c' = c\<lparr>cx_internal_waiters := (cx_internal_waiters c)(i := None)\<rparr>"
        "out = parsed_line_default\<lparr>pl_events := agent_info run_id tid msg\<rparr>"
    | (answer) i rid v where "cx_client_waiters c i = Some rid"
        "c' = c\<lparr>cx_client_waiters := (cx_client_waiters c)(i := None)\<rparr>"
        "out = parsed_line_default\<lparr>pl_control_response := Some (rid, v)\<rparr>"
    | (opened) "Option.bind (jget msg ''id'') as_i64 = Some 2" "open_thread jtext now run_id msg c = Some (c', out)"
proof (cases "get_str msg ''method''")
  case (Some m)
  consider "jget msg ''id'' = None" | "jget msg ''id'' \<noteq> None" "is_interactive_method m"
    | "jget msg ''id'' \<noteq> None" "\<not> is_interactive_method m" by blast
  then show thesis
  proof cases
    case 1
    then show thesis using assms Some notification [of m] by (simp add: handle_message_def)
  next
    case 2
    then show thesis using assms Some request [of m] by (simp add: handle_message_def)
  next
    case 3
    then have "c' = c \<and> out = parsed_line_default" using assms Some by (simp add: handle_message_def)
    then show thesis using ignored by blast
  qed
next
  case None
  then have h: "handle_reply jtext now run_id msg c = Some (c', out)" using assms by (simp add: handle_message_def)
  show thesis
  proof (cases "Option.bind (jget msg ''id'') as_i64")
    case None
    then show thesis using h ignored by (simp add: handle_reply_def)
  next
    case i: (Some i)
    show thesis
    proof (cases "cx_internal_waiters c i")
      case (Some tid)
      then show thesis using h i identity [of i tid] by (simp add: handle_reply_def Let_def)
    next
      case inner: None
      show thesis
      proof (cases "cx_client_waiters c i")
        case (Some rid)
        then show thesis using h i inner answer [of i rid] by (auto simp: handle_reply_def Let_def)
      next
        case None
        show thesis
        proof (cases "i = 2 \<and> jget msg ''error'' = None")
          case True
          then show thesis using h i inner None opened by (simp add: handle_reply_def Let_def)
        next
          case False
          then have "c' = c \<and> out = parsed_line_default"
            using h i inner None unfolding handle_reply_def Let_def by auto
          then show thesis using ignored by blast
        qed
      qed
    qed
  qed
qed

lemma line_cases:
  assumes "parse_line jparse jtext now run_id line c = Some (c', out)"
  obtains (blank) "c' = c" "out = parsed_line_default"
    | (message) msg where "jparse (trim line) = Some msg" "handle_message jtext now run_id msg c = Some (c', out)"
  using assms by (auto simp: parse_line_def Let_def split: if_splits option.splits)

section \<open>Events\<close>

text \<open>The threads the frames ask the identity of.\<close>

definition identity_request :: "json \<Rightarrow> string option" where
  "identity_request f =
     (if get_str f ''method'' = Some ''thread/read''
      then get_str (unwrap_or (jget f ''params'') JNull) ''threadId'' else None)"

definition asked_threads :: "json list \<Rightarrow> string list" where
  "asked_threads frames = filter_map identity_request frames"

definition plain_out :: "string \<Rightarrow> driver_out \<Rightarrow> bool" where
  "plain_out run_id s = list_all (plain_event run_id) (pl_events (snd s))"

interpretation plain: driver_relation jtext now run_id
  "\<lambda>s t. plain_out run_id s \<longrightarrow> plain_out run_id t" "\<lambda>c. True" "\<lambda>c m. True" "\<lambda>c t. True"
  for jtext now run_id
proof
  fix s :: driver_out and m v c' r
  assume "handle_server_request jtext now run_id m v (fst s) = Some (c', r)"
  then show "plain_out run_id s \<longrightarrow> plain_out run_id (c', merge_replayed (snd s) r)"
    by (cases rule: server_request_cases) (auto simp: plain_out_def)
next
  fix s t :: driver_out and params
  assume "t \<in> set (own_arms run_id params s)"
  from own_arms_frame [OF this] show "plain_out run_id s \<longrightarrow> plain_out run_id t"
    by (auto simp: plain_out_def plain_event_def arm_frame_def)
qed (auto simp: plain_out_def out_defs request_identity_frame)

lemma line_events_plain:
  assumes "parse_line jparse jtext now run_id line c = Some (c', out)"
  shows "list_all (plain_event run_id) (pl_events out)"
proof -
  have rel: "list_all (plain_event run_id) (pl_events out')"
    if "replay_deferred_thread jtext now run_id (handle_notification fuel jtext now run_id) tid (d, p) = Some (d', out')"
      "pl_events p = []" for fuel tid d p d' out'
    using plain.open_rel [OF that(1)] that(2) by (simp add: plain_out_def)
  show ?thesis using assms
  proof (cases rule: line_cases)
    case (message msg)
    from message(2) show ?thesis
    proof (cases rule: message_cases)
      case (request m)
      from request(2) show ?thesis by (cases rule: server_request_cases) auto
    next
      case (notification m)
      then show ?thesis using plain.handle_rel [OF notification(3)] by (simp add: plain_out_def)
    next
      case opened
      from opened(2) show ?thesis
        by (cases rule: open_thread_cases) (auto dest!: rel)
    qed (auto simp: agent_info_plain)
  qed simp
qed

text \<open>Every event of a parsed Codex line carries the id of the run it was read for and is
  never a run state: the states of a Codex session are announced by the actor alone.\<close>

theorem parsed_events_plain:
  assumes "parse_line jparse jtext now run_id line c = Some (c', out)"
  shows "list_all (\<lambda>ev. event_run_id ev = run_id \<and> run_state_of ev = None) (pl_events out)"
  using line_events_plain [OF assms] by (simp add: plain_event_def [abs_def])

text \<open>A few lines of the protocol: a sub-agent is spawned, a command asks for approval, a reply to
  request 3, the end of the sub-agent's turn.\<close>

definition demo_spawn :: json where
  "demo_spawn = JObj [(''method'', JStr ''item/started''), (''params'', JObj [(''threadId'', JStr ''t1''),
     (''item'', JObj [(''type'', JStr ''subAgentActivity''), (''kind'', JStr ''started''),
                    (''agentThreadId'', JStr ''t2''), (''id'', JStr ''i1'')])])]"

definition demo_approval :: json where
  "demo_approval = JObj [(''id'', jnat 7), (''method'', JStr M_CMD_APPROVAL),
     (''params'', JObj [(''threadId'', JStr ''t1''), (''command'', JStr ''ls'')])]"

definition demo_reply :: json where
  "demo_reply = JObj [(''id'', jnat 3), (''result'', JStr ''ok'')]"

definition demo_child_end :: json where
  "demo_child_end = JObj [(''method'', JStr ''turn/completed''), (''params'', JObj [(''threadId'', JStr ''t2'')])]"

definition demo_rpc :: "string \<Rightarrow> json option" where
  "demo_rpc s = (if s = ''S'' then Some demo_spawn else if s = ''A'' then Some demo_approval
     else if s = ''R'' then Some demo_reply else if s = ''C'' then Some demo_child_end else None)"

definition demo_driver :: codex_app_server where
  "demo_driver = codex_new\<lparr>cx_thread_id := Some ''t1'', cx_phase := Ready\<rparr>"

lemma demo_trim [simp]: "trim ''S'' = ''S''" "trim ''A'' = ''A''" "trim ''R'' = ''R''" "trim ''C'' = ''C''"
  by (simp_all add: trim_def trim_end_def ws1_def byte_def)

lemma demo_driver_simps [simp]:
  "cx_thread_id demo_driver = Some ''t1''" "cx_deferred demo_driver = []" "cx_next_client_id demo_driver = 3"
  "cx_child_parent_tools demo_driver = Map.empty" "cx_client_waiters demo_driver = Map.empty"
  "cx_internal_waiters demo_driver = Map.empty" "cx_pending demo_driver = []"
  "cx_seen_subagent_threads demo_driver = []"
  by (simp_all add: demo_driver_def codex_new_def)

lemmas eval_parse = parse_line_def handle_message_def handle_server_request_def handle_reply_def
  claimed_notification_def register_subagents_def spawned_threads_def replay_deferred_thread_def
  request_identity_def next_id_def is_foreign_def out_defs opt_list_def replay_fuel_def demo_rpc_def
  is_interactive_method_def is_legacy_interactive_method_def interactive_prompt_def
  M_CMD_APPROVAL_def M_CMD_APPROVAL_LEGACY_def M_FILE_APPROVAL_def M_FILE_APPROVAL_LEGACY_def
  M_PERM_APPROVAL_def M_REQUEST_USER_INPUT_def M_ELICITATION_def req_id_str_def jnat_def Let_def

lemma eval_spawn:
  "\<exists>c' out. parse_line demo_rpc jtext now ''r1'' ''S'' demo_driver = Some (c', out)
     \<and> asked_threads (pl_outbound out) = [''t2''] \<and> length (pl_events out) = 1"
  by (simp add: eval_parse demo_spawn_def item_started_event_def asked_threads_def identity_request_def
      rpc_request_def)

theorem parsed_events_plain_witness:
  "\<exists>c' out. parse_line demo_rpc (\<lambda>v. []) 0 ''r1'' ''S'' demo_driver = Some (c', out) \<and> pl_events out \<noteq> []
     \<and> list_all (\<lambda>ev. event_run_id ev = ''r1'' \<and> run_state_of ev = None) (pl_events out)"
  using eval_spawn [of "\<lambda>v. []" 0] parsed_events_plain by (metis list.size(3) zero_neq_one)

section \<open>The identity of a sub-agent\<close>

lemma asked_append [simp]: "asked_threads (xs @ ys) = asked_threads xs @ asked_threads ys"
  by (induction xs) (auto simp: asked_threads_def split: option.split)

lemma asked_Nil [simp]: "asked_threads [] = []"
  by (simp add: asked_threads_def)

lemma asked_errors: "list_all error_reply fr \<Longrightarrow> asked_threads fr = []"
  by (induction fr) (auto simp: asked_threads_def identity_request_def error_reply_def get_str_def)

lemma asked_missing [simp]: "asked_threads [missing_thread_error raw] = []"
  by (simp add: asked_threads_def identity_request_def missing_thread_error_def)

text \<open>Every thread asked meanwhile is new, and is asked once.\<close>

definition asks_new :: "driver_out \<Rightarrow> driver_out \<Rightarrow> bool" where
  "asks_new s t =
     (\<exists>new. cx_seen_subagent_threads (fst t) = rev new @ cx_seen_subagent_threads (fst s)
        \<and> asked_threads (pl_outbound (snd t)) = asked_threads (pl_outbound (snd s)) @ new
        \<and> distinct new \<and> set new \<inter> set (cx_seen_subagent_threads (fst s)) = {})"

lemma asks_newI:
  "cx_seen_subagent_threads (fst t) = cx_seen_subagent_threads (fst s) \<Longrightarrow>
   asked_threads (pl_outbound (snd t)) = asked_threads (pl_outbound (snd s)) \<Longrightarrow> asks_new s t"
  by (simp add: asks_new_def)

lemma asks_new_trans:
  assumes "asks_new s t" "asks_new t u"
  shows "asks_new s u"
proof -
  obtain a where a: "cx_seen_subagent_threads (fst t) = rev a @ cx_seen_subagent_threads (fst s)"
    "asked_threads (pl_outbound (snd t)) = asked_threads (pl_outbound (snd s)) @ a"
    "distinct a" "set a \<inter> set (cx_seen_subagent_threads (fst s)) = {}"
    using assms(1) by (auto simp: asks_new_def)
  obtain b where b: "cx_seen_subagent_threads (fst u) = rev b @ cx_seen_subagent_threads (fst t)"
    "asked_threads (pl_outbound (snd u)) = asked_threads (pl_outbound (snd t)) @ b"
    "distinct b" "set b \<inter> set (cx_seen_subagent_threads (fst t)) = {}"
    using assms(2) by (auto simp: asks_new_def)
  have "cx_seen_subagent_threads (fst u) = rev (a @ b) @ cx_seen_subagent_threads (fst s)
     \<and> asked_threads (pl_outbound (snd u)) = asked_threads (pl_outbound (snd s)) @ (a @ b)
     \<and> distinct (a @ b) \<and> set (a @ b) \<inter> set (cx_seen_subagent_threads (fst s)) = {}"
    using a b by auto
  then show ?thesis unfolding asks_new_def by blast
qed

lemma asks_new_identity: "asks_new s (request_identity tid s)"
proof (cases "tid \<in> set (cx_seen_subagent_threads (fst s))")
  case True
  then show ?thesis by (simp add: request_identity_def asks_new_def)
next
  case False
  then have "cx_seen_subagent_threads (fst (request_identity tid s)) = rev [tid] @ cx_seen_subagent_threads (fst s)
      \<and> asked_threads (pl_outbound (snd (request_identity tid s))) = asked_threads (pl_outbound (snd s)) @ [tid]"
    by (simp add: request_identity_def next_id_def Let_def out_defs asked_threads_def identity_request_def
        rpc_request_def)
  then show ?thesis using False unfolding asks_new_def by (intro exI [of _ "[tid]"]) simp
qed

lemma request_seen:
  assumes "handle_server_request jtext now run_id m v c = Some (c', r)"
  shows "cx_seen_subagent_threads c' = cx_seen_subagent_threads c \<and> asked_threads (pl_outbound r) = []"
  using assms
proof (cases rule: server_request_cases)
  case (deferred k fr)
  then show ?thesis
    using defer_frame [OF deferred(2)] by (simp add: buffer_only_fields asked_errors)
qed auto

interpretation identity: driver_relation jtext now run_id asks_new "\<lambda>c. True" "\<lambda>c m. True" "\<lambda>c t. True"
  for jtext now run_id
proof
  fix s :: driver_out and m v c' r
  assume "handle_server_request jtext now run_id m v (fst s) = Some (c', r)"
  then show "asks_new s (c', merge_replayed (snd s) r)"
    by (auto intro!: asks_newI dest: request_seen)
next
  fix s t :: driver_out and params
  assume "t \<in> set (own_arms run_id params s)"
  from own_arms_frame [OF this] show "asks_new s t" by (auto intro: asks_newI simp: arm_frame_def)
next
  fix s :: driver_out and msg k c' fr
  assume "defer_thread_message jtext now (unwrap_or (message_thread msg) []) msg (fst s) = Some (k, c', fr)"
  from defer_frame [OF this] show "asks_new s (add_outbound fr (c', snd s))"
    by (auto intro!: asks_newI simp: out_defs asked_errors buffer_only_fields)
next
  fix s t u :: driver_out
  assume "asks_new s t" "asks_new t u"
  then show "asks_new s u" by (rule asks_new_trans)
qed (simp_all add: asks_newI asks_new_identity out_defs asked_errors)

text \<open>What a line does is such a step, seen from an empty output.\<close>

lemma line_asks_new:
  assumes "parse_line jparse jtext now run_id line c = Some (c', out)"
  shows "asks_new (c, parsed_line_default) (c', out)"
  using assms
proof (cases rule: line_cases)
  case (message msg)
  from message(2) show ?thesis
  proof (cases rule: message_cases)
    case (request m)
    then show ?thesis using request_seen [OF request(2)] by (auto intro: asks_newI)
  next
    case (notification m)
    then show ?thesis using identity.handle_rel [OF notification(3)] by simp
  next
    case opened
    from opened(2) show ?thesis
    proof (cases rule: open_thread_cases)
      case (opened tid u)
      then show ?thesis using identity.open_rel [OF opened(2)] by (simp add: asks_new_def)
    qed (simp add: asks_new_def)
  qed (auto intro: asks_newI)
qed (simp add: asks_new_def)

text \<open>The frames a driver sends over the lines it reads.\<close>

fun parse_frames ::
  "(string \<Rightarrow> json option) \<Rightarrow> (json \<Rightarrow> string) \<Rightarrow> string \<Rightarrow> (nat \<times> string) list \<Rightarrow> codex_app_server
   \<Rightarrow> json list option" where
  "parse_frames jparse jtext run_id [] c = Some []"
| "parse_frames jparse jtext run_id ((now, line) # ls) c =
     Option.bind (parse_line jparse jtext now run_id line c)
       (\<lambda>(c', out). map_option (\<lambda>fr. pl_outbound out @ fr) (parse_frames jparse jtext run_id ls c'))"

text \<open>Over all the lines a driver reads, each sub-agent thread is asked for its identity at
  most once, and none that was seen before.\<close>

theorem identity_asked_once:
  assumes "parse_frames jparse jtext run_id ls c = Some frames"
  shows "distinct (asked_threads frames)
    \<and> set (asked_threads frames) \<inter> set (cx_seen_subagent_threads c) = {}"
  using assms
proof (induction ls arbitrary: c frames)
  case Nil
  then show ?case by simp
next
  case (Cons x ls)
  obtain now line where x: "x = (now, line)" by fastforce
  obtain c' out fr where p: "parse_line jparse jtext now run_id line c = Some (c', out)"
    "parse_frames jparse jtext run_id ls c' = Some fr" "frames = pl_outbound out @ fr"
    using Cons.prems by (auto simp: x split: bind_splits)
  obtain new where n: "cx_seen_subagent_threads c' = rev new @ cx_seen_subagent_threads c"
    "asked_threads (pl_outbound out) = new" "distinct new" "set new \<inter> set (cx_seen_subagent_threads c) = {}"
    using line_asks_new [OF p(1)] by (auto simp: asks_new_def)
  show ?case using Cons.IH [OF p(2)] n p(3) by auto
qed

theorem identity_asked_once_witness:
  "\<exists>frames. parse_frames demo_rpc (\<lambda>v. []) ''r1'' [(0, ''S''), (1, ''S'')] demo_driver = Some frames
     \<and> asked_threads frames = [''t2''] \<and> distinct (asked_threads frames)"
proof -
  obtain frames where f: "parse_frames demo_rpc (\<lambda>v. []) ''r1'' [(0, ''S''), (1, ''S'')] demo_driver = Some frames"
    "asked_threads frames = [''t2'']"
    by (simp add: eval_parse demo_spawn_def item_started_event_def asked_threads_def identity_request_def
        rpc_request_def child_methods_def)
  then show ?thesis using identity_asked_once [OF f(1)] by blast
qed

section \<open>Replies\<close>

text \<open>
  The ids of the requests the driver waits for: below the next one, above the two of the
  handshake, and never the same for a client's request and one of its own.
\<close>

definition waiters_ok :: "codex_app_server \<Rightarrow> bool" where
  "waiters_ok c =
     ((\<forall>i r. cx_client_waiters c i = Some r \<longrightarrow>
          3 \<le> i \<and> i < cx_next_client_id c \<and> cx_internal_waiters c i = None)
      \<and> (\<forall>i t. cx_internal_waiters c i = Some t \<longrightarrow> 3 \<le> i \<and> i < cx_next_client_id c)
      \<and> 3 \<le> cx_next_client_id c)"

lemma waiters_ok_cong:
  "cx_client_waiters c' = cx_client_waiters c \<Longrightarrow> cx_internal_waiters c' = cx_internal_waiters c \<Longrightarrow>
   cx_next_client_id c' = cx_next_client_id c \<Longrightarrow> waiters_ok c' = waiters_ok c"
  by (simp add: waiters_ok_def)

lemma waiters_updates [simp]:
  "waiters_ok (c\<lparr>cx_pending := v1\<rparr>) = waiters_ok c" "waiters_ok (c\<lparr>cx_phase := v2\<rparr>) = waiters_ok c"
  "waiters_ok (c\<lparr>cx_deferred := v3\<rparr>) = waiters_ok c" "waiters_ok (c\<lparr>cx_deferred_bytes := v4\<rparr>) = waiters_ok c"
  "waiters_ok (c\<lparr>cx_thread_id := v5\<rparr>) = waiters_ok c"
  "waiters_ok (c\<lparr>cx_child_parent_tools := v6\<rparr>) = waiters_ok c"
  by (simp_all add: waiters_ok_def)

lemma waiters_add:
  assumes "waiters_ok c"
  shows "waiters_ok (c\<lparr>cx_seen_subagent_threads := v, cx_next_client_id := cx_next_client_id c + 1,
           cx_internal_waiters := (cx_internal_waiters c)(cx_next_client_id c \<mapsto> tid)\<rparr>)"
proof -
  have c: "3 \<le> i \<and> i < cx_next_client_id c \<and> cx_internal_waiters c i = None"
    if "cx_client_waiters c i = Some r" for i r
    using assms that by (simp add: waiters_ok_def)
  moreover have "3 \<le> i \<and> i < cx_next_client_id c" if "cx_internal_waiters c i = Some t" for i t
    using assms that by (simp add: waiters_ok_def)
  ultimately have "\<forall>i r. cx_client_waiters c i = Some r \<longrightarrow> i \<noteq> cx_next_client_id c \<and> 3 \<le> i
      \<and> i < cx_next_client_id c + 1 \<and> cx_internal_waiters c i = None"
    "\<forall>i t. cx_internal_waiters c i = Some t \<longrightarrow> 3 \<le> i \<and> i < cx_next_client_id c + 1"
    by fastforce+
  then show ?thesis using assms by (simp add: waiters_ok_def)
qed

lemma waiters_identity: "waiters_ok (fst s) \<Longrightarrow> waiters_ok (fst (request_identity tid s))"
  using waiters_add by (simp add: request_identity_def next_id_def out_defs Let_def)

lemma request_waiters:
  assumes "handle_server_request jtext now run_id m v c = Some (c', r)"
  shows "waiters_ok c' = waiters_ok c"
  using assms
proof (cases rule: server_request_cases)
  case (deferred k fr)
  then show ?thesis using defer_frame [OF deferred(2)] by (intro waiters_ok_cong) (simp_all add: buffer_only_fields)
qed auto

interpretation waiters: driver_relation jtext now run_id
  "\<lambda>s t. waiters_ok (fst s) \<longrightarrow> waiters_ok (fst t)" "\<lambda>c. True" "\<lambda>c m. True" "\<lambda>c t. True"
  for jtext now run_id
proof
  fix s :: driver_out and m v c' r
  assume "handle_server_request jtext now run_id m v (fst s) = Some (c', r)"
  from request_waiters [OF this]
  show "waiters_ok (fst s) \<longrightarrow> waiters_ok (fst (c', merge_replayed (snd s) r))" by simp
next
  fix s t :: driver_out and params
  assume "t \<in> set (own_arms run_id params s)"
  from own_arms_frame [OF this] have "waiters_ok (fst t) = waiters_ok (fst s)"
    by (intro waiters_ok_cong) (simp_all add: arm_frame_def)
  then show "waiters_ok (fst s) \<longrightarrow> waiters_ok (fst t)" by simp
next
  fix s :: driver_out and msg k c' fr
  assume "defer_thread_message jtext now (unwrap_or (message_thread msg) []) msg (fst s) = Some (k, c', fr)"
  from defer_frame [OF this] have "waiters_ok c' = waiters_ok (fst s)"
    by (intro waiters_ok_cong) (simp_all add: buffer_only_fields)
  then show "waiters_ok (fst s) \<longrightarrow> waiters_ok (fst (add_outbound fr (c', snd s)))" by (simp add: out_defs)
next
  fix s :: driver_out and tid
  show "waiters_ok (fst s) \<longrightarrow> waiters_ok (fst (request_identity tid s))" by (simp add: waiters_identity)
qed (auto simp: out_defs)

text \<open>The ids a driver waits for stay apart and below the next one over every line it reads, so
  a reply is never taken for the answer to another request.\<close>

theorem line_keeps_waiters:
  assumes "waiters_ok c" "parse_line jparse jtext now run_id line c = Some (c', out)"
  shows "waiters_ok c'"
  using assms(2)
proof (cases rule: line_cases)
  case (message msg)
  from message(2) show ?thesis
  proof (cases rule: message_cases)
    case (request m)
    then show ?thesis using request_waiters [OF request(2)] assms(1) by simp
  next
    case (notification m)
    then show ?thesis using waiters.handle_rel [OF notification(3)] assms(1) by simp
  next
    case (identity i tid)
    then show ?thesis using assms(1) by (auto simp: waiters_ok_def)
  next
    case (answer i rid v)
    then show ?thesis using assms(1) by (auto simp: waiters_ok_def)
  next
    case opened
    from opened(2) show ?thesis
    proof (cases rule: open_thread_cases)
      case (opened tid u)
      have "waiters_ok (fst u)" using waiters.open_rel [OF opened(2)] assms(1) by simp
      then show ?thesis using opened(3) by simp
    next
      case ready
      then show ?thesis using assms(1) by simp
    qed
  qed (use assms(1) in simp)
qed (use assms(1) in simp)

lemma demo_waiters_ok: "waiters_ok demo_driver"
  by (simp add: waiters_ok_def)

theorem line_keeps_waiters_witness:
  "\<exists>c' out. parse_line demo_rpc (\<lambda>v. []) 0 ''r1'' ''S'' demo_driver = Some (c', out) \<and> waiters_ok c'"
  using eval_spawn [of "\<lambda>v. []" 0] line_keeps_waiters [OF demo_waiters_ok] by blast

text \<open>The reply to a tracked request reaches the caller that asked, with the result the server
  sent, and leaves every other request waiting.\<close>

theorem tracked_reply_roundtrip:
  assumes "waiters_ok c" "frame_tracked rid meth extra c = (frame # frames, c1)"
    and "cx_next_client_id c < 2 ^ 63"
    and "trim line \<noteq> []" "jparse (trim line) = Some msg"
    and "jget msg ''id'' = jget frame ''id''" "get_str msg ''method'' = None" "jget msg ''result'' = Some v"
  shows "\<exists>c2. parse_line jparse jtext now run_id line c1 =
      Some (c2, parsed_line_default\<lparr>pl_control_response := Some (rid, v)\<rparr>)
    \<and> cx_client_waiters c2 = cx_client_waiters c"
proof -
  let ?i = "cx_next_client_id c"
  obtain tid where "cx_thread_id c = Some tid"
    using assms(2) by (auto simp: frame_tracked_def split: option.splits)
  then have f: "\<exists>params. frame = rpc_request ?i meth params" and
    c1: "c1 = c\<lparr>cx_next_client_id := ?i + 1, cx_client_waiters := (cx_client_waiters c)(?i \<mapsto> rid)\<rparr>"
    using assms(2) by (auto simp: frame_tracked_def next_id_def Let_def)
  have "cx_client_waiters c ?i = None" "cx_internal_waiters c ?i = None" "3 \<le> ?i"
    using assms(1) unfolding waiters_ok_def by (metis less_irrefl not_None_eq)+
  then have n: "cx_internal_waiters c1 ?i = None" "cx_client_waiters c ?i = None" "0 \<le> ?i"
    by (simp_all add: c1)
  have i: "Option.bind (jget msg ''id'') as_i64 = Some ?i"
    using f assms(3,6) n(3) by (auto simp: rpc_request_def jint_def)
  have "parse_line jparse jtext now run_id line c1 = handle_reply jtext now run_id msg c1"
    using assms(4,5,7) by (simp add: parse_line_def handle_message_def)
  also have "\<dots> = Some (c1\<lparr>cx_client_waiters := (cx_client_waiters c1)(?i := None)\<rparr>,
      parsed_line_default\<lparr>pl_control_response := Some (rid, v)\<rparr>)"
    using i n(1) assms(8) by (simp add: handle_reply_def Let_def c1)
  finally show ?thesis using n(2) by (simp add: c1 fun_upd_idem)
qed

theorem tracked_reply_roundtrip_witness:
  "\<exists>c1 c2. snd (frame_tracked ''q1'' ''thread/fork'' [] demo_driver) = c1
     \<and> parse_line demo_rpc (\<lambda>v. []) 0 ''r1'' ''R'' c1 =
         Some (c2, parsed_line_default\<lparr>pl_control_response := Some (''q1'', JStr ''ok'')\<rparr>)"
proof -
  obtain frame c1 where f: "frame_tracked ''q1'' ''thread/fork'' [] demo_driver = ([frame], c1)"
    "jget frame ''id'' = Some (jnat 3)"
    by (simp add: frame_tracked_def next_id_def Let_def rpc_request_def jint_def jnat_def)
  have "\<exists>c2. parse_line demo_rpc (\<lambda>v. []) 0 ''r1'' ''R'' c1 =
      Some (c2, parsed_line_default\<lparr>pl_control_response := Some (''q1'', JStr ''ok'')\<rparr>)
      \<and> cx_client_waiters c2 = cx_client_waiters demo_driver"
    by (rule tracked_reply_roundtrip [OF demo_waiters_ok f(1), where msg = demo_reply])
      (simp_all add: demo_rpc_def demo_reply_def f(2))
  then show ?thesis using f(1) by auto
qed

section \<open>Prompts\<close>








lemma interactive_prompt_exists:
  "is_interactive_method m \<Longrightarrow> \<exists>p. interactive_prompt run_id rid m params parent = Some p"
  unfolding interactive_prompt_def is_interactive_method_def by simp blast

text \<open>C31: a prompt's answer goes back under the server's own request id: reading a request of the
  session's thread and then answering it frames one response, whose id is the request's.\<close>

theorem request_answer_roundtrip:
  assumes "trim line \<noteq> []" "jparse (trim line) = Some msg"
    and "get_str msg ''method'' = Some m" "is_interactive_method m" "jget msg ''id'' = Some raw"
    and "request_thread msg = Some t" "t \<noteq> []" "\<not> is_foreign c (Some t)"
  shows "\<exists>kind c' out rid. parse_line jparse jtext now run_id line c = Some (c', out)
    \<and> pl_interactive out = [(rid, kind)]
    \<and> (\<forall>response. \<exists>result rest c''. frame_response kind rid response c' =
         (Inr (JObj [(''jsonrpc'', JStr ''2.0''), (''id'', raw), (''result'', result)] # rest), c''))"
proof -
  let ?rid = "req_id_str jtext raw"
  let ?params = "unwrap_or (jget msg ''params'') JNull"
  obtain kind evs where k: "interactive_prompt run_id ?rid m ?params (cx_child_parent_tools c t) = Some (kind, evs)"
    using interactive_prompt_exists [OF assms(4)] by fastforce
  define pr where "pr = \<lparr>pr_raw_id = raw, pr_method = m,
      pr_requested_permissions = (if m = M_PERM_APPROVAL then jget ?params ''permissions'' else None), pr_kind = kind\<rparr>"
  let ?c = "c\<lparr>cx_pending := hm_insert ?rid pr (cx_pending c)\<rparr>"
  have "handle_server_request jtext now run_id m msg c =
      Some (?c, parsed_line_default\<lparr>pl_events := evs, pl_interactive := [(?rid, kind)]\<rparr>)"
    using assms(5-8) k by (simp add: handle_server_request_def request_thread_def Let_def pr_def)
  then have "parse_line jparse jtext now run_id line c =
      Some (?c, parsed_line_default\<lparr>pl_events := evs, pl_interactive := [(?rid, kind)]\<rparr>)"
    using assms(1-5) by (simp add: parse_line_def handle_message_def)
  moreover have "\<exists>result rest c''. frame_response kind ?rid response ?c =
      (Inr (JObj [(''jsonrpc'', JStr ''2.0''), (''id'', raw), (''result'', result)] # rest), c'')" for response
    by (simp add: frame_response_def validate_response_def Let_def pr_def split: prod.split)
  ultimately show ?thesis by fastforce
qed

theorem request_answer_roundtrip_witness:
  "\<exists>kind c' out rid. parse_line demo_rpc (\<lambda>v. ''7'') 0 ''r1'' ''A'' demo_driver = Some (c', out)
    \<and> pl_interactive out = [(rid, kind)]
    \<and> (\<forall>response. \<exists>result rest c''. frame_response kind rid response c' =
         (Inr (JObj [(''jsonrpc'', JStr ''2.0''), (''id'', jnat 7), (''result'', result)] # rest), c''))"
  by (rule request_answer_roundtrip [where msg = demo_approval and m = M_CMD_APPROVAL and t = "''t1''"])
    (simp_all add: demo_rpc_def demo_approval_def is_interactive_method_def request_thread_def is_foreign_def)

end
