(* ===== verification/Actor_Service.thy ===== *)
theory Actor_Service
  imports Actor_Progress Parser_Props
begin

text \<open>
  What the loop delivers to its callers: the accounting of reply channels over a whole schedule,
  the deduplicated run states, and the absence of idle waiting.
\<close>

section \<open>Accounting over a schedule\<close>

fun loop_channels :: "loop_state \<Rightarrow> nat multiset" where
  "loop_channels (Looping a) = channels a"
| "loop_channels (Finished a) = mset (map fst (x_replies a))"

definition loop_ok :: "loop_state \<Rightarrow> bool" where
  "loop_ok s = (turn_inv (loop_actor s) \<and> (\<forall>a. s = Finished a \<longrightarrow> a_queued_user a = []))"

lemma loop_next_ok: "loop_ok s \<Longrightarrow> loop_ok (loop_next w now inp s)"
  using loop_next_inv [of s w now inp]
  by (cases s) (auto simp: loop_ok_def case_prod_beta split: if_splits)

lemma run_panicked: "x_panicked a \<Longrightarrow> run_schedule w sched (Looping a) = Looping a"
  by (induction sched) (auto simp: run_schedule_def)

lemma run_finished [simp]: "run_schedule w sched (Finished a) = Finished a"
  by (induction sched) (auto simp: run_schedule_def)

lemma received_finished [simp]: "received w sched (Finished a) = []"
  by (induction sched) auto

lemma run_schedule_Cons [simp]:
  "run_schedule w ((now, inp) # sched) s = run_schedule w sched (loop_next w now inp s)"
  by (simp add: run_schedule_def)

lemma handle_input_break:
  "snd (handle_input w now inp a) \<Longrightarrow> \<not> x_panicked a \<Longrightarrow> \<not> x_panicked (fst (handle_input w now inp a))"
proof (cases inp)
  case (Command c)
  then show "snd (handle_input w now inp a) \<Longrightarrow> \<not> x_panicked a \<Longrightarrow> ?thesis"
    by (cases c) (simp_all add: handle_stop_def)
qed (auto simp: handle_eof_def handle_stop_def Let_def)

lemma schedule_accounts:
  assumes "turn_inv (loop_actor s)" and "\<forall>a. s = Finished a \<longrightarrow> a_queued_user a = []"
    and "run_schedule w sched s = Finished e"
  shows "mset (map fst (x_replies e)) = loop_channels s + mset (received w sched s)"
  using assms
proof (induction sched arbitrary: s)
  case Nil
  then show ?case by (simp add: run_schedule_def)
next
  case (Cons x sched)
  obtain now inp where x: "x = (now, inp)" by fastforce
  show ?case
  proof (cases s)
    case (Finished a)
    then show ?thesis using Cons.prems by simp
  next
    case (Looping a)
    let ?s' = "loop_next w now inp s"
    have np: "\<not> x_panicked a" using Cons.prems(3) run_panicked Looping by fastforce
    have ok: "loop_ok ?s'" by (rule loop_next_ok) (use Cons.prems in \<open>simp add: loop_ok_def\<close>)
    have run: "run_schedule w sched ?s' = Finished e" using Cons.prems(3) by (simp add: x)
    have IH: "mset (map fst (x_replies e)) = loop_channels ?s' + mset (received w sched ?s')"
      using Cons.IH [of ?s'] ok run by (simp add: loop_ok_def)
    show ?thesis
    proof (cases "a_terminated a")
      case True
      then show ?thesis
        using IH Looping np cleanup_channels(1) [of a] by (simp add: x channels_def)
    next
      case False
      obtain b brk where h: "handle_input w now inp a = (b, brk)" by fastforce
      have nb: "\<not> x_panicked b"
      proof (cases brk)
        case True then show ?thesis using handle_input_break [of w now inp a] h np by simp
      next
        case False
        then show ?thesis using run run_panicked [of b w sched] Looping h np \<open>\<not> a_terminated a\<close> by auto
      qed
      have "channels b = mset (input_channels inp) + channels a"
        using handle_input_channels [of a w now inp] Cons.prems(1) Looping h nb by simp
      moreover have "loop_channels ?s' = channels b"
        using Looping h np False cleanup_channels(1) [of b] by (simp add: channels_def)
      ultimately show ?thesis using IH Looping np False by (simp add: x)
    qed
  qed
qed

section \<open>Deduplicated run states\<close>

definition emission_ok :: "actor \<Rightarrow> bool" where
  "emission_ok a = (distinct_adj ([] # run_states a) \<and> a_state a = last ([] # run_states a))"

lemma emission_ok_frame: "emission_frame a' a \<Longrightarrow> emission_ok a' = emission_ok a"
  by (simp add: emission_ok_def)

lemma emission_ok_emit [simp]:
  "emission_ok a \<Longrightarrow> emission_ok (emit_state w now st code err upd a)"
  using distinct_adj_append_iff [of "[] # run_states a" "[st]"]
  by (auto simp: emission_ok_def emit_state_run_states)

lemma emission_ok_fields [simp]:
  "emission_ok (a\<lparr>a_protocol := v0\<rparr>) = emission_ok a"
  "emission_ok (a\<lparr>a_codex := v1\<rparr>) = emission_ok a"
  "emission_ok (a\<lparr>a_codex_ready := v2\<rparr>) = emission_ok a"
  "emission_ok (a\<lparr>a_stdin := v3\<rparr>) = emission_ok a"
  "emission_ok (a\<lparr>a_cancelled := v4\<rparr>) = emission_ok a"
  "emission_ok (a\<lparr>a_pending_interrupt := v5\<rparr>) = emission_ok a"
  "emission_ok (a\<lparr>a_control_waiters := v6\<rparr>) = emission_ok a"
  "emission_ok (a\<lparr>a_active_turn := v7\<rparr>) = emission_ok a"
  "emission_ok (a\<lparr>a_active_extractor := v8\<rparr>) = emission_ok a"
  "emission_ok (a\<lparr>a_queued_user := v9\<rparr>) = emission_ok a"
  "emission_ok (a\<lparr>a_queued_internal := v10\<rparr>) = emission_ok a"
  "emission_ok (a\<lparr>a_next_turn_index := v11\<rparr>) = emission_ok a"
  "emission_ok (a\<lparr>a_next_auto_ctx_id := v12\<rparr>) = emission_ok a"
  "emission_ok (a\<lparr>a_next_turn_seq := v13\<rparr>) = emission_ok a"
  "emission_ok (a\<lparr>a_must_run_internal_for_turn := v14\<rparr>) = emission_ok a"
  "emission_ok (a\<lparr>a_quarantine := v15\<rparr>) = emission_ok a"
  "emission_ok (a\<lparr>a_quarantine_deadline := v16\<rparr>) = emission_ok a"
  "emission_ok (a\<lparr>a_interrupt_sent := v17\<rparr>) = emission_ok a"
  "emission_ok (a\<lparr>a_quarantine_from_internal := v18\<rparr>) = emission_ok a"
  "emission_ok (a\<lparr>a_terminated := v19\<rparr>) = emission_ok a"
  "emission_ok (a\<lparr>a_ralph_loop := v20\<rparr>) = emission_ok a"
  "emission_ok (a\<lparr>a_ralph_needs_dispatch := v21\<rparr>) = emission_ok a"
  "emission_ok (a\<lparr>x_replies := v22\<rparr>) = emission_ok a"
  "emission_ok (a\<lparr>x_uuids := v23\<rparr>) = emission_ok a"
  "emission_ok (a\<lparr>x_killed := v24\<rparr>) = emission_ok a"
  by (simp_all add: emission_ok_def)

lemma emission_ok_persist [simp]:
  "run_state_of ev = None \<Longrightarrow> emission_ok (persist_and_emit w ev a) = emission_ok a"
  by (rule emission_ok_frame) simp

lemma emission_ok_effects [simp]:
  "emission_ok (set_slash cmd a) = emission_ok a"
  "emission_ok (clear_result_tracking a) = emission_ok a"
  "emission_ok (persist_idle_running w now target a) = emission_ok a"
  "emission_ok (meta_clear_result_error w a) = emission_ok a"
  "emission_ok (meta_persist_result_error w err sub a) = emission_ok a"
  "emission_ok (persist_idle_outcome w now err a) = emission_ok a"
  "emission_ok (finalize_meta w now code a) = emission_ok a"
  "emission_ok (save_session_id w sid a) = emission_ok a"
  "emission_ok (save_thread_id w tid a) = emission_ok a"
  "emission_ok (reply ch rv a) = emission_ok a"
  "emission_ok (update_ralph f a) = emission_ok a"
  "emission_ok (pause_ralph a) = emission_ok a"
  "emission_ok (ralph_write_failed w now a) = emission_ok a"
  "emission_ok (ralph_on_turn_end w now origin failed a) = emission_ok a"
  "emission_ok (emit_ralph_complete w reason a) = emission_ok a"
  "emission_ok (on_user_turn_finished turn a) = emission_ok a"
  "emission_ok (snd (write_user_to_stdin w now s atts skills a)) = emission_ok a"
  "emission_ok (fst (map_with_protocol w js a)) = emission_ok a"
  "emission_ok (count_invalid a) = emission_ok a"
  "emission_ok (send_interrupt_to_cli w a) = emission_ok a"
  "emission_ok (write_json_lines_log w ctx vs a) = emission_ok a"
  "emission_ok (accepted i j t a) = emission_ok a"
  by (rule emission_ok_frame; simp)+

lemma emission_ok_quiet: "quiet a' a \<Longrightarrow> emission_ok a' = emission_ok a"
  by (simp add: emission_ok_def)

lemma announce_turn_emission [simp]:
  "emission_ok a \<Longrightarrow> emission_ok (announce_turn w now s u a)"
  by (simp add: announce_turn_def Let_def)

lemma start_turn_emission [simp]:
  "emission_ok a \<Longrightarrow> emission_ok (start_user_turn w now t a)"
  "emission_ok a \<Longrightarrow> emission_ok (start_ralph_turn w now s a)"
  by (simp_all add: start_user_turn_def start_ralph_turn_def Let_def case_prod_beta split: sum.split)

lemma try_dispatch_emission [simp]:
  assumes "turn_inv a" and "emission_ok a"
  shows "emission_ok (try_dispatch w now a)"
proof -
  have "emission_ok b" if "dispatch_ralph w now a = Some b" for b
    using that assms(2)
    by (auto simp: dispatch_ralph_def split: option.splits ralph_phase.splits if_splits)
  then show ?thesis
    using assms(2) by (simp add: try_dispatch_eq [OF assms(1)] split: list.split option.split)
qed

lemma end_turn_emission:
  assumes "turn_inv a" and "emission_ok a"
  shows "emission_ok (end_turn_and_dispatch w now a)"
proof -
  have "turn_inv (set_slash None (a\<lparr>a_active_turn := None, a_active_extractor := None\<rparr>))"
    using turn_inv_no_extractor [OF turn_inv_release [OF assms(1)]] by simp
  then show ?thesis using assms(2) by (simp add: end_turn_and_dispatch_def)
qed

lemma finish_turn_emission:
  "turn_inv a \<Longrightarrow> emission_ok a \<Longrightarrow> emission_ok (finish_turn w now failed turn a)"
  using finish_turn_inner_inv by (simp add: finish_turn_def Let_def)

lemma on_run_state_emission:
  "turn_inv a \<Longrightarrow> emission_ok a \<Longrightarrow> emission_ok (on_run_state w now st code err a)"
  by (simp add: on_run_state_def suppress_interrupt_def Let_def finish_turn_emission split: option.split)

lemma user_turn_event_emission:
  "turn_inv a \<Longrightarrow> emission_ok a \<Longrightarrow> emission_ok (user_turn_event w now ev a)"
  by (cases ev) (simp_all add: on_run_state_emission split: option.split)

lemma turn_events_emission:
  "turn_inv a \<Longrightarrow> emission_ok a \<Longrightarrow> emission_ok (turn_events w now evs a)"
  by (induction evs arbitrary: a)
    (simp_all add: no_internal_turn user_turn_event_emission user_turn_event_inv)

lemma lift_quarantine_emission:
  "turn_inv a \<Longrightarrow> emission_ok a \<Longrightarrow> emission_ok (lift_quarantine w now st code err a)"
  using leave_quarantine_inv [of a]
  by (simp add: lift_quarantine_def lift_emit_def Let_def case_prod_beta)
    (simp add: leave_quarantine_def)

lemma quarantine_events_emission:
  "turn_inv a \<Longrightarrow> emission_ok a \<Longrightarrow> emission_ok (quarantine_events w now evs a)"
proof (induction evs arbitrary: a)
  case (Cons ev evs)
  have "run_state_of ev = None" if "quarantine_event_passthrough ev"
    using that by (cases ev) simp_all
  then show ?case
    using Cons by (simp add: lift_quarantine_emission case_prod_beta split: option.split)
qed simp


text \<open>The driver's parser never returns a RunState among its events.\<close>

lemma codex_line_quiet: "\<forall>ev\<in>set (pl_events (fst (codex_line w now rid line c))). run_state_of ev = None"
  using line_events_plain [of "w_parse w" "w_text w" now rid line c]
  by (auto simp: codex_line_def list_all_iff plain_event_def split: option.split)

lemma emit_codex_events_emission:
  "\<forall>ev\<in>set evs. run_state_of ev = None \<Longrightarrow> emission_ok a \<Longrightarrow> emission_ok (emit_codex_events w evs a)"
  unfolding emit_codex_events_def by (induction evs arbitrary: a) simp_all

lemma codex_lifecycle_emission:
  "turn_inv a \<Longrightarrow> emission_ok a \<Longrightarrow> emission_ok (codex_lifecycle w now sig a)"
  by (simp add: codex_lifecycle_def codex_turn_over_def end_turn_emission
      split: option.split lifecycle_signal.split)

lemma open_codex_gate_emission:
  "turn_inv a \<Longrightarrow> emission_ok a \<Longrightarrow> emission_ok (open_codex_gate w now a)"
  by (simp add: open_codex_gate_def)

lemma handle_codex_parsed_emission:
  assumes "turn_inv a" "emission_ok a" "\<forall>ev\<in>set (pl_events pl). run_state_of ev = None"
  shows "emission_ok (handle_codex_parsed w now pl a)"
proof -
  define b where "b = save_thread_id w (pl_thread_id pl)
     (case pl_control_response pl of
        None \<Rightarrow> write_json_lines_log w ''codex protocol request'' (pl_outbound pl) a
      | Some (rid, v) \<Rightarrow> take_waiter rid v (write_json_lines_log w ''codex protocol request'' (pl_outbound pl) a))"
  have b: "turn_inv b" "emission_ok b"
    using assms(1,2) emission_ok_quiet [OF take_waiter_quiet]
    by (simp_all add: b_def case_prod_beta split: option.split)
  let ?c = "open_codex_gate w now b"
  let ?d = "track_interactive now (pl_interactive pl) (emit_codex_events w (pl_events pl) ?c)"
  have "turn_inv ?d" using open_codex_gate_inv [OF b(1)] by simp
  moreover have "emission_ok ?d"
    using emit_codex_events_emission [OF assms(3)] open_codex_gate_emission [OF b]
      emission_ok_quiet [OF track_interactive_quiet] by simp
  moreover have "handle_codex_parsed w now pl a =
      (if x_panicked ?c then ?c else codex_lifecycle w now (pl_lifecycle pl) ?d)"
    by (simp only: handle_codex_parsed_def Let_def b_def)
  ultimately show ?thesis
    using open_codex_gate_emission [OF b] codex_lifecycle_emission by simp
qed

lemma reset_activity_emission [simp]: "emission_ok (reset_activity now a) = emission_ok a"
  by (simp add: reset_activity_def)

lemma handle_claude_value_emission:
  assumes "turn_inv a" "emission_ok a"
  shows "emission_ok (handle_claude_value w now v a)"
  using assms reset_activity_inv [OF assms(1)]
    emission_ok_quiet [OF handle_control_event_quiet] emission_ok_quiet [OF handle_control_internal_quiet]
  by (simp add: handle_claude_value_def Let_def case_prod_beta quarantine_events_emission
      turn_events_emission)

lemma handle_stdout_line_emission:
  assumes "turn_inv a" "emission_ok a"
  shows "emission_ok (handle_stdout_line w now line a)"
proof -
  have "emission_ok (handle_codex_line w now s c a)" for s c
    using codex_line_quiet handle_codex_parsed_emission [of "(reset_activity now a)\<lparr>a_codex := _\<rparr>"]
      reset_activity_inv [OF assms(1)] assms(2)
    by (simp add: handle_codex_line_def case_prod_beta)
  then show ?thesis
    using assms(2) handle_claude_value_emission [OF assms(1,2)]
      emission_ok_quiet [OF handle_unparsed_quiet]
    by (simp add: handle_stdout_line_def Let_def split: option.split)
qed

lemma kill_quarantined_emission [simp]:
  "emission_ok a \<Longrightarrow> emission_ok (kill_quarantined w now a)"
  by (simp add: kill_quarantined_def Let_def)

lemma on_tick_timeout_emission:
  assumes "emission_ok a"
  shows "emission_ok (on_tick_timeout w now a)"
  using assms emission_ok_quiet [OF tick_codex_quiet]
  by (simp add: on_tick_timeout_def tick_quarantine_def tick_idle_def tick_internal_turn_def
      tick_user_turn_def enter_quarantine_def Let_def split: option.split)

lemma handle_tick_emission:
  assumes "turn_inv a" "emission_ok a"
  shows "emission_ok (handle_tick w now a)"
proof -
  have "turn_inv ((on_tick_timeout w now a)\<lparr>a_ralph_needs_dispatch := False\<rparr>)"
    using on_tick_timeout_inv [OF assms(1)] by (simp add: inv_defs)
  then show ?thesis
    using on_tick_timeout_emission [OF assms(2)] by (simp add: handle_tick_def Let_def)
qed

lemma handle_send_message_emission:
  assumes "turn_inv a" "emission_ok a"
  shows "emission_ok (handle_send_message w now s atts skills ch a)"
proof (cases "a_terminated a")
  case False
  then obtain i j t where "tk_seq t = a_next_turn_seq a"
    "handle_send_message w now s atts skills ch a = try_dispatch w now (accepted i j t a)"
    by (rule handle_send_message_accepts)
  then show ?thesis using accepted_inv [OF assms(1)] assms(2) by simp
qed (use assms in \<open>simp add: handle_send_message_def\<close>)

lemma start_ralph_loop_emission:
  assumes "turn_inv a" "emission_ok a"
  shows "emission_ok (start_ralph_loop w now prompt m promise ch a)"
proof (cases "a_ralph_loop a")
  case None
  then have "turn_inv (a\<lparr>a_ralph_loop := Some (new_ralph prompt m promise s)\<rparr>)" for s
    using assms(1) by (simp add: inv_defs ralph_defs new_ralph_def)
  then show ?thesis using assms(2) by (simp add: start_ralph_loop_def Let_def)
qed (use assms in \<open>simp add: start_ralph_loop_def\<close>)

lemma cancel_ralph_loop_emission [simp]:
  "emission_ok a \<Longrightarrow> emission_ok (cancel_ralph_loop w ch a)"
  by (simp add: cancel_ralph_loop_def split: option.split)

lemma handle_stop_emission [simp]: "emission_ok (handle_stop a) = emission_ok a"
  by (simp add: handle_stop_def)

lemma handle_eof_emission [simp]: "emission_ok a \<Longrightarrow> emission_ok (handle_eof w now code a)"
  by (simp add: handle_eof_def Let_def)

lemma cleanup_emission [simp]: "emission_ok (cleanup a) = emission_ok a"
  by (simp add: cleanup_def)

lemma reply_with_emission [simp]: "emission_ok (reply_with ch f r) = emission_ok (snd r)"
  by (simp add: reply_with_def)

lemma handle_command_emission:
  "turn_inv a \<Longrightarrow> emission_ok a \<Longrightarrow> emission_ok (fst (handle_command w now c a))"
  by (cases c)
    (simp_all add: handle_send_message_emission start_ralph_loop_emission
      emission_ok_quiet [OF handle_send_control_quiet] emission_ok_quiet [OF respond_permission_quiet]
      emission_ok_quiet [OF cancel_control_quiet] emission_ok_quiet [OF deliver_quiet])

lemma loop_next_emission:
  assumes "turn_inv (loop_actor s)" "emission_ok (loop_actor s)"
  shows "emission_ok (loop_actor (loop_next w now inp s))"
proof (cases s)
  case (Looping a)
  have "emission_ok (fst (handle_input w now inp a))"
    using assms Looping
    by (cases inp)
      (simp_all add: handle_command_emission handle_stdout_line_emission handle_tick_emission
        emission_ok_quiet [OF handle_stderr_line_quiet])
  then show ?thesis using Looping assms by (simp add: case_prod_beta)
qed (use assms in simp)

end
