(* ===== verification/Actor_Busy.thy ===== *)
theory Actor_Busy
  imports Actor_Service
begin

text \<open>
  No accepted message waits in the queue while the actor is free to run it, as long as the
  child's stdin takes every write. The lemmas follow the handlers: each one that opens the
  dispatch gate calls the dispatcher afterwards.
\<close>

section \<open>Healthy writes\<close>

definition healthy :: "world \<Rightarrow> bool" where
  "healthy w = (\<forall>n. w_write w n = None \<and> w_flush w n = None)"

lemma write_json_line_healthy:
  "healthy w \<Longrightarrow> a_stdin a \<Longrightarrow> fst (write_json_line w ctx v a) = Inr ()"
  by (simp add: write_json_line_def healthy_def Let_def)

lemma write_json_lines_healthy:
  "healthy w \<Longrightarrow> a_stdin a \<Longrightarrow> fst (write_json_lines w ctx vs a) = Inr ()"
  by (induction vs arbitrary: a)
    (simp_all add: case_prod_beta write_json_line_healthy split: sum.split)

lemma write_user_healthy:
  assumes "healthy w" "a_stdin a" "\<not> x_panicked (snd (write_user_to_stdin w now s atts skills a))"
  shows "\<exists>u. fst (write_user_to_stdin w now s atts skills a) = Inr u"
proof (cases "a_codex a")
  case None
  then show ?thesis
    using assms write_json_line_healthy [of w]
    by (auto simp: write_user_to_stdin_def write_user_claude_def panic_def case_prod_beta
        split: option.splits sum.splits)
next
  case (Some c)
  then show ?thesis
    using assms write_json_lines_healthy [of w]
    by (auto simp: write_user_to_stdin_def write_user_codex_def panic_def case_prod_beta
        split: option.splits sum.splits)
qed

section \<open>Stdin stays open\<close>

lemma start_turn_stdin [simp]:
  "a_stdin (start_user_turn w now t a) = a_stdin a"
  "a_stdin (start_ralph_turn w now s a) = a_stdin a"
  by (simp_all add: start_user_turn_def start_ralph_turn_def ralph_write_failed_def Let_def
      case_prod_beta split: sum.split option.split)

lemma dispatch_ralph_stdin:
  "dispatch_ralph w now a = Some b \<Longrightarrow> a_stdin b = a_stdin a"
  by (auto simp: dispatch_ralph_def split: option.splits ralph_phase.splits if_splits)

lemma try_dispatch_stdin [simp]:
  "turn_inv a \<Longrightarrow> a_stdin (try_dispatch w now a) = a_stdin a"
  using dispatch_ralph_stdin by (simp add: try_dispatch_eq split: list.split option.split)

lemma ralph_on_turn_end_stdin [simp]:
  "a_stdin (ralph_on_turn_end w now origin failed a) = a_stdin a"
  by (simp add: ralph_on_turn_end_def ralph_execute_def case_prod_beta
      split: option.split ralph_action.split)

section \<open>The dispatcher catches up\<close>

definition caught_up :: "actor \<Rightarrow> bool" where
  "caught_up a = (x_panicked a \<or> \<not> dispatch_gate a \<or> a_queued_user a = [])"

lemma start_user_turn_busy:
  assumes "healthy w" "a_stdin a"
  shows "x_panicked (start_user_turn w now t a) \<or> a_active_turn (start_user_turn w now t a) \<noteq> None"
proof (cases "x_panicked (snd (write_user_to_stdin w now (tk_text t) (tk_attachments t) (tk_skills t)
    (set_slash (slash_of_kind (tk_kind t)) a)))")
  case True
  then show ?thesis by (simp add: start_user_turn_def Let_def case_prod_beta split: sum.split)
next
  case False
  then obtain u where "fst (write_user_to_stdin w now (tk_text t) (tk_attachments t) (tk_skills t)
      (set_slash (slash_of_kind (tk_kind t)) a)) = Inr u"
    using write_user_healthy [OF assms(1)] assms(2) by fastforce
  then show ?thesis by (simp add: start_user_turn_def Let_def case_prod_beta)
qed

lemma try_dispatch_caught_up:
  assumes "turn_inv a" "healthy w" "a_stdin a"
  shows "caught_up (try_dispatch w now a)"
proof (cases "dispatch_gate a")
  case True
  show ?thesis
  proof (cases "a_queued_user a")
    case Nil
    then show ?thesis
      using dispatch_ralph_quiet(1)
      by (auto simp: try_dispatch_eq [OF assms(1)] caught_up_def split: option.split)
  next
    case (Cons t ts)
    then show ?thesis
      using True start_user_turn_busy [of w "pause_ralph (a\<lparr>a_queued_user := ts\<rparr>)" now t] assms(2,3)
      by (auto simp: try_dispatch_eq [OF assms(1)] caught_up_def dispatch_gate_def)
  qed
next
  case False
  then show ?thesis by (simp add: try_dispatch_def caught_up_def)
qed

text \<open>The invariant of a looping actor whose writes succeed.\<close>

definition serving :: "actor \<Rightarrow> bool" where
  "serving a = (turn_inv a \<and> a_stdin a \<and> caught_up a)"

lemma serving_quiet: "quiet a' a \<Longrightarrow> turn_inv a' = turn_inv a \<Longrightarrow> serving a' = serving a"
  by (simp add: serving_def caught_up_def dispatch_gate_def)

lemma serving_dispatch:
  "turn_inv a \<Longrightarrow> healthy w \<Longrightarrow> a_stdin a \<Longrightarrow> serving (try_dispatch w now a)"
  by (simp add: serving_def try_dispatch_caught_up try_dispatch_inv)

lemma end_turn_serving:
  assumes "turn_inv a" "healthy w" "a_stdin a"
  shows "serving (end_turn_and_dispatch w now a)"
proof -
  have "turn_inv (set_slash None (a\<lparr>a_active_turn := None, a_active_extractor := None\<rparr>))"
    using turn_inv_no_extractor [OF turn_inv_release [OF assms(1)]] by simp
  then show ?thesis using assms by (simp add: end_turn_and_dispatch_def serving_dispatch)
qed

lemma finish_turn_serving:
  "turn_inv a \<Longrightarrow> healthy w \<Longrightarrow> a_stdin a \<Longrightarrow> serving (finish_turn w now failed turn a)"
  using finish_turn_inner_inv by (simp add: finish_turn_def Let_def serving_dispatch)

lemma on_run_state_serving:
  assumes "serving a" "healthy w"
  shows "serving (on_run_state w now st code err a)"
proof -
  have i: "turn_inv (on_run_state w now st code err a)"
    using assms(1) on_run_state_inv by (simp add: serving_def)
  show ?thesis
    using assms finish_turn_serving i
    by (auto simp: serving_def on_run_state_def suppress_interrupt_def Let_def caught_up_def
        dispatch_gate_def split: option.splits if_splits)
qed


section \<open>Every branch of the loop\<close>

lemma serving_frame:
  assumes "turn_frame a' a" "(a_codex a' = None) = (a_codex a = None)" "x_panicked a' = x_panicked a"
  shows "serving a' = serving a"
proof -
  have "turn_inv a' = turn_inv a" using assms(1) by (rule turn_inv_frame)
  then show ?thesis using assms by (simp add: serving_def caught_up_def dispatch_gate_def)
qed

lemma serving_persist [simp]: "serving (persist_and_emit w ev a) = serving a"
  by (rule serving_frame) simp_all

lemma user_turn_event_serving:
  assumes "serving a" "healthy w"
  shows "serving (user_turn_event w now ev a)"
proof -
  have "serving (save_session_id w sid a)" for sid
    using assms(1) serving_frame [of "save_session_id w sid a" a] by simp
  then show ?thesis
    using assms on_run_state_serving by (cases ev) (simp_all split: option.split)
qed

lemma count_invalid_serving [simp]: "serving (count_invalid a) = serving a"
  by (rule serving_frame) simp_all

lemma turn_events_serving:
  "serving a \<Longrightarrow> healthy w \<Longrightarrow> serving (turn_events w now evs a)"
proof (induction evs arbitrary: a)
  case (Cons ev evs)
  then have "\<not> is_internal_turn a" using no_internal_turn by (simp add: serving_def)
  then show ?case using Cons user_turn_event_serving by simp
qed simp

lemma lift_quarantine_serving:
  assumes "turn_inv a" "a_stdin a" "healthy w"
  shows "serving (lift_quarantine w now st code err a)"
proof -
  obtain e c ee where r: "quarantine_lift_recovery (a_quarantine_from_internal a) st err
      (a_pending_interrupt a) = (e, c, ee)" by (cases rule: prod_cases3)
  let ?a2 = "if c then (leave_quarantine a)\<lparr>a_pending_interrupt := False\<rparr> else leave_quarantine a"
  let ?a3 = "if e then lift_emit w now st code ee ?a2 else ?a2"
  have "turn_inv ?a3"
    by (simp add: lift_emit_def Let_def leave_quarantine_inv [OF assms(1)])
  moreover have "a_stdin ?a3"
    using assms(2) by (simp add: lift_emit_def Let_def leave_quarantine_def)
  ultimately show ?thesis
    using serving_dispatch [of ?a3 w now] assms(3) by (simp add: lift_quarantine_def r Let_def)
qed

lemma quarantine_events_serving:
  "serving a \<Longrightarrow> healthy w \<Longrightarrow> serving (quarantine_events w now evs a)"
proof (induction evs arbitrary: a)
  case (Cons ev evs)
  have "serving (lift_quarantine w now st code err a)" for st code err
    by (rule lift_quarantine_serving) (use Cons.prems in \<open>simp_all add: serving_def\<close>)
  then show ?case using Cons by (simp add: case_prod_beta split: option.split)
qed simp

lemma codex_lifecycle_serving:
  assumes "serving a" "healthy w"
  shows "serving (codex_lifecycle w now sig a)"
proof -
  have e: "serving (emit_state w now st code err upd a) = serving a" for st code err upd
    by (rule serving_frame) simp_all
  have "serving (codex_turn_over w now code err a)" for code err
    unfolding codex_turn_over_def
    by (rule end_turn_serving) (use assms in \<open>simp_all add: serving_def\<close>)
  then show ?thesis
    using assms e by (simp add: codex_lifecycle_def split: option.split lifecycle_signal.split)
qed

lemma open_codex_gate_serving:
  assumes "serving a" "healthy w"
  shows "serving (open_codex_gate w now a)"
  using assms serving_dispatch [of "a\<lparr>a_codex_ready := True\<rparr>" w now]
  by (simp add: open_codex_gate_def) (simp add: serving_def)

lemma handle_codex_parsed_serving:
  assumes "serving a" "healthy w"
  shows "serving (handle_codex_parsed w now pl a)"
proof -
  define b where "b = save_thread_id w (pl_thread_id pl)
     (case pl_control_response pl of
        None \<Rightarrow> write_json_lines_log w ''codex protocol request'' (pl_outbound pl) a
      | Some (rid, v) \<Rightarrow> take_waiter rid v (write_json_lines_log w ''codex protocol request'' (pl_outbound pl) a))"
  have "serving b = serving a"
    by (rule serving_quiet) (simp_all add: b_def case_prod_beta split: option.split)
  then have b: "serving b" using assms(1) by simp
  let ?c = "open_codex_gate w now b"
  let ?d = "track_interactive now (pl_interactive pl) (emit_codex_events w (pl_events pl) ?c)"
  have c: "serving ?c" using open_codex_gate_serving [OF b assms(2)] .
  have "serving (emit_codex_events w (pl_events pl) ?c)"
    using c serving_frame [of "emit_codex_events w (pl_events pl) ?c" ?c] by simp
  then have d: "serving ?d"
    using serving_quiet [of ?d "emit_codex_events w (pl_events pl) ?c"] by simp
  have "handle_codex_parsed w now pl a =
      (if x_panicked ?c then ?c else codex_lifecycle w now (pl_lifecycle pl) ?d)"
    by (simp only: handle_codex_parsed_def Let_def b_def)
  then show ?thesis using c codex_lifecycle_serving [OF d assms(2)] by simp
qed

lemma reset_activity_serving:
  assumes "serving a"
  shows "serving (reset_activity now a)"
  using assms reset_activity_inv [of a now]
  by (auto simp: serving_def caught_up_def dispatch_gate_def) (simp_all add: reset_activity_def)

lemma handle_claude_value_serving:
  assumes "serving a" "healthy w"
  shows "serving (handle_claude_value w now v a)"
proof -
  let ?b = "reset_activity now a"
  have b: "serving ?b" using assms(1) by (rule reset_activity_serving)
  have q: "serving (handle_control_event w now v ty ?b)" "serving (handle_control_event_internal w v ty ?b)" for ty
    using b serving_quiet [of "handle_control_event w now v ty ?b" ?b]
      serving_quiet [of "handle_control_event_internal w v ty ?b" ?b] by simp_all
  have "serving (fst (map_with_protocol w v ?b))"
    using b serving_frame [of "fst (map_with_protocol w v ?b)" ?b] by simp
  then show ?thesis
    using q assms(2)
    by (simp add: handle_claude_value_def Let_def case_prod_beta quarantine_events_serving
        turn_events_serving)
qed

lemma handle_stdout_line_serving:
  assumes "serving a" "healthy w"
  shows "serving (handle_stdout_line w now line a)"
proof -
  have "serving ((reset_activity now a)\<lparr>a_codex := Some c'\<rparr>)" if "a_codex a = Some c" for c c'
    using reset_activity_serving [OF assms(1), of now] that
      serving_quiet [of "(reset_activity now a)\<lparr>a_codex := Some c'\<rparr>" "reset_activity now a"]
    by (simp add: reset_activity_def)
  then have "serving (handle_codex_line w now s c a)" if "a_codex a = Some c" for s c
    using that assms(2) handle_codex_parsed_serving by (simp add: handle_codex_line_def case_prod_beta)
  moreover have "serving (handle_unparsed w s a)" for s
    using assms(1) serving_quiet [of "handle_unparsed w s a" a] by simp
  ultimately show ?thesis
    using assms handle_claude_value_serving
    by (simp add: handle_stdout_line_def Let_def split: option.split)
qed

lemma kill_quarantined_serving:
  "serving a \<Longrightarrow> serving (kill_quarantined w now a)"
  using kill_quarantined_inv [of a w now]
  by (simp add: serving_def) (simp add: kill_quarantined_def caught_up_def Let_def)

lemma enter_quarantine_serving:
  "serving a \<Longrightarrow> serving (enter_quarantine False a)"
  using enter_quarantine_inv [of a]
  by (simp add: serving_def) (simp add: enter_quarantine_def caught_up_def dispatch_gate_def)

lemma needs_dispatch_serving [simp]: "serving (a\<lparr>a_ralph_needs_dispatch := x\<rparr>) = serving a"
  by (simp add: serving_def caught_up_def dispatch_gate_def inv_defs)

lemma on_tick_timeout_serving:
  assumes "serving a"
  shows "serving (on_tick_timeout w now a)"
proof -
  let ?b = "tick_codex w now a"
  have b: "serving ?b" using assms serving_quiet [of ?b a] tick_codex_inv [of a w now]
    by (simp add: serving_def caught_up_def dispatch_gate_def)
  have i: "turn_inv (on_tick_timeout w now a)"
    using assms on_tick_timeout_inv by (simp add: serving_def)
  have ni: "is_internal_origin (at_origin t) = False" if "a_active_turn ?b = Some t" for t
    using b that by (simp add: serving_def inv_defs)
  have "serving ((send_interrupt_to_cli w ?b)\<lparr>a_interrupt_sent := x, a_quarantine_deadline := y\<rparr>)" for x y
    using b by (simp add: serving_def caught_up_def dispatch_gate_def inv_defs)
  then have q: "serving (tick_quarantine w now ?b)"
    using b kill_quarantined_serving [OF b] by (simp add: tick_quarantine_def)
  have d: "serving (tick_idle now ?b)"
    using b by (simp add: tick_idle_def split: option.split)
  have u: "serving (tick_user_turn now t ?b)" if t: "a_active_turn ?b = Some t" for t
  proof -
    have "serving (?b\<lparr>a_active_turn := Some (t\<lparr>at_hard := h\<rparr>)\<rparr>)" for h
      using b t by (simp add: serving_def caught_up_def dispatch_gate_def inv_defs)
    then show ?thesis using b enter_quarantine_serving [OF b] by (simp add: tick_user_turn_def)
  qed
  show ?thesis
    using q d u ni by (simp add: on_tick_timeout_def Let_def split: option.split)
qed

lemma handle_tick_serving:
  assumes "serving a" "healthy w"
  shows "serving (handle_tick w now a)"
proof -
  have s: "serving (on_tick_timeout w now a)" using assms(1) by (rule on_tick_timeout_serving)
  let ?b = "(on_tick_timeout w now a)\<lparr>a_ralph_needs_dispatch := False\<rparr>"
  have "turn_inv ?b" using s by (simp add: serving_def inv_defs)
  then have "serving (try_dispatch w now ?b)"
    by (rule serving_dispatch) (use s assms in \<open>simp_all add: serving_def\<close>)
  then show ?thesis using s by (simp add: handle_tick_def Let_def)
qed


lemma handle_send_message_serving:
  assumes "serving a" "healthy w"
  shows "serving (handle_send_message w now s atts skills ch a)"
proof (cases "a_terminated a")
  case True
  have "serving (reply ch v a)" for v
    using assms(1) True by (simp add: serving_def caught_up_def dispatch_gate_def)
  then show ?thesis using True by (simp add: handle_send_message_def)
next
  case False
  then obtain i j t where t: "tk_seq t = a_next_turn_seq a"
    and eq: "handle_send_message w now s atts skills ch a = try_dispatch w now (accepted i j t a)"
    by (rule handle_send_message_accepts)
  have "turn_inv (accepted i j t a)" "a_stdin (accepted i j t a)"
    using assms(1) t accepted_inv by (simp_all add: serving_def)
  then show ?thesis using assms(2) by (simp add: eq serving_dispatch)
qed

lemma start_ralph_loop_serving:
  assumes "serving a" "healthy w"
  shows "serving (start_ralph_loop w now prompt m promise ch a)"
proof (cases "a_ralph_loop a")
  case None
  then have "turn_inv (a\<lparr>a_ralph_loop := Some (new_ralph prompt m promise s)\<rparr>)" for s
    using assms(1) by (simp add: serving_def inv_defs ralph_defs new_ralph_def)
  then show ?thesis
    using None assms by (simp add: start_ralph_loop_def Let_def serving_dispatch serving_def [of a])
next
  case (Some r)
  have "serving (reply ch v a) = serving a" for v
    by (simp add: serving_def caught_up_def dispatch_gate_def)
  then show ?thesis using Some assms by (simp add: start_ralph_loop_def)
qed

lemma cancel_ralph_loop_serving:
  assumes "serving a"
  shows "serving (cancel_ralph_loop w ch a)"
proof -
  have "turn_inv (cancel_ralph_loop w ch a)"
    using assms cancel_ralph_loop_inv by (simp add: serving_def)
  then show ?thesis
    using assms
    by (auto simp: serving_def cancel_ralph_loop_def caught_up_def dispatch_gate_def update_ralph_def
        split: option.splits)
qed

lemma handle_command_serving:
  assumes "serving a" "healthy w" "handle_command w now c a = (b, False)"
  shows "serving b"
proof -
  have r: "serving (reply_with ch f r) = serving (snd r)" for ch f r
    by (simp add: reply_with_def serving_def caught_up_def dispatch_gate_def)
  have q: "serving (snd (handle_send_control_async w request ch a))"
    "serving (snd (handle_respond_permission w rid v rt a))"
    "serving (snd (handle_cancel_control_request w rid a))"
    "serving (snd (deliver_interaction_response w k rid ik res v a))" for request ch rid v rt k ik res
    using assms(1) serving_quiet [of "snd (handle_send_control_async w request ch a)" a]
      serving_quiet [of "snd (handle_respond_permission w rid v rt a)" a]
      serving_quiet [of "snd (handle_cancel_control_request w rid a)" a]
      serving_quiet [of "snd (deliver_interaction_response w k rid ik res v a)" a]
    by simp_all
  show ?thesis
    using assms(3)
    by (cases c)
      (auto simp: r q handle_send_message_serving start_ralph_loop_serving cancel_ralph_loop_serving assms(1,2))
qed

lemma handle_input_serving:
  assumes "serving a" "healthy w" "handle_input w now inp a = (b, False)"
  shows "serving b"
proof (cases inp)
  case (StderrLine s)
  moreover have "serving (handle_stderr_line w s a) = serving a"
    by (rule serving_quiet) simp_all
  ultimately show ?thesis using assms by auto
next
  case (Command c)
  then show ?thesis using assms handle_command_serving by simp
next
  case (StdoutLine s)
  then show ?thesis using assms handle_stdout_line_serving by auto
next
  case Tick
  then show ?thesis using assms handle_tick_serving by auto
next
  case TokenSet
  then have "b = a\<lparr>a_cancelled := True\<rparr>" using assms(3) by simp
  then show ?thesis using assms(1) by (simp add: serving_def caught_up_def dispatch_gate_def)
qed (use assms in \<open>auto split: if_splits\<close>)

text \<open>The invariant of the loop's states: a looping actor is serving.\<close>

fun loop_serving :: "loop_state \<Rightarrow> bool" where
  "loop_serving (Looping a) = serving a"
| "loop_serving (Finished a) = True"

interpretation service: invariant_system "\<lambda>s. healthy w \<and> actor_init w s" "actor_step w"
    "\<lambda>s. healthy w \<and> loop_serving s" for w
proof
  fix s assume "healthy w \<and> actor_init w s"
  moreover have "serving (handshake w (spawn_actor r res i c cx st t store))" for r res i c cx st t store
    using spawn_inv by (simp add: serving_def caught_up_def) (simp add: spawn_actor_def)
  ultimately show "healthy w \<and> loop_serving s" by auto
next
  fix s t assume s: "healthy w \<and> loop_serving s" and "actor_step w s t"
  from this(2) show "healthy w \<and> loop_serving t"
    by cases (use s handle_input_serving in auto)
qed

end
