(* ===== verification/Actor_Codex.thy ===== *)
theory Actor_Codex
  imports Actor_Busy
begin

text \<open>
  The Ralph loop on the Codex transport. The end of a Codex turn goes through
  \<open>end\_turn\_and\_dispatch\<close> and never through \<open>ralph\_on\_turn\_end\<close>, so no iteration is ever
  counted: the invariant \<open>uncounted\<close> of a Codex actor is that its loop stands at iteration 0.
\<close>

definition uncounted :: "actor \<Rightarrow> bool" where
  "uncounted a = (\<forall>r. a_ralph_loop a = Some r \<longrightarrow> rl_iteration r = 0)"

lemma uncounted_frame: "a_ralph_loop a' = a_ralph_loop a \<Longrightarrow> uncounted a' = uncounted a"
  by (simp add: uncounted_def)

lemma uncounted_update:
  "uncounted a \<Longrightarrow> (\<And>r. rl_iteration (f r) = rl_iteration r) \<Longrightarrow> uncounted (update_ralph f a)"
  by (auto simp: uncounted_def)

lemma emit_ralph_complete_uncounted [simp]: "uncounted (emit_ralph_complete w reason a)"
  by (simp add: uncounted_def emit_ralph_complete_def Let_def)

lemma ralph_write_failed_uncounted:
  "uncounted a \<Longrightarrow> uncounted (ralph_write_failed w now a)"
  by (cases "a_ralph_loop a") (simp_all add: ralph_write_failed_def Let_def, simp_all add: uncounted_def)

lemma start_turn_uncounted:
  "uncounted a \<Longrightarrow> uncounted (start_user_turn w now t a)"
  "uncounted a \<Longrightarrow> uncounted (start_ralph_turn w now s a)"
proof -
  show "uncounted (start_user_turn w now t a)" if "uncounted a"
    using that by (simp add: start_user_turn_def Let_def case_prod_beta split: sum.split)
      (simp add: uncounted_def)
  show "uncounted (start_ralph_turn w now s a)" if "uncounted a"
  proof -
    let ?a = "update_ralph (\<lambda>r. r\<lparr>rl_turn_toplevel_texts := []\<rparr>)
        (a\<lparr>a_next_turn_index := Suc (a_next_turn_index a), a_next_turn_seq := Suc (a_next_turn_seq a)\<rparr>)"
    have "uncounted ?a" by (rule uncounted_update) (use that in \<open>simp_all add: uncounted_def\<close>)
    then have "uncounted (snd (write_user_to_stdin w now s [] [] ?a))" by (simp add: uncounted_def)
    then show ?thesis
      by (simp add: start_ralph_turn_def Let_def case_prod_beta ralph_write_failed_uncounted split: sum.split)
        (simp add: uncounted_def)
  qed
qed

lemma dispatch_ralph_uncounted:
  assumes "uncounted a" "dispatch_ralph w now a = Some b"
  shows "uncounted b"
proof -
  have "uncounted (update_ralph (\<lambda>r. r\<lparr>rl_phase := RRunning, rl_retry_after := None\<rparr>) a)"
    by (rule uncounted_update) (use assms(1) in simp_all)
  then show ?thesis
    using assms start_turn_uncounted
    by (auto simp: dispatch_ralph_def split: option.splits ralph_phase.splits if_splits)
qed

lemma try_dispatch_uncounted:
  assumes "turn_inv a" "uncounted a"
  shows "uncounted (try_dispatch w now a)"
proof -
  have "uncounted (pause_ralph (a\<lparr>a_queued_user := ts\<rparr>))" for ts
    unfolding pause_ralph_def by (rule uncounted_update) (use assms(2) in \<open>simp_all add: uncounted_def\<close>)
  then show ?thesis
    using assms start_turn_uncounted dispatch_ralph_uncounted
    by (simp add: try_dispatch_eq split: list.split option.split)
qed

lemma end_turn_uncounted:
  assumes "turn_inv a" "uncounted a"
  shows "uncounted (end_turn_and_dispatch w now a)"
proof -
  have "turn_inv (set_slash None (a\<lparr>a_active_turn := None, a_active_extractor := None\<rparr>))"
    using turn_inv_no_extractor [OF turn_inv_release [OF assms(1)]] by simp
  then show ?thesis
    unfolding end_turn_and_dispatch_def
    by (rule try_dispatch_uncounted) (use assms(2) in \<open>simp add: uncounted_def\<close>)
qed

lemma codex_lifecycle_uncounted:
  assumes "turn_inv a" "uncounted a"
  shows "uncounted (codex_lifecycle w now sig a)"
proof -
  have "uncounted (codex_turn_over w now code err a)" for code err
    unfolding codex_turn_over_def
    by (rule end_turn_uncounted) (use assms in \<open>simp_all add: uncounted_def\<close>)
  moreover have "uncounted (emit_state w now st code err upd a)" for st code err upd
    using assms(2) by (simp add: uncounted_def)
  ultimately show ?thesis
    using assms(2) by (simp add: codex_lifecycle_def split: option.split lifecycle_signal.split)
qed

lemma handle_codex_parsed_uncounted:
  assumes "turn_inv a" "uncounted a"
  shows "uncounted (handle_codex_parsed w now pl a)"
proof -
  define b where "b = save_thread_id w (pl_thread_id pl)
     (case pl_control_response pl of
        None \<Rightarrow> write_json_lines_log w ''codex protocol request'' (pl_outbound pl) a
      | Some (rid, v) \<Rightarrow> take_waiter rid v (write_json_lines_log w ''codex protocol request'' (pl_outbound pl) a))"
  have b: "turn_inv b" "uncounted b"
    using assms by (simp_all add: b_def case_prod_beta uncounted_def split: option.split)
  let ?c = "open_codex_gate w now b"
  let ?d = "track_interactive now (pl_interactive pl) (emit_codex_events w (pl_events pl) ?c)"
  have "turn_inv (b\<lparr>a_codex_ready := True\<rparr>)" "uncounted (b\<lparr>a_codex_ready := True\<rparr>)"
    using b by (simp_all add: uncounted_def)
  then have c: "uncounted ?c"
    using b try_dispatch_uncounted by (simp add: open_codex_gate_def)
  then have "uncounted ?d" by (simp add: uncounted_def)
  moreover have "turn_inv ?d" using open_codex_gate_inv [OF b(1)] by simp
  moreover have "handle_codex_parsed w now pl a =
      (if x_panicked ?c then ?c else codex_lifecycle w now (pl_lifecycle pl) ?d)"
    by (simp only: handle_codex_parsed_def Let_def b_def)
  ultimately show ?thesis using c codex_lifecycle_uncounted by simp
qed

lemma on_tick_timeout_uncounted: "uncounted a \<Longrightarrow> uncounted (on_tick_timeout w now a)"
  by (simp add: on_tick_timeout_def tick_quarantine_def kill_quarantined_def tick_idle_def
      tick_internal_turn_def tick_user_turn_def enter_quarantine_def uncounted_def Let_def
      split: option.split)

lemma handle_tick_uncounted:
  assumes "turn_inv a" "uncounted a"
  shows "uncounted (handle_tick w now a)"
proof -
  let ?b = "(on_tick_timeout w now a)\<lparr>a_ralph_needs_dispatch := False\<rparr>"
  have "turn_inv ?b" using on_tick_timeout_inv [OF assms(1)] by (simp add: inv_defs)
  moreover have "uncounted ?b"
    using on_tick_timeout_uncounted [OF assms(2)] by (simp add: uncounted_def)
  ultimately show ?thesis
    using on_tick_timeout_uncounted [OF assms(2)] try_dispatch_uncounted
    by (simp add: handle_tick_def Let_def)
qed

lemma handle_command_uncounted:
  assumes "turn_inv a" "uncounted a"
  shows "uncounted (fst (handle_command w now c a))"
proof -
  have "uncounted (handle_send_message w now s atts skills ch a)" for s atts skills ch
  proof (cases "a_terminated a")
    case True
    then show ?thesis using assms(2) by (simp add: handle_send_message_def uncounted_def)
  next
    case False
    then obtain i j t where t: "tk_seq t = a_next_turn_seq a"
      "handle_send_message w now s atts skills ch a = try_dispatch w now (accepted i j t a)"
      by (rule handle_send_message_accepts)
    have "uncounted (accepted i j t a)" using assms(2) by (simp add: uncounted_def accepted_def)
    then show ?thesis using t try_dispatch_uncounted [OF accepted_inv [OF assms(1) t(1)]] by simp
  qed
  moreover have "uncounted (start_ralph_loop w now prompt m promise ch a)" for prompt m promise ch
  proof (cases "a_ralph_loop a")
    case None
    let ?b = "a\<lparr>a_ralph_loop := Some (new_ralph prompt m promise (w_iso w now))\<rparr>"
    have "turn_inv ?b" using assms(1) None by (simp add: inv_defs ralph_defs new_ralph_def)
    moreover have "uncounted ?b" by (simp add: uncounted_def new_ralph_def)
    ultimately show ?thesis
      using None by (simp add: start_ralph_loop_def Let_def try_dispatch_uncounted uncounted_def [of "reply _ _ _"]
          uncounted_def [of "_\<lparr>a_ralph_loop := _\<rparr>"])
  next
    case (Some r)
    then show ?thesis using assms(2) by (simp add: start_ralph_loop_def uncounted_def)
  qed
  moreover have "uncounted (cancel_ralph_loop w ch a)" for ch
    using assms(2) by (auto simp: cancel_ralph_loop_def uncounted_def emit_ralph_complete_def Let_def
        split: option.split)
  ultimately show ?thesis
    using assms(2) by (cases c) (simp_all add: uncounted_def reply_with_def handle_stop_def)
qed

section \<open>The transport never changes\<close>

lemma dispatch_mode [simp]:
  "turn_inv a \<Longrightarrow> (a_codex (try_dispatch w now a) = None) = (a_codex a = None)"
  using dispatch_ralph_quiet(4) by (simp add: try_dispatch_eq split: list.split option.split)

lemma end_turn_mode [simp]:
  assumes "turn_inv a"
  shows "(a_codex (end_turn_and_dispatch w now a) = None) = (a_codex a = None)"
proof -
  have "turn_inv (set_slash None (a\<lparr>a_active_turn := None, a_active_extractor := None\<rparr>))"
    using turn_inv_no_extractor [OF turn_inv_release [OF assms]] by simp
  then show ?thesis by (simp add: end_turn_and_dispatch_def)
qed

lemma codex_lifecycle_mode [simp]:
  "turn_inv a \<Longrightarrow> (a_codex (codex_lifecycle w now sig a) = None) = (a_codex a = None)"
  by (simp add: codex_lifecycle_def codex_turn_over_def split: option.split lifecycle_signal.split)

lemma handle_codex_parsed_mode:
  assumes "turn_inv a"
  shows "(a_codex (handle_codex_parsed w now pl a) = None) = (a_codex a = None)"
proof -
  define b where "b = save_thread_id w (pl_thread_id pl)
     (case pl_control_response pl of
        None \<Rightarrow> write_json_lines_log w ''codex protocol request'' (pl_outbound pl) a
      | Some (rid, v) \<Rightarrow> take_waiter rid v (write_json_lines_log w ''codex protocol request'' (pl_outbound pl) a))"
  have b: "turn_inv b" "(a_codex b = None) = (a_codex a = None)"
    using assms by (simp_all add: b_def case_prod_beta split: option.split)
  let ?c = "open_codex_gate w now b"
  let ?d = "track_interactive now (pl_interactive pl) (emit_codex_events w (pl_events pl) ?c)"
  have "(a_codex ?c = None) = (a_codex b = None)" using b(1) by (simp add: open_codex_gate_def)
  moreover have "turn_inv ?d" using open_codex_gate_inv [OF b(1)] by simp
  moreover have "handle_codex_parsed w now pl a =
      (if x_panicked ?c then ?c else codex_lifecycle w now (pl_lifecycle pl) ?d)"
    by (simp only: handle_codex_parsed_def Let_def b_def)
  ultimately show ?thesis using b(2) by simp
qed

lemma on_tick_timeout_mode [simp]:
  "(a_codex (on_tick_timeout w now a) = None) = (a_codex a = None)"
  by (simp add: on_tick_timeout_def tick_quarantine_def kill_quarantined_def tick_idle_def
      tick_internal_turn_def tick_user_turn_def enter_quarantine_def Let_def split: option.split)

lemma handle_tick_mode:
  assumes "turn_inv a"
  shows "(a_codex (handle_tick w now a) = None) = (a_codex a = None)"
proof -
  have "turn_inv ((on_tick_timeout w now a)\<lparr>a_ralph_needs_dispatch := False\<rparr>)"
    using on_tick_timeout_inv [OF assms] by (simp add: inv_defs)
  then show ?thesis by (simp add: handle_tick_def Let_def)
qed

lemma handle_command_mode:
  assumes "turn_inv a"
  shows "(a_codex (fst (handle_command w now c a)) = None) = (a_codex a = None)"
proof -
  have "(a_codex (handle_send_message w now s atts skills ch a) = None) = (a_codex a = None)" for s atts skills ch
  proof (cases "a_terminated a")
    case False
    then obtain i j t where t: "tk_seq t = a_next_turn_seq a"
      "handle_send_message w now s atts skills ch a = try_dispatch w now (accepted i j t a)"
      by (rule handle_send_message_accepts)
    then show ?thesis using accepted_inv [OF assms t(1)] by simp
  qed (simp add: handle_send_message_def)
  moreover have "(a_codex (start_ralph_loop w now prompt m promise ch a) = None) = (a_codex a = None)"
    for prompt m promise ch
  proof (cases "a_ralph_loop a")
    case None
    then have "turn_inv (a\<lparr>a_ralph_loop := Some (new_ralph prompt m promise (w_iso w now))\<rparr>)"
      using assms by (simp add: inv_defs ralph_defs new_ralph_def)
    then show ?thesis using None by (simp add: start_ralph_loop_def Let_def)
  qed (simp add: start_ralph_loop_def)
  moreover have "(a_codex (cancel_ralph_loop w ch a) = None) = (a_codex a = None)" for ch
    by (simp add: cancel_ralph_loop_def split: option.split)
  ultimately show ?thesis
    by (cases c) (simp_all add: reply_with_def handle_stop_def)
qed

section \<open>The invariant of a Codex actor\<close>

definition codex_inv :: "actor \<Rightarrow> bool" where
  "codex_inv a = (turn_inv a \<and> a_codex a \<noteq> None \<and> uncounted a)"

lemma handle_codex_line_inv:
  assumes "codex_inv a"
  shows "codex_inv (handle_codex_line w now s c a)"
proof -
  let ?a = "(reset_activity now a)\<lparr>a_codex := Some (snd (codex_line w now (a_run_id a) s c))\<rparr>"
  have "turn_inv ?a" using assms reset_activity_inv by (simp add: codex_inv_def)
  moreover have "uncounted ?a"
    using assms by (simp add: codex_inv_def uncounted_def reset_activity_def)
  ultimately show ?thesis
    using handle_codex_parsed_inv [of ?a] handle_codex_parsed_uncounted [of ?a]
      handle_codex_parsed_mode [of ?a]
    by (simp add: codex_inv_def handle_codex_line_def case_prod_beta)
qed

lemma handle_input_codex:
  assumes "codex_inv a"
  shows "codex_inv (fst (handle_input w now inp a))"
proof -
  have i: "turn_inv (fst (handle_input w now inp a))"
    using assms handle_input_inv by (simp add: codex_inv_def)
  show ?thesis
  proof (cases inp)
    case (StdoutLine s)
    then show ?thesis
      using assms handle_codex_line_inv
      by (auto simp: handle_stdout_line_def Let_def codex_inv_def)
  next
    case (StdoutEof code)
    then show ?thesis
      using assms i by (simp add: codex_inv_def uncounted_def handle_eof_def Let_def)
  next
    case (Command c)
    then show ?thesis
      using assms i handle_command_mode handle_command_uncounted by (simp add: codex_inv_def)
  next
    case Tick
    then show ?thesis
      using assms i handle_tick_mode handle_tick_uncounted by (simp add: codex_inv_def)
  qed (use assms i in \<open>auto simp: codex_inv_def uncounted_def handle_stop_def\<close>)
qed

lemma cleanup_codex: "codex_inv a \<Longrightarrow> codex_inv (cleanup a)"
  using cleanup_inv [of a] by (simp add: codex_inv_def) (simp add: cleanup_def uncounted_def)

interpretation codex_ralph: invariant_system
  "\<lambda>s. actor_init w s \<and> a_codex (loop_actor s) \<noteq> None" "actor_step w" "\<lambda>s. codex_inv (loop_actor s)"
  for w
proof
  fix s assume "actor_init w s \<and> a_codex (loop_actor s) \<noteq> None"
  then show "codex_inv (loop_actor s)"
    by (auto simp: codex_inv_def spawn_inv uncounted_def) (simp add: spawn_actor_def)
next
  fix s t assume s: "codex_inv (loop_actor s)" and "actor_step w s t"
  then obtain now inp where t: "t = loop_next w now inp s" using actor_step_next by blast
  show "codex_inv (loop_actor t)"
    using s t handle_input_codex [of "loop_actor s" w now inp] cleanup_codex
    by (cases s) (simp_all add: case_prod_beta)
qed

end
