(* ===== verification/Actor_Props.thy ===== *)
theory Actor_Props
  imports Actor_Codex Text_Props
begin

text \<open>
  The properties of the session actor over every path of its main loop: which messages are served
  and in which order, which replies are sent, which run states are reported, and the bounds of
  the Ralph loop. Each follows from an invariant of the step relation.
\<close>

section \<open>Schedules are paths\<close>

lemma loop_next_path: "(actor_step w)\<^sup>*\<^sup>* s (loop_next w now inp s)"
proof (cases s)
  case (Looping a)
  show ?thesis
  proof (cases "x_panicked a")
    case False
    obtain b brk where h: "handle_input w now inp a = (b, brk)" by fastforce
    have "actor_step w s (loop_next w now inp s)"
    proof (cases "a_terminated a")
      case True
      then show ?thesis using Looping False by (simp add: actor_step.ended)
    next
      case False
      then show ?thesis
        using h Looping \<open>\<not> x_panicked a\<close> actor_step.handled [of a w now inp b]
          actor_step.broke [of a w now inp b]
        by (cases brk) simp_all
    qed
    then show ?thesis by blast
  qed (simp add: Looping)
qed simp

lemma run_schedule_path: "(actor_step w)\<^sup>*\<^sup>* s (run_schedule w sched s)"
proof (induction sched arbitrary: s)
  case Nil
  then show ?case by (simp add: run_schedule_def)
next
  case (Cons x sched)
  obtain now inp where x: "x = (now, inp)" by fastforce
  show ?case
    using Cons.IH [of "loop_next w now inp s"] loop_next_path [of w s now inp]
    by (simp add: x)
qed

section \<open>The session\<close>

definition demo_line :: "string \<Rightarrow> json option" where
  "demo_line s =
     (if s = ''R'' then
        Some (JObj [(''type'', JStr ''result''), (''subtype'', JStr ''success''),
                    (''result'', JStr ''done'')])
      else if s = ''E'' then
        Some (JObj [(''type'', JStr ''result''), (''subtype'', JStr ''error_during_execution''),
                    (''is_error'', JBool True)])
      else if s = ''P'' then
        Some (JObj [(''type'', JStr ''control_request''), (''request_id'', JStr ''q1''),
                    (''request'', JObj [(''subtype'', JStr ''can_use_tool''),
                       (''tool_name'', JStr ''Bash''), (''input'', JObj [])])])
      else if s = ''I'' then
        Some (JObj [(''id'', jnat 2), (''result'', JObj [(''thread'', JObj [(''id'', JStr ''t1'')])])])
      else if s = ''T'' then Some (JObj [(''method'', JStr ''turn/completed''), (''params'', JObj [])])
      else None)"

definition demo_world :: world where
  "demo_world = demo_disk\<lparr>w_parse := demo_line\<rparr>"

definition demo_start :: "codex_app_server option \<Rightarrow> loop_state" where
  "demo_start codex =
     Looping (handshake demo_world (spawn_actor ''r1'' False 1 1 codex [] (Some 1800000) (\<lambda>r. None)))"

lemma demo_start_init: "actor_init demo_world (demo_start codex)"
  unfolding demo_start_def by (rule actor_init.spawned)

definition say :: "string \<Rightarrow> nat \<Rightarrow> actor_input" where
  "say s ch = Command (SendMessage s [] [] ch)"

definition demo_run :: "(nat \<times> actor_input) list \<Rightarrow> loop_state" where
  "demo_run sched = run_schedule demo_world sched (demo_start None)"

lemma demo_run_path: "(actor_step demo_world)\<^sup>*\<^sup>* (demo_start None) (demo_run sched)"
  unfolding demo_run_def by (rule run_schedule_path)

lemma demo_healthy: "healthy demo_world"
  by (simp add: healthy_def demo_world_def demo_disk_def)

text \<open>The two lines of the demo's Codex child: it resumes the thread, and it ends a turn.\<close>

lemma codex_line_open:
  assumes "w_parse w = demo_line" "cx_thread_id c = Some t"
    and "cx_internal_waiters c = Map.empty" "cx_client_waiters c = Map.empty"
  shows "codex_line w now rid ''I'' c = (parsed_line_default, c\<lparr>cx_phase := Ready\<rparr>)"
proof -
  have "trim ''I'' = ''I''" by (simp add: trim_def trim_end_def ws1_def byte_def)
  then show ?thesis
    using assms
    by (simp add: codex_line_def parse_line_def demo_line_def handle_message_def handle_reply_def
        open_thread_def jnat_def)
qed

definition demo_resumed :: codex_app_server where
  "demo_resumed = codex_new\<lparr>cx_thread_id := Some ''t1''\<rparr>"

lemma codex_line_end:
  assumes "w_parse w = demo_line"
  shows "codex_line w now rid ''T'' c =
    (parsed_line_default\<lparr>pl_lifecycle := Some TurnCompleted\<rparr>, c\<lparr>cx_active_turn_id := None\<rparr>)"
proof -
  have t: "trim ''T'' = ''T''" by (simp add: trim_def trim_end_def ws1_def byte_def)
  then show ?thesis
    using assms
    by (simp add: codex_line_def parse_line_def demo_line_def handle_message_def replay_fuel_def
        is_foreign_def claimed_notification_def on_turn_completed_def set_lifecycle_def set_turn_def Let_def)
qed

section \<open>Evaluating a run\<close>

text \<open>The rules that evaluate a schedule of the demo session by simplification.\<close>

lemmas eval_start = demo_run_def demo_start_def run_schedule_def handshake_def spawn_actor_def
  protocol_new_def demo_world_def demo_disk_def say_def

lemmas eval_text = starts_with_def trim_def trim_end_def ws1_def ws2_def ws3_def byte_def

lemmas eval_dispatch = handle_send_message_def try_dispatch_def dispatch_gate_def barrier_job_def
  dispatch_ralph_def pause_ralph_def update_ralph_def start_user_turn_def start_ralph_turn_def
  new_turn_def user_hard_def announce_turn_def

lemmas eval_write = write_user_to_stdin_def write_user_claude_def build_user_payload_def
  user_content_def write_json_line_def persist_and_emit_def persist_and_emit_durable_def
  set_slash_def set_pending_slash_command_def clear_result_tracking_def reply_def

lemmas eval_state = emit_state_def emit_state_meta_def persist_idle_running_def get_run_def
  get_run_raw_def

lemmas eval_result = map_with_protocol_def map_event_def unwrap_envelope_def map_event_inner_def
  on_result_def on_result_usage_def str_field_def nonempty_str_def result_error_message_def
  demo_line_def

lemmas eval_turn_end = is_internal_turn_def on_run_state_def suppress_interrupt_def
  persist_idle_outcome_def idle_error_persist_def finish_turn_def on_user_turn_finished_def
  ralph_on_turn_end_def ralph_turn_action_def ralph_execute_def natural_reason_def
  promise_matched_def meta_persist_result_error_def
  meta_clear_result_error_def on_store_def with_meta_def clear_result_error_if_present_def
  persist_result_error_def

lemmas eval_line = handle_stdout_line_def handle_claude_value_def is_control_type_def
  reset_activity_def apply_activity_reset_def eval_result eval_turn_end

lemmas eval_run = eval_start eval_text eval_dispatch eval_write eval_state Let_def

section \<open>Messages and replies\<close>

text \<open>C2: no accepted message is forgotten: as long as the child takes every write, a queued message
  waits only while a turn is running, the session is in quarantine or terminated, or the Codex
  handshake is not finished.\<close>

theorem messages_served:
  assumes "healthy w" "actor_init w s" "(actor_step w)\<^sup>*\<^sup>* s (Looping a)"
    and "\<not> x_panicked a" "dispatch_gate a"
  shows "a_queued_user a = []"
proof -
  have "serving a" using service.inv_from_start [of w s "Looping a"] assms(1-3) by simp
  then show ?thesis using assms(4,5) by (simp add: serving_def caught_up_def)
qed

definition demo_answered :: "(nat \<times> actor_input) list" where
  "demo_answered = [(1, say ''hi'' 1), (2, StdoutLine ''R'')]"

lemma demo_answered_state:
  "\<exists>a. demo_run demo_answered = Looping a \<and> \<not> x_panicked a \<and> dispatch_gate a \<and> a_state a = ''idle''"
  by (simp add: demo_answered_def eval_run eval_line)

theorem messages_served_witness:
  "\<exists>a. demo_run demo_answered = Looping a \<and> a_state a = ''idle'' \<and> a_queued_user a = []"
proof -
  obtain a where a: "demo_run demo_answered = Looping a" "\<not> x_panicked a" "dispatch_gate a"
    "a_state a = ''idle''" using demo_answered_state by blast
  then show ?thesis
    using messages_served [OF demo_healthy demo_start_init, of None a]
      demo_run_path [of demo_answered] by simp
qed






section \<open>Run states\<close>

text \<open>Dedup of the emitted run states, together with the engine invariant, on every path.\<close>

interpretation emissions: invariant_system "actor_init w"
    "actor_step w"
    "\<lambda>s. turn_inv (loop_actor s) \<and> emission_ok (loop_actor s)" for w
proof
  fix s assume s: "actor_init w s"
  then have "emission_ok (loop_actor s)"
    by (auto simp: emission_ok_def) (simp_all add: spawn_actor_def run_states_def)
  then show "turn_inv (loop_actor s) \<and> emission_ok (loop_actor s)"
    using s turns.inv_start [of w s] by simp
next
  fix s t
  assume s: "turn_inv (loop_actor s) \<and> emission_ok (loop_actor s)"
    and "actor_step w s t"
  then obtain now inp where "t = loop_next w now inp s" using actor_step_next by blast
  then show "turn_inv (loop_actor t) \<and> emission_ok (loop_actor t)"
    using s loop_next_inv loop_next_emission by blast
qed

text \<open>C37: the run states the actor emits never repeat: two consecutive RunState events always differ,
  the first is not empty, and the actor's own state is the last one emitted, on both
  transports.\<close>

theorem run_states_alternate:
  assumes "actor_init w s" "(actor_step w)\<^sup>*\<^sup>* s t"
  shows "distinct_adj ([] # run_states (loop_actor t))
    \<and> a_state (loop_actor t) = last ([] # run_states (loop_actor t))"
  using emissions.inv_from_start [of w s t] assms by (simp add: emission_ok_def)

theorem run_states_alternate_witness:
  "distinct_adj ([] # run_states (loop_actor (demo_run demo_answered)))"
  using run_states_alternate [OF demo_start_init demo_run_path [of demo_answered]]
  by blast

section \<open>The order of turns\<close>

lemma ralph_on_turn_end_gate [simp]:
  "a_quarantine (ralph_on_turn_end w now origin failed a) = a_quarantine a"
  "a_terminated (ralph_on_turn_end w now origin failed a) = a_terminated a"
  "a_codex_ready (ralph_on_turn_end w now origin failed a) = a_codex_ready a"
  by (simp_all add: ralph_on_turn_end_def ralph_execute_def emit_ralph_complete_def Let_def
      case_prod_beta split: option.split ralph_action.split)

lemma dispatch_oldest:
  assumes inv: "turn_inv a" and "dispatch_gate a" "a_queued_user a = t # ts"
  shows "a_queued_user (try_dispatch w now a) = ts"
    and "a_active_turn (try_dispatch w now a) = Some turn \<Longrightarrow>
      at_seq turn = tk_seq t \<and> at_index turn = tk_index t \<and> at_origin turn = User (tk_kind t)"
    and "\<forall>u\<in>set ts. tk_seq t < tk_seq u"
proof -
  let ?b = "pause_ralph (a\<lparr>a_queued_user := ts\<rparr>)"
  have d: "try_dispatch w now a = start_user_turn w now t ?b"
    using assms(2,3) by (simp add: try_dispatch_eq [OF inv])
  then show "a_queued_user (try_dispatch w now a) = ts" by simp
  have "a_active_turn ?b = None" using assms(2) by (simp add: dispatch_gate_def)
  then show "a_active_turn (try_dispatch w now a) = Some turn \<Longrightarrow>
      at_seq turn = tk_seq t \<and> at_index turn = tk_index t \<and> at_origin turn = User (tk_kind t)"
    unfolding d
    by (auto simp: start_user_turn_def Let_def case_prod_beta new_turn_def split: sum.splits if_splits)
  show "\<forall>u\<in>set ts. tk_seq t < tk_seq u"
    using assms by (auto simp: inv_defs dispatch_gate_def)
qed

text \<open>C3: turns run in the order their messages were accepted: when a turn ends, the dispatcher takes
  exactly the oldest ticket, and the turn it starts carries that ticket's sequence number and
  index, above those of the turn that ended and below those of every ticket that still waits.\<close>

theorem turns_in_order:
  assumes "actor_init w s" "(actor_step w)\<^sup>*\<^sup>* s (Looping a)"
    and "a_active_turn a = Some t0" "a_queued_user a = t # ts"
    and "\<not> a_terminated a" "a_codex a = None \<or> a_codex_ready a"
  shows "a_queued_user (finish_turn w now failed t0 a) = ts
    \<and> (\<forall>turn. a_active_turn (finish_turn w now failed t0 a) = Some turn \<longrightarrow>
          at_seq turn = tk_seq t \<and> at_index turn = tk_index t \<and> at_origin turn = User (tk_kind t)
          \<and> at_seq t0 < at_seq turn \<and> (\<forall>u\<in>set ts. at_seq turn < tk_seq u))"
proof -
  have inv: "turn_inv a" using turns.inv_from_start [OF assms(1,2)] by simp
  define b where "b = ralph_on_turn_end w now (at_origin t0) failed
    (set_slash None ((on_user_turn_finished t0 (a\<lparr>a_active_turn := None\<rparr>))\<lparr>a_active_extractor := None\<rparr>))"
  have b: "turn_inv b" using finish_turn_inner_inv [OF inv] by (simp add: b_def)
  have "dispatch_gate b" "a_queued_user b = t # ts"
    using inv assms(3-6) by (simp_all add: b_def dispatch_gate_def turn_inv_def)
  note next_turn = dispatch_oldest [OF b this]
  have "at_seq t0 < tk_seq t" using inv assms(3,4) by (simp add: turn_inv_def)
  moreover have "finish_turn w now failed t0 a = try_dispatch w now b"
    by (simp add: finish_turn_def b_def Let_def)
  ultimately show ?thesis using next_turn by simp
qed

definition demo_queued :: "(nat \<times> actor_input) list" where
  "demo_queued = [(1, say ''hi'' 1), (2, say ''ho'' 2), (3, say ''/cost'' 3)]"

lemma demo_queued_state:
  "\<exists>a t0 t u. demo_run demo_queued = Looping a \<and> a_active_turn a = Some t0
     \<and> a_queued_user a = [t, u] \<and> \<not> a_terminated a \<and> a_codex a = None"
  by (simp add: demo_queued_def eval_run)

theorem turns_in_order_witness:
  "\<exists>a t0 t u. demo_run demo_queued = Looping a \<and> a_queued_user a = [t, u]
     \<and> a_queued_user (finish_turn demo_world 4 False t0 a) = [u]"
proof -
  obtain a t0 t u where a: "demo_run demo_queued = Looping a" "a_active_turn a = Some t0"
    "a_queued_user a = [t, u]" "\<not> a_terminated a" "a_codex a = None"
    using demo_queued_state by blast
  have "(actor_step demo_world)\<^sup>*\<^sup>* (demo_start None) (Looping a)"
    using demo_run_path [of demo_queued] a(1) by simp
  from turns_in_order [OF demo_start_init this a(2-4)] show ?thesis using a by blast
qed

section \<open>The Ralph loop\<close>


definition demo_ralph :: "(nat \<times> actor_input) list" where
  "demo_ralph = [(1, Command (StartRalphLoop ''fix it'' 2 (Some ''DONE'') 1))]"

lemma demo_ralph_state:
  "\<exists>r. a_ralph_loop (loop_actor (demo_run demo_ralph)) = Some r \<and> rl_max_iterations r = 2
     \<and> rl_completion_promise r = Some ''DONE'' \<and> is_ralph_turn (loop_actor (demo_run demo_ralph))"
  by (simp add: demo_ralph_def eval_run start_ralph_loop_def new_ralph_def is_ralph_turn_def)


text \<open>A completion promise is never recognised: on no path does the end of a turn complete the
  loop for the reason \<open>CompletionPromise\<close>, whatever the child printed, because the texts the
  promise is compared with are collected only in the branch of the internal turns.\<close>

theorem promise_never_matches:
  assumes "actor_init w s" "(actor_step w)\<^sup>*\<^sup>* s t"
    and "a_ralph_loop (loop_actor t) = Some r"
  shows "snd (ralph_turn_action r origin failed) \<noteq> RComplete CompletionPromise"
proof -
  have "turn_inv (loop_actor t)" by (rule turns.inv_from_start [OF assms(1,2)])
  then have "rl_turn_toplevel_texts r = []"
    using assms(3) by (simp add: turn_inv_def ralph_defs)
  then have "\<not> promise_matched (r\<lparr>rl_consecutive_failures := 0, rl_iteration := n\<rparr>) p" for n p
    by (simp add: promise_matched_def)
  then show ?thesis
    by (auto simp: ralph_turn_action_def natural_reason_def Let_def
        split: turn_origin.splits ralph_phase.splits option.splits if_splits)
qed

theorem promise_never_matches_witness:
  "\<exists>r. a_ralph_loop (loop_actor (demo_run demo_ralph)) = Some r
     \<and> rl_completion_promise r = Some ''DONE''
     \<and> snd (ralph_turn_action r Ralph False) \<noteq> RComplete CompletionPromise"
  using demo_ralph_state promise_never_matches [OF demo_start_init demo_run_path [of demo_ralph]]
  by blast

text \<open>On the Codex transport a Ralph loop never counts an iteration, so its iteration limit never
  ends it: the end of a Codex turn does not reach the loop's bookkeeping.\<close>

theorem codex_ralph_never_counts:
  assumes "actor_init w s" "a_codex (loop_actor s) \<noteq> None" "(actor_step w)\<^sup>*\<^sup>* s t"
    and "a_ralph_loop (loop_actor t) = Some r"
  shows "rl_iteration r = 0"
  using codex_ralph.inv_from_start [of w s t] assms
  by (simp add: codex_inv_def uncounted_def)

text \<open>A resumed Codex session whose first line completes the handshake and whose next ends a turn.\<close>

definition demo_codex_run :: loop_state where
  "demo_codex_run = run_schedule demo_world
     [(1, Command (StartRalphLoop ''fix it'' 1 None 1)), (2, StdoutLine ''I''), (3, StdoutLine ''T'')]
     (demo_start (Some demo_resumed))"

lemma demo_codex_state:
  "\<exists>r. a_ralph_loop (loop_actor demo_codex_run) = Some r \<and> rl_max_iterations r = 1
     \<and> map_option at_seq (a_active_turn (loop_actor demo_codex_run)) = Some 1"
  by (simp add: demo_codex_run_def codex_line_open codex_line_end demo_resumed_def codex_new_def parsed_line_default_def
      start_ralph_loop_def new_ralph_def handle_codex_line_def handle_codex_parsed_def
      write_json_lines_log_def save_thread_id_def open_codex_gate_def codex_driver_ready_def
      is_ready_def emit_codex_events_def track_interactive_def codex_lifecycle_def
      codex_turn_over_def end_turn_and_dispatch_def write_user_codex_def codex_augmented_def
      frame_user_turn_def next_id_def no_overrides_def meta_update_status_def
      update_status_def eval_run eval_line map_state_to_run_status_def)

theorem codex_ralph_never_counts_witness:
  "\<exists>r. a_ralph_loop (loop_actor demo_codex_run) = Some r \<and> rl_max_iterations r = 1
     \<and> rl_iteration r = 0"
proof -
  obtain r where r: "a_ralph_loop (loop_actor demo_codex_run) = Some r" "rl_max_iterations r = 1"
    using demo_codex_state by blast
  moreover have "a_codex (loop_actor (demo_start (Some demo_resumed))) \<noteq> None"
    by (simp add: demo_start_def handshake_def spawn_actor_def)
  moreover have "(actor_step demo_world)\<^sup>*\<^sup>* (demo_start (Some demo_resumed)) demo_codex_run"
    unfolding demo_codex_run_def by (rule run_schedule_path)
  ultimately show ?thesis using codex_ralph_never_counts [OF demo_start_init] by blast
qed

end
