(* ===== verification/Session_Props.thy ===== *)
theory Session_Props
  imports Actor_Props
begin

text \<open>
  The properties of single handlers of the session actor: timeouts and quarantine, interrupts, the
  end of the child, permission requests and the delivery of the user's answers.
\<close>

section \<open>Timeouts and quarantine\<close>

lemma tick_codex_frame [simp]:
  "turn_frame (tick_codex w now a) a"
  "x_panicked (tick_codex w now a) = x_panicked a"
  by (simp_all add: tick_codex_def case_prod_beta split: option.split)





lemma emit_state_killed [simp]:
  "x_killed (emit_state w now st code err upd a) = x_killed a"
  by (simp add: emit_state_def emit_state_meta_def persist_and_emit_def persist_and_emit_durable_def
      meta_update_status_def meta_persist_result_error_def on_store_def Let_def case_prod_beta
      split: option.split sum.split)



definition demo_hung :: actor where
  "demo_hung = loop_actor (demo_run [(1, say ''hi'' 1), (2, say ''ho'' 2)])"

lemma demo_hung_state:
  "\<exists>t. a_active_turn demo_hung = Some t \<and> \<not> is_internal_origin (at_origin t)
     \<and> \<not> a_quarantine demo_hung \<and> a_user_hard_timeout demo_hung \<noteq> None \<and> at_hard t = 1800001
     \<and> a_pending demo_hung = [] \<and> a_child demo_hung \<and> \<not> x_panicked demo_hung
     \<and> map tk_reply (a_queued_user demo_hung) = [2]"
  by (simp add: demo_hung_def eval_run)


text \<open>Output of the child pushes the deadline back.\<close>

text \<open>A child that keeps printing is not timed out: a tick that comes less than the configured
  timeout after a line of output leaves the user turn running, outside quarantine.\<close>

theorem output_defers_timeout:
  assumes "a_active_turn a = Some t" "\<not> is_internal_origin (at_origin t)" "\<not> a_quarantine a"
    and "a_user_hard_timeout a = Some d" "n2 < n1 + d"
  shows "\<not> a_quarantine (on_tick_timeout w n2 (reset_activity n1 a))
    \<and> a_active_turn (on_tick_timeout w n2 (reset_activity n1 a)) = Some (t\<lparr>at_hard := n1 + d\<rparr>)"
  using assms
  by (simp add: on_tick_timeout_def Let_def reset_activity_def apply_activity_reset_def
      tick_user_turn_def)

theorem output_defers_timeout_witness:
  "\<not> a_quarantine (on_tick_timeout demo_world 3000000 (reset_activity 1700000 demo_hung))"
proof -
  obtain t where "a_active_turn demo_hung = Some t" "\<not> is_internal_origin (at_origin t)"
    "\<not> a_quarantine demo_hung" using demo_hung_state by blast
  moreover have "a_user_hard_timeout demo_hung = Some 1800000" by (simp add: demo_hung_def eval_run)
  ultimately show ?thesis
    using output_defers_timeout [of demo_hung t 1800000 3000000 1700000 demo_world] by simp
qed

end
