(* ===== verification/Permission_Props.thy ===== *)
theory Permission_Props
  imports Actor_Props
begin

text \<open>
  Permissions: which tools the actor answers for without asking, what an internal state of the
  session may never grant, and the durable protocol behind an answer of the user.
\<close>

section \<open>The remembered tools\<close>

text \<open>Every operation but the answer to a permission request leaves the remembered tools alone.\<close>

named_theorems keeps_tools

lemma reply_tools [keeps_tools]: "a_remembered_tools (reply ch v a) = a_remembered_tools a"
  by (simp add: reply_def)

lemma update_ralph_tools [keeps_tools]: "a_remembered_tools (update_ralph f a) = a_remembered_tools a"
  by (simp add: update_ralph_def)

lemma emit_ralph_complete_tools [keeps_tools]:
  "a_remembered_tools (emit_ralph_complete w reason a) = a_remembered_tools a"
  by (simp add: emit_ralph_complete_def Let_def)

lemma start_ralph_turn_tools [keeps_tools]:
  "a_remembered_tools (start_ralph_turn w now s a) = a_remembered_tools a"
  by (simp add: start_ralph_turn_def ralph_write_failed_def Let_def case_prod_beta keeps_tools
      split: sum.split option.split)

lemma start_user_turn_tools [keeps_tools]:
  "a_remembered_tools (start_user_turn w now t a) = a_remembered_tools a"
  by (simp add: start_user_turn_def Let_def case_prod_beta keeps_tools split: sum.split)

lemma start_internal_turn_tools [keeps_tools]:
  "a_remembered_tools (start_internal_turn w now job a) = a_remembered_tools a"
  by (simp add: start_internal_turn_def Let_def case_prod_beta split: sum.split)

lemma dispatch_ralph_tools:
  "dispatch_ralph w now a = Some b \<Longrightarrow> a_remembered_tools b = a_remembered_tools a"
  by (auto simp: dispatch_ralph_def keeps_tools split: option.splits ralph_phase.splits if_splits)

lemma try_dispatch_tools [keeps_tools]:
  "a_remembered_tools (try_dispatch w now a) = a_remembered_tools a"
  by (simp add: try_dispatch_def keeps_tools pause_ralph_def dispatch_ralph_tools
      split: option.split list.split prod.split)

lemma handle_send_message_tools [keeps_tools]:
  "a_remembered_tools (handle_send_message w now s atts skills ch a) = a_remembered_tools a"
  by (simp add: handle_send_message_def Let_def keeps_tools)

lemma end_turn_tools [keeps_tools]:
  "a_remembered_tools (end_turn_and_dispatch w now a) = a_remembered_tools a"
  by (simp add: end_turn_and_dispatch_def keeps_tools)

lemma ralph_on_turn_end_tools [keeps_tools]:
  "a_remembered_tools (ralph_on_turn_end w now origin failed a) = a_remembered_tools a"
  by (simp add: ralph_on_turn_end_def ralph_execute_def case_prod_beta keeps_tools
      split: option.split ralph_action.split)

lemma finish_turn_tools [keeps_tools]:
  "a_remembered_tools (finish_turn w now failed t a) = a_remembered_tools a"
  by (simp add: finish_turn_def Let_def keeps_tools)

lemma on_run_state_tools [keeps_tools]:
  "a_remembered_tools (on_run_state w now st code err a) = a_remembered_tools a"
  by (simp add: on_run_state_def suppress_interrupt_def Let_def case_prod_beta keeps_tools
      split: option.split)

lemma lift_quarantine_tools [keeps_tools]:
  "a_remembered_tools (lift_quarantine w now st code err a) = a_remembered_tools a"
  by (simp add: lift_quarantine_def lift_emit_def leave_quarantine_def quarantine_lift_recovery_def
      Let_def keeps_tools)

lemma quarantine_events_tools [keeps_tools]:
  "a_remembered_tools (quarantine_events w now evs a) = a_remembered_tools a"
  by (induction evs arbitrary: a) (simp_all add: keeps_tools split: option.split)

lemma feed_extractor_tools [keeps_tools]:
  "a_remembered_tools (feed_extractor ev a) = a_remembered_tools a"
  by (simp add: feed_extractor_def case_prod_beta split: option.split)

lemma turn_event_tools [keeps_tools]:
  "a_remembered_tools (internal_turn_event w now ev a) = a_remembered_tools a"
  "a_remembered_tools (user_turn_event w now ev a) = a_remembered_tools a"
  by (cases ev; simp add: keeps_tools push_ralph_text_def split: option.split)+

lemma turn_events_tools [keeps_tools]:
  "a_remembered_tools (turn_events w now evs a) = a_remembered_tools a"
  by (induction evs arbitrary: a) (simp_all add: keeps_tools)

lemma waiter_tools [keeps_tools]:
  "a_remembered_tools (insert_waiter rid ch a) = a_remembered_tools a"
  "a_remembered_tools (send_waiter ch v a) = a_remembered_tools a"
  "a_remembered_tools (take_waiter rid v a) = a_remembered_tools a"
  "a_remembered_tools (drop_waiter rid a) = a_remembered_tools a"
  by (simp_all add: insert_waiter_def send_waiter_def take_waiter_def drop_waiter_def
      split: option.split)

lemma pending_tools [keeps_tools]:
  "a_remembered_tools (insert_pending now rid k st d a) = a_remembered_tools a"
  "a_remembered_tools (notify a) = a_remembered_tools a"
  "a_remembered_tools (emit_realtime ev a) = a_remembered_tools a"
  "a_remembered_tools (clear_pending_interactive_request rid a) = a_remembered_tools a"
  by (simp_all add: insert_pending_def notify_def emit_realtime_def
      clear_pending_interactive_request_def)

lemma handle_control_event_tools [keeps_tools]:
  "a_remembered_tools (handle_control_event w now v ty a) = a_remembered_tools a"
  by (simp add: handle_control_event_def on_control_response_def on_control_cancel_def
      on_hook_callback_def on_elicitation_def on_can_use_tool_def on_unknown_control_def Let_def
      keeps_tools split: option.split)

lemma handle_control_internal_tools [keeps_tools]:
  "a_remembered_tools (handle_control_event_internal w v ty a) = a_remembered_tools a"
  by (simp add: handle_control_event_internal_def on_control_response_def Let_def keeps_tools
      split: option.split sum.split)

lemma handle_claude_value_tools [keeps_tools]:
  "a_remembered_tools (handle_claude_value w now v a) = a_remembered_tools a"
  by (simp add: handle_claude_value_def reset_activity_def Let_def case_prod_beta keeps_tools)

lemma handle_codex_parsed_tools [keeps_tools]:
  "a_remembered_tools (handle_codex_parsed w now pl a) = a_remembered_tools a"
proof -
  have events: "a_remembered_tools (emit_codex_events w evs b) = a_remembered_tools b" for evs b
    unfolding emit_codex_events_def by (induction evs arbitrary: b) simp_all
  have track: "a_remembered_tools (track_interactive now pis b) = a_remembered_tools b" for pis b
    unfolding track_interactive_def by (induction pis arbitrary: b) (auto simp: keeps_tools)
  show ?thesis
    by (simp add: handle_codex_parsed_def open_codex_gate_def codex_lifecycle_def
        codex_turn_over_def Let_def case_prod_beta events track keeps_tools
        split: option.split lifecycle_signal.split)
qed

lemma handle_stdout_line_tools [keeps_tools]:
  "a_remembered_tools (handle_stdout_line w now s a) = a_remembered_tools a"
  by (simp add: handle_stdout_line_def handle_codex_line_def handle_unparsed_def reset_activity_def
      Let_def case_prod_beta keeps_tools split: option.split)

lemma handle_tick_tools [keeps_tools]:
  "a_remembered_tools (handle_tick w now a) = a_remembered_tools a"
proof -
  have "a_remembered_tools (tick_codex w now b) = a_remembered_tools b" for b
    by (simp add: tick_codex_def case_prod_beta split: option.split)
  then have "a_remembered_tools (on_tick_timeout w now a) = a_remembered_tools a"
    by (simp add: on_tick_timeout_def tick_quarantine_def kill_quarantined_def tick_idle_def
        tick_internal_turn_def tick_user_turn_def enter_quarantine_def Let_def split: option.split)
  then show ?thesis by (simp add: handle_tick_def Let_def keeps_tools)
qed

lemma control_tools [keeps_tools]:
  "a_remembered_tools (snd (handle_send_control_async w request ch a)) = a_remembered_tools a"
  "a_remembered_tools (snd (handle_cancel_control_request w rid a)) = a_remembered_tools a"
  "a_remembered_tools (snd (deliver_interaction_response w k rid ik res v a)) = a_remembered_tools a"
  by (simp_all add: handle_send_control_async_def handle_codex_control_def run_codex_query_def
      run_codex_action_def handle_cancel_control_request_def cancel_written_def
      deliver_interaction_response_def write_interactive_response_def interaction_defs
      Let_def case_prod_beta keeps_tools split: option.split sum.split)

lemma ralph_command_tools [keeps_tools]:
  "a_remembered_tools (start_ralph_loop w now s m p ch a) = a_remembered_tools a"
  "a_remembered_tools (cancel_ralph_loop w ch a) = a_remembered_tools a"
  by (simp_all add: start_ralph_loop_def cancel_ralph_loop_def Let_def keeps_tools split: option.split)

text \<open>C5: the actor remembers a tool only on the user's word: after any input, a tool it did not
  remember before was the subject of a pending \<open>can\_use\_tool\<close> request that this very input
  answers with \<open>allow\<close> and the request to remember it.\<close>

theorem remembered_only_by_allow:
  assumes "tool \<in> set (a_remembered_tools (fst (handle_input w now inp a)))"
    and "tool \<notin> set (a_remembered_tools a)"
  shows "\<exists>rid response ch req. inp = Command (RespondPermission rid response True ch)
    \<and> get_str response ''behavior'' = Some ''allow'' \<and> map_of (a_pending a) rid = Some req
    \<and> pi_subtype req = ''can_use_tool'' \<and> pi_detail req = tool"
proof (cases inp)
  case (Command c)
  show ?thesis
  proof (cases c)
    case (RespondPermission rid response b ch)
    then have "tool \<in> set (a_remembered_tools (remember (tool_to_remember rid response b a) a))"
      using assms(1) Command by (simp add: handle_respond_permission_def reply_with_def keeps_tools)
    then have "tool_to_remember rid response b a = Some tool"
      using assms(2) by (auto simp: remember_def split: option.splits)
    then show ?thesis
      using Command RespondPermission
      by (auto simp: tool_to_remember_def opt_filter_Some_iff split: if_splits)
  qed (use assms Command in \<open>simp_all add: reply_with_def handle_stop_def keeps_tools split: if_splits\<close>)
qed (use assms in \<open>simp_all add: keeps_tools handle_eof_def handle_stderr_line_def handle_stop_def
      Let_def split: if_splits\<close>)

definition allow_always :: actor_input where
  "allow_always = Command (RespondPermission ''q1'' (JObj [(''behavior'', JStr ''allow'')]) True 2)"

definition demo_asked :: actor where
  "demo_asked = loop_actor (demo_run [(1, say ''hi'' 1), (2, StdoutLine ''P'')])"

lemmas eval_asked = demo_asked_def eval_run eval_line handle_control_event_def request_subtype_def
  on_can_use_tool_def insert_pending_def notify_def permission_prompt_event_def hm_insert_def
  jget_opt_def

lemma demo_asked_tools: "a_remembered_tools demo_asked = []"
  by (simp add: eval_asked)

lemma demo_asked_pending:
  "map_of (a_pending demo_asked) ''q1'' = Some \<lparr>pi_request_id = ''q1'', pi_kind = Permission,
     pi_subtype = ''can_use_tool'', pi_detail = ''Bash'', pi_received_at = 2\<rparr>"
  by (simp add: eval_asked)

lemma demo_allowed_tools:
  "''Bash'' \<in> set (a_remembered_tools (fst (handle_input demo_world 3 allow_always demo_asked)))"
  by (simp add: allow_always_def handle_respond_permission_def reply_with_def keeps_tools
      tool_to_remember_def demo_asked_pending remember_def)

theorem remembered_only_by_allow_witness:
  "\<exists>rid response ch req. allow_always = Command (RespondPermission rid response True ch)
    \<and> map_of (a_pending demo_asked) rid = Some req \<and> pi_detail req = ''Bash''"
proof -
  have "''Bash'' \<notin> set (a_remembered_tools demo_asked)" using demo_asked_tools by simp
  from remembered_only_by_allow [OF demo_allowed_tools this] show ?thesis by blast
qed

section \<open>Requests to use a tool\<close>

definition tool_request :: "string \<Rightarrow> json \<Rightarrow> json \<Rightarrow> bool" where
  "tool_request rid request v =
     (get_str v ''type'' = Some ''control_request'' \<and> get_str v ''request_id'' = Some rid
      \<and> jget v ''request'' = Some request \<and> get_str request ''subtype'' = Some ''can_use_tool''
      \<and> rid \<noteq> [])"

definition denial :: json where
  "denial = JObj [(''behavior'', JStr ''deny''),
     (''message'', JStr ''Tool use not allowed during internal turn'')]"

lemma written_when_healthy:
  "healthy w \<Longrightarrow> a_stdin a \<Longrightarrow> x_wire (snd (write_json_line w ctx v a)) = x_wire a @ [v]"
  by (simp add: write_json_line_def healthy_def Let_def)

lemma reset_activity_fields [simp]:
  "a_quarantine (reset_activity now a) = a_quarantine a"
  "a_remembered_tools (reset_activity now a) = a_remembered_tools a"
  "a_pending (reset_activity now a) = a_pending a"
  "a_stdin (reset_activity now a) = a_stdin a"
  "x_wire (reset_activity now a) = x_wire a"
  "x_emitted (reset_activity now a) = x_emitted a"
  "is_internal_turn (reset_activity now a) = is_internal_turn a"
proof -
  show "is_internal_turn (reset_activity now a) = is_internal_turn a"
    by (simp add: is_internal_turn_def reset_activity_def apply_activity_reset_def
        split: option.split)
qed (simp_all add: reset_activity_def)

text \<open>C4: a tool runs only with a grant: outside quarantine a request for a tool that is not remembered
  writes nothing to the child and becomes a pending request for the user; a remembered tool is
  allowed at once without a prompt; in quarantine or during an internal turn every tool is
  denied, remembered or not.\<close>

theorem tool_requests_gated:
  assumes "tool_request rid request v" "healthy w" "a_stdin a"
    and "tool = unwrap_or (get_str request ''tool_name'') ''unknown''"
    and "inp = unwrap_or (jget request ''input'') (JObj [])"
    and "b = handle_claude_value w now v a"
  shows "if a_quarantine a \<or> is_internal_turn a
     then x_wire b = x_wire a @ [build_control_response rid (Inr denial)] \<and> a_pending b = a_pending a
     else if tool \<in> set (a_remembered_tools a)
     then x_wire b = x_wire a @ [build_control_response rid (Inr (auto_allow inp))]
          \<and> a_pending b = a_pending a \<and> x_emitted b = x_emitted a
     else x_wire b = x_wire a
          \<and> map_of (a_pending b) rid = Some \<lparr>pi_request_id = rid, pi_kind = Permission,
               pi_subtype = ''can_use_tool'', pi_detail = tool, pi_received_at = now\<rparr>
          \<and> x_emitted b = x_emitted a @ [permission_prompt_event (a_run_id a) rid tool inp request v]"
proof -
  let ?a = "reset_activity now a"
  have sub: "request_subtype v = ''can_use_tool''"
    using assms(1) by (simp add: tool_request_def request_subtype_def jget_opt_def get_str_def)
  have ty: "unwrap_or (get_str v ''type'') [] = ''control_request''" and rid: "rid \<noteq> []"
    "get_str v ''request_id'' = Some rid" "jget v ''request'' = Some request"
    using assms(1) by (simp_all add: tool_request_def)
  have run: "a_run_id ?a = a_run_id a" by (simp add: reset_activity_def)
  show ?thesis
  proof (cases "a_quarantine a \<or> is_internal_turn a")
    case True
    then have "b = handle_control_event_internal w v ''control_request'' ?a"
      using assms(6) ty by (simp add: handle_claude_value_def is_control_type_def Let_def)
    then have "b = snd (write_control_response w rid denial ?a)"
      using rid sub by (simp add: handle_control_event_internal_def internal_outcome_def denial_def Let_def)
    then show ?thesis
      using True assms(2,3) by (simp add: write_control_response_def written_when_healthy)
  next
    case False
    then have "b = handle_control_event w now v ''control_request'' ?a"
      using assms(6) ty by (simp add: handle_claude_value_def is_control_type_def Let_def)
    then have "b = on_can_use_tool w now v ?a"
      using sub by (simp add: handle_control_event_def Let_def)
    then have b: "b = (if tool \<in> set (a_remembered_tools a)
        then snd (write_control_response w rid (auto_allow inp) ?a)
        else notify (insert_pending now rid Permission ''can_use_tool'' tool
          (persist_and_emit w (permission_prompt_event (a_run_id a) rid tool inp request v) ?a)))"
      using rid run by (simp add: on_can_use_tool_def Let_def assms(4,5))
    have wire: "x_wire (persist_and_emit w ev ?a) = x_wire a" for ev
      by (simp add: persist_and_emit_def persist_and_emit_durable_def Let_def split: option.split)
    show ?thesis
      unfolding b using False assms(2,3) wire
      by (simp add: write_control_response_def written_when_healthy notify_def insert_pending_def)
  qed
qed

definition bash_request :: json where
  "bash_request = JObj [(''subtype'', JStr ''can_use_tool''), (''tool_name'', JStr ''Bash'')]"

definition bash_line :: json where
  "bash_line = JObj [(''type'', JStr ''control_request''), (''request_id'', JStr ''q1''),
     (''request'', bash_request)]"

lemma bash_line_request: "tool_request ''q1'' bash_request bash_line"
  by (simp add: tool_request_def bash_line_def bash_request_def)

theorem tool_requests_gated_witness:
  "x_wire (handle_claude_value demo_world 9 bash_line
     (demo_asked\<lparr>a_quarantine := True, a_remembered_tools := [''Bash'']\<rparr>))
   = x_wire demo_asked @ [build_control_response ''q1'' (Inr denial)]"
proof -
  have "a_stdin (demo_asked\<lparr>a_quarantine := True, a_remembered_tools := [''Bash'']\<rparr>)"
    by (simp add: eval_asked)
  from tool_requests_gated [OF bash_line_request demo_healthy this refl refl refl] show ?thesis
    by simp
qed

end
