(* ===== verification/Interaction_Props.thy ===== *)
theory Interaction_Props
  imports Actor_Props
begin

text \<open>
  Answers, interrupts and failures: the durable log around the delivery of an answer, the outcome
  of an interrupted turn, what the end of the child settles, and two ways in which the code gets
  stuck.
\<close>

section \<open>Delivering an answer\<close>


lemma durable_wire [simp]: "x_wire (snd (persist_and_emit_durable w ev a)) = x_wire a"
  by (simp add: persist_and_emit_durable_def Let_def split: option.split)

lemma write_json_line_log [simp]: "x_log (snd (write_json_line w ctx v a)) = x_log a"
  by (simp add: write_json_line_def Let_def split: option.split)

lemma write_json_lines_log [simp]: "x_log (snd (write_json_lines w ctx vs a)) = x_log a"
  by (induction vs arbitrary: a) (simp_all add: case_prod_beta split: sum.split)

lemma write_interactive_log [simp]:
  "x_log (snd (write_interactive_response w k rid v a)) = x_log a"
  by (simp add: write_interactive_response_def write_control_response_def case_prod_beta
      split: option.split sum.split)



lemma clear_pending_fields [simp]:
  "x_log (clear_pending_interactive_request rid a) = x_log a"
  "x_wire (clear_pending_interactive_request rid a) = x_wire a"
  "a_run_id (clear_pending_interactive_request rid a) = a_run_id a"
  "a_pending (clear_pending_interactive_request rid a) = hm_remove rid (a_pending a)"
  by (simp_all add: clear_pending_interactive_request_def)


section \<open>Interrupts and the end of the child\<close>

text \<open>The result that answers a user's interrupt is never an error: it is handled exactly as a
  clean \<open>idle\<close> result of an actor whose error tracking was reset and whose interrupt is over.\<close>

theorem interrupt_is_not_an_error:
  assumes "a_pending_interrupt a" "st = ''idle'' \<or> st = ''failed''"
  shows "on_run_state w now st code err a
     = on_run_state w now ''idle'' code None (clear_result_tracking (a\<lparr>a_pending_interrupt := False\<rparr>))"
  using assms by (auto simp: on_run_state_def suppress_interrupt_def clear_result_tracking_def)

theorem interrupt_is_not_an_error_witness:
  "on_run_state demo_world 5 ''failed'' None (Some ''x'') (loop_actor (demo_start None)\<lparr>a_pending_interrupt := True\<rparr>)
   = on_run_state demo_world 5 ''idle'' None None (clear_result_tracking
       (loop_actor (demo_start None)\<lparr>a_pending_interrupt := True, a_pending_interrupt := False\<rparr>))"
  by (rule interrupt_is_not_an_error) simp_all

text \<open>The end of the child's output settles the session: no turn and no queued message is left,
  every queued message is answered with an error in order, and unless a result error is on record
  the session's state is the one the exit code says: stopped when cancelled, completed on exit
  code 0, failed otherwise.\<close>

theorem eof_settles:
  "\<exists>b. handle_eof w now code a = b \<and> a_active_turn b = None \<and> a_queued_user b = []
    \<and> x_replies b = x_replies a
        @ map (\<lambda>t. (tk_reply t, ReplyUnit (Inl ''Session ended''))) (a_queued_user a)
    \<and> (got_result_event (a_protocol a)
       \<or> a_state b = (if a_cancelled a then ''stopped''
            else if a_child a \<and> code = Some 0 then ''completed'' else ''failed''))"
  by (simp add: handle_eof_def eof_state_def Let_def)

section \<open>Two ways to get stuck\<close>

lemma write_user_claude_fails:
  assumes "a_codex a = None" "\<not> a_stdin a \<or> (\<forall>n. w_write w n \<noteq> None)"
  shows "\<exists>e. fst (write_user_to_stdin w now s atts skills a) = Inl e"
proof (cases "a_stdin a")
  case True
  then have "\<forall>n. \<exists>e. w_write w n = Some e" using assms(2) by auto
  then obtain f where "\<And>n. w_write w n = Some (f n)" by metis
  then show ?thesis
    using assms(1)
    by (auto simp: write_user_to_stdin_def write_user_claude_def write_json_line_def Let_def
        split: option.split)
qed (simp add: write_user_to_stdin_def write_user_claude_def assms(1))

text \<open>A user message whose write fails strands a running Ralph loop: the dispatcher has paused
  the loop, no turn is running, and no later tick dispatches anything.\<close>

theorem failed_write_strands_ralph:
  assumes "turn_inv a" "dispatch_gate a" "a_queued_user a = [t]"
    and "a_ralph_loop a = Some r" "rl_phase r = RRunning" "a_codex a = None"
    and "\<not> a_stdin a \<or> (\<forall>n. w_write w n \<noteq> None)"
    and "b = try_dispatch w now a" "\<not> x_panicked b"
  shows "a_active_turn (handle_tick w later b) = None \<and> a_queued_user (handle_tick w later b) = []
    \<and> a_ralph_loop (handle_tick w later b) = Some (r\<lparr>rl_phase := RPausedByUser RRunning\<rparr>)"
proof -
  let ?p = "pause_ralph (a\<lparr>a_queued_user := []\<rparr>)"
  have b: "b = start_user_turn w now t ?p"
    using assms(2,3,8) by (simp add: try_dispatch_eq [OF assms(1)])
  let ?q = "set_slash (slash_of_kind (tk_kind t)) ?p"
  obtain e where e: "fst (write_user_to_stdin w now (tk_text t) (tk_attachments t) (tk_skills t) ?q) = Inl e"
    using write_user_claude_fails [of ?q w now "tk_text t" "tk_attachments t" "tk_skills t"] assms(6,7)
    by auto
  let ?r = "r\<lparr>rl_phase := RPausedByUser RRunning\<rparr>"
  have "a_ralph_loop ?p = Some ?r"
    using assms(4,5) by (simp add: pause_ralph_def update_ralph_def)
  moreover have "a_active_turn ?p = None" "\<not> a_quarantine ?p"
    using assms(2) by (simp_all add: dispatch_gate_def)
  moreover have "b = snd (write_user_to_stdin w now (tk_text t) (tk_attachments t) (tk_skills t) ?q)
      \<or> b = reply (tk_reply t) (ReplyUnit (Inl e))
          (snd (write_user_to_stdin w now (tk_text t) (tk_attachments t) (tk_skills t) ?q))"
    using b e by (simp add: start_user_turn_def Let_def case_prod_beta)
  ultimately have b': "a_ralph_loop b = Some ?r" "a_active_turn b = None" "a_queued_user b = []"
    "\<not> a_quarantine b"
    by auto
  have inv: "turn_inv b" using try_dispatch_inv [OF assms(1)] assms(8) by simp
  have tick: "on_tick_timeout w later b = tick_codex w later b"
    using b' by (simp add: on_tick_timeout_def tick_idle_def Let_def)
  let ?c = "(tick_codex w later b)\<lparr>a_ralph_needs_dispatch := False\<rparr>"
  have "turn_inv ?c" using tick_codex_inv [OF inv] by (simp add: inv_defs)
  then have "try_dispatch w later ?c = ?c"
    using b' by (simp add: try_dispatch_eq dispatch_ralph_def)
  then show ?thesis
    using b' by (simp add: handle_tick_def Let_def tick)
qed

definition demo_paused :: "(nat \<times> actor_input) list" where
  "demo_paused = [(1, Command (StartRalphLoop ''fix it'' 2 None 1)), (2, say ''hi'' 2)]"

definition broken_world :: world where
  "broken_world = demo_world\<lparr>w_write := \<lambda>n. Some ''EPIPE''\<rparr>"

lemma demo_paused_state:
  "\<exists>a t r. demo_run demo_paused = Looping a \<and> a_queued_user a = [t] \<and> a_ralph_loop a = Some r
     \<and> rl_phase r = RRunning \<and> a_codex a = None \<and> \<not> a_terminated a \<and> tk_text t = ''hi''
     \<and> tk_attachments t = [] \<and> \<not> x_panicked a \<and> \<not> a_quarantine a"
  by (simp add: demo_paused_def eval_run start_ralph_loop_def new_ralph_def)

theorem failed_write_strands_ralph_witness:
  "\<exists>a r. demo_run demo_paused = Looping a
     \<and> a_ralph_loop (handle_tick broken_world 9 (try_dispatch broken_world 3 (a\<lparr>a_active_turn := None\<rparr>)))
       = Some (r\<lparr>rl_phase := RPausedByUser RRunning\<rparr>)"
proof -
  obtain a t r where a: "demo_run demo_paused = Looping a" "a_queued_user a = [t]"
    "a_ralph_loop a = Some r" "rl_phase r = RRunning" "a_codex a = None" "\<not> a_terminated a"
    "tk_attachments t = []" "\<not> x_panicked a" "\<not> a_quarantine a"
    using demo_paused_state by blast
  let ?a = "a\<lparr>a_active_turn := None\<rparr>"
  have "turn_inv a"
    using turns.inv_from_start [OF demo_start_init demo_run_path [of demo_paused]] a(1) by simp
  then have inv: "turn_inv ?a" by (rule turn_inv_release)
  have gate: "dispatch_gate ?a" using a by (simp add: dispatch_gate_def)
  have "\<not> a_stdin ?a \<or> (\<forall>n. w_write broken_world n \<noteq> None)" by (simp add: broken_world_def)
  moreover have "\<not> x_panicked (try_dispatch broken_world 3 ?a)"
    using a gate by (simp add: try_dispatch_eq [OF inv] start_user_turn_def Let_def case_prod_beta
        write_user_to_stdin_def write_user_claude_def build_user_payload_def user_content_def
        pause_ralph_def split: sum.split)
  ultimately show ?thesis
    using failed_write_strands_ralph [OF inv gate, of t r broken_world _ 3 9] a by auto
qed

text \<open>A cancellation of a prompt by the child leaves the prompt pending, so a user turn is never
  timed out again, however late the tick.\<close>

theorem cancelled_prompt_blocks_timeout:
  assumes "map_of (a_pending a) rid = Some req" "get_str v ''request_id'' = Some rid"
    and "a_active_turn a = Some t" "\<not> is_internal_origin (at_origin t)" "\<not> a_quarantine a"
    and "b = on_control_cancel w v a"
  shows "map_of (a_pending b) rid = Some req \<and> \<not> a_quarantine (handle_tick w now b)
    \<and> a_active_turn (handle_tick w now b) \<noteq> None"
proof -
  have b: "a_pending b = a_pending a" "a_active_turn b = Some t" "\<not> a_quarantine b"
    using assms(3,5,6) by (simp_all add: on_control_cancel_def drop_waiter_def Let_def)
  let ?c = "tick_codex w now b"
  have c: "a_pending ?c \<noteq> []" "a_active_turn ?c = Some t" "\<not> a_quarantine ?c"
    using b assms(1) by (auto simp: tick_codex_def case_prod_beta split: option.split)
  have "\<not> a_quarantine (on_tick_timeout w now b) \<and> a_active_turn (on_tick_timeout w now b) \<noteq> None"
    using c assms(4) by (simp add: on_tick_timeout_def tick_user_turn_def Let_def)
  then show ?thesis
    using b assms(1) by (auto simp: handle_tick_def Let_def try_dispatch_def dispatch_gate_def)
qed

definition demo_prompted :: actor where
  "demo_prompted = loop_actor (demo_run [(1, say ''hi'' 1)])
     \<lparr>a_pending := [(''q1'', \<lparr>pi_request_id = ''q1'', pi_kind = Permission,
        pi_subtype = ''can_use_tool'', pi_detail = ''Bash'', pi_received_at = 2\<rparr>)]\<rparr>"

lemma demo_prompted_state:
  "\<exists>t. a_active_turn demo_prompted = Some t \<and> \<not> is_internal_origin (at_origin t)
     \<and> \<not> a_quarantine demo_prompted"
  by (simp add: demo_prompted_def eval_run)

theorem cancelled_prompt_blocks_timeout_witness:
  "\<not> a_quarantine (handle_tick demo_world (10 ^ 12)
     (on_control_cancel demo_world (JObj [(''request_id'', JStr ''q1'')]) demo_prompted))"
proof -
  obtain t where "a_active_turn demo_prompted = Some t" "\<not> is_internal_origin (at_origin t)"
    "\<not> a_quarantine demo_prompted" using demo_prompted_state by blast
  moreover obtain req where "map_of (a_pending demo_prompted) ''q1'' = Some req"
    by (simp add: demo_prompted_def)
  moreover have "get_str (JObj [(''request_id'', JStr ''q1'')]) ''request_id'' = Some ''q1''" by simp
  ultimately have "\<not> a_quarantine (handle_tick demo_world now
      (on_control_cancel demo_world (JObj [(''request_id'', JStr ''q1'')]) demo_prompted))" for now
    using cancelled_prompt_blocks_timeout by blast
  then show ?thesis .
qed

end
