(* ===== verification/Parser_Isolation.thy ===== *)
theory Parser_Isolation
  imports Parser_Props
begin

text \<open>
  Threads of the Codex driver: messages wait under the id of their own thread (\<open>keyed\<close>), a thread
  that is not the session's cannot steer it, and every line is parsed: the replays end and the
  bounds of the buffer are kept.
\<close>

section \<open>Messages wait under their thread\<close>

definition keyed :: "codex_app_server \<Rightarrow> bool" where
  "keyed c = (\<forall>(t, e)\<in>set (all_deferred c). message_thread (de_message e) = Some t)"

lemma keyed_cong: "cx_deferred c' = cx_deferred c \<Longrightarrow> keyed c' = keyed c"
  by (simp add: keyed_def all_deferred_def)

lemma keyed_updates [simp]:
  "keyed (c\<lparr>cx_pending := v1\<rparr>) = keyed c" "keyed (c\<lparr>cx_phase := v2\<rparr>) = keyed c"
  "keyed (c\<lparr>cx_deferred_bytes := v4\<rparr>) = keyed c" "keyed (c\<lparr>cx_thread_id := v5\<rparr>) = keyed c"
  "keyed (c\<lparr>cx_child_parent_tools := v6\<rparr>) = keyed c" "keyed (c\<lparr>cx_internal_waiters := v7\<rparr>) = keyed c"
  "keyed (c\<lparr>cx_client_waiters := v8\<rparr>) = keyed c"
  by (simp_all add: keyed_def all_deferred_def)

lemma keyed_identity [simp]: "keyed (fst (request_identity tid s)) = keyed (fst s)"
  by (rule keyed_cong) (rule request_identity_frame)

lemma keyed_entry:
  "keyed c \<Longrightarrow> map_of (cx_deferred c) tid = Some q \<Longrightarrow> e \<in> set q \<Longrightarrow> message_thread (de_message e) = Some tid"
  using map_of_SomeD [of "cx_deferred c" tid q] by (fastforce simp: keyed_def all_deferred_iff)

lemma keyed_drop: "keyed c \<Longrightarrow> keyed (c\<lparr>cx_deferred := hm_remove tid (cx_deferred c)\<rparr>)"
  using set_hm_remove_subset [of tid "cx_deferred c"] by (fastforce simp: keyed_def all_deferred_iff)

lemma keyed_defer:
  assumes "keyed c" "message_thread msg = Some tid"
    and "defer_thread_message jtext now tid msg c = Some (ok, c', fr)"
  shows "keyed c'"
  using defer_frame [OF assms(3)] assms(1,2) by (fastforce simp: keyed_def)

lemma foreign_thread: "is_foreign c thread \<Longrightarrow> \<exists>t. thread = Some t"
  by (cases thread) (auto simp: is_foreign_def)

lemma request_keyed:
  assumes "keyed c" "handle_server_request jtext now run_id m v c = Some (c', r)"
  shows "keyed c'"
  using assms(2)
proof (cases rule: server_request_cases)
  case (deferred k fr)
  obtain t where "request_thread v = Some t" using foreign_thread [OF deferred(1)] by blast
  then show ?thesis using keyed_defer [OF assms(1) _ deferred(2)] by (simp add: request_thread_def)
qed (use assms(1) in auto)

section \<open>Sub-agents cannot steer the session\<close>

definition is_child :: "codex_app_server \<Rightarrow> string option \<Rightarrow> bool" where
  "is_child c thread = (\<exists>t. thread = Some t \<and> cx_child_parent_tools c t \<noteq> None)"

definition steering :: "driver_out \<Rightarrow> codex_phase \<times> string option \<times> string option \<times> lifecycle_signal option \<times> string option" where
  "steering s = (cx_phase (fst s), cx_thread_id (fst s), cx_active_turn_id (fst s),
     pl_lifecycle (snd s), pl_thread_id (snd s))"

text \<open>The session's own state and signals are untouched, and registered threads stay registered.\<close>

definition steady :: "driver_out \<Rightarrow> driver_out \<Rightarrow> bool" where
  "steady s t =
     (steering t = steering s \<and> (keyed (fst s) \<longrightarrow> keyed (fst t))
      \<and> (\<forall>x. cx_child_parent_tools (fst s) x \<noteq> None \<longrightarrow> cx_child_parent_tools (fst t) x \<noteq> None))"

lemma steady_trans: "steady s t \<Longrightarrow> steady t u \<Longrightarrow> steady s u"
  by (simp add: steady_def)

lemma child_not_foreign: "is_child c thread \<Longrightarrow> \<not> is_foreign c thread"
  by (auto simp: is_child_def is_foreign_def)

interpretation isolated: driver_relation jtext now run_id steady keyed
  "\<lambda>c m. is_child c (message_thread m)" "\<lambda>c t. cx_child_parent_tools c t \<noteq> None"
  for jtext now run_id
proof
  fix s :: driver_out and m v c' r
  assume k: "keyed (fst s)" and o: "is_child (fst s) (message_thread (Interactive m v))"
    and h: "handle_server_request jtext now run_id m v (fst s) = Some (c', r)"
  from h show "steady s (c', merge_replayed (snd s) r)"
  proof (cases rule: server_request_cases)
    case (deferred k fr)
    then show ?thesis using child_not_foreign [OF o] by (simp add: request_thread_def)
  qed (auto simp: steady_def steering_def)
next
  fix s t :: driver_out and m params
  assume "is_child (fst s) (message_thread (Notification m params))" "not_child (fst s) params"
  then show "steady s t" by (auto simp: is_child_def not_child_def)
next
  fix s :: driver_out and msg k c' fr
  assume "is_child (fst s) (message_thread msg)" "is_foreign (fst s) (message_thread msg)"
  then show "steady s (add_outbound fr (c', snd s))" using child_not_foreign by blast
next
  fix s t u :: driver_out
  assume "steady s t" "steady t u"
  then show "steady s u" by (rule steady_trans)
next
  fix s t :: driver_out and msg
  assume "steady s t" "is_child (fst s) (message_thread msg)"
  then show "is_child (fst t) (message_thread msg)" by (auto simp: steady_def is_child_def)
next
  fix c tid q e
  assume "keyed c" "cx_child_parent_tools c tid \<noteq> None" "map_of (cx_deferred c) tid = Some q" "e \<in> set q"
  then show "is_child c (message_thread (de_message e))" using keyed_entry by (simp add: is_child_def)
next
  fix s :: driver_out and tid
  show "steady s (request_identity tid s)"
    by (simp add: steady_def steering_def request_identity_frame)
qed (auto simp: steady_def steering_def out_defs keyed_drop)

text \<open>C27: whatever a registered sub-agent's thread sends, and whatever waiting messages that
  releases, the session's thread, phase and active turn stay as they are and no turn boundary and
  no thread id is reported: sub-agents cannot end or start the session's turn.\<close>

theorem child_cannot_steer:
  assumes "keyed c" "jparse (trim line) = Some msg" "request_thread msg = Some t"
    and "cx_child_parent_tools c t \<noteq> None" "get_str msg ''method'' = Some m"
    and "parse_line jparse jtext now run_id line c = Some (c', out)"
  shows "cx_phase c' = cx_phase c \<and> cx_thread_id c' = cx_thread_id c
    \<and> cx_active_turn_id c' = cx_active_turn_id c \<and> pl_lifecycle out = None \<and> pl_thread_id out = None"
proof -
  have "steering (c', out) = steering (c, parsed_line_default)"
    using assms(6)
  proof (cases rule: line_cases)
    case (message msg')
    then have h: "handle_message jtext now run_id msg c = Some (c', out)" using assms(2) by simp
    have child: "is_child c (request_thread msg)" using assms(3,4) by (simp add: is_child_def)
    show ?thesis
    proof (cases "jget msg ''id'' = None")
      case True
      then have "handle_notification (replay_fuel c) jtext now run_id m (unwrap_or (jget msg ''params'') JNull)
          (c, parsed_line_default) = Some (c', out)"
        using h assms(5) by (simp add: handle_message_def)
      from isolated.handle_rel [OF this] assms(1) child show ?thesis
        by (simp add: steady_def request_thread_def)
    next
      case False
      then have "(c', out) = (c, parsed_line_default) \<or> handle_server_request jtext now run_id m msg c = Some (c', out)"
        using h assms(5) by (auto simp: handle_message_def split: if_splits)
      then show ?thesis
      proof
        assume "handle_server_request jtext now run_id m msg c = Some (c', out)"
        then show ?thesis
        proof (cases rule: server_request_cases)
          case (deferred k fr)
          then show ?thesis using child_not_foreign [OF child] by simp
        qed (auto simp: steering_def)
      qed simp
    qed
  qed simp
  then show ?thesis by (simp add: steering_def)
qed

definition demo_child_driver :: codex_app_server where
  "demo_child_driver = demo_driver\<lparr>cx_child_parent_tools := [''t2'' \<mapsto> ''i1''], cx_active_turn_id := Some ''u1''\<rparr>"

lemma demo_child_keyed: "keyed demo_child_driver"
  by (simp add: keyed_def all_deferred_def demo_child_driver_def)

theorem child_cannot_steer_witness:
  "\<exists>c' out. parse_line demo_rpc (\<lambda>v. []) 0 ''r1'' ''C'' demo_child_driver = Some (c', out)
     \<and> cx_active_turn_id c' = Some ''u1'' \<and> pl_lifecycle out = None"
proof -
  obtain c' out where p: "parse_line demo_rpc (\<lambda>v. []) 0 ''r1'' ''C'' demo_child_driver = Some (c', out)"
    by (simp add: eval_parse demo_child_end_def demo_child_driver_def child_methods_def)
  have "cx_active_turn_id c' = cx_active_turn_id demo_child_driver \<and> pl_lifecycle out = None"
    using child_cannot_steer [OF demo_child_keyed _ _ _ _ p, of demo_child_end "''t2''" "''turn/completed''"]
    by (simp add: demo_rpc_def demo_child_end_def request_thread_def demo_child_driver_def)
  then show ?thesis using p by (simp add: demo_child_driver_def)
qed

text \<open>C28: a message of a thread nobody has claimed is held back: nothing of the driver but its
  buffer changes, no event, prompt, signal or control response comes of it, and all that may be
  sent are error replies to requests that were discarded.\<close>

theorem foreign_held_back:
  assumes "jparse (trim line) = Some msg" "get_str msg ''method'' = Some m" "m \<noteq> ''thread/started''"
    and "request_thread msg = Some t" "t \<noteq> []" "is_foreign c (Some t)"
    and "parse_line jparse jtext now run_id line c = Some (c', out)"
  shows "buffer_only c c' \<and> out = parsed_line_default\<lparr>pl_outbound := pl_outbound out\<rparr>
    \<and> list_all error_reply (pl_outbound out)"
  using assms(7)
proof (cases rule: line_cases)
  case blank
  then show ?thesis by (simp add: parsed_line_default_def)
next
  case (message msg')
  then have h: "handle_message jtext now run_id msg c = Some (c', out)" using assms(1) by simp
  show ?thesis
  proof (cases "jget msg ''id'' = None")
    case True
    then obtain k fr where d: "defer_thread_message jtext now t (Notification m (unwrap_or (jget msg ''params'') JNull)) c
        = Some (k, c', fr)" and o: "out = parsed_line_default\<lparr>pl_outbound := fr\<rparr>"
      using h assms(2-6) by (auto simp: handle_message_def replay_fuel_def request_thread_def out_defs)
    then show ?thesis using defer_frame [OF d] by (simp add: parsed_line_default_def)
  next
    case False
    show ?thesis
    proof (cases "is_interactive_method m")
      case True
      then obtain k fr where d: "defer_thread_message jtext now t (Interactive m msg) c = Some (k, c', fr)"
        and o: "out = parsed_line_default\<lparr>pl_outbound := fr\<rparr>"
        using h False assms(2-6)
        by (auto simp: handle_message_def handle_server_request_def request_thread_def Let_def)
      then show ?thesis using defer_frame [OF d] by (simp add: parsed_line_default_def)
    next
      case ignored: False
      then have "c' = c \<and> out = parsed_line_default" using h False assms(2) by (simp add: handle_message_def)
      then show ?thesis by (simp add: parsed_line_default_def)
    qed
  qed
qed

theorem foreign_held_back_witness:
  "\<exists>c' out. parse_line demo_rpc (\<lambda>v. []) 0 ''r1'' ''C'' demo_driver = Some (c', out)
     \<and> buffer_only demo_driver c' \<and> pl_lifecycle out = None"
proof -
  have ok: "buffer_ok demo_driver"
    by (simp add: buffer_ok_def total_bytes_def) (simp add: demo_driver_def codex_new_def)
  have n: "cx_next_deferred_sequence demo_driver + 1 < 2 ^ 64" by (simp add: demo_driver_def codex_new_def)
  obtain k c' fr where "defer_thread_message (\<lambda>v. []) 0 ''t2''
      (Notification ''turn/completed'' (JObj [(''threadId'', JStr ''t2'')])) demo_driver = Some (k, c', fr)"
    using defer_returns [OF ok n] by blast
  then obtain c' out where p: "parse_line demo_rpc (\<lambda>v. []) 0 ''r1'' ''C'' demo_driver = Some (c', out)"
    by (simp add: eval_parse demo_child_end_def)
  have "buffer_only demo_driver c' \<and> out = parsed_line_default\<lparr>pl_outbound := pl_outbound out\<rparr>"
    using foreign_held_back [OF _ _ _ _ _ _ p, of demo_child_end "''turn/completed''" "''t2''"]
    by (simp add: demo_rpc_def demo_child_end_def request_thread_def is_foreign_def)
  then show ?thesis using p by (metis default_fields(4) parsed_line.select_convs(3) parsed_line.surjective parsed_line.update_convs(6))
qed

end
