(* ===== verification/Parser_Total.thy ===== *)
theory Parser_Total
  imports Parser_Isolation
begin

text \<open>
  Every line is parsed: a replay takes a thread out of the buffer, so the recursion of
  \<open>handle_notification\<close> ends within \<open>replay_fuel\<close>, and the bounds of the buffer survive. During a
  replay the byte counter still counts the entries in hand, so the invariant of the buffer is
  stated with a slack.
\<close>

definition buffer_slack :: "nat \<Rightarrow> codex_app_server \<Rightarrow> bool" where
  "buffer_slack n c =
     (buffer_ok (c\<lparr>cx_deferred_bytes := total_bytes c\<rparr>) \<and> cx_deferred_bytes c = total_bytes c + n)"

lemma total_bytes_update [simp]: "total_bytes (c\<lparr>cx_deferred_bytes := n\<rparr>) = total_bytes c"
  by (simp add: total_bytes_def)

lemma buffer_slack_0: "buffer_slack 0 c = buffer_ok c"
proof
  assume "buffer_slack 0 c"
  then have "buffer_ok (c\<lparr>cx_deferred_bytes := total_bytes c\<rparr>)" "c\<lparr>cx_deferred_bytes := total_bytes c\<rparr> = c"
    by (auto simp: buffer_slack_def)
  then show "buffer_ok c" by simp
next
  assume b: "buffer_ok c"
  then have t: "total_bytes c = cx_deferred_bytes c" by (simp add: buffer_ok_def)
  have "c\<lparr>cx_deferred_bytes := total_bytes c\<rparr> = c" unfolding t by simp
  then show "buffer_slack 0 c" using b t by (simp add: buffer_slack_def)
qed

lemma buffer_slack_cong:
  "cx_deferred c' = cx_deferred c \<Longrightarrow> cx_deferred_bytes c' = cx_deferred_bytes c \<Longrightarrow>
   cx_next_deferred_sequence c' = cx_next_deferred_sequence c \<Longrightarrow> buffer_slack n c' = buffer_slack n c"
  by (simp add: buffer_slack_def buffer_ok_def total_bytes_def)

lemma buffer_slack_entry:
  "buffer_slack (de_payload_bytes e + n) c \<Longrightarrow>
   buffer_slack n (c\<lparr>cx_deferred_bytes := cx_deferred_bytes c - de_payload_bytes e\<rparr>)"
  by (simp add: buffer_slack_def)

lemma buffer_slack_drop:
  assumes "buffer_slack n c" "map_of (cx_deferred c) tid = Some q"
  shows "buffer_slack (queue_bytes q + n) (c\<lparr>cx_deferred := hm_remove tid (cx_deferred c)\<rparr>)"
    and "length (hm_remove tid (cx_deferred c)) < length (cx_deferred c)"
proof -
  let ?d = "cx_deferred c"
  have d: "distinct (map fst ?d)" using assms(1) by (simp add: buffer_slack_def buffer_ok_def)
  note p = hm_remove_present [OF assms(2) d, of queue_bytes]
  then show "length (hm_remove tid ?d) < length ?d" by linarith
  have "total_bytes (c\<lparr>cx_deferred := hm_remove tid ?d\<rparr>) + queue_bytes q = total_bytes c"
    using p by (simp add: total_bytes_def)
  moreover have "\<forall>x\<in>set (hm_remove tid ?d). x \<in> set ?d" using set_hm_remove_subset [of tid ?d] by blast
  ultimately show "buffer_slack (queue_bytes q + n) (c\<lparr>cx_deferred := hm_remove tid ?d\<rparr>)"
    using assms(1) p distinct_hm_remove [OF d] unfolding buffer_slack_def buffer_ok_def
    by (fastforce simp: total_bytes_def)
qed

section \<open>What the replays keep\<close>

text \<open>No thread joins the buffer, and nothing that was claimed becomes foreign.\<close>

definition shrinks :: "driver_out \<Rightarrow> driver_out \<Rightarrow> bool" where
  "shrinks s t =
     ((keyed (fst s) \<longrightarrow> keyed (fst t)) \<and> length (cx_deferred (fst t)) \<le> length (cx_deferred (fst s))
      \<and> cx_next_deferred_sequence (fst t) = cx_next_deferred_sequence (fst s)
      \<and> (\<forall>x. \<not> is_foreign (fst s) x \<longrightarrow> \<not> is_foreign (fst t) x))"

lemma is_foreign_simps [simp]:
  "is_foreign c None = False"
  "is_foreign c (Some t) = (cx_thread_id c \<noteq> Some t \<and> cx_child_parent_tools c t = None)"
  by (simp_all add: is_foreign_def)

lemma is_foreign_cong:
  "cx_thread_id c' = cx_thread_id c \<Longrightarrow> cx_child_parent_tools c' = cx_child_parent_tools c \<Longrightarrow>
   is_foreign c' x = is_foreign c x"
  by (cases x) simp_all

lemma is_foreign_updates [simp]:
  "is_foreign (c\<lparr>cx_deferred := v1\<rparr>) x = is_foreign c x"
  "is_foreign (c\<lparr>cx_deferred_bytes := v2\<rparr>) x = is_foreign c x"
  by (rule is_foreign_cong; simp)+

lemma claim_foreign: "\<not> is_foreign (fst s) x \<Longrightarrow> \<not> is_foreign (fst (claim_child tid parent s)) x"
  by (cases x) (auto simp: out_defs)

lemma shrinks_same:
  "cx_deferred (fst t) = cx_deferred (fst s) \<Longrightarrow> cx_thread_id (fst t) = cx_thread_id (fst s) \<Longrightarrow>
   cx_child_parent_tools (fst t) = cx_child_parent_tools (fst s) \<Longrightarrow>
   cx_next_deferred_sequence (fst t) = cx_next_deferred_sequence (fst s) \<Longrightarrow> shrinks s t"
  using keyed_cong [of "fst t" "fst s"] is_foreign_cong [of "fst t" "fst s"] by (simp add: shrinks_def)

lemma request_claimed:
  assumes "\<not> is_foreign c (request_thread v)"
    and "handle_server_request jtext now run_id m v c = Some (c', r)"
  shows "c' = c\<lparr>cx_pending := cx_pending c'\<rparr>"
  using assms(2)
proof (cases rule: server_request_cases)
  case (deferred k fr)
  then show ?thesis using assms(1) by simp
qed auto

interpretation shrinking: driver_relation jtext now run_id shrinks keyed
  "\<lambda>c m. \<not> is_foreign c (message_thread m)" "\<lambda>c t. \<not> is_foreign c (Some t)"
  for jtext now run_id
proof
  fix s :: driver_out and m v c' r
  assume "\<not> is_foreign (fst s) (message_thread (Interactive m v))"
    and "handle_server_request jtext now run_id m v (fst s) = Some (c', r)"
  then have "c' = (fst s)\<lparr>cx_pending := cx_pending c'\<rparr>"
    using request_claimed [of "fst s" v] by (simp add: request_thread_def)
  then have "cx_deferred c' = cx_deferred (fst s) \<and> cx_thread_id c' = cx_thread_id (fst s)
      \<and> cx_child_parent_tools c' = cx_child_parent_tools (fst s)
      \<and> cx_next_deferred_sequence c' = cx_next_deferred_sequence (fst s)" by (cases c'; cases "fst s") simp
  then show "shrinks s (c', merge_replayed (snd s) r)" by (auto intro: shrinks_same)
next
  fix s t :: driver_out and params
  assume "t \<in> set (own_arms run_id params s)"
  from own_arms_frame [OF this] show "shrinks s t" by (auto intro: shrinks_same simp: arm_frame_def)
next
  fix s t u :: driver_out
  assume "shrinks s t" "shrinks t u"
  then show "shrinks s u" by (auto simp: shrinks_def)
next
  fix s t :: driver_out and msg
  assume "shrinks s t" "\<not> is_foreign (fst s) (message_thread msg)"
  then show "\<not> is_foreign (fst t) (message_thread msg)" by (simp add: shrinks_def)
next
  fix c tid q e
  assume "keyed c" "\<not> is_foreign c (Some tid)" "map_of (cx_deferred c) tid = Some q" "e \<in> set q"
  then show "\<not> is_foreign c (message_thread (de_message e))" using keyed_entry by simp
next
  fix s :: driver_out and tid
  have "length (hm_remove tid (cx_deferred (fst s))) \<le> length (cx_deferred (fst s))"
    by (simp add: hm_remove_def length_delete_le)
  then show "shrinks s ((fst s)\<lparr>cx_deferred := hm_remove tid (cx_deferred (fst s))\<rparr>, snd s)"
    by (simp add: shrinks_def keyed_drop)
next
  fix s :: driver_out and tid parent
  show "shrinks s (claim_child tid parent s)"
    using claim_foreign [of s] by (simp add: shrinks_def) (simp add: out_defs)
next
  fix s :: driver_out and tid parent
  show "\<not> is_foreign (fst (claim_child tid parent s)) (Some tid)" by (simp add: out_defs)
qed (auto simp: shrinks_same out_defs request_identity_frame, simp_all add: shrinks_def)

section \<open>The recursion returns\<close>

definition returns :: "nat \<Rightarrow> (string \<Rightarrow> json \<Rightarrow> driver_out \<Rightarrow> driver_out option) \<Rightarrow> bool" where
  "returns fuel handle =
     (\<forall>m params n s. keyed (fst s) \<longrightarrow> buffer_slack n (fst s) \<longrightarrow>
        \<not> is_foreign (fst s) (get_str params ''threadId'') \<longrightarrow> length (cx_deferred (fst s)) < fuel \<longrightarrow>
        (\<exists>t. handle m params s = Some t \<and> buffer_slack n (fst t)))"

abbreviation handler where
  "handler fuel jtext now run_id \<equiv> (\<lambda>m p t. handle_notification fuel jtext now run_id m p t)"

lemma server_request_returns:
  assumes "\<not> is_foreign c (request_thread v)" "buffer_slack n c"
  shows "\<exists>c' r. handle_server_request jtext now run_id m v c = Some (c', r) \<and> buffer_slack n c'"
proof -
  have "handle_server_request jtext now run_id m v c \<noteq> None"
    using assms(1) by (simp add: handle_server_request_def request_thread_def Let_def split: option.split)
  then obtain c' r where h: "handle_server_request jtext now run_id m v c = Some (c', r)" by fastforce
  have "c' = c\<lparr>cx_pending := cx_pending c'\<rparr>" by (rule request_claimed [OF assms(1) h])
  then have "cx_deferred c' = cx_deferred c \<and> cx_deferred_bytes c' = cx_deferred_bytes c
      \<and> cx_next_deferred_sequence c' = cx_next_deferred_sequence c" by (cases c'; cases c) simp
  then show ?thesis using h assms(2) buffer_slack_cong [of c' c] by blast
qed

lemma replay_entry_returns:
  assumes ret: "returns fuel handle"
    and "keyed (fst s)" "buffer_slack (de_payload_bytes e + n) (fst s)"
    "\<not> is_foreign (fst s) (message_thread (de_message e))" "length (cx_deferred (fst s)) < fuel"
  shows "\<exists>t. replay_entry jtext now run_id handle e s = Some t \<and> buffer_slack n (fst t)"
proof -
  let ?c = "(fst s)\<lparr>cx_deferred_bytes := cx_deferred_bytes (fst s) - de_payload_bytes e\<rparr>"
  have b: "buffer_slack n ?c" using buffer_slack_entry [OF assms(3)] .
  have f: "\<not> is_foreign ?c (message_thread (de_message e))" "keyed ?c" "length (cx_deferred ?c) < fuel"
    using assms by simp_all
  show ?thesis
  proof (cases "DEFERRED_MESSAGE_TTL \<le> now - de_received_at e")
    case True
    then show ?thesis using b by (simp add: replay_entry_def Let_def out_defs)
  next
    case False
    show ?thesis
    proof (cases "de_message e")
      case (Notification m p)
      then have "\<exists>t. handle m p (?c, snd s) = Some t \<and> buffer_slack n (fst t)"
        using ret f b unfolding returns_def by (metis fst_conv message_thread_simps(1))
      then show ?thesis using False Notification by (simp add: replay_entry_def Let_def)
    next
      case (Interactive m v)
      then obtain c' r where "handle_server_request jtext now run_id m v ?c = Some (c', r)" "buffer_slack n c'"
        using server_request_returns [of ?c v n jtext now run_id m] f(1) b by (auto simp: request_thread_def)
      then show ?thesis using False Interactive by (simp add: replay_entry_def Let_def)
    qed
  qed
qed

lemma replay_queue_returns:
  assumes ret: "returns fuel (handler k jtext now run_id)"
  shows "keyed (fst s) \<Longrightarrow> buffer_slack (queue_bytes q + n) (fst s) \<Longrightarrow>
    \<forall>e\<in>set q. \<not> is_foreign (fst s) (message_thread (de_message e)) \<Longrightarrow> length (cx_deferred (fst s)) < fuel \<Longrightarrow>
    \<exists>t. replay_queue jtext now run_id (handler k jtext now run_id) q s = Some t \<and> buffer_slack n (fst t)"
proof (induction q arbitrary: s)
  case Nil
  then show ?case by (simp add: queue_bytes_def)
next
  case (Cons e q)
  have "buffer_slack (de_payload_bytes e + (queue_bytes q + n)) (fst s)"
    using Cons.prems(2) by (simp add: queue_bytes_def add.assoc)
  then obtain u where u: "replay_entry jtext now run_id (handler k jtext now run_id) e s = Some u"
    "buffer_slack (queue_bytes q + n) (fst u)"
    using replay_entry_returns [OF ret Cons.prems(1), of e "queue_bytes q + n" jtext now run_id] Cons.prems(3,4)
    by auto
  have sh: "shrinks s u"
    using shrinking.replay_entry_rel [OF shrinking.handle_respected Cons.prems(1) _ u(1)] Cons.prems(3) by simp
  then have "\<exists>t. replay_queue jtext now run_id (handler k jtext now run_id) q u = Some t \<and> buffer_slack n (fst t)"
    using Cons.IH [of u] u(2) Cons.prems by (auto simp: shrinks_def)
  then show ?case using u(1) by simp
qed

lemma replay_returns:
  assumes "returns fuel (handler k jtext now run_id)" "keyed (fst s)" "buffer_slack n (fst s)"
    and "\<not> is_foreign (fst s) (Some tid)" "length (cx_deferred (fst s)) \<le> fuel"
  shows "\<exists>t. replay_deferred_thread jtext now run_id (handler k jtext now run_id) tid s = Some t
    \<and> buffer_slack n (fst t)"
proof (cases "map_of (cx_deferred (fst s)) tid")
  case None
  then show ?thesis using assms(3) by (simp add: replay_deferred_thread_def)
next
  case (Some q)
  let ?u = "((fst s)\<lparr>cx_deferred := hm_remove tid (cx_deferred (fst s))\<rparr>, snd s)"
  note d = buffer_slack_drop [OF assms(3) Some]
  have "\<forall>e\<in>set q. \<not> is_foreign (fst ?u) (message_thread (de_message e))"
    using keyed_entry [OF assms(2) Some] assms(4) by simp
  then have "\<exists>t. replay_queue jtext now run_id (handler k jtext now run_id) q ?u = Some t \<and> buffer_slack n (fst t)"
    using replay_queue_returns [OF assms(1), of ?u q n] keyed_drop [OF assms(2)] d assms(5) by simp
  then show ?thesis using Some by (simp add: replay_deferred_thread_def)
qed

lemma register_returns:
  assumes ret: "returns fuel (handler k jtext now run_id)"
  shows "keyed (fst s) \<Longrightarrow> buffer_slack n (fst s) \<Longrightarrow> length (cx_deferred (fst s)) \<le> fuel \<Longrightarrow>
    \<exists>t. register_threads (replay_deferred_thread jtext now run_id (handler k jtext now run_id)) parent tids s = Some t
      \<and> buffer_slack n (fst t)"
proof (induction tids arbitrary: s)
  case (Cons tid tids)
  show ?case
  proof (cases "tid = []")
    case True
    then show ?thesis using Cons by simp
  next
    case False
    let ?r = "if parent = [] then Some s
      else replay_deferred_thread jtext now run_id (handler k jtext now run_id) tid (claim_child tid parent s)"
    have "\<exists>u. ?r = Some u \<and> buffer_slack n (fst u) \<and> shrinks s u"
    proof (cases "parent = []")
      case True
      then show ?thesis using Cons.prems by (auto intro: shrinks_same)
    next
      case p: False
      let ?s = "claim_child tid parent s"
      have k: "keyed (fst ?s)" "buffer_slack n (fst ?s)" "length (cx_deferred (fst ?s)) \<le> fuel"
        "\<not> is_foreign (fst ?s) (Some tid)"
        using Cons.prems buffer_slack_cong [of "fst ?s" "fst s" n] by (simp_all add: out_defs)
      then obtain u where u: "replay_deferred_thread jtext now run_id (handler k jtext now run_id) tid ?s = Some u"
        "buffer_slack n (fst u)"
        using replay_returns [OF ret k(1,2,4,3)] by blast
      have "shrinks ?s u" using shrinking.replay_rel [OF shrinking.handle_respected k(1,4) u(1)] .
      then have "shrinks s u" using shrinking.R_claim [OF False p] shrinking.R_trans by blast
      then show ?thesis using u p by auto
    qed
    then obtain u where u: "?r = Some u" "buffer_slack n (fst u)" "shrinks s u" by blast
    let ?v = "request_identity tid u"
    have "shrinks s ?v" using u(3) shrinking.R_identity shrinking.R_trans by blast
    then have "keyed (fst ?v)" "length (cx_deferred (fst ?v)) \<le> fuel"
      using Cons.prems by (auto simp: shrinks_def)
    moreover have "buffer_slack n (fst ?v)"
      using u(2) buffer_slack_cong [of "fst ?v" "fst u" n] by (simp add: request_identity_frame)
    ultimately show ?thesis using Cons.IH [of ?v] u(1) False by (simp split: if_splits)
  qed
qed simp

lemma claimed_some:
  assumes "\<And>item evs. reg item parent (add_events evs s) \<noteq> None"
  shows "claimed_notification reg run_id m params parent s \<noteq> None"
  using assms unfolding claimed_notification_def by (simp split: option.split)

lemma handler_returns: "returns fuel (handler fuel jtext now run_id)"
proof (induction fuel)
  case 0
  then show ?case by (simp add: returns_def)
next
  case (Suc fuel)
  show ?case unfolding returns_def
  proof (intro allI impI)
    fix m params n and s :: driver_out
    assume k: "keyed (fst s)" and b: "buffer_slack n (fst s)"
      and f: "\<not> is_foreign (fst s) (get_str params ''threadId'')" and l: "length (cx_deferred (fst s)) < Suc fuel"
    let ?parent = "Option.bind (get_str params ''threadId'') (cx_child_parent_tools (fst s))"
    let ?reg = "register_subagents (replay_deferred_thread jtext now run_id (handler fuel jtext now run_id))"
    show "\<exists>t. handle_notification (Suc fuel) jtext now run_id m params s = Some t \<and> buffer_slack n (fst t)"
    proof (cases "?parent \<noteq> None \<and> m \<notin> set child_methods")
      case True
      then show ?thesis using b f by (simp add: Let_def)
    next
      case False
      have reg: "\<exists>t. ?reg item p (add_events evs s) = Some t \<and> buffer_slack n (fst t)" for item p evs
        unfolding register_subagents_def
        by (rule register_returns [OF Suc]) (use k b l in \<open>simp_all add: out_defs\<close>)
      have "?reg item p (add_events evs s) \<noteq> None" for item p evs using reg [of item p evs] by auto
      then have "claimed_notification ?reg run_id m params ?parent s \<noteq> None" by (intro claimed_some) blast
      then obtain t where
        t: "claimed_notification ?reg run_id m params ?parent s = Some t" by fastforce
      have "''thread/started'' \<notin> set child_methods" by (simp add: child_methods_def)
      then have "?parent = None \<or> m \<noteq> ''thread/started''" using False by auto
      then have arms: "arm_results ?reg run_id m params ?parent s t" using claimed_arms t by blast
      have own: "buffer_slack n (fst u)" if "u \<in> set (own_arms run_id params s)" for u
      proof -
        have "arm_frame run_id s u" using own_arms_frame that by blast
        then have "buffer_slack n (fst u) = buffer_slack n (fst s)"
          by (intro buffer_slack_cong) (simp_all add: arm_frame_def)
        then show ?thesis using b by simp
      qed
      have regd: "buffer_slack n (fst u)" if "?reg item p (add_events evs s) = Some u" for item p evs u
        using reg [of item p evs] that by simp
      have evs: "buffer_slack n (fst (add_events es s))" for es using b by (simp add: out_defs)
      have "buffer_slack n (fst t)"
        using arms unfolding arm_results_def
      proof (elim disjE exE conjE)
        assume "t = s"
        then show ?thesis using b by simp
      next
        assume "t = add_events (notification_events run_id m params (?parent \<noteq> None) ?parent) s"
        then show ?thesis using evs by simp
      qed (rule own regd, assumption)+
      moreover have "handle_notification (Suc fuel) jtext now run_id m params s
          = claimed_notification ?reg run_id m params ?parent s"
        unfolding handle_notification.simps Let_def by (simp only: f False simp_thms if_False)
      ultimately show ?thesis using t by simp
    qed
  qed
qed

section \<open>Lines\<close>

text \<open>What one line does to the buffer.\<close>

definition line_ok :: "codex_app_server \<Rightarrow> codex_app_server \<Rightarrow> bool" where
  "line_ok c c' =
     (buffer_ok c' \<and> keyed c' \<and> cx_next_deferred_sequence c' \<le> cx_next_deferred_sequence c + 1)"

lemma line_ok_same:
  assumes "buffer_ok c" "keyed c" "cx_deferred c' = cx_deferred c"
    "cx_deferred_bytes c' = cx_deferred_bytes c" "cx_next_deferred_sequence c' = cx_next_deferred_sequence c"
  shows "line_ok c c'"
proof -
  have "total_bytes c' = total_bytes c" using assms(3) by (simp add: total_bytes_def)
  then show ?thesis
    using assms keyed_cong [OF assms(3)] unfolding line_ok_def buffer_ok_def by simp
qed

lemma defer_line_ok:
  assumes "buffer_ok c" "keyed c" "cx_next_deferred_sequence c + 1 < 2 ^ 64" "message_thread msg = Some t"
  shows "\<exists>ok c' fr. defer_thread_message jtext now t msg c = Some (ok, c', fr) \<and> line_ok c c'"
proof -
  obtain ok c' fr where d: "defer_thread_message jtext now t msg c = Some (ok, c', fr)" "buffer_ok c'"
    "cx_next_deferred_sequence c' \<le> cx_next_deferred_sequence c + 1" using defer_returns [OF assms(1,3)] by blast
  then show ?thesis using keyed_defer [OF assms(2,4) d(1)] by (auto simp: line_ok_def)
qed

lemma notification_returns:
  assumes "buffer_ok c" "keyed c" "cx_next_deferred_sequence c + 1 < 2 ^ 64"
  shows "\<exists>c' out. handle_notification (replay_fuel c) jtext now run_id m params (c, o1) = Some (c', out)
    \<and> line_ok c c'"
proof (cases "is_foreign c (get_str params ''threadId'')")
  case False
  have "\<exists>t. handle_notification (replay_fuel c) jtext now run_id m params (c, o1) = Some t \<and> buffer_slack 0 (fst t)"
    using handler_returns [of "replay_fuel c" jtext now run_id] assms(1,2) False
    unfolding returns_def by (metis buffer_slack_0 fst_conv lessI replay_fuel_def)
  then obtain c' out where h: "handle_notification (replay_fuel c) jtext now run_id m params (c, o1) = Some (c', out)"
    "buffer_ok c'" by (auto simp: buffer_slack_0)
  have "shrinks (c, o1) (c', out)" using shrinking.handle_rel [OF h(1)] assms(2) False by simp
  then show ?thesis using h assms(2) by (auto simp: shrinks_def line_ok_def)
next
  case True
  then obtain t where t: "get_str params ''threadId'' = Some t" using foreign_thread by blast
  obtain ok c' fr where d: "defer_thread_message jtext now t (Notification m params) c = Some (ok, c', fr)"
    "line_ok c c'" using defer_line_ok [OF assms, of "Notification m params" t jtext now] t by auto
  show ?thesis
  proof (cases "m = ''thread/started''")
    case True
    let ?s = "on_thread_started params (c, o1)"
    have "arm_frame run_id (c, o1) ?s" by (rule own_arms_frame [of _ _ params]) (simp add: own_arms_def)
    then have "line_ok c (fst ?s)" using assms(1,2) by (intro line_ok_same) (simp_all add: arm_frame_def)
    moreover have "handle_notification (replay_fuel c) jtext now run_id m params (c, o1) = Some ?s"
      using True \<open>is_foreign c (get_str params ''threadId'')\<close> t
      by (simp add: replay_fuel_def claimed_notification_def)
    ultimately show ?thesis by (metis prod.collapse)
  next
    case False
    then show ?thesis using d True t by (simp add: replay_fuel_def out_defs)
  qed
qed

lemma server_request_line:
  assumes "buffer_ok c" "keyed c" "cx_next_deferred_sequence c + 1 < 2 ^ 64"
  shows "\<exists>c' r. handle_server_request jtext now run_id m v c = Some (c', r) \<and> line_ok c c'"
proof (cases "is_foreign c (request_thread v)")
  case False
  then obtain c' r where h: "handle_server_request jtext now run_id m v c = Some (c', r)"
    using server_request_returns [of c v 0] assms(1) buffer_slack_0 by blast
  have "c' = c\<lparr>cx_pending := cx_pending c'\<rparr>" by (rule request_claimed [OF False h])
  then have "cx_deferred c' = cx_deferred c \<and> cx_deferred_bytes c' = cx_deferred_bytes c
      \<and> cx_next_deferred_sequence c' = cx_next_deferred_sequence c" by (cases c'; cases c) simp
  then have "line_ok c c'" using assms by (intro line_ok_same) simp_all
  then show ?thesis using h by blast
next
  case True
  then obtain t where t: "request_thread v = Some t" using foreign_thread by blast
  obtain ok c' fr where d: "defer_thread_message jtext now t (Interactive m v) c = Some (ok, c', fr)"
    "line_ok c c'" using defer_line_ok [OF assms, of "Interactive m v" t jtext now] t by (auto simp: request_thread_def)
  have same: "line_ok c c" using assms by (intro line_ok_same) simp_all
  show ?thesis
  proof (cases "\<not> is_legacy_interactive_method m \<and> t = []")
    case True
    then show ?thesis using t same by (simp add: handle_server_request_def request_thread_def Let_def)
  next
    case False
    then show ?thesis
      using d \<open>is_foreign c (request_thread v)\<close> t
      by (auto simp: handle_server_request_def request_thread_def Let_def)
  qed
qed

lemma open_line:
  assumes "buffer_ok c" "keyed c"
  shows "\<exists>c' out. open_thread jtext now run_id msg c = Some (c', out) \<and> line_ok c c'"
proof (cases "cx_thread_id c = None \<and> Option.bind (jget_opt (jget_opt (jget msg ''result'') ''thread'') ''id'') as_str \<noteq> None")
  case False
  then have "open_thread jtext now run_id msg c = Some (c\<lparr>cx_phase := Ready\<rparr>, parsed_line_default)"
    by (auto simp: open_thread_def split: option.split)
  moreover have "line_ok c (c\<lparr>cx_phase := Ready\<rparr>)" using assms by (intro line_ok_same) simp_all
  ultimately show ?thesis by blast
next
  case True
  then obtain tid where tid: "Option.bind (jget_opt (jget_opt (jget msg ''result'') ''thread'') ''id'') as_str = Some tid"
    by blast
  let ?s = "(c\<lparr>cx_thread_id := Some tid\<rparr>, parsed_line_default\<lparr>pl_thread_id := Some tid\<rparr>)"
  have b: "buffer_slack 0 (fst ?s)" using assms(1) buffer_slack_0 buffer_slack_cong [of "fst ?s" c 0] by simp
  obtain t where t: "replay_deferred_thread jtext now run_id (handler (replay_fuel c) jtext now run_id) tid ?s = Some t"
    "buffer_slack 0 (fst t)"
    using replay_returns [OF handler_returns [of "replay_fuel c" jtext now run_id] _ b, of tid] assms(2)
    by (auto simp: replay_fuel_def)
  have "shrinks ?s t"
    using shrinking.replay_rel [OF shrinking.handle_respected _ _ t(1)] assms(2) by simp
  then have "line_ok c (fst t)" using t(2) assms(2) by (simp add: shrinks_def line_ok_def buffer_slack_0)
  then have "line_ok c ((fst t)\<lparr>cx_phase := Ready\<rparr>)"
    by (simp add: line_ok_def buffer_ok_def total_bytes_def)
  moreover have "open_thread jtext now run_id msg c = Some ((fst t)\<lparr>cx_phase := Ready\<rparr>, snd t)"
    using True tid t(1) by (simp add: open_thread_def)
  ultimately show ?thesis by blast
qed

lemma line_returns:
  assumes "buffer_ok c" "keyed c" "cx_next_deferred_sequence c + 1 < 2 ^ 64"
  shows "\<exists>c' out. parse_line jparse jtext now run_id line c = Some (c', out) \<and> line_ok c c'"
proof -
  have same: "line_ok c c" using assms by (intro line_ok_same) simp_all
  have reply: "\<exists>c' out. handle_reply jtext now run_id msg c = Some (c', out) \<and> line_ok c c'" for msg
  proof -
    have "line_ok c (c\<lparr>cx_internal_waiters := f\<rparr>)" "line_ok c (c\<lparr>cx_client_waiters := f\<rparr>)" for f
      using assms by (auto intro: line_ok_same)
    then show ?thesis
      using open_line [OF assms(1,2)] same by (auto simp: handle_reply_def Let_def split: option.split)
  qed
  have "\<exists>c' out. handle_message jtext now run_id msg c = Some (c', out) \<and> line_ok c c'" for msg
    using reply [of msg] same notification_returns [OF assms] server_request_line [OF assms]
    by (auto simp: handle_message_def split: option.split)
  then show ?thesis using same by (auto simp: parse_line_def Let_def split: option.split)
qed

text \<open>C26: a Codex driver parses every line: from a driver whose buffer is in order, any number of
  lines below the width of the sequence counter is read without the recursion of the replays or
  the eviction loops running out.\<close>

theorem lines_always_parse:
  assumes "buffer_ok c" "keyed c" "cx_next_deferred_sequence c + length ls < 2 ^ 64"
  shows "\<exists>frames. parse_frames jparse jtext run_id ls c = Some frames"
  using assms
proof (induction ls arbitrary: c)
  case (Cons x ls)
  obtain now line where x: "x = (now, line)" by fastforce
  have "cx_next_deferred_sequence c + 1 < 2 ^ 64" using Cons.prems(3) by simp
  from line_returns [OF Cons.prems(1,2) this] obtain c' out where
    p: "parse_line jparse jtext now run_id line c = Some (c', out)" "line_ok c c'" by blast
  then obtain fr where "parse_frames jparse jtext run_id ls c' = Some fr"
    using Cons.IH [of c'] Cons.prems(3) by (auto simp: line_ok_def)
  then show ?case using p x by simp
qed simp

lemma new_keyed: "keyed codex_new"
  by (simp add: keyed_def all_deferred_def codex_new_def)

theorem lines_always_parse_witness:
  "\<exists>frames. parse_frames demo_rpc (\<lambda>v. []) ''r1'' [(0, ''C''), (1, ''S''), (2, ''A'')] codex_new = Some frames"
  by (rule lines_always_parse [OF new_buffer_ok new_keyed]) (simp add: codex_new_def)

text \<open>C29: a line keeps the buffer in order: its bounds, its byte counter and every message waiting
  under its own thread, whatever is replayed, evicted or deferred on the way.\<close>

theorem line_keeps_buffer:
  assumes "buffer_ok c" "keyed c" "cx_next_deferred_sequence c + 1 < 2 ^ 64"
    and "parse_line jparse jtext now run_id line c = Some (c', out)"
  shows "buffer_ok c' \<and> keyed c'"
  using line_returns [OF assms(1-3), of jparse jtext now run_id line] assms(4) by (auto simp: line_ok_def)

theorem line_keeps_buffer_witness:
  "\<exists>c' out. parse_line demo_rpc (\<lambda>v. []) 0 ''r1'' ''C'' codex_new = Some (c', out) \<and> buffer_ok c' \<and> keyed c'"
proof -
  have n: "cx_next_deferred_sequence codex_new + 1 < 2 ^ 64" by (simp add: codex_new_def)
  obtain c' out where "parse_line demo_rpc (\<lambda>v. []) 0 ''r1'' ''C'' codex_new = Some (c', out)"
    using line_returns [OF new_buffer_ok new_keyed n] by blast
  then show ?thesis using line_keeps_buffer [OF new_buffer_ok new_keyed n] by blast
qed

end
