(* ===== verification/Text_Lines.thy ===== *)
theory Text_Lines
  imports Prelude
begin

text \<open>
  Bytes as text, as the Rust standard library reads them: the lines of a byte string
  (\<open>str::lines\<close> and \<open>BufRead::lines\<close>), validity of UTF-8 (\<open>str::from\_utf8\<close>) and the lossy
  decoding that puts U+FFFD for every maximal invalid part (\<open>String::from\_utf8\_lossy\<close>).
  A log in which every line is closed by a newline is \<open>framed\<close>.
\<close>

section \<open>Lines\<close>

abbreviation nl :: char where
  "nl \<equiv> CHR 0x0A"

abbreviation cr :: char where
  "cr \<equiv> CHR 0x0D"

definition first_line :: "string \<Rightarrow> string" where
  "first_line s = takeWhile (\<lambda>c. c \<noteq> nl) s"

definition after_line :: "string \<Rightarrow> string" where
  "after_line s = dropWhile (\<lambda>c. c \<noteq> nl) s"

lemma line_parts: "first_line s @ after_line s = s"
  by (simp add: first_line_def after_line_def)

lemma after_line_length: "length (after_line s) \<le> length s"
  by (simp add: after_line_def length_dropWhile_le)

definition strip_cr :: "string \<Rightarrow> string" where
  "strip_cr l = (if l \<noteq> [] \<and> last l = cr then butlast l else l)"

text \<open>
  A line ends with a newline, or a carriage return and a newline; the last line may be open,
  and then keeps a bare carriage return.
\<close>

function str_lines :: "string \<Rightarrow> string list" where
  "str_lines s =
     (if s = [] then []
      else if after_line s = [] then [s]
      else strip_cr (first_line s) # str_lines (tl (after_line s)))"
  by pat_completeness auto
termination
proof (relation "measure length", simp, goal_cases)
  case (1 s)
  then show ?case using after_line_length [of s] by (cases "after_line s") auto
qed

declare str_lines.simps [simp del]

text \<open>\<open>str::split\_once('\n')\<close>: the text after the first newline, if there is one.\<close>

definition split_line :: "string \<Rightarrow> (string \<times> string) option" where
  "split_line s =
     (if after_line s = [] then None else Some (first_line s, tl (after_line s)))"

lemma take_to_newline: "nl \<notin> set l \<Longrightarrow> takeWhile (\<lambda>c. c \<noteq> nl) (l @ nl # s) = l"
  by (induction l) auto

lemma first_line_append: "nl \<notin> set l \<Longrightarrow> first_line (l @ nl # s) = l"
  by (simp add: first_line_def take_to_newline)

lemma after_line_append: "nl \<notin> set l \<Longrightarrow> after_line (l @ nl # s) = nl # s"
  unfolding after_line_def by (induction l) auto

lemma after_line_whole: "after_line s = [] \<longleftrightarrow> nl \<notin> set s"
  by (auto simp: after_line_def)

lemma after_line_head: "after_line s \<noteq> [] \<Longrightarrow> after_line s = nl # tl (after_line s)"
  unfolding after_line_def by (induction s) auto

lemma first_line_clean: "nl \<notin> set (first_line s)"
  unfolding first_line_def by (induction s) auto

lemma str_lines_Nil [simp]: "str_lines [] = []"
  by (simp add: str_lines.simps)

lemma str_lines_open: "nl \<notin> set s \<Longrightarrow> s \<noteq> [] \<Longrightarrow> str_lines s = [s]"
  by (simp add: str_lines.simps after_line_whole)

lemma str_lines_Cons:
  "nl \<notin> set l \<Longrightarrow> str_lines (l @ nl # s) = strip_cr l # str_lines s"
  by (subst str_lines.simps) (simp add: first_line_append after_line_append)

lemma split_line_append: "nl \<notin> set l \<Longrightarrow> split_line (l @ nl # s) = Some (l, s)"
  by (simp add: split_line_def first_line_append after_line_append)

section \<open>Framed logs\<close>

text \<open>The text of a list of lines, each closed by a newline, and what such a line must be.\<close>

definition framed :: "string list \<Rightarrow> string" where
  "framed ls = concat (map (\<lambda>l. l @ [nl]) ls)"

definition plain_line :: "string \<Rightarrow> bool" where
  "plain_line l = (l \<noteq> [] \<and> nl \<notin> set l \<and> last l \<noteq> cr)"

lemma framed_simps [simp]:
  "framed [] = []"
  "framed (l # ls) = l @ nl # framed ls"
  "framed (ls @ ms) = framed ls @ framed ms"
  by (simp_all add: framed_def)

lemma framed_empty_iff [simp]: "framed ls = [] \<longleftrightarrow> ls = []"
  by (cases ls) auto

lemma framed_last: "ls \<noteq> [] \<Longrightarrow> last (framed ls) = nl"
  by (cases ls rule: rev_cases) auto

lemma plain_lineD:
  "plain_line l \<Longrightarrow> nl \<notin> set l" "plain_line l \<Longrightarrow> l \<noteq> []" "plain_line l \<Longrightarrow> strip_cr l = l"
  by (simp_all add: plain_line_def strip_cr_def)

lemma lines_framed_append:
  assumes "\<And>l. l \<in> set ls \<Longrightarrow> plain_line l"
  shows "str_lines (framed ls @ t) = ls @ str_lines t"
  using assms by (induction ls) (simp_all add: str_lines_Cons plain_lineD)

lemma lines_framed:
  assumes "\<And>l. l \<in> set ls \<Longrightarrow> plain_line l"
  shows "str_lines (framed ls) = ls"
  using lines_framed_append [of ls "[]"] assms by simp

text \<open>Every text is a framed part followed by an open line.\<close>

fun closed_lines :: "string \<Rightarrow> string list" where
  "closed_lines [] = []"
| "closed_lines (c # s) =
     (if c = nl then [] # closed_lines s
      else if nl \<in> set s
        then (case closed_lines s of [] \<Rightarrow> [] | l # ls \<Rightarrow> (c # l) # ls)
        else [])"

definition open_line :: "string \<Rightarrow> string" where
  "open_line s = rev (takeWhile (\<lambda>c. c \<noteq> nl) (rev s))"

definition closed_length :: "string \<Rightarrow> nat" where
  "closed_length s = length s - length (open_line s)"

lemma closed_lines_empty: "nl \<notin> set s \<Longrightarrow> closed_lines s = []"
  by (cases s) auto

lemma closed_lines_nonempty: "nl \<in> set s \<Longrightarrow> closed_lines s \<noteq> []"
  by (induction s) (auto split: list.splits)

lemma open_line_clean: "nl \<notin> set (open_line s)"
proof
  assume "nl \<in> set (open_line s)"
  then have "nl \<in> set (takeWhile (\<lambda>c. c \<noteq> nl) (rev s))" by (simp add: open_line_def)
  then show False by (blast dest: set_takeWhileD)
qed

lemma open_line_whole: "nl \<notin> set s \<Longrightarrow> open_line s = s"
  unfolding open_line_def by (subst takeWhile_eq_all_conv [THEN iffD2]) auto

lemma open_line_Cons: "nl \<in> set s \<Longrightarrow> open_line (c # s) = open_line s"
  unfolding open_line_def by (simp add: takeWhile_append1)

lemma open_line_newline [simp]: "open_line (nl # s) = open_line s"
proof (cases "nl \<in> set s")
  case False
  then show ?thesis
    using take_to_newline [of "rev s" "[]"] by (simp add: open_line_whole) (simp add: open_line_def)
qed (simp add: open_line_Cons)

lemma framed_open: "framed (closed_lines s) @ open_line s = s"
proof (induction s)
  case Nil
  then show ?case by (simp add: open_line_def)
next
  case (Cons c s)
  show ?case
  proof (cases "c = nl")
    case True
    with Cons show ?thesis by simp
  next
    case False
    show ?thesis
    proof (cases "nl \<in> set s")
      case True
      with closed_lines_nonempty obtain l ls where "closed_lines s = l # ls"
        by (meson neq_Nil_conv)
      with Cons True False show ?thesis by (simp add: open_line_Cons)
    next
      case no: False
      with False show ?thesis by (simp add: open_line_whole closed_lines_empty)
    qed
  qed
qed

lemma open_line_framed_append: "nl \<notin> set t \<Longrightarrow> open_line (framed ls @ t) = t"
proof (induction ls rule: rev_induct)
  case Nil
  then show ?case by (simp add: open_line_whole)
next
  case (snoc l ls)
  then show ?case using take_to_newline [of "rev t" "rev l @ rev (framed ls)"]
    by (simp add: open_line_def)
qed

lemma open_line_framed [simp]: "open_line (framed ls) = []"
  using open_line_framed_append [of "[]" ls] by simp

lemma closed_length_framed_append:
  "nl \<notin> set t \<Longrightarrow> closed_length (framed ls @ t) = length (framed ls)"
  by (simp add: closed_length_def open_line_framed_append)

lemma take_closed: "take (closed_length s) s = framed (closed_lines s)"
proof -
  have "length s = length (framed (closed_lines s)) + length (open_line s)"
    using framed_open [of s] by (metis length_append)
  then show ?thesis
    using framed_open [of s] by (metis append_eq_conv_conj closed_length_def diff_add_inverse2)
qed

lemma drop_closed: "drop (closed_length s) s = open_line s"
proof -
  have "length s = length (framed (closed_lines s)) + length (open_line s)"
    using framed_open [of s] by (metis length_append)
  then show ?thesis
    using framed_open [of s] by (metis append_eq_conv_conj closed_length_def diff_add_inverse2)
qed

lemma open_line_empty_iff: "open_line s = [] \<longleftrightarrow> s = [] \<or> last s = nl"
  by (cases s rule: rev_cases) (auto simp: open_line_def)

lemma closed_lines_framed:
  "(\<And>l. l \<in> set ls \<Longrightarrow> nl \<notin> set l) \<Longrightarrow> nl \<notin> set t \<Longrightarrow> closed_lines (framed ls @ t) = ls"
proof (induction ls)
  case Nil
  then show ?case by (simp add: closed_lines_empty)
next
  case (Cons l ls)
  have "closed_lines (l @ nl # framed ls @ t) = l # closed_lines (framed ls @ t)"
    if "nl \<notin> set l" for l
    using that by (induction l) auto
  with Cons show ?case by simp
qed

section \<open>UTF-8\<close>

text \<open>
  The decoder of the standard library takes one character or, where the bytes are not one, the
  maximal part that could still have been one. A missing byte reads as 0, which continues
  nothing.
\<close>

definition byte_at :: "string \<Rightarrow> nat \<Rightarrow> nat" where
  "byte_at s i = (if i < length s then byte (s ! i) else 0)"

definition is_cont :: "nat \<Rightarrow> bool" where
  "is_cont n = (128 \<le> n \<and> n \<le> 191)"

definition second_of_three :: "nat \<Rightarrow> nat \<Rightarrow> bool" where
  "second_of_three a b =
     (if a = 224 then 160 \<le> b \<and> b \<le> 191
      else if a = 237 then 128 \<le> b \<and> b \<le> 159 else is_cont b)"

definition second_of_four :: "nat \<Rightarrow> nat \<Rightarrow> bool" where
  "second_of_four a b =
     (if a = 240 then 144 \<le> b \<and> b \<le> 191
      else if a = 244 then 128 \<le> b \<and> b \<le> 143 else is_cont b)"

definition decode :: "nat \<Rightarrow> nat \<Rightarrow> nat \<Rightarrow> nat \<Rightarrow> bool \<times> nat" where
  "decode a b c d =
     (if a < 128 then (True, 1)
      else if 194 \<le> a \<and> a \<le> 223 then (if is_cont b then (True, 2) else (False, 1))
      else if 224 \<le> a \<and> a \<le> 239 then
        (if \<not> second_of_three a b then (False, 1) else if \<not> is_cont c then (False, 2)
         else (True, 3))
      else if 240 \<le> a \<and> a \<le> 244 then
        (if \<not> second_of_four a b then (False, 1) else if \<not> is_cont c then (False, 2)
         else if \<not> is_cont d then (False, 3) else (True, 4))
      else (False, 1))"

definition utf8_step :: "string \<Rightarrow> bool \<times> nat" where
  "utf8_step s = decode (byte_at s 0) (byte_at s 1) (byte_at s 2) (byte_at s 3)"

definition step_size :: "string \<Rightarrow> nat" where
  "step_size s = snd (utf8_step s)"

definition step_ok :: "string \<Rightarrow> bool" where
  "step_ok s = fst (utf8_step s)"

lemma step_size_pos [simp]: "0 < step_size s"
  by (simp add: step_size_def utf8_step_def decode_def)

lemma ascii_continues_nothing:
  "b < 128 \<Longrightarrow> \<not> is_cont b"
  "b < 128 \<Longrightarrow> \<not> second_of_three a b"
  "b < 128 \<Longrightarrow> \<not> second_of_four a b"
  by (auto simp: is_cont_def second_of_three_def second_of_four_def)

lemma decode_short:
  "b < 128 \<Longrightarrow> decode a b c d = decode a 0 0 0"
  "c < 128 \<Longrightarrow> decode a b c d = decode a b 0 0"
  "d < 128 \<Longrightarrow> decode a b c d = decode a b c 0"
  by (simp_all add: decode_def ascii_continues_nothing)

lemma decode_size:
  "snd (decode a 0 0 0) \<le> Suc 0" "snd (decode a b 0 0) \<le> 2" "snd (decode a b c 0) \<le> 3"
  "snd (decode a b c d) \<le> 4"
  by (simp_all add: decode_def ascii_continues_nothing)

lemma byte_at_outside: "length s \<le> i \<Longrightarrow> byte_at s i = 0"
  by (simp add: byte_at_def)

lemma byte_at_append: "i < length s \<Longrightarrow> byte_at (s @ t) i = byte_at s i"
  by (simp add: byte_at_def nth_append)

lemma byte_at_next: "byte_at (s @ c # t) (length s) = byte c"
  by (simp add: byte_at_def)

lemma short_or_long:
  assumes "s \<noteq> []"
  obtains "length s = 1" | "length s = 2" | "length s = 3" | "4 \<le> length s"
proof -
  from assms have "0 < length s" by simp
  then have "length s = 1 \<or> length s = 2 \<or> length s = 3 \<or> 4 \<le> length s" by arith
  with that show thesis by blast
qed

lemma step_size_le:
  assumes "s \<noteq> []"
  shows "step_size s \<le> length s"
  using assms
proof (cases rule: short_or_long)
  case 4
  then show ?thesis
    using decode_size(4) [of "byte_at s 0" "byte_at s 1" "byte_at s 2" "byte_at s 3"]
    by (simp add: step_size_def utf8_step_def)
qed (simp_all add: step_size_def utf8_step_def byte_at_outside decode_size)

lemma utf8_step_append:
  assumes "s \<noteq> []" and "byte c < 128"
  shows "utf8_step (s @ c # t) = utf8_step s"
proof -
  note after = byte_at_next [of s c t]
  from assms(1) show ?thesis
  proof (cases rule: short_or_long)
    case 1
    with after assms(2) decode_short(1) [of "byte c" "byte_at s 0" "byte_at (s @ c # t) 2" "byte_at (s @ c # t) 3"]
    show ?thesis by (simp add: utf8_step_def byte_at_outside byte_at_append)
  next
    case 2
    with after assms(2) decode_short(2) [of "byte c" "byte_at s 0" "byte_at s 1" "byte_at (s @ c # t) 3"]
    show ?thesis by (simp add: utf8_step_def byte_at_outside byte_at_append)
  next
    case 3
    with after assms(2) decode_short(3) [of "byte c" "byte_at s 0" "byte_at s 1" "byte_at s 2"]
    show ?thesis by (simp add: utf8_step_def byte_at_outside byte_at_append)
  next
    case 4
    then show ?thesis using byte_at_append [of 0 s "c # t"] assms(1)
      by (simp add: utf8_step_def byte_at_append)
  qed
qed

lemma step_append:
  assumes "s \<noteq> []" and "byte c < 128"
  shows "step_ok (s @ c # t) = step_ok s" and "step_size (s @ c # t) = step_size s"
  using assms by (simp_all add: step_ok_def step_size_def utf8_step_append)

lemma step_ascii: "byte c < 128 \<Longrightarrow> step_ok (c # s)" "byte c < 128 \<Longrightarrow> step_size (c # s) = 1"
  by (simp_all add: step_ok_def step_size_def utf8_step_def decode_def byte_at_def)

function utf8_valid :: "string \<Rightarrow> bool" where
  "utf8_valid s = (if s = [] then True else step_ok s \<and> utf8_valid (drop (step_size s) s))"
  by pat_completeness auto
termination by (relation "measure length") auto

definition replacement :: string where
  "replacement = map char_of [239, 191, 189 :: nat]"

function utf8_lossy :: "string \<Rightarrow> string" where
  "utf8_lossy s =
     (if s = [] then []
      else (if step_ok s then take (step_size s) s else replacement)
             @ utf8_lossy (drop (step_size s) s))"
  by pat_completeness auto
termination by (relation "measure length") auto

declare utf8_valid.simps [simp del] utf8_lossy.simps [simp del]

lemma utf8_Nil [simp]: "utf8_valid []" "utf8_lossy [] = []"
  by (simp_all add: utf8_valid.simps utf8_lossy.simps)

lemma utf8_ascii_Cons:
  assumes "byte c < 128"
  shows "utf8_valid (c # s) = utf8_valid s" and "utf8_lossy (c # s) = c # utf8_lossy s"
  using step_ascii [OF assms, of s]
  by (simp_all add: utf8_valid.simps [of "c # s"] utf8_lossy.simps [of "c # s"])

text \<open>An ASCII byte ends whatever character was open, so text splits there.\<close>

lemma utf8_valid_split:
  assumes "byte c < 128"
  shows "utf8_valid (s @ c # t) \<longleftrightarrow> utf8_valid s \<and> utf8_valid t"
proof (induction s rule: utf8_valid.induct)
  case (1 s)
  show ?case
  proof (cases "s = []")
    case True
    then show ?thesis by (simp add: utf8_ascii_Cons assms)
  next
    case False
    with 1 assms step_size_le [OF False] show ?thesis
      by (subst (1 2) utf8_valid.simps) (auto simp: step_append)
  qed
qed

lemma utf8_lossy_split:
  assumes "byte c < 128"
  shows "utf8_lossy (s @ c # t) = utf8_lossy s @ c # utf8_lossy t"
proof (induction s rule: utf8_lossy.induct)
  case (1 s)
  show ?case
  proof (cases "s = []")
    case True
    then show ?thesis by (simp add: utf8_ascii_Cons assms)
  next
    case False
    with 1 assms step_size_le [OF False] show ?thesis
      by (subst (1 2) utf8_lossy.simps) (auto simp: step_append)
  qed
qed

lemma utf8_lossy_valid: "utf8_valid s \<Longrightarrow> utf8_lossy s = s"
proof (induction s rule: utf8_valid.induct)
  case (1 s)
  then show ?case
    using utf8_valid.simps [of s] by (cases "s = []") (simp_all add: utf8_lossy.simps [of s])
qed

lemma byte_nl [simp]: "byte nl = 10"
  by (simp add: byte_def)

lemma utf8_framed:
  "utf8_valid (framed ls @ t) \<longleftrightarrow> (\<forall>l\<in>set ls. utf8_valid l) \<and> utf8_valid t"
  by (induction ls) (simp_all add: utf8_valid_split)

lemma utf8_ascii: "(\<And>c. c \<in> set s \<Longrightarrow> byte c < 128) \<Longrightarrow> utf8_valid s"
  by (induction s) (simp_all add: utf8_ascii_Cons)

text \<open>Decoding puts no newline into an open line.\<close>

lemma utf8_lossy_no_newline: "nl \<notin> set s \<Longrightarrow> nl \<notin> set (utf8_lossy s)"
proof (induction s rule: utf8_lossy.induct)
  case (1 s)
  have "nl \<notin> set replacement" by code_simp
  with 1 show ?case
    by (subst utf8_lossy.simps) (auto dest: in_set_takeD in_set_dropD)
qed

section \<open>UTF-8 in chunks\<close>

function valid_up_to :: "string \<Rightarrow> nat" where
  "valid_up_to s =
     (if s = [] \<or> \<not> step_ok s then 0 else step_size s + valid_up_to (drop (step_size s) s))"
  by pat_completeness auto
termination by (relation "measure length") auto

declare valid_up_to.simps [simp del]

lemma valid_up_to_step:
  "s \<noteq> [] \<Longrightarrow> step_ok s \<Longrightarrow>
     valid_up_to s = step_size s + valid_up_to (drop (step_size s) s)"
  by (subst valid_up_to.simps) simp

lemma utf8_valid_step:
  "s \<noteq> [] \<Longrightarrow> utf8_valid s = (step_ok s \<and> utf8_valid (drop (step_size s) s))"
  by (subst utf8_valid.simps) simp

text \<open>\<open>error\_len\<close> is \<open>None\<close>.\<close>

definition cut_off :: "string \<Rightarrow> bool" where
  "cut_off s =
     (s \<noteq> [] \<and> \<not> step_ok s \<and> step_size s = length s \<and> 194 \<le> byte_at s 0 \<and> byte_at s 0 \<le> 244)"

section \<open>Cutting a valid text\<close>

text \<open>A character that lies within the first part is read the same there.\<close>

lemma decode_shape:
  "fst (decode a b c d) \<Longrightarrow> snd (decode a b c d) = 1 \<Longrightarrow> a < 128"
  "fst (decode a b c d) \<Longrightarrow> snd (decode a b c d) = 2 \<Longrightarrow> 194 \<le> a \<and> a \<le> 223 \<and> is_cont b"
  "fst (decode a b c d) \<Longrightarrow> snd (decode a b c d) = 3 \<Longrightarrow>
     224 \<le> a \<and> a \<le> 239 \<and> second_of_three a b \<and> is_cont c"
  by (simp_all add: decode_def split: if_splits)

lemma decode_local:
  "fst (decode a b c d) \<Longrightarrow> snd (decode a b c d) = 1 \<Longrightarrow> decode a b' c' d' = decode a b c d"
  "fst (decode a b c d) \<Longrightarrow> snd (decode a b c d) = 2 \<Longrightarrow> decode a b c' d' = decode a b c d"
  "fst (decode a b c d) \<Longrightarrow> snd (decode a b c d) = 3 \<Longrightarrow> decode a b c d' = decode a b c d"
  by (frule (1) decode_shape, simp add: decode_def)+

lemma decode_sizes: "snd (decode a b c d) \<in> {1, 2, 3, 4}"
  by (simp add: decode_def)

lemma step_within:
  assumes ok: "step_ok (s @ t)" and size: "step_size (s @ t) \<le> length s"
  shows "utf8_step s = utf8_step (s @ t)"
proof -
  let ?d = "decode (byte_at (s @ t) 0) (byte_at (s @ t) 1) (byte_at (s @ t) 2) (byte_at (s @ t) 3)"
  have d: "fst ?d" "snd ?d \<le> length s"
    using assms by (simp_all add: step_ok_def step_size_def utf8_step_def)
  consider "snd ?d = 1" | "snd ?d = 2" | "snd ?d = 3" | "snd ?d = 4"
    using decode_sizes by blast
  then show ?thesis
  proof cases
    case 1
    then have "byte_at s 0 = byte_at (s @ t) 0" using d(2) by (intro byte_at_append [symmetric]) linarith
    then show ?thesis
      using decode_local(1) [OF d(1) 1, of "byte_at s 1" "byte_at s 2" "byte_at s 3"]
      by (simp only: utf8_step_def)
  next
    case 2
    then have "byte_at s i = byte_at (s @ t) i" if "i < 2" for i
      using d(2) that by (intro byte_at_append [symmetric]) simp
    then show ?thesis
      using decode_local(2) [OF d(1) 2, of "byte_at s 2" "byte_at s 3"]
      by (simp add: utf8_step_def)
  next
    case 3
    then have "byte_at s i = byte_at (s @ t) i" if "i < 3" for i
      using d(2) that by (intro byte_at_append [symmetric]) simp
    then show ?thesis
      using decode_local(3) [OF d(1) 3, of "byte_at s 3"] by (simp add: utf8_step_def)
  next
    case 4
    then have "byte_at s i = byte_at (s @ t) i" if "i < 4" for i
      using d(2) that by (intro byte_at_append [symmetric]) simp
    then show ?thesis unfolding utf8_step_def by simp
  qed
qed

text \<open>A character that does not fit is cut off.\<close>

lemma decode_cut:
  "fst (decode a b c d) \<Longrightarrow> 1 < snd (decode a b c d) \<Longrightarrow>
     decode a 0 0 0 = (False, 1) \<and> 194 \<le> a \<and> a \<le> 244"
  "fst (decode a b c d) \<Longrightarrow> 2 < snd (decode a b c d) \<Longrightarrow>
     decode a b 0 0 = (False, 2) \<and> 194 \<le> a \<and> a \<le> 244"
  "fst (decode a b c d) \<Longrightarrow> 3 < snd (decode a b c d) \<Longrightarrow>
     decode a b c 0 = (False, 3) \<and> 194 \<le> a \<and> a \<le> 244"
  by (auto simp: decode_def ascii_continues_nothing split: if_splits)

lemma step_cut:
  assumes ok: "step_ok (s @ t)" and size: "length s < step_size (s @ t)" and s: "s \<noteq> []"
  shows "cut_off s"
proof -
  let ?d = "decode (byte_at (s @ t) 0) (byte_at (s @ t) 1) (byte_at (s @ t) 2) (byte_at (s @ t) 3)"
  have d: "fst ?d" "length s < snd ?d"
    using assms by (simp_all add: step_ok_def step_size_def utf8_step_def)
  note at = byte_at_append byte_at_outside
  from s show ?thesis
  proof (cases rule: short_or_long)
    case 1
    with d decode_cut(1) show ?thesis
      by (auto simp: cut_off_def step_ok_def step_size_def utf8_step_def at s)
  next
    case 2
    with d decode_cut(2) show ?thesis
      by (auto simp: cut_off_def step_ok_def step_size_def utf8_step_def at s)
  next
    case 3
    with d decode_cut(3) show ?thesis
      by (auto simp: cut_off_def step_ok_def step_size_def utf8_step_def at s)
  next
    case 4
    with d decode_size(4) [of "byte_at (s @ t) 0" "byte_at (s @ t) 1" "byte_at (s @ t) 2"
        "byte_at (s @ t) 3"]
    show ?thesis by simp
  qed
qed

lemma valid_step:
  "utf8_valid s \<Longrightarrow> s \<noteq> [] \<Longrightarrow> step_ok s" "utf8_valid s \<Longrightarrow> utf8_valid (drop (step_size s) s)"
  by (subst (asm) utf8_valid.simps, simp)
     (cases "s = []", simp, subst (asm) utf8_valid.simps, simp)

lemma cut_not_valid: "cut_off s \<Longrightarrow> \<not> utf8_valid s" "cut_off s \<Longrightarrow> valid_up_to s = 0"
  by (subst utf8_valid.simps, simp add: cut_off_def)
     (subst valid_up_to.simps, simp add: cut_off_def)

lemma valid_parts:
  assumes "utf8_valid (s @ t)"
  shows "valid_up_to s \<le> length s \<and> utf8_valid (drop (valid_up_to s) s @ t) \<and>
         (utf8_valid s \<longleftrightarrow> drop (valid_up_to s) s = []) \<and>
         (drop (valid_up_to s) s = [] \<or> cut_off (drop (valid_up_to s) s))"
  using assms
proof (induction s rule: valid_up_to.induct)
  case (1 s)
  show ?case
  proof (cases "s = []")
    case True
    with 1(2) show ?thesis by (simp add: valid_up_to.simps)
  next
    case False
    then have ok: "step_ok (s @ t)" using valid_step(1) [OF 1(2)] by simp
    show ?thesis
    proof (cases "step_size (s @ t) \<le> length s")
      case True
      from step_within [OF ok True] have same: "step_ok s = step_ok (s @ t)" "step_size s = step_size (s @ t)"
        by (simp_all add: step_ok_def step_size_def)
      have "utf8_valid (drop (step_size s) s @ t)"
        using valid_step(2) [OF 1(2)] True same by simp
      with 1(1) False ok same(1)
      have IH: "valid_up_to (drop (step_size s) s) \<le> length (drop (step_size s) s)"
        "utf8_valid (drop (valid_up_to s) s @ t)"
        "utf8_valid (drop (step_size s) s) = (drop (valid_up_to s) s = [])"
        "drop (valid_up_to s) s = [] \<or> cut_off (drop (valid_up_to s) s)"
        by (simp_all add: valid_up_to_step [of s] add.commute)
      have "utf8_valid s = utf8_valid (drop (step_size s) s)" "valid_up_to s \<le> length s"
        using IH(1) False ok same True
        by (simp_all add: utf8_valid_step [of s] valid_up_to_step [of s])
      with IH show ?thesis by blast
    next
      case no: False
      with step_cut [OF ok] False have "cut_off s" by simp
      with 1(2) cut_not_valid [of s] False show ?thesis by simp
    qed
  qed
qed

lemma take_valid: "utf8_valid (take (valid_up_to s) s)"
proof (induction s rule: valid_up_to.induct)
  case (1 s)
  show ?case
  proof (cases "s = [] \<or> \<not> step_ok s")
    case True
    then show ?thesis by (subst valid_up_to.simps) simp
  next
    case False
    let ?n = "step_size s" and ?r = "drop (step_size s) s"
    have n: "?n \<le> length s" using step_size_le False by blast
    have split: "take (valid_up_to s) s = take ?n s @ take (valid_up_to ?r) ?r"
      using False by (subst valid_up_to.simps) (simp add: take_add)
    let ?h = "take ?n s" and ?q = "take (valid_up_to ?r) ?r"
    have "utf8_step ?h = utf8_step s"
      using step_within [of ?h ?r] False n by simp
    moreover have "utf8_step (?h @ ?q) = utf8_step s"
    proof -
      have "(?h @ ?q) @ drop (valid_up_to ?r) ?r = s"
        by (metis append_assoc append_take_drop_id)
      with step_within [of "?h @ ?q" "drop (valid_up_to ?r) ?r"] False n show ?thesis by simp
    qed
    ultimately have "step_ok (?h @ ?q)" "step_size (?h @ ?q) = ?n" "?h @ ?q \<noteq> []"
      using False step_size_pos [of s] by (auto simp: step_ok_def step_size_def)
    with 1 False n show ?thesis unfolding split by (simp add: utf8_valid_step [of "?h @ ?q"])
  qed
qed

end
