(* ===== verification/Event_Log.thy ===== *)
theory Event_Log
  imports Json_Value Text_Lines
begin

text \<open>
  \<open>src-tauri/src/storage/events.rs\<close>: the append-only log \<open>events.jsonl\<close> of every run and its
  writer. A log is the bytes of the file; the store maps a run id to them (\<open>None\<close>: no file) and
  to the writer's state under the per-run lock. What the file system answers is the record
  \<open>disk\<close>, what the JSON crate reads and prints is the record \<open>codec\<close>; the sequence numbers
  (\<open>u64\<close>) are natural numbers.
\<close>

record codec =
  jc_parse :: "string \<Rightarrow> json option"
  jc_text :: "json \<Rightarrow> string"
  jc_complete :: "string \<Rightarrow> bool"

text \<open>
  \<open>dk_stat\<close>, \<open>dk_tail\<close> and \<open>dk_full\<close>: whether the metadata, the tail and the whole of a file can
  be read when the counter is seeded. The other fields are the error of one step, \<open>None\<close> when it
  succeeds; a failed write or copy also says how many bytes had reached the file.
\<close>

record disk =
  dk_stat :: bool
  dk_tail :: bool
  dk_full :: bool
  dk_parent :: "string option"
  dk_open_tail :: "string option"
  dk_scan :: "string option"
  dk_close_line :: "string option"
  dk_truncate :: "string option"
  dk_mkdir :: "string option"
  dk_append :: "string option"
  dk_write :: "(nat \<times> string) option"
  dk_reopen :: "string option"
  dk_create :: "string option"
  dk_copy :: "(nat \<times> string) option"

definition disk_ok :: disk where
  "disk_ok = \<lparr>dk_stat = True, dk_tail = True, dk_full = True, dk_parent = None,
     dk_open_tail = None, dk_scan = None, dk_close_line = None, dk_truncate = None,
     dk_mkdir = None, dk_append = None, dk_write = None, dk_reopen = None, dk_create = None,
     dk_copy = None\<rparr>"

section \<open>Replayable events\<close>

definition REPLAY_TYPES :: "string list" where
  "REPLAY_TYPES =
     [''session_init'', ''message_delta'', ''thinking_delta'', ''tool_input_delta'',
      ''message_complete'', ''user_message'', ''tool_start'', ''tool_end'', ''run_state'',
      ''usage_update'', ''permission_denied'', ''permission_prompt'', ''compact_boundary'',
      ''system_status'', ''auth_status'', ''hook_started'', ''hook_response'',
      ''control_cancelled'', ''interaction_response_started'', ''interaction_response_failed'',
      ''interaction_resolved'', ''task_notification'', ''tool_progress'', ''tool_use_summary'',
      ''command_output'', ''files_persisted'', ''hook_progress'', ''hook_callback'',
      ''elicitation_prompt'', ''rate_limit_event'', ''codex_hook_run'', ''codex_agent_info'']"

definition is_replayable :: "json \<Rightarrow> bool" where
  "is_replayable ev =
     (case get_str ev ''type'' of None \<Rightarrow> False | Some t \<Rightarrow> t \<in> set REPLAY_TYPES)"

section \<open>Seeding the sequence counter\<close>

fun list_max :: "nat list \<Rightarrow> nat option" where
  "list_max [] = None"
| "list_max (n # ns) = (case list_max ns of None \<Rightarrow> Some n | Some m \<Rightarrow> Some (max n m))"

definition scan_seqs :: "codec \<Rightarrow> string \<Rightarrow> nat list" where
  "scan_seqs c content =
     filter_map (\<lambda>v. get_u64 v ''seq'')
       (filter_map (jc_parse c) (filter (\<lambda>l. trim l \<noteq> []) (str_lines content)))"

definition scan_max_seq :: "codec \<Rightarrow> string \<Rightarrow> nat option" where
  "scan_max_seq c content = list_max (scan_seqs c content)"

definition TAIL_WINDOW :: nat where
  "TAIL_WINDOW = 4096"

definition max_seq_in_tail :: "codec \<Rightarrow> string \<Rightarrow> nat option" where
  "max_seq_in_tail c bytes =
     (let long = TAIL_WINDOW < length bytes;
          buf = (if long then drop (length bytes - TAIL_WINDOW) bytes else bytes);
          tail = utf8_lossy buf;
          lines_str = (if long then (case split_line tail of Some (_, rest) \<Rightarrow> rest | None \<Rightarrow> [])
                       else tail)
      in scan_max_seq c lines_str)"

definition next_seq :: "codec \<Rightarrow> disk \<Rightarrow> string option \<Rightarrow> nat" where
  "next_seq c dk file =
     (case file of
        None \<Rightarrow> 1
      | Some bytes \<Rightarrow>
          if \<not> dk_stat dk \<or> bytes = [] then 1
          else (case (if dk_tail dk then max_seq_in_tail c bytes else None) of
                  Some m \<Rightarrow> m + 1
                | None \<Rightarrow>
                    (case (if dk_full dk \<and> utf8_valid bytes then scan_max_seq c bytes else None) of
                       Some m \<Rightarrow> m + 1
                     | None \<Rightarrow> 1)))"

section \<open>Repairing an interrupted record\<close>

definition SCAN_BLOCK :: nat where
  "SCAN_BLOCK = 65536"

text \<open>\<open>rposition(|byte| *byte == b'\n')\<close>.\<close>

definition last_newline :: "string \<Rightarrow> nat option" where
  "last_newline blk =
     (let k = length (takeWhile (\<lambda>ch. ch \<noteq> nl) (rev blk))
      in if k = length blk then None else Some (length blk - 1 - k))"

function scan_back :: "string \<Rightarrow> nat \<Rightarrow> nat" where
  "scan_back bytes cursor =
     (let start = cursor - SCAN_BLOCK; blk = take (cursor - start) (drop start bytes) in
      case last_newline blk of
        Some i \<Rightarrow> start + i + 1
      | None \<Rightarrow> if start = 0 then 0 else scan_back bytes start)"
  by pat_completeness auto
termination by (relation "measure snd") (auto simp: SCAN_BLOCK_def)

declare scan_back.simps [simp del]

text \<open>The result and the file afterwards; opening creates a missing file.\<close>

definition repair_incomplete_tail ::
  "codec \<Rightarrow> disk \<Rightarrow> string option \<Rightarrow> (string + nat) \<times> string option" where
  "repair_incomplete_tail c dk file =
     (case dk_parent dk of Some e \<Rightarrow> (Inl e, file) | None \<Rightarrow>
      case dk_open_tail dk of Some e \<Rightarrow> (Inl e, file) | None \<Rightarrow>
      let bytes = unwrap_or file [] in
      case dk_scan dk of Some e \<Rightarrow> (Inl e, Some bytes) | None \<Rightarrow>
      if bytes = [] then (Inr 0, Some bytes)
      else if last bytes = nl then (Inr (length bytes), Some bytes)
      else (let line_start = scan_back bytes (length bytes) in
            if jc_complete c (drop line_start bytes) then
              (case dk_close_line dk of
                 Some e \<Rightarrow> (Inl e, Some bytes)
               | None \<Rightarrow> (Inr (length bytes + 1), Some (bytes @ [nl])))
            else
              (case dk_truncate dk of
                 Some e \<Rightarrow> (Inl e, Some bytes)
               | None \<Rightarrow> (Inr line_start, Some (take line_start bytes)))))"

section \<open>The writer\<close>

record run_writer =
  w_next_seq :: nat
  w_tail_repaired :: bool

record event_store =
  es_files :: "string \<Rightarrow> string option"
  es_writers :: "(string \<times> run_writer) list"

definition set_file :: "string \<Rightarrow> string option \<Rightarrow> event_store \<Rightarrow> event_store" where
  "set_file r f st = st\<lparr>es_files := (es_files st)(r := f)\<rparr>"

definition set_writer :: "string \<Rightarrow> run_writer \<Rightarrow> event_store \<Rightarrow> event_store" where
  "set_writer r w st = st\<lparr>es_writers := hm_insert r w (es_writers st)\<rparr>"

text \<open>
  \<open>run_lock\<close>: with more than 50 locks in the map, those no other caller holds a clone of are
  dropped (\<open>held\<close>: the run ids whose lock is in use elsewhere); then the run's lock is taken from
  the map or created. The result is the writer's state under the lock.
\<close>

definition evict_locks :: "string list \<Rightarrow> (string \<times> run_writer) list \<Rightarrow> (string \<times> run_writer) list" where
  "evict_locks held ws =
     (if 50 < length ws then filter (\<lambda>(r, _). r \<in> set held) ws else ws)"

definition run_lock ::
  "codec \<Rightarrow> disk \<Rightarrow> string list \<Rightarrow> string \<Rightarrow> event_store \<Rightarrow> run_writer \<times> event_store" where
  "run_lock c dk held r st =
     (let ws = evict_locks held (es_writers st); st1 = st\<lparr>es_writers := ws\<rparr> in
      case map_of ws r of
        Some w \<Rightarrow> (w, st1)
      | None \<Rightarrow>
          (let w = \<lparr>w_next_seq = next_seq c dk (es_files st r), w_tail_repaired = False\<rparr>
           in (w, set_writer r w st1)))"

definition ensure_tail_repaired ::
  "codec \<Rightarrow> disk \<Rightarrow> string \<Rightarrow> run_writer \<Rightarrow> event_store \<Rightarrow> (string + run_writer) \<times> event_store" where
  "ensure_tail_repaired c dk r w st =
     (if w_tail_repaired w then (Inr w, st)
      else (case repair_incomplete_tail c dk (es_files st r) of
              (Inl e, f) \<Rightarrow> (Inl e, set_file r f st)
            | (Inr _, f) \<Rightarrow>
                (let w' = \<lparr>w_next_seq = next_seq c dk f, w_tail_repaired = True\<rparr>
                 in (Inr w', set_writer r w' (set_file r f st)))))"

text \<open>
  The common course of the three writing operations: the lock, the repair, the directory, the
  record with the next sequence number, one \<open>writeln!\<close> to the file opened for appending. A failed
  write leaves part of the line in the file and asks for a repair before the next one.
\<close>

datatype write_fault = RepairFault string | DirFault string | OpenFault string | WriteFault string

definition write_record ::
  "codec \<Rightarrow> disk \<Rightarrow> string list \<Rightarrow> string \<Rightarrow> (nat \<Rightarrow> json) \<Rightarrow> event_store
     \<Rightarrow> (write_fault + nat) \<times> event_store" where
  "write_record c dk held r build st =
     (let (w, st1) = run_lock c dk held r st in
      case ensure_tail_repaired c dk r w st1 of
        (Inl e, st2) \<Rightarrow> (Inl (RepairFault e), st2)
      | (Inr w2, st2) \<Rightarrow>
          (let current = w_next_seq w2 in
           case dk_mkdir dk of Some e \<Rightarrow> (Inl (DirFault e), st2) | None \<Rightarrow>
           case dk_append dk of Some e \<Rightarrow> (Inl (OpenFault e), st2) | None \<Rightarrow>
           let line = jc_text c (build current); old = unwrap_or (es_files st2 r) [] in
           case dk_write dk of
             Some (k, e) \<Rightarrow>
               (Inl (WriteFault e),
                set_writer r (w2\<lparr>w_tail_repaired := False\<rparr>)
                  (set_file r (Some (old @ take (min k (length line)) line)) st2))
           | None \<Rightarrow>
               (Inr current,
                set_writer r (w2\<lparr>w_next_seq := current + 1\<rparr>)
                  (set_file r (Some (old @ line @ [nl])) st2))))"

definition bus_envelope :: "string \<Rightarrow> json \<Rightarrow> nat \<Rightarrow> json" where
  "bus_envelope ts ev seq =
     JObj [(''_bus'', JBool True), (''event'', ev), (''seq'', jnat seq), (''ts'', JStr ts)]"

definition bus_fault :: "write_fault \<Rightarrow> string" where
  "bus_fault f =
     (case f of
        RepairFault e \<Rightarrow> e
      | DirFault e \<Rightarrow> ''ensure_dir failed: '' @ e
      | OpenFault e \<Rightarrow> ''open failed: '' @ e
      | WriteFault e \<Rightarrow> ''write failed: '' @ e)"

definition write_bus_event_with_ts ::
  "codec \<Rightarrow> disk \<Rightarrow> string list \<Rightarrow> string \<Rightarrow> json \<Rightarrow> string \<Rightarrow> event_store
     \<Rightarrow> (string + nat) \<times> event_store" where
  "write_bus_event_with_ts c dk held r ev ts st =
     (case write_record c dk held r (bus_envelope ts ev) st of
        (Inl f, st') \<Rightarrow> (Inl (bus_fault f), st')
      | (Inr n, st') \<Rightarrow> (Inr n, st'))"

definition write_bus_event ::
  "codec \<Rightarrow> disk \<Rightarrow> string list \<Rightarrow> string \<Rightarrow> string \<Rightarrow> json \<Rightarrow> event_store
     \<Rightarrow> (string + unit) \<times> event_store" where
  "write_bus_event c dk held now_iso r ev st =
     (case write_record c dk held r (bus_envelope now_iso ev) st of
        (Inl f, st') \<Rightarrow> (Inl (bus_fault f), st')
      | (Inr _, st') \<Rightarrow> (Inr (), st'))"

definition persist_bus_event ::
  "codec \<Rightarrow> disk \<Rightarrow> string list \<Rightarrow> string \<Rightarrow> string \<Rightarrow> json \<Rightarrow> event_store
     \<Rightarrow> (string + unit) \<times> event_store" where
  "persist_bus_event c dk held now_iso r ev st = write_bus_event c dk held now_iso r ev st"

datatype run_event_type = EvSystem | EvStdout | EvStderr | EvCommand | EvUser | EvAssistant

primrec run_event_type_text :: "run_event_type \<Rightarrow> string" where
  "run_event_type_text EvSystem = ''system''"
| "run_event_type_text EvStdout = ''stdout''"
| "run_event_type_text EvStderr = ''stderr''"
| "run_event_type_text EvCommand = ''command''"
| "run_event_type_text EvUser = ''user''"
| "run_event_type_text EvAssistant = ''assistant''"

record run_event =
  re_id :: string
  re_task_id :: string
  re_seq :: nat
  re_type :: run_event_type
  re_payload :: json
  re_timestamp :: string

text \<open>The derived serialisation of a struct lists its fields in order.\<close>

definition run_event_json :: "run_event \<Rightarrow> json" where
  "run_event_json e =
     JObj [(''id'', JStr (re_id e)), (''task_id'', JStr (re_task_id e)),
           (''seq'', jnat (re_seq e)), (''type'', JStr (run_event_type_text (re_type e))),
           (''payload'', re_payload e), (''timestamp'', JStr (re_timestamp e))]"

definition raw_fault :: "write_fault \<Rightarrow> string" where
  "raw_fault f =
     (case f of RepairFault e \<Rightarrow> e | DirFault e \<Rightarrow> e | OpenFault e \<Rightarrow> e | WriteFault e \<Rightarrow> e)"

text \<open>\<open>uuid\<close> is the text of the fresh identifier; its first twelve characters are used.\<close>

definition write_run_event ::
  "codec \<Rightarrow> disk \<Rightarrow> string list \<Rightarrow> string \<Rightarrow> string \<Rightarrow> string \<Rightarrow> run_event_type \<Rightarrow> json
     \<Rightarrow> event_store \<Rightarrow> (string + run_event) \<times> event_store" where
  "write_run_event c dk held uuid now_iso r ty payload st =
     (let event = (\<lambda>seq. \<lparr>re_id = take 12 uuid, re_task_id = r, re_seq = seq, re_type = ty,
                          re_payload = payload, re_timestamp = now_iso\<rparr>) in
      case write_record c dk held r (\<lambda>seq. run_event_json (event seq)) st of
        (Inl f, st') \<Rightarrow> (Inl (raw_fault f), st')
      | (Inr n, st') \<Rightarrow> (Inr (event n), st'))"

definition append_event ::
  "codec \<Rightarrow> disk \<Rightarrow> string list \<Rightarrow> string \<Rightarrow> string \<Rightarrow> string \<Rightarrow> run_event_type \<Rightarrow> json
     \<Rightarrow> event_store \<Rightarrow> (string + run_event) \<times> event_store" where
  "append_event c dk held uuid now_iso r ty payload st =
     write_run_event c dk held uuid now_iso r ty payload st"

section \<open>Snapshots and forks\<close>

text \<open>A second repair, then the file is opened for reading: the length it has then is fixed.\<close>

definition capture_event_log_snapshot ::
  "codec \<Rightarrow> disk \<Rightarrow> string option \<Rightarrow> (string + nat) \<times> string option" where
  "capture_event_log_snapshot c dk file =
     (case repair_incomplete_tail c dk file of
        (Inl e, f) \<Rightarrow> (Inl e, f)
      | (Inr _, f) \<Rightarrow>
          (case dk_reopen dk of
             Some e \<Rightarrow> (Inl e, f)
           | None \<Rightarrow> (Inr (length (unwrap_or f [])), f)))"

definition snapshot ::
  "codec \<Rightarrow> disk \<Rightarrow> string list \<Rightarrow> string \<Rightarrow> event_store \<Rightarrow> (string + nat) \<times> event_store" where
  "snapshot c dk held r st =
     (let (w, st1) = run_lock c dk held r st in
      case dk_mkdir dk of Some e \<Rightarrow> (Inl (''ensure_dir failed: '' @ e), st1) | None \<Rightarrow>
      case ensure_tail_repaired c dk r w st1 of
        (Inl e, st2) \<Rightarrow> (Inl e, st2)
      | (Inr _, st2) \<Rightarrow>
          (let (res, f) = capture_event_log_snapshot c dk (es_files st2 r)
           in (res, set_file r f st2)))"

definition CONTENT_TYPES :: "string list" where
  "CONTENT_TYPES =
     [''message_delta'', ''message_complete'', ''tool_start'', ''tool_end'', ''user_message'']"

definition jset :: "string \<Rightarrow> json \<Rightarrow> json \<Rightarrow> json" where
  "jset k x v = (case v of JObj kvs \<Rightarrow> JObj (jinsert k x kvs) | _ \<Rightarrow> v)"

definition envelope_type :: "json \<Rightarrow> string" where
  "envelope_type env =
     unwrap_or (Option.bind (jget env ''event'') (\<lambda>e. get_str e ''type'')) []"

text \<open>A content envelope for the fork: the event's run id and the sequence number rewritten.\<close>

definition fork_envelope :: "string \<Rightarrow> nat \<Rightarrow> json \<Rightarrow> json" where
  "fork_envelope to_run_id n env =
     (let env1 = (case jget env ''event'' of
                    Some e \<Rightarrow> jset ''event'' (jset ''run_id'' (JStr to_run_id) e) env
                  | None \<Rightarrow> env)
      in jset ''seq'' (jnat n) env1)"

text \<open>
  The copying loop on the lines still to read: the counters \<open>copied\<close> and \<open>skipped\<close> and the text
  written so far. A line that is not UTF-8 stops it with an error.
\<close>

fun copy_lines ::
  "codec \<Rightarrow> string \<Rightarrow> string list \<Rightarrow> nat \<Rightarrow> nat \<Rightarrow> string \<Rightarrow> (string + nat \<times> nat) \<times> string" where
  "copy_lines c to_run_id [] copied skipped out = (Inr (copied, skipped), out)"
| "copy_lines c to_run_id (l # ls) copied skipped out =
     (if \<not> utf8_valid l then
        (Inl ''read source events failed: stream did not contain valid UTF-8'', out)
      else if trim l = [] then copy_lines c to_run_id ls copied skipped out
      else (case jc_parse c l of
              None \<Rightarrow> copy_lines c to_run_id ls copied skipped out
            | Some env \<Rightarrow>
                if get_bool env ''_bus'' \<noteq> Some True
                then copy_lines c to_run_id ls copied skipped out
                else if envelope_type env \<in> set CONTENT_TYPES
                then copy_lines c to_run_id ls (copied + 1) skipped
                       (out @ jc_text c (fork_envelope to_run_id (copied + 1) env) @ [nl])
                else copy_lines c to_run_id ls copied (skipped + 1) out))"

definition copy_bus_events_from_reader ::
  "codec \<Rightarrow> disk \<Rightarrow> string \<Rightarrow> string \<Rightarrow> (string + nat \<times> nat) \<times> string" where
  "copy_bus_events_from_reader c dk source to_run_id =
     (let (res, out) = copy_lines c to_run_id (str_lines source) 0 0 [] in
      case dk_copy dk of
        Some (k, e) \<Rightarrow> (Inl (''write fork events failed: '' @ e), take k out)
      | None \<Rightarrow> (res, out))"

text \<open>
  The copy: the source is read up to the length the snapshot fixed, after the target file has
  been created empty. The target's lock is taken last, and its counter continues the copy.
\<close>

definition publish_copy ::
  "codec \<Rightarrow> disk \<Rightarrow> string list \<Rightarrow> string \<Rightarrow> nat \<Rightarrow> string \<Rightarrow> event_store
     \<Rightarrow> (string + unit) \<times> event_store" where
  "publish_copy c dk held from_run_id len to_run_id st =
     (let (w, st1) = run_lock c dk held to_run_id st;
          st2 = set_writer to_run_id (w\<lparr>w_tail_repaired := False\<rparr>) st1 in
      case dk_mkdir dk of Some e \<Rightarrow> (Inl (''ensure_dir failed: '' @ e), st2) | None \<Rightarrow>
      case dk_create dk of
        Some e \<Rightarrow> (Inl (''create fork events failed: '' @ e), st2)
      | None \<Rightarrow>
          (let st3 = set_file to_run_id (Some []) st2;
               source = take len (unwrap_or (es_files st3 from_run_id) []);
               (res, out) = copy_bus_events_from_reader c dk source to_run_id;
               st4 = set_file to_run_id (Some out) st3 in
           case res of
             Inl e \<Rightarrow> (Inl e, st4)
           | Inr (copied, _) \<Rightarrow>
               (Inr (), set_writer to_run_id \<lparr>w_next_seq = copied + 1, w_tail_repaired = True\<rparr> st4)))"

definition copy_bus_events ::
  "codec \<Rightarrow> disk \<Rightarrow> string list \<Rightarrow> string \<Rightarrow> string \<Rightarrow> event_store
     \<Rightarrow> (string + unit) \<times> event_store" where
  "copy_bus_events c dk held from_run_id to_run_id st =
     (case snapshot c dk held from_run_id st of
        (Inl e, st1) \<Rightarrow> (Inl e, st1)
      | (Inr len, st1) \<Rightarrow> publish_copy c dk held from_run_id len to_run_id st1)"

section \<open>Reading the log\<close>

fun run_event_type_of :: "string \<Rightarrow> run_event_type option" where
  "run_event_type_of s =
     (if s = ''system'' then Some EvSystem else if s = ''stdout'' then Some EvStdout
      else if s = ''stderr'' then Some EvStderr else if s = ''command'' then Some EvCommand
      else if s = ''user'' then Some EvUser else if s = ''assistant'' then Some EvAssistant
      else None)"

text \<open>The derived deserialisation: every field present and of its type, others ignored.\<close>

definition run_event_of_json :: "json \<Rightarrow> run_event option" where
  "run_event_of_json v =
     (case (get_str v ''id'', get_str v ''task_id'', get_u64 v ''seq'',
            Option.bind (get_str v ''type'') run_event_type_of, jget v ''payload'',
            get_str v ''timestamp'') of
        (Some i, Some t, Some n, Some ty, Some p, Some ts) \<Rightarrow>
          Some \<lparr>re_id = i, re_task_id = t, re_seq = n, re_type = ty, re_payload = p,
                re_timestamp = ts\<rparr>
      | _ \<Rightarrow> None)"

definition list_events :: "codec \<Rightarrow> disk \<Rightarrow> string option \<Rightarrow> nat \<Rightarrow> run_event list" where
  "list_events c dk file since_seq =
     (case file of
        None \<Rightarrow> []
      | Some bytes \<Rightarrow>
          if \<not> dk_full dk \<or> \<not> utf8_valid bytes then []
          else filter (\<lambda>e. since_seq < re_seq e)
                 (filter_map (\<lambda>l. Option.bind (jc_parse c l) run_event_of_json)
                    (filter (\<lambda>l. trim l \<noteq> []) (str_lines bytes))))"

text \<open>
  The event of an envelope, for the frontend: a bus event past the watermark of a replayed type,
  with the envelope's time and sequence number put in.
\<close>

definition replay_event :: "nat \<Rightarrow> json \<Rightarrow> (nat \<times> json) option" where
  "replay_event min_seq v =
     (if get_bool v ''_bus'' \<noteq> Some True then None
      else (case get_u64 v ''seq'' of None \<Rightarrow> None | Some seq \<Rightarrow>
            if seq \<le> min_seq then None
            else (case jget v ''event'' of None \<Rightarrow> None | Some event \<Rightarrow>
                  case get_str event ''type'' of None \<Rightarrow> None | Some t \<Rightarrow>
                  if t \<notin> set REPLAY_TYPES then None
                  else (let event1 = (case jget v ''ts'' of
                                        Some ts \<Rightarrow> jset ''ts'' ts event
                                      | None \<Rightarrow> event)
                        in Some (seq, jset ''_seq'' (jnat seq) event1)))))"

definition list_bus_events :: "codec \<Rightarrow> disk \<Rightarrow> string option \<Rightarrow> nat option \<Rightarrow> json list" where
  "list_bus_events c dk file since_seq =
     (case file of
        None \<Rightarrow> []
      | Some bytes \<Rightarrow>
          if \<not> dk_full dk then []
          else map snd
                 (filter_map
                    (\<lambda>l. Option.bind (jc_parse c l) (replay_event (unwrap_or since_seq 0)))
                    (filter (\<lambda>l. trim l \<noteq> []) (takeWhile utf8_valid (str_lines bytes)))))"

end
