(* ===== verification/Event_Pages.thy ===== *)
theory Event_Pages
  imports Event_Log
begin

text \<open>
  The bounded catch-up of \<open>storage/events.rs\<close>: a page of bus events read from an offset of the
  log, with limits on the entries, on the encoded bytes and on a line. The buffered reader is the
  list of the chunks its \<open>fill\_buf\<close> hands out; an empty chunk is the end of the file.
\<close>

definition BUS_EVENT_PAGE_ENTRY_LIMIT :: nat where
  "BUS_EVENT_PAGE_ENTRY_LIMIT = 400"

definition BUS_EVENT_PAGE_BYTE_LIMIT :: nat where
  "BUS_EVENT_PAGE_BYTE_LIMIT = 1048576"

definition BUS_EVENT_LINE_LIMIT :: nat where
  "BUS_EVENT_LINE_LIMIT = 2097152"

definition PREFIX_LIMIT :: nat where
  "PREFIX_LIMIT = 65536"

definition SCAN_KEEP :: nat where
  "SCAN_KEEP = 128"

definition history_projection_required :: "string \<Rightarrow> string" where
  "history_projection_required detail = ''HISTORY_PROJECTION_REQUIRED: '' @ detail"

record bus_event_page =
  bp_events :: "json list"
  bp_last_seq :: nat
  bp_has_more :: bool
  bp_next_offset :: nat

section \<open>The sequence number in raw bytes\<close>

definition is_ascii_ws :: "char \<Rightarrow> bool" where
  "is_ascii_ws ch = (byte ch \<in> {32, 9, 10, 12, 13})"

definition is_ascii_digit :: "char \<Rightarrow> bool" where
  "is_ascii_digit ch = (48 \<le> byte ch \<and> byte ch \<le> 57)"

definition parse_u64 :: "string \<Rightarrow> nat option" where
  "parse_u64 ds =
     (let n = fold (\<lambda>ch acc. acc * 10 + (byte ch - 48)) ds 0
      in if ds \<noteq> [] \<and> list_all is_ascii_digit ds \<and> n < 2 ^ 64 then Some n else None)"

definition seq_marker :: string where
  "seq_marker = CHR 0x22 # ''seq'' @ [CHR 0x22, CHR '':'']"

definition envelope_seq_from_bytes :: "string \<Rightarrow> nat option" where
  "envelope_seq_from_bytes pre =
     (if \<not> utf8_valid pre then None
      else (case str_find pre seq_marker of
              None \<Rightarrow> None
            | Some i \<Rightarrow>
                parse_u64 (takeWhile is_ascii_digit
                  (dropWhile is_ascii_ws (drop (i + length seq_marker) pre)))))"

section \<open>Reading one line\<close>

record line_scan =
  ls_line :: string
  ls_oversized :: bool
  ls_prefix :: string
  ls_window :: string
  ls_seq :: "nat option"

definition empty_scan :: line_scan where
  "empty_scan = \<lparr>ls_line = [], ls_oversized = False, ls_prefix = [], ls_window = [], ls_seq = None\<rparr>"

text \<open>One chunk up to its newline: the bounded prefix, the sliding window and the line.\<close>

definition scan_chunk :: "string \<Rightarrow> line_scan \<Rightarrow> line_scan" where
  "scan_chunk data s =
     (let window = ls_window s @ data;
          fits = \<not> ls_oversized s \<and> length (ls_line s) + length data \<le> BUS_EVENT_LINE_LIMIT
      in \<lparr>ls_line = (if fits then ls_line s @ data else []),
          ls_oversized = (ls_oversized s \<or> \<not> fits),
          ls_prefix = ls_prefix s @ take (PREFIX_LIMIT - length (ls_prefix s)) data,
          ls_window = drop (length window - SCAN_KEEP) window,
          ls_seq = (case envelope_seq_from_bytes window of Some q \<Rightarrow> Some q | None \<Rightarrow> ls_seq s)\<rparr>)"

fun read_line :: "string list \<Rightarrow> line_scan \<Rightarrow> nat \<Rightarrow> line_scan \<times> nat \<times> string list" where
  "read_line [] s n = (s, n, [])"
| "read_line (ch # chs) s n =
     (if ch = [] then (s, n, [])
      else if after_line ch = [] then read_line chs (scan_chunk ch s) (n + length ch)
      else (scan_chunk (first_line ch) s, n + length (first_line ch) + 1,
            if tl (after_line ch) = [] then chs else tl (after_line ch) # chs))"

lemma read_line_shrinks:
  "read_line chs s n = (s', n', rest) \<Longrightarrow>
     length (concat rest) \<le> length (concat chs)
     \<and> (s' \<noteq> s \<longrightarrow> length (concat rest) < length (concat chs))"
proof (induction chs s n rule: read_line.induct)
  case (1 s n)
  then show ?case by simp
next
  case (2 ch chs s n)
  show ?case
  proof (cases "ch = []")
    case True
    with "2.prems" show ?thesis by simp
  next
    case ne: False
    then have pos: "0 < length ch" by simp
    show ?thesis
    proof (cases "after_line ch = []")
      case True
      with ne "2.prems" have run: "read_line chs (scan_chunk ch s) (n + length ch) = (s', n', rest)"
        by simp
      from "2.IH" [OF ne True run] have "length (concat rest) \<le> length (concat chs)" by simp
      with pos show ?thesis by (simp del: length_greater_0_conv)
    next
      case False
      then have "length (tl (after_line ch)) < length ch"
        using after_line_length [of ch] by (cases "after_line ch") auto
      with ne False "2.prems" show ?thesis by (auto split: if_splits)
    qed
  qed
qed

lemma read_line_progress:
  assumes "(s, n, rest) = read_line chs empty_scan 0"
    and "\<not> (ls_line s = [] \<and> \<not> ls_oversized s)"
  shows "length (concat rest) < length (concat chs)"
proof -
  from assms(2) have "s \<noteq> empty_scan" by (auto simp: empty_scan_def)
  with read_line_shrinks [OF assms(1) [symmetric]] show ?thesis by simp
qed

section \<open>A page\<close>

text \<open>The event of a line: an error, nothing to show, or the event with its sequence number.\<close>

definition page_line :: "codec \<Rightarrow> nat \<Rightarrow> string \<Rightarrow> string + (nat \<times> json) option" where
  "page_line c since_seq line =
     (if \<not> utf8_valid line then Inl ''invalid UTF-8 in bus event page''
      else if trim line = [] then Inr None
      else Inr (Option.bind (jc_parse c line) (replay_event since_seq)))"

definition old_oversized :: "nat \<Rightarrow> line_scan \<Rightarrow> bool" where
  "old_oversized since_seq s =
     (case or_else (ls_seq s) (envelope_seq_from_bytes (ls_prefix s)) of
        Some seq \<Rightarrow> seq \<le> since_seq
      | None \<Rightarrow> False)"

definition page_full :: "json list \<Rightarrow> nat \<Rightarrow> nat \<Rightarrow> bool" where
  "page_full events encoded event_bytes =
     (events \<noteq> [] \<and> (BUS_EVENT_PAGE_ENTRY_LIMIT \<le> length events
                    \<or> BUS_EVENT_PAGE_BYTE_LIMIT < encoded + (event_bytes + 1)))"

text \<open>
  The loop: the chunks still to read, the events taken, their encoded bytes, the last sequence
  number and the bytes consumed.
\<close>

function page_loop ::
  "codec \<Rightarrow> nat \<Rightarrow> nat \<Rightarrow> string list \<Rightarrow> json list \<Rightarrow> nat \<Rightarrow> nat \<Rightarrow> nat \<Rightarrow> string + bus_event_page" where
  "page_loop c since start chs events encoded last_seq consumed =
     (let page = (\<lambda>more off. Inr \<lparr>bp_events = events, bp_last_seq = last_seq, bp_has_more = more,
                                  bp_next_offset = start + off\<rparr>);
          (s, n, rest) = read_line chs empty_scan 0 in
      if ls_line s = [] \<and> \<not> ls_oversized s then page False (consumed + n)
      else if ls_oversized s then
        (if old_oversized since s
         then page_loop c since start rest events encoded last_seq (consumed + n)
         else Inl (history_projection_required ''bus event exceeds bounded catch-up line limit''))
      else (case page_line c since (ls_line s) of
              Inl e \<Rightarrow> Inl e
            | Inr None \<Rightarrow> page_loop c since start rest events encoded last_seq (consumed + n)
            | Inr (Some (seq, event)) \<Rightarrow>
                (let event_bytes = length (jc_text c event) in
                 if BUS_EVENT_PAGE_BYTE_LIMIT < event_bytes + 2
                 then Inl (history_projection_required ''bus event exceeds catch-up page limit'')
                 else if page_full events encoded event_bytes then page True consumed
                 else page_loop c since start rest (events @ [event]) (encoded + (event_bytes + 1))
                        seq (consumed + n))))"
  by pat_completeness auto
termination
  by (relation "measure (\<lambda>(c, since, start, chs, _). length (concat chs))")
     (simp_all only: in_measure wf_measure prod.case, (metis read_line_progress)+)

declare page_loop.simps [simp del]

definition list_bus_events_page_from_reader ::
  "codec \<Rightarrow> string list \<Rightarrow> nat \<Rightarrow> nat \<Rightarrow> string + bus_event_page" where
  "list_bus_events_page_from_reader c chs since_seq start_offset =
     page_loop c since_seq start_offset chs [] 2 since_seq 0"

text \<open>\<open>chunks\<close>: how the buffered reader cuts the bytes after the offset.\<close>

definition list_bus_events_page ::
  "codec \<Rightarrow> (string \<Rightarrow> string list) \<Rightarrow> string option \<Rightarrow> nat \<Rightarrow> nat option \<Rightarrow> string + bus_event_page" where
  "list_bus_events_page c chunks file0 since_seq offset =
     (case file0 of
        None \<Rightarrow> Inr \<lparr>bp_events = [], bp_last_seq = since_seq, bp_has_more = False,
                     bp_next_offset = unwrap_or offset 0\<rparr>
      | Some bytes \<Rightarrow>
          (let start_offset = unwrap_or offset 0 in
           if length bytes < start_offset
           then Inl (history_projection_required
                       ''bus event offset is outside the current event log'')
           else list_bus_events_page_from_reader c (chunks (drop start_offset bytes)) since_seq
                  start_offset))"

section \<open>Decimal numerals\<close>

lemma byte_digit_char: "d < 10 \<Longrightarrow> byte (digit_char d) = 48 + d"
  by (simp add: byte_def digit_char_def)

definition digits_value :: "string \<Rightarrow> nat" where
  "digits_value ds = fold (\<lambda>ch acc. acc * 10 + (byte ch - 48)) ds 0"

lemma show_nat_digits:
  "show_nat n \<noteq> [] \<and> list_all is_ascii_digit (show_nat n) \<and> digits_value (show_nat n) = n"
proof (induction n rule: less_induct)
  case (less n)
  show ?case
  proof (cases "n < 10")
    case True
    then show ?thesis
      by (simp add: show_nat.simps [of n] is_ascii_digit_def byte_digit_char digits_value_def)
  next
    case False
    then have "n div 10 < n" by simp
    from less.IH [OF this] False show ?thesis
      by (simp add: show_nat.simps [of n] is_ascii_digit_def byte_digit_char digits_value_def)
  qed
qed

lemma show_nat_inj: "show_nat m = show_nat n \<Longrightarrow> m = n"
  using show_nat_digits by metis

text \<open>A numeral ends at the first byte that is no digit.\<close>

lemma show_nat_split:
  assumes "show_nat m @ c # s = show_nat n @ c # t" and "\<not> is_ascii_digit c"
  shows "m = n \<and> s = t"
proof -
  have span: "takeWhile is_ascii_digit (show_nat k @ c # u) = show_nat k" for k u
    using show_nat_digits [of k] assms(2) by (simp add: takeWhile_append2 list_all_iff)
  from assms(1) have "show_nat m = show_nat n" using span by metis
  with assms(1) show ?thesis using show_nat_inj by simp
qed

end
