(* ===== verification/Event_Repair.thy ===== *)
theory Event_Repair
  imports Event_Log
begin

text \<open>
  The two scans of the event log against their reference: the backward scan for the last newline
  in blocks of 64 KiB finds the end of the last closed line, and the counter seeded from the last
  4 KiB, or from the whole file, is above every sequence number of a well-formed log. From them:
  what repairing an interrupted record leaves, on every answer of the file system.
\<close>

section \<open>The backward scan\<close>

lemma closed_length_append:
  "closed_length (s @ t) =
     (if nl \<in> set t then length s + closed_length t else closed_length s)"
proof (cases "nl \<in> set t")
  case True
  have "open_line (s @ t) = open_line t"
    using True unfolding open_line_def by (simp add: takeWhile_append1)
  moreover have "length (open_line t) \<le> length t"
    unfolding open_line_def by (metis length_rev length_takeWhile_le)
  ultimately show ?thesis using True by (simp add: closed_length_def)
next
  case False
  have "takeWhile (\<lambda>c. c \<noteq> nl) (rev t @ rev s) = rev t @ takeWhile (\<lambda>c. c \<noteq> nl) (rev s)"
    using False by (subst takeWhile_append2) auto
  then have "open_line (s @ t) = open_line s @ t" by (simp add: open_line_def)
  then show ?thesis using False by (simp add: closed_length_def)
qed

lemma closed_length_none: "nl \<notin> set s \<Longrightarrow> closed_length s = 0"
  by (simp add: closed_length_def open_line_whole)

lemma last_newline_closed:
  "last_newline s = (if nl \<in> set s then Some (closed_length s - 1) else None)"
proof (cases "nl \<in> set s")
  case False
  then show ?thesis
    using open_line_whole [OF False] by (simp add: last_newline_def open_line_def Let_def)
      (metis length_rev)
next
  case True
  have eq: "length (open_line s) = length (takeWhile (\<lambda>ch. ch \<noteq> nl) (rev s))"
    by (simp add: open_line_def)
  have "length (open_line s) \<noteq> length s"
  proof
    assume "length (open_line s) = length s"
    then have "closed_length s = 0" by (simp add: closed_length_def)
    then have "framed (closed_lines s) = []" using take_closed [of s] by simp
    then have "open_line s = s" using framed_open [of s] by simp
    with True open_line_clean [of s] show False by simp
  qed
  with True eq show ?thesis by (simp add: last_newline_def closed_length_def Let_def)
qed

lemma closed_length_pos: "nl \<in> set s \<Longrightarrow> 0 < closed_length s"
  using take_closed [of s] closed_lines_nonempty [of s] framed_empty_iff [of "closed_lines s"]
  by (metis gr0I take0)

lemma scan_back_reference:
  "cursor \<le> length bytes \<Longrightarrow> scan_back bytes cursor = closed_length (take cursor bytes)"
proof (induction bytes cursor rule: scan_back.induct)
  case (1 bytes cursor)
  define start where "start = cursor - SCAN_BLOCK"
  define blk where "blk = take (cursor - start) (drop start bytes)"
  have split: "take cursor bytes = take start bytes @ blk"
    unfolding blk_def start_def by (metis diff_le_self le_add_diff_inverse take_add)
  have len: "length (take start bytes) = start" using 1(2) by (simp add: start_def)
  show ?case
  proof (cases "nl \<in> set blk")
    case True
    then have "scan_back bytes cursor = start + (closed_length blk - 1) + 1"
      by (subst scan_back.simps) (simp add: last_newline_closed start_def blk_def Let_def)
    also have "\<dots> = start + closed_length blk" using closed_length_pos [OF True] by simp
    finally show ?thesis using split True len by (simp add: closed_length_append)
  next
    case False
    then have step: "scan_back bytes cursor = (if start = 0 then 0 else scan_back bytes start)"
      by (subst scan_back.simps) (simp add: last_newline_closed start_def blk_def Let_def)
    show ?thesis
    proof (cases "start = 0")
      case True
      with step split False show ?thesis by (simp add: closed_length_none)
    next
      case nz: False
      have "scan_back bytes start = closed_length (take start bytes)"
        using 1(1) [OF start_def blk_def _ nz] False 1(2)
        by (simp add: last_newline_closed start_def)
      with step nz split False show ?thesis by (simp add: closed_length_append)
    qed
  qed
qed

lemma scan_back_whole: "scan_back bytes (length bytes) = closed_length bytes"
  by (simp add: scan_back_reference)

section \<open>Repair\<close>

text \<open>
  The records of a log: its closed lines, and the open one when it is a complete JSON value.
\<close>

definition committed :: "codec \<Rightarrow> string \<Rightarrow> string list" where
  "committed c s =
     closed_lines s @ (if open_line s \<noteq> [] \<and> jc_complete c (open_line s) then [open_line s] else [])"

abbreviation file_text :: "string option \<Rightarrow> string" where
  "file_text f \<equiv> unwrap_or f []"

lemma closed_lines_all: "list_all (\<lambda>l. nl \<notin> set l) (closed_lines s)"
proof (induction s)
  case (Cons c s)
  then show ?case by (cases "closed_lines s") auto
qed simp

lemma closed_lines_clean: "l \<in> set (closed_lines s) \<Longrightarrow> nl \<notin> set l"
  using closed_lines_all [of s] by (auto simp: list_all_iff)

lemma committed_clean: "l \<in> set (committed c s) \<Longrightarrow> nl \<notin> set l"
  using open_line_clean [of s] closed_lines_clean by (auto simp: committed_def split: if_splits)

lemma committed_framed_append:
  assumes "\<And>l. l \<in> set ls \<Longrightarrow> nl \<notin> set l" and "nl \<notin> set t"
  shows "committed c (framed ls @ t) = ls @ (if t \<noteq> [] \<and> jc_complete c t then [t] else [])"
  using assms by (simp add: committed_def closed_lines_framed open_line_framed_append)

lemma committed_framed:
  "(\<And>l. l \<in> set ls \<Longrightarrow> nl \<notin> set l) \<Longrightarrow> committed c (framed ls) = ls"
  using committed_framed_append [of ls "[]"] by simp

lemma framed_committed_closed: "open_line s = [] \<Longrightarrow> framed (committed c s) = s"
  using framed_open [of s] by (simp add: committed_def)

lemma framed_committed_open:
  "open_line s \<noteq> [] \<Longrightarrow> framed (committed c s) =
     (if jc_complete c (open_line s) then s @ [nl] else take (closed_length s) s)"
  using framed_open [of s] by (simp add: committed_def take_closed)

text \<open>Every outcome: an error leaves the bytes, success leaves exactly the records, closed.\<close>

lemma repair_cases:
  assumes "repair_incomplete_tail c dk file = (res, f)"
  obtains (fault) e where "res = Inl e" "file_text f = file_text file" "f = file \<or> f = Some (file_text file)"
  | (repaired) "res = Inr (length (framed (committed c (file_text file))))"
      "f = Some (framed (committed c (file_text file)))"
proof -
  define s where "s = file_text file"
  have r: "scan_back s (length s) = closed_length s" "drop (closed_length s) s = open_line s"
    by (simp_all add: scan_back_whole drop_closed)
  have cl: "closed_length s \<le> length s" by (simp add: closed_length_def)
  have ft: "unwrap_or file [] = s" by (simp add: s_def)
  note eqs = framed_committed_closed [of s c] framed_committed_open [of s c]
    open_line_empty_iff [of s] cl ft
  have "(\<exists>e. res = Inl e) \<and> (f = file \<or> f = Some s)
      \<or> res = Inr (length (framed (committed c s))) \<and> f = Some (framed (committed c s))"
    using assms eqs unfolding repair_incomplete_tail_def ft Let_def r
    by (auto split: option.splits if_splits)
  with that ft show thesis unfolding s_def by (metis unwrap_or_simps(2))
qed

lemma repair_result_closed: "open_line (framed (committed c s)) = []"
  by simp

lemma repair_idempotent: "committed c (framed (committed c s)) = committed c s"
  by (rule committed_framed) (rule committed_clean)

section \<open>Sequence numbers of a well-formed log\<close>

definition line_seq :: "codec \<Rightarrow> string \<Rightarrow> nat option" where
  "line_seq c l = Option.bind (jc_parse c l) (\<lambda>v. get_u64 v ''seq'')"

definition seq_line :: "codec \<Rightarrow> string \<Rightarrow> bool" where
  "seq_line c l = (plain_line l \<and> utf8_valid l \<and> trim l \<noteq> [] \<and> line_seq c l \<noteq> None)"

definition line_seqs :: "codec \<Rightarrow> string list \<Rightarrow> nat list" where
  "line_seqs c ls = map (\<lambda>l. the (line_seq c l)) ls"

lemma list_max_None [simp]: "list_max ns = None \<longleftrightarrow> ns = []"
  by (cases ns) (auto split: option.splits)

lemma list_max_ge: "list_max ns = Some m \<Longrightarrow> n \<in> set ns \<Longrightarrow> n \<le> m"
  by (induction ns arbitrary: m) (fastforce split: option.splits)+

lemma scan_seqs_framed:
  assumes "\<And>l. l \<in> set ls \<Longrightarrow> seq_line c l"
  shows "scan_seqs c (framed ls) = line_seqs c ls"
proof -
  have lines: "str_lines (framed ls) = ls"
    using assms by (intro lines_framed) (simp add: seq_line_def)
  have "filter_map (\<lambda>v. get_u64 v ''seq'') (filter_map (jc_parse c) (filter (\<lambda>l. trim l \<noteq> []) ls))
      = line_seqs c ls"
    using assms
  proof (induction ls)
    case (Cons l ls)
    from Cons.prems [of l] obtain v n where "jc_parse c l = Some v" "get_u64 v ''seq'' = Some n"
      and "trim l \<noteq> []"
      by (auto simp: seq_line_def line_seq_def bind_eq_Some_conv)
    with Cons show ?case by (simp add: line_seqs_def line_seq_def)
  qed (simp add: line_seqs_def)
  with lines show ?thesis by (simp add: scan_seqs_def)
qed

text \<open>A cut in a framed text leaves the rest of one line and the lines after it.\<close>

lemma framed_cut:
  assumes "k < length (framed ls)" and "\<And>l. l \<in> set ls \<Longrightarrow> nl \<notin> set l"
  obtains p ms where "drop k (framed ls) = p @ nl # framed ms" "nl \<notin> set p" "suffix ms ls"
  using assms
proof (induction ls arbitrary: k thesis)
  case Nil
  then show ?case by simp
next
  case (Cons l ls)
  show ?case
  proof (cases "k \<le> length l")
    case True
    then have "drop k (framed (l # ls)) = drop k l @ nl # framed ls" by simp
    moreover have "nl \<notin> set (drop k l)" using Cons.prems(3) [of l] by (auto dest: in_set_dropD)
    moreover have "suffix ls (l # ls)" by (simp add: suffix_ConsI)
    ultimately show ?thesis by (rule Cons.prems(1))
  next
    case False
    then obtain j where j: "k = Suc (length l) + j" by (metis Suc_leI add.commute le_Suc_ex not_le)
    with Cons.prems(2) have "j < length (framed ls)" by simp
    then obtain p ms where "drop j (framed ls) = p @ nl # framed ms" "nl \<notin> set p" "suffix ms ls"
      using Cons.IH Cons.prems(3) by (metis list.set_intros(2))
    moreover have "drop k (framed (l # ls)) = drop j (framed ls)" using j by simp
    ultimately show ?thesis using Cons.prems(1) by (metis suffix_ConsI)
  qed
qed

lemma tail_scan_suffix:
  assumes "\<And>l. l \<in> set ls \<Longrightarrow> seq_line c l" and "ls \<noteq> []"
  obtains ms where "max_seq_in_tail c (framed ls) = list_max (line_seqs c ms)" "suffix ms ls"
proof (cases "TAIL_WINDOW < length (framed ls)")
  case False
  have "utf8_lossy (framed ls) = framed ls"
    using utf8_framed [of ls "[]"] assms(1) by (simp add: utf8_lossy_valid seq_line_def)
  with False have "max_seq_in_tail c (framed ls) = list_max (line_seqs c ls)"
    using scan_seqs_framed [of ls c] assms(1)
    by (simp add: max_seq_in_tail_def scan_max_seq_def Let_def)
  then show thesis using that by blast
next
  case True
  have clean: "nl \<notin> set l" if "l \<in> set ls" for l
    using assms(1) [OF that] by (simp add: seq_line_def plain_line_def)
  have "length (framed ls) - TAIL_WINDOW < length (framed ls)"
    using True by (simp add: TAIL_WINDOW_def)
  then obtain p ms where cut: "drop (length (framed ls) - TAIL_WINDOW) (framed ls) = p @ nl # framed ms"
    and p: "nl \<notin> set p" and ms: "suffix ms ls"
    using framed_cut clean by blast
  have sub: "seq_line c l" if "l \<in> set ms" for l
    using assms(1) ms that set_mono_suffix by blast
  have "utf8_lossy (framed ms) = framed ms"
    using utf8_framed [of ms "[]"] sub by (simp add: utf8_lossy_valid seq_line_def)
  then have "utf8_lossy (p @ nl # framed ms) = utf8_lossy p @ nl # framed ms"
    by (simp add: utf8_lossy_split)
  then have "max_seq_in_tail c (framed ls) = scan_max_seq c (framed ms)"
    using True cut utf8_lossy_no_newline [OF p]
    by (simp add: max_seq_in_tail_def Let_def split_line_append)
  then show thesis using that ms scan_seqs_framed [of ms c] sub by (simp add: scan_max_seq_def)
qed

text \<open>On a log whose numbers increase, the seeded counter is above all of them.\<close>

lemma next_seq_fresh:
  assumes lines: "\<And>l. l \<in> set ls \<Longrightarrow> seq_line c l"
    and inc: "sorted_wrt (<) (line_seqs c ls)"
    and read: "dk_stat dk" "dk_full dk"
    and n: "n \<in> set (line_seqs c ls)"
  shows "n < next_seq c dk (Some (framed ls))"
proof -
  from n have ne: "ls \<noteq> []" by (auto simp: line_seqs_def)
  have valid: "utf8_valid (framed ls)"
    using utf8_framed [of ls "[]"] lines by (simp add: seq_line_def)
  have full: "scan_max_seq c (framed ls) = list_max (line_seqs c ls)"
    using scan_seqs_framed [of ls c] lines by (simp add: scan_max_seq_def)
  have top: "n \<le> m" if "list_max (line_seqs c ms) = Some m" "suffix ms ls" for ms m
  proof -
    from that(1) have "ms \<noteq> []" by (auto simp: line_seqs_def)
    then obtain ms' l where msl: "ms = ms' @ [l]" by (metis rev_exhaust)
    with that(2) obtain ls' where lsl: "ls = ls' @ [l]" by (auto simp: suffix_def)
    with inc n have "n \<le> the (line_seq c l)" by (auto simp: line_seqs_def sorted_wrt_append)
    moreover have "the (line_seq c l) \<le> m"
      using that(1) msl by (intro list_max_ge) (auto simp: line_seqs_def)
    ultimately show "n \<le> m" by simp
  qed
  obtain ms where tail: "max_seq_in_tail c (framed ls) = list_max (line_seqs c ms)" "suffix ms ls"
    using tail_scan_suffix lines ne by blast
  obtain k where k: "list_max (line_seqs c ls) = Some k"
    using ne by (cases "list_max (line_seqs c ls)") (auto simp: line_seqs_def)
  show ?thesis
    using ne read valid full k tail top [of ms] top [OF k]
    by (auto simp: next_seq_def split: option.splits)
qed

end
