(* ===== verification/Event_Writer.thy ===== *)
theory Event_Writer
  imports Event_Repair
begin

text \<open>
  The invariant of the event store: in every log the committed records are well-formed lines
  with strictly increasing sequence numbers, and a writer that has repaired its log allocates a
  number above all of them. One lemma per operation of the writer: each keeps the invariant, on
  every answer of the file system that leaves the log readable, and what it does to the records.
\<close>

text \<open>
  The JSON crate on the values of class \<open>P\<close> (the records that get written): the printed text is
  one non-empty UTF-8 line, reads back with the same sequence number, and is complete while no
  proper part of it is.
\<close>

definition codec_ok :: "codec \<Rightarrow> (json \<Rightarrow> bool) \<Rightarrow> bool" where
  "codec_ok c P =
     (\<forall>v n. P v \<longrightarrow> get_u64 v ''seq'' = Some n \<longrightarrow>
        plain_line (jc_text c v) \<and> utf8_valid (jc_text c v) \<and> trim (jc_text c v) \<noteq> []
      \<and> (\<exists>u. jc_parse c (jc_text c v) = Some u \<and> P u \<and> get_u64 u ''seq'' = Some n)
      \<and> jc_complete c (jc_text c v)
      \<and> (\<forall>k. 0 < k \<longrightarrow> k < length (jc_text c v) \<longrightarrow> \<not> jc_complete c (take k (jc_text c v))))"

definition readable :: "disk \<Rightarrow> bool" where
  "readable dk = (dk_stat dk \<and> dk_full dk)"

definition wf_record :: "codec \<Rightarrow> (json \<Rightarrow> bool) \<Rightarrow> string \<Rightarrow> bool" where
  "wf_record c P l = (seq_line c l \<and> (\<exists>v. jc_parse c l = Some v \<and> P v))"

abbreviation log_records :: "codec \<Rightarrow> event_store \<Rightarrow> string \<Rightarrow> string list" where
  "log_records c st r \<equiv> committed c (file_text (es_files st r))"

definition log_ok :: "codec \<Rightarrow> (json \<Rightarrow> bool) \<Rightarrow> string \<Rightarrow> bool" where
  "log_ok c P bytes =
     ((\<forall>l\<in>set (committed c bytes). wf_record c P l)
      \<and> sorted_wrt (<) (line_seqs c (committed c bytes)))"

definition writer_ok :: "codec \<Rightarrow> run_writer \<Rightarrow> string \<Rightarrow> bool" where
  "writer_ok c w bytes =
     (w_tail_repaired w \<longrightarrow>
        open_line bytes = [] \<and> (\<forall>n\<in>set (line_seqs c (committed c bytes)). n < w_next_seq w))"

definition logs_ok :: "codec \<Rightarrow> (json \<Rightarrow> bool) \<Rightarrow> event_store \<Rightarrow> bool" where
  "logs_ok c P st =
     (\<forall>r. log_ok c P (file_text (es_files st r))
        \<and> (\<forall>w. map_of (es_writers st) r = Some w \<longrightarrow> writer_ok c w (file_text (es_files st r))))"

section \<open>Updates\<close>

lemma set_file_simps [simp]:
  "es_files (set_file r f st) = (es_files st)(r := f)"
  "es_writers (set_file r f st) = es_writers st"
  "es_files (set_writer r w st) = es_files st"
  "map_of (es_writers (set_writer r w st)) = (map_of (es_writers st))(r \<mapsto> w)"
  by (simp_all add: set_file_def set_writer_def)

lemma unrepaired_ok [simp]: "\<not> w_tail_repaired w \<Longrightarrow> writer_ok c w bytes"
  by (simp add: writer_ok_def)

lemma logs_okD:
  "logs_ok c P st \<Longrightarrow> log_ok c P (file_text (es_files st r))"
  "logs_ok c P st \<Longrightarrow> map_of (es_writers st) r = Some w
     \<Longrightarrow> writer_ok c w (file_text (es_files st r))"
  by (simp_all add: logs_ok_def)

lemma logs_ok_set:
  assumes "logs_ok c P st" and "log_ok c P (file_text f)" and "writer_ok c w (file_text f)"
  shows "logs_ok c P (set_writer r w (set_file r f st))"
  using assms by (simp add: logs_ok_def)

lemma logs_ok_set_writer:
  assumes "logs_ok c P st" and "writer_ok c w (file_text (es_files st r))"
  shows "logs_ok c P (set_writer r w st)"
  using assms by (simp add: logs_ok_def)

lemma logs_ok_same_text:
  assumes "logs_ok c P st" and "file_text f = file_text (es_files st r)"
  shows "logs_ok c P (set_file r f st)"
  using assms by (simp add: logs_ok_def)

lemma log_ok_repaired: "log_ok c P s \<Longrightarrow> log_ok c P (framed (committed c s))"
  by (simp add: log_ok_def repair_idempotent)

lemma log_ok_lines: "log_ok c P s \<Longrightarrow> l \<in> set (committed c s) \<Longrightarrow> seq_line c l"
  by (simp add: log_ok_def wf_record_def)

lemma line_seqs_append [simp]: "line_seqs c (ls @ ms) = line_seqs c ls @ line_seqs c ms"
  by (simp add: line_seqs_def)

lemma line_seqs_single [simp]: "line_seqs c [l] = [the (line_seq c l)]"
  by (simp add: line_seqs_def)

section \<open>The lock and the repair\<close>

lemma map_of_evict:
  "map_of (evict_locks held ws) q = (if length ws \<le> 50 \<or> q \<in> set held then map_of ws q else None)"
proof -
  have "map_of (filter (\<lambda>(r, _). r \<in> set held) ws) q = (if q \<in> set held then map_of ws q else None)"
    by (induction ws) auto
  then show ?thesis by (simp add: evict_locks_def)
qed

lemma run_lock_ok:
  assumes "run_lock c dk held r st = (w, st1)" and "logs_ok c P st"
  shows "logs_ok c P st1" and "es_files st1 = es_files st"
    and "map_of (es_writers st1) r = Some w"
proof -
  let ?ws = "evict_locks held (es_writers st)"
  have kept: "map_of ?ws q = Some v \<Longrightarrow> map_of (es_writers st) q = Some v" for q v
    using map_of_evict [of held "es_writers st" q] by (simp split: if_splits)
  have base: "logs_ok c P (st\<lparr>es_writers := ?ws\<rparr>)"
    using assms(2) kept by (simp add: logs_ok_def)
  have "logs_ok c P (set_writer r w (st\<lparr>es_writers := ?ws\<rparr>))" if "\<not> w_tail_repaired w" for w
    using base that by (intro logs_ok_set_writer) simp_all
  with base assms(1) show "logs_ok c P st1" and "es_files st1 = es_files st"
    and "map_of (es_writers st1) r = Some w"
    by (cases "map_of ?ws r"; auto simp: run_lock_def Let_def)+
qed

lemma ensure_ok:
  assumes "ensure_tail_repaired c dk r w st = (res, st2)" and "logs_ok c P st"
    and "map_of (es_writers st) r = Some w" and "readable dk"
  shows "logs_ok c P st2" and "log_records c st2 q = log_records c st q"
    and "res = Inr w2 \<Longrightarrow> w_tail_repaired w2 \<and> map_of (es_writers st2) r = Some w2"
proof -
  have "logs_ok c P st2 \<and> (\<forall>q. log_records c st2 q = log_records c st q)
      \<and> (\<forall>w2. res = Inr w2 \<longrightarrow> w_tail_repaired w2 \<and> map_of (es_writers st2) r = Some w2)"
  proof (cases "w_tail_repaired w")
    case True
    with assms show ?thesis by (auto simp: ensure_tail_repaired_def)
  next
    case False
    obtain rr f where rep: "repair_incomplete_tail c dk (es_files st r) = (rr, f)" by fastforce
    then show ?thesis
    proof (cases rule: repair_cases)
      case (fault e)
      with rep False assms(1) have "res = Inl e" "st2 = set_file r f st"
        by (auto simp: ensure_tail_repaired_def)
      with fault(2) assms(2) show ?thesis by (simp add: logs_ok_same_text)
    next
      case repaired
      let ?ls = "log_records c st r" and ?n = "next_seq c dk f"
      from repaired rep False assms(1)
      have st2: "res = Inr \<lparr>w_next_seq = ?n, w_tail_repaired = True\<rparr>"
          "st2 = set_writer r \<lparr>w_next_seq = ?n, w_tail_repaired = True\<rparr> (set_file r f st)"
        by (auto simp: ensure_tail_repaired_def Let_def)
      have ok: "log_ok c P (file_text (es_files st r))" by (rule logs_okD [OF assms(2)])
      have "m < ?n" if "m \<in> set (line_seqs c ?ls)" for m
        unfolding repaired(2) using ok assms(4) that
        by (intro next_seq_fresh) (auto simp: log_ok_def wf_record_def readable_def)
      then have "writer_ok c \<lparr>w_next_seq = ?n, w_tail_repaired = True\<rparr> (file_text f)"
        using repaired(2) by (simp add: writer_ok_def repair_idempotent)
      then have "logs_ok c P st2" unfolding st2
        using ok repaired(2) by (intro logs_ok_set assms(2)) (simp_all add: log_ok_repaired)
      moreover have "log_records c st2 q = log_records c st q" for q
        using st2 repaired(2) by (simp add: repair_idempotent)
      ultimately show ?thesis using st2 by simp
    qed
  qed
  then show "logs_ok c P st2" and "log_records c st2 q = log_records c st q"
    and "res = Inr w2 \<Longrightarrow> w_tail_repaired w2 \<and> map_of (es_writers st2) r = Some w2"
    by simp_all
qed

section \<open>Writing\<close>

lemma codec_okD:
  assumes "codec_ok c P" and "P v" and "get_u64 v ''seq'' = Some n"
  shows "wf_record c P (jc_text c v)" and "line_seq c (jc_text c v) = Some n"
    and "nl \<notin> set (jc_text c v)" and "jc_text c v \<noteq> []" and "jc_complete c (jc_text c v)"
    and "0 < k \<Longrightarrow> k < length (jc_text c v) \<Longrightarrow> \<not> jc_complete c (take k (jc_text c v))"
proof -
  have *: "plain_line (jc_text c v) \<and> utf8_valid (jc_text c v) \<and> trim (jc_text c v) \<noteq> []
      \<and> (\<exists>u. jc_parse c (jc_text c v) = Some u \<and> P u \<and> get_u64 u ''seq'' = Some n)
      \<and> jc_complete c (jc_text c v)
      \<and> (\<forall>k. 0 < k \<longrightarrow> k < length (jc_text c v) \<longrightarrow> \<not> jc_complete c (take k (jc_text c v)))"
    using assms unfolding codec_ok_def by blast
  then show "wf_record c P (jc_text c v)" and "line_seq c (jc_text c v) = Some n"
    by (auto simp: wf_record_def seq_line_def line_seq_def)
  from * show "nl \<notin> set (jc_text c v)" and "jc_text c v \<noteq> []" and "jc_complete c (jc_text c v)"
    by (simp_all add: plain_line_def)
  from * show "0 < k \<Longrightarrow> k < length (jc_text c v) \<Longrightarrow> \<not> jc_complete c (take k (jc_text c v))"
    by blast
qed

lemma log_ok_extend:
  assumes "log_ok c P s" and "wf_record c P l" and "line_seq c l = Some n"
    and "\<And>m. m \<in> set (line_seqs c (committed c s)) \<Longrightarrow> m < n"
    and "committed c t = committed c s @ [l]"
  shows "log_ok c P t"
  using assms by (auto simp: log_ok_def sorted_wrt_append)

text \<open>
  What a write does to the records: the new one is appended under a fresh number, or the records
  stay; a failed write can do either, depending on how much reached the file.
\<close>

lemma write_record_ok:
  assumes run: "write_record c dk held r build st = (res, st')"
    and ok: "logs_ok c P st" and codec: "codec_ok c P" and read: "readable dk"
    and build: "\<And>n. P (build n) \<and> get_u64 (build n) ''seq'' = Some n"
  obtains (written) n where "logs_ok c P st'"
      "\<And>q. q \<noteq> r \<Longrightarrow> log_records c st' q = log_records c st q"
      "log_records c st' r = log_records c st r @ [jc_text c (build n)]"
      "\<And>m. m \<in> set (line_seqs c (log_records c st r)) \<Longrightarrow> m < n"
      "res = Inr n \<and> open_line (file_text (es_files st' r)) = [] \<or> (\<exists>e. res = Inl (WriteFault e))"
  | (kept) f where "logs_ok c P st'" "\<And>q. log_records c st' q = log_records c st q" "res = Inl f"
proof -
  obtain w st1 where lock: "run_lock c dk held r st = (w, st1)" by fastforce
  note st1 = run_lock_ok [OF lock ok]
  obtain er st2 where ens: "ensure_tail_repaired c dk r w st1 = (er, st2)" by fastforce
  note st2 = ensure_ok [OF ens st1(1,3) read]
  have same: "log_records c st2 q = log_records c st q" for q using st2(2) st1(2) by simp
  show thesis
  proof (cases er)
    case (Inl e)
    with run lock ens have "res = Inl (RepairFault e)" "st' = st2"
      by (simp_all add: write_record_def)
    with st2(1) same show thesis by (intro kept) auto
  next
    case (Inr w2)
    with st2(3) have w2: "w_tail_repaired w2" "map_of (es_writers st2) r = Some w2" by auto
    define n line old where "n = w_next_seq w2" and "line = jc_text c (build n)"
      and "old = file_text (es_files st2 r)"
    have P: "P (build n)" "get_u64 (build n) ''seq'' = Some n" using build by auto
    note c = codec_okD [OF codec P, folded line_def]
    have wok: "open_line old = []" "\<And>m. m \<in> set (line_seqs c (committed c old)) \<Longrightarrow> m < n"
      using logs_okD(2) [OF st2(1) w2(2)] w2(1) by (auto simp: writer_ok_def old_def n_def)
    have lok: "log_ok c P old" unfolding old_def by (rule logs_okD [OF st2(1)])
    have old: "old = framed (committed c old)"
      using wok(1) by (simp add: framed_committed_closed)
    have tail: "committed c (old @ t) =
        committed c old @ (if t \<noteq> [] \<and> jc_complete c t then [t] else [])"
      if "nl \<notin> set t" for t
    proof -
      have "committed c (framed (committed c old) @ t) =
          committed c old @ (if t \<noteq> [] \<and> jc_complete c t then [t] else [])"
        by (rule committed_framed_append [OF committed_clean that])
      then show ?thesis using old by simp
    qed
    have recs: "log_records c st r = committed c old" using same [of r] by (simp add: old_def)
    have full: "committed c (old @ line) = committed c old @ [line]"
      using tail [of line] c by simp
    have closed: "committed c (old @ line @ [nl]) = committed c old @ [line]"
    proof -
      have "committed c (framed (committed c old @ [line])) = committed c old @ [line]"
        using c(3) committed_clean by (intro committed_framed) auto
      moreover have "framed (committed c old @ [line]) = old @ line @ [nl]" using old by simp
      ultimately show ?thesis by simp
    qed
    consider (nodir) f where "res = Inl f" "st' = st2"
      | (part) k e where "res = Inl (WriteFault e)"
          "st' = set_writer r (w2\<lparr>w_tail_repaired := False\<rparr>)
                   (set_file r (Some (old @ take (min k (length line)) line)) st2)"
      | (success) "res = Inr n"
          "st' = set_writer r (w2\<lparr>w_next_seq := n + 1\<rparr>)
                   (set_file r (Some (old @ line @ [nl])) st2)"
      using run lock ens Inr unfolding write_record_def n_def line_def old_def
      by (cases "dk_mkdir dk"; cases "dk_append dk"; cases "dk_write dk") (auto simp: Let_def)
    then show thesis
    proof cases
      case nodir
      with st2(1) same show thesis by (intro kept) auto
    next
      case success
      have "log_ok c P (old @ line @ [nl])" using log_ok_extend [OF lok c(1,2) wok(2) closed] .
      moreover have "writer_ok c (w2\<lparr>w_next_seq := n + 1\<rparr>) (old @ line @ [nl])"
        using wok(2) c(2) closed open_line_empty_iff [of "old @ line @ [nl]"]
        by (auto simp: writer_ok_def less_Suc_eq)
      ultimately have "logs_ok c P st'"
        unfolding success(2) using st2(1) by (intro logs_ok_set) simp_all
      then show thesis
        using success same recs closed wok(2) open_line_empty_iff [of "old @ line @ [nl]"]
        by (intro written [of n]) (auto simp: line_def)
    next
      case (part k e)
      define t where "t = take (min k (length line)) line"
      have new: "log_records c st' r = committed c (old @ t)"
        and others: "\<And>q. q \<noteq> r \<Longrightarrow> log_records c st' q = log_records c st q"
        using part(2) same by (simp_all add: t_def)
      have t: "nl \<notin> set t" using c(3) by (auto simp: t_def dest: in_set_takeD)
      have ct: "committed c (old @ t) = committed c old @ (if t = line then [line] else [])"
      proof (cases "t = line \<or> t = []")
        case True
        then show ?thesis using full c(4) tail [of "[]"] by auto
      next
        case False
        then have "0 < min k (length line)" "min k (length line) < length line"
          by (auto simp: t_def min_def split: if_splits)
        then have "\<not> jc_complete c t" unfolding t_def by (rule c(6))
        with False show ?thesis using tail [OF t] by simp
      qed
      have "log_ok c P (old @ t)"
      proof (cases "t = line")
        case True
        with ct log_ok_extend [OF lok c(1,2) wok(2)] show ?thesis by simp
      next
        case False
        with ct lok show ?thesis by (simp add: log_ok_def)
      qed
      then have ok': "logs_ok c P st'"
        unfolding part(2) t_def [symmetric] using st2(1) by (intro logs_ok_set) simp_all
      show thesis
      proof (cases "t = line")
        case True
        with new ct recs have "log_records c st' r = log_records c st r @ [line]" by simp
        with ok' others part(1) wok(2) show thesis
          by (intro written [of n]) (auto simp: line_def recs)
      next
        case False
        with new ct recs have "log_records c st' r = log_records c st r" by simp
        with others have "log_records c st' q = log_records c st q" for q by (cases "q = r") auto
        with ok' part(1) show thesis by (intro kept)
      qed
    qed
  qed
qed

end
