(* ===== verification/Event_Log_Props.thy ===== *)
theory Event_Log_Props
  imports Event_Writer
begin

text \<open>
  The event log along any sequence of operations: writes that succeed or stop halfway, restarts
  of the process, evicted locks, snapshots and forks. The operations are a step relation, its
  invariant is \<open>logs_ok\<close>, and the properties read off what the records of a log go through.
\<close>

section \<open>Snapshots and forks keep the invariant\<close>

lemma logs_ok_repaired_file:
  assumes rep: "repair_incomplete_tail c dk (es_files st r) = (rr, f)" and ok: "logs_ok c P st"
  shows "logs_ok c P (set_file r f st)
    \<and> (\<forall>q. log_records c (set_file r f st) q = log_records c st q)"
  using rep
proof (cases rule: repair_cases)
  case (fault e)
  with ok show ?thesis by (simp add: logs_ok_same_text)
next
  case repaired
  let ?s = "file_text (es_files st r)"
  have "writer_ok c w (framed (committed c ?s))" if "map_of (es_writers st) r = Some w" for w
    using logs_okD(2) [OF ok that] by (simp add: writer_ok_def repair_idempotent)
  with logs_okD(1) [OF ok, of r] ok repaired(2) show ?thesis
    by (simp add: logs_ok_def log_ok_repaired repair_idempotent)
qed

lemma snapshot_ok:
  assumes run: "snapshot c dk held r st = (res, st')"
    and ok: "logs_ok c P st" and read: "readable dk"
  shows "logs_ok c P st'" and "log_records c st' q = log_records c st q"
    and "res = Inr len \<Longrightarrow> take len (file_text (es_files st' r)) = framed (log_records c st r)"
proof -
  obtain w st1 where lock: "run_lock c dk held r st = (w, st1)" by fastforce
  note st1 = run_lock_ok [OF lock ok]
  obtain er st2 where ens: "ensure_tail_repaired c dk r w st1 = (er, st2)" by fastforce
  note st2 = ensure_ok [OF ens st1(1,3) read]
  obtain rr f where rep: "repair_incomplete_tail c dk (es_files st2 r) = (rr, f)" by fastforce
  have keep: "logs_ok c P (set_file r f st2)" "log_records c (set_file r f st2) q = log_records c st q"
    for q
    using logs_ok_repaired_file [OF rep st2(1)] st2(2) st1(2) by simp_all
  have "(st' = st1 \<or> st' = st2 \<or> st' = set_file r f st2) \<and>
      (\<forall>len. res = Inr len \<longrightarrow> st' = set_file r f st2 \<and> (\<exists>n. rr = Inr n) \<and> len = length (file_text f))"
    using run lock ens rep
    by (cases "dk_mkdir dk"; cases er; cases rr; cases "dk_reopen dk")
       (auto simp: snapshot_def capture_event_log_snapshot_def Let_def)
  then have which: "st' = st1 \<or> st' = st2 \<or> st' = set_file r f st2"
    and len: "\<And>len. res = Inr len \<Longrightarrow> st' = set_file r f st2 \<and> (\<exists>n. rr = Inr n) \<and> len = length (file_text f)"
    by blast+
  from which st1 st2 keep show "logs_ok c P st'" by auto
  from which st1 st2 keep show "log_records c st' q = log_records c st q" by auto
  assume "res = Inr len"
  with len have l: "st' = set_file r f st2" "\<exists>n. rr = Inr n" "len = length (file_text f)" by auto
  from rep l(2) have "file_text f = framed (log_records c st2 r)"
    by (cases rule: repair_cases) auto
  with l st2(2) st1(2) show "take len (file_text (es_files st' r)) = framed (log_records c st r)"
    by simp
qed

text \<open>The fork's lines: one per content envelope of the source, numbered from 1.\<close>

definition content_envelope :: "codec \<Rightarrow> string \<Rightarrow> json option" where
  "content_envelope c l =
     (if trim l = [] then None
      else opt_filter (\<lambda>env. get_bool env ''_bus'' = Some True
                             \<and> envelope_type env \<in> set CONTENT_TYPES) (jc_parse c l))"

fun number_from :: "nat \<Rightarrow> (nat \<Rightarrow> 'a \<Rightarrow> 'b) \<Rightarrow> 'a list \<Rightarrow> 'b list" where
  "number_from n f [] = []"
| "number_from n f (x # xs) = f (Suc n) x # number_from (Suc n) f xs"

lemma number_from_append:
  "number_from n f (xs @ ys) = number_from n f xs @ number_from (n + length xs) f ys"
  by (induction xs arbitrary: n) simp_all

lemma length_number_from [simp]: "length (number_from n f xs) = length xs"
  by (induction xs arbitrary: n) simp_all

lemma set_number_from: "y \<in> set (number_from n f xs) \<Longrightarrow> \<exists>k x. x \<in> set xs \<and> y = f k x"
proof (induction xs arbitrary: n)
  case (Cons a xs)
  then show ?case by (cases "y = f (Suc n) a") (auto, blast)
qed simp

definition fork_lines :: "codec \<Rightarrow> string \<Rightarrow> string list \<Rightarrow> string list" where
  "fork_lines c to ls =
     number_from 0 (\<lambda>n env. jc_text c (fork_envelope to n env)) (filter_map (content_envelope c) ls)"

definition copies ::
  "codec \<Rightarrow> string \<Rightarrow> string list \<Rightarrow> nat \<Rightarrow> string \<Rightarrow> string + nat \<times> nat \<Rightarrow> string \<Rightarrow> bool" where
  "copies c to ls copied out res body =
     (\<exists>ms. prefix ms ls \<and>
        body = out @ framed (number_from copied (\<lambda>n env. jc_text c (fork_envelope to n env))
                              (filter_map (content_envelope c) ms))
      \<and> (\<forall>k s. res = Inr (k, s) \<longrightarrow>
           ms = ls \<and> k = copied + length (filter_map (content_envelope c) ls))
      \<and> (list_all utf8_valid ls \<longrightarrow> (\<exists>k s. res = Inr (k, s))))"

lemma copies_skip:
  assumes "copies c to ls copied out res body" and "content_envelope c l = None"
  shows "copies c to (l # ls) copied out res body"
proof -
  from assms(1) obtain ms where ms: "prefix ms ls"
      "body = out @ framed (number_from copied (\<lambda>n env. jc_text c (fork_envelope to n env))
                            (filter_map (content_envelope c) ms))"
      "\<And>k s. res = Inr (k, s) \<Longrightarrow>
         ms = ls \<and> k = copied + length (filter_map (content_envelope c) ls)"
      "list_all utf8_valid ls \<Longrightarrow> \<exists>k s. res = Inr (k, s)"
    unfolding copies_def by blast
  with assms(2) show ?thesis unfolding copies_def by (intro exI [of _ "l # ms"]) auto
qed

lemma copies_take:
  assumes "copies c to ls (Suc copied)
             (out @ jc_text c (fork_envelope to (Suc copied) env) @ [nl]) res body"
    and "content_envelope c l = Some env"
  shows "copies c to (l # ls) copied out res body"
proof -
  from assms(1) obtain ms where ms: "prefix ms ls"
      "body = (out @ jc_text c (fork_envelope to (Suc copied) env) @ [nl])
          @ framed (number_from (Suc copied) (\<lambda>n env. jc_text c (fork_envelope to n env))
                     (filter_map (content_envelope c) ms))"
      "\<And>k s. res = Inr (k, s) \<Longrightarrow>
         ms = ls \<and> k = Suc copied + length (filter_map (content_envelope c) ls)"
      "list_all utf8_valid ls \<Longrightarrow> \<exists>k s. res = Inr (k, s)"
    unfolding copies_def by blast
  with assms(2) show ?thesis unfolding copies_def by (intro exI [of _ "l # ms"]) auto
qed

lemma copy_lines_result:
  "copy_lines c to ls copied skipped out = (res, body) \<Longrightarrow> copies c to ls copied out res body"
proof (induction ls arbitrary: copied skipped out)
  case Nil
  then show ?case by (auto simp: copies_def)
next
  case (Cons l ls)
  show ?case
  proof (cases "utf8_valid l")
    case False
    with Cons.prems show ?thesis unfolding copies_def by (intro exI [of _ "[]"]) auto
  next
    case u: True
    show ?thesis
    proof (cases "content_envelope c l")
      case None
      with u Cons.prems have "\<exists>skipped'. copy_lines c to ls copied skipped' out = (res, body)"
        by (auto simp: content_envelope_def split: if_splits option.splits)
      with Cons.IH None show ?thesis by (blast intro: copies_skip)
    next
      case (Some env)
      with u Cons.prems have "copy_lines c to ls (Suc copied) skipped
          (out @ jc_text c (fork_envelope to (Suc copied) env) @ [nl]) = (res, body)"
        by (auto simp: content_envelope_def opt_filter_Some_iff split: if_splits)
      with Cons.IH Some show ?thesis by (blast intro: copies_take)
    qed
  qed
qed

lemma bus_is_object: "get_bool v ''_bus'' = Some True \<Longrightarrow> \<exists>kvs. v = JObj kvs"
  by (cases v) (simp_all add: get_bool_def)

lemma fork_envelope_seq:
  assumes "get_bool env ''_bus'' = Some True"
  shows "get_u64 (fork_envelope to n env) ''seq'' = Some n"
proof -
  obtain kvs where "env = JObj kvs" using bus_is_object [OF assms] ..
  then show ?thesis by (simp add: fork_envelope_def jset_def jnat_def Let_def split: option.splits)
qed

text \<open>The class of records is closed under the rewriting for the fork.\<close>

definition fork_closed :: "(json \<Rightarrow> bool) \<Rightarrow> string \<Rightarrow> bool" where
  "fork_closed P to =
     (\<forall>v n. P v \<longrightarrow> envelope_type v \<in> set CONTENT_TYPES \<longrightarrow> P (fork_envelope to n v))"

lemma fork_line:
  assumes codec: "codec_ok c P" and closed: "fork_closed P to"
    and l: "wf_record c P l" "content_envelope c l = Some env"
  shows "wf_record c P (jc_text c (fork_envelope to n env))"
    and "line_seq c (jc_text c (fork_envelope to n env)) = Some n"
    and "nl \<notin> set (jc_text c (fork_envelope to n env))"
    and "0 < k \<Longrightarrow> k < length (jc_text c (fork_envelope to n env))
      \<Longrightarrow> \<not> jc_complete c (take k (jc_text c (fork_envelope to n env)))"
proof -
  from l have env: "P env" "get_bool env ''_bus'' = Some True" "envelope_type env \<in> set CONTENT_TYPES"
    by (auto simp: wf_record_def content_envelope_def opt_filter_Some_iff split: if_splits)
  with closed have "P (fork_envelope to n env)" by (simp add: fork_closed_def)
  note c = codec_okD [OF codec this fork_envelope_seq [OF env(2)]]
  from c show "wf_record c P (jc_text c (fork_envelope to n env))"
    and "line_seq c (jc_text c (fork_envelope to n env)) = Some n"
    and "nl \<notin> set (jc_text c (fork_envelope to n env))"
    and "0 < k \<Longrightarrow> k < length (jc_text c (fork_envelope to n env))
      \<Longrightarrow> \<not> jc_complete c (take k (jc_text c (fork_envelope to n env)))" by blast+
qed

lemma filter_map_member: "x \<in> set (filter_map f ls) \<Longrightarrow> \<exists>l\<in>set ls. f l = Some x"
  by (induction ls) (auto split: option.splits)

lemma fork_lines_member:
  assumes "x \<in> set (fork_lines c to ls)"
  obtains l env n where "l \<in> set ls" "content_envelope c l = Some env"
    "x = jc_text c (fork_envelope to n env)"
proof -
  from set_number_from [OF assms [unfolded fork_lines_def]]
  obtain n env where "env \<in> set (filter_map (content_envelope c) ls)"
    "x = jc_text c (fork_envelope to n env)" by blast
  with filter_map_member [of env] that show thesis by blast
qed

text \<open>A torn text of printed lines has a prefix of them as its records.\<close>

lemma committed_torn:
  assumes "\<And>l. l \<in> set ls \<Longrightarrow> nl \<notin> set l"
    and "\<And>l j. l \<in> set ls \<Longrightarrow> 0 < j \<Longrightarrow> j < length l \<Longrightarrow> \<not> jc_complete c (take j l)"
  shows "prefix (committed c (take k (framed ls))) ls"
  using assms
proof (induction ls arbitrary: k)
  case Nil
  then show ?case by (simp add: committed_def open_line_def)
next
  case (Cons l ls)
  show ?case
  proof (cases "k \<le> length l")
    case True
    have clean: "nl \<notin> set (take k l)" using Cons.prems(1) [of l] by (auto dest: in_set_takeD)
    have "committed c (take k l) = (if take k l \<noteq> [] \<and> jc_complete c (take k l) then [take k l] else [])"
      using committed_framed_append [of "[]" "take k l" c] clean by simp
    moreover have "take k l = l" if "take k l \<noteq> []" "jc_complete c (take k l)"
      using Cons.prems(2) [of l k] that True by (cases "k < length l") auto
    ultimately show ?thesis using True by auto
  next
    case False
    then obtain j where j: "k = Suc (length l + j)" by (metis less_natE not_le)
    have "committed c (l @ nl # t) = l # committed c t" for t
    proof -
      have "closed_lines (m @ nl # t) = m # closed_lines t" if "nl \<notin> set m" for m
        using that by (induction m) auto
      moreover have "open_line (l @ nl # t) = open_line t"
        by (induction l) (auto simp: open_line_Cons)
      ultimately show ?thesis using Cons.prems(1) by (simp add: committed_def)
    qed
    then have "committed c (take k (framed (l # ls))) = l # committed c (take j (framed ls))"
      using j by simp
    moreover have "prefix (committed c (take j (framed ls))) ls"
      using Cons.IH Cons.prems by (metis list.set_intros(2))
    ultimately show ?thesis by simp
  qed
qed

lemma line_seqs_fork:
  assumes "\<And>l env n. l \<in> set ls \<Longrightarrow> content_envelope c l = Some env
      \<Longrightarrow> line_seq c (jc_text c (fork_envelope to n env)) = Some n"
  shows "line_seqs c (fork_lines c to ls) = [1..<Suc (length (fork_lines c to ls))]"
proof -
  let ?f = "\<lambda>n env. jc_text c (fork_envelope to n env)"
  have "line_seqs c (number_from k ?f xs) = [Suc k..<Suc (k + length xs)]"
    if "\<And>env n. env \<in> set xs \<Longrightarrow> line_seq c (?f n env) = Some n" for k xs
    using that
  proof (induction xs arbitrary: k)
    case (Cons x xs)
    then have "line_seqs c (number_from (Suc k) ?f xs) = [Suc (Suc k)..<Suc (Suc k + length xs)]"
      by (metis list.set_intros(2))
    with Cons.prems [of x] show ?case by (simp add: line_seqs_def upt_conv_Cons del: upt_Suc)
  qed (simp add: line_seqs_def)
  from this [of "filter_map (content_envelope c) ls" 0] show ?thesis
    using assms filter_map_member unfolding fork_lines_def by fastforce
qed

lemma sorted_prefix: "sorted_wrt R ys \<Longrightarrow> prefix xs ys \<Longrightarrow> sorted_wrt R xs"
  by (auto simp: prefix_def sorted_wrt_append)

lemma log_ok_fork_prefix:
  assumes codec: "codec_ok c P" and closed: "fork_closed P to"
    and src: "\<And>l. l \<in> set ls \<Longrightarrow> wf_record c P l"
    and pre: "prefix (committed c s) (fork_lines c to ls)"
  shows "log_ok c P s"
proof -
  note fl = fork_line [OF codec closed]
  have "wf_record c P x" if "x \<in> set (committed c s)" for x
  proof -
    from that pre have "x \<in> set (fork_lines c to ls)" by (auto dest: set_mono_prefix)
    then obtain l env n where "l \<in> set ls" "content_envelope c l = Some env"
      "x = jc_text c (fork_envelope to n env)" by (rule fork_lines_member)
    with fl(1) src show ?thesis by blast
  qed
  moreover have "line_seqs c (fork_lines c to ls) = [1..<Suc (length (fork_lines c to ls))]"
    using fl(2) src by (intro line_seqs_fork) blast
  then have "sorted_wrt (<) (line_seqs c (fork_lines c to ls))" by (simp del: upt_Suc)
  moreover have "prefix (line_seqs c (committed c s)) (line_seqs c (fork_lines c to ls))"
    using pre by (auto simp: prefix_def)
  ultimately show ?thesis by (auto simp: log_ok_def intro: sorted_prefix)
qed

lemma copy_reader_result:
  assumes "copy_bus_events_from_reader c dk (framed ls) to = (res, out)"
    and plain: "\<And>l. l \<in> set ls \<Longrightarrow> plain_line l"
  obtains (copied) s where "res = Inr (length (fork_lines c to ls), s)"
      "out = framed (fork_lines c to ls)"
  | (torn) e k ms where "res = Inl e" "prefix ms ls" "out = take k (framed (fork_lines c to ms))"
proof -
  obtain r body where run: "copy_lines c to ls 0 0 [] = (r, body)" by fastforce
  have lines: "str_lines (framed ls) = ls" using plain by (rule lines_framed)
  from copy_lines_result [OF run] obtain ms where ms: "prefix ms ls"
      "body = framed (fork_lines c to ms)"
      "\<And>k s. r = Inr (k, s) \<Longrightarrow> ms = ls \<and> k = length (filter_map (content_envelope c) ls)"
    by (auto simp: copies_def fork_lines_def)
  show thesis
  proof (cases "dk_copy dk")
    case (Some ke)
    then obtain k e where "dk_copy dk = Some (k, e)" by fastforce
    with assms(1) lines run ms show thesis
      by (intro torn [OF _ ms(1)]) (auto simp: copy_bus_events_from_reader_def)
  next
    case None
    with assms(1) lines run have eq: "res = r" "out = body"
      by (simp_all add: copy_bus_events_from_reader_def)
    show thesis
    proof (cases r)
      case (Inl e)
      with eq ms show thesis by (intro torn [OF _ ms(1), of e "length body"]) auto
    next
      case (Inr ks)
      then obtain k s where "r = Inr (k, s)" by (cases ks) auto
      with eq ms show thesis by (intro copied [of s]) (auto simp: fork_lines_def)
    qed
  qed
qed

text \<open>
  Publishing a copy: the target is untouched, or holds a prefix of the fork's lines (torn or not),
  and on success exactly the fork's lines, with the counter after them.
\<close>

lemma publish_copy_ok:
  assumes run: "publish_copy c dk held from len to st = (res, st')"
    and ok: "logs_ok c P st" and codec: "codec_ok c P" and closed: "fork_closed P to"
    and other: "from \<noteq> to" and src: "take len (file_text (es_files st from)) = framed ls"
    and wf: "\<And>l. l \<in> set ls \<Longrightarrow> wf_record c P l"
  shows "logs_ok c P st'" and "q \<noteq> to \<Longrightarrow> log_records c st' q = log_records c st q"
    and "res = Inr () \<Longrightarrow> es_files st' to = Some (framed (fork_lines c to ls))"
proof -
  obtain w st1 where lock: "run_lock c dk held to st = (w, st1)" by fastforce
  note st1 = run_lock_ok [OF lock ok]
  define st2 where "st2 = set_writer to (w\<lparr>w_tail_repaired := False\<rparr>) st1"
  have ok2: "logs_ok c P st2" unfolding st2_def by (intro logs_ok_set_writer st1) simp
  have files2: "es_files st2 = es_files st" using st1(2) by (simp add: st2_def)
  obtain cr out where copy: "copy_bus_events_from_reader c dk (framed ls) to = (cr, out)" by fastforce
  note fl = fork_line [OF codec closed]
  have plain: "plain_line l" if "l \<in> set ls" for l
    using wf [OF that] by (simp add: wf_record_def seq_line_def)
  have fork_ok: "nl \<notin> set x" "0 < j \<Longrightarrow> j < length x \<Longrightarrow> \<not> jc_complete c (take j x)"
    if "x \<in> set (fork_lines c to ms)" "prefix ms ls" for x ms j
  proof -
    from that(1) obtain l env n where "l \<in> set ms" "content_envelope c l = Some env"
      "x = jc_text c (fork_envelope to n env)" by (rule fork_lines_member)
    moreover from this that(2) have "wf_record c P l" using wf set_mono_prefix by blast
    ultimately show "nl \<notin> set x"
      and "0 < j \<Longrightarrow> j < length x \<Longrightarrow> \<not> jc_complete c (take j x)"
      using fl(3,4) by blast+
  qed
  have log_out: "log_ok c P (take k (framed (fork_lines c to ms)))" if "prefix ms ls" for k ms
    using wf that set_mono_prefix
    by (intro log_ok_fork_prefix [OF codec closed _ committed_torn] fork_ok [OF _ that]) blast+
  consider (early) e where "st' = st2" "res = Inl e"
    | (failed) e where "cr = Inl e" "res = Inl e"
        "st' = set_file to (Some out) (set_file to (Some []) st2)"
    | (published) k s where "cr = Inr (k, s)"
        "st' = set_writer to \<lparr>w_next_seq = k + 1, w_tail_repaired = True\<rparr>
                 (set_file to (Some out) (set_file to (Some []) st2))"
    using run lock copy src other st1(2)
    by (cases "dk_mkdir dk"; cases "dk_create dk"; cases cr)
       (auto simp: publish_copy_def Let_def st2_def)
  then have "logs_ok c P st' \<and> (\<forall>q. q \<noteq> to \<longrightarrow> log_records c st' q = log_records c st q)
      \<and> (res = Inr () \<longrightarrow> es_files st' to = Some (framed (fork_lines c to ls)))"
  proof cases
    case early
    with ok2 files2 show ?thesis by simp
  next
    case failed
    from copy plain failed(1) obtain k ms where "prefix ms ls"
      "out = take k (framed (fork_lines c to ms))" by (cases rule: copy_reader_result) auto
    then have "log_ok c P out" using log_out by blast
    moreover have "\<not> w_tail_repaired v" if "map_of (es_writers st2) to = Some v" for v
      using that by (auto simp: st2_def)
    ultimately have "logs_ok c P st'" unfolding failed(3) using ok2
      by (auto simp: logs_ok_def)
    with failed files2 show ?thesis by simp
  next
    case (published k s)
    from copy plain published(1)
    have out: "k = length (fork_lines c to ls)" "out = framed (fork_lines c to ls)"
      by (cases rule: copy_reader_result; simp)+
    have "log_ok c P out" using log_out [of ls "length out"] out(2) by simp
    moreover have recs: "committed c out = fork_lines c to ls"
      unfolding out(2) using fork_ok(1) [of _ ls] by (intro committed_framed) auto
    have "line_seqs c (fork_lines c to ls) = [1..<Suc (length (fork_lines c to ls))]"
      using fl(2) wf by (intro line_seqs_fork) blast
    then have "writer_ok c \<lparr>w_next_seq = k + 1, w_tail_repaired = True\<rparr> out"
      using out recs by (auto simp: writer_ok_def simp del: upt_Suc)
    ultimately have "logs_ok c P st'" unfolding published(2) using ok2
      by (simp add: logs_ok_def)
    with published files2 out show ?thesis by simp
  qed
  then show "logs_ok c P st'" and "q \<noteq> to \<Longrightarrow> log_records c st' q = log_records c st q"
    and "res = Inr () \<Longrightarrow> es_files st' to = Some (framed (fork_lines c to ls))" by auto
qed

end
