(* ===== verification/Event_Log_Runs.thy ===== *)
theory Event_Log_Runs
  imports Event_Log_Props
begin

text \<open>
  The event store as a state machine: a step is one operation of the writer (each holds the
  run's lock from the number it takes to the end of its write, so operations on one run do not
  overlap), or the loss of the writer's memory when the process ends, also halfway through a
  write. The properties: the records of a log only grow, under strictly increasing numbers, and a
  write that reports success is the last record.
\<close>

section \<open>Steps\<close>

text \<open>\<open>forks\<close>: the runs that may become the target of a fork, whose log is then replaced.\<close>

inductive log_step ::
  "codec \<Rightarrow> (json \<Rightarrow> bool) \<Rightarrow> string set \<Rightarrow> event_store \<Rightarrow> event_store \<Rightarrow> bool"
  for c P forks where
  bus_event: "readable dk \<Longrightarrow> \<forall>n. P (bus_envelope now ev n) \<Longrightarrow>
    log_step c P forks st (snd (write_bus_event c dk held now r ev st))"
| bus_event_at: "readable dk \<Longrightarrow> \<forall>n. P (bus_envelope ts ev n) \<Longrightarrow>
    log_step c P forks st (snd (write_bus_event_with_ts c dk held r ev ts st))"
| raw_event: "readable dk \<Longrightarrow>
    \<forall>n. P (run_event_json \<lparr>re_id = take 12 uuid, re_task_id = r, re_seq = n, re_type = ty,
                           re_payload = payload, re_timestamp = now\<rparr>) \<Longrightarrow>
    log_step c P forks st (snd (append_event c dk held uuid now r ty payload st))"
| take_snapshot: "readable dk \<Longrightarrow> log_step c P forks st (snd (snapshot c dk held r st))"
| fork: "readable dk \<Longrightarrow> fork_closed P to \<Longrightarrow> to \<in> forks \<Longrightarrow> src \<noteq> to \<Longrightarrow>
    log_step c P forks st (snd (copy_bus_events c dk held src to st))"
| restart: "log_step c P forks st (st\<lparr>es_writers := []\<rparr>)"

text \<open>What one step does to the log of a run that is no fork target.\<close>

definition grows :: "codec \<Rightarrow> (json \<Rightarrow> bool) \<Rightarrow> string set \<Rightarrow> event_store \<Rightarrow> event_store \<Rightarrow> bool" where
  "grows c P forks st st' =
     (logs_ok c P st' \<and> (\<forall>r. r \<notin> forks \<longrightarrow> prefix (log_records c st r) (log_records c st' r)))"

lemma bus_envelope_seq [simp]: "get_u64 (bus_envelope ts ev n) ''seq'' = Some n"
  by (simp add: bus_envelope_def jnat_def)

lemma run_event_seq [simp]: "get_u64 (run_event_json e) ''seq'' = Some (re_seq e)"
  by (simp add: run_event_json_def jnat_def)

lemma write_record_grows:
  assumes "logs_ok c P st" and "codec_ok c P" and "readable dk"
    and "\<And>n. P (build n) \<and> get_u64 (build n) ''seq'' = Some n"
  shows "grows c P forks st (snd (write_record c dk held r build st))"
proof -
  obtain res st' where run: "write_record c dk held r build st = (res, st')" by fastforce
  from run assms have "logs_ok c P st' \<and> (\<forall>q. prefix (log_records c st q) (log_records c st' q))"
  proof (cases rule: write_record_ok)
    case (written n)
    then have "prefix (log_records c st q) (log_records c st' q)" for q by (cases "q = r") auto
    with written(1) show ?thesis by simp
  qed simp
  with run show ?thesis by (simp add: grows_def)
qed

lemma writer_state:
  "snd (write_bus_event c dk held now r ev st) = snd (write_record c dk held r (bus_envelope now ev) st)"
  "snd (write_bus_event_with_ts c dk held r ev ts st) = snd (write_record c dk held r (bus_envelope ts ev) st)"
  "snd (append_event c dk held uuid now r ty payload st) =
     snd (write_record c dk held r
       (\<lambda>n. run_event_json \<lparr>re_id = take 12 uuid, re_task_id = r, re_seq = n, re_type = ty,
                            re_payload = payload, re_timestamp = now\<rparr>) st)"
  by (simp_all add: write_bus_event_def write_bus_event_with_ts_def append_event_def
      write_run_event_def Let_def split: prod.splits sum.splits)

lemma copy_bus_events_ok:
  assumes run: "copy_bus_events c dk held src to st = (res, st')"
    and ok: "logs_ok c P st" and codec: "codec_ok c P" and closed: "fork_closed P to"
    and other: "src \<noteq> to" and read: "readable dk"
  shows "logs_ok c P st'" and "q \<noteq> to \<Longrightarrow> log_records c st' q = log_records c st q"
    and "res = Inr () \<Longrightarrow> es_files st' to = Some (framed (fork_lines c to (log_records c st src)))"
proof -
  obtain sr st1 where snap: "snapshot c dk held src st = (sr, st1)" by fastforce
  note st1 = snapshot_ok [OF snap ok read]
  have "logs_ok c P st' \<and> (q \<noteq> to \<longrightarrow> log_records c st' q = log_records c st q)
      \<and> (res = Inr () \<longrightarrow> es_files st' to = Some (framed (fork_lines c to (log_records c st src))))"
  proof (cases sr)
    case (Inl e)
    with run snap have "res = Inl e" "st' = st1" by (simp_all add: copy_bus_events_def)
    with st1 show ?thesis by simp
  next
    case (Inr len)
    with run snap have pub: "publish_copy c dk held src len to st1 = (res, st')"
      by (simp add: copy_bus_events_def)
    have "wf_record c P l" if "l \<in> set (log_records c st src)" for l
      using logs_okD(1) [OF ok, of src] that by (simp add: log_ok_def)
    note out = publish_copy_ok [OF pub st1(1) codec closed other st1(3) [OF Inr] this]
    show ?thesis using out(1,3) out(2) [of q] st1(2) [of q] by simp
  qed
  then show "logs_ok c P st'" and "q \<noteq> to \<Longrightarrow> log_records c st' q = log_records c st q"
    and "res = Inr () \<Longrightarrow> es_files st' to = Some (framed (fork_lines c to (log_records c st src)))"
    by simp_all
qed

lemma log_step_grows:
  assumes "log_step c P forks st st'" and ok: "logs_ok c P st" and codec: "codec_ok c P"
  shows "grows c P forks st st'"
  using assms(1)
proof (cases rule: log_step.cases)
  case (take_snapshot dk held r)
  obtain res s where "snapshot c dk held r st = (res, s)" by fastforce
  with take_snapshot snapshot_ok [OF this ok] show ?thesis by (simp add: grows_def)
next
  case (fork dk to src held)
  obtain res s where run: "copy_bus_events c dk held src to st = (res, s)" by fastforce
  note out = copy_bus_events_ok [OF run ok codec fork(3,5,2)]
  have "prefix (log_records c st q) (log_records c s q)" if "q \<notin> forks" for q
    using out(2) [of q] that fork(4) by (cases "q = to") auto
  with fork(1) run out(1) show ?thesis by (simp add: grows_def)
next
  case restart
  with ok show ?thesis by (simp add: grows_def logs_ok_def)
qed (simp_all add: writer_state write_record_grows ok codec)

interpretation logs: invariant_system "\<lambda>st. codec_ok c P \<and> logs_ok c P st" "log_step c P forks"
    "\<lambda>st. codec_ok c P \<and> logs_ok c P st" for c P forks
  using log_step_grows by unfold_locales (auto simp: grows_def)

text \<open>A store as a fresh process finds it.\<close>

definition fresh_store :: "codec \<Rightarrow> (json \<Rightarrow> bool) \<Rightarrow> event_store \<Rightarrow> bool" where
  "fresh_store c P st =
     (es_writers st = [] \<and> (\<forall>r. log_ok c P (file_text (es_files st r))))"

lemma fresh_store_ok: "fresh_store c P st \<Longrightarrow> logs_ok c P st"
  by (simp add: fresh_store_def logs_ok_def)

lemma log_path_ok:
  assumes "fresh_store c P st" and "codec_ok c P" and "(log_step c P forks)\<^sup>*\<^sup>* st st'"
  shows "logs_ok c P st'"
  using logs.inv_reach [OF assms(3)] assms(1,2) fresh_store_ok by blast

section \<open>A concrete codec\<close>

text \<open>
  For the witnesses: the records of one user message in the runs A and B, printed as a brace, the
  run's letter, the sequence number in unary and a brace.
\<close>

definition demo_message :: "char \<Rightarrow> json" where
  "demo_message r =
     JObj [(''run_id'', JStr [r]), (''text'', JStr ''hi''), (''type'', JStr ''user_message'')]"

definition demo_record :: "char \<Rightarrow> nat \<Rightarrow> json" where
  "demo_record r n = bus_envelope ''T'' (demo_message r) n"

definition demo_records :: "json \<Rightarrow> bool" where
  "demo_records v = (\<exists>r n. r \<in> {CHR ''A'', CHR ''B''} \<and> v = demo_record r n)"

definition demo_record_line :: "char \<Rightarrow> nat \<Rightarrow> string" where
  "demo_record_line r n = ''{'' @ r # replicate n CHR ''1'' @ ''}''"

definition demo_codec :: codec where
  "demo_codec =
     \<lparr>jc_parse = (\<lambda>s. if s \<noteq> [] \<and> last s = CHR ''}''
                      then Some (demo_record (s ! 1) (length (filter (\<lambda>ch. ch = CHR ''1'') s)))
                      else None),
      jc_text = (\<lambda>v. demo_record_line (case Option.bind (jget v ''event'') (\<lambda>e. get_str e ''run_id'') of
                                    Some (r # _) \<Rightarrow> r | _ \<Rightarrow> CHR ''?'')
                       (unwrap_or (get_u64 v ''seq'') 0)),
      jc_complete = (\<lambda>s. s \<noteq> [] \<and> last s = CHR ''}'')\<rparr>"

lemma demo_codec_text [simp]: "jc_text demo_codec (demo_record r n) = demo_record_line r n"
  by (simp add: demo_codec_def demo_record_def bus_envelope_def demo_message_def jnat_def)

lemma demo_codec_parse [simp]:
  "r \<noteq> CHR ''1'' \<Longrightarrow> jc_parse demo_codec (demo_record_line r n) = Some (demo_record r n)"
  by (simp add: demo_codec_def demo_record_line_def)

lemma trim_ascii:
  assumes "33 \<le> byte a" "byte a < 127" "33 \<le> byte b" "byte b < 127"
  shows "trim (a # s @ [b]) = a # s @ [b]"
proof -
  have no: "\<not> ws1 x" "\<not> ws2 x y" "\<not> ws2 y x" "\<not> ws3 x y z" "\<not> ws3 z y x"
    if "33 \<le> byte x" "byte x < 127" for x y z
    using that by (simp_all add: ws1_def ws2_def ws3_def Let_def)
  have one: "trim_start (a # t) = a # t" for t
    using no [OF assms(1,2)] by (cases t rule: trim_start.cases) simp_all
  have "trim_rev (b # t) = b # t" for t
    using no [OF assms(3,4)] by (cases t rule: trim_start.cases) simp_all
  with one show ?thesis by (simp add: trim_def trim_end_def)
qed

lemma demo_codec_ok: "codec_ok demo_codec demo_records"
  unfolding codec_ok_def
proof (intro allI impI)
  fix v n
  assume "demo_records v" and seq: "get_u64 v ''seq'' = Some n"
  then obtain r m where rm: "r \<in> {CHR ''A'', CHR ''B''}" "v = demo_record r m"
    unfolding demo_records_def by blast
  with seq have "m = n" by (simp add: demo_record_def)
  with rm have r: "r \<in> {CHR ''A'', CHR ''B''}" "v = demo_record r n" by simp_all
  have ascii: "utf8_valid (demo_record_line r n)"
    using r(1) by (intro utf8_ascii) (auto simp: demo_record_line_def byte_def)
  have plain: "plain_line (demo_record_line r n)"
    using r(1) by (auto simp: plain_line_def demo_record_line_def)
  have trim: "trim (demo_record_line r n) \<noteq> []"
    using trim_ascii [of "CHR ''{''" "CHR ''}''" "r # replicate n CHR ''1''"]
    by (simp add: demo_record_line_def byte_def)
  have part: "\<not> jc_complete demo_codec (take k (demo_record_line r n))"
    if "0 < k" "k < length (demo_record_line r n)" for k
  proof -
    have "take k (demo_record_line r n) = take k (CHR ''{'' # r # replicate n CHR ''1'')"
      using that by (simp add: demo_record_line_def take_Cons' del: replicate.simps)
    moreover have "CHR ''}'' \<notin> set (take k (CHR ''{'' # r # replicate n CHR ''1''))"
      using r(1) by (auto dest!: in_set_takeD)
    moreover have "last (take k (CHR ''{'' # r # replicate n CHR ''1''))
        \<in> set (take k (CHR ''{'' # r # replicate n CHR ''1''))"
      using that(1) by (intro last_in_set) simp
    ultimately have "last (take k (demo_record_line r n)) \<noteq> CHR ''}''" by metis
    then show ?thesis by (simp add: demo_codec_def)
  qed
  show "plain_line (jc_text demo_codec v) \<and> utf8_valid (jc_text demo_codec v)
      \<and> trim (jc_text demo_codec v) \<noteq> []
      \<and> (\<exists>u. jc_parse demo_codec (jc_text demo_codec v) = Some u \<and> demo_records u
            \<and> get_u64 u ''seq'' = Some n)
      \<and> jc_complete demo_codec (jc_text demo_codec v)
      \<and> (\<forall>k. 0 < k \<longrightarrow> k < length (jc_text demo_codec v)
            \<longrightarrow> \<not> jc_complete demo_codec (take k (jc_text demo_codec v)))"
  proof -
    have line: "jc_text demo_codec v = demo_record_line r n" using r(2) by simp
    have "jc_parse demo_codec (demo_record_line r n) = Some v" using r by auto
    moreover have "jc_complete demo_codec (demo_record_line r n)"
      by (simp add: demo_codec_def demo_record_line_def)
    ultimately show ?thesis
      unfolding line using ascii plain trim part seq \<open>demo_records v\<close> by blast
  qed
qed

text \<open>
  A path of the demo store: a message for A is written, a second one stops after three bytes and
  the process ends, the next process writes again, and A is forked to B.
\<close>

definition demo_logs :: event_store where
  "demo_logs = \<lparr>es_files = (\<lambda>_. None), es_writers = []\<rparr>"

definition demo_torn :: disk where
  "demo_torn = disk_ok\<lparr>dk_write := Some (3, ''no space left'')\<rparr>"

definition demo_write :: "disk \<Rightarrow> event_store \<Rightarrow> (string + nat) \<times> event_store" where
  "demo_write dk st =
     write_bus_event_with_ts demo_codec dk [] ''A'' (demo_message CHR ''A'') ''T'' st"

definition demo_crashed :: event_store where
  "demo_crashed = (snd (demo_write demo_torn (snd (demo_write disk_ok demo_logs))))\<lparr>es_writers := []\<rparr>"

definition demo_forked :: event_store where
  "demo_forked =
     snd (copy_bus_events demo_codec disk_ok [] ''A'' ''B'' (snd (demo_write disk_ok demo_crashed)))"

lemma demo_logs_fresh: "fresh_store demo_codec demo_records demo_logs"
  by (simp add: fresh_store_def demo_logs_def log_ok_def committed_def open_line_def
      line_seqs_def)

lemma demo_fork_closed: "fork_closed demo_records ''B''"
  unfolding fork_closed_def
proof (intro allI impI)
  fix v n
  assume "demo_records v"
  then obtain r m where "v = demo_record r m" unfolding demo_records_def by blast
  then have "fork_envelope ''B'' n v = demo_record CHR ''B'' n"
    by (simp add: demo_record_def bus_envelope_def demo_message_def fork_envelope_def jset_def
        jinsert_def)
  then show "demo_records (fork_envelope ''B'' n v)" by (auto simp: demo_records_def)
qed

lemma demo_write_step:
  "readable dk \<Longrightarrow> log_step demo_codec demo_records F st (snd (demo_write dk st))"
  unfolding demo_write_def
  by (rule bus_event_at) (auto simp: demo_records_def demo_record_def)

lemma demo_readable: "readable disk_ok" "readable demo_torn"
  by (simp_all add: readable_def disk_ok_def demo_torn_def)

lemma demo_path:
  "(log_step demo_codec demo_records F)\<^sup>*\<^sup>* demo_logs demo_crashed"
  "(log_step demo_codec demo_records {''B''})\<^sup>*\<^sup>* demo_crashed demo_forked"
proof -
  have "log_step demo_codec demo_records F demo_logs (snd (demo_write disk_ok demo_logs))"
    by (rule demo_write_step [OF demo_readable(1)])
  moreover have "log_step demo_codec demo_records F (snd (demo_write disk_ok demo_logs))
      (snd (demo_write demo_torn (snd (demo_write disk_ok demo_logs))))"
    by (rule demo_write_step [OF demo_readable(2)])
  moreover have "log_step demo_codec demo_records F
      (snd (demo_write demo_torn (snd (demo_write disk_ok demo_logs)))) demo_crashed"
    unfolding demo_crashed_def by (rule restart)
  ultimately show "(log_step demo_codec demo_records F)\<^sup>*\<^sup>* demo_logs demo_crashed"
    by (meson r_into_rtranclp rtranclp_trans)
  have "log_step demo_codec demo_records {''B''} demo_crashed (snd (demo_write disk_ok demo_crashed))"
    by (rule demo_write_step [OF demo_readable(1)])
  moreover have "log_step demo_codec demo_records {''B''}
      (snd (demo_write disk_ok demo_crashed)) demo_forked"
    unfolding demo_forked_def by (rule fork) (simp_all add: demo_readable demo_fork_closed)
  ultimately show "(log_step demo_codec demo_records {''B''})\<^sup>*\<^sup>* demo_crashed demo_forked"
    by (meson r_into_rtranclp rtranclp_trans)
qed

text \<open>A disk that answers every call lets every write succeed.\<close>

lemma write_succeeds: "\<exists>n st'. write_bus_event_with_ts c disk_ok held r ev ts st = (Inr n, st')"
proof -
  obtain w st1 where "run_lock c disk_ok held r st = (w, st1)" by fastforce
  moreover have "\<exists>n f. repair_incomplete_tail c disk_ok g = (Inr n, f)" for g
    by (simp add: repair_incomplete_tail_def disk_ok_def Let_def)
  then have "\<exists>w2 st2. ensure_tail_repaired c disk_ok r w st1 = (Inr w2, st2)"
    by (auto simp: ensure_tail_repaired_def Let_def split: prod.splits sum.splits)
      (metis Inl_Inr_False prod.inject)
  ultimately show ?thesis
    by (auto simp: write_bus_event_with_ts_def write_record_def Let_def)
       (simp add: disk_ok_def)
qed




section \<open>Properties\<close>

text \<open>C8: The event log is append-only and never reuses a sequence number: from a fresh process
on well-formed logs, along any writes (complete, or torn after any number of bytes), repairs,
snapshots, forks, evictions of locks and restarts, the numbers of the records of every log strictly
increase, and the records a log has at one point are a prefix of those it has at any later point,
unless the run is the target of a fork.\<close>

theorem event_log_append_only:
  assumes "codec_ok c P" and "fresh_store c P st"
    and "(log_step c P forks)\<^sup>*\<^sup>* st st1" and "(log_step c P forks)\<^sup>*\<^sup>* st1 st2"
  shows "sorted_wrt (<) (line_seqs c (log_records c st2 r))
    \<and> (r \<notin> forks \<longrightarrow> prefix (log_records c st1 r) (log_records c st2 r))"
proof -
  have "logs_ok c P st1" using log_path_ok [OF assms(2,1,3)] .
  with assms(4) have "logs_ok c P st2 \<and> (r \<notin> forks \<longrightarrow> prefix (log_records c st1 r) (log_records c st2 r))"
  proof (induction rule: rtranclp_induct)
    case (step y z)
    with log_step_grows [OF step.hyps(2) _ assms(1)] show ?case
      unfolding grows_def by (meson prefix_order.trans)
  qed simp
  then show ?thesis using logs_okD(1) [of c P st2 r] by (simp add: log_ok_def)
qed

theorem event_log_append_only_witness:
  "sorted_wrt (<) (line_seqs demo_codec (log_records demo_codec demo_forked ''A''))
   \<and> prefix (log_records demo_codec demo_crashed ''A'') (log_records demo_codec demo_forked ''A'')"
  using event_log_append_only [OF demo_codec_ok demo_logs_fresh demo_path, of "''A''"] by simp

lemma write_record_last:
  assumes run: "write_record c dk held r build st1 = (Inr n, st2)"
    and ok: "logs_ok c P st1" "codec_ok c P" "readable dk"
    and build: "\<And>k. P (build k) \<and> get_u64 (build k) ''seq'' = Some k"
  shows "es_files st2 r = Some (framed (log_records c st1 r @ [jc_text c (build n)]))"
    and "m \<in> set (line_seqs c (log_records c st1 r)) \<Longrightarrow> m < n"
proof -
  have "es_files st2 r \<noteq> None"
    using run by (auto simp: write_record_def Let_def split: prod.splits sum.splits option.splits)
  then obtain s where s: "es_files st2 r = Some s" by blast
  have "open_line s = []
      \<and> log_records c st2 r = log_records c st1 r @ [jc_text c (build n)]
      \<and> (\<forall>m\<in>set (line_seqs c (log_records c st1 r)). m < n)"
    using run ok build
  proof (cases rule: write_record_ok)
    case (written k)
    with s show ?thesis by auto
  qed simp
  then show "es_files st2 r = Some (framed (log_records c st1 r @ [jc_text c (build n)]))"
    and "m \<in> set (line_seqs c (log_records c st1 r)) \<Longrightarrow> m < n"
    using s framed_committed_closed [of s c] by auto
qed

text \<open>C9: A write that reports success is durable and last: in any state a process can reach, when
writing a bus event returns the number n, the file is exactly the records it held before, whole and
closed, followed by the one line of this event under n, and n is above every earlier number.\<close>

theorem successful_write_is_last:
  assumes "codec_ok c P" and "fresh_store c P st" and "(log_step c P forks)\<^sup>*\<^sup>* st st1"
    and "readable dk" and "\<forall>n. P (bus_envelope ts ev n)"
    and "write_bus_event_with_ts c dk held r ev ts st1 = (Inr n, st2)"
  shows "es_files st2 r = Some (framed (log_records c st1 r @ [jc_text c (bus_envelope ts ev n)]))
    \<and> (\<forall>m\<in>set (line_seqs c (log_records c st1 r)). m < n)"
proof -
  have ok: "logs_ok c P st1" using log_path_ok [OF assms(2,1,3)] .
  have run: "write_record c dk held r (bus_envelope ts ev) st1 = (Inr n, st2)"
    using assms(6) by (auto simp: write_bus_event_with_ts_def split: prod.splits sum.splits)
  have build: "P (bus_envelope ts ev k) \<and> get_u64 (bus_envelope ts ev k) ''seq'' = Some k" for k
    using assms(5) by simp
  show ?thesis using write_record_last [OF run ok assms(1,4) build] by blast
qed

theorem successful_write_is_last_witness:
  "\<exists>n st2. demo_write disk_ok demo_crashed = (Inr n, st2)
     \<and> es_files st2 ''A'' =
         Some (framed (log_records demo_codec demo_crashed ''A''
                       @ [jc_text demo_codec (bus_envelope ''T'' (demo_message CHR ''A'') n)]))"
proof -
  obtain n st2 where run: "demo_write disk_ok demo_crashed = (Inr n, st2)"
    using write_succeeds unfolding demo_write_def by blast
  show ?thesis
    using run successful_write_is_last [OF demo_codec_ok demo_logs_fresh demo_path(1) demo_readable(1),
        of "''T''" "demo_message CHR ''A''" "[]" "''A''" n st2]
    by (auto simp: demo_write_def demo_records_def demo_record_def)
qed

text \<open>C11: Repairing an interrupted log keeps exactly its complete records: when the repair
succeeds, whatever the file held, it holds the records (the closed lines, and the open one where it
is a complete JSON value), each closed by a newline, the returned length is its length, and a second
repair changes nothing; when it fails, no byte has changed. The block-wise backward scan finds the
place the whole-file definition names.\<close>

theorem repair_keeps_records:
  "case repair_incomplete_tail c dk file0 of
     (Inl e, f) \<Rightarrow> file_text f = file_text file0
   | (Inr n, f) \<Rightarrow>
       f = Some (framed (committed c (file_text file0))) \<and> n = length (file_text f)
     \<and> committed c (file_text f) = committed c (file_text file0)
     \<and> snd (repair_incomplete_tail c dk2 f) = f"
proof -
  obtain rr f where run: "repair_incomplete_tail c dk file0 = (rr, f)" by fastforce
  then show ?thesis
  proof (cases rule: repair_cases)
    case (fault e)
    with run show ?thesis by simp
  next
    case repaired
    obtain rr2 f2 where run2: "repair_incomplete_tail c dk2 f = (rr2, f2)" by fastforce
    then have "f2 = f"
      using repaired(2) by (cases rule: repair_cases) (auto simp: repair_idempotent)
    with run run2 repaired show ?thesis by (simp add: repair_idempotent)
  qed
qed



definition replayed :: "codec \<Rightarrow> nat \<Rightarrow> string list \<Rightarrow> json list" where
  "replayed c since ls = map snd (filter_map (\<lambda>l. Option.bind (jc_parse c l) (replay_event since)) ls)"

lemma list_bus_events_framed:
  assumes "\<And>l. l \<in> set ls \<Longrightarrow> seq_line c l" and "dk_full dk"
  shows "list_bus_events c dk (Some (framed ls)) since = replayed c (unwrap_or since 0) ls"
proof -
  have lines: "str_lines (framed ls) = ls"
    using assms(1) by (intro lines_framed) (simp add: seq_line_def)
  have valid: "takeWhile utf8_valid ls = ls"
    using assms(1) by (simp add: seq_line_def takeWhile_eq_all_conv)
  have shown: "filter (\<lambda>l. trim l \<noteq> []) ls = ls"
    using assms(1) by (simp add: seq_line_def filter_id_conv)
  show ?thesis
    using assms(2) unfolding list_bus_events_def replayed_def option.case lines valid shown by simp
qed

lemma filter_map_append: "filter_map f (xs @ ys) = filter_map f xs @ filter_map f ys"
  by (induction xs) (auto split: option.splits)

text \<open>What was written is read back: in any reachable state, after a successful write of a
replayable event whose record the JSON crate reads back, listing the log's bus events from an
earlier number returns the replay of the records before the write, and then this event with its
time and its number put in.\<close>

theorem written_event_replayed:
  assumes "codec_ok c P" and "fresh_store c P st" and "(log_step c P forks)\<^sup>*\<^sup>* st st1"
    and "readable dk" and "\<forall>n. P (bus_envelope ts (JObj kvs) n)"
    and "write_bus_event_with_ts c dk held r (JObj kvs) ts st1 = (Inr n, st2)"
    and "jc_parse c (jc_text c (bus_envelope ts (JObj kvs) n)) = Some (bus_envelope ts (JObj kvs) n)"
    and "is_replayable (JObj kvs)" and "since < n"
  shows "list_bus_events c dk (es_files st2 r) (Some since) =
    replayed c since (log_records c st1 r)
      @ [JObj (jinsert ''_seq'' (jnat n) (jinsert ''ts'' (JStr ts) kvs))]"
proof -
  have ok: "logs_ok c P st1" using log_path_ok [OF assms(2,1,3)] .
  let ?l = "jc_text c (bus_envelope ts (JObj kvs) n)"
  have run: "write_record c dk held r (bus_envelope ts (JObj kvs)) st1 = (Inr n, st2)"
    using assms(6) by (auto simp: write_bus_event_with_ts_def split: prod.splits sum.splits)
  have build: "P (bus_envelope ts (JObj kvs) k) \<and> get_u64 (bus_envelope ts (JObj kvs) k) ''seq'' = Some k"
    for k using assms(5) by simp
  have written: "es_files st2 r = Some (framed (log_records c st1 r @ [?l]))"
    by (rule write_record_last [OF run ok assms(1,4) build])
  have "seq_line c l" if "l \<in> set (log_records c st1 r @ [?l])" for l
    using that log_ok_lines [OF logs_okD(1) [OF ok, of r]]
      codec_okD(1) [OF assms(1), of "bus_envelope ts (JObj kvs) n" n] build
    by (auto simp: wf_record_def)
  then have "list_bus_events c dk (es_files st2 r) (Some since) = replayed c since (log_records c st1 r @ [?l])"
    unfolding written using assms(4) by (subst list_bus_events_framed) (simp_all add: readable_def)
  moreover have "replay_event since (bus_envelope ts (JObj kvs) n) =
      Some (n, JObj (jinsert ''_seq'' (jnat n) (jinsert ''ts'' (JStr ts) kvs)))"
    using assms(8,9)
    by (auto simp: replay_event_def bus_envelope_def is_replayable_def jset_def jnat_def
        split: option.splits)
  ultimately show ?thesis using assms(7) by (simp add: replayed_def filter_map_append)
qed

lemma next_seq_pos: "0 < next_seq c dk f"
  by (simp add: next_seq_def split: option.splits)

lemma first_number_pos:
  assumes "es_writers st = []" and "write_bus_event_with_ts c dk held r ev ts st = (Inr n, st')"
  shows "0 < n"
  using assms next_seq_pos
  by (auto simp: write_bus_event_with_ts_def write_record_def run_lock_def evict_locks_def
      ensure_tail_repaired_def Let_def split: prod.splits sum.splits option.splits)

theorem written_event_replayed_witness:
  "\<exists>n st2. demo_write disk_ok demo_crashed = (Inr n, st2)
     \<and> last (list_bus_events demo_codec disk_ok (es_files st2 ''A'') (Some 0))
          = JObj [(''run_id'', JStr ''A''), (''text'', JStr ''hi''), (''type'', JStr ''user_message''),
                  (''ts'', JStr ''T''), (''_seq'', jnat n)]"
proof -
  obtain n st2 where run: "demo_write disk_ok demo_crashed = (Inr n, st2)"
    using write_succeeds unfolding demo_write_def by blast
  then have pos: "0 < n"
    unfolding demo_write_def by (intro first_number_pos) (simp_all add: demo_crashed_def)
  have rec: "bus_envelope ''T'' (demo_message CHR ''A'') k = demo_record CHR ''A'' k" for k
    by (simp add: demo_record_def)
  have "is_replayable (demo_message CHR ''A'')"
    by (simp add: is_replayable_def demo_message_def REPLAY_TYPES_def)
  with run rec have "list_bus_events demo_codec disk_ok (es_files st2 ''A'') (Some 0) =
      replayed demo_codec 0 (log_records demo_codec demo_crashed ''A'')
        @ [JObj (jinsert ''_seq'' (jnat n) (jinsert ''ts'' (JStr ''T'')
            [(''run_id'', JStr ''A''), (''text'', JStr ''hi''), (''type'', JStr ''user_message'')]))]"
    using pos written_event_replayed [OF demo_codec_ok demo_logs_fresh demo_path(1) demo_readable(1),
        of "''T''" "[(''run_id'', JStr ''A''), (''text'', JStr ''hi''), (''type'', JStr ''user_message'')]"
           "[]" "''A''" n st2 0]
    by (auto simp: demo_write_def demo_message_def demo_records_def)
  with run show ?thesis by (auto simp: jinsert_def)
qed

end
