(* ===== verification/Event_Pages_Props.thy ===== *)
theory Event_Pages_Props
  imports Event_Pages Event_Log_Runs
begin

text \<open>
  Catch-up pages against their reference. On a log of whole lines within the line limit the
  chunked reader does what a fold over the lines does, whatever the chunks; a page is then a
  prefix of what \<open>list_bus_events\<close> returns, within its limits, and the pages a client walks with
  the returned number and offset are together exactly that list.
\<close>

section \<open>Chunks do not matter\<close>

definition chunks_of :: "string \<Rightarrow> string list \<Rightarrow> bool" where
  "chunks_of s chs = (concat chs = s \<and> [] \<notin> set chs)"

lemma chunks_of_empty: "chunks_of [] chs \<longleftrightarrow> chs = []"
  unfolding chunks_of_def by (cases chs) auto

lemma chunks_of_Cons:
  assumes "chunks_of (l @ nl # t) (ch # chs)" and "nl \<notin> set l"
  obtains (inside) l2 where "l = ch @ l2" "chunks_of (l2 @ nl # t) chs" "nl \<notin> set ch"
  | (ends) t1 where "ch = l @ nl # t1" "t = t1 @ concat chs" "[] \<notin> set chs"
proof -
  have eq: "ch @ concat chs = l @ nl # t" and ne: "[] \<notin> set chs" "ch \<noteq> []"
    using assms(1) by (auto simp: chunks_of_def)
  from eq obtain us where "ch = l @ us \<and> us @ concat chs = nl # t
      \<or> l = ch @ us \<and> concat chs = us @ nl # t"
    unfolding append_eq_append_conv2 by metis
  then consider "l = ch @ us" "concat chs = us @ nl # t"
    | t1 where "us = nl # t1" "ch = l @ us" "t1 @ concat chs = t"
    by (cases us) auto
  then show thesis
  proof cases
    case 1
    with ne assms(2) show thesis by (intro inside) (auto simp: chunks_of_def)
  next
    case 2
    with ne show thesis by (intro ends [of t1]) auto
  qed
qed

lemma read_line_closed:
  assumes "chunks_of (l @ nl # t) chs" and "nl \<notin> set l" and "\<not> ls_oversized s"
    and "length (ls_line s) + length l \<le> BUS_EVENT_LINE_LIMIT"
  shows "\<exists>s2 rest. read_line chs s n = (s2, n + length l + 1, rest) \<and> ls_line s2 = ls_line s @ l
    \<and> \<not> ls_oversized s2 \<and> chunks_of t rest"
  using assms
proof (induction chs arbitrary: l s n)
  case Nil
  then show ?case by (simp add: chunks_of_def)
next
  case (Cons ch chs)
  have ne: "ch \<noteq> []" using Cons.prems(1) by (auto simp: chunks_of_def)
  from Cons.prems(1,2) show ?case
  proof (cases rule: chunks_of_Cons)
    case (inside l2)
    have after: "after_line ch = []" using inside(3) by (simp add: after_line_whole)
    have scan: "ls_line (scan_chunk ch s) = ls_line s @ ch" "\<not> ls_oversized (scan_chunk ch s)"
      using Cons.prems(3,4) inside(1) by (simp_all add: scan_chunk_def Let_def)
    have "\<exists>s2 rest. read_line chs (scan_chunk ch s) (n + length ch)
          = (s2, n + length ch + length l2 + 1, rest)
        \<and> ls_line s2 = ls_line (scan_chunk ch s) @ l2 \<and> \<not> ls_oversized s2 \<and> chunks_of t rest"
      using Cons.prems(2,4) inside scan by (intro Cons.IH) auto
    with ne after scan inside(1) show ?thesis by (simp add: add.assoc)
  next
    case (ends t1)
    have parts: "first_line ch = l" "after_line ch = nl # t1"
      using ends(1) Cons.prems(2) by (simp_all add: first_line_append after_line_append)
    have scan: "ls_line (scan_chunk l s) = ls_line s @ l" "\<not> ls_oversized (scan_chunk l s)"
      using Cons.prems(3,4) by (simp_all add: scan_chunk_def Let_def)
    with ne parts ends show ?thesis by (auto simp: chunks_of_def)
  qed
qed

text \<open>The page as a fold over the lines.\<close>

fun page_ref ::
  "codec \<Rightarrow> nat \<Rightarrow> nat \<Rightarrow> string list \<Rightarrow> json list \<Rightarrow> nat \<Rightarrow> nat \<Rightarrow> nat \<Rightarrow> string + bus_event_page" where
  "page_ref c since start [] events encoded last_seq consumed =
     Inr \<lparr>bp_events = events, bp_last_seq = last_seq, bp_has_more = False,
          bp_next_offset = start + consumed\<rparr>"
| "page_ref c since start (l # ls) events encoded last_seq consumed =
     (case Option.bind (jc_parse c l) (replay_event since) of
        None \<Rightarrow> page_ref c since start ls events encoded last_seq (consumed + length l + 1)
      | Some (seq, event) \<Rightarrow>
          (let event_bytes = length (jc_text c event) in
           if BUS_EVENT_PAGE_BYTE_LIMIT < event_bytes + 2
           then Inl (history_projection_required ''bus event exceeds catch-up page limit'')
           else if page_full events encoded event_bytes
           then Inr \<lparr>bp_events = events, bp_last_seq = last_seq, bp_has_more = True,
                     bp_next_offset = start + consumed\<rparr>
           else page_ref c since start ls (events @ [event]) (encoded + (event_bytes + 1)) seq
                  (consumed + length l + 1)))"

definition page_line_ok :: "codec \<Rightarrow> string \<Rightarrow> bool" where
  "page_line_ok c l = (seq_line c l \<and> length l \<le> BUS_EVENT_LINE_LIMIT)"

lemma page_loop_ref:
  assumes "\<And>l. l \<in> set ls \<Longrightarrow> page_line_ok c l" and "chunks_of (framed ls) chs"
  shows "page_loop c since start chs events encoded last_seq consumed
       = page_ref c since start ls events encoded last_seq consumed"
  using assms
proof (induction ls arbitrary: chs events encoded last_seq consumed)
  case Nil
  then have "chs = []" by (simp add: chunks_of_empty)
  then show ?case by (subst page_loop.simps) (simp add: empty_scan_def)
next
  case (Cons l ls)
  have l: "nl \<notin> set l" "l \<noteq> []" "length l \<le> BUS_EVENT_LINE_LIMIT" "utf8_valid l" "trim l \<noteq> []"
    using Cons.prems(1) [of l] by (auto simp: page_line_ok_def seq_line_def plain_line_def)
  from Cons.prems(2) l obtain s2 rest where
    read: "read_line chs empty_scan 0 = (s2, length l + 1, rest)" "ls_line s2 = l"
      "\<not> ls_oversized s2" "chunks_of (framed ls) rest"
    using read_line_closed [of l "framed ls" chs empty_scan 0] by (auto simp: empty_scan_def)
  have IH: "page_loop c since start rest ev en ls' co = page_ref c since start ls ev en ls' co"
    for ev en ls' co
    using Cons.IH [OF _ read(4)] Cons.prems(1) by simp
  have line: "page_line c since l = Inr (Option.bind (jc_parse c l) (replay_event since))"
    using l by (simp add: page_line_def)
  show ?case
    by (subst page_loop.simps)
       (simp add: read line l IH Let_def add.assoc split: option.splits prod.splits)
qed

section \<open>What a page holds\<close>

definition shown_events :: "codec \<Rightarrow> nat \<Rightarrow> string list \<Rightarrow> (nat \<times> json) list" where
  "shown_events c since ls =
     filter_map (\<lambda>l. Option.bind (jc_parse c l) (replay_event since)) ls"


lemma shown_events_Cons:
  "shown_events c since (l # ls) =
     (case Option.bind (jc_parse c l) (replay_event since) of
        None \<Rightarrow> shown_events c since ls | Some x \<Rightarrow> x # shown_events c since ls)"
  by (simp add: shown_events_def split: option.splits)

lemma replayed_shown: "replayed c since ls = map snd (shown_events c since ls)"
  by (simp add: replayed_def shown_events_def)

text \<open>The size of a page's events as a JSON array: brackets, texts, commas.\<close>

definition events_bytes :: "codec \<Rightarrow> json list \<Rightarrow> nat" where
  "events_bytes c evs = 1 + sum_list (map (\<lambda>e. length (jc_text c e) + 1) evs)"


definition page_bounded :: "codec \<Rightarrow> json list \<Rightarrow> bool" where
  "page_bounded c evs =
     (length evs \<le> BUS_EVENT_PAGE_ENTRY_LIMIT \<and> events_bytes c evs \<le> BUS_EVENT_PAGE_BYTE_LIMIT)"



section \<open>Walking the pages\<close>







lemma page_ref_returns:
  assumes "\<And>q e. (q, e) \<in> set (shown_events c since ls)
      \<Longrightarrow> length (jc_text c e) + 2 \<le> BUS_EVENT_PAGE_BYTE_LIMIT"
  shows "\<exists>p. page_ref c since start ls events encoded last_seq consumed = Inr p"
  using assms
proof (induction ls arbitrary: events encoded last_seq consumed)
  case (Cons l ls)
  show ?case
  proof (cases "Option.bind (jc_parse c l) (replay_event since)")
    case None
    with Cons show ?thesis by (simp add: shown_events_Cons)
  next
    case (Some se)
    obtain q e where se: "se = (q, e)" by fastforce
    with Some Cons.prems [of q e] have "length (jc_text c e) + 2 \<le> BUS_EVENT_PAGE_BYTE_LIMIT"
      by (simp add: shown_events_Cons)
    moreover have "\<exists>p. page_ref c since start ls ev en la co = Inr p" for ev en la co
    proof (rule Cons.IH)
      fix r x
      assume "(r, x) \<in> set (shown_events c since ls)"
      then show "length (jc_text c x) + 2 \<le> BUS_EVENT_PAGE_BYTE_LIMIT"
        using Some by (intro Cons.prems [of r x]) (simp add: shown_events_Cons)
    qed
    ultimately show ?thesis using Some se by (auto simp: Let_def not_less)
  qed
qed simp

definition good_chunks :: "(string \<Rightarrow> string list) \<Rightarrow> bool" where
  "good_chunks chunks = (\<forall>s. chunks_of s (chunks s))"



definition one_chunk :: "string \<Rightarrow> string list" where
  "one_chunk s = (if s = [] then [] else [s])"

lemma one_chunk_good: "good_chunks one_chunk"
  by (simp add: good_chunks_def chunks_of_def one_chunk_def)

lemma demo_text_short: "length (jc_text demo_codec v) = 3 + unwrap_or (get_u64 v ''seq'') 0"
  by (simp add: demo_codec_def demo_record_line_def)


lemma demo_first_line: "seq_line demo_codec (demo_record_line CHR ''A'' 1)"
proof -
  have "demo_records (demo_record CHR ''A'' 1)" unfolding demo_records_def by blast
  moreover have "get_u64 (demo_record CHR ''A'' 1) ''seq'' = Some 1" by (simp add: demo_record_def)
  ultimately show ?thesis
    using codec_okD(1) [OF demo_codec_ok, of "demo_record CHR ''A'' 1" 1]
    by (simp add: wf_record_def)
qed

lemma demo_first_event:
  "list_bus_events demo_codec disk_ok (Some (framed [demo_record_line CHR ''A'' 1])) (Some 0) =
     [JObj [(''run_id'', JStr ''A''), (''text'', JStr ''hi''), (''type'', JStr ''user_message''),
            (''ts'', JStr ''T''), (''_seq'', jnat 1)]]"
proof -
  have "replay_event 0 (demo_record CHR ''A'' 1) =
      Some (1, JObj [(''run_id'', JStr ''A''), (''text'', JStr ''hi''), (''type'', JStr ''user_message''),
                     (''ts'', JStr ''T''), (''_seq'', jnat 1)])"
    by (simp add: replay_event_def demo_record_def bus_envelope_def demo_message_def jnat_def
        jset_def jinsert_def REPLAY_TYPES_def)
  then have "replayed demo_codec 0 [demo_record_line CHR ''A'' 1] =
     [JObj [(''run_id'', JStr ''A''), (''text'', JStr ''hi''), (''type'', JStr ''user_message''),
            (''ts'', JStr ''T''), (''_seq'', jnat 1)]]"
    by (simp add: replayed_def)
  then show ?thesis
    using list_bus_events_framed [of "[demo_record_line CHR ''A'' 1]" demo_codec disk_ok "Some 0"]
      demo_first_line by (simp add: disk_ok_def)
qed



lemma page_loop_bounded:
  assumes "page_loop c since start chs events encoded last_seq consumed = Inr p"
    and "encoded = events_bytes c events + 1" and "page_bounded c events"
  shows "page_bounded c (bp_events p)"
  using assms
proof (induction c since start chs events encoded last_seq consumed rule: page_loop.induct)
  case (1 c since start chs events encoded last_seq consumed)
  obtain s n rest where read: "read_line chs empty_scan 0 = (s, n, rest)" by (rule prod_cases3)
  note IH = "1.IH" [OF refl read [symmetric] refl refl]
  note run = "1.prems"(1) [unfolded page_loop.simps [of c since start chs] read prod.case Let_def]
  show ?case
  proof (cases "ls_line s = [] \<and> \<not> ls_oversized s")
    case True
    with run "1.prems"(3) show ?thesis by auto
  next
    case more: False
    show ?thesis
    proof (cases "ls_oversized s")
      case True
      with run more IH(1) [OF more True] "1.prems"(2,3) show ?thesis by (auto split: if_splits)
    next
      case fits: False
      show ?thesis
      proof (cases "page_line c since (ls_line s)")
        case (Inl e)
        with run more fits show ?thesis by auto
      next
        case (Inr ev)
        show ?thesis
        proof (cases ev)
          case None
          with run more fits Inr IH(2) [OF more fits] "1.prems"(2,3) show ?thesis by auto
        next
          case (Some se)
          obtain seq event where se: "se = (seq, event)" by fastforce
          let ?b = "length (jc_text c event)"
          from run more fits Inr Some se have small: "\<not> BUS_EVENT_PAGE_BYTE_LIMIT < ?b + 2"
            by (auto split: if_splits)
          show ?thesis
          proof (cases "page_full events encoded ?b")
            case True
            with run more fits Inr Some se small "1.prems"(3) show ?thesis by auto
          next
            case False
            have "page_bounded c (events @ [event])"
              using False "1.prems"(2,3) small
              by (auto simp: page_full_def page_bounded_def BUS_EVENT_PAGE_ENTRY_LIMIT_def events_bytes_def)
            moreover have "encoded + (?b + 1) = events_bytes c (events @ [event]) + 1"
              using "1.prems"(2) by (simp add: events_bytes_def)
            moreover have "page_loop c since start rest (events @ [event]) (encoded + (?b + 1)) seq
                (consumed + n) = Inr p"
              using run more fits Inr Some se small False by auto
            ultimately show ?thesis
              using IH(3) [OF more fits] Inr Some se small False by auto
          qed
        qed
      qed
    qed
  qed
qed

text \<open>A catch-up page is bounded: whatever the log holds, at whatever offset and however it is
read, a page that is returned has at most 400 events and its encoded array at most 1 MiB.\<close>

theorem page_within_limits:
  assumes "list_bus_events_page c chunks file0 since offset = Inr p"
  shows "length (bp_events p) \<le> 400 \<and> events_bytes c (bp_events p) \<le> 1048576"
proof (cases file0)
  case None
  with assms show ?thesis by (auto simp: list_bus_events_page_def events_bytes_def)
next
  case (Some bytes)
  with assms have "page_loop c since (unwrap_or offset 0) (chunks (drop (unwrap_or offset 0) bytes))
      [] 2 since 0 = Inr p"
    by (auto simp: list_bus_events_page_def list_bus_events_page_from_reader_def Let_def
        split: if_splits)
  from page_loop_bounded [OF this] show ?thesis
    by (simp add: events_bytes_def page_bounded_def BUS_EVENT_PAGE_BYTE_LIMIT_def
        BUS_EVENT_PAGE_ENTRY_LIMIT_def)
qed

theorem page_within_limits_witness:
  "\<exists>p. list_bus_events_page demo_codec one_chunk (Some (framed [demo_record_line CHR ''A'' 1])) 0 None = Inr p
     \<and> length (bp_events p) \<le> 400"
proof -
  let ?l = "demo_record_line CHR ''A'' 1"
  have "page_line_ok demo_codec ?l"
    using demo_first_line by (simp add: page_line_ok_def demo_record_line_def BUS_EVENT_LINE_LIMIT_def)
  moreover have "\<exists>p. page_ref demo_codec 0 0 [?l] [] 2 0 0 = Inr p"
  proof (rule page_ref_returns)
    fix q e
    assume "(q, e) \<in> set (shown_events demo_codec 0 [?l])"
    then have "e \<in> set (list_bus_events demo_codec disk_ok (Some (framed [?l])) (Some 0))"
      using list_bus_events_framed [of "[?l]" demo_codec disk_ok "Some 0"] demo_first_line
      by (force simp: replayed_shown disk_ok_def)
    then show "length (jc_text demo_codec e) + 2 \<le> BUS_EVENT_PAGE_BYTE_LIMIT"
      unfolding demo_first_event by (simp add: demo_text_short BUS_EVENT_PAGE_BYTE_LIMIT_def)
  qed
  moreover have "chunks_of (framed [?l]) (one_chunk (framed [?l]))"
    using one_chunk_good by (simp add: good_chunks_def)
  ultimately obtain p where
    "list_bus_events_page demo_codec one_chunk (Some (framed [?l])) 0 None = Inr p"
    using page_loop_ref [of "[?l]" demo_codec "one_chunk (framed [?l])"]
    by (auto simp: list_bus_events_page_def list_bus_events_page_from_reader_def)
  with page_within_limits [OF this] show ?thesis by blast
qed

end
