(* ===== verification/Run_Usage.thy ===== *)
theory Run_Usage
  imports Event_Log
begin

text \<open>
  What the statistics read off an event log (\<open>storage/events.rs\<close>): the usage of a run and the
  number of its user messages. Costs (\<open>f64\<close>) are rational numbers, token counts natural numbers.
  The property: for a native session, whose updates carry a cumulative cost that falls back when
  the process restarts, the cost of the run is the sum of the peaks of its segments.
\<close>

record model_usage_summary =
  mu_input_tokens :: nat
  mu_output_tokens :: nat
  mu_cache_read_tokens :: nat
  mu_cache_write_tokens :: nat
  mu_cost_usd :: rat

record raw_run_usage =
  ru_total_cost_usd :: rat
  ru_input_tokens :: nat
  ru_output_tokens :: nat
  ru_cache_read_tokens :: nat
  ru_cache_write_tokens :: nat
  ru_duration_ms :: nat
  ru_num_turns :: nat
  ru_model_usage :: "(string \<times> model_usage_summary) list"

section \<open>Extraction\<close>

text \<open>The local variables of the loop.\<close>

record usage_acc =
  ua_total_cost :: rat
  ua_prev_cost :: rat
  ua_peak_cost :: rat
  ua_duration :: nat
  ua_found :: bool
  ua_input :: nat
  ua_output :: nat
  ua_cache_read :: nat
  ua_cache_write :: nat
  ua_turns :: nat
  ua_models :: "(string \<times> model_usage_summary) list"

definition usage_start :: usage_acc where
  "usage_start = \<lparr>ua_total_cost = 0, ua_prev_cost = 0, ua_peak_cost = 0, ua_duration = 0,
     ua_found = False, ua_input = 0, ua_output = 0, ua_cache_read = 0, ua_cache_write = 0,
     ua_turns = 0, ua_models = []\<rparr>"

text \<open>Summed per turn, or cumulative with a drop of more than a tenth starting a new segment.\<close>

definition add_cost :: "bool \<Rightarrow> rat \<Rightarrow> usage_acc \<Rightarrow> usage_acc" where
  "add_cost sum_usage cost a =
     (if sum_usage then a\<lparr>ua_total_cost := ua_total_cost a + cost\<rparr>
      else (let a1 = (if cost < ua_prev_cost a * (9 / 10) \<and> 0 < ua_prev_cost a
                      then a\<lparr>ua_total_cost := ua_total_cost a + ua_peak_cost a, ua_peak_cost := 0\<rparr>
                      else a);
                a2 = (if ua_peak_cost a1 < cost then a1\<lparr>ua_peak_cost := cost\<rparr> else a1)
            in a2\<lparr>ua_prev_cost := cost\<rparr>))"

definition add_tokens :: "bool \<Rightarrow> json \<Rightarrow> usage_acc \<Rightarrow> usage_acc" where
  "add_tokens sum_usage event a =
     (let pick = (\<lambda>old k. if sum_usage then old + unwrap_or (get_u64 event k) 0
                          else unwrap_or (get_u64 event k) old)
      in a\<lparr>ua_input := pick (ua_input a) ''input_tokens'',
           ua_output := pick (ua_output a) ''output_tokens'',
           ua_cache_read := pick (ua_cache_read a) ''cache_read_tokens'',
           ua_cache_write := pick (ua_cache_write a) ''cache_write_tokens''\<rparr>)"

definition add_turns :: "json \<Rightarrow> usage_acc \<Rightarrow> usage_acc" where
  "add_turns event a =
     (case get_u64 event ''num_turns'' of
        Some nt \<Rightarrow> a\<lparr>ua_turns := nt\<rparr>
      | None \<Rightarrow>
          (case get_u64 event ''turn_index'' of
             Some ti \<Rightarrow> if ua_turns a < ti then a\<lparr>ua_turns := ti\<rparr> else a
           | None \<Rightarrow> a))"

definition model_entry :: "json \<Rightarrow> model_usage_summary" where
  "model_entry entry =
     \<lparr>mu_input_tokens = unwrap_or (get_u64 entry ''input_tokens'') 0,
      mu_output_tokens = unwrap_or (get_u64 entry ''output_tokens'') 0,
      mu_cache_read_tokens = unwrap_or (get_u64 entry ''cache_read_tokens'') 0,
      mu_cache_write_tokens = unwrap_or (get_u64 entry ''cache_write_tokens'') 0,
      mu_cost_usd = unwrap_or (get_f64 entry ''cost_usd'') 0\<rparr>"

definition add_models :: "json \<Rightarrow> usage_acc \<Rightarrow> usage_acc" where
  "add_models event a =
     (case Option.bind (jget event ''model_usage'') as_object of
        None \<Rightarrow> a
      | Some kvs \<Rightarrow> a\<lparr>ua_models := fold (\<lambda>(m, e). hm_insert m (model_entry e)) kvs []\<rparr>)"

definition add_usage :: "bool \<Rightarrow> json \<Rightarrow> usage_acc \<Rightarrow> usage_acc" where
  "add_usage sum_usage event a =
     (let a1 = add_cost sum_usage (unwrap_or (get_f64 event ''total_cost_usd'') 0)
                 (a\<lparr>ua_found := True\<rparr>);
          a2 = add_turns event (add_tokens sum_usage event a1);
          a3 = a2\<lparr>ua_duration := ua_duration a2 + unwrap_or (get_u64 event ''duration_ms'') 0\<rparr>
      in add_models event a3)"

text \<open>The event of a line, after the cheap pre-filter on its text.\<close>

definition quoted :: "string \<Rightarrow> string" where
  "quoted s = CHR 0x22 # s @ [CHR 0x22]"

definition usage_event :: "codec \<Rightarrow> string \<Rightarrow> json option" where
  "usage_event c l =
     (let line = trim l in
      if line = [] \<or> \<not> str_contains line (quoted ''usage_update'') then None
      else (case jc_parse c line of None \<Rightarrow> None | Some envelope \<Rightarrow>
            if get_bool envelope ''_bus'' \<noteq> Some True then None
            else opt_filter (\<lambda>e. unwrap_or (get_str e ''type'') [] = ''usage_update'')
                   (jget envelope ''event'')))"

text \<open>\<open>meta\<close>: the text of \<open>meta.json\<close>, \<open>None\<close> when it is missing or unreadable.\<close>

definition sums_usage :: "codec \<Rightarrow> string option \<Rightarrow> bool" where
  "sums_usage c meta =
     (let v = Option.bind meta (jc_parse c);
          source = Option.bind v (\<lambda>x. get_str x ''source'');
          agent = Option.bind v (\<lambda>x. get_str x ''agent'')
      in source = Some ''cli_import'' \<or> agent = Some ''codex'')"

definition usage_of :: "bool \<Rightarrow> json list \<Rightarrow> raw_run_usage option" where
  "usage_of sum_usage events =
     (let a = fold (add_usage sum_usage) events usage_start in
      if \<not> ua_found a then None
      else Some \<lparr>ru_total_cost_usd = (if sum_usage then ua_total_cost a
                                     else ua_total_cost a + ua_peak_cost a),
                 ru_input_tokens = ua_input a, ru_output_tokens = ua_output a,
                 ru_cache_read_tokens = ua_cache_read a, ru_cache_write_tokens = ua_cache_write a,
                 ru_duration_ms = ua_duration a, ru_num_turns = ua_turns a,
                 ru_model_usage = ua_models a\<rparr>)"

definition extract_run_usage ::
  "codec \<Rightarrow> disk \<Rightarrow> string option \<Rightarrow> string option \<Rightarrow> raw_run_usage option" where
  "extract_run_usage c dk file0 meta =
     (case file0 of
        None \<Rightarrow> None
      | Some bytes \<Rightarrow>
          if \<not> dk_full dk \<or> \<not> utf8_valid bytes then None
          else usage_of (sums_usage c meta) (filter_map (usage_event c) (str_lines bytes)))"

section \<open>User messages\<close>

text \<open>\<open>Some True\<close>: a message that does not start with a slash.\<close>

definition user_message_line :: "codec \<Rightarrow> string \<Rightarrow> bool option" where
  "user_message_line c l =
     (let line = trim l in
      if line = [] \<or> \<not> str_contains line (quoted ''user_message'') then None
      else (case jc_parse c line of None \<Rightarrow> None | Some parsed \<Rightarrow>
            let event = unwrap_or (jget parsed ''event'') parsed in
            if unwrap_or (get_str event ''type'') [] = ''user_message''
            then Some (\<not> starts_with (trim_start (unwrap_or (get_str event ''text'') [])) ''/'')
            else None))"

definition count_user_messages :: "codec \<Rightarrow> disk \<Rightarrow> string option \<Rightarrow> nat \<times> nat" where
  "count_user_messages c dk file0 =
     (case file0 of
        None \<Rightarrow> (0, 0)
      | Some bytes \<Rightarrow>
          if \<not> dk_full dk \<or> \<not> utf8_valid bytes then (0, 0)
          else (let ms = filter_map (user_message_line c) (str_lines bytes)
                in (length ms, length (filter id ms))))"

section \<open>Peaks of segments\<close>

text \<open>
  The reference: the costs cut where one is below nine tenths of the cost before it, and the
  highest of each segment.
\<close>

fun cost_segments :: "rat list \<Rightarrow> rat list list" where
  "cost_segments [] = []"
| "cost_segments [x] = [[x]]"
| "cost_segments (x # y # xs) =
     (if y < x * (9 / 10) \<and> 0 < x then [x] # cost_segments (y # xs)
      else (case cost_segments (y # xs) of [] \<Rightarrow> [[x]] | s # ss \<Rightarrow> (x # s) # ss))"

definition segment_peak :: "rat list \<Rightarrow> rat" where
  "segment_peak s = fold max s 0"

definition event_cost :: "json \<Rightarrow> rat" where
  "event_cost event = unwrap_or (get_f64 event ''total_cost_usd'') 0"

lemma cost_segments_nonempty: "cost_segments (x # xs) \<noteq> []"
  by (cases xs) (simp_all split: list.split)

lemma concat_cost_segments: "concat (cost_segments xs) = xs"
proof (induction xs rule: cost_segments.induct)
  case (3 x y xs)
  obtain s ss where seg: "cost_segments (y # xs) = s # ss"
    using cost_segments_nonempty by (meson neq_Nil_conv)
  with 3 show ?case by (cases "y < x * (9 / 10) \<and> 0 < x") (auto simp: seg)
qed simp_all

text \<open>The cost variables alone.\<close>

definition cost_step :: "rat \<Rightarrow> rat \<times> rat \<times> rat \<Rightarrow> rat \<times> rat \<times> rat" where
  "cost_step cost = (\<lambda>(tot, prev, peak).
     (let cut = (cost < prev * (9 / 10) \<and> 0 < prev)
      in (if cut then tot + peak else tot, cost, max (if cut then 0 else peak) cost)))"

definition costs_of :: "usage_acc \<Rightarrow> rat \<times> rat \<times> rat" where
  "costs_of a = (ua_total_cost a, ua_prev_cost a, ua_peak_cost a)"

lemma usage_frames [simp]:
  "costs_of (add_tokens su event a) = costs_of a" "ua_found (add_tokens su event a) = ua_found a"
  "costs_of (add_turns event a) = costs_of a" "ua_found (add_turns event a) = ua_found a"
  "costs_of (add_models event a) = costs_of a" "ua_found (add_models event a) = ua_found a"
  "costs_of (a\<lparr>ua_duration := d\<rparr>) = costs_of a" "costs_of (a\<lparr>ua_found := f\<rparr>) = costs_of a"
  "ua_found (add_cost su q a) = ua_found a"
  by (simp_all add: costs_of_def add_tokens_def add_turns_def add_models_def add_cost_def Let_def
      split: option.split)

lemma add_cost_costs: "costs_of (add_cost False q a) = cost_step q (costs_of a)"
  by (simp add: costs_of_def add_cost_def cost_step_def Let_def max_def)

lemma add_usage_costs:
  "costs_of (add_usage False event a) = cost_step (event_cost event) (costs_of a)"
  by (simp add: add_usage_def Let_def add_cost_costs event_cost_def)

lemma fold_usage_costs:
  "costs_of (fold (add_usage False) events a) = fold cost_step (map event_cost events) (costs_of a)"
  by (induction events arbitrary: a) (simp_all add: add_usage_costs)

lemma usage_found: "ua_found (fold (add_usage su) events a) = (ua_found a \<or> events \<noteq> [])"
proof (induction events arbitrary: a)
  case (Cons e events)
  have "ua_found (add_usage su e a)" by (simp add: add_usage_def Let_def)
  with Cons show ?case by simp
qed simp

text \<open>With a segment open at \<open>prev\<close> and its peak so far, the rest adds the peaks of the segments.\<close>

lemma cost_fold:
  "(let (tot', prev', peak') = fold cost_step xs (tot, x, max p x) in tot' + peak')
   = tot + (case cost_segments (x # xs) of
                [] \<Rightarrow> 0 | s # ss \<Rightarrow> fold max s p + sum_list (map segment_peak ss))"
proof (induction xs arbitrary: tot x p)
  case Nil
  then show ?case by (simp add: max.commute)
next
  case (Cons y xs)
  obtain s ss where seg: "cost_segments (y # xs) = s # ss"
    using cost_segments_nonempty by (meson neq_Nil_conv)
  show ?case
  proof (cases "y < x * (9 / 10) \<and> 0 < x")
    case True
    with Cons [of "tot + max p x" y 0] seg show ?thesis
      by (simp add: cost_step_def segment_peak_def max.commute)
  next
    case False
    with Cons [of tot y "max p x"] seg show ?thesis
      by (auto simp: cost_step_def max.commute)
  qed
qed

text \<open>C21: For a native session the cost of a run is the sum of the peaks of its segments: the
updates of the log carry the cumulative cost of the CLI process, and a cost below nine tenths of the
one before starts a new segment; the reported total is, for any events, the sum over the segments
of the highest cost in each, so a restart of the process neither loses nor counts twice what was
spent before it, and nothing is reported without an update.\<close>

theorem usage_sums_segment_peaks:
  "map_option ru_total_cost_usd (usage_of False events) =
     (if events = [] then None
      else Some (sum_list (map segment_peak (cost_segments (map event_cost events)))))"
proof (cases events)
  case Nil
  then show ?thesis by (simp add: usage_of_def usage_start_def)
next
  case (Cons e es)
  define a where "a = fold (add_usage False) events usage_start"
  have "cost_step (event_cost e) (costs_of usage_start) = (0, event_cost e, max 0 (event_cost e))"
    by (simp add: cost_step_def costs_of_def usage_start_def)
  then have "costs_of a = fold cost_step (map event_cost es) (0, event_cost e, max 0 (event_cost e))"
    using Cons by (simp add: a_def fold_usage_costs add_usage_costs)
  moreover have "ua_total_cost a + ua_peak_cost a
      = (let (tot', prev', peak') = costs_of a in tot' + peak')"
    by (simp add: costs_of_def)
  ultimately have "ua_total_cost a + ua_peak_cost a = (case cost_segments (map event_cost events) of
      [] \<Rightarrow> 0 | s # ss \<Rightarrow> fold max s 0 + sum_list (map segment_peak ss))"
    using cost_fold [of "map event_cost es" 0 "event_cost e" 0] Cons by simp
  moreover obtain s ss where "cost_segments (map event_cost events) = s # ss"
    using Cons cost_segments_nonempty by (metis list.simps(9) neq_Nil_conv)
  ultimately have "ua_total_cost a + ua_peak_cost a
      = sum_list (map segment_peak (cost_segments (map event_cost events)))"
    by (simp add: segment_peak_def)
  moreover have "ua_found a" "events \<noteq> []"
    using Cons usage_found [of False events usage_start] unfolding a_def by simp_all
  ultimately show ?thesis
    unfolding usage_of_def a_def [symmetric] Let_def by simp
qed

end
