(* ===== verification/Web_Auth.thy ===== *)
theory Web_Auth
  imports Text_Lines
begin

text \<open>
  Who may use the web server (\<open>web_server/auth.rs\<close>, the connection checks of
  \<open>web_server/ws.rs\<close>, the token commands of \<open>commands/web_server.rs\<close> and \<open>commands/settings.rs\<close>).

  A session entry is made by presenting the token; it carries the version the token had then, and
  every rotation of the token counts the version up. Times are milliseconds, the clock is an
  argument. The headers of a request are an association list from lower-case names to raw bytes.
\<close>

section \<open>State\<close>

record session_entry =
  se_id :: string
  se_issued_at :: int
  se_expires_at :: int
  se_token_version :: nat

record auth_state =
  au_token :: string
  au_version :: nat
  au_sessions :: "string \<Rightarrow> session_entry option"

datatype ws_auth_subject = Session string | QueryToken

definition session_ttl_secs :: int where
  "session_ttl_secs = 86400"

section \<open>Cookies\<close>

text \<open>\<open>str::split\<close> on a character: always at least one part.\<close>

fun split_char :: "char \<Rightarrow> string \<Rightarrow> string list" where
  "split_char d [] = [[]]"
| "split_char d (c # s) =
     (if c = d then [] # split_char d s
      else case split_char d s of [] \<Rightarrow> [[c]] | p # ps \<Rightarrow> (c # p) # ps)"

text \<open>\<open>HeaderValue::to_str\<close> succeeds on visible ASCII, blanks and tabs.\<close>

definition header_text :: "string \<Rightarrow> string option" where
  "header_text v =
     (if \<forall>c\<in>set v. byte c = 9 \<or> 32 \<le> byte c \<and> byte c < 127 then Some v else None)"

definition cookie_header :: "(string \<times> string) list \<Rightarrow> string option" where
  "cookie_header headers = Option.bind (map_of headers ''cookie'') header_text"

fun first_some :: "('a \<Rightarrow> 'b option) \<Rightarrow> 'a list \<Rightarrow> 'b option" where
  "first_some f [] = None"
| "first_some f (x # xs) = (case f x of Some y \<Rightarrow> Some y | None \<Rightarrow> first_some f xs)"

definition extract_cookie :: "(string \<times> string) list \<Rightarrow> string \<Rightarrow> string option" where
  "extract_cookie headers name =
     (case cookie_header headers of
        None \<Rightarrow> None
      | Some h \<Rightarrow>
          first_some (\<lambda>part. strip_prefix (trim part) (name @ ''='')) (split_char (CHR '';'') h))"

section \<open>Checks\<close>

definition entry_valid :: "auth_state \<Rightarrow> int \<Rightarrow> session_entry \<Rightarrow> bool" where
  "entry_valid st now e = (now < se_expires_at e \<and> se_token_version e = au_version st)"

definition session_valid :: "auth_state \<Rightarrow> int \<Rightarrow> string \<Rightarrow> bool" where
  "session_valid st now sid =
     (case au_sessions st sid of None \<Rightarrow> False | Some e \<Rightarrow> entry_valid st now e)"

text \<open>\<open>authenticate_ws\<close>: every \<open>session=\<close> part of the cookie is tried, then the query token.\<close>

definition cookie_subject :: "auth_state \<Rightarrow> int \<Rightarrow> string \<Rightarrow> ws_auth_subject option" where
  "cookie_subject st now part =
     (case strip_prefix (trim part) ''session='' of
        None \<Rightarrow> None
      | Some sid \<Rightarrow> if session_valid st now sid then Some (Session sid) else None)"

definition authenticate_ws ::
  "auth_state \<Rightarrow> int \<Rightarrow> (string \<times> string) list \<Rightarrow> string option \<Rightarrow> ws_auth_subject option" where
  "authenticate_ws st now headers query_token =
     (let by_cookie = (case cookie_header headers of
                         None \<Rightarrow> None
                       | Some h \<Rightarrow> first_some (cookie_subject st now) (split_char (CHR '';'') h))
      in case by_cookie of
           Some s \<Rightarrow> Some s
         | None \<Rightarrow> (case query_token of
                      None \<Rightarrow> None
                    | Some tok \<Rightarrow> if tok = au_token st then Some QueryToken else None))"

text \<open>\<open>validate_ws_auth_extracted\<close>: the same checks, answering yes or no.\<close>

fun any_valid_part :: "auth_state \<Rightarrow> int \<Rightarrow> string list \<Rightarrow> bool" where
  "any_valid_part st now [] = False"
| "any_valid_part st now (part # parts) =
     (let trimmed = trim part
      in case strip_prefix trimmed ''session='' of
           Some sid \<Rightarrow>
             (case au_sessions st sid of
                Some e \<Rightarrow>
                  if now < se_expires_at e \<and> se_token_version e = au_version st then True
                  else any_valid_part st now parts
              | None \<Rightarrow> any_valid_part st now parts)
         | None \<Rightarrow> any_valid_part st now parts)"

definition validate_ws_auth_extracted ::
  "auth_state \<Rightarrow> int \<Rightarrow> (string \<times> string) list \<Rightarrow> string option \<Rightarrow> bool" where
  "validate_ws_auth_extracted st now headers query_token =
     (if (case cookie_header headers of
            Some h \<Rightarrow> any_valid_part st now (split_char (CHR '';'') h) | None \<Rightarrow> False)
      then True
      else (case query_token of Some tok \<Rightarrow> tok = au_token st | None \<Rightarrow> False))"

text \<open>\<open>validate_ws_auth\<close> on a whole request: the first session cookie and the raw query string.\<close>

definition validate_ws_auth ::
  "auth_state \<Rightarrow> int \<Rightarrow> (string \<times> string) list \<Rightarrow> string option \<Rightarrow> bool" where
  "validate_ws_auth st now headers query =
     (if (case extract_cookie headers ''session'' of
            Some sid \<Rightarrow>
              (case au_sessions st sid of
                 Some e \<Rightarrow> now < se_expires_at e \<and> se_token_version e = au_version st
               | None \<Rightarrow> False)
          | None \<Rightarrow> False)
      then True
      else (case query of
              None \<Rightarrow> False
            | Some q \<Rightarrow>
                list_ex (\<lambda>pair. strip_prefix pair ''token='' = Some (au_token st))
                  (split_char (CHR ''&'') q)))"

datatype gate_answer = Proceed | Redirect_to_login

text \<open>The session cookie middleware forgets an entry that is expired or of an old version.\<close>

definition session_cookie_middleware ::
  "auth_state \<Rightarrow> int \<Rightarrow> (string \<times> string) list \<Rightarrow> gate_answer \<times> auth_state" where
  "session_cookie_middleware st now headers =
     (case extract_cookie headers ''session'' of
        None \<Rightarrow> (Redirect_to_login, st)
      | Some sid \<Rightarrow>
          (case au_sessions st sid of
             None \<Rightarrow> (Redirect_to_login, st)
           | Some e \<Rightarrow>
               if se_expires_at e \<le> now
               then (Redirect_to_login, st\<lparr>au_sessions := (au_sessions st)(sid := None)\<rparr>)
               else if se_token_version e \<noteq> au_version st
               then (Redirect_to_login, st\<lparr>au_sessions := (au_sessions st)(sid := None)\<rparr>)
               else (Proceed, st)))"

section \<open>Logging in\<close>

text \<open>
  A login compares the presented token under the token's lock, then \<open>create_session_cookie\<close> reads
  the version, and then stores the entry under the lock of the sessions: three steps that other
  tasks may interleave with.
\<close>

definition login_accepted :: "auth_state \<Rightarrow> string \<Rightarrow> bool" where
  "login_accepted st token = (token = au_token st)"

definition new_session_entry :: "auth_state \<Rightarrow> int \<Rightarrow> string \<Rightarrow> session_entry" where
  "new_session_entry st now sid =
     \<lparr>se_id = sid, se_issued_at = now, se_expires_at = now + 1000 * session_ttl_secs,
      se_token_version = au_version st\<rparr>"

definition store_session :: "session_entry \<Rightarrow> auth_state \<Rightarrow> auth_state" where
  "store_session e st = st\<lparr>au_sessions := (au_sessions st)(se_id e \<mapsto> e)\<rparr>"

definition set_cookie_value :: "string \<Rightarrow> string" where
  "set_cookie_value sid =
     ''session='' @ sid @ ''; HttpOnly; SameSite=Lax; Path=/; Max-Age='' @ show_int session_ttl_secs"

definition create_session_cookie :: "auth_state \<Rightarrow> int \<Rightarrow> string \<Rightarrow> (string \<times> string) \<times> auth_state" where
  "create_session_cookie st now sid =
     ((sid, set_cookie_value sid), store_session (new_session_entry st now sid) st)"

datatype auth_response =
    Forbidden
  | Signed_in string
  | Redirect_home string
  | Login_form

definition auth_handler :: "auth_state \<Rightarrow> int \<Rightarrow> string \<Rightarrow> string \<Rightarrow> auth_response \<times> auth_state" where
  "auth_handler st now sid token =
     (if \<not> login_accepted st token then (Forbidden, st)
      else case create_session_cookie st now sid of
             ((_, cookie), st') \<Rightarrow> (Signed_in cookie, st'))"

definition login_page ::
  "auth_state \<Rightarrow> int \<Rightarrow> string \<Rightarrow> string option \<Rightarrow> auth_response \<times> auth_state" where
  "login_page st now sid query_token =
     (case query_token of
        Some token \<Rightarrow>
          if login_accepted st token
          then case create_session_cookie st now sid of
                 ((_, cookie), st') \<Rightarrow> (Redirect_home cookie, st')
          else (Login_form, st)
      | None \<Rightarrow> (Login_form, st))"

section \<open>Rotation\<close>

text \<open>
  A rotation writes the token, then counts the version up, then announces itself to the open
  connections.
\<close>

definition write_token :: "string \<Rightarrow> auth_state \<Rightarrow> auth_state" where
  "write_token token st = st\<lparr>au_token := token\<rparr>"

definition bump_version :: "auth_state \<Rightarrow> auth_state" where
  "bump_version st = st\<lparr>au_version := Suc (au_version st)\<rparr>"

definition regenerate_web_server_token :: "string \<Rightarrow> auth_state \<Rightarrow> auth_state" where
  "regenerate_web_server_token new_token st = bump_version (write_token new_token st)"

text \<open>\<open>update_user_settings_with_rotation\<close>, on the token before and after the patch.\<close>

definition update_user_settings_with_rotation ::
  "string option \<Rightarrow> string option \<Rightarrow> auth_state \<Rightarrow> auth_state" where
  "update_user_settings_with_rotation old_tok new_tok st =
     (if old_tok \<noteq> new_tok
      then bump_version (write_token (case new_tok of Some t \<Rightarrow> t | None \<Rightarrow> []) st)
      else st)"

text \<open>\<open>get_web_server_token\<close>: an empty token means that there is none.\<close>

definition get_web_server_token :: "auth_state \<Rightarrow> string option" where
  "get_web_server_token st = (if au_token st = [] then None else Some (au_token st))"

section \<open>WebSocket connections\<close>

text \<open>
  A connection is authenticated, later upgraded, and then its heartbeat task reads the version
  and subscribes to the announcements of rotations. \<open>sk_version\<close> is the version the heartbeat
  read, \<open>None\<close> before it runs.
\<close>

record socket =
  sk_subject :: ws_auth_subject
  sk_version :: "nat option"
  sk_announced :: bool
  sk_open :: bool

datatype beat = Ping | Close string

definition ws_handler ::
  "auth_state \<Rightarrow> int \<Rightarrow> (string \<times> string) list \<Rightarrow> string option \<Rightarrow> socket option" where
  "ws_handler st now headers query_token =
     (case authenticate_ws st now headers query_token of
        None \<Rightarrow> None
      | Some subject \<Rightarrow>
          Some \<lparr>sk_subject = subject, sk_version = None, sk_announced = False, sk_open = True\<rparr>)"

definition start_heartbeat :: "auth_state \<Rightarrow> socket \<Rightarrow> socket" where
  "start_heartbeat st k = k\<lparr>sk_version := Some (au_version st)\<rparr>"

text \<open>A tick of the heartbeat: the version, then the expiry of a cookie session, then a ping.\<close>

definition heartbeat_tick :: "auth_state \<Rightarrow> int \<Rightarrow> socket \<Rightarrow> beat" where
  "heartbeat_tick st now k =
     (if sk_version k \<noteq> Some (au_version st) then Close ''token_version_mismatch''
      else case sk_subject k of
             QueryToken \<Rightarrow> Ping
           | Session sid \<Rightarrow>
               if (case au_sessions st sid of Some e \<Rightarrow> se_expires_at e \<le> now | None \<Rightarrow> True)
               then Close ''session_expired'' else Ping)"

definition apply_beat :: "beat \<Rightarrow> socket \<Rightarrow> socket" where
  "apply_beat b k = (case b of Ping \<Rightarrow> k | Close _ \<Rightarrow> k\<lparr>sk_open := False\<rparr>)"

text \<open>The announcement reaches the heartbeats that are subscribed when it is sent.\<close>

definition announce :: "socket \<Rightarrow> socket" where
  "announce k = (if sk_version k \<noteq> None then k\<lparr>sk_announced := True\<rparr> else k)"

definition hear_announcement :: "socket \<Rightarrow> socket" where
  "hear_announcement k = (if sk_announced k then k\<lparr>sk_open := False\<rparr> else k)"

end
