(* ===== verification/Web_Auth_Props.thy ===== *)
theory Web_Auth_Props
  imports Web_Auth
begin

text \<open>
  Cookies through the checks: splitting and trimming a cookie header, the agreement of the three
  checks, and the way of an issued cookie through a browser back to the server.
\<close>

section \<open>Cookie strings\<close>

lemma split_char_nonempty [simp]: "split_char d s \<noteq> []"
  by (induction s) (auto split: list.splits)

lemma split_char_plain: "d \<notin> set s \<Longrightarrow> split_char d s = [s]"
  by (induction s) auto

lemma split_char_append: "d \<notin> set p \<Longrightarrow> split_char d (p @ d # s) = p # split_char d s"
  by (induction p) auto

lemma first_some_append:
  "first_some f (xs @ ys) = (case first_some f xs of Some y \<Rightarrow> Some y | None \<Rightarrow> first_some f ys)"
  by (induction xs) (auto split: option.splits)

lemma first_some_None [simp]: "first_some f xs = None \<longleftrightarrow> (\<forall>x\<in>set xs. f x = None)"
  by (induction xs) (auto split: option.splits)

lemma first_some_SomeD: "first_some f xs = Some y \<Longrightarrow> \<exists>x\<in>set xs. f x = Some y"
  by (induction xs) (auto split: option.splits)

lemma strip_prefix_append [simp]: "strip_prefix (p @ s) p = Some s"
  by (simp add: strip_prefix_def)

lemma trim_no_blank:
  assumes "s \<noteq> []" "\<forall>c\<in>set s. 32 < byte c \<and> byte c < 127"
  shows "trim s = s"
proof -
  have no: "\<not> ws1 c" "\<not> ws2 c d" "\<not> ws2 d c" "\<not> ws3 c d e" "\<not> ws3 d e c" if "32 < byte c" "byte c < 127" for c d e
    using that by (auto simp: ws1_def ws2_def ws3_def Let_def)
  have start: "trim_start t = t" if "\<forall>c\<in>set t. 32 < byte c \<and> byte c < 127" for t
    using that by (cases t rule: trim_start.cases) (auto simp: no)
  have rev: "trim_rev t = t" if "\<forall>c\<in>set t. 32 < byte c \<and> byte c < 127" for t
    using that by (cases t rule: trim_rev.cases) (auto simp: no)
  from assms show ?thesis by (simp add: trim_def trim_end_def start rev)
qed

lemma trim_leading_blank: "trim (CHR '' '' # s) = trim s"
proof -
  have "ws1 (CHR '' '')" by (simp add: ws1_def byte_def)
  then have "trim_start (CHR '' '' # s) = trim_start s"
    by (cases "CHR '' '' # s" rule: trim_start.cases) auto
  then show ?thesis by (simp add: trim_def)
qed

section \<open>The checks agree\<close>

lemma any_valid_part_Cons:
  "any_valid_part st now (a # parts) \<longleftrightarrow>
     cookie_subject st now a \<noteq> None \<or> any_valid_part st now parts"
  by (simp add: cookie_subject_def session_valid_def entry_valid_def Let_def split: option.split)

lemma any_valid_part_subject:
  "any_valid_part st now parts = (first_some (cookie_subject st now) parts \<noteq> None)"
proof (induction parts)
  case (Cons a parts)
  then show ?case by (cases "cookie_subject st now a") (simp_all add: any_valid_part_Cons del: any_valid_part.simps)
qed simp

lemma cookie_subject_Some:
  "cookie_subject st now part = Some s \<longleftrightarrow>
     (\<exists>sid. strip_prefix (trim part) ''session='' = Some sid \<and> session_valid st now sid \<and> s = Session sid)"
  by (auto simp: cookie_subject_def split: option.splits)

lemma authenticate_ws_cases:
  assumes "authenticate_ws st now headers q = Some s"
  obtains (cookie) sid where "s = Session sid" "session_valid st now sid"
  | (token) "s = QueryToken" "q = Some (au_token st)"
  using assms
  by (auto simp: authenticate_ws_def Let_def cookie_subject_Some
           split: option.splits if_splits dest!: first_some_SomeD)

lemma middleware_session:
  "fst (session_cookie_middleware st now headers) = Proceed \<longleftrightarrow>
     (\<exists>sid. extract_cookie headers ''session'' = Some sid \<and> session_valid st now sid)"
  by (auto simp: session_cookie_middleware_def session_valid_def entry_valid_def split: option.splits)

lemma middleware_state:
  "snd (session_cookie_middleware st now headers) = st \<or>
   (\<exists>sid. snd (session_cookie_middleware st now headers) =
            st\<lparr>au_sessions := (au_sessions st)(sid := None)\<rparr>)"
  by (auto simp: session_cookie_middleware_def split: option.splits)

lemma extract_first_subject:
  assumes "first_some (\<lambda>part. strip_prefix (trim part) ''session='') parts = Some sid"
    and "session_valid st now sid"
  shows "first_some (cookie_subject st now) parts = Some (Session sid)"
  using assms by (induction parts) (auto simp: cookie_subject_def split: option.splits)

text \<open>The three checks of a cookie agree: the yes/no check of a WebSocket request says yes exactly when
  \<open>authenticate_ws\<close> finds a subject; and a request that the middleware of the pages lets through
  is authenticated by \<open>authenticate_ws\<close> with the session of its cookie, and by
  \<open>validate_ws_auth\<close>, whatever query it carries.
\<close>

theorem cookie_checks_agree:
  "validate_ws_auth_extracted st now headers q = (authenticate_ws st now headers q \<noteq> None) \<and>
   (fst (session_cookie_middleware st now headers) = Proceed \<longrightarrow>
      (\<exists>sid. extract_cookie headers ''session'' = Some sid \<and>
             authenticate_ws st now headers q = Some (Session sid)) \<and>
      validate_ws_auth st now headers q')"
proof (intro conjI impI)
  show "validate_ws_auth_extracted st now headers q = (authenticate_ws st now headers q \<noteq> None)"
    by (auto simp: validate_ws_auth_extracted_def authenticate_ws_def any_valid_part_subject
             split: option.splits simp del: first_some_None)
next
  assume "fst (session_cookie_middleware st now headers) = Proceed"
  then obtain sid where sid: "extract_cookie headers ''session'' = Some sid" "session_valid st now sid"
    by (auto simp: middleware_session)
  then have "authenticate_ws st now headers q = Some (Session sid)"
    by (auto simp: extract_cookie_def authenticate_ws_def extract_first_subject
             split: option.splits simp del: first_some_None)
  with sid show "\<exists>sid. extract_cookie headers ''session'' = Some sid \<and>
             authenticate_ws st now headers q = Some (Session sid)" by blast
  from sid show "validate_ws_auth st now headers q'"
    by (auto simp: validate_ws_auth_def session_valid_def entry_valid_def split: option.splits)
qed

text \<open>Headers of a browser that holds one session cookie between two others.\<close>

definition demo_auth :: auth_state where
  "demo_auth = \<lparr>au_token = ''tok'', au_version = 3, au_sessions = Map.empty\<rparr>"

definition demo_signed :: auth_state where
  "demo_signed = snd (auth_handler demo_auth 1000 ''id-1'' ''tok'')"

section \<open>An issued cookie is accepted\<close>

text \<open>The value a browser sends back: its cookies in order, separated by a semicolon and a blank.\<close>

definition cookie_line :: "string list \<Rightarrow> string" where
  "cookie_line cs = str_join ''; '' cs"

definition clean_cookie :: "string \<Rightarrow> bool" where
  "clean_cookie c =
     (c \<noteq> [] \<and> (\<forall>x\<in>set c. 32 < byte x \<and> byte x < 127) \<and> CHR '';'' \<notin> set c)"

lemma split_cookie_line:
  "cs \<noteq> [] \<Longrightarrow> list_all clean_cookie cs \<Longrightarrow>
   split_char (CHR '';'') (cookie_line cs) = hd cs # map (Cons (CHR '' '')) (tl cs)"
proof (induction cs rule: induct_list012)
  case (2 x)
  then show ?case by (simp add: cookie_line_def clean_cookie_def split_char_plain)
next
  case (3 x y zs)
  then show ?case by (simp add: cookie_line_def clean_cookie_def split_char_append)
qed simp

lemma trimmed_parts:
  "cs \<noteq> [] \<Longrightarrow> list_all clean_cookie cs \<Longrightarrow>
   map trim (split_char (CHR '';'') (cookie_line cs)) = cs"
proof -
  assume cs: "cs \<noteq> []" "list_all clean_cookie cs"
  have "trim c = c" "trim (CHR '' '' # c) = c" if "c \<in> set cs" for c
    using that cs(2) by (auto simp: list_all_iff clean_cookie_def trim_no_blank trim_leading_blank)
  with cs show ?thesis by (cases cs) (auto simp: split_cookie_line intro!: map_idI)
qed

lemma cookie_line_text:
  "list_all clean_cookie cs \<Longrightarrow> header_text (cookie_line cs) = Some (cookie_line cs)"
proof (induction cs rule: induct_list012)
  case (3 x y zs)
  then show ?case by (auto simp: cookie_line_def clean_cookie_def header_text_def byte_def split: if_splits)
qed (auto simp: cookie_line_def clean_cookie_def header_text_def)

lemma first_some_map: "first_some (\<lambda>x. g (f x)) xs = first_some g (map f xs)"
  by (induction xs) (auto split: option.splits)

definition cookie_pair :: "string \<Rightarrow> string" where
  "cookie_pair value = takeWhile (\<lambda>c. c \<noteq> CHR '';'') value"

lemma issued_pair:
  "CHR '';'' \<notin> set sid \<Longrightarrow> cookie_pair (set_cookie_value sid) = ''session='' @ sid"
  unfolding cookie_pair_def set_cookie_value_def by (simp add: takeWhile_append)

lemma first_session_part:
  assumes "list_all clean_cookie (before @ (''session='' @ sid) # after)"
    and "\<forall>c\<in>set before. \<not> starts_with c ''session=''"
    and "map_of headers ''cookie'' = Some (cookie_line (before @ (''session='' @ sid) # after))"
  shows "extract_cookie headers ''session'' = Some sid"
proof -
  let ?cs = "before @ (''session='' @ sid) # after"
  have "extract_cookie headers ''session'' =
        first_some (\<lambda>c. strip_prefix c ''session='') (map trim (split_char (CHR '';'') (cookie_line ?cs)))"
    using assms(1) unfolding extract_cookie_def cookie_header_def assms(3) first_some_map [symmetric]
    by (simp add: cookie_line_text)
  also have "\<dots> = first_some (\<lambda>c. strip_prefix c ''session='') ?cs"
    using assms(1) by (subst trimmed_parts) auto
  also have "\<dots> = Some sid"
  proof -
    have "first_some (\<lambda>c. strip_prefix c ''session='') before = None"
      using assms(2) by (auto simp: strip_prefix_def)
    then show ?thesis
      using strip_prefix_append [of "''session=''" sid]
      by (simp add: first_some_append split: option.split del: first_some_None)
  qed
  finally show ?thesis .
qed

lemma demo_cookies:
  "list_all clean_cookie [''a=b'', ''c=d'', ''session=id-1'']"
  "\<forall>c\<in>set [''a=b'']. \<not> starts_with c ''session=''"
  "cookie_line [''a=b'', ''session=id-1'', ''c=d''] = ''a=b; session=id-1; c=d''"
  by (simp_all add: clean_cookie_def byte_def starts_with_def cookie_line_def)

lemma demo_login:
  "auth_handler demo_auth 1000 ''id-1'' ''tok'' = (Signed_in (set_cookie_value ''id-1''), demo_signed)"
  by (simp add: demo_signed_def auth_handler_def login_accepted_def create_session_cookie_def demo_auth_def)

lemma demo_extract:
  "extract_cookie [(''cookie'', ''a=b; session=id-1; c=d'')] ''session'' = Some ''id-1''"
  using first_session_part [of "[''a=b'']" "''id-1''" "[''c=d'']"] demo_cookies by simp

lemma demo_valid: "session_valid demo_signed 2000 ''id-1''"
  by (simp add: demo_signed_def auth_handler_def login_accepted_def create_session_cookie_def
      demo_auth_def session_valid_def entry_valid_def store_session_def new_session_entry_def
      session_ttl_secs_def)

theorem cookie_checks_agree_witness:
  "fst (session_cookie_middleware demo_signed 2000 [(''cookie'', ''a=b; session=id-1; c=d'')]) = Proceed \<and>
   authenticate_ws demo_signed 2000 [(''cookie'', ''a=b; session=id-1; c=d'')] None = Some (Session ''id-1'')"
  using cookie_checks_agree [of demo_signed 2000 "[(''cookie'', ''a=b; session=id-1; c=d'')]" None None]
    demo_extract demo_valid by (simp add: middleware_session)

text \<open>A login with the current token answers a cookie that opens the pages: until it expires, a
  request that sends it back, after any cookies that are not sessions themselves and before any
  others, passes the middleware and authenticates a connection as that session.
\<close>

theorem issued_cookie_accepted:
  assumes "auth_handler st now sid tok = (Signed_in value, st')"
    and "sid \<noteq> []" and "\<forall>x\<in>set sid. 32 < byte x \<and> byte x < 127" and "CHR '';'' \<notin> set sid"
    and "list_all clean_cookie before" and "list_all clean_cookie after"
    and "\<forall>c\<in>set before. \<not> starts_with c ''session=''"
    and "later < now + 86400000"
    and "map_of headers ''cookie'' = Some (cookie_line (before @ cookie_pair value # after))"
  shows "tok = au_token st \<and> session_cookie_middleware st' later headers = (Proceed, st') \<and>
         authenticate_ws st' later headers q = Some (Session sid)"
proof -
  from assms(1) have made: "tok = au_token st" "value = set_cookie_value sid"
      "st' = store_session (new_session_entry st now sid) st"
    by (auto simp: auth_handler_def login_accepted_def create_session_cookie_def split: if_splits)
  from assms made have valid: "session_valid st' later sid"
    by (simp add: session_valid_def entry_valid_def store_session_def new_session_entry_def
        session_ttl_secs_def)
  have "clean_cookie (''session='' @ sid)"
    using assms by (auto simp: clean_cookie_def byte_def)
  with assms made have sid: "extract_cookie headers ''session'' = Some sid"
    by (intro first_session_part [of before sid after]) (simp_all add: issued_pair)
  with valid have "fst (session_cookie_middleware st' later headers) = Proceed"
    by (simp add: middleware_session)
  moreover from sid valid have "authenticate_ws st' later headers q = Some (Session sid)"
    by (auto simp: extract_cookie_def authenticate_ws_def extract_first_subject
             split: option.splits simp del: first_some_None)
  ultimately show ?thesis using made(1) sid
    by (auto simp: session_cookie_middleware_def split: option.splits if_splits)
qed

theorem issued_cookie_accepted_witness:
  "session_cookie_middleware demo_signed 2000 [(''cookie'', ''a=b; session=id-1; c=d'')] =
     (Proceed, demo_signed) \<and>
   authenticate_ws demo_signed 2000 [(''cookie'', ''a=b; session=id-1; c=d'')] None =
     Some (Session ''id-1'')"
proof -
  have "cookie_line ([''a=b''] @ cookie_pair (set_cookie_value ''id-1'') # [''c=d'']) =
        ''a=b; session=id-1; c=d''"
    using demo_cookies(3) by (simp add: issued_pair)
  then show ?thesis
    using issued_cookie_accepted [OF demo_login, of "[''a=b'']" "[''c=d'']" 2000
        "[(''cookie'', ''a=b; session=id-1; c=d'')]" None] demo_cookies
    by (simp add: byte_def)
qed

end
