(* ===== verification/Web_Auth_Runs.thy ===== *)
theory Web_Auth_Runs
  imports Web_Auth_Props
begin

text \<open>
  The authentication of the web server as a step relation in which logins, rotations, requests and
  connections interleave, and its properties: a rotation ends every session issued before it, a
  session is only ever given for a token that was current, an announced rotation reaches the open
  connections; and the two windows in which a rotation is missed.
\<close>

section \<open>Interleaved logins, rotations, requests and connections\<close>

text \<open>
  \<open>ar_written\<close> counts the rotations that have written the token and not yet the version,
  \<open>ar_bumped\<close> those that have not yet announced themselves. \<open>ar_bound\<close> records what each session
  id was made from: identifiers are UUIDs, so none is made twice.
\<close>

record login =
  lg_token :: string
  lg_entry :: "session_entry option"

record auth_run =
  ar_auth :: auth_state
  ar_now :: int
  ar_logins :: "login list"
  ar_written :: nat
  ar_bumped :: nat
  ar_sockets :: "socket list"
  ar_bound :: "string \<Rightarrow> (string \<times> session_entry) option"

definition socket_at :: "auth_run \<Rightarrow> nat \<Rightarrow> socket" where
  "socket_at s i = ar_sockets s ! i"

inductive auth_step :: "auth_run \<Rightarrow> auth_run \<Rightarrow> bool" where
  wait: "ar_now s \<le> now \<Longrightarrow> auth_step s (s\<lparr>ar_now := now\<rparr>)"
| verify: "login_accepted (ar_auth s) tok \<Longrightarrow>
    auth_step s (s\<lparr>ar_logins := \<lparr>lg_token = tok, lg_entry = None\<rparr> # ar_logins s\<rparr>)"
| stamp: "ar_logins s = ls1 @ \<lparr>lg_token = tok, lg_entry = None\<rparr> # ls2 \<Longrightarrow> ar_bound s sid = None \<Longrightarrow>
    e = new_session_entry (ar_auth s) (ar_now s) sid \<Longrightarrow>
    auth_step s (s\<lparr>ar_logins := ls1 @ \<lparr>lg_token = tok, lg_entry = Some e\<rparr> # ls2,
                   ar_bound := (ar_bound s)(sid \<mapsto> (tok, e))\<rparr>)"
| store: "ar_logins s = ls1 @ \<lparr>lg_token = tok, lg_entry = Some e\<rparr> # ls2 \<Longrightarrow>
    auth_step s (s\<lparr>ar_auth := store_session e (ar_auth s), ar_logins := ls1 @ ls2\<rparr>)"
| rotate: "auth_step s (s\<lparr>ar_auth := write_token tok (ar_auth s), ar_written := Suc (ar_written s)\<rparr>)"
| bump: "ar_written s = Suc n \<Longrightarrow>
    auth_step s (s\<lparr>ar_auth := bump_version (ar_auth s), ar_written := n,
                   ar_bumped := Suc (ar_bumped s)\<rparr>)"
| broadcast: "ar_bumped s = Suc n \<Longrightarrow>
    auth_step s (s\<lparr>ar_bumped := n, ar_sockets := map announce (ar_sockets s)\<rparr>)"
| request: "auth_step s
    (s\<lparr>ar_auth := snd (session_cookie_middleware (ar_auth s) (ar_now s) headers)\<rparr>)"
| connect: "ws_handler (ar_auth s) (ar_now s) headers q = Some k \<Longrightarrow>
    auth_step s (s\<lparr>ar_sockets := ar_sockets s @ [k]\<rparr>)"
| beat_start: "i < length (ar_sockets s) \<Longrightarrow> sk_version (socket_at s i) = None \<Longrightarrow>
    auth_step s (s\<lparr>ar_sockets := (ar_sockets s)[i := start_heartbeat (ar_auth s) (socket_at s i)]\<rparr>)"
| beat: "i < length (ar_sockets s) \<Longrightarrow> sk_version (socket_at s i) \<noteq> None \<Longrightarrow>
    auth_step s (s\<lparr>ar_sockets := (ar_sockets s)
      [i := apply_beat (heartbeat_tick (ar_auth s) (ar_now s) (socket_at s i)) (socket_at s i)]\<rparr>)"
| hear: "i < length (ar_sockets s) \<Longrightarrow>
    auth_step s (s\<lparr>ar_sockets := (ar_sockets s)[i := hear_announcement (socket_at s i)]\<rparr>)"

definition auth_start :: "auth_run \<Rightarrow> bool" where
  "auth_start s =
     (au_sessions (ar_auth s) = Map.empty \<and> ar_logins s = [] \<and> ar_written s = 0 \<and>
      ar_bumped s = 0 \<and> ar_sockets s = [] \<and> ar_bound s = Map.empty)"

subsection \<open>Invariant\<close>

text \<open>The entry was made for its id, at a version and a time that have come.\<close>

definition bound_ok :: "auth_run \<Rightarrow> string \<Rightarrow> string \<times> session_entry \<Rightarrow> bool" where
  "bound_ok s sid b =
     (case b of (tok, e) \<Rightarrow>
        se_id e = sid \<and> se_token_version e \<le> au_version (ar_auth s) \<and> se_issued_at e \<le> ar_now s \<and>
        se_expires_at e = se_issued_at e + 86400000)"

definition socket_ok :: "auth_run \<Rightarrow> socket \<Rightarrow> bool" where
  "socket_ok s k =
     (case sk_version k of
        None \<Rightarrow> True
      | Some v \<Rightarrow>
          v \<le> au_version (ar_auth s) \<and>
          (v < au_version (ar_auth s) \<longrightarrow> sk_announced k \<or> 0 < ar_bumped s))"

definition auth_inv :: "auth_run \<Rightarrow> bool" where
  "auth_inv s =
     ((\<forall>sid b. ar_bound s sid = Some b \<longrightarrow> bound_ok s sid b) \<and>
      (\<forall>sid e. au_sessions (ar_auth s) sid = Some e \<longrightarrow> (\<exists>tok. ar_bound s sid = Some (tok, e))) \<and>
      (\<forall>l e. l \<in> set (ar_logins s) \<longrightarrow> lg_entry l = Some e \<longrightarrow>
         ar_bound s (se_id e) = Some (lg_token l, e)) \<and>
      (\<forall>k\<in>set (ar_sockets s). socket_ok s k))"

lemmas auth_op_defs = write_token_def bump_version_def store_session_def new_session_entry_def
  session_ttl_secs_def

lemma auth_version_mono: "auth_step s t \<Longrightarrow> au_version (ar_auth s) \<le> au_version (ar_auth t)"
  by (cases rule: auth_step.cases, assumption)
     (auto simp: auth_op_defs session_cookie_middleware_def split: option.splits)

lemma auth_bound_mono: "auth_step s t \<Longrightarrow> ar_bound s \<subseteq>\<^sub>m ar_bound t"
  by (cases rule: auth_step.cases, assumption) (auto simp: map_le_def)

lemma auth_inv_start: "auth_start s \<Longrightarrow> auth_inv s"
  by (simp add: auth_start_def auth_inv_def)


lemma bound_ok_mono:
  "auth_step s t \<Longrightarrow> bound_ok s sid b \<Longrightarrow> ar_now s \<le> ar_now t \<Longrightarrow> bound_ok t sid b"
  using auth_version_mono [of s t] by (auto simp: bound_ok_def)

lemma auth_now_mono: "auth_step s t \<Longrightarrow> ar_now s \<le> ar_now t"
  by (cases rule: auth_step.cases, assumption) auto

lemma new_bound_ok:
  "bound_ok s sid (tok, new_session_entry (ar_auth s) (ar_now s) sid)"
  by (simp add: bound_ok_def auth_op_defs)

lemma bound_step:
  assumes "auth_step s t" and "\<forall>sid b. ar_bound s sid = Some b \<longrightarrow> bound_ok s sid b"
    and "ar_bound t sid = Some b"
  shows "bound_ok t sid b"
proof -
  obtain tok e where b: "b = (tok, e)" by (cases b)
  from assms have "bound_ok s sid b"
    unfolding b by (cases rule: auth_step.cases) (auto simp: new_bound_ok split: if_splits)
  then show ?thesis using assms(1) auth_now_mono bound_ok_mono by blast
qed

lemma session_step:
  assumes "auth_step s t" and "auth_inv s" and "au_sessions (ar_auth t) sid = Some e"
  shows "\<exists>tok. ar_bound s sid = Some (tok, e)"
  using assms
proof (cases rule: auth_step.cases)
  case (store ls1 tok e' ls2)
  then have "ar_bound s (se_id e') = Some (tok, e')"
    using assms(2) by (auto simp: auth_inv_def)
  with store assms(2,3) show ?thesis by (auto simp: auth_inv_def auth_op_defs split: if_splits)
next
  case (request headers)
  then show ?thesis using assms(2,3) middleware_state [of "ar_auth s" "ar_now s" headers]
    by (auto simp: auth_inv_def split: if_splits)
qed (auto simp: auth_inv_def auth_op_defs)

lemma login_step:
  assumes "auth_step s t" and "auth_inv s" and "l \<in> set (ar_logins t)" and "lg_entry l = Some e"
  shows "ar_bound t (se_id e) = Some (lg_token l, e)"
  using assms
proof (cases rule: auth_step.cases)
  case (stamp ls1 tok ls2 sid e')
  then have old: "m \<in> set (ls1 @ ls2) \<Longrightarrow> lg_entry m = Some x \<Longrightarrow> ar_bound s (se_id x) = Some (lg_token m, x)" for m x
    using assms(2) by (auto simp: auth_inv_def)
  have id: "se_id e' = sid" using stamp by (simp add: new_session_entry_def)
  from assms(3) stamp(1) consider "l \<in> set (ls1 @ ls2)" | "l = \<lparr>lg_token = tok, lg_entry = Some e'\<rparr>" by auto
  then show ?thesis
  proof cases
    case 1
    then have "ar_bound s (se_id e) = Some (lg_token l, e)" using old assms(4) by blast
    with stamp show ?thesis by auto
  next
    case 2
    with assms(4) stamp(1) id show ?thesis by auto
  qed
qed (auto simp: auth_inv_def)

lemma socket_ok_frame:
  "socket_ok s k \<Longrightarrow> au_version (ar_auth t) = au_version (ar_auth s) \<Longrightarrow> ar_bumped t = ar_bumped s \<Longrightarrow>
   socket_ok t k"
  by (simp add: socket_ok_def split: option.splits)

lemma sockets_update:
  assumes "\<forall>k\<in>set (ar_sockets s). socket_ok s k" and "i < length (ar_sockets s)"
    and "\<And>k. k \<in> set (ar_sockets s) \<Longrightarrow> socket_ok s (f k)"
  shows "\<forall>k\<in>set ((ar_sockets s)[i := f (socket_at s i)]). socket_ok s k"
  using assms set_update_subset_insert [of "ar_sockets s" i "f (socket_at s i)"]
  by (auto simp: socket_at_def)

lemma socket_changes:
  "socket_ok s (start_heartbeat (ar_auth s) k)"
  "socket_ok s k \<Longrightarrow> socket_ok s (apply_beat b k)"
  "socket_ok s k \<Longrightarrow> socket_ok s (hear_announcement k)"
  by (auto simp: socket_ok_def start_heartbeat_def apply_beat_def hear_announcement_def
      split: beat.splits option.splits)

lemma socket_bump:
  "socket_ok s k \<Longrightarrow>
   socket_ok (s\<lparr>ar_auth := bump_version (ar_auth s), ar_written := n, ar_bumped := Suc m\<rparr>) k"
  by (auto simp: socket_ok_def bump_version_def split: option.splits)

lemma socket_broadcast: "socket_ok s k \<Longrightarrow> socket_ok (s\<lparr>ar_bumped := n, ar_sockets := ks\<rparr>) (announce k)"
  by (auto simp: socket_ok_def announce_def split: option.splits)

lemma middleware_version [simp]:
  "au_version (snd (session_cookie_middleware st now headers)) = au_version st"
  using middleware_state [of st now headers] by auto

lemma sockets_step:
  assumes "auth_step s t" and "\<forall>k\<in>set (ar_sockets s). socket_ok s k" and "k \<in> set (ar_sockets t)"
  shows "socket_ok t k"
  using assms(1)
proof (cases rule: auth_step.cases)
  case (bump n)
  with assms show ?thesis by (simp add: socket_bump)
next
  case (broadcast n)
  with assms show ?thesis by (auto simp: socket_broadcast)
next
  case (connect headers q k')
  then have "socket_ok s k'" by (auto simp: ws_handler_def socket_ok_def split: option.splits)
  with connect assms have "socket_ok s k" by auto
  then show ?thesis using connect by (auto intro: socket_ok_frame)
next
  case (beat_start i)
  with assms have "socket_ok s k"
    using sockets_update [of s i "start_heartbeat (ar_auth s)"] socket_changes by auto
  then show ?thesis using beat_start by (auto intro: socket_ok_frame)
next
  case (beat i)
  with assms have "socket_ok s k"
    using sockets_update [of s i "\<lambda>k. apply_beat (heartbeat_tick (ar_auth s) (ar_now s) (socket_at s i)) k"]
      socket_changes by auto
  then show ?thesis using beat by (auto intro: socket_ok_frame)
next
  case (hear i)
  with assms have "socket_ok s k"
    using sockets_update [of s i hear_announcement] socket_changes by auto
  then show ?thesis using hear by (auto intro: socket_ok_frame)
qed (use assms in \<open>auto simp: auth_op_defs intro: socket_ok_frame\<close>)

lemma auth_inv_step:
  assumes "auth_inv s" and "auth_step s t"
  shows "auth_inv t"
  unfolding auth_inv_def
proof (intro conjI allI impI ballI)
  show "bound_ok t sid b" if "ar_bound t sid = Some b" for sid b
    using bound_step [OF assms(2) _ that] assms(1) by (auto simp: auth_inv_def)
  show "\<exists>tok. ar_bound t sid = Some (tok, e)" if "au_sessions (ar_auth t) sid = Some e" for sid e
    using session_step [OF assms(2,1) that] auth_bound_mono [OF assms(2)]
    by (auto simp: map_le_def domI) (metis domI)
  show "ar_bound t (se_id e) = Some (lg_token l, e)"
    if "l \<in> set (ar_logins t)" "lg_entry l = Some e" for l e
    using login_step [OF assms(2,1) that] .
  show "socket_ok t k" if "k \<in> set (ar_sockets t)" for k
    using sockets_step [OF assms(2) _ that] assms(1) by (auto simp: auth_inv_def)
qed

interpretation auth: invariant_system auth_start auth_step auth_inv
  by unfold_locales (auto intro: auth_inv_start auth_inv_step)


section \<open>Properties\<close>

lemma auth_steps_mono:
  assumes "auth_step\<^sup>*\<^sup>* s t"
  shows "au_version (ar_auth s) \<le> au_version (ar_auth t) \<and> ar_bound s \<subseteq>\<^sub>m ar_bound t"
  using assms
proof (induction rule: rtranclp_induct)
  case (step t u)
  then show ?case using auth_version_mono auth_bound_mono by (meson le_trans map_le_trans)
qed simp

lemma session_bound:
  assumes "auth_inv s" and "au_sessions (ar_auth s) sid = Some e"
  obtains tok where "ar_bound s sid = Some (tok, e)" "bound_ok s sid (tok, e)"
  using assms unfolding auth_inv_def by blast

text \<open>C23: A rotation of the token ends the sessions issued before it for good: once the version has been
  counted up, whatever logins, rotations, requests and connections follow, no request with the
  cookie of a session that existed before is let through, neither to the pages nor to a new
  connection.
\<close>

theorem rotation_ends_sessions:
  assumes "auth_start s0" and "auth_step\<^sup>*\<^sup>* s0 s" and "au_sessions (ar_auth s) sid = Some e"
    and "auth_step\<^sup>*\<^sup>* s t" and "au_version (ar_auth s) < au_version (ar_auth t)"
  shows "authenticate_ws (ar_auth t) now headers q \<noteq> Some (Session sid) \<and>
         (extract_cookie headers ''session'' = Some sid \<longrightarrow>
            fst (session_cookie_middleware (ar_auth t) now headers) = Redirect_to_login)"
proof -
  have inv: "auth_inv s" "auth_inv t"
    using assms auth.inv_from_start by (blast, meson auth.inv_from_start rtranclp_trans)
  obtain tok where bound: "ar_bound s sid = Some (tok, e)" "bound_ok s sid (tok, e)"
    using session_bound [OF inv(1) assms(3)] .
  then have later: "ar_bound t sid = Some (tok, e)"
    using auth_steps_mono [OF assms(4)] by (metis domI map_le_def)
  have dead: "\<not> session_valid (ar_auth t) now sid"
  proof
    assume valid: "session_valid (ar_auth t) now sid"
    then obtain e' where e': "au_sessions (ar_auth t) sid = Some e'"
      by (auto simp: session_valid_def split: option.splits)
    then have "e' = e" using session_bound [OF inv(2) e'] later by auto
    with valid e' bound(2) assms(5) show False
      by (simp add: session_valid_def entry_valid_def bound_ok_def)
  qed
  then have "authenticate_ws (ar_auth t) now headers q \<noteq> Some (Session sid)"
    by (auto elim: authenticate_ws_cases)
  moreover have "fst (session_cookie_middleware (ar_auth t) now headers) \<noteq> Proceed"
    if "extract_cookie headers ''session'' = Some sid"
    using that dead by (simp add: middleware_session)
  ultimately show ?thesis using gate_answer.exhaust by blast
qed

text \<open>Every login in flight presented the token that was current at an earlier state.\<close>

definition presented :: "auth_run \<Rightarrow> auth_run \<Rightarrow> string \<Rightarrow> nat \<Rightarrow> int \<Rightarrow> bool" where
  "presented s0 t tok v time =
     (\<exists>u. auth_step\<^sup>*\<^sup>* s0 u \<and> auth_step\<^sup>*\<^sup>* u t \<and> login_accepted (ar_auth u) tok \<and>
          au_version (ar_auth u) \<le> v \<and> ar_now u \<le> time)"

lemma presented_step:
  "presented s0 s tok v time \<Longrightarrow> auth_step s t \<Longrightarrow> v \<le> v' \<Longrightarrow> time \<le> time' \<Longrightarrow>
   presented s0 t tok v' time'"
  unfolding presented_def by (meson le_trans order_trans rtranclp.rtrancl_into_rtrancl)

definition all_presented :: "auth_run \<Rightarrow> auth_run \<Rightarrow> bool" where
  "all_presented s0 t =
     ((\<forall>l\<in>set (ar_logins t). presented s0 t (lg_token l) (au_version (ar_auth t)) (ar_now t)) \<and>
      (\<forall>sid tok e. ar_bound t sid = Some (tok, e) \<longrightarrow>
         presented s0 t tok (se_token_version e) (se_issued_at e)))"

lemma all_presented_reach:
  assumes "auth_step\<^sup>*\<^sup>* s0 t" and "auth_start s0"
  shows "all_presented s0 t"
  using assms(1)
proof (induction rule: rtranclp_induct)
  case base
  then show ?case using assms(2) by (simp add: all_presented_def auth_start_def)
next
  case (step s t)
  note up = presented_step [OF _ step(2)]
  note mono = auth_version_mono [OF step(2)] auth_now_mono [OF step(2)]
  have old_login: "presented s0 t (lg_token l) (au_version (ar_auth t)) (ar_now t)"
    if "l \<in> set (ar_logins s)" for l
    using that step.IH up mono by (auto simp: all_presented_def)
  have old_bound: "presented s0 t tok (se_token_version e) (se_issued_at e)"
    if "ar_bound s sid = Some (tok, e)" for sid tok e
    using that step.IH up [OF _ order_refl order_refl] by (auto simp: all_presented_def)
  from step(2) show ?case
  proof (cases rule: auth_step.cases)
    case (verify tok)
    then have "presented s0 t tok (au_version (ar_auth t)) (ar_now t)"
      unfolding presented_def using step(1,2) by (auto intro!: exI [of _ s])
    then show ?thesis using verify old_login old_bound by (auto simp: all_presented_def)
  next
    case (stamp ls1 tok ls2 sid e)
    have "presented s0 t tok (au_version (ar_auth t)) (ar_now t)"
      using old_login [of "\<lparr>lg_token = tok, lg_entry = None\<rparr>"] stamp by simp
    then have new: "presented s0 t tok (se_token_version e) (se_issued_at e)"
      using stamp by (simp add: new_session_entry_def)
    have logins: "presented s0 t (lg_token l) (au_version (ar_auth t)) (ar_now t)"
      if "l \<in> set (ar_logins t)" for l
    proof (cases "l \<in> set (ar_logins s)")
      case False
      with that stamp(1,2) have "l = \<lparr>lg_token = tok, lg_entry = Some e\<rparr>" by auto
      with \<open>presented s0 t tok (au_version (ar_auth t)) (ar_now t)\<close> show ?thesis by simp
    qed (rule old_login)
    have bounds: "presented s0 t tok' (se_token_version e') (se_issued_at e')"
      if "ar_bound t sid' = Some (tok', e')" for sid' tok' e'
      using that stamp(1) new old_bound [of sid' tok' e'] by (cases "sid' = sid") auto
    show ?thesis using logins bounds unfolding all_presented_def by blast
  next
    case (store ls1 tok e ls2)
    then show ?thesis using old_login old_bound by (auto simp: all_presented_def)
  qed (use old_login old_bound in \<open>auto simp: all_presented_def\<close>)
qed

text \<open>C24: Every credential goes back to the token: a request is only authenticated as a session if, at some
  earlier moment of the run and at most 24 hours ago, someone presented the token that was then
  current, and the session was made since, at the version that is current now; and it is
  authenticated by the query only with the token that is current now.
\<close>

theorem session_needs_token:
  assumes "auth_start s0" and "auth_step\<^sup>*\<^sup>* s0 t"
    and "authenticate_ws (ar_auth t) (ar_now t) headers q = Some subject"
  shows "case subject of
           QueryToken \<Rightarrow> q = Some (au_token (ar_auth t))
         | Session sid \<Rightarrow>
             \<exists>u tok e. auth_step\<^sup>*\<^sup>* s0 u \<and> auth_step\<^sup>*\<^sup>* u t \<and> login_accepted (ar_auth u) tok \<and>
               ar_bound t sid = Some (tok, e) \<and> se_token_version e = au_version (ar_auth t) \<and>
               ar_now u \<le> se_issued_at e \<and> ar_now t < se_issued_at e + 86400000"
  using assms(3)
proof (cases rule: authenticate_ws_cases)
  case (cookie sid)
  then obtain e where e: "au_sessions (ar_auth t) sid = Some e" "entry_valid (ar_auth t) (ar_now t) e"
    by (auto simp: session_valid_def split: option.splits)
  have "auth_inv t" using assms auth.inv_from_start by blast
  then obtain tok where tok: "ar_bound t sid = Some (tok, e)" "bound_ok t sid (tok, e)"
    using session_bound e(1) by blast
  have "presented s0 t tok (se_token_version e) (se_issued_at e)"
    using all_presented_reach [OF assms(2,1)] tok(1) by (auto simp: all_presented_def)
  then show ?thesis
    using cookie(1) tok e(2) by (auto simp: presented_def entry_valid_def bound_ok_def)
next
  case token
  then show ?thesis by simp
qed


section \<open>A session, two rotations and two missed ones\<close>

definition run0 :: auth_run where
  "run0 = \<lparr>ar_auth = \<lparr>au_token = ''old'', au_version = 0, au_sessions = Map.empty\<rparr>, ar_now = 1000,
           ar_logins = [], ar_written = 0, ar_bumped = 0, ar_sockets = [], ar_bound = Map.empty\<rparr>"

definition entry0 :: "nat \<Rightarrow> session_entry" where
  "entry0 v = \<lparr>se_id = ''id-1'', se_issued_at = 1000, se_expires_at = 86401000, se_token_version = v\<rparr>"

text \<open>Signed in, and connected with the cookie; the heartbeat has started.\<close>

definition run_signed :: auth_run where
  "run_signed = run0\<lparr>ar_auth := (ar_auth run0)\<lparr>au_sessions := [''id-1'' \<mapsto> entry0 0]\<rparr>,
                     ar_bound := [''id-1'' \<mapsto> (''old'', entry0 0)]\<rparr>"

definition demo_socket :: "nat option \<Rightarrow> socket" where
  "demo_socket v = \<lparr>sk_subject = QueryToken, sk_version = v, sk_announced = False, sk_open = True\<rparr>"

lemma run0_start: "auth_start run0"
  by (simp add: auth_start_def run0_def)

lemma signed_reached: "auth_step\<^sup>*\<^sup>* run0 run_signed"
proof -
  let ?a = "run0\<lparr>ar_logins := [\<lparr>lg_token = ''old'', lg_entry = None\<rparr>]\<rparr>"
  let ?b = "run0\<lparr>ar_logins := [\<lparr>lg_token = ''old'', lg_entry = Some (entry0 0)\<rparr>],
                ar_bound := [''id-1'' \<mapsto> (''old'', entry0 0)]\<rparr>"
  have "auth_step run0 ?a"
    using auth_step.verify [of run0 "''old''"] by (simp add: run0_def login_accepted_def)
  moreover have "auth_step ?a ?b"
    using auth_step.stamp [of ?a "[]" "''old''" "[]" "''id-1''" "entry0 0"]
    by (simp add: run0_def entry0_def auth_op_defs)
  moreover have "auth_step ?b run_signed"
    using auth_step.store [of ?b "[]" "''old''" "entry0 0" "[]"]
    by (simp add: run0_def run_signed_def entry0_def auth_op_defs)
  ultimately show ?thesis by (meson rtranclp.rtrancl_into_rtrancl rtranclp.rtrancl_refl)
qed

text \<open>A rotation to the token \<open>new\<close>, announced.\<close>

lemma rotation_steps:
  assumes "ar_written s = 0" and "ar_bumped s = 0"
  shows "auth_step\<^sup>*\<^sup>* s (s\<lparr>ar_auth := regenerate_web_server_token tok (ar_auth s),
                           ar_written := 0, ar_bumped := 0, ar_sockets := map announce (ar_sockets s)\<rparr>)"
proof -
  let ?a = "s\<lparr>ar_auth := write_token tok (ar_auth s), ar_written := 1\<rparr>"
  let ?b = "s\<lparr>ar_auth := regenerate_web_server_token tok (ar_auth s), ar_written := 0, ar_bumped := 1\<rparr>"
  let ?c = "s\<lparr>ar_auth := regenerate_web_server_token tok (ar_auth s),
              ar_written := 0, ar_bumped := 0, ar_sockets := map announce (ar_sockets s)\<rparr>"
  have "auth_step s ?a" using auth_step.rotate [of s tok] assms by simp
  moreover have "auth_step ?a ?b"
    using auth_step.bump [of ?a 0] assms by (simp add: regenerate_web_server_token_def)
  moreover have "auth_step ?b ?c" using auth_step.broadcast [of ?b 0] assms by simp
  ultimately show ?thesis by (meson rtranclp.rtrancl_into_rtrancl rtranclp.rtrancl_refl)
qed

definition run_rotated :: auth_run where
  "run_rotated = run_signed\<lparr>ar_auth := regenerate_web_server_token ''new'' (ar_auth run_signed)\<rparr>"

lemma rotated_reached: "auth_step\<^sup>*\<^sup>* run_signed run_rotated"
  using rotation_steps [of run_signed "''new''"]
  by (simp add: run_rotated_def run_signed_def run0_def)

theorem rotation_ends_sessions_witness:
  "authenticate_ws (ar_auth run_rotated) 2000 [(''cookie'', ''session=id-1'')] None \<noteq>
     Some (Session ''id-1'')"
proof -
  have "au_sessions (ar_auth run_signed) ''id-1'' = Some (entry0 0)"
    "au_version (ar_auth run_signed) < au_version (ar_auth run_rotated)"
    by (simp_all add: run_signed_def run_rotated_def run0_def regenerate_web_server_token_def
        write_token_def bump_version_def)
  from rotation_ends_sessions [OF run0_start signed_reached this(1) rotated_reached this(2)]
  show ?thesis by blast
qed

theorem session_needs_token_witness:
  "\<exists>u tok e. auth_step\<^sup>*\<^sup>* run0 u \<and> auth_step\<^sup>*\<^sup>* u run_signed \<and> login_accepted (ar_auth u) tok \<and>
     ar_bound run_signed ''id-1'' = Some (tok, e)"
proof -
  have "session_valid (ar_auth run_signed) (ar_now run_signed) ''id-1''"
    by (simp add: session_valid_def entry_valid_def run_signed_def run0_def entry0_def)
  moreover have "cookie_header [(''cookie'', ''session=id-1'')] = Some ''session=id-1''"
    by (simp add: cookie_header_def header_text_def byte_def)
  moreover have "trim ''session=id-1'' = ''session=id-1''"
    by (rule trim_no_blank) (simp_all add: byte_def)
  ultimately have "authenticate_ws (ar_auth run_signed) (ar_now run_signed)
      [(''cookie'', ''session=id-1'')] None = Some (Session ''id-1'')"
    using strip_prefix_append [of "''session=''" "''id-1''"]
    by (simp add: authenticate_ws_def cookie_subject_def)
  from session_needs_token [OF run0_start signed_reached this] show ?thesis by auto
qed

text \<open>The connection opened before the rotation: its heartbeat had started.\<close>

lemma connected_reached:
  assumes "sk_version k = None" and "ar_sockets s = [k]"
  shows "auth_step s (s\<lparr>ar_sockets := [start_heartbeat (ar_auth s) k]\<rparr>)"
  using auth_step.beat_start [of 0 s] assms by (simp add: socket_at_def)

definition run_connected :: auth_run where
  "run_connected = run0\<lparr>ar_sockets := [demo_socket None]\<rparr>"

lemma connect_step: "auth_step run0 run_connected"
proof -
  have "ws_handler (ar_auth run0) (ar_now run0) [] (Some ''old'') = Some (demo_socket None)"
    by (simp add: ws_handler_def authenticate_ws_def cookie_header_def run0_def demo_socket_def)
  then show ?thesis
    using auth_step.connect [of run0 "[]" "Some ''old''"] by (simp add: run_connected_def run0_def)
qed


text \<open>
  A login that has compared the token but not yet read the version when the token is rotated gets
  a session of the new version: the old token has opened a session that outlives its rotation.
\<close>

theorem late_login_survives_rotation:
  "\<exists>t. auth_step\<^sup>*\<^sup>* run0 t \<and> au_token (ar_auth t) = ''new'' \<and> ar_written t = 0 \<and> ar_bumped t = 0 \<and>
       (\<exists>e. ar_bound t ''id-1'' = Some (''old'', e)) \<and>
       session_valid (ar_auth t) (ar_now t) ''id-1''"
proof -
  let ?a = "run0\<lparr>ar_logins := [\<lparr>lg_token = ''old'', lg_entry = None\<rparr>]\<rparr>"
  let ?b = "?a\<lparr>ar_auth := regenerate_web_server_token ''new'' (ar_auth run0)\<rparr>"
  let ?c = "?b\<lparr>ar_logins := [\<lparr>lg_token = ''old'', lg_entry = Some (entry0 1)\<rparr>],
                ar_bound := [''id-1'' \<mapsto> (''old'', entry0 1)]\<rparr>"
  let ?t = "?c\<lparr>ar_auth := store_session (entry0 1) (ar_auth ?c), ar_logins := []\<rparr>"
  have "auth_step run0 ?a"
    using auth_step.verify [of run0 "''old''"] by (simp add: run0_def login_accepted_def)
  moreover have "auth_step\<^sup>*\<^sup>* ?a ?b"
    using rotation_steps [of ?a "''new''"] by (simp add: run0_def)
  moreover have "auth_step ?b ?c"
    using auth_step.stamp [of ?b "[]" "''old''" "[]" "''id-1''" "entry0 1"]
    by (simp add: run0_def entry0_def auth_op_defs regenerate_web_server_token_def)
  moreover have "auth_step ?c ?t"
    using auth_step.store [of ?c "[]" "''old''" "entry0 1" "[]"] by simp
  ultimately have "auth_step\<^sup>*\<^sup>* run0 ?t"
    by (meson converse_rtranclp_into_rtranclp rtranclp.rtrancl_into_rtrancl)
  moreover have "session_valid (ar_auth ?t) (ar_now ?t) ''id-1''"
    by (simp add: session_valid_def entry_valid_def run0_def entry0_def auth_op_defs
        regenerate_web_server_token_def)
  ultimately show ?thesis
    by (intro exI [of _ ?t])
       (simp add: run0_def auth_op_defs regenerate_web_server_token_def)
qed

text \<open>
  A connection that was authenticated with the old token and whose heartbeat starts only after the
  rotation takes the new version for its own: nothing closes it.
\<close>

theorem early_connection_survives_rotation:
  "\<exists>t. auth_step\<^sup>*\<^sup>* run0 t \<and> au_token (ar_auth t) = ''new'' \<and> ar_written t = 0 \<and> ar_bumped t = 0 \<and>
       ar_sockets t = [demo_socket (Some (au_version (ar_auth t)))] \<and>
       heartbeat_tick (ar_auth t) now (demo_socket (Some (au_version (ar_auth t)))) = Ping"
proof -
  let ?r = "run_connected\<lparr>ar_auth := regenerate_web_server_token ''new'' (ar_auth run0)\<rparr>"
  let ?t = "?r\<lparr>ar_sockets := [demo_socket (Some 1)]\<rparr>"
  have "auth_step\<^sup>*\<^sup>* run_connected ?r"
    using rotation_steps [of run_connected "''new''"]
    by (simp add: run_connected_def run0_def demo_socket_def announce_def)
  moreover have "auth_step ?r ?t"
    using connected_reached [of "demo_socket None" ?r]
    by (simp add: run_connected_def run0_def demo_socket_def start_heartbeat_def
        regenerate_web_server_token_def write_token_def bump_version_def)
  ultimately have "auth_step\<^sup>*\<^sup>* run0 ?t"
    using connect_step by (meson converse_rtranclp_into_rtranclp rtranclp.rtrancl_into_rtrancl)
  then show ?thesis
    by (intro exI [of _ ?t])
       (simp add: run_connected_def run0_def regenerate_web_server_token_def write_token_def
          bump_version_def heartbeat_tick_def demo_socket_def)
qed

end
