(* ===== verification/Web_Session.thy ===== *)
theory Web_Session
  imports Event_Pages
begin

text \<open>
  One WebSocket connection (\<open>web_server/ws.rs\<close>) and the broadcast channels
  (\<open>web_server/broadcaster.rs\<close>). The connection keeps, for every subscribed run, a checkpoint: the
  number of the last event sent. Two tasks share that state under a lock: the forwarder of
  broadcast events, which also catches up when it has lagged, and the command loop, which replays
  the log of a run when the client subscribes. While a run is replayed its broadcast events are
  buffered.

  A task is the list of the atomic actions it still has to do: a lock section, one page of the log,
  or one frame. The two lists interleave.
\<close>

section \<open>Frames and messages\<close>

datatype ws_frame =
    Bus_Frame string nat string json
  | Realtime_Frame string json
  | Full_Reload_Frame string
  | Result_Frame "string option" json
  | Error_Frame "string option" string

fun frame_json :: "ws_frame \<Rightarrow> json" where
  "frame_json (Bus_Frame event seq run payload) =
     JObj [(''event'', JStr event), (''seq'', jnat seq), (''run_id'', JStr run), (''payload'', payload)]"
| "frame_json (Realtime_Frame event payload) =
     JObj [(''event'', JStr event), (''payload'', payload)]"
| "frame_json (Full_Reload_Frame run) =
     JObj [(''event'', JStr ''_full_reload''), (''run_id'', JStr run)]"
| "frame_json (Result_Frame i v) = JObj [(''id'', jopt_str i), (''result'', v)]"
| "frame_json (Error_Frame i e) = JObj [(''id'', jopt_str i), (''error'', JStr e)]"

record broadcast_msg =
  bm_event_name :: string
  bm_payload :: json
  bm_seq :: "nat option"
  bm_run_id :: "string option"

text \<open>\<open>persist_and_emit_durable\<close>: what is broadcast once the event has the number \<open>seq\<close>.\<close>

definition durable_msg :: "string \<Rightarrow> nat \<Rightarrow> json \<Rightarrow> broadcast_msg" where
  "durable_msg run seq event =
     \<lparr>bm_event_name = ''bus-event'',
      bm_payload = (case event of JObj kvs \<Rightarrow> JObj (jinsert ''_seq'' (jnat seq) kvs) | v \<Rightarrow> v),
      bm_seq = Some seq, bm_run_id = Some run\<rparr>"

definition realtime_msg :: "string \<Rightarrow> json \<Rightarrow> string option \<Rightarrow> broadcast_msg" where
  "realtime_msg event_name payload run =
     \<lparr>bm_event_name = event_name, bm_payload = payload, bm_seq = None, bm_run_id = run\<rparr>"

section \<open>State of a connection\<close>

definition REPLAY_BUFFER_CAPACITY :: nat where
  "REPLAY_BUFFER_CAPACITY = 4096"

record buffered_event =
  be_envelope :: ws_frame
  be_seq :: nat

record ws_session =
  subscriptions :: "(string \<times> nat) list"
  replay_buffer :: "string \<Rightarrow> buffered_event list option"
  replaying :: "string set"
  full_reload_pending :: "string set"

definition new_ws_session :: ws_session where
  "new_ws_session =
     \<lparr>subscriptions = [], replay_buffer = Map.empty, replaying = {}, full_reload_pending = {}\<rparr>"

definition checkpoint :: "ws_session \<Rightarrow> string \<Rightarrow> nat option" where
  "checkpoint s run = map_of (subscriptions s) run"

definition buffer_of :: "ws_session \<Rightarrow> string \<Rightarrow> buffered_event list" where
  "buffer_of s run = unwrap_or (replay_buffer s run) []"

text \<open>\<open>begin_full_reload\<close>: whether the notice is new.\<close>

definition begin_full_reload :: "string \<Rightarrow> ws_session \<Rightarrow> bool \<times> ws_session" where
  "begin_full_reload run s =
     (run \<notin> full_reload_pending s,
      s\<lparr>replay_buffer := (replay_buffer s)(run := None), replaying := replaying s - {run},
        full_reload_pending := insert run (full_reload_pending s)\<rparr>)"

text \<open>The monotone update of a checkpoint.\<close>

definition complete_replay :: "string \<Rightarrow> nat \<Rightarrow> ws_session \<Rightarrow> ws_session" where
  "complete_replay run n s =
     (case checkpoint s run of
        None \<Rightarrow> s
      | Some cp \<Rightarrow> s\<lparr>subscriptions := hm_insert run (max cp n) (subscriptions s)\<rparr>)"

section \<open>Actions of the tasks\<close>

datatype act =
    Send_Frame ws_frame
  | Bump string nat
  | Read_Page string nat "nat option" nat
  | Flush string nat
  | Reload string

text \<open>Who replays: the catch-up of the forwarder or a subscribe command with its request id.\<close>

datatype origin = Catchup | Command "string option"

subsection \<open>The forwarder\<close>

definition live_frame :: "broadcast_msg \<Rightarrow> string \<Rightarrow> nat \<Rightarrow> ws_frame" where
  "live_frame msg run seq = Bus_Frame (bm_event_name msg) seq run (bm_payload msg)"

definition forward_a :: "broadcast_msg \<Rightarrow> ws_session \<Rightarrow> ws_session \<times> act list" where
  "forward_a msg s =
     (case bm_run_id msg of None \<Rightarrow> (s, []) | Some run \<Rightarrow>
      case bm_seq msg of None \<Rightarrow> (s, []) | Some seq \<Rightarrow>
      case checkpoint s run of None \<Rightarrow> (s, []) | Some cp \<Rightarrow>
        if run \<in> replaying s
        then (let buf = buffer_of s run in
              if length buf < REPLAY_BUFFER_CAPACITY
              then (s\<lparr>replay_buffer := (replay_buffer s)
                        (run \<mapsto> buf @ [\<lparr>be_envelope = live_frame msg run seq, be_seq = seq\<rparr>])\<rparr>, [])
              else (s\<lparr>replay_buffer := (replay_buffer s)(run \<mapsto> buf)\<rparr>, []))
        else if seq \<le> cp then (s, [])
        else (s, [Send_Frame (live_frame msg run seq), Bump run seq]))"

text \<open>The answer to a lag: which runs are replayed from which checkpoint.\<close>

fun lag_runs :: "(string \<times> nat) list \<Rightarrow> ws_session \<Rightarrow> ws_session \<times> (string \<times> nat) list" where
  "lag_runs [] s = (s, [])"
| "lag_runs ((run, cp) # subs) s =
     (if run \<notin> replaying s \<and> run \<notin> full_reload_pending s
      then (case lag_runs subs
                   (s\<lparr>replaying := insert run (replaying s),
                      replay_buffer := (replay_buffer s)(run \<mapsto> buffer_of s run)\<rparr>) of
              (s', runs) \<Rightarrow> (s', (run, cp) # runs))
      else lag_runs subs s)"

definition lag_catchup :: "ws_session \<Rightarrow> ws_session \<times> act list" where
  "lag_catchup s =
     (case lag_runs (subscriptions s) s of
        (s', runs) \<Rightarrow>
          (s', map (\<lambda>(run, cp). Read_Page run cp None cp) runs @ map (\<lambda>(run, _). Flush run 0) runs))"

definition forward_b :: "broadcast_msg \<Rightarrow> ws_session \<Rightarrow> act list" where
  "forward_b msg s =
     (if (case bm_run_id msg of None \<Rightarrow> True | Some run \<Rightarrow> checkpoint s run \<noteq> None)
      then [Send_Frame (Realtime_Frame (bm_event_name msg) (bm_payload msg))] else [])"

subsection \<open>The command loop\<close>

definition subscribe_begin :: "string \<Rightarrow> nat \<Rightarrow> ws_session \<Rightarrow> ws_session \<times> bool \<times> nat" where
  "subscribe_begin run last_seq s =
     (let already = (run \<in> replaying s);
          old_seq = unwrap_or (checkpoint s run) 0;
          effective_seq = max old_seq last_seq;
          s1 = s\<lparr>subscriptions := hm_insert run effective_seq (subscriptions s),
                 full_reload_pending := full_reload_pending s - {run}\<rparr>;
          s2 = (if already then s1
                else s1\<lparr>replaying := insert run (replaying s1),
                        replay_buffer := (replay_buffer s1)(run \<mapsto> buffer_of s1 run)\<rparr>)
      in (s2, already, effective_seq))"

definition on_subscribe :: "string option \<Rightarrow> string \<Rightarrow> nat \<Rightarrow> ws_session \<Rightarrow> ws_session \<times> act list" where
  "on_subscribe i run last_seq s =
     (if run = [] then (s, [Send_Frame (Error_Frame i ''run_id required'')])
      else case subscribe_begin run last_seq s of
             (s', already, effective_seq) \<Rightarrow>
               if already
               then (s', [Send_Frame (Result_Frame i (JObj [(''status'', JStr ''already_replaying'')]))])
               else (s', [Read_Page run effective_seq None effective_seq, Flush run 0,
                          Send_Frame (Result_Frame i (JObj [(''ok'', JBool True)]))]))"

definition on_unsubscribe :: "string option \<Rightarrow> string \<Rightarrow> ws_session \<Rightarrow> ws_session \<times> act list" where
  "on_unsubscribe i run s =
     (s\<lparr>subscriptions := hm_remove run (subscriptions s),
        replay_buffer := (replay_buffer s)(run := None), replaying := replaying s - {run},
        full_reload_pending := full_reload_pending s - {run}\<rparr>,
      [Send_Frame (Result_Frame i (JObj [(''ok'', JBool True)]))])"

text \<open>
  A text message: \<open>parsed\<close> is its JSON or the parser's error, \<open>dispatch\<close> the answer of the command
  handlers.
\<close>

definition on_text ::
  "string + json \<Rightarrow> (string \<Rightarrow> json \<Rightarrow> string + json) \<Rightarrow> ws_session \<Rightarrow> ws_session \<times> act list" where
  "on_text parsed dispatch s =
     (case parsed of
        Inl e \<Rightarrow> (s, [Send_Frame (Error_Frame None (''invalid JSON: '' @ e))])
      | Inr v \<Rightarrow>
          (let i = get_str v ''id'';
               method = unwrap_or (get_str v ''method'') [];
               params = unwrap_or (jget v ''params'') (JObj [])
           in if method = ''_subscribe''
              then on_subscribe i (unwrap_or (get_str params ''run_id'') [])
                     (unwrap_or (get_u64 params ''last_seq'') 0) s
              else if method = ''_unsubscribe''
              then on_unsubscribe i (unwrap_or (get_str params ''run_id'') []) s
              else case dispatch method params of
                     Inr value \<Rightarrow> (s, [Send_Frame (Result_Frame i value)])
                   | Inl err \<Rightarrow> (s, [Send_Frame (Error_Frame i err)])))"

subsection \<open>Replay, flush and reload\<close>

fun flush_run :: "act \<Rightarrow> string option" where
  "flush_run (Flush run m) = Some run"
| "flush_run _ = None"

text \<open>A failed replay: the catch-up goes on with its other runs, a command is answered.\<close>

definition replay_failed :: "origin \<Rightarrow> string \<Rightarrow> string \<Rightarrow> act list \<Rightarrow> act list" where
  "replay_failed who run e rest =
     (case who of
        Catchup \<Rightarrow> Reload run # filter (\<lambda>a. flush_run a \<noteq> Some run) rest
      | Command i \<Rightarrow> [Reload run, Send_Frame (Error_Frame i e)])"

definition flush_overflowed :: "origin \<Rightarrow> string \<Rightarrow> act list \<Rightarrow> act list" where
  "flush_overflowed who run rest =
     (case who of
        Catchup \<Rightarrow> Reload run # rest
      | Command i \<Rightarrow> [Reload run, Send_Frame (Error_Frame i ''replay buffer overflow; full reload required'')])"

definition replay_frame :: "string \<Rightarrow> json \<Rightarrow> ws_frame" where
  "replay_frame run event = Bus_Frame ''bus-event'' (unwrap_or (get_u64 event ''_seq'') 0) run event"

definition event_seq :: "json \<Rightarrow> nat" where
  "event_seq event = unwrap_or (get_u64 event ''_seq'') 0"

text \<open>One round of \<open>replay_events\<close>: the page, its frames, then the next page or the checkpoint.\<close>

definition replay_page ::
  "origin \<Rightarrow> string \<Rightarrow> nat \<Rightarrow> nat \<Rightarrow> string + bus_event_page \<Rightarrow> act list \<Rightarrow> act list" where
  "replay_page who run page_seq last_replayed page rest =
     (case page of
        Inl e \<Rightarrow> replay_failed who run e rest
      | Inr p \<Rightarrow>
          (let sends = map (\<lambda>ev. Send_Frame (replay_frame run ev)) (bp_events p);
               last' = fold (\<lambda>ev n. max n (event_seq ev)) (bp_events p) last_replayed
           in if \<not> bp_has_more p then sends @ [Bump run last'] @ rest
              else if bp_last_seq p \<le> page_seq
              then sends @ replay_failed who run ''catch-up page cursor did not advance'' rest
              else sends @ [Read_Page run (bp_last_seq p) (Some (bp_next_offset p)) last'] @ rest))"

text \<open>One round of \<open>flush_replay_buffer\<close>.\<close>

definition flush_round ::
  "origin \<Rightarrow> string \<Rightarrow> nat \<Rightarrow> act list \<Rightarrow> ws_session \<Rightarrow> ws_session \<times> act list" where
  "flush_round who run max_seq rest s =
     (let buffer = buffer_of s run;
          s1 = s\<lparr>replay_buffer := (replay_buffer s)(run := None)\<rparr>
      in if buffer = []
         then (let s2 = s1\<lparr>replaying := replaying s1 - {run}\<rparr>
               in (if 0 < max_seq then complete_replay run max_seq s2 else s2, rest))
         else if REPLAY_BUFFER_CAPACITY \<le> length buffer
         then (s1\<lparr>replaying := replaying s1 - {run}\<rparr>, flush_overflowed who run rest)
         else (let eff = max (unwrap_or (checkpoint s1 run) 0) max_seq;
                   fresh = filter (\<lambda>e. eff < be_seq e) buffer;
                   max' = fold (\<lambda>e n. max n (be_seq e)) fresh max_seq
               in (s1, map (\<lambda>e. Send_Frame (be_envelope e)) fresh @ [Bump run max', Flush run max'] @ rest)))"

text \<open>\<open>send_full_reload\<close>: one notice until the client subscribes again.\<close>

definition send_full_reload :: "string \<Rightarrow> act list \<Rightarrow> ws_session \<Rightarrow> ws_session \<times> act list" where
  "send_full_reload run rest s =
     (case begin_full_reload run s of
        (fresh, s') \<Rightarrow> (s', (if fresh then [Send_Frame (Full_Reload_Frame run)] else []) @ rest))"

section \<open>One action of a task\<close>

text \<open>The session, the frames on the wire and the actions left after the first of a list.\<close>

fun run_act ::
  "origin \<Rightarrow> string + bus_event_page \<Rightarrow> act \<Rightarrow> act list \<Rightarrow> ws_session \<times> ws_frame list \<Rightarrow>
   (ws_session \<times> ws_frame list) \<times> act list" where
  "run_act who page (Send_Frame f) rest (s, wire) = ((s, wire @ [f]), rest)"
| "run_act who page (Bump run n) rest (s, wire) = ((complete_replay run n s, wire), rest)"
| "run_act who page (Read_Page run page_seq offset last_replayed) rest (s, wire) =
     ((s, wire), replay_page who run page_seq last_replayed page rest)"
| "run_act who page (Flush run m) rest (s, wire) =
     (case flush_round who run m rest s of (s', acts) \<Rightarrow> ((s', wire), acts))"
| "run_act who page (Reload run) rest (s, wire) =
     (case send_full_reload run rest s of (s', acts) \<Rightarrow> ((s', wire), acts))"

end
