(* ===== verification/Web_Delivery.thy ===== *)
theory Web_Delivery
  imports Web_Session
begin

text \<open>
  A connection together with the log it reads and the channel it listens to, as a step relation:
  events are persisted and then broadcast, the forwarder and the command loop interleave action by
  action, the channel may overrun. The invariant says where every replayable event of a subscribed
  run is: known to the client, sent, about to be sent, owed through a full reload, or still on its
  way through the channel above the checkpoint.
\<close>

section \<open>Steps\<close>

text \<open>
  The last four fields record what the client and the connection owe each other: the number the
  client said it has (\<open>ww_known\<close>), the place on the wire where the subscription began
  (\<open>ww_base\<close>), the last number persisted when a full reload was decided that the client has not yet
  answered by a subscription from there on (\<open>ww_owed\<close>), and the runs of which an overrun dropped a
  broadcast while they were being replayed or reloaded (\<open>ww_lost\<close>).
\<close>

record ws_world =
  ww_session :: ws_session
  ww_wire :: "ws_frame list"
  ww_a :: "act list"
  ww_c :: "act list"
  ww_origin :: "string option"
  ww_queue :: "broadcast_msg list"
  ww_lagged :: bool
  ww_log :: "string \<Rightarrow> (nat \<times> json) list"
  ww_outbox :: "string \<Rightarrow> (nat \<times> json) list"
  ww_known :: "string \<Rightarrow> nat"
  ww_base :: "string \<Rightarrow> nat"
  ww_owed :: "string \<Rightarrow> nat option"
  ww_lost :: "string set"

definition log_seqs :: "ws_world \<Rightarrow> string \<Rightarrow> nat set" where
  "log_seqs w r = fst ` set (ww_log w r)"

definition log_top :: "ws_world \<Rightarrow> string \<Rightarrow> nat" where
  "log_top w r = (if ww_log w r = [] then 0 else fst (last (ww_log w r)))"

text \<open>The numbers a replay has to send: the replayable events above a number.\<close>

definition replay_seqs :: "ws_world \<Rightarrow> string \<Rightarrow> nat \<Rightarrow> nat list" where
  "replay_seqs w r after = map fst (filter (\<lambda>(q, ev). is_replayable ev \<and> after < q) (ww_log w r))"

text \<open>What a read of a page at this moment may answer.\<close>

definition page_ok :: "ws_world \<Rightarrow> string \<Rightarrow> nat \<Rightarrow> string + bus_event_page \<Rightarrow> bool" where
  "page_ok w r page_seq page =
     (case page of
        Inl e \<Rightarrow> True
      | Inr p \<Rightarrow>
          (\<exists>rest. replay_seqs w r page_seq = map event_seq (bp_events p) @ rest \<and>
                  (\<not> bp_has_more p \<longrightarrow> rest = [])) \<and>
          bp_last_seq p = (if bp_events p = [] then page_seq else event_seq (last (bp_events p))))"

definition act_page_ok :: "ws_world \<Rightarrow> act \<Rightarrow> string + bus_event_page \<Rightarrow> bool" where
  "act_page_ok w a page =
     (case a of Read_Page run page_seq _ _ \<Rightarrow> page_ok w run page_seq page | _ \<Rightarrow> True)"

text \<open>The channel: full, it drops the oldest message and the receiver is told at its next read.\<close>

definition msg_lost :: "ws_session \<Rightarrow> broadcast_msg \<Rightarrow> string set" where
  "msg_lost s m =
     (case bm_run_id m of
        None \<Rightarrow> {}
      | Some r \<Rightarrow> if r \<in> replaying s \<or> r \<in> full_reload_pending s then {r} else {})"

definition deliver :: "nat option \<Rightarrow> broadcast_msg \<Rightarrow> ws_world \<Rightarrow> ws_world" where
  "deliver cap m w =
     (case ww_queue w of
        [] \<Rightarrow> w\<lparr>ww_queue := [m]\<rparr>
      | d # q \<Rightarrow>
          if (case cap of None \<Rightarrow> False | Some n \<Rightarrow> n \<le> length (d # q))
          then w\<lparr>ww_queue := q @ [m], ww_lagged := True,
                 ww_lost := ww_lost w \<union> msg_lost (ww_session w) d\<rparr>
          else w\<lparr>ww_queue := d # q @ [m]\<rparr>)"

definition perform :: "origin \<Rightarrow> string + bus_event_page \<Rightarrow> act \<Rightarrow> act list \<Rightarrow> ws_world \<Rightarrow> ws_world \<times> act list" where
  "perform who page a rest w =
     (case run_act who page a rest (ww_session w, ww_wire w) of
        ((s, wire), acts) \<Rightarrow>
          (w\<lparr>ww_session := s, ww_wire := wire,
             ww_owed := (case a of Reload r \<Rightarrow> (ww_owed w)(r \<mapsto> log_top w r) | _ \<Rightarrow> ww_owed w)\<rparr>, acts))"

definition note_subscribe :: "string \<Rightarrow> nat \<Rightarrow> ws_world \<Rightarrow> ws_world" where
  "note_subscribe r n w =
     (case checkpoint (ww_session w) r of
        None \<Rightarrow> w\<lparr>ww_known := (ww_known w)(r := n), ww_base := (ww_base w)(r := length (ww_wire w)),
                  ww_owed := (ww_owed w)(r := None)\<rparr>
      | Some _ \<Rightarrow> w\<lparr>ww_known := (ww_known w)(r := max (ww_known w r) n),
                    ww_owed := (ww_owed w)(r := opt_filter (\<lambda>m. n < m) (ww_owed w r))\<rparr>)"

text \<open>
  \<open>cap\<close> is the capacity of the channel, \<open>None\<close> for one that never overruns. A client subscribes from
  a number it has been told, so not beyond the log.
\<close>

inductive ws_step :: "nat option \<Rightarrow> ws_world \<Rightarrow> ws_world \<Rightarrow> bool" for cap where
  persist: "log_top w r < n \<Longrightarrow>
    ws_step cap w (w\<lparr>ww_log := (ww_log w)(r := ww_log w r @ [(n, ev)]),
                     ww_outbox := (ww_outbox w)(r := ww_outbox w r @ [(n, ev)])\<rparr>)"
| broadcast: "ww_outbox w r = (n, ev) # rest \<Longrightarrow>
    ws_step cap w (deliver cap (durable_msg r n ev) (w\<lparr>ww_outbox := (ww_outbox w)(r := rest)\<rparr>))"
| forward: "ww_a w = [] \<Longrightarrow> \<not> ww_lagged w \<Longrightarrow> ww_queue w = m # rest \<Longrightarrow>
    forward_a m (ww_session w) = (s, acts) \<Longrightarrow>
    ws_step cap w (w\<lparr>ww_queue := rest, ww_session := s, ww_a := acts\<rparr>)"
| lagged: "ww_a w = [] \<Longrightarrow> ww_lagged w \<Longrightarrow> lag_catchup (ww_session w) = (s, acts) \<Longrightarrow>
    ws_step cap w (w\<lparr>ww_lagged := False, ww_session := s, ww_a := acts\<rparr>)"
| act_a: "ww_a w = a # rest \<Longrightarrow> act_page_ok w a page \<Longrightarrow>
    perform Catchup page a rest w = (w', acts) \<Longrightarrow> ws_step cap w (w'\<lparr>ww_a := acts\<rparr>)"
| act_c: "ww_c w = a # rest \<Longrightarrow> act_page_ok w a page \<Longrightarrow>
    perform (Command (ww_origin w)) page a rest w = (w', acts) \<Longrightarrow> ws_step cap w (w'\<lparr>ww_c := acts\<rparr>)"
| subscribe: "ww_c w = [] \<Longrightarrow> n \<le> log_top w r \<Longrightarrow> on_subscribe i r n (ww_session w) = (s, acts) \<Longrightarrow> r \<noteq> [] \<Longrightarrow>
    ws_step cap w ((note_subscribe r n w)\<lparr>ww_session := s, ww_c := acts, ww_origin := i\<rparr>)"
| unsubscribe: "ww_c w = [] \<Longrightarrow> on_unsubscribe i r (ww_session w) = (s, acts) \<Longrightarrow>
    ws_step cap w (w\<lparr>ww_session := s, ww_c := acts, ww_owed := (ww_owed w)(r := None)\<rparr>)"
| command: "ww_c w = [] \<Longrightarrow> acts = [Send_Frame (Result_Frame i v)] \<or> acts = [Send_Frame (Error_Frame i e)] \<Longrightarrow>
    ws_step cap w (w\<lparr>ww_c := acts\<rparr>)"
| realtime: "forward_b m (ww_session w) = [Send_Frame f] \<Longrightarrow> ws_step cap w (w\<lparr>ww_wire := ww_wire w @ [f]\<rparr>)"

definition ws_start :: "ws_world \<Rightarrow> bool" where
  "ws_start w =
     (ww_session w = new_ws_session \<and> ww_wire w = [] \<and> ww_a w = [] \<and> ww_c w = [] \<and> ww_queue w = [] \<and>
      \<not> ww_lagged w \<and> ww_owed w = Map.empty \<and> ww_lost w = {} \<and> (\<forall>r. ww_outbox w r = []) \<and>
      (\<forall>r. sorted_wrt (<) (map fst (ww_log w r)) \<and> 0 \<notin> log_seqs w r))"

section \<open>Where an event is\<close>

fun frame_event :: "ws_frame \<Rightarrow> (string \<times> nat) option" where
  "frame_event (Bus_Frame event seq run payload) = Some (run, seq)"
| "frame_event _ = None"

definition sent :: "ws_world \<Rightarrow> string \<Rightarrow> nat \<Rightarrow> bool" where
  "sent w r q = (\<exists>f\<in>set (drop (ww_base w r) (ww_wire w)). frame_event f = Some (r, q))"

text \<open>
  \<open>X\<close> is the set of actions that are still to be done. An event is covered when the client has it,
  it was or will be sent, or a full reload will fetch it.
\<close>

definition cov :: "ws_world \<Rightarrow> act set \<Rightarrow> string \<Rightarrow> nat \<Rightarrow> bool" where
  "cov w X r q =
     (q \<le> ww_known w r \<or> sent w r q \<or>
      (\<exists>f. Send_Frame f \<in> X \<and> frame_event f = Some (r, q)) \<or>
      (\<exists>ps off l. Read_Page r ps off l \<in> X \<and> ps < q) \<or>
      Reload r \<in> X \<or> (\<exists>n. ww_owed w r = Some n \<and> q \<le> n) \<or>
      (r \<in> replaying (ww_session w) \<and> REPLAY_BUFFER_CAPACITY \<le> length (buffer_of (ww_session w) r)))"

definition queue_seqs :: "string \<Rightarrow> broadcast_msg list \<Rightarrow> nat list" where
  "queue_seqs r q = filter_map (\<lambda>m. if bm_run_id m = Some r then bm_seq m else None) q"

definition pipe :: "ws_world \<Rightarrow> string \<Rightarrow> nat list" where
  "pipe w r = map be_seq (buffer_of (ww_session w) r) @ queue_seqs r (ww_queue w) @
              map fst (ww_outbox w r)"

text \<open>Dropped by an overrun that the next read will report.\<close>

definition recoverable :: "ws_world \<Rightarrow> string \<Rightarrow> bool" where
  "recoverable w r =
     (ww_lagged w \<and> r \<notin> replaying (ww_session w) \<and> r \<notin> full_reload_pending (ww_session w))"

definition replayable :: "ws_world \<Rightarrow> string \<Rightarrow> nat set" where
  "replayable w r = set (replay_seqs w r 0)"

text \<open>The numbers an action of a run carries: nothing at or below them is outstanding.\<close>

definition mark :: "act set \<Rightarrow> string \<Rightarrow> nat \<Rightarrow> bool" where
  "mark X r n =
     (Bump r n \<in> X \<or> Flush r n \<in> X \<or>
      (\<exists>ps off l. Read_Page r ps off l \<in> X \<and> (n = ps \<or> n = l)))"

definition wlog_ok :: "ws_world \<Rightarrow> string \<Rightarrow> bool" where
  "wlog_ok w r = (sorted_wrt (<) (map fst (ww_log w r)) \<and> 0 \<notin> log_seqs w r)"

definition pipe_ok :: "ws_world \<Rightarrow> string \<Rightarrow> bool" where
  "pipe_ok w r = (sorted_wrt (<) (pipe w r) \<and> set (pipe w r) \<subseteq> log_seqs w r)"

definition wbuffer_ok :: "ws_session \<Rightarrow> string \<Rightarrow> bool" where
  "wbuffer_ok s r =
     ((r \<notin> replaying s \<longrightarrow> buffer_of s r = []) \<and>
      (r \<in> replaying s \<longrightarrow> checkpoint s r \<noteq> None \<and> r \<notin> full_reload_pending s) \<and>
      (\<forall>e\<in>set (buffer_of s r). frame_event (be_envelope e) = Some (r, be_seq e)))"

text \<open>A run in replay is going to be flushed or reloaded.\<close>

definition ends_ok :: "ws_session \<Rightarrow> act set \<Rightarrow> string \<Rightarrow> bool" where
  "ends_ok s X r = (r \<in> replaying s \<longrightarrow> (\<exists>m. Flush r m \<in> X) \<or> Reload r \<in> X)"

definition marks_ok :: "ws_world \<Rightarrow> act set \<Rightarrow> string \<Rightarrow> bool" where
  "marks_ok w X r = (\<forall>n. mark X r n \<longrightarrow> n \<le> log_top w r)"

definition subscription_ok :: "ws_world \<Rightarrow> string \<Rightarrow> bool" where
  "subscription_ok w r =
     (\<forall>cp. checkpoint (ww_session w) r = Some cp \<longrightarrow>
        cp \<le> log_top w r \<and> ww_known w r \<le> log_top w r \<and> ww_base w r \<le> length (ww_wire w))"

definition notice_ok :: "ws_world \<Rightarrow> act set \<Rightarrow> string \<Rightarrow> bool" where
  "notice_ok w X r =
     (r \<in> full_reload_pending (ww_session w) \<or> ww_owed w r \<noteq> None \<longrightarrow>
        Full_Reload_Frame r \<in> set (ww_wire w) \<or> Send_Frame (Full_Reload_Frame r) \<in> X)"

definition delivery_ok :: "ws_world \<Rightarrow> act set \<Rightarrow> string \<Rightarrow> bool" where
  "delivery_ok w X r =
     (\<forall>cp. checkpoint (ww_session w) r = Some cp \<longrightarrow> r \<notin> ww_lost w \<longrightarrow>
        (\<forall>q\<in>replayable w r.
           (cov w X r q \<or> cp < q \<and> (q \<in> set (pipe w r) \<or> recoverable w r)) \<and>
           (\<forall>n. mark X r n \<longrightarrow> q \<le> n \<longrightarrow> cov w X r q)))"

definition good :: "ws_world \<Rightarrow> act set \<Rightarrow> string \<Rightarrow> bool" where
  "good w X r =
     (wlog_ok w r \<and> pipe_ok w r \<and> wbuffer_ok (ww_session w) r \<and> ends_ok (ww_session w) X r \<and>
      marks_ok w X r \<and> subscription_ok w r \<and> notice_ok w X r \<and> delivery_ok w X r)"

text \<open>The run an action is about.\<close>

fun about :: "act \<Rightarrow> string option" where
  "about (Send_Frame (Bus_Frame event seq run payload)) = Some run"
| "about (Send_Frame (Full_Reload_Frame run)) = Some run"
| "about (Send_Frame _) = None"
| "about (Bump run n) = Some run"
| "about (Read_Page run ps off l) = Some run"
| "about (Flush run m) = Some run"
| "about (Reload run) = Some run"

text \<open>After a page or a flush of a command only that run's flush and the answer follow.\<close>

fun tame :: "act list \<Rightarrow> bool" where
  "tame [] = True"
| "tame (a # rest) =
     (tame rest \<and>
      (case a of
         Read_Page run _ _ _ \<Rightarrow> \<forall>b\<in>set rest. flush_run b = Some run \<or> (\<exists>i v. b = Send_Frame (Result_Frame i v))
       | Flush run _ \<Rightarrow> \<forall>b\<in>set rest. \<exists>i v. b = Send_Frame (Result_Frame i v)
       | _ \<Rightarrow> True))"

definition ws_inv :: "ws_world \<Rightarrow> bool" where
  "ws_inv w = (tame (ww_c w) \<and> (\<forall>r. good w (set (ww_a w) \<union> set (ww_c w)) r))"

section \<open>The session, run by run\<close>

lemma checkpoint_simps [simp]:
  "checkpoint (s\<lparr>replay_buffer := b\<rparr>) r = checkpoint s r"
  "checkpoint (s\<lparr>replaying := R\<rparr>) r = checkpoint s r"
  "checkpoint (s\<lparr>full_reload_pending := R\<rparr>) r = checkpoint s r"
  "checkpoint (s\<lparr>subscriptions := hm_insert k n m\<rparr>) r = (if r = k then Some n else map_of m r)"
  "checkpoint (s\<lparr>subscriptions := hm_remove k m\<rparr>) r = (if r = k then None else map_of m r)"
  by (simp_all add: checkpoint_def)

lemma buffer_of_simps [simp]:
  "buffer_of (s\<lparr>subscriptions := x\<rparr>) r = buffer_of s r"
  "buffer_of (s\<lparr>replaying := R\<rparr>) r = buffer_of s r"
  "buffer_of (s\<lparr>full_reload_pending := R\<rparr>) r = buffer_of s r"
  "buffer_of (s\<lparr>replay_buffer := m(k \<mapsto> b)\<rparr>) r = (if r = k then b else unwrap_or (m r) [])"
  "buffer_of (s\<lparr>replay_buffer := m(k := None)\<rparr>) r = (if r = k then [] else unwrap_or (m r) [])"
  by (simp_all add: buffer_of_def)

lemma complete_replay_view [simp]:
  "checkpoint (complete_replay k n s) r =
     (if r = k then map_option (\<lambda>cp. max cp n) (checkpoint s r) else checkpoint s r)"
  "buffer_of (complete_replay k n s) r = buffer_of s r"
  "replaying (complete_replay k n s) = replaying s"
  "full_reload_pending (complete_replay k n s) = full_reload_pending s"
  by (auto simp: complete_replay_def split: option.splits) (simp_all add: checkpoint_def)

lemma queue_seqs_simps [simp]:
  "queue_seqs r [] = []"
  "queue_seqs r (m # q) =
     (if bm_run_id m = Some r then (case bm_seq m of None \<Rightarrow> [] | Some n \<Rightarrow> [n]) else []) @ queue_seqs r q"
  "queue_seqs r (q @ q') = queue_seqs r q @ queue_seqs r q'"
  by (auto simp: queue_seqs_def filter_map_def List.map_filter_def split: option.splits)

lemma replayable_in_log: "q \<in> replayable w r \<Longrightarrow> q \<in> log_seqs w r"
  by (auto simp: replayable_def replay_seqs_def log_seqs_def)

lemma log_le_top: "sorted_wrt (<) (map fst (ww_log w r)) \<Longrightarrow> q \<in> log_seqs w r \<Longrightarrow> q \<le> log_top w r"
proof -
  assume srt: "sorted_wrt (<) (map fst (ww_log w r))" and q: "q \<in> log_seqs w r"
  then obtain xs x where xs: "ww_log w r = xs @ [x]"
    by (cases "ww_log w r" rule: rev_cases) (auto simp: log_seqs_def)
  with srt q show ?thesis by (auto simp: log_top_def log_seqs_def sorted_wrt_append)
qed

end
