(* ===== verification/Web_Delivery_Acts.thy ===== *)
theory Web_Delivery_Acts
  imports Web_Delivery
begin

text \<open>
  The actions of the two tasks keep the invariant of every run: frames, checkpoints, pages,
  flushes and full reloads.
\<close>

text \<open>The parts of the invariant, by name.\<close>

lemma goodD:
  assumes "good w X r"
  shows "wlog_ok w r" "pipe_ok w r" "wbuffer_ok (ww_session w) r" "ends_ok (ww_session w) X r"
    "marks_ok w X r" "subscription_ok w r" "notice_ok w X r" "delivery_ok w X r"
  using assms by (simp_all add: good_def)

lemma goodI:
  assumes "wlog_ok w r" "pipe_ok w r" "wbuffer_ok (ww_session w) r" "ends_ok (ww_session w) X r"
    "marks_ok w X r" "subscription_ok w r" "notice_ok w X r" "delivery_ok w X r"
  shows "good w X r"
  using assms by (simp add: good_def)

lemma deliveryD:
  assumes "good w X r" and "checkpoint (ww_session w) r = Some cp" and "r \<notin> ww_lost w"
    and "q \<in> replayable w r"
  shows "cov w X r q \<or> cp < q \<and> (q \<in> set (pipe w r) \<or> recoverable w r)"
    and "mark X r n \<Longrightarrow> q \<le> n \<Longrightarrow> cov w X r q"
  using assms by (auto simp: good_def delivery_ok_def)

lemma covered_below:
  assumes "good w X r" and "checkpoint (ww_session w) r = Some cp" and "r \<notin> ww_lost w"
    and "q \<in> replayable w r" and "q \<le> cp"
  shows "cov w X r q"
  using deliveryD(1) [OF assms(1-4)] assms(5) by auto

lemma deliveryI:
  assumes "\<And>cp q. checkpoint (ww_session w) r = Some cp \<Longrightarrow> r \<notin> ww_lost w \<Longrightarrow> q \<in> replayable w r \<Longrightarrow>
             cov w X r q \<or> cp < q \<and> (q \<in> set (pipe w r) \<or> recoverable w r)"
    and "\<And>cp q n. checkpoint (ww_session w) r = Some cp \<Longrightarrow> r \<notin> ww_lost w \<Longrightarrow> q \<in> replayable w r \<Longrightarrow>
             mark X r n \<Longrightarrow> q \<le> n \<Longrightarrow> cov w X r q"
  shows "delivery_ok w X r"
  using assms by (auto simp: delivery_ok_def)

section \<open>What an invariant of a run depends on\<close>

text \<open>Coverage passes from a state to the next when each of its reasons does.\<close>

lemma covI:
  "q \<le> ww_known w r \<Longrightarrow> cov w X r q"
  "sent w r q \<Longrightarrow> cov w X r q"
  "Send_Frame f \<in> X \<Longrightarrow> frame_event f = Some (r, q) \<Longrightarrow> cov w X r q"
  "Read_Page r ps off l \<in> X \<Longrightarrow> ps < q \<Longrightarrow> cov w X r q"
  "Reload r \<in> X \<Longrightarrow> cov w X r q"
  "ww_owed w r = Some n \<Longrightarrow> q \<le> n \<Longrightarrow> cov w X r q"
  "r \<in> replaying (ww_session w) \<Longrightarrow>
   REPLAY_BUFFER_CAPACITY \<le> length (buffer_of (ww_session w) r) \<Longrightarrow> cov w X r q"
  unfolding cov_def by blast+

lemma cov_trans:
  assumes "cov w X r q" and "ww_known w r \<le> ww_known w' r" and "sent w r q \<Longrightarrow> sent w' r q"
    and "\<And>f. Send_Frame f \<in> X \<Longrightarrow> frame_event f = Some (r, q) \<Longrightarrow> cov w' X' r q"
    and "\<And>ps off l. Read_Page r ps off l \<in> X \<Longrightarrow> ps < q \<Longrightarrow> cov w' X' r q"
    and "Reload r \<in> X \<Longrightarrow> cov w' X' r q"
    and "\<And>n. ww_owed w r = Some n \<Longrightarrow> q \<le> n \<Longrightarrow> cov w' X' r q"
    and "r \<in> replaying (ww_session w) \<Longrightarrow>
         REPLAY_BUFFER_CAPACITY \<le> length (buffer_of (ww_session w) r) \<Longrightarrow> cov w' X' r q"
  shows "cov w' X' r q"
  using assms(1) unfolding cov_def [of w] by (elim disjE exE conjE) (use assms in \<open>auto simp: cov_def\<close>)

lemma sent_append:
  "ww_wire w' = ww_wire w @ fs \<Longrightarrow> ww_base w' r = ww_base w r \<Longrightarrow> sent w r q \<Longrightarrow> sent w' r q"
  by (auto simp: sent_def)

lemma sent_new:
  "ww_wire w' = ww_wire w @ fs \<Longrightarrow> ww_base w' r \<le> length (ww_wire w) \<Longrightarrow> f \<in> set fs \<Longrightarrow>
   frame_event f = Some (r, q) \<Longrightarrow> sent w' r q"
  by (auto simp: sent_def)

lemma frame_event_about: "frame_event f = Some (r, q) \<Longrightarrow> about (Send_Frame f) = Some r"
  by (cases f) auto

lemma same_replayable: "ww_log w' r = ww_log w r \<Longrightarrow> replayable w' r = replayable w r"
  by (simp add: replayable_def replay_seqs_def)

lemma same_top: "ww_log w' r = ww_log w r \<Longrightarrow> log_top w' r = log_top w r"
  by (simp add: log_top_def)

lemma same_log: "ww_log w' r = ww_log w r \<Longrightarrow> log_seqs w' r = log_seqs w r"
  by (simp add: log_seqs_def)

text \<open>
  A step that touches neither the run's part of the session nor its actions, except that some of
  its frames are now on the wire.
\<close>

definition same_view :: "ws_world \<Rightarrow> ws_world \<Rightarrow> string \<Rightarrow> bool" where
  "same_view w w' r =
     (checkpoint (ww_session w') r = checkpoint (ww_session w) r \<and>
      buffer_of (ww_session w') r = buffer_of (ww_session w) r \<and>
      (r \<in> replaying (ww_session w') \<longleftrightarrow> r \<in> replaying (ww_session w)) \<and>
      (r \<in> full_reload_pending (ww_session w') \<longleftrightarrow> r \<in> full_reload_pending (ww_session w)) \<and>
      ww_log w' r = ww_log w r \<and> pipe w' r = pipe w r \<and> ww_known w' r = ww_known w r \<and>
      ww_owed w' r = ww_owed w r \<and> ww_base w' r = ww_base w r \<and>
      (checkpoint (ww_session w) r \<noteq> None \<longrightarrow> recoverable w r \<longrightarrow> recoverable w' r) \<and>
      (r \<in> ww_lost w \<longrightarrow> r \<in> ww_lost w'))"

lemma good_same_view:
  assumes g: "good w X r" and "same_view w w' r" and wire: "ww_wire w' = ww_wire w @ fs"
    and new: "\<And>a. about a = Some r \<Longrightarrow> a \<in> X' \<Longrightarrow> a \<in> X"
    and old: "\<And>a. about a = Some r \<Longrightarrow> a \<in> X \<Longrightarrow> a \<in> X' \<or> (\<exists>f\<in>set fs. a = Send_Frame f)"
  shows "good w' X' r"
proof -
  have view: "checkpoint (ww_session w') r = checkpoint (ww_session w) r"
    "buffer_of (ww_session w') r = buffer_of (ww_session w) r"
    "r \<in> replaying (ww_session w') \<longleftrightarrow> r \<in> replaying (ww_session w)"
    "r \<in> full_reload_pending (ww_session w') \<longleftrightarrow> r \<in> full_reload_pending (ww_session w)"
    "ww_log w' r = ww_log w r" "pipe w' r = pipe w r" "ww_known w' r = ww_known w r"
    "ww_owed w' r = ww_owed w r" "ww_base w' r = ww_base w r"
    and grow: "checkpoint (ww_session w) r \<noteq> None \<Longrightarrow> recoverable w r \<Longrightarrow> recoverable w' r" "r \<in> ww_lost w \<Longrightarrow> r \<in> ww_lost w'"
    using assms(2) by (auto simp: same_view_def)
  note same = view same_top [OF view(5)] same_log [OF view(5)] same_replayable [OF view(5)]
  have kept: "a \<in> X' \<longleftrightarrow> a \<in> X" if "about a = Some r" "\<And>f. a \<noteq> Send_Frame f" for a
    using new [OF that(1)] old [OF that(1)] that(2) by blast
  have acts: "Flush r m \<in> X' \<longleftrightarrow> Flush r m \<in> X" "Reload r \<in> X' \<longleftrightarrow> Reload r \<in> X"
      "Read_Page r ps off l \<in> X' \<longleftrightarrow> Read_Page r ps off l \<in> X" "Bump r m \<in> X' \<longleftrightarrow> Bump r m \<in> X"
    for m ps off l
    by (simp_all add: kept)
  have marks: "mark X' r n = mark X r n" for n
    by (simp add: mark_def acts)
  have base: "ww_base w r \<le> length (ww_wire w)" if "checkpoint (ww_session w) r = Some cp" for cp
    using goodD(6) [OF g] that by (simp add: subscription_ok_def)
  have cov: "cov w' X' r q" if sub: "checkpoint (ww_session w) r = Some cp" and "cov w X r q" for q cp
  proof (rule cov_trans [OF that(2)])
    show "cov w' X' r q" if f: "Send_Frame f \<in> X" "frame_event f = Some (r, q)" for f
    proof (cases "Send_Frame f \<in> X'")
      case False
      then have "f \<in> set fs" using old [OF frame_event_about [OF f(2)] f(1)] by auto
      then have "sent w' r q"
        using sent_new [OF wire] base [OF sub] f(2) view(9) by simp
      then show ?thesis by (simp add: cov_def)
    qed (use f in \<open>auto simp: cov_def\<close>)
    show "cov w' X' r q" if "Read_Page r ps off l \<in> X" "ps < q" for ps off l
      using that by (intro covI(4)) (simp_all add: acts)
    show "cov w' X' r q" if "ww_owed w r = Some n" "q \<le> n" for n
      using that by (intro covI(6)) (simp_all add: same)
  qed (use sent_append [OF wire view(9)] in \<open>auto intro: covI(5,7) simp: same acts\<close>)
  show ?thesis
  proof (rule goodI)
    show "wlog_ok w' r" "pipe_ok w' r" "wbuffer_ok (ww_session w') r" "ends_ok (ww_session w') X' r"
      "marks_ok w' X' r"
      using goodD(1-5) [OF g]
      by (simp_all add: wlog_ok_def pipe_ok_def wbuffer_ok_def ends_ok_def marks_ok_def same acts marks)
    show "subscription_ok w' r"
      using goodD(6) [OF g] wire by (auto simp: subscription_ok_def same)
    show "notice_ok w' X' r"
      using goodD(7) [OF g] wire old [of "Send_Frame (Full_Reload_Frame r)"]
      by (auto simp: notice_ok_def same)
    show "delivery_ok w' X' r"
    proof (rule deliveryI)
      fix cp q
      assume "checkpoint (ww_session w') r = Some cp" "r \<notin> ww_lost w'" "q \<in> replayable w' r"
      then have d: "checkpoint (ww_session w) r = Some cp" "r \<notin> ww_lost w" "q \<in> replayable w r"
        using grow(2) by (auto simp: same)
      show "cov w' X' r q \<or> cp < q \<and> (q \<in> set (pipe w' r) \<or> recoverable w' r)"
        using deliveryD(1) [OF g d] cov [OF d(1)] grow(1) d(1) by (auto simp: same)
      show "cov w' X' r q" if "mark X' r n" "q \<le> n" for n
        using deliveryD(2) [OF g d] cov [OF d(1)] that by (auto simp: marks)
    qed
  qed
qed

section \<open>Actions\<close>

lemma perform_send [simp]:
  "perform who page (Send_Frame f) rest w = (w\<lparr>ww_wire := ww_wire w @ [f]\<rparr>, rest)"
  by (cases w) (simp add: perform_def)

lemma perform_bump [simp]:
  "perform who page (Bump r n) rest w = (w\<lparr>ww_session := complete_replay r n (ww_session w)\<rparr>, rest)"
  by (cases w) (simp add: perform_def)

lemma perform_read [simp]:
  "perform who page (Read_Page r ps off l) rest w = (w, replay_page who r ps l page rest)"
  by (cases w) (simp add: perform_def)

lemma perform_flush:
  "flush_round who r m rest (ww_session w) = (s, acts) \<Longrightarrow>
   perform who page (Flush r m) rest w = (w\<lparr>ww_session := s\<rparr>, acts)"
  by (cases w) (simp add: perform_def)

lemma perform_reload:
  "send_full_reload r rest (ww_session w) = (s, acts) \<Longrightarrow>
   perform who page (Reload r) rest w =
     (w\<lparr>ww_session := s, ww_owed := (ww_owed w)(r \<mapsto> log_top w r)\<rparr>, acts)"
  by (cases w) (simp add: perform_def)

text \<open>A checkpoint is raised to the mark of an action that is being done.\<close>

lemma good_bump:
  assumes g: "good w X r" and "Bump k n \<in> X" and sub: "X' \<subseteq> X" "X \<subseteq> insert (Bump k n) X'"
  shows "good (w\<lparr>ww_session := complete_replay k n (ww_session w)\<rparr>) X' r"
proof (cases "k = r")
  case False
  show ?thesis
  proof (rule good_same_view [OF g, where fs = "[]"])
    show "same_view w (w\<lparr>ww_session := complete_replay k n (ww_session w)\<rparr>) r"
      using False by (auto simp: same_view_def pipe_def recoverable_def)
    show "a \<in> X' \<or> (\<exists>f\<in>set []. a = Send_Frame f)" if "about a = Some r" "a \<in> X" for a
      using that sub False by auto
  qed (use sub in auto)
next
  case True
  let ?w = "w\<lparr>ww_session := complete_replay r n (ww_session w)\<rparr>"
  have marks: "mark X' r m \<Longrightarrow> mark X r m" for m using sub(1) unfolding mark_def by blast
  have n: "mark X r n" using assms(2) True by (simp add: mark_def)
  have same: "log_top ?w r = log_top w r" "log_seqs ?w r = log_seqs w r" "replayable ?w r = replayable w r"
      "pipe ?w r = pipe w r" "recoverable ?w r = recoverable w r"
    by (simp_all add: log_top_def log_seqs_def replayable_def replay_seqs_def pipe_def recoverable_def)
  have acts: "Send_Frame f \<in> X' \<longleftrightarrow> Send_Frame f \<in> X" "Flush r m \<in> X' \<longleftrightarrow> Flush r m \<in> X"
      "Reload r \<in> X' \<longleftrightarrow> Reload r \<in> X" "Read_Page r ps off l \<in> X' \<longleftrightarrow> Read_Page r ps off l \<in> X"
    for f m ps off l using sub by auto
  have cov: "cov ?w X' r q = cov w X r q" for q by (simp add: cov_def sent_def acts)
  have "good ?w X' r"
  proof (rule goodI)
    show "wlog_ok ?w r" "pipe_ok ?w r" "wbuffer_ok (ww_session ?w) r" "ends_ok (ww_session ?w) X' r"
      using goodD(1-4) [OF g]
      by (simp_all add: wlog_ok_def pipe_ok_def wbuffer_ok_def ends_ok_def same acts)
    show "marks_ok ?w X' r"
      using goodD(5) [OF g] marks unfolding marks_ok_def same by blast
    show "subscription_ok ?w r" "notice_ok ?w X' r"
      using goodD(5-7) [OF g] n by (auto simp: subscription_ok_def marks_ok_def notice_ok_def same acts)
    show "delivery_ok ?w X' r"
    proof (rule deliveryI)
      fix cp' q
      assume cp': "checkpoint (ww_session ?w) r = Some cp'" and nl: "r \<notin> ww_lost ?w"
        and q: "q \<in> replayable ?w r"
      then obtain cp where cp: "checkpoint (ww_session w) r = Some cp" "cp' = max cp n" by auto
      have d: "cov w X r q \<or> cp < q \<and> (q \<in> set (pipe w r) \<or> recoverable w r)"
        and m: "mark X r m \<Longrightarrow> q \<le> m \<Longrightarrow> cov w X r q" for m
        using deliveryD [OF g cp(1), of q] nl q by (auto simp: same)
      show "cov ?w X' r q \<or> cp' < q \<and> (q \<in> set (pipe ?w r) \<or> recoverable ?w r)"
        using d m [OF n] cp(2) by (cases "q \<le> n") (auto simp: same cov not_le)
      show "cov ?w X' r q" if "mark X' r k" "q \<le> k" for k
        using m [OF marks] that by (simp add: cov)
    qed
  qed
  then show ?thesis using True by simp
qed

text \<open>Only the actions change: nothing covered is lost, and new marks have nothing outstanding.\<close>

lemma good_acts:
  assumes g: "good w X r"
    and cov: "\<And>q cp. checkpoint (ww_session w) r = Some cp \<Longrightarrow> q \<in> replayable w r \<Longrightarrow> cov w X r q \<Longrightarrow> cov w X' r q"
    and marks: "\<And>n. mark X' r n \<Longrightarrow> mark X r n \<or> n \<le> log_top w r \<and>
       (\<forall>cp q. checkpoint (ww_session w) r = Some cp \<longrightarrow> r \<notin> ww_lost w \<longrightarrow> q \<in> replayable w r \<longrightarrow>
          q \<le> n \<longrightarrow> cov w X' r q)"
    and ends: "ends_ok (ww_session w) X' r"
    and notice: "Send_Frame (Full_Reload_Frame r) \<in> X \<Longrightarrow> Send_Frame (Full_Reload_Frame r) \<in> X'"
  shows "good w X' r"
proof (rule goodI)
  show "wlog_ok w r" "pipe_ok w r" "wbuffer_ok (ww_session w) r" "subscription_ok w r"
    using goodD [OF g] by simp_all
  show "ends_ok (ww_session w) X' r" by (fact ends)
  show "marks_ok w X' r"
    using goodD(5) [OF g] marks unfolding marks_ok_def by blast
  show "notice_ok w X' r"
    using goodD(7) [OF g] notice unfolding notice_ok_def by blast
  show "delivery_ok w X' r"
  proof (rule deliveryI)
    fix cp q
    assume d: "checkpoint (ww_session w) r = Some cp" "r \<notin> ww_lost w" "q \<in> replayable w r"
    show "cov w X' r q \<or> cp < q \<and> (q \<in> set (pipe w r) \<or> recoverable w r)"
      using deliveryD(1) [OF g d] cov [OF d(1,3)] by blast
    show "cov w X' r q" if "mark X' r n" "q \<le> n" for n
      using marks [OF that(1)] deliveryD(2) [OF g d _ that(2)] cov [OF d(1,3)] d that(2) by blast
  qed
qed

text \<open>
  A page of a run is replaced by its frames and either the next page, the checkpoint or, when the
  read failed, the full reload.
\<close>

lemma replay_seqs_mem:
  "q \<in> set (replay_seqs w r n) \<longleftrightarrow> q \<in> replayable w r \<and> n < q"
  by (auto simp: replayable_def replay_seqs_def)

lemma replay_frame_event [simp]: "frame_event (replay_frame r ev) = Some (r, event_seq ev)"
  by (simp add: replay_frame_def event_seq_def)

lemma fold_max_ge: "(n::nat) \<le> fold (\<lambda>x m. max m (f x)) xs n"
proof (induction xs arbitrary: n)
  case (Cons x xs)
  then show ?case by (metis fold_simps(2) le_trans max.cobounded1)
qed simp

lemma fold_max_mem: "x \<in> set xs \<Longrightarrow> f x \<le> fold (\<lambda>x m. max m (f x)) xs (n::nat)"
proof (induction xs arbitrary: n)
  case (Cons y ys)
  have "max n (f y) \<le> fold (\<lambda>x m. max m (f x)) ys (max n (f y))" by (rule fold_max_ge)
  with Cons show ?case by (auto simp: max_def split: if_splits)
qed simp

lemma fold_max_cases:
  "fold (\<lambda>x m. max m (f x)) xs (n::nat) = n \<or> (\<exists>x\<in>set xs. fold (\<lambda>x m. max m (f x)) xs n = f x)"
proof (induction xs arbitrary: n)
  case (Cons y ys)
  from Cons.IH [of "max n (f y)"] show ?case by (auto simp: max_def split: if_splits)
qed simp

lemma sorted_last_ge:
  "sorted_wrt (<) xs \<Longrightarrow> x \<in> set xs \<Longrightarrow> x \<le> last (xs :: nat list)"
  by (induction xs) (auto split: if_splits dest: less_imp_le)

lemma sorted_split_le_last:
  assumes "sorted_wrt (<) (xs @ ys)" and "xs \<noteq> []" and "q \<in> set (xs @ ys)" and "q \<le> last (xs :: nat list)"
  shows "q \<in> set xs"
  using assms by (auto simp: sorted_wrt_append) (metis last_in_set not_le)

lemma replay_seqs_sorted:
  "sorted_wrt (<) (map fst (ww_log w r)) \<Longrightarrow> sorted_wrt (<) (replay_seqs w r n)"
  unfolding replay_seqs_def by (induction "ww_log w r" arbitrary: w) (auto simp: sorted_wrt_map sorted_wrt_filter)

lemma page_events:
  assumes "page_ok w r ps (Inr p)" and "q \<in> replayable w r" and "ps < q"
  obtains (here) ev where "ev \<in> set (bp_events p)" "event_seq ev = q"
  | (later) "bp_has_more p" "wlog_ok w r \<Longrightarrow> bp_last_seq p < q"
proof -
  obtain rest where rest: "replay_seqs w r ps = map event_seq (bp_events p) @ rest"
      "\<not> bp_has_more p \<Longrightarrow> rest = []"
      "bp_last_seq p = (if bp_events p = [] then ps else event_seq (last (bp_events p)))"
    using assms(1) by (auto simp: page_ok_def)
  have q: "q \<in> set (map event_seq (bp_events p) @ rest)"
    using assms(2,3) rest(1) by (metis replay_seqs_mem)
  show thesis
  proof (cases "q \<in> set (map event_seq (bp_events p))")
    case True
    then show thesis using here by auto
  next
    case False
    with q have in_rest: "q \<in> set rest" by simp
    have "bp_last_seq p < q" if "wlog_ok w r"
    proof (cases "bp_events p = []")
      case False
      have "sorted_wrt (<) (map event_seq (bp_events p) @ rest)"
        using replay_seqs_sorted [of w r ps] that rest(1) by (simp add: wlog_ok_def)
      then show ?thesis using False in_rest rest(3) by (auto simp: sorted_wrt_append)
    qed (use rest(3) assms(3) in simp)
    with in_rest rest(2) later show thesis by (cases "bp_has_more p") auto
  qed
qed

lemma page_event_replayable:
  assumes "page_ok w r ps (Inr p)" and "ev \<in> set (bp_events p)"
  shows "event_seq ev \<in> replayable w r" and "ps < event_seq ev"
proof -
  have "event_seq ev \<in> set (replay_seqs w r ps)"
    using assms by (auto simp: page_ok_def)
  then show "event_seq ev \<in> replayable w r" "ps < event_seq ev" by (simp_all add: replay_seqs_mem)
qed

lemma page_last_seq:
  assumes "page_ok w r ps (Inr p)"
  shows "bp_last_seq p = ps \<or> (\<exists>ev\<in>set (bp_events p). bp_last_seq p = event_seq ev)"
  using assms by (auto simp: page_ok_def)

lemma replayable_top: "wlog_ok w r \<Longrightarrow> q \<in> replayable w r \<Longrightarrow> q \<le> log_top w r"
  using replayable_in_log log_le_top unfolding wlog_ok_def by blast

lemma same_view_refl [simp]: "same_view w w r"
  by (simp add: same_view_def)

lemma good_page:
  assumes g: "good w X r" and a: "Read_Page k ps off l \<in> X" and ok: "page_ok w k ps (Inr p)"
    and kept: "\<And>x. x \<in> X \<Longrightarrow> x = Read_Page k ps off l \<or> x \<in> X'"
    and sends: "\<And>ev. ev \<in> set (bp_events p) \<Longrightarrow> Send_Frame (replay_frame k ev) \<in> X'"
    and more: "bp_has_more p \<Longrightarrow> \<exists>off' l'. Read_Page k (bp_last_seq p) off' l' \<in> X'"
    and new: "\<And>x. x \<in> X' \<Longrightarrow> x \<in> X \<or> (\<exists>ev. x = Send_Frame (replay_frame k ev)) \<or> x = Bump k last' \<or>
                (\<exists>off'. x = Read_Page k (bp_last_seq p) off' last')"
    and last': "last' = l \<or> (\<exists>ev\<in>set (bp_events p). last' = event_seq ev)"
  shows "good w X' r"
proof (cases "k = r")
  case False
  have other: "about x \<noteq> Some r" if "x = Read_Page k ps off l \<or> (\<exists>ev. x = Send_Frame (replay_frame k ev)) \<or>
      x = Bump k last' \<or> (\<exists>off'. x = Read_Page k (bp_last_seq p) off' last')" for x
    using that False by (auto simp: replay_frame_def)
  show ?thesis
  proof (rule good_same_view [OF g, where fs = "[]"])
    show "a \<in> X" if "about a = Some r" "a \<in> X'" for a
      using new [OF that(2)] other [of a] that(1) by blast
    show "a \<in> X' \<or> (\<exists>f\<in>set []. a = Send_Frame f)" if "about a = Some r" "a \<in> X" for a
      using kept [OF that(2)] other [of a] that(1) by blast
  qed simp_all
next
  case True
  have above: "cov w X' r q" if "q \<in> replayable w r" "ps < q" for q
  proof -
    have "q \<in> replayable w k" using that True by simp
    with ok show ?thesis using that(2)
    proof (cases rule: page_events)
      case (here ev)
      then show ?thesis using sends [of ev] True by (intro covI(3)) auto
    next
      case later
      then show ?thesis using more goodD(1) [OF g] True by (auto intro: covI(4))
    qed
  qed
  have cov: "cov w X' r q" if "cov w X r q" "q \<in> replayable w r" for q
  proof (rule cov_trans [OF that(1)])
    show "cov w X' r q" if "Send_Frame f \<in> X" "frame_event f = Some (r, q)" for f
      using kept [OF that(1)] that(2) by (auto intro: covI(3))
    show "cov w X' r q" if "Read_Page r ps' off' l' \<in> X" "ps' < q" for ps' off' l'
    proof (cases "Read_Page r ps' off' l' = Read_Page k ps off l")
      case True
      then show ?thesis using above that(2) \<open>q \<in> replayable w r\<close> by simp
    next
      case False
      then show ?thesis using kept [OF that(1)] that(2) by (auto intro: covI(4))
    qed
    show "cov w X' r q" if "Reload r \<in> X"
      using kept [OF that] by (auto intro: covI(5))
  qed (auto intro: covI)
  have marked: "mark X r ps" "mark X r l" using a True by (auto simp: mark_def)
  have event_mark: "n \<le> log_top w r \<and> (\<forall>cp q. checkpoint (ww_session w) r = Some cp \<longrightarrow> r \<notin> ww_lost w \<longrightarrow>
      q \<in> replayable w r \<longrightarrow> q \<le> n \<longrightarrow> cov w X' r q)" if "ev \<in> set (bp_events p)" "n = event_seq ev" for n ev
  proof (intro conjI allI impI)
    show "n \<le> log_top w r"
      using page_event_replayable(1) [OF ok that(1)] that(2) replayable_top goodD(1) [OF g] True by simp
    show "cov w X' r q" if "checkpoint (ww_session w) r = Some cp" "r \<notin> ww_lost w" "q \<in> replayable w r" for cp q
      using deliveryD(2) [OF g that marked(1)] above [OF that(3)] cov that(3) by (cases "q \<le> ps") auto
  qed
  have old: "mark X r n \<or> n = bp_last_seq p \<or> n = last'" if "mark X' r n" for n
    using that new unfolding mark_def by blast
  show ?thesis
  proof (rule good_acts [OF g cov])
    show "mark X r n \<or> n \<le> log_top w r \<and> (\<forall>cp q. checkpoint (ww_session w) r = Some cp \<longrightarrow> r \<notin> ww_lost w \<longrightarrow>
        q \<in> replayable w r \<longrightarrow> q \<le> n \<longrightarrow> cov w X' r q)" if "mark X' r n" for n
      using old [OF that] page_last_seq [OF ok] last' marked event_mark by metis
    show "ends_ok (ww_session w) X' r"
      using goodD(4) [OF g] kept unfolding ends_ok_def by blast
    show "Send_Frame (Full_Reload_Frame r) \<in> X'" if "Send_Frame (Full_Reload_Frame r) \<in> X"
      using kept [OF that] by simp
  qed
qed

text \<open>A failed read or an overflow: the flushes of the run may go, the full reload comes.\<close>

lemma good_to_reload:
  assumes g: "good w X r" and "Reload k \<in> X'"
    and kept: "\<And>x. x \<in> X \<Longrightarrow> x \<in> X' \<or> flush_run x = Some k \<or> about x = None \<or> (\<exists>ps off l. x = Read_Page k ps off l)"
    and new: "\<And>x. x \<in> X' \<Longrightarrow> x \<in> X \<or> x = Reload k \<or> (\<exists>ev. x = Send_Frame (replay_frame k ev)) \<or> about x = None"
  shows "good w X' r"
proof (cases "k = r")
  case False
  have other: "about x \<noteq> Some r" if "flush_run x = Some k \<or> (\<exists>ps off l. x = Read_Page k ps off l) \<or> x = Reload k \<or>
      (\<exists>ev. x = Send_Frame (replay_frame k ev)) \<or> about x = None" for x
    using that False by (cases x) (auto simp: replay_frame_def)
  show ?thesis
  proof (rule good_same_view [OF g, where fs = "[]"])
    show "a \<in> X" if "about a = Some r" "a \<in> X'" for a
      using new [OF that(2)] other [of a] that(1) by blast
    show "a \<in> X' \<or> (\<exists>f\<in>set []. a = Send_Frame f)" if "about a = Some r" "a \<in> X" for a
      using kept [OF that(2)] other [of a] that(1) by blast
  qed simp_all
next
  case True
  show ?thesis
  proof (rule good_acts [OF g])
    show "cov w X' r q" if "q \<in> replayable w r" for q
      using assms(2) True by (auto intro: covI(5))
    show "mark X r n \<or> n \<le> log_top w r \<and> (\<forall>cp q. checkpoint (ww_session w) r = Some cp \<longrightarrow> r \<notin> ww_lost w \<longrightarrow>
        q \<in> replayable w r \<longrightarrow> q \<le> n \<longrightarrow> cov w X' r q)" if "mark X' r n" for n
    proof -
      have "mark X r n" using that new unfolding mark_def by fastforce
      then show ?thesis by simp
    qed
    show "ends_ok (ww_session w) X' r"
      using assms(2) True by (simp add: ends_ok_def)
    show "Send_Frame (Full_Reload_Frame r) \<in> X'" if "Send_Frame (Full_Reload_Frame r) \<in> X"
      using kept [OF that] by auto
  qed
qed

text \<open>The full reload: everything persisted so far is owed.\<close>

lemma send_full_reload_eq:
  "send_full_reload k rest s =
     (s\<lparr>replay_buffer := (replay_buffer s)(k := None), replaying := replaying s - {k},
        full_reload_pending := insert k (full_reload_pending s)\<rparr>,
      (if k \<notin> full_reload_pending s then [Send_Frame (Full_Reload_Frame k)] else []) @ rest)"
  by (simp add: send_full_reload_def begin_full_reload_def)

lemma good_reload:
  assumes g: "good w X r" and run: "send_full_reload k rest (ww_session w) = (s, acts)"
    and kept: "\<And>x. x \<in> X \<Longrightarrow> x = Reload k \<or> x \<in> X'"
    and new: "\<And>x. x \<in> X' \<Longrightarrow> x \<in> X \<or> x \<in> set acts" and acts: "set acts \<subseteq> X'" "set rest \<subseteq> X"
  shows "good (w\<lparr>ww_session := s, ww_owed := (ww_owed w)(k \<mapsto> log_top w k)\<rparr>) X' r"
proof (cases "k = r")
  case False
  let ?w = "w\<lparr>ww_session := s, ww_owed := (ww_owed w)(k \<mapsto> log_top w k)\<rparr>"
  have s: "s = (ww_session w)\<lparr>replay_buffer := (replay_buffer (ww_session w))(k := None),
      replaying := replaying (ww_session w) - {k},
      full_reload_pending := insert k (full_reload_pending (ww_session w))\<rparr>"
    using run by (simp add: send_full_reload_eq)
  show ?thesis
  proof (rule good_same_view [OF g, where fs = "[]"])
    show "same_view w ?w r"
      using False by (simp add: same_view_def s pipe_def buffer_of_def recoverable_def)
    show "a \<in> X" if "about a = Some r" "a \<in> X'" for a
      using new [OF that(2)] that(1) run acts(2) False by (auto simp: send_full_reload_eq split: if_splits)
    show "a \<in> X' \<or> (\<exists>f\<in>set []. a = Send_Frame f)" if "about a = Some r" "a \<in> X" for a
      using kept [OF that(2)] that(1) False by auto
  qed simp
next
  case True
  let ?w = "w\<lparr>ww_session := s, ww_owed := (ww_owed w)(r \<mapsto> log_top w r)\<rparr>"
  have s: "s = (ww_session w)\<lparr>replay_buffer := (replay_buffer (ww_session w))(r := None),
      replaying := replaying (ww_session w) - {r},
      full_reload_pending := insert r (full_reload_pending (ww_session w))\<rparr>"
    and sends: "r \<notin> full_reload_pending (ww_session w) \<Longrightarrow> Send_Frame (Full_Reload_Frame r) \<in> X'"
    using run acts(1) True by (auto simp: send_full_reload_eq split: if_splits)
  have same: "log_top ?w r = log_top w r" "log_seqs ?w r = log_seqs w r" "replayable ?w r = replayable w r"
    by (simp_all add: log_top_def log_seqs_def replayable_def replay_seqs_def)
  have pipe: "pipe w r = map be_seq (buffer_of (ww_session w) r) @ pipe ?w r"
    by (simp add: pipe_def s buffer_of_def)
  have marks: "mark X' r n \<Longrightarrow> mark X r n" for n
    using new acts(2) run by (fastforce simp: mark_def send_full_reload_eq split: if_splits)
  have cov: "cov ?w X' r q" if "q \<in> replayable w r" for q
    using replayable_top [OF goodD(1) [OF g] that] by (intro covI(6)) (auto simp: same)
  show ?thesis unfolding True
  proof (rule goodI)
    show "wlog_ok ?w r"
      using goodD(1) [OF g] by (simp add: wlog_ok_def same)
    show "subscription_ok ?w r"
      using goodD(6) [OF g] unfolding subscription_ok_def same by (simp add: s)
    show "pipe_ok ?w r"
      using goodD(2) [OF g] by (simp add: pipe_ok_def same pipe sorted_wrt_append)
    show "wbuffer_ok (ww_session ?w) r" "ends_ok (ww_session ?w) X' r"
      by (simp_all add: wbuffer_ok_def ends_ok_def s)
    show "marks_ok ?w X' r"
      using goodD(5) [OF g] marks unfolding marks_ok_def same by blast
    show "notice_ok ?w X' r"
      using goodD(7) [OF g] sends kept by (auto simp: notice_ok_def)
    show "delivery_ok ?w X' r"
      using cov by (auto intro!: deliveryI simp: same)
  qed
qed

section \<open>Flushes\<close>

lemma flush_round_empty:
  "buffer_of s k = [] \<Longrightarrow>
   flush_round who k m rest s =
     ((let s2 = s\<lparr>replay_buffer := (replay_buffer s)(k := None), replaying := replaying s - {k}\<rparr>
       in if 0 < m then complete_replay k m s2 else s2), rest)"
  by (simp add: flush_round_def Let_def)

lemma flush_round_overflow:
  "REPLAY_BUFFER_CAPACITY \<le> length (buffer_of s k) \<Longrightarrow>
   flush_round who k m rest s =
     (s\<lparr>replay_buffer := (replay_buffer s)(k := None), replaying := replaying s - {k}\<rparr>,
      flush_overflowed who k rest)"
  by (auto simp: flush_round_def Let_def REPLAY_BUFFER_CAPACITY_def)

lemma buffer_of_fold: "unwrap_or (replay_buffer s r) [] = buffer_of s r"
  by (simp add: buffer_of_def)

text \<open>What a session keeps for the other runs.\<close>

definition other_runs_same :: "string \<Rightarrow> ws_session \<Rightarrow> ws_session \<Rightarrow> bool" where
  "other_runs_same k s s' =
     (\<forall>r. r \<noteq> k \<longrightarrow>
        checkpoint s' r = checkpoint s r \<and> buffer_of s' r = buffer_of s r \<and>
        (r \<in> replaying s' \<longleftrightarrow> r \<in> replaying s) \<and>
        (r \<in> full_reload_pending s' \<longleftrightarrow> r \<in> full_reload_pending s))"

lemma good_other_run:
  assumes "good w X r" and "other_runs_same k (ww_session w) s" and "k \<noteq> r"
    and "\<And>a. about a = Some r \<Longrightarrow> a \<in> X' \<longleftrightarrow> a \<in> X"
  shows "good (w\<lparr>ww_session := s\<rparr>) X' r"
  by (rule good_same_view [OF assms(1), where fs = "[]"])
     (use assms(2-4) in \<open>simp_all add: same_view_def other_runs_same_def pipe_def recoverable_def\<close>)

lemma good_flush_empty:
  assumes g: "good w X r" and a: "Flush k m \<in> X" and empty: "buffer_of (ww_session w) k = []"
    and run: "flush_round who k m rest (ww_session w) = (s, acts)"
    and kept: "\<And>x. x \<in> X \<Longrightarrow> x = Flush k m \<or> x \<in> X'" and new: "X' \<subseteq> X"
  shows "good (w\<lparr>ww_session := s\<rparr>) X' r"
proof (cases "k = r")
  case False
  have "other_runs_same k (ww_session w) s"
    using run by (auto simp: flush_round_empty [OF empty] Let_def other_runs_same_def buffer_of_fold
                      split: if_splits)
  moreover have "a \<in> X' \<longleftrightarrow> a \<in> X" if "about a = Some r" for a
    using kept [of a] new that False by auto
  ultimately show ?thesis by (rule good_other_run [OF g _ False])
next
  case True
  let ?w = "w\<lparr>ww_session := s\<rparr>"
  have s: "checkpoint s r = map_option (\<lambda>cp. max cp m) (checkpoint (ww_session w) r)" "buffer_of s r = []"
      "r \<notin> replaying s" "full_reload_pending s = full_reload_pending (ww_session w)"
    using run True flush_round_empty [OF empty, of who m rest]
    by (auto simp: Let_def option.map_ident split: if_splits)
  have same: "log_top ?w r = log_top w r" "log_seqs ?w r = log_seqs w r" "replayable ?w r = replayable w r"
      "pipe ?w r = pipe w r"
    using empty True by (simp_all add: log_top_def log_seqs_def replayable_def replay_seqs_def pipe_def s)
  have rec: "recoverable w r \<Longrightarrow> recoverable ?w r" by (simp add: recoverable_def s)
  have marks: "mark X' r n \<Longrightarrow> mark X r n" for n using new unfolding mark_def by blast
  have m: "mark X r m" using a True by (simp add: mark_def)
  have cov: "cov w X r q \<Longrightarrow> cov ?w X' r q" for q
  proof (erule cov_trans)
    show "cov ?w X' r q" if "Send_Frame f \<in> X" "frame_event f = Some (r, q)" for f
      using kept [OF that(1)] that(2) by (auto intro: covI(3))
    show "cov ?w X' r q" if "Read_Page r ps off l \<in> X" "ps < q" for ps off l
      using kept [OF that(1)] that(2) by (auto intro: covI(4))
    show "cov ?w X' r q" if "Reload r \<in> X"
      using kept [OF that] by (auto intro: covI(5))
  qed (use empty True in \<open>auto simp: sent_def REPLAY_BUFFER_CAPACITY_def intro: covI(6)\<close>)
  show ?thesis
  proof (rule goodI)
    show "wlog_ok ?w r" "pipe_ok ?w r" "wbuffer_ok (ww_session ?w) r" "ends_ok (ww_session ?w) X' r"
      using goodD(1,2) [OF g]
      by (simp_all add: wlog_ok_def pipe_ok_def wbuffer_ok_def ends_ok_def same s)
    show "marks_ok ?w X' r"
      using goodD(5) [OF g] marks unfolding marks_ok_def same by blast
    show "subscription_ok ?w r"
      using goodD(5,6) [OF g] m by (auto simp: subscription_ok_def marks_ok_def same s)
    show "notice_ok ?w X' r"
      using goodD(7) [OF g] kept by (auto simp: notice_ok_def s)
    show "delivery_ok ?w X' r"
    proof (rule deliveryI)
      fix cp' q
      assume "checkpoint (ww_session ?w) r = Some cp'" and nl: "r \<notin> ww_lost ?w" and q: "q \<in> replayable ?w r"
      then obtain cp where cp: "checkpoint (ww_session w) r = Some cp" "cp' = max cp m" by (auto simp: s)
      have d: "cov w X r q \<or> cp < q \<and> (q \<in> set (pipe w r) \<or> recoverable w r)"
        and mk: "mark X r n \<Longrightarrow> q \<le> n \<Longrightarrow> cov w X r q" for n
        using deliveryD [OF g cp(1), of q] nl q by (auto simp: same)
      show "cov ?w X' r q \<or> cp' < q \<and> (q \<in> set (pipe ?w r) \<or> recoverable ?w r)"
        using d mk [OF m] cov rec cp(2) by (cases "q \<le> m") (auto simp: same not_le)
      show "cov ?w X' r q" if "mark X' r n" "q \<le> n" for n
        using mk [OF marks] that cov by blast
    qed
  qed
qed

lemma good_flush_overflow:
  assumes g: "good w X r" and full: "REPLAY_BUFFER_CAPACITY \<le> length (buffer_of (ww_session w) k)"
    and run: "flush_round who k m rest (ww_session w) = (s, acts)" and "Reload k \<in> X'"
    and kept: "\<And>x. x \<in> X \<Longrightarrow> x \<in> X' \<or> flush_run x = Some k \<or> about x = None"
    and new: "\<And>x. x \<in> X' \<Longrightarrow> x \<in> X \<or> x = Reload k \<or> about x = None"
  shows "good (w\<lparr>ww_session := s\<rparr>) X' r"
proof (cases "k = r")
  case False
  have "other_runs_same k (ww_session w) s"
    using run by (auto simp: flush_round_overflow [OF full] other_runs_same_def buffer_of_fold)
  moreover have "a \<in> X' \<longleftrightarrow> a \<in> X" if "about a = Some r" for a
    using kept [of a] new [of a] that False by (cases a) auto
  ultimately show ?thesis by (rule good_other_run [OF g _ False])
next
  case True
  let ?w = "w\<lparr>ww_session := s\<rparr>"
  have s: "checkpoint s r = checkpoint (ww_session w) r" "buffer_of s r = []" "r \<notin> replaying s"
      "full_reload_pending s = full_reload_pending (ww_session w)"
    using run True flush_round_overflow [OF full, of who m rest] by auto
  have same: "log_top ?w r = log_top w r" "log_seqs ?w r = log_seqs w r" "replayable ?w r = replayable w r"
    by (simp_all add: log_top_def log_seqs_def replayable_def replay_seqs_def)
  have pipe: "pipe w r = map be_seq (buffer_of (ww_session w) r) @ pipe ?w r"
    by (simp add: pipe_def s)
  have marks: "mark X r n" if "mark X' r n" for n
    using that new unfolding mark_def by fastforce
  have cov: "cov ?w X' r q" for q
    using assms(4) True by (auto intro: covI(5))
  show ?thesis
  proof (rule goodI)
    show "wlog_ok ?w r" "wbuffer_ok (ww_session ?w) r" "ends_ok (ww_session ?w) X' r"
      using goodD(1) [OF g] by (simp_all add: wlog_ok_def wbuffer_ok_def ends_ok_def same s)
    show "pipe_ok ?w r"
      using goodD(2) [OF g] by (simp add: pipe_ok_def same pipe sorted_wrt_append)
    show "marks_ok ?w X' r"
      using goodD(5) [OF g] marks unfolding marks_ok_def same by blast
    show "subscription_ok ?w r"
      using goodD(6) [OF g] by (auto simp: subscription_ok_def same s)
    show "notice_ok ?w X' r"
      using goodD(7) [OF g] kept [of "Send_Frame (Full_Reload_Frame r)"] by (auto simp: notice_ok_def s)
    show "delivery_ok ?w X' r"
      using cov by (auto intro!: deliveryI)
  qed
qed

text \<open>The batch of one round.\<close>

definition flush_fresh :: "ws_session \<Rightarrow> string \<Rightarrow> nat \<Rightarrow> buffered_event list" where
  "flush_fresh s k m =
     filter (\<lambda>e. max (unwrap_or (checkpoint s k) 0) m < be_seq e) (buffer_of s k)"

definition flush_max :: "ws_session \<Rightarrow> string \<Rightarrow> nat \<Rightarrow> nat" where
  "flush_max s k m = fold (\<lambda>e n. max n (be_seq e)) (flush_fresh s k m) m"

lemma flush_round_batch:
  "buffer_of s k \<noteq> [] \<Longrightarrow> length (buffer_of s k) < REPLAY_BUFFER_CAPACITY \<Longrightarrow>
   flush_round who k m rest s =
     (s\<lparr>replay_buffer := (replay_buffer s)(k := None)\<rparr>,
      map (\<lambda>e. Send_Frame (be_envelope e)) (flush_fresh s k m) @
      [Bump k (flush_max s k m), Flush k (flush_max s k m)] @ rest)"
  by (simp add: flush_round_def Let_def flush_fresh_def flush_max_def)

lemma flush_max_cases:
  "flush_max s k m = m \<or> (\<exists>e\<in>set (flush_fresh s k m). flush_max s k m = be_seq e)"
  unfolding flush_max_def using fold_max_cases by fast

lemma good_flush_batch:
  assumes g: "good w X r" and a: "Flush k m \<in> X" and nonempty: "buffer_of (ww_session w) k \<noteq> []"
    and small: "length (buffer_of (ww_session w) k) < REPLAY_BUFFER_CAPACITY"
    and run: "flush_round who k m rest (ww_session w) = (s, acts)"
    and gk: "good w X k"
    and kept: "\<And>x. x \<in> X \<Longrightarrow> x = Flush k m \<or> x \<in> X'"
    and new: "\<And>x. x \<in> X' \<Longrightarrow> x \<in> X \<or> x \<in> set acts" and acts: "set acts \<subseteq> X'" "set rest \<subseteq> X"
  shows "good (w\<lparr>ww_session := s\<rparr>) X' r"
proof -
  let ?s = "ww_session w" and ?w = "w\<lparr>ww_session := s\<rparr>" and ?M = "flush_max (ww_session w) k m"
  have s: "s = ?s\<lparr>replay_buffer := (replay_buffer ?s)(k := None)\<rparr>"
    and acts_eq: "acts = map (\<lambda>e. Send_Frame (be_envelope e)) (flush_fresh ?s k m) @
                  [Bump k ?M, Flush k ?M] @ rest"
    using run by (simp_all add: flush_round_batch [OF nonempty small])
  have env: "frame_event (be_envelope e) = Some (k, be_seq e)" if "e \<in> set (buffer_of ?s k)" for e
    using goodD(3) [OF gk] that by (simp add: wbuffer_ok_def)
  have fresh: "e \<in> set (buffer_of ?s k)" if "e \<in> set (flush_fresh ?s k m)" for e
    using that by (simp add: flush_fresh_def)
  have new': "x \<in> X \<or> x = Bump k ?M \<or> x = Flush k ?M \<or>
      (\<exists>e\<in>set (flush_fresh ?s k m). x = Send_Frame (be_envelope e))" if "x \<in> X'" for x
    using new [OF that] acts(2) by (auto simp: acts_eq)
  show ?thesis
  proof (cases "k = r")
    case False
    have "other_runs_same k ?s s"
      by (simp add: s other_runs_same_def buffer_of_fold)
    moreover have "a \<in> X' \<longleftrightarrow> a \<in> X" if "about a = Some r" for a
      using kept [of a] new' [of a] that False env fresh frame_event_about by fastforce
    ultimately show ?thesis by (rule good_other_run [OF g _ False])
  next
    case True
    have same: "log_top ?w r = log_top w r" "log_seqs ?w r = log_seqs w r" "replayable ?w r = replayable w r"
      by (simp_all add: log_top_def log_seqs_def replayable_def replay_seqs_def)
    have view: "checkpoint s r = checkpoint ?s r" "buffer_of s r = []" "replaying s = replaying ?s"
        "full_reload_pending s = full_reload_pending ?s"
      using True by (simp_all add: s)
    have in_replay: "r \<in> replaying ?s"
      using goodD(3) [OF g] nonempty True by (auto simp: wbuffer_ok_def)
    have pipe: "pipe w r = map be_seq (buffer_of ?s r) @ pipe ?w r"
      by (simp add: pipe_def view)
    have m: "mark X r m" using a True by (simp add: mark_def)
    have cov: "cov ?w X' r q" if "cov w X r q" for q
    proof (rule cov_trans [OF that])
      show "cov ?w X' r q" if "Send_Frame f \<in> X" "frame_event f = Some (r, q)" for f
        using kept [OF that(1)] that(2) by (auto intro: covI(3))
      show "cov ?w X' r q" if "Read_Page r ps off l \<in> X" "ps < q" for ps off l
        using kept [OF that(1)] that(2) by (auto intro: covI(4))
      show "cov ?w X' r q" if "Reload r \<in> X"
        using kept [OF that] by (auto intro: covI(5))
    qed (use small True in \<open>auto simp: sent_def intro: covI(6)\<close>)
    have batch: "cov ?w X' r (be_seq e)" if "e \<in> set (flush_fresh ?s k m)" for e
    proof -
      have "Send_Frame (be_envelope e) \<in> X'" using acts(1) that by (auto simp: acts_eq)
      then show ?thesis using env [OF fresh [OF that]] True by (intro covI(3)) auto
    qed
    have taken: "cov ?w X' r q" if sub: "checkpoint ?s r = Some cp" "r \<notin> ww_lost w" "q \<in> replayable w r"
      and q: "q \<in> set (map be_seq (buffer_of ?s r))" for q cp
    proof (cases "cov w X r q")
      case False
      then have "cp < q" "m < q" using deliveryD [OF g sub] m not_le by blast+
      then have "\<exists>e\<in>set (flush_fresh ?s k m). be_seq e = q"
        using q sub(1) True by (auto simp: flush_fresh_def)
      then show ?thesis using batch by auto
    qed (rule cov)
    have later: "cov w X r q \<or> q \<in> set (map be_seq (buffer_of ?s r))"
      if sub: "checkpoint ?s r = Some cp" "r \<notin> ww_lost w" "q \<in> replayable w r"
        and e: "e \<in> set (buffer_of ?s r)" "q \<le> be_seq e" for q cp e
      using deliveryD(1) [OF g sub] goodD(2) [OF g] in_replay e
      by (fastforce simp: pipe_ok_def pipe sorted_wrt_append recoverable_def)
    have max_mark: "n \<le> log_top w r \<and> (\<forall>cp q. checkpoint ?s r = Some cp \<longrightarrow> r \<notin> ww_lost w \<longrightarrow>
        q \<in> replayable w r \<longrightarrow> q \<le> n \<longrightarrow> cov ?w X' r q)" if "mark X' r n" for n
    proof (cases "mark X r n")
      case True
      then show ?thesis using deliveryD(2) [OF g] goodD(5) [OF g] cov by (auto simp: marks_ok_def)
    next
      case False
      have "n = ?M"
        using that False new' unfolding mark_def by fastforce
      then obtain e where e: "e \<in> set (buffer_of ?s r)" "n = be_seq e"
        using flush_max_cases [of ?s k m] m False fresh True by metis
      have "be_seq e \<in> log_seqs w r"
        using goodD(2) [OF g] e(1) by (auto simp: pipe_ok_def pipe)
      then have "n \<le> log_top w r"
        using goodD(1) [OF g] log_le_top e(2) by (simp add: wlog_ok_def)
      moreover have "cov ?w X' r q" if "checkpoint ?s r = Some cp" "r \<notin> ww_lost w" "q \<in> replayable w r" "q \<le> n" for cp q
        using later [OF that(1-3) e(1)] that e(2) cov taken by blast
      ultimately show ?thesis by blast
    qed
    show ?thesis
    proof (rule goodI)
      show "wlog_ok ?w r"
        using goodD(1) [OF g] by (simp add: wlog_ok_def same)
      show "pipe_ok ?w r"
        using goodD(2) [OF g] by (simp add: pipe_ok_def same pipe sorted_wrt_append)
      show "wbuffer_ok (ww_session ?w) r"
        using goodD(3) [OF g] by (simp add: wbuffer_ok_def view)
      show "ends_ok (ww_session ?w) X' r"
        using acts(1) True by (auto simp: ends_ok_def acts_eq)
      show "marks_ok ?w X' r"
        using max_mark unfolding marks_ok_def same by blast
      show "subscription_ok ?w r"
        using goodD(6) [OF g] unfolding subscription_ok_def same by (simp add: view)
      show "notice_ok ?w X' r"
        using goodD(7) [OF g] kept by (auto simp: notice_ok_def view)
      show "delivery_ok ?w X' r"
      proof (rule deliveryI)
        fix cp q
        assume "checkpoint (ww_session ?w) r = Some cp" "r \<notin> ww_lost ?w" "q \<in> replayable ?w r"
        then have d: "checkpoint ?s r = Some cp" "r \<notin> ww_lost w" "q \<in> replayable w r"
          by (simp_all add: view same)
        show "cov ?w X' r q \<or> cp < q \<and> (q \<in> set (pipe ?w r) \<or> recoverable ?w r)"
          using deliveryD(1) [OF g d] cov taken [OF d] in_replay by (auto simp: pipe recoverable_def)
        show "cov ?w X' r q" if "mark X' r n" "q \<le> n" for n
          using max_mark [OF that(1)] d that(2) by blast
      qed
    qed
  qed
qed

end
