(* ===== verification/Web_Delivery_Runs.thy ===== *)
theory Web_Delivery_Runs
  imports Web_Delivery_Acts
begin

text \<open>
  Every step of a connection keeps the invariant of every run: the tasks, the log and the channel,
  the forwarder, the catch-up after a lag, and the commands of the client.
\<close>

section \<open>The tasks\<close>

lemma good_fields [simp]:
  "good (w\<lparr>ww_a := x\<rparr>) X r = good w X r"
  "good (w\<lparr>ww_c := x\<rparr>) X r = good w X r"
  "good (w\<lparr>ww_origin := i\<rparr>) X r = good w X r"
  by (simp_all add: good_def wlog_ok_def pipe_ok_def marks_ok_def subscription_ok_def notice_ok_def
      delivery_ok_def log_seqs_def log_top_def pipe_def replayable_def replay_seqs_def recoverable_def
      cov_def sent_def)

lemma failed_acts:
  assumes "who = Catchup \<or> tame (Read_Page k ps off l # rest)"
  shows "x \<in> set rest \<Longrightarrow> x \<in> set (replay_failed who k e rest) \<or> flush_run x = Some k \<or> about x = None"
    and "x \<in> set (replay_failed who k e rest) \<Longrightarrow> x \<in> set rest \<or> x = Reload k \<or> about x = None"
    and "Reload k \<in> set (replay_failed who k e rest)"
  using assms by (cases who; fastforce simp: replay_failed_def)+

lemma overflow_acts:
  assumes "who = Catchup \<or> tame (Flush k m # rest)"
  shows "x \<in> set rest \<Longrightarrow> x \<in> set (flush_overflowed who k rest) \<or> about x = None"
    and "x \<in> set (flush_overflowed who k rest) \<Longrightarrow> x \<in> set rest \<or> x = Reload k \<or> about x = None"
    and "Reload k \<in> set (flush_overflowed who k rest)"
  using assms by (cases who; fastforce simp: flush_overflowed_def)+

lemma good_perform_page:
  assumes g: "good w (set (Read_Page k ps off l # rest) \<union> Y) r" and ok: "page_ok w k ps page"
    and tm: "who = Catchup \<or> tame (Read_Page k ps off l # rest)"
  shows "good w (set (replay_page who k ps l page rest) \<union> Y) r"
proof -
  let ?a = "Read_Page k ps off l"
  have fail: "good w (set (sends @ replay_failed who k e rest) \<union> Y) r"
    if "\<forall>x\<in>set sends. \<exists>ev. x = Send_Frame (replay_frame k ev)" for sends e
  proof (rule good_to_reload [OF g, of k])
    show "Reload k \<in> set (sends @ replay_failed who k e rest) \<union> Y"
      using failed_acts(3) [OF tm] by simp
    show "x \<in> set (sends @ replay_failed who k e rest) \<union> Y \<or> flush_run x = Some k \<or> about x = None \<or>
        (\<exists>ps off l. x = Read_Page k ps off l)" if "x \<in> set (?a # rest) \<union> Y" for x
      using that failed_acts(1) [OF tm, where x = x and e = e] by auto
    show "x \<in> set (?a # rest) \<union> Y \<or> x = Reload k \<or> (\<exists>ev. x = Send_Frame (replay_frame k ev)) \<or> about x = None"
      if "x \<in> set (sends @ replay_failed who k e rest) \<union> Y" for x
      using that \<open>\<forall>x\<in>set sends. _\<close> failed_acts(2) [OF tm, where x = x and e = e] by auto
  qed
  show ?thesis
  proof (cases page)
    case (Inl e)
    then show ?thesis using fail [of "[]" e] by (simp add: replay_page_def)
  next
    case (Inr p)
    let ?sends = "map (\<lambda>ev. Send_Frame (replay_frame k ev)) (bp_events p)"
    let ?l = "fold (\<lambda>ev n. max n (event_seq ev)) (bp_events p) l"
    have l: "?l = l \<or> (\<exists>ev\<in>set (bp_events p). ?l = event_seq ev)"
      using fold_max_cases by fast
    note page = good_page [OF g _ ok [unfolded Inr], where last' = ?l, OF _ _ _ _ _ l]
    consider (last) "\<not> bp_has_more p" | (stuck) "bp_has_more p" "bp_last_seq p \<le> ps"
      | (more) "bp_has_more p" "\<not> bp_last_seq p \<le> ps" by blast
    then show ?thesis
    proof cases
      case last
      then have "replay_page who k ps l page rest = ?sends @ [Bump k ?l] @ rest"
        by (simp add: replay_page_def Inr Let_def)
      then show ?thesis using last by (simp only:) (rule page; auto)
    next
      case stuck
      then have "replay_page who k ps l page rest =
          ?sends @ replay_failed who k ''catch-up page cursor did not advance'' rest"
        by (simp add: replay_page_def Inr Let_def)
      then show ?thesis by (simp only:) (rule fail; auto)
    next
      case more
      then have "replay_page who k ps l page rest =
          ?sends @ [Read_Page k (bp_last_seq p) (Some (bp_next_offset p)) ?l] @ rest"
        by (simp add: replay_page_def Inr Let_def)
      then show ?thesis using more by (simp only:) (rule page; auto)
    qed
  qed
qed

lemma good_perform_flush:
  assumes g: "\<And>r. good w (set (Flush k m # rest) \<union> Y) r"
    and run: "flush_round who k m rest (ww_session w) = (s, acts)"
    and tm: "who = Catchup \<or> tame (Flush k m # rest)"
  shows "good (w\<lparr>ww_session := s\<rparr>) (set acts \<union> Y) r"
proof -
  consider (empty) "buffer_of (ww_session w) k = []"
    | (full) "REPLAY_BUFFER_CAPACITY \<le> length (buffer_of (ww_session w) k)"
    | (batch) "buffer_of (ww_session w) k \<noteq> []" "length (buffer_of (ww_session w) k) < REPLAY_BUFFER_CAPACITY"
    by force
  then show ?thesis
  proof cases
    case empty
    then have "acts = rest" using run flush_round_empty [of "ww_session w" k who m rest] by simp
    then show ?thesis by (intro good_flush_empty [OF g _ empty run]) auto
  next
    case full
    then have acts: "acts = flush_overflowed who k rest"
      using run flush_round_overflow [of "ww_session w" k who m rest] by simp
    show ?thesis unfolding acts
    proof (rule good_flush_overflow [OF g full run])
      show "x \<in> set (flush_overflowed who k rest) \<union> Y \<or> flush_run x = Some k \<or> about x = None"
        if "x \<in> set (Flush k m # rest) \<union> Y" for x
        using that overflow_acts(1) [OF tm, where x = x] by auto
      show "x \<in> set (Flush k m # rest) \<union> Y \<or> x = Reload k \<or> about x = None"
        if "x \<in> set (flush_overflowed who k rest) \<union> Y" for x
        using that overflow_acts(2) [OF tm, where x = x] by auto
    qed (use overflow_acts(3) [OF tm] in simp)
  next
    case batch
    then show ?thesis
      by (intro good_flush_batch [OF g _ batch run g])
         (use run flush_round_batch [OF batch, of who m rest] in auto)
  qed
qed

lemma good_perform:
  assumes g: "\<And>r. good w (set (a # rest) \<union> Y) r" and ok: "act_page_ok w a page"
    and run: "perform who page a rest w = (w', acts)" and tm: "who = Catchup \<or> tame (a # rest)"
  shows "good w' (set acts \<union> Y) r"
proof (cases a)
  case (Send_Frame f)
  then have "w' = w\<lparr>ww_wire := ww_wire w @ [f]\<rparr>" "acts = rest" using run by simp_all
  then show ?thesis
    by (intro good_same_view [OF g [of r], where fs = "[f]"])
       (auto simp: Send_Frame same_view_def pipe_def recoverable_def)
next
  case (Bump k n)
  then have "w' = w\<lparr>ww_session := complete_replay k n (ww_session w)\<rparr>" "acts = rest" using run by simp_all
  then show ?thesis
    by (simp only:) (rule good_bump [OF g]; auto simp: Bump)
next
  case (Read_Page k ps off l)
  then have "w' = w" "acts = replay_page who k ps l page rest" using run by simp_all
  then show ?thesis
    using good_perform_page [OF g [unfolded Read_Page] _ tm [unfolded Read_Page]] ok Read_Page
    by (simp add: act_page_ok_def)
next
  case (Flush k m)
  obtain s acts' where f: "flush_round who k m rest (ww_session w) = (s, acts')" by fastforce
  then have "w' = w\<lparr>ww_session := s\<rparr>" "acts = acts'"
    using run perform_flush [OF f, of page] Flush by simp_all
  then show ?thesis
    using good_perform_flush [OF g [unfolded Flush] f tm [unfolded Flush]] by simp
next
  case (Reload k)
  obtain s acts' where f: "send_full_reload k rest (ww_session w) = (s, acts')" by fastforce
  then have w': "w' = w\<lparr>ww_session := s, ww_owed := (ww_owed w)(k \<mapsto> log_top w k)\<rparr>" "acts = acts'"
    using run perform_reload [OF f, of who page] Reload by simp_all
  show ?thesis
    unfolding w' by (rule good_reload [OF g f]) (use f in \<open>auto simp: Reload send_full_reload_eq\<close>)
qed

section \<open>The log and the channel\<close>

lemma replayable_persist:
  "log_top w k < n \<Longrightarrow>
   replayable (w\<lparr>ww_log := (ww_log w)(k := ww_log w k @ [(n, ev)]), ww_outbox := ob\<rparr>) k =
     replayable w k \<union> (if is_replayable ev then {n} else {})"
  by (auto simp: replayable_def replay_seqs_def)

lemma good_persist:
  assumes g: "good w X r" and n: "log_top w k < n"
  shows "good (w\<lparr>ww_log := (ww_log w)(k := ww_log w k @ [(n, ev)]),
                ww_outbox := (ww_outbox w)(k := ww_outbox w k @ [(n, ev)])\<rparr>) X r"
    (is "good ?w X r")
proof (cases "k = r")
  case False
  then show ?thesis
    by (intro good_same_view [OF g, where fs = "[]"])
       (auto simp: same_view_def pipe_def recoverable_def)
next
  case True
  have lg: "sorted_wrt (<) (map fst (ww_log w r))" "0 \<notin> log_seqs w r"
    using goodD(1) [OF g] by (simp_all add: wlog_ok_def)
  have below: "q < n" if "q \<in> log_seqs w r" for q
    using log_le_top [OF lg(1) that] n True by simp
  have same: "log_top ?w r = n" "log_seqs ?w r = insert n (log_seqs w r)" "pipe ?w r = pipe w r @ [n]"
    "recoverable ?w r = recoverable w r" "cov ?w X r q = cov w X r q" for q
    using True by (auto simp: log_top_def log_seqs_def pipe_def recoverable_def cov_def sent_def)
  show ?thesis
  proof (rule goodI)
    show "wlog_ok ?w r"
      using lg below True n unfolding wlog_ok_def same by (auto simp: sorted_wrt_append log_seqs_def)
    show "pipe_ok ?w r"
      using goodD(2) [OF g] below unfolding pipe_ok_def same by (auto simp: sorted_wrt_append)
    show "wbuffer_ok (ww_session ?w) r" "ends_ok (ww_session ?w) X r" "notice_ok ?w X r"
      using goodD(3,4,7) [OF g] by (simp_all add: notice_ok_def)
    show "marks_ok ?w X r"
      using goodD(5) [OF g] n True unfolding marks_ok_def same by (auto dest: less_imp_le le_less_trans)
    show "subscription_ok ?w r"
      using goodD(6) [OF g] n True unfolding subscription_ok_def same
      by (auto dest: less_imp_le le_less_trans)
    show "delivery_ok ?w X r"
    proof (rule deliveryI)
      fix cp q
      assume sub: "checkpoint (ww_session ?w) r = Some cp" "r \<notin> ww_lost ?w" "q \<in> replayable ?w r"
      then have d: "checkpoint (ww_session w) r = Some cp" "r \<notin> ww_lost w" by simp_all
      from sub(3) consider "q \<in> replayable w r" | "q = n"
        using replayable_persist [of w k n] n True by (auto split: if_splits)
      note qcases = this
      then show "cov ?w X r q \<or> cp < q \<and> (q \<in> set (pipe ?w r) \<or> recoverable ?w r)"
      proof cases
        case 1
        then show ?thesis using deliveryD(1) [OF g d 1] by (auto simp: same)
      next
        case 2
        have "cp < n" using goodD(6) [OF g] d(1) n True by (auto simp: subscription_ok_def)
        moreover have "n \<in> set (pipe ?w r)" unfolding same by simp
        ultimately show ?thesis using 2 by blast
      qed
      show "cov ?w X r q" if "mark X r m" "q \<le> m" for m
        using qcases
      proof cases
        case 1
        then show ?thesis using deliveryD(2) [OF g d 1 that] by (simp add: same)
      next
        case 2
        then show ?thesis using goodD(5) [OF g] that n True by (auto simp: marks_ok_def dest: le_less_trans)
      qed
    qed
  qed
qed

text \<open>Messages move along the channel or are dropped from it.\<close>

lemma good_queue:
  assumes g: "good w X r"
    and w': "w' = w\<lparr>ww_queue := qs, ww_outbox := ob, ww_lagged := b, ww_lost := L\<rparr>"
    and pipe: "pipe_ok w' r"
    and gone: "\<And>q cp. q \<in> set (pipe w r) \<Longrightarrow> checkpoint (ww_session w) r = Some cp \<Longrightarrow> cp < q \<Longrightarrow>
      q \<in> set (pipe w' r) \<or> r \<in> L \<or> recoverable w' r \<or> cov w X r q"
    and grow: "ww_lagged w \<Longrightarrow> b" "r \<in> ww_lost w \<Longrightarrow> r \<in> L"
  shows "good w' X r"
proof (rule goodI)
  have same: "log_top w' r = log_top w r" "log_seqs w' r = log_seqs w r" "replayable w' r = replayable w r"
    "cov w' X r q = cov w X r q" "recoverable w r \<Longrightarrow> recoverable w' r" for q
    using grow(1)
    by (auto simp: w' log_top_def log_seqs_def replayable_def replay_seqs_def cov_def sent_def recoverable_def)
  show "pipe_ok w' r" by (fact pipe)
  show "wlog_ok w' r" "wbuffer_ok (ww_session w') r" "ends_ok (ww_session w') X r" "marks_ok w' X r"
    "subscription_ok w' r" "notice_ok w' X r"
    using goodD [OF g]
    by (simp_all add: wlog_ok_def marks_ok_def subscription_ok_def notice_ok_def same(1-3), simp_all add: w')
  show "delivery_ok w' X r"
  proof (rule deliveryI)
    fix cp q
    assume "checkpoint (ww_session w') r = Some cp" "r \<notin> ww_lost w'" "q \<in> replayable w' r"
    then have d: "checkpoint (ww_session w) r = Some cp" "r \<notin> ww_lost w" "q \<in> replayable w r" "r \<notin> L"
      using grow(2) by (auto simp: same, auto simp: w')
    show "cov w' X r q \<or> cp < q \<and> (q \<in> set (pipe w' r) \<or> recoverable w' r)"
      using deliveryD(1) [OF g d(1-3)] gone [OF _ d(1)] d(4) same(4,5) by blast
    show "cov w' X r q" if "mark X r n" "q \<le> n" for n
      using deliveryD(2) [OF g d(1-3) that] same(4) by simp
  qed
qed

lemma pipe_drop:
  assumes "pipe_ok w r" and "pipe w r = xs @ ys @ zs" and "pipe w' r = xs @ zs"
    and "log_seqs w' r = log_seqs w r"
  shows "pipe_ok w' r"
  using assms by (auto simp: pipe_ok_def sorted_wrt_append)

lemma durable_msg_simps [simp]:
  "bm_run_id (durable_msg r n ev) = Some r" "bm_seq (durable_msg r n ev) = Some n"
  by (simp_all add: durable_msg_def)

lemma good_enqueue:
  assumes g: "good w X r" and ob: "ww_outbox w k = (n, ev) # rest"
  shows "good (w\<lparr>ww_outbox := (ww_outbox w)(k := rest), ww_queue := ww_queue w @ [durable_msg k n ev]\<rparr>) X r"
    (is "good ?w X r")
proof (rule good_queue [OF g, where qs = "ww_queue w @ [durable_msg k n ev]" and
    ob = "(ww_outbox w)(k := rest)" and b = "ww_lagged w" and L = "ww_lost w"])
  show "?w = w\<lparr>ww_queue := ww_queue w @ [durable_msg k n ev], ww_outbox := (ww_outbox w)(k := rest),
      ww_lagged := ww_lagged w, ww_lost := ww_lost w\<rparr>"
    by (cases w) simp
  have "pipe ?w r = pipe w r"
    using ob by (auto simp: pipe_def)
  then show "pipe_ok ?w r"
    and "\<And>q cp. q \<in> set (pipe w r) \<Longrightarrow> q \<in> set (pipe ?w r) \<or> r \<in> ww_lost w \<or> recoverable ?w r \<or> cov w X r q"
    using goodD(2) [OF g] by (simp_all add: pipe_ok_def log_seqs_def)
qed simp_all

lemma good_drop:
  assumes g: "good w X r" and q: "ww_queue w = d # qs"
  shows "good (w\<lparr>ww_queue := qs, ww_lagged := True, ww_lost := ww_lost w \<union> msg_lost (ww_session w) d\<rparr>) X r"
    (is "good ?w X r")
proof (rule good_queue [OF g, where qs = qs and ob = "ww_outbox w" and b = True and
    L = "ww_lost w \<union> msg_lost (ww_session w) d"])
  show "?w = w\<lparr>ww_queue := qs, ww_outbox := ww_outbox w, ww_lagged := True,
      ww_lost := ww_lost w \<union> msg_lost (ww_session w) d\<rparr>"
    by (cases w) simp
  let ?out = "queue_seqs r [d]"
  have pipe: "pipe w r = map be_seq (buffer_of (ww_session w) r) @ ?out @ (queue_seqs r qs @ map fst (ww_outbox w r))"
      "pipe ?w r = map be_seq (buffer_of (ww_session w) r) @ (queue_seqs r qs @ map fst (ww_outbox w r))"
    by (simp_all add: pipe_def q)
  show "pipe_ok ?w r"
    by (rule pipe_drop [OF goodD(2) [OF g] pipe]) (simp add: log_seqs_def)
  show "x \<in> set (pipe ?w r) \<or> r \<in> ww_lost w \<union> msg_lost (ww_session w) d \<or> recoverable ?w r \<or> cov w X r x"
    if "x \<in> set (pipe w r)" for x
  proof (cases "bm_run_id d = Some r")
    case True
    then show ?thesis by (simp add: recoverable_def msg_lost_def)
  next
    case False
    then have "pipe ?w r = pipe w r" by (simp add: pipe)
    then show ?thesis using that by simp
  qed
  show "True" by simp
  show "r \<in> ww_lost w \<union> msg_lost (ww_session w) d" if "r \<in> ww_lost w" using that by simp
qed

lemma good_broadcast:
  assumes g: "good w X r" and ob: "ww_outbox w k = (n, ev) # rest"
  shows "good (deliver cap (durable_msg k n ev) (w\<lparr>ww_outbox := (ww_outbox w)(k := rest)\<rparr>)) X r"
proof (cases "ww_queue w")
  case Nil
  then show ?thesis using good_enqueue [OF g ob] by (simp add: deliver_def)
next
  case (Cons d q)
  let ?m = "durable_msg k n ev" and ?L = "ww_lost w \<union> msg_lost (ww_session w) d"
  have "good ((w\<lparr>ww_queue := q, ww_lagged := True, ww_lost := ?L\<rparr>)
      \<lparr>ww_outbox := (ww_outbox w)(k := rest), ww_queue := q @ [?m]\<rparr>) X r"
    using good_enqueue [OF good_drop [OF g Cons], of k n ev rest] ob by simp
  moreover have "(w\<lparr>ww_queue := q, ww_lagged := True, ww_lost := ?L\<rparr>)
      \<lparr>ww_outbox := (ww_outbox w)(k := rest), ww_queue := q @ [?m]\<rparr> =
      w\<lparr>ww_outbox := (ww_outbox w)(k := rest), ww_queue := q @ [?m], ww_lagged := True, ww_lost := ?L\<rparr>"
    by (cases w) simp
  ultimately show ?thesis using Cons good_enqueue [OF g ob] by (simp add: deliver_def)
qed

section \<open>The forwarder\<close>

lemma deq_pipe:
  "ww_queue w = m # qs \<Longrightarrow>
   pipe w r = map be_seq (buffer_of (ww_session w) r) @ queue_seqs r [m] @
              (queue_seqs r qs @ map fst (ww_outbox w r))"
  "pipe (w\<lparr>ww_queue := qs\<rparr>) r =
     map be_seq (buffer_of (ww_session w) r) @ (queue_seqs r qs @ map fst (ww_outbox w r))"
  by (simp_all add: pipe_def)

lemma queue_out: "x \<in> set (queue_seqs r [m]) \<longleftrightarrow> bm_run_id m = Some r \<and> bm_seq m = Some x"
  unfolding queue_seqs_simps append_Nil2
  by (cases "bm_seq m"; cases "bm_run_id m = Some r";
      simp only: simp_thms if_True if_False option.case list.set empty_iff option.distinct insert_iff option.inject)
     blast

text \<open>A message that is taken off the queue, unless it is above the checkpoint and not covered.\<close>

lemma good_take:
  assumes g: "good w X r" and q: "ww_queue w = m # qs"
    and gone: "\<And>n cp. bm_run_id m = Some r \<Longrightarrow> bm_seq m = Some n \<Longrightarrow>
      checkpoint (ww_session w) r = Some cp \<Longrightarrow> cp < n \<Longrightarrow> cov w X r n"
  shows "good (w\<lparr>ww_queue := qs\<rparr>) X r"
proof (rule good_queue [OF g, where qs = qs and ob = "ww_outbox w" and b = "ww_lagged w" and L = "ww_lost w"])
  show "w\<lparr>ww_queue := qs\<rparr> =
      w\<lparr>ww_queue := qs, ww_outbox := ww_outbox w, ww_lagged := ww_lagged w, ww_lost := ww_lost w\<rparr>"
    by (cases w) simp
  show "pipe_ok (w\<lparr>ww_queue := qs\<rparr>) r"
    by (rule pipe_drop [OF goodD(2) [OF g] deq_pipe(1) [OF q] deq_pipe(2)]) (simp add: log_seqs_def)
  show "x \<in> set (pipe (w\<lparr>ww_queue := qs\<rparr>) r) \<or> r \<in> ww_lost w \<or> recoverable (w\<lparr>ww_queue := qs\<rparr>) r \<or> cov w X r x"
    if "x \<in> set (pipe w r)" "checkpoint (ww_session w) r = Some cp" "cp < x" for x cp
  proof (cases "bm_run_id m = Some r \<and> bm_seq m = Some x")
    case True
    then show ?thesis using gone that(2,3) by blast
  next
    case False
    have "x \<in> set (pipe w r)" using that(1) .
    then have "x \<in> set (pipe (w\<lparr>ww_queue := qs\<rparr>) r)"
      unfolding deq_pipe(1) [OF q] deq_pipe(2) using False queue_out [of x r m]
      unfolding set_append Un_iff by blast
    then show ?thesis by blast
  qed
qed assumption+

text \<open>A message that is buffered.\<close>

lemma good_buffer:
  assumes g: "good w X r" and q: "ww_queue w = m # qs" and m: "bm_run_id m = Some k" "bm_seq m = Some n"
    and rep: "k \<in> replaying (ww_session w)"
  shows "good (w\<lparr>ww_queue := qs, ww_session := (ww_session w)\<lparr>replay_buffer := (replay_buffer (ww_session w))
            (k \<mapsto> buffer_of (ww_session w) k @ [\<lparr>be_envelope = live_frame m k n, be_seq = n\<rparr>])\<rparr>\<rparr>) X r"
    (is "good ?w X r")
proof -
  let ?s = "ww_session w"
  have pipe: "pipe ?w r = pipe w r"
    using q m by (auto simp: pipe_def buffer_of_fold)
  have view: "checkpoint (ww_session ?w) r = checkpoint ?s r" "replaying (ww_session ?w) = replaying ?s"
      "full_reload_pending (ww_session ?w) = full_reload_pending ?s" "recoverable ?w r = recoverable w r"
    by (simp_all add: recoverable_def)
  have same: "log_top ?w r = log_top w r" "log_seqs ?w r = log_seqs w r" "replayable ?w r = replayable w r"
    by (simp_all add: log_top_def log_seqs_def replayable_def replay_seqs_def)
  have cov: "cov w X r q \<Longrightarrow> cov ?w X r q" for q
  proof (erule cov_trans)
    show "cov ?w X r q" if "r \<in> replaying ?s" "REPLAY_BUFFER_CAPACITY \<le> length (buffer_of ?s r)"
      using that by (intro covI(7)) (auto simp: buffer_of_fold)
  qed (auto simp: sent_def intro: covI)
  show ?thesis
  proof (rule goodI)
    show "wlog_ok ?w r" "pipe_ok ?w r" "marks_ok ?w X r" "ends_ok (ww_session ?w) X r"
      using goodD [OF g] by (simp_all add: wlog_ok_def pipe_ok_def marks_ok_def ends_ok_def same pipe)
    show "subscription_ok ?w r" "notice_ok ?w X r"
      using goodD(6,7) [OF g] by (simp_all add: subscription_ok_def notice_ok_def same)
    show "wbuffer_ok (ww_session ?w) r"
      using goodD(3) [OF g] rep by (auto simp: wbuffer_ok_def buffer_of_fold live_frame_def)
    show "delivery_ok ?w X r"
    proof (rule deliveryI)
      fix cp q
      assume "checkpoint (ww_session ?w) r = Some cp" "r \<notin> ww_lost ?w" "q \<in> replayable ?w r"
      then have d: "checkpoint ?s r = Some cp" "r \<notin> ww_lost w" "q \<in> replayable w r"
        by (simp_all add: view same)
      show "cov ?w X r q \<or> cp < q \<and> (q \<in> set (pipe ?w r) \<or> recoverable ?w r)"
        using deliveryD(1) [OF g d] cov by (auto simp: pipe view)
      show "cov ?w X r q" if "mark X r i" "q \<le> i" for i
        using deliveryD(2) [OF g d that] cov by blast
    qed
  qed
qed

text \<open>A message that is sent: nothing below it is outstanding.\<close>

lemma good_direct:
  assumes g: "\<And>r. good w Y r" and q: "ww_queue w = m # qs" and m: "bm_run_id m = Some k" "bm_seq m = Some n"
    and idle: "k \<notin> replaying (ww_session w)" "\<not> ww_lagged w"
  shows "good w (insert (Send_Frame (live_frame m k n)) (insert (Bump k n) Y)) r" (is "good w ?X r")
proof (cases "k = r")
  case False
  then show ?thesis
    by (intro good_same_view [OF g, where fs = "[]"]) (auto simp: live_frame_def)
next
  case True
  have pipe: "pipe w r = n # (queue_seqs r qs @ map fst (ww_outbox w r))"
    using goodD(3) [OF g, of r] idle(1) True q m by (simp add: pipe_def wbuffer_ok_def)
  have n: "n \<in> log_seqs w r"
    using goodD(2) [OF g, of r] by (simp add: pipe_ok_def pipe)
  have below: "q = n" if "q \<in> set (pipe w r)" "q \<le> n" for q
  proof (rule ccontr)
    assume "q \<noteq> n"
    then have "q \<in> set (queue_seqs r qs @ map fst (ww_outbox w r))" using that(1) by (simp add: pipe)
    then have "n < q"
      using goodD(2) [OF g, of r] unfolding pipe_ok_def pipe sorted_wrt.simps by blast
    with that(2) show False by simp
  qed
  have cov: "cov w ?X r q" if "cov w Y r q" for q
    using that unfolding cov_def by blast
  have now: "cov w ?X r n"
    using True by (intro covI(3)) (auto simp: live_frame_def)
  show ?thesis
  proof (rule good_acts [OF g])
    show "mark Y r i \<or> i \<le> log_top w r \<and> (\<forall>cp q. checkpoint (ww_session w) r = Some cp \<longrightarrow> r \<notin> ww_lost w \<longrightarrow>
        q \<in> replayable w r \<longrightarrow> q \<le> i \<longrightarrow> cov w ?X r q)" if i: "mark ?X r i" for i
    proof (cases "mark Y r i")
      case False
      then have "i = n" using i unfolding mark_def by auto
      moreover have "n \<le> log_top w r"
        using n log_le_top goodD(1) [OF g, of r] by (simp add: wlog_ok_def)
      moreover have "cov w ?X r q" if "checkpoint (ww_session w) r = Some cp" "r \<notin> ww_lost w" "q \<in> replayable w r" "q \<le> n" for cp q
        using deliveryD(1) [OF g that(1-3)] below [of q] that(4) idle(2) cov now by (auto simp: recoverable_def)
      ultimately show ?thesis by blast
    qed simp
    show "ends_ok (ww_session w) ?X r"
      using idle(1) True by (simp add: ends_ok_def)
  qed (use cov in auto)
qed

lemma good_forward:
  assumes g: "\<And>r. good w Y r" and q: "ww_queue w = m # qs" and "\<not> ww_lagged w"
    and run: "forward_a m (ww_session w) = (s, acts)"
  shows "good (w\<lparr>ww_queue := qs, ww_session := s\<rparr>) (set acts \<union> Y) r"
proof (cases "\<exists>k n cp. bm_run_id m = Some k \<and> bm_seq m = Some n \<and> checkpoint (ww_session w) k = Some cp")
  case False
  then have same: "s = ww_session w" "acts = []"
    using run by (auto simp: forward_a_def split: option.splits)
  have "good (w\<lparr>ww_queue := qs\<rparr>) Y r"
    using False by (intro good_take [OF g q]) blast
  moreover have "w\<lparr>ww_queue := qs, ww_session := ww_session w\<rparr> = w\<lparr>ww_queue := qs\<rparr>" by (cases w) simp
  ultimately show ?thesis by (simp add: same)
next
  case True
  then obtain k n cp where m: "bm_run_id m = Some k" "bm_seq m = Some n" and cp: "checkpoint (ww_session w) k = Some cp"
    by blast
  have keep: "w\<lparr>ww_queue := qs, ww_session := ww_session w\<rparr> = w\<lparr>ww_queue := qs\<rparr>" by (cases w) simp
  consider (buffer) "k \<in> replaying (ww_session w)" "length (buffer_of (ww_session w) k) < REPLAY_BUFFER_CAPACITY"
    | (full) "k \<in> replaying (ww_session w)" "REPLAY_BUFFER_CAPACITY \<le> length (buffer_of (ww_session w) k)"
    | (skip) "k \<notin> replaying (ww_session w)" "n \<le> cp"
    | (send) "k \<notin> replaying (ww_session w)" "cp < n" by linarith
  then show ?thesis
  proof cases
    case buffer
    then have "acts = []" "s = (ww_session w)\<lparr>replay_buffer := (replay_buffer (ww_session w))
        (k \<mapsto> buffer_of (ww_session w) k @ [\<lparr>be_envelope = live_frame m k n, be_seq = n\<rparr>])\<rparr>"
      using run m cp by (simp_all add: forward_a_def Let_def)
    then show ?thesis using good_buffer [OF g q m buffer(1)] by simp
  next
    case full
    then have s: "acts = []" "s = (ww_session w)\<lparr>replay_buffer := (replay_buffer (ww_session w))
        (k \<mapsto> buffer_of (ww_session w) k)\<rparr>"
      using run m cp by (simp_all add: forward_a_def Let_def)
    have "good (w\<lparr>ww_queue := qs\<rparr>) Y r"
      using full m by (intro good_take [OF g q] covI(7)) auto
    moreover have "checkpoint s = checkpoint (ww_session w)" "buffer_of s = buffer_of (ww_session w)"
      "replaying s = replaying (ww_session w)" "full_reload_pending s = full_reload_pending (ww_session w)"
      by (simp_all add: s fun_eq_iff buffer_of_fold)
    then have "same_view (w\<lparr>ww_queue := qs\<rparr>) (w\<lparr>ww_queue := qs, ww_session := s\<rparr>) r"
      by (simp add: same_view_def pipe_def recoverable_def)
    ultimately have "good (w\<lparr>ww_queue := qs, ww_session := s\<rparr>) Y r"
      by (rule good_same_view [where fs = "[]"]) simp_all
    then show ?thesis using s(1) by simp
  next
    case skip
    then have "acts = []" "s = ww_session w"
      using run m cp by (simp_all add: forward_a_def Let_def)
    moreover have "good (w\<lparr>ww_queue := qs\<rparr>) Y r"
      using skip m cp by (intro good_take [OF g q]) auto
    ultimately show ?thesis by (simp add: keep)
  next
    case send
    then have s: "acts = [Send_Frame (live_frame m k n), Bump k n]" "s = ww_session w"
      using run m cp by (simp_all add: forward_a_def Let_def)
    have "good (w\<lparr>ww_queue := qs\<rparr>) (insert (Send_Frame (live_frame m k n)) (insert (Bump k n) Y)) r"
      by (rule good_take [OF good_direct [OF g q m send(1) assms(3)] q])
         (use m in \<open>auto intro!: covI(3) simp: live_frame_def\<close>)
    then show ?thesis by (simp add: s keep)
  qed
qed

section \<open>Catching up after a lag\<close>

lemma lag_runs_result:
  "lag_runs subs s = (s', runs) \<Longrightarrow>
   checkpoint s' = checkpoint s \<and> buffer_of s' = buffer_of s \<and>
   full_reload_pending s' = full_reload_pending s \<and> replaying s' = replaying s \<union> fst ` set runs \<and>
   (\<forall>r cp. (r, cp) \<in> set runs \<longleftrightarrow>
      map_of subs r = Some cp \<and> r \<notin> replaying s \<and> r \<notin> full_reload_pending s)"
proof (induction subs s arbitrary: s' runs rule: lag_runs.induct)
  case (1 s)
  then show ?case by simp
next
  case (2 run cp subs s)
  show ?case
  proof (cases "run \<notin> replaying s \<and> run \<notin> full_reload_pending s")
    case True
    let ?s = "s\<lparr>replaying := insert run (replaying s),
               replay_buffer := (replay_buffer s)(run \<mapsto> buffer_of s run)\<rparr>"
    obtain runs' where rest: "lag_runs subs ?s = (s', runs')" "runs = (run, cp) # runs'"
      using 2(3) True by (auto split: prod.splits)
    have "checkpoint ?s = checkpoint s" "buffer_of ?s = buffer_of s"
      by (auto simp: fun_eq_iff checkpoint_def buffer_of_def)
    with 2(1) [OF True rest(1)] rest(2) True show ?thesis by auto
  next
    case False
    with 2(3) have "lag_runs subs s = (s', runs)" by auto
    with 2(2) [OF False this] False show ?thesis by auto
  qed
qed

lemma good_lagged:
  assumes g: "good w Y r" and run: "lag_catchup (ww_session w) = (s, acts)"
  shows "good (w\<lparr>ww_lagged := False, ww_session := s\<rparr>) (set acts \<union> Y) r" (is "good ?w ?X r")
proof -
  obtain runs where lr: "lag_runs (subscriptions (ww_session w)) (ww_session w) = (s, runs)"
    and acts: "acts = map (\<lambda>(run, cp). Read_Page run cp None cp) runs @ map (\<lambda>(run, _). Flush run 0) runs"
    using run by (auto simp: lag_catchup_def split: prod.splits)
  have view: "checkpoint s = checkpoint (ww_session w)" "buffer_of s = buffer_of (ww_session w)"
    "full_reload_pending s = full_reload_pending (ww_session w)"
    "replaying s = replaying (ww_session w) \<union> fst ` set runs"
    and runs: "(k, cp) \<in> set runs \<longleftrightarrow> checkpoint (ww_session w) k = Some cp \<and>
      k \<notin> replaying (ww_session w) \<and> k \<notin> full_reload_pending (ww_session w)" for k cp
    using lag_runs_result [OF lr] by (simp_all add: checkpoint_def)
  show ?thesis
  proof (cases "r \<in> fst ` set runs")
    case False
    have "a \<in> Y" if "about a = Some r" "a \<in> ?X" for a
      using that False by (auto simp: acts image_iff split: prod.splits)
    moreover have "\<not> (checkpoint (ww_session w) r \<noteq> None \<and> recoverable w r)"
    proof
      assume a: "checkpoint (ww_session w) r \<noteq> None \<and> recoverable w r"
      then obtain cp where "(r, cp) \<in> set runs" using runs [of r] by (auto simp: recoverable_def)
      with False show False by force
    qed
    ultimately show ?thesis
      by (intro good_same_view [OF g, where fs = "[]"])
         (use False in \<open>auto simp: same_view_def view pipe_def\<close>)
  next
    case True
    then obtain cp where cp: "(r, cp) \<in> set runs" by auto
    then have sub: "checkpoint (ww_session w) r = Some cp" "r \<notin> replaying (ww_session w)"
      "r \<notin> full_reload_pending (ww_session w)"
      using runs by auto
    have in_acts: "Read_Page r cp None cp \<in> ?X" "Flush r 0 \<in> ?X"
      using cp by (force simp: acts)+
    have only: "c = cp" if "(r, c) \<in> set runs" for c
      using that runs sub(1) by auto
    have marks: "mark Y r n \<or> n = cp \<or> n = 0" if "mark ?X r n" for n
      using that only unfolding mark_def by (auto simp: acts split: prod.splits)
    have same: "log_top ?w r = log_top w r" "log_seqs ?w r = log_seqs w r" "replayable ?w r = replayable w r"
      "pipe ?w r = pipe w r"
      by (simp_all add: log_top_def log_seqs_def replayable_def replay_seqs_def pipe_def view)
    have empty: "buffer_of (ww_session w) r = []"
      using goodD(3) [OF g] sub(2) by (simp add: wbuffer_ok_def)
    have cov: "cov ?w ?X r q" if "cov w Y r q" for q
    proof (rule cov_trans [OF that])
      show "cov ?w ?X r q" if "Send_Frame f \<in> Y" "frame_event f = Some (r, q)" for f
        using that by (intro covI(3)) auto
      show "cov ?w ?X r q" if "Read_Page r ps off l \<in> Y" "ps < q" for ps off l
        using that by (intro covI(4)) auto
    qed (use sub(2) in \<open>auto simp: sent_def intro: covI(5,6)\<close>)
    have all: "cov ?w ?X r q" if "q \<in> replayable w r" "r \<notin> ww_lost w" for q
      using covered_below [OF g sub(1) that(2,1)] cov covI(4) [OF in_acts(1)] by (cases "q \<le> cp") auto
    show ?thesis
    proof (rule goodI)
      show "wlog_ok ?w r" "pipe_ok ?w r"
        using goodD [OF g] by (simp_all add: wlog_ok_def pipe_ok_def same)
      show "wbuffer_ok (ww_session ?w) r"
        using sub empty by (simp add: wbuffer_ok_def view)
      show "ends_ok (ww_session ?w) ?X r"
        using in_acts(2) by (auto simp: ends_ok_def)
      show "marks_ok ?w ?X r"
        using goodD(5,6) [OF g] marks sub(1) unfolding marks_ok_def subscription_ok_def same by (metis le0)
      show "subscription_ok ?w r" "notice_ok ?w ?X r"
        using goodD(6,7) [OF g] by (auto simp: subscription_ok_def notice_ok_def same view)
      show "delivery_ok ?w ?X r"
        using all by (intro deliveryI) (simp_all add: same)
    qed
  qed
qed

section \<open>Subscribing\<close>

lemma subscribe_view:
  assumes "subscribe_begin k n s = (s', already, eff)"
  shows "checkpoint s' r = (if r = k then Some (max (unwrap_or (checkpoint s k) 0) n) else checkpoint s r)"
    and "buffer_of s' = buffer_of s" and "replaying s' = insert k (replaying s)"
    and "full_reload_pending s' = full_reload_pending s - {k}"
    and "already = (k \<in> replaying s)" and "eff = max (unwrap_or (checkpoint s k) 0) n"
  using assms
  by (auto simp: subscribe_begin_def Let_def fun_eq_iff buffer_of_fold checkpoint_def split: if_splits)

definition subscribe_acts :: "string option \<Rightarrow> string \<Rightarrow> bool \<Rightarrow> nat \<Rightarrow> act list" where
  "subscribe_acts i k already eff =
     (if already then [Send_Frame (Result_Frame i (JObj [(''status'', JStr ''already_replaying'')]))]
      else [Read_Page k eff None eff, Flush k 0, Send_Frame (Result_Frame i (JObj [(''ok'', JBool True)]))])"

lemma on_subscribe_acts:
  "k \<noteq> [] \<Longrightarrow> on_subscribe i k n s =
     (case subscribe_begin k n s of (s', already, eff) \<Rightarrow> (s', subscribe_acts i k already eff))"
  by (auto simp: on_subscribe_def subscribe_acts_def split: prod.splits)

lemma note_subscribe_fields [simp]:
  "ww_session (note_subscribe k n w) = ww_session w" "ww_wire (note_subscribe k n w) = ww_wire w"
  "ww_log (note_subscribe k n w) = ww_log w" "ww_outbox (note_subscribe k n w) = ww_outbox w"
  "ww_queue (note_subscribe k n w) = ww_queue w" "ww_lagged (note_subscribe k n w) = ww_lagged w"
  "ww_lost (note_subscribe k n w) = ww_lost w" "ww_a (note_subscribe k n w) = ww_a w"
  "ww_c (note_subscribe k n w) = ww_c w"
  by (simp_all add: note_subscribe_def split: option.split)

lemma note_subscribe_other:
  "r \<noteq> k \<Longrightarrow> ww_known (note_subscribe k n w) r = ww_known w r"
  "r \<noteq> k \<Longrightarrow> ww_base (note_subscribe k n w) r = ww_base w r"
  "r \<noteq> k \<Longrightarrow> ww_owed (note_subscribe k n w) r = ww_owed w r"
  by (simp_all add: note_subscribe_def split: option.split)

lemma good_subscribe:
  assumes g: "good w Y r" and n: "n \<le> log_top w k" and run: "subscribe_begin k n (ww_session w) = (s, already, eff)"
  shows "good ((note_subscribe k n w)\<lparr>ww_session := s\<rparr>) (set (subscribe_acts i k already eff) \<union> Y) r"
    (is "good ?w ?X r")
proof (cases "k = r")
  case False
  have "a \<in> Y" if "about a = Some r" "a \<in> ?X" for a
    using that False by (auto simp: subscribe_acts_def split: if_splits)
  then show ?thesis
    by (intro good_same_view [OF g, where fs = "[]"])
       (use False subscribe_view [OF run] in \<open>auto simp: same_view_def pipe_def recoverable_def note_subscribe_other\<close>)
next
  case True
  let ?s = "ww_session w"
  note view = subscribe_view [OF run, unfolded True]
  have same: "log_top ?w r = log_top w r" "log_seqs ?w r = log_seqs w r" "replayable ?w r = replayable w r"
    "pipe ?w r = pipe w r"
    by (simp_all add: log_top_def log_seqs_def replayable_def replay_seqs_def pipe_def view)
  have known: "n \<le> ww_known ?w r"
    by (simp add: note_subscribe_def True split: option.split)
  have eff_le: "eff \<le> log_top w r"
    using n True goodD(6) [OF g] by (auto simp: view subscription_ok_def unwrap_or_def split: option.split)
  have cov: "cov ?w ?X r q" if c: "cov w Y r q" and old: "checkpoint ?s r = Some cp" for q cp
  proof (rule cov_trans [OF c])
    show "ww_known w r \<le> ww_known ?w r" "sent w r q \<Longrightarrow> sent ?w r q"
      using old True by (simp_all add: note_subscribe_def sent_def)
    show "cov ?w ?X r q" if "Send_Frame f \<in> Y" "frame_event f = Some (r, q)" for f
      using that by (intro covI(3)) auto
    show "cov ?w ?X r q" if "Read_Page r ps off l \<in> Y" "ps < q" for ps off l
      using that by (intro covI(4)) auto
    show "cov ?w ?X r q" if o: "ww_owed w r = Some m" "q \<le> m" for m
    proof (cases "n < m")
      case True
      then show ?thesis using o old \<open>k = r\<close> by (intro covI(6) [of _ _ m]) (simp_all add: note_subscribe_def)
    next
      case False
      then show ?thesis using o known by (intro covI(1)) simp
    qed
    show "cov ?w ?X r q" if "r \<in> replaying ?s" "REPLAY_BUFFER_CAPACITY \<le> length (buffer_of ?s r)"
      using that by (intro covI(7)) (simp_all add: view)
  qed (auto intro: covI(5))
  have all: "cov ?w ?X r q \<or> eff < q \<and> q \<in> set (pipe w r)"
    if q: "q \<in> replayable w r" and nl: "r \<notin> ww_lost w" for q
  proof (cases already)
    case False
    then have page: "Read_Page r eff None eff \<in> ?X" by (simp add: subscribe_acts_def True)
    show ?thesis
    proof (cases "checkpoint ?s r")
      case None
      then show ?thesis using covI(4) [OF page] covI(1) [of q ?w r] known by (cases "q \<le> n") (auto simp: view)
    next
      case (Some cp)
      then show ?thesis using covI(4) [OF page] covered_below [OF g Some nl q] cov [OF _ Some] known covI(1) [of q ?w r]
        by (cases "q \<le> eff") (auto simp: view max_def split: if_splits)
    qed
  next
    case True
    then have rep: "r \<in> replaying ?s" by (simp add: view)
    then obtain cp where cp: "checkpoint ?s r = Some cp"
      using goodD(3) [OF g] by (auto simp: wbuffer_ok_def)
    show ?thesis
      using deliveryD(1) [OF g cp nl q] cov [OF _ cp] known covI(1) [of q ?w r] rep
      by (cases "q \<le> n") (auto simp: view cp recoverable_def)
  qed
  have marks: "mark Y r i \<or> (i = eff \<or> i = 0) \<and> \<not> already" if "mark ?X r i" for i
    using that unfolding mark_def by (auto simp: subscribe_acts_def split: if_splits)
  have buf: "r \<notin> replaying ?s \<Longrightarrow> buffer_of ?s r = []"
    using goodD(3) [OF g] by (simp add: wbuffer_ok_def)
  show ?thesis
  proof (rule goodI)
    show "wlog_ok ?w r" "pipe_ok ?w r"
      using goodD [OF g] by (simp_all add: wlog_ok_def pipe_ok_def same)
    show "wbuffer_ok (ww_session ?w) r"
      using goodD(3) [OF g] buf by (auto simp: wbuffer_ok_def view)
    show "ends_ok (ww_session ?w) ?X r"
      using goodD(4) [OF g] True by (auto simp: ends_ok_def subscribe_acts_def view)
    show "marks_ok ?w ?X r"
      using goodD(5) [OF g] marks eff_le unfolding marks_ok_def same by blast
    show "subscription_ok ?w r"
    proof -
      have "ww_known ?w r \<le> log_top w r" "ww_base ?w r \<le> length (ww_wire w)"
        using goodD(6) [OF g] n True
        by (auto simp: subscription_ok_def note_subscribe_def split: option.splits)
      then show ?thesis
        using eff_le unfolding subscription_ok_def same by (simp add: view)
    qed
    show "notice_ok ?w ?X r"
      using goodD(7) [OF g] True
      by (auto simp: notice_ok_def view note_subscribe_def opt_filter_def split: option.splits if_splits)
    show "delivery_ok ?w ?X r"
    proof (rule deliveryI)
      fix cp q
      assume "checkpoint (ww_session ?w) r = Some cp" "r \<notin> ww_lost ?w" "q \<in> replayable ?w r"
      then have d: "cp = eff" "r \<notin> ww_lost w" "q \<in> replayable w r"
        by (simp_all add: view same)
      show "cov ?w ?X r q \<or> cp < q \<and> (q \<in> set (pipe ?w r) \<or> recoverable ?w r)"
        using all [OF d(3,2)] d(1) unfolding same by blast
      show "cov ?w ?X r q" if i: "mark ?X r i" "q \<le> i" for i
        using marks [OF i(1)]
      proof
        assume old: "mark Y r i"
        show ?thesis
        proof (cases "checkpoint ?s r")
          case None
          then have "r \<notin> replaying ?s" using goodD(3) [OF g] by (auto simp: wbuffer_ok_def)
          then have page: "Read_Page r eff None eff \<in> ?X" by (simp add: subscribe_acts_def True view)
          show ?thesis using None covI(4) [OF page] covI(1) [of q ?w r] known by (cases "q \<le> n") (auto simp: view)
        next
          case (Some cp)
          show ?thesis using deliveryD(2) [OF g Some d(2,3) old i(2)] cov Some by blast
        qed
      next
        assume "(i = eff \<or> i = 0) \<and> \<not> already"
        then show ?thesis using all [OF d(3,2)] i(2) by auto
      qed
    qed
  qed
qed

lemma good_unsubscribe:
  assumes g: "good w Y r" and run: "on_unsubscribe i k (ww_session w) = (s, acts)"
  shows "good (w\<lparr>ww_session := s, ww_owed := (ww_owed w)(k := None)\<rparr>) (set acts \<union> Y) r" (is "good ?w ?X r")
proof (cases "k = r")
  case False
  have "s = (ww_session w)\<lparr>subscriptions := hm_remove k (subscriptions (ww_session w)),
      replay_buffer := (replay_buffer (ww_session w))(k := None),
      replaying := replaying (ww_session w) - {k},
      full_reload_pending := full_reload_pending (ww_session w) - {k}\<rparr>"
    and acts: "acts = [Send_Frame (Result_Frame i (JObj [(''ok'', JBool True)]))]"
    using run by (simp_all add: on_unsubscribe_def)
  then have "same_view w ?w r"
    using False by (auto simp: same_view_def pipe_def recoverable_def buffer_of_fold) (simp_all add: checkpoint_def buffer_of_def)
  then show ?thesis
    by (rule good_same_view [OF g, where fs = "[]"]) (auto simp: acts)
next
  case True
  have view: "checkpoint s r = None" "buffer_of s r = []" "r \<notin> replaying s" "r \<notin> full_reload_pending s"
    and acts: "acts = [Send_Frame (Result_Frame i (JObj [(''ok'', JBool True)]))]"
    using run True by (auto simp: on_unsubscribe_def)
  have same: "log_top ?w r = log_top w r" "log_seqs ?w r = log_seqs w r"
    by (simp_all add: log_top_def log_seqs_def)
  have pipe: "pipe w r = [] @ map be_seq (buffer_of (ww_session w) r) @ (queue_seqs r (ww_queue w) @ map fst (ww_outbox w r))"
      "pipe ?w r = [] @ (queue_seqs r (ww_queue w) @ map fst (ww_outbox w r))"
    by (simp_all add: pipe_def view)
  have marks: "mark ?X r n = mark Y r n" for n by (simp add: mark_def acts)
  show ?thesis
  proof (rule goodI)
    show "wlog_ok ?w r" "marks_ok ?w ?X r"
      using goodD(1,5) [OF g] by (simp_all add: wlog_ok_def marks_ok_def same marks)
    show "pipe_ok ?w r" by (rule pipe_drop [OF goodD(2) [OF g] pipe same(2)])
    show "wbuffer_ok (ww_session ?w) r" "ends_ok (ww_session ?w) ?X r" "subscription_ok ?w r" "notice_ok ?w ?X r"
      by (simp_all add: wbuffer_ok_def ends_ok_def subscription_ok_def notice_ok_def view True)
    show "delivery_ok ?w ?X r" by (rule deliveryI) (simp_all add: view)
  qed
qed

section \<open>The invariant\<close>

lemma tame_results:
  "(\<And>x. x \<in> set xs \<Longrightarrow> \<exists>i v. x = Send_Frame (Result_Frame i v)) \<Longrightarrow> tame xs"
  by (induction xs) force+

lemma tame_append_sends:
  "(\<And>x. x \<in> set xs \<Longrightarrow> (\<exists>f. x = Send_Frame f) \<or> (\<exists>k n. x = Bump k n)) \<Longrightarrow> tame ys \<Longrightarrow> tame (xs @ ys)"
  by (induction xs) force+

lemma tame_read:
  assumes "tame (Read_Page k ps off l # rest)"
  shows "tame (Read_Page k ps' off' l' # rest)" and "tame rest"
  using assms by simp_all

lemma tame_failed: "tame (replay_failed (Command i) k e rest)"
  by (simp add: replay_failed_def)

lemma tame_page:
  assumes "tame (Read_Page k ps off l # rest)"
  shows "tame (replay_page (Command i) k ps l page rest)"
proof (cases page)
  case (Inl e)
  then show ?thesis by (simp add: replay_page_def tame_failed)
next
  case (Inr p)
  have "tame (replay_page (Command i) k ps l (Inr p) rest)"
    unfolding replay_page_def Let_def sum.case
    by (split if_split; intro conjI impI; (split if_split)?; (intro conjI impI)?; rule tame_append_sends)
       (use assms tame_read [OF assms] tame_failed in auto)
  then show ?thesis by (simp add: Inr)
qed

lemma tame_perform:
  assumes "tame (a # rest)" and "perform (Command i) page a rest w = (w', acts)"
  shows "tame acts"
proof (cases a)
  case (Read_Page k ps off l)
  then show ?thesis using assms(2) tame_page [OF assms(1) [unfolded Read_Page]] by auto
next
  case (Flush k m)
  obtain s acts' where f: "flush_round (Command i) k m rest (ww_session w) = (s, acts')" by fastforce
  then have acts: "acts = acts'" using assms(2) perform_flush [OF f, of page] Flush by simp
  have rest: "tame rest" "tame (Flush k n # rest)" for n using assms(1) Flush by simp_all
  have "tame (map (\<lambda>e. Send_Frame (be_envelope e)) fs @ [Bump k n, Flush k n] @ rest)" for fs n
    by (rule tame_append_sends) (use rest in auto)
  then show ?thesis
    using f rest unfolding acts by (auto simp: flush_round_def Let_def flush_overflowed_def split: if_splits)
next
  case (Reload k)
  obtain s acts' where f: "send_full_reload k rest (ww_session w) = (s, acts')" by fastforce
  then have "acts = acts'" using assms(2) perform_reload [OF f, of "Command i" page] Reload by simp
  then show ?thesis using f assms(1) Reload by (auto simp: send_full_reload_eq)
qed (use assms in auto)

lemma perform_acts_fields:
  assumes "perform who page a rest w = (w', acts)"
  shows "ww_a w' = ww_a w" "ww_c w' = ww_c w"
  using assms by (auto simp: perform_def split: prod.splits)

lemma deliver_fields [simp]:
  "ww_a (deliver cap m w) = ww_a w" "ww_c (deliver cap m w) = ww_c w"
  by (simp_all add: deliver_def split: list.split option.split)

lemma ws_inv_start: "ws_start w \<Longrightarrow> ws_inv w"
  by (auto simp: ws_start_def ws_inv_def good_def wlog_ok_def pipe_ok_def wbuffer_ok_def ends_ok_def
      marks_ok_def subscription_ok_def notice_ok_def delivery_ok_def new_ws_session_def
      checkpoint_def buffer_of_def pipe_def mark_def)

lemma ws_invI:
  "tame (ww_c w) \<Longrightarrow> (\<And>r. good w (set (ww_a w) \<union> set (ww_c w)) r) \<Longrightarrow> ws_inv w"
  by (simp add: ws_inv_def)

lemma ws_inv_step:
  assumes inv: "ws_inv w" and "ws_step cap w w'"
  shows "ws_inv w'"
proof -
  have g: "good w (set (ww_a w) \<union> set (ww_c w)) r" for r
    using inv by (simp add: ws_inv_def)
  have tm: "tame (ww_c w)" using inv by (simp add: ws_inv_def)
  from assms(2) show ?thesis
  proof (cases rule: ws_step.cases)
    case (persist r n ev)
    then show ?thesis using good_persist [OF g] tm by (simp add: ws_inv_def)
  next
    case (broadcast r n ev rest)
    then show ?thesis using good_broadcast [OF g] tm by (simp add: ws_inv_def)
  next
    case (forward m rest s acts)
    have "good (w\<lparr>ww_queue := rest, ww_session := s\<rparr>) (set acts \<union> set (ww_c w)) r" for r
      by (rule good_forward [OF _ forward(4,3,5)]) (use g forward(2) in simp)
    then show ?thesis using tm forward(1) by (intro ws_invI) simp_all
  next
    case (lagged s acts)
    have "good (w\<lparr>ww_lagged := False, ww_session := s\<rparr>) (set acts \<union> set (ww_c w)) r" for r
      by (rule good_lagged [OF _ lagged(4)]) (use g [of r] lagged(2) in simp)
    then show ?thesis using tm lagged(1) by (intro ws_invI) simp_all
  next
    case (act_a a rest page w'' acts)
    have "good w'' (set acts \<union> set (ww_c w)) r" for r
      by (rule good_perform [OF _ act_a(3,4)]) (use g act_a(2) in simp_all)
    then show ?thesis using tm act_a(1) perform_acts_fields [OF act_a(4)] by (intro ws_invI) simp_all
  next
    case (act_c a rest page w'' acts)
    have "good w'' (set acts \<union> set (ww_a w)) r" for r
      by (rule good_perform [OF _ act_c(3,4)]) (use g tm act_c(2) in \<open>simp_all add: Un_commute\<close>)
    moreover have "tame acts"
      using tame_perform [OF _ act_c(4)] tm act_c(2) by simp
    ultimately show ?thesis
      using act_c(1) perform_acts_fields [OF act_c(4)] by (intro ws_invI) (simp_all add: Un_commute)
  next
    case (subscribe n r i s acts)
    obtain already eff where b: "subscribe_begin r n (ww_session w) = (s, already, eff)"
      "acts = subscribe_acts i r already eff"
      using subscribe(4) on_subscribe_acts [OF subscribe(5)] by (auto split: prod.splits)
    have "good ((note_subscribe r n w)\<lparr>ww_session := s\<rparr>) (set acts \<union> set (ww_a w)) k" for k
      unfolding b(2) by (rule good_subscribe [OF _ subscribe(3) b(1)]) (use g [of k] subscribe(2) in simp)
    moreover have "tame acts" by (simp add: b(2) subscribe_acts_def)
    ultimately show ?thesis using subscribe(1) by (intro ws_invI) (simp_all add: Un_commute)
  next
    case (unsubscribe i r s acts)
    have "good (w\<lparr>ww_session := s, ww_owed := (ww_owed w)(r := None)\<rparr>) (set acts \<union> set (ww_a w)) k" for k
      by (rule good_unsubscribe [OF _ unsubscribe(3)]) (use g [of k] unsubscribe(2) in simp)
    moreover have w': "w' = (w\<lparr>ww_session := s, ww_owed := (ww_owed w)(r := None)\<rparr>)\<lparr>ww_c := acts\<rparr>"
      unfolding unsubscribe(1) by (cases w) simp
    moreover have "tame acts" using unsubscribe(3) by (auto simp: on_unsubscribe_def)
    ultimately show ?thesis unfolding w' by (intro ws_invI) (simp_all add: Un_commute)
  next
    case (command acts i v e)
    have "good w (set acts \<union> set (ww_a w)) k" for k
      by (rule good_same_view [OF g, where fs = "[]"]) (use command(2,3) in auto)
    moreover have "tame acts" using command(3) by auto
    ultimately show ?thesis using command(1) by (intro ws_invI) (simp_all add: Un_commute)
  next
    case (realtime m f)
    have "good (w\<lparr>ww_wire := ww_wire w @ [f]\<rparr>) (set (ww_a w) \<union> set (ww_c w)) k" for k
      by (rule good_same_view [OF g, where fs = "[f]"]) (simp_all add: same_view_def pipe_def recoverable_def)
    then show ?thesis using tm realtime(1) by (intro ws_invI) simp_all
  qed
qed

interpretation ws: invariant_system ws_start "ws_step cap" ws_inv for cap
  by unfold_locales (auto intro: ws_inv_start ws_inv_step)

end
