(* ===== verification/Web_Delivery_Props.thy ===== *)
theory Web_Delivery_Props
  imports Web_Delivery_Runs
begin

text \<open>
  What the invariant of a connection says of an idle client: it has every replayable event of the
  runs it subscribed to, or is owed a full reload. Two runs of a connection follow: a client that
  subscribes and gets the log replayed, and one that loses an event because the channel overruns
  while the run is replayed.
\<close>

section \<open>Delivery\<close>

text \<open>Nothing is under way: no message of the run, no action, no unreported overrun.\<close>

definition quiescent :: "ws_world \<Rightarrow> string \<Rightarrow> bool" where
  "quiescent w r =
     (ww_a w = [] \<and> ww_c w = [] \<and> \<not> ww_lagged w \<and> queue_seqs r (ww_queue w) = [] \<and> ww_outbox w r = [])"

text \<open>C22: A client misses nothing: whenever a connection is idle, every replayable event in the log of a
  subscribed run has a number the client said it had, or was sent on this connection since it
  subscribed, or lies within a full reload whose notice was sent and not yet answered - whatever
  way subscriptions, replays, buffering, failed pages, overflows and recovered overruns of the
  channel interleaved, as long as no overrun dropped a message of the run while the run was being
  replayed or reloaded.
\<close>

theorem idle_client_has_all:
  assumes "ws_start w0" and "(ws_step cap)\<^sup>*\<^sup>* w0 w" and "quiescent w r"
    and "checkpoint (ww_session w) r = Some cp" and "r \<notin> ww_lost w"
    and "(q, ev) \<in> set (ww_log w r)" and "is_replayable ev"
  shows "q \<le> ww_known w r \<or> sent w r q \<or>
         (\<exists>n. ww_owed w r = Some n \<and> q \<le> n \<and> Full_Reload_Frame r \<in> set (ww_wire w))"
proof -
  have inv: "ws_inv w" using ws.inv_from_start assms(1,2) by blast
  have idle: "ww_a w = []" "ww_c w = []" "\<not> ww_lagged w" "queue_seqs r (ww_queue w) = []" "ww_outbox w r = []"
    using assms(3) by (simp_all add: quiescent_def)
  have g: "good w {} r" using inv idle by (simp add: ws_inv_def)
  have "q \<in> log_seqs w r" using assms(6) by (force simp: log_seqs_def)
  then have "0 < q" using goodD(1) [OF g] by (auto simp: wlog_ok_def intro: gr0I)
  then have q: "q \<in> replayable w r"
    using assms(6,7) by (force simp: replayable_def replay_seqs_def)
  have "r \<notin> replaying (ww_session w)" using goodD(4) [OF g] by (simp add: ends_ok_def)
  then have "buffer_of (ww_session w) r = []" "pipe w r = []"
    using goodD(3) [OF g] idle by (auto simp: wbuffer_ok_def pipe_def)
  then have "cov w {} r q"
    using deliveryD(1) [OF g assms(4,5) q] idle(3) by (simp add: recoverable_def)
  moreover have "ww_owed w r \<noteq> None \<Longrightarrow> Full_Reload_Frame r \<in> set (ww_wire w)"
    using goodD(7) [OF g] by (simp add: notice_ok_def)
  ultimately show ?thesis
    using \<open>r \<notin> replaying (ww_session w)\<close> by (auto simp: cov_def)
qed

section \<open>A replay\<close>

definition demo_event :: json where
  "demo_event = JObj [(''type'', JStr ''user_message'')]"

definition demo_page :: "nat list \<Rightarrow> string + bus_event_page" where
  "demo_page qs =
     Inr \<lparr>bp_events = map (\<lambda>q. JObj [(''_seq'', jnat q)]) qs,
          bp_last_seq = (if qs = [] then 0 else last qs), bp_has_more = False, bp_next_offset = 0\<rparr>"

definition demo_session :: "nat \<Rightarrow> buffered_event list option \<Rightarrow> string set \<Rightarrow> ws_session" where
  "demo_session cp buf R =
     \<lparr>subscriptions = [(''r'', cp)], replay_buffer = (\<lambda>k. if k = ''r'' then buf else None), replaying = R,
      full_reload_pending = {}\<rparr>"

definition demo_web_world :: "ws_session \<Rightarrow> ws_frame list \<Rightarrow> act list \<Rightarrow> nat list \<Rightarrow> ws_world" where
  "demo_web_world s wire acts qs =
     \<lparr>ww_session = s, ww_wire = wire, ww_a = [], ww_c = acts, ww_origin = None, ww_queue = [],
      ww_lagged = False, ww_log = (\<lambda>k. if k = ''r'' then map (\<lambda>q. (q, demo_event)) qs else []),
      ww_outbox = (\<lambda>_. []), ww_known = (\<lambda>_. 0), ww_base = (\<lambda>_. 0), ww_owed = Map.empty, ww_lost = {}\<rparr>"

definition demo_answer :: act where
  "demo_answer = Send_Frame (Result_Frame None (JObj [(''ok'', JBool True)]))"

lemma demo_replayable [simp]: "is_replayable demo_event"
  by (simp add: demo_event_def is_replayable_def REPLAY_TYPES_def)

lemma demo_step:
  assumes "perform (Command None) page a rest (demo_web_world s wire (a # rest) qs0) =
             (demo_web_world s' wire' (a # rest) qs0, acts)"
    and "act_page_ok (demo_web_world s wire (a # rest) qs0) a page"
  shows "ws_step cap (demo_web_world s wire (a # rest) qs0) (demo_web_world s' wire' acts qs0)"
  using ws_step.act_c [of "demo_web_world s wire (a # rest) qs0" a rest page _ _ cap] assms
  by (simp add: demo_web_world_def)

lemma demo_subscribe:
  "ws_step cap (demo_web_world new_ws_session [] [] qs0)
     (demo_web_world (demo_session 0 (Some []) {''r''}) []
        [Read_Page ''r'' 0 None 0, Flush ''r'' 0, demo_answer] qs0)"
proof -
  let ?w = "demo_web_world new_ws_session [] [] qs0"
  have sub: "on_subscribe None ''r'' 0 (ww_session ?w) =
      (demo_session 0 (Some []) {''r''}, [Read_Page ''r'' 0 None 0, Flush ''r'' 0, demo_answer])"
    by (auto simp: on_subscribe_def subscribe_begin_def demo_web_world_def demo_session_def demo_answer_def
        new_ws_session_def checkpoint_def buffer_of_def hm_insert_def fun_eq_iff)
  have noted: "note_subscribe ''r'' 0 ?w = ?w"
    by (auto simp: note_subscribe_def demo_web_world_def new_ws_session_def checkpoint_def fun_eq_iff)
  show ?thesis
    using ws_step.subscribe [of ?w 0 "''r''", OF _ _ sub, of cap] unfolding noted
    by (simp add: demo_web_world_def)
qed

lemma demo_fields [simp]:
  "checkpoint (demo_session cp b R) ''r'' = Some cp"
  "buffer_of (demo_session cp b R) ''r'' = unwrap_or b []"
  "complete_replay ''r'' n (demo_session cp b R) = demo_session (max cp n) b R"
  "replaying (demo_session cp b R) = R"
  "(demo_session cp b R)\<lparr>replaying := R'\<rparr> = demo_session cp b R'"
  "(demo_session cp b R)\<lparr>replay_buffer := (replay_buffer (demo_session cp b R))(''r'' := b')\<rparr> =
     demo_session cp b' R"
  by (simp_all add: demo_session_def checkpoint_def buffer_of_def complete_replay_def hm_insert_def fun_eq_iff)

lemma demo_web_world_fields [simp]:
  "ww_session (demo_web_world s wire acts qs0) = s" "ww_wire (demo_web_world s wire acts qs0) = wire"
  "(demo_web_world s wire acts qs0)\<lparr>ww_session := s'\<rparr> = demo_web_world s' wire acts qs0"
  "(demo_web_world s wire acts qs0)\<lparr>ww_wire := wire'\<rparr> = demo_web_world s wire' acts qs0"
  "ww_log (demo_web_world s wire acts qs0) ''r'' = map (\<lambda>q. (q, demo_event)) qs0"
  by (simp_all add: demo_web_world_def)

lemma demo_seq [simp]: "event_seq (JObj [(''_seq'', jnat q)]) = q"
  by (simp add: event_seq_def jnat_def)

definition demo_frame :: "nat \<Rightarrow> ws_frame" where
  "demo_frame q = replay_frame ''r'' (JObj [(''_seq'', jnat q)])"

text \<open>From the subscription to the end of the flush.\<close>

lemma demo_replay:
  "(ws_step cap)\<^sup>*\<^sup>* (demo_web_world new_ws_session [] [] [1])
     (demo_web_world (demo_session 1 None {}) [demo_frame 1, Result_Frame None (JObj [(''ok'', JBool True)])] [] [1])"
proof -
  let ?s = "demo_session 0 (Some []) {''r''}" and ?t = "demo_session 1 (Some []) {''r''}"
  let ?rest = "[Flush ''r'' 0, demo_answer]"
  note step = rtranclp.rtrancl_into_rtrancl
  have "(ws_step cap)\<^sup>*\<^sup>* (demo_web_world new_ws_session [] [] [1]) (demo_web_world ?s [] (Read_Page ''r'' 0 None 0 # ?rest) [1])"
    using demo_subscribe [of cap "[1]"] by simp
  then have "(ws_step cap)\<^sup>*\<^sup>* (demo_web_world new_ws_session [] [] [1])
      (demo_web_world ?s [] (Send_Frame (demo_frame 1) # Bump ''r'' 1 # ?rest) [1])"
    by (rule step, intro demo_step [where page = "demo_page [1]"])
       (simp_all add: replay_page_def demo_page_def demo_frame_def act_page_ok_def page_ok_def replay_seqs_def)
  then have "(ws_step cap)\<^sup>*\<^sup>* (demo_web_world new_ws_session [] [] [1])
      (demo_web_world ?s [demo_frame 1] (Bump ''r'' 1 # ?rest) [1])"
    by (rule step, intro demo_step) (simp_all add: act_page_ok_def)
  then have "(ws_step cap)\<^sup>*\<^sup>* (demo_web_world new_ws_session [] [] [1]) (demo_web_world ?t [demo_frame 1] ?rest [1])"
    by (rule step, intro demo_step) (simp_all add: act_page_ok_def)
  then have "(ws_step cap)\<^sup>*\<^sup>* (demo_web_world new_ws_session [] [] [1])
      (demo_web_world (demo_session 1 None {}) [demo_frame 1] [demo_answer] [1])"
    by (rule step, intro demo_step)
       (simp_all add: act_page_ok_def perform_flush flush_round_empty)
  then show ?thesis
    by (rule step, unfold demo_answer_def, intro demo_step) (simp_all add: act_page_ok_def)
qed

lemma demo_starts: "ws_start (demo_web_world new_ws_session [] [] [1])"
  by (auto simp: ws_start_def demo_web_world_def log_seqs_def)

theorem idle_client_has_all_witness:
  "sent (demo_web_world (demo_session 1 None {})
     [demo_frame 1, Result_Frame None (JObj [(''ok'', JBool True)])] [] [1]) ''r'' 1"
  using idle_client_has_all [OF demo_starts demo_replay [of None], of "''r''" 1 1 demo_event]
  by (simp add: quiescent_def demo_web_world_def)

section \<open>An event that is lost\<close>

text \<open>
  The handler of a lag leaves out the runs that are being replayed, although the messages that the
  overrun dropped were not put into their replay buffers: after the flush the checkpoint has passed
  the dropped event, and nothing will send it. The channel holds one message here.
\<close>

definition lost_world :: "ws_session \<Rightarrow> ws_frame list \<Rightarrow> act list \<Rightarrow> broadcast_msg list \<Rightarrow> bool \<Rightarrow>
    nat list \<Rightarrow> nat list \<Rightarrow> string set \<Rightarrow> ws_world" where
  "lost_world s wire acts queue lag qs0 outbox lost =
     (demo_web_world s wire acts qs0)\<lparr>ww_queue := queue, ww_lagged := lag, ww_lost := lost,
        ww_outbox := (\<lambda>k. if k = ''r'' then map (\<lambda>q. (q, demo_event)) outbox else [])\<rparr>"

abbreviation demo_msg :: "nat \<Rightarrow> broadcast_msg" where
  "demo_msg q \<equiv> durable_msg ''r'' q demo_event"

lemma lost_persist:
  assumes "qs0 = [] \<or> last qs0 < q" and "0 < q"
  shows "ws_step cap (lost_world s wire acts queue lag qs0 outbox lost)
           (lost_world s wire acts queue lag (qs0 @ [q]) (outbox @ [q]) lost)"
proof -
  let ?w = "lost_world s wire acts queue lag qs0 outbox lost"
  have "log_top ?w ''r'' < q"
    using assms by (auto simp: log_top_def lost_world_def demo_web_world_def last_map)
  moreover have "?w\<lparr>ww_log := (ww_log ?w)(''r'' := ww_log ?w ''r'' @ [(q, demo_event)]),
      ww_outbox := (ww_outbox ?w)(''r'' := ww_outbox ?w ''r'' @ [(q, demo_event)])\<rparr> =
      lost_world s wire acts queue lag (qs0 @ [q]) (outbox @ [q]) lost"
    by (auto simp: lost_world_def demo_web_world_def fun_eq_iff)
  ultimately show ?thesis by (metis ws_step.persist)
qed

lemma lost_step:
  assumes "perform (Command None) page a rest (lost_world s wire (a # rest) queue lag qs0 outbox lost) =
             (lost_world s' wire' (a # rest) queue lag qs0 outbox lost, acts)"
    and "act_page_ok (lost_world s wire (a # rest) queue lag qs0 outbox lost) a page"
  shows "ws_step cap (lost_world s wire (a # rest) queue lag qs0 outbox lost)
           (lost_world s' wire' acts queue lag qs0 outbox lost)"
  using ws_step.act_c [of "lost_world s wire (a # rest) queue lag qs0 outbox lost" a rest page _ _ cap] assms
  by (simp add: demo_web_world_def lost_world_def)

lemma lost_fields [simp]:
  "ww_session (lost_world s wire acts queue lag qs0 outbox lost) = s"
  "ww_wire (lost_world s wire acts queue lag qs0 outbox lost) = wire"
  "ww_queue (lost_world s wire acts queue lag qs0 outbox lost) = queue"
  "ww_a (lost_world s wire acts queue lag qs0 outbox lost) = []"
  "ww_lagged (lost_world s wire acts queue lag qs0 outbox lost) = lag"
  "(lost_world s wire acts queue lag qs0 outbox lost)\<lparr>ww_session := s'\<rparr> =
     lost_world s' wire acts queue lag qs0 outbox lost"
  "(lost_world s wire acts queue lag qs0 outbox lost)\<lparr>ww_wire := wire'\<rparr> =
     lost_world s wire' acts queue lag qs0 outbox lost"
  by (simp_all add: lost_world_def demo_web_world_def)

lemma lost_broadcast:
  assumes "deliver cap (demo_msg q) (lost_world s wire acts queue lag qs0 outbox lost) =
             lost_world s wire acts queue' lag' qs0 outbox lost'"
  shows "ws_step cap (lost_world s wire acts queue lag qs0 (q # outbox) lost)
           (lost_world s wire acts queue' lag' qs0 outbox lost')"
proof -
  let ?w = "lost_world s wire acts queue lag qs0 (q # outbox) lost"
  have "ww_outbox ?w ''r'' = (q, demo_event) # map (\<lambda>q. (q, demo_event)) outbox"
    by (simp add: lost_world_def demo_web_world_def)
  from ws_step.broadcast [OF this, of cap]
  have "ws_step cap ?w (deliver cap (demo_msg q) (?w\<lparr>ww_outbox := (ww_outbox ?w)(''r'' := map (\<lambda>q. (q, demo_event)) outbox)\<rparr>))" .
  moreover have "?w\<lparr>ww_outbox := (ww_outbox ?w)(''r'' := map (\<lambda>q. (q, demo_event)) outbox)\<rparr> =
      lost_world s wire acts queue lag qs0 outbox lost"
    by (auto simp: lost_world_def demo_web_world_def fun_eq_iff)
  ultimately show ?thesis using assms by simp
qed

definition buffered :: "nat \<Rightarrow> buffered_event" where
  "buffered q = \<lparr>be_envelope = live_frame (demo_msg q) ''r'' q, be_seq = q\<rparr>"

definition lost_end :: ws_world where
  "lost_end = lost_world (demo_session 2 None {})
     [live_frame (demo_msg 2) ''r'' 2, Result_Frame None (JObj [(''ok'', JBool True)])] [] [] False [1, 2] [] {''r''}"

lemma demo_is_lost: "demo_web_world s wire acts qs0 = lost_world s wire acts [] False qs0 [] {}"
  by (simp add: lost_world_def demo_web_world_def fun_eq_iff)

text \<open>Until the overrun.\<close>

lemma overrun_reached:
  "(ws_step (Some 1))\<^sup>*\<^sup>* (demo_web_world new_ws_session [] [] [])
     (lost_world (demo_session 0 (Some []) {''r''}) [] [Bump ''r'' 0, Flush ''r'' 0, demo_answer]
        [demo_msg 2] True [1, 2] [] {''r''})"
proof -
  let ?s = "demo_session 0 (Some []) {''r''}" and ?acts = "[Bump ''r'' 0, Flush ''r'' 0, demo_answer]"
  note step = rtranclp.rtrancl_into_rtrancl
  let ?R = "\<lambda>w. (ws_step (Some 1))\<^sup>*\<^sup>* (demo_web_world new_ws_session [] [] []) w"
  have "?R (demo_web_world ?s [] [Read_Page ''r'' 0 None 0, Flush ''r'' 0, demo_answer] [])"
    using demo_subscribe [of "Some 1" "[]"] by simp
  then have "?R (demo_web_world ?s [] ?acts [])"
    by (rule step, intro demo_step [where page = "demo_page []"])
       (simp_all add: replay_page_def demo_page_def act_page_ok_def page_ok_def replay_seqs_def)
  then have "?R (lost_world ?s [] ?acts [] False ([] @ [1]) ([] @ [1]) {})"
    unfolding demo_is_lost by (rule step, intro lost_persist) simp_all
  then have "?R (lost_world ?s [] ?acts [] False [1] [1] {})" by simp
  then have "?R (lost_world ?s [] ?acts [demo_msg 1] False [1] [] {})"
    by (rule step, intro lost_broadcast) (simp add: deliver_def lost_world_def demo_web_world_def)
  then have "?R (lost_world ?s [] ?acts [demo_msg 1] False ([1] @ [2]) ([] @ [2]) {})"
    by (rule step, intro lost_persist) simp_all
  then have "?R (lost_world ?s [] ?acts [demo_msg 1] False [1, 2] [2] {})" by simp
  then show ?thesis
    by (rule step, intro lost_broadcast)
       (simp add: deliver_def msg_lost_def, simp add: lost_world_def demo_web_world_def)
qed

text \<open>The lag is handled, the second event is buffered, and the flush ends the replay.\<close>

lemma lost_reached:
  "(ws_step (Some 1))\<^sup>*\<^sup>*
     (lost_world (demo_session 0 (Some []) {''r''}) [] [Bump ''r'' 0, Flush ''r'' 0, demo_answer]
        [demo_msg 2] True [1, 2] [] {''r''}) lost_end"
proof -
  let ?s = "\<lambda>n b. demo_session n b {''r''}" and ?f = "live_frame (demo_msg 2) ''r'' 2"
  let ?start = "lost_world (?s 0 (Some [])) [] [Bump ''r'' 0, Flush ''r'' 0, demo_answer]
                  [demo_msg 2] True [1, 2] [] {''r''}"
  let ?W = "\<lambda>s wire acts q lag. lost_world s wire acts q lag [1, 2] [] {''r''}"
  let ?R = "\<lambda>w. (ws_step (Some 1))\<^sup>*\<^sup>* ?start w"
  note step = rtranclp.rtrancl_into_rtrancl
  have "lag_catchup (?s 0 (Some [])) = (?s 0 (Some []), [])"
    by (simp add: lag_catchup_def demo_session_def)
  then have "ws_step (Some 1) ?start (?W (?s 0 (Some [])) [] [Bump ''r'' 0, Flush ''r'' 0, demo_answer] [demo_msg 2] False)"
    using ws_step.lagged [of ?start "?s 0 (Some [])" "[]" "Some 1"]
    by (simp add: lost_world_def demo_web_world_def)
  then have a: "?R (?W (?s 0 (Some [])) [] [Bump ''r'' 0, Flush ''r'' 0, demo_answer] [demo_msg 2] False)" by simp
  have "forward_a (demo_msg 2) (?s 0 (Some [])) = (?s 0 (Some [buffered 2]), [])"
    by (simp add: forward_a_def Let_def REPLAY_BUFFER_CAPACITY_def buffered_def)
  then have "ws_step (Some 1) (?W (?s 0 (Some [])) [] [Bump ''r'' 0, Flush ''r'' 0, demo_answer] [demo_msg 2] False)
      (?W (?s 0 (Some [buffered 2])) [] [Bump ''r'' 0, Flush ''r'' 0, demo_answer] [] False)"
    using ws_step.forward [of "?W (?s 0 (Some [])) [] [Bump ''r'' 0, Flush ''r'' 0, demo_answer] [demo_msg 2] False"
        "demo_msg 2" "[]" "?s 0 (Some [buffered 2])" "[]" "Some 1"]
    by (simp add: lost_world_def demo_web_world_def)
  then have "?R (?W (?s 0 (Some [buffered 2])) [] [Bump ''r'' 0, Flush ''r'' 0, demo_answer] [] False)"
    using a by (rule step [rotated])
  then have "?R (?W (?s 0 (Some [buffered 2])) [] [Flush ''r'' 0, demo_answer] [] False)"
    by (rule step, intro lost_step) (simp_all add: act_page_ok_def)
  then have "?R (?W (?s 0 None) [] [Send_Frame ?f, Bump ''r'' 2, Flush ''r'' 2, demo_answer] [] False)"
    by (rule step, intro lost_step)
       (simp_all add: act_page_ok_def perform_flush flush_round_batch REPLAY_BUFFER_CAPACITY_def
          flush_fresh_def flush_max_def buffered_def)
  then have "?R (?W (?s 0 None) [?f] [Bump ''r'' 2, Flush ''r'' 2, demo_answer] [] False)"
    by (rule step, intro lost_step) (simp_all add: act_page_ok_def)
  then have "?R (?W (?s 2 None) [?f] [Flush ''r'' 2, demo_answer] [] False)"
    by (rule step, intro lost_step) (simp_all add: act_page_ok_def)
  then have "?R (?W (demo_session 2 None {}) [?f] [demo_answer] [] False)"
    by (rule step, intro lost_step) (simp_all add: act_page_ok_def perform_flush flush_round_empty)
  then show ?thesis
    unfolding lost_end_def
    by (rule step, unfold demo_answer_def, intro lost_step) (simp_all add: act_page_ok_def)
qed

theorem overrun_during_replay_loses_event:
  "\<exists>w0 w. ws_start w0 \<and> (ws_step (Some 1))\<^sup>*\<^sup>* w0 w \<and> quiescent w ''r'' \<and>
     checkpoint (ww_session w) ''r'' = Some 2 \<and> (1, demo_event) \<in> set (ww_log w ''r'') \<and>
     \<not> sent w ''r'' 1 \<and> ww_known w ''r'' = 0 \<and> ww_owed w ''r'' = None"
proof (rule exI [of _ "demo_web_world new_ws_session [] [] []"], rule exI [of _ lost_end], intro conjI)
  show "ws_start (demo_web_world new_ws_session [] [] [])"
    by (auto simp: ws_start_def demo_web_world_def log_seqs_def)
  show "(ws_step (Some 1))\<^sup>*\<^sup>* (demo_web_world new_ws_session [] [] []) lost_end"
    using overrun_reached lost_reached by (rule rtranclp_trans)
qed (simp_all add: lost_end_def quiescent_def sent_def lost_world_def demo_web_world_def live_frame_def
       demo_session_def checkpoint_def)

end
