(* ===== verification/History_Types.thy ===== *)
theory History_Types
  imports Event_Pages
begin

text \<open>
  The history projection (\<open>src-tauri/src/storage/history.rs\<close>) folds the event log of a run into
  pages of entries. This theory holds its limits, its data, the text spools and the stored
  content.

  A file operation of a build takes its outcome from the environment: \<open>he_fault n\<close> is the error of
  the n-th operation, if it fails. Any error ends the build, and the directory it leaves behind is
  removed by the next clean-up, so a failing operation returns the error only. What is written is
  kept as bytes: pages in the timeline that owns their directory, content in \<open>fs_blobs\<close>. The hash
  (SHA-256, in hex) and the JSON crate are parameters. The text of an error leaves out the paths.
\<close>

section \<open>Limits\<close>

definition FORMAT_VERSION :: nat where "FORMAT_VERSION = 1"
definition BUILDER_VERSION :: nat where "BUILDER_VERSION = 9"
definition PAGE_ENTRY_LIMIT :: nat where "PAGE_ENTRY_LIMIT = 100"
definition PAGE_BYTE_LIMIT :: nat where "PAGE_BYTE_LIMIT = 1024 * 1024"
definition ENTRY_BYTE_LIMIT :: nat where "ENTRY_BYTE_LIMIT = 256 * 1024"
definition CONTENT_INLINE_LIMIT :: nat where "CONTENT_INLINE_LIMIT = 64 * 1024"
definition CONTENT_CHUNK_LIMIT :: nat where "CONTENT_CHUNK_LIMIT = 256 * 1024"
definition PARSE_LINE_LIMIT :: nat where "PARSE_LINE_LIMIT = 2 * 1024 * 1024"
definition PREVIEW_HEAD_BYTES :: nat where "PREVIEW_HEAD_BYTES = 24 * 1024"
definition PREVIEW_TAIL_BYTES :: nat where "PREVIEW_TAIL_BYTES = 8 * 1024"
definition MAX_OPEN_TOOLS :: nat where "MAX_OPEN_TOOLS = 256"
definition MAX_SUBHISTORIES :: nat where "MAX_SUBHISTORIES = 1024"
definition MAX_PENDING_INTERACTIONS :: nat where "MAX_PENDING_INTERACTIONS = 64"
definition MAX_JSON_NESTING_DEPTH :: nat where "MAX_JSON_NESTING_DEPTH = 512"
definition CATCHUP_REBUILD_BYTES :: nat where "CATCHUP_REBUILD_BYTES = 512 * 1024"
definition MAX_JSON_SCALAR_BYTES :: nat where "MAX_JSON_SCALAR_BYTES = 64 * 1024"

section \<open>Entries\<close>

record history_content =
  hc_preview :: string
  hc_byte_length :: nat
  hc_truncated :: bool
  hc_content_id :: "string option"
  hc_encoding :: string

text \<open>The fields every kind of entry has, and those only a tool has.\<close>

record entry_base =
  eb_id :: string
  eb_anchor_id :: string
  eb_ts :: string
  eb_first_seq :: nat
  eb_last_seq :: nat

record tool_fields =
  tf_tool_use_id :: string
  tf_tool_name :: string
  tf_status :: string
  tf_input :: json
  tf_output :: json
  tf_tool_use_result :: "json option"
  tf_input_content :: "history_content option"
  tf_output_content :: "history_content option"
  tf_result_content :: "history_content option"
  tf_duration_ms :: "nat option"
  tf_sub_history_id :: "string option"

datatype (plugins only: code size) history_entry =
    User_Entry entry_base history_content "string option" "json list"
  | Assistant_Entry entry_base history_content "history_content option" "string option"
  | Tool_Entry entry_base tool_fields
  | Command_Entry entry_base history_content
  | Placeholder_Entry entry_base history_content

fun entry_base_of :: "history_entry \<Rightarrow> entry_base" where
  "entry_base_of (User_Entry b _ _ _) = b"
| "entry_base_of (Assistant_Entry b _ _ _) = b"
| "entry_base_of (Tool_Entry b _) = b"
| "entry_base_of (Command_Entry b _) = b"
| "entry_base_of (Placeholder_Entry b _) = b"

definition entry_last_seq :: "history_entry \<Rightarrow> nat" where
  "entry_last_seq x = eb_last_seq (entry_base_of x)"

definition entry_first_seq :: "history_entry \<Rightarrow> nat" where
  "entry_first_seq x = eb_first_seq (entry_base_of x)"

abbreviation entry_id :: "history_entry \<Rightarrow> string" where
  "entry_id x \<equiv> eb_id (entry_base_of x)"

text \<open>An entry whose id is its anchor.\<close>

definition base_at :: "string \<Rightarrow> string \<Rightarrow> nat \<Rightarrow> nat \<Rightarrow> entry_base" where
  "base_at i ts first_seq last_seq =
     \<lparr>eb_id = i, eb_anchor_id = i, eb_ts = ts, eb_first_seq = first_seq, eb_last_seq = last_seq\<rparr>"

lemma base_at_sel [simp]:
  "eb_id (base_at i ts a b) = i" "eb_anchor_id (base_at i ts a b) = i"
  "eb_first_seq (base_at i ts a b) = a" "eb_last_seq (base_at i ts a b) = b"
  by (simp_all add: base_at_def)

section \<open>Results and file operations\<close>

definition and_then :: "string + 'a \<Rightarrow> ('a \<Rightarrow> string + 'b) \<Rightarrow> string + 'b" where
  "and_then r f = (case r of Inl e \<Rightarrow> Inl e | Inr x \<Rightarrow> f x)"

lemma and_then_simps [simp]:
  "and_then (Inl e) f = Inl e" "and_then (Inr x) f = f x"
  by (simp_all add: and_then_def)

lemma and_then_Inr_iff: "and_then r f = Inr y \<longleftrightarrow> (\<exists>x. r = Inr x \<and> f x = Inr y)"
  by (cases r) auto

lemma and_then_InrE:
  assumes "and_then r f = Inr y"
  obtains x where "r = Inr x" and "f x = Inr y"
  using assms by (auto simp: and_then_Inr_iff)

lemma and_then_pairE:
  assumes "and_then r (\<lambda>(x, y). f x y) = Inr z"
  obtains x y where "r = Inr (x, y)" and "f x y = Inr z"
  using assms by (cases r) auto

lemma if_InrE:
  assumes "(if b then x else y) = Inr z"
  obtains "b" and "x = Inr z" | "\<not> b" and "y = Inr z"
  using assms by (cases b) auto

lemma and_then_assoc: "and_then (and_then r f) g = and_then r (\<lambda>x. and_then (f x) g)"
  by (cases r) auto

lemma and_then_cong [fundef_cong]:
  "r = r' \<Longrightarrow> (\<And>x. r' = Inr x \<Longrightarrow> f x = f' x) \<Longrightarrow> and_then r f = and_then r' f'"
  by (cases r') auto

text \<open>\<open>ok_or\<close>: an option as a result.\<close>

definition ok_or :: "'a option \<Rightarrow> string \<Rightarrow> string + 'a" where
  "ok_or v e = (case v of None \<Rightarrow> Inl e | Some x \<Rightarrow> Inr x)"

lemma ok_or_simps [simp]: "ok_or None e = Inl e" "ok_or (Some x) e = Inr x"
  by (simp_all add: ok_or_def)

record hist_env =
  he_codec :: codec
  he_sha :: "string \<Rightarrow> string"
  he_entry :: "history_entry \<Rightarrow> string"
  he_entries :: "string \<Rightarrow> string + history_entry list"
  he_fault :: "nat \<Rightarrow> string option"

record hist_fs =
  fs_ops :: nat
  fs_blobs :: "string \<Rightarrow> string option"

definition file_op :: "hist_env \<Rightarrow> string \<Rightarrow> hist_fs \<Rightarrow> string + hist_fs" where
  "file_op e what fs =
     (case he_fault e (fs_ops fs) of
        Some err \<Rightarrow> Inl (what @ err)
      | None \<Rightarrow> Inr (fs\<lparr>fs_ops := Suc (fs_ops fs)\<rparr>))"

lemma file_op_blobs: "file_op e what fs = Inr fs' \<Longrightarrow> fs_blobs fs' = fs_blobs fs"
  by (auto simp: file_op_def split: option.splits)

definition put_blob :: "string \<Rightarrow> string \<Rightarrow> hist_fs \<Rightarrow> hist_fs" where
  "put_blob i bytes fs = fs\<lparr>fs_blobs := (fs_blobs fs)(i \<mapsto> bytes)\<rparr>"

lemma put_blob_sel [simp]: "fs_blobs (put_blob i b fs) = (fs_blobs fs)(i \<mapsto> b)"
  by (simp add: put_blob_def)

section \<open>Character boundaries\<close>

text \<open>\<open>str::floor\_char\_boundary\<close> and \<open>str::ceil\_char\_boundary\<close>.\<close>

fun boundary_below :: "string \<Rightarrow> nat \<Rightarrow> nat" where
  "boundary_below s 0 = 0"
| "boundary_below s (Suc i) = (if is_char_boundary s (Suc i) then Suc i else boundary_below s i)"

definition floor_char_boundary :: "string \<Rightarrow> nat \<Rightarrow> nat" where
  "floor_char_boundary s i = (if length s \<le> i then length s else boundary_below s i)"

definition ceil_char_boundary :: "string \<Rightarrow> nat \<Rightarrow> nat" where
  "ceil_char_boundary s i =
     (if length s < i then length s
      else i + length (takeWhile is_cont_byte (if i = 0 then [] else drop i s)))"

definition safe_utf8_prefix :: "string \<Rightarrow> nat \<Rightarrow> string" where
  "safe_utf8_prefix s m = take (floor_char_boundary s (min m (length s))) s"

definition safe_utf8_suffix :: "string \<Rightarrow> nat \<Rightarrow> string" where
  "safe_utf8_suffix s m = drop (ceil_char_boundary s (length s - m)) s"

lemma boundary_below_le: "boundary_below s i \<le> i"
  by (induction s i rule: boundary_below.induct) auto

lemma floor_char_boundary_le: "floor_char_boundary s i \<le> length s" "floor_char_boundary s i \<le> i \<or> length s \<le> i"
  using boundary_below_le [of s i] by (auto simp: floor_char_boundary_def)

lemma ceil_char_boundary_le: "ceil_char_boundary s i \<le> length s"
proof -
  have "length (takeWhile is_cont_byte (drop i s)) \<le> length s - i"
    using length_takeWhile_le [of is_cont_byte "drop i s"] by simp
  then show ?thesis by (auto simp: ceil_char_boundary_def)
qed

lemma safe_utf8_prefix_length: "length (safe_utf8_prefix s m) \<le> m"
  using floor_char_boundary_le [of s "min m (length s)"] by (auto simp: safe_utf8_prefix_def)

end
