(* ===== verification/History_Content.thy ===== *)
theory History_Content
  imports History_Types
begin

text \<open>
  Text of any length in the history projection (\<open>storage/history.rs\<close>): a spool collects streamed
  text in memory and moves it to a file when it grows; text too long for an entry is stored as a
  blob, and the entry keeps a preview and the blob's identifier. A spool that has moved to a file
  carries the bytes of the file. A single read of a regular file is taken to fill the buffer as far
  as the file reaches.
\<close>

section \<open>Spools\<close>

record spool =
  sp_inline :: string
  sp_file :: "string option"
  sp_byte_length :: nat

definition spool_new :: spool where
  "spool_new = \<lparr>sp_inline = [], sp_file = None, sp_byte_length = 0\<rparr>"

definition spool_is_empty :: "spool \<Rightarrow> bool" where
  "spool_is_empty s = (sp_byte_length s = 0)"

definition spool_append :: "hist_env \<Rightarrow> string \<Rightarrow> spool \<Rightarrow> hist_fs \<Rightarrow> string + spool \<times> hist_fs" where
  "spool_append e value s fs =
     (if value = [] then Inr (s, fs)
      else if sp_file s = None \<and> length (sp_inline s) + length value \<le> CONTENT_INLINE_LIMIT then
        Inr (s\<lparr>sp_inline := sp_inline s @ value, sp_byte_length := sp_byte_length s + length value\<rparr>, fs)
      else
        and_then
          (case sp_file s of
             Some bytes \<Rightarrow> Inr (s, bytes, fs)
           | None \<Rightarrow>
               and_then (file_op e ''create history spool: '' fs) (\<lambda>fs.
               and_then (file_op e ''write history spool: '' fs) (\<lambda>fs.
                 Inr (s\<lparr>sp_inline := []\<rparr>, sp_inline s, fs))))
          (\<lambda>(s, bytes, fs).
             and_then (file_op e ''append history spool: '' fs) (\<lambda>fs.
               Inr (s\<lparr>sp_file := Some (bytes @ value),
                      sp_byte_length := sp_byte_length s + length value\<rparr>, fs))))"

definition spool_discard :: "hist_env \<Rightarrow> spool \<Rightarrow> hist_fs \<Rightarrow> string + spool \<times> hist_fs" where
  "spool_discard e s fs =
     and_then (file_op e ''remove history spool: '' fs) (\<lambda>fs. Inr (spool_new, fs))"

definition spool_text :: "spool \<Rightarrow> string" where
  "spool_text s = unwrap_or (sp_file s) (sp_inline s)"

definition spool_ok :: "spool \<Rightarrow> bool" where
  "spool_ok s =
     (sp_byte_length s = length (spool_text s) \<and>
      (sp_file s = None \<longrightarrow> length (sp_inline s) \<le> CONTENT_INLINE_LIMIT) \<and>
      (sp_file s \<noteq> None \<longrightarrow> sp_inline s = [] \<and> CONTENT_INLINE_LIMIT < sp_byte_length s))"

lemma spool_new_ok [simp]: "spool_ok spool_new" "spool_text spool_new = []" "spool_is_empty spool_new"
  by (simp_all add: spool_ok_def spool_new_def spool_text_def spool_is_empty_def)

lemma spool_append_ok:
  assumes "spool_append e v s fs = Inr (s', fs')" and "spool_ok s"
  shows "spool_ok s'" and "spool_text s' = spool_text s @ v" and "fs_blobs fs' = fs_blobs fs"
  using assms
  by (auto simp: spool_append_def spool_ok_def spool_text_def and_then_Inr_iff file_op_blobs
      split: if_splits option.splits)

lemma spool_is_empty_iff: "spool_ok s \<Longrightarrow> spool_is_empty s \<longleftrightarrow> spool_text s = []"
  by (simp add: spool_ok_def spool_is_empty_def)

section \<open>Stored content\<close>

definition ellipsis :: string where
  "ellipsis = [CHR 0xE2, CHR 0x80, CHR 0xA6]"

definition preview_text :: "string \<Rightarrow> nat \<Rightarrow> string \<Rightarrow> string" where
  "preview_text head omitted tail =
     head @ nl # ellipsis @ '' '' @ show_nat omitted @ '' bytes omitted '' @ ellipsis @ nl # tail"

definition preview_file :: "hist_env \<Rightarrow> string \<Rightarrow> nat \<Rightarrow> hist_fs \<Rightarrow> string + string \<times> hist_fs" where
  "preview_file e bytes byte_length fs =
     and_then (file_op e ''open history content preview: '' fs) (\<lambda>fs.
     and_then (file_op e ''read history content preview: '' fs) (\<lambda>fs.
     and_then (file_op e ''seek history content preview: '' fs) (\<lambda>fs.
     and_then (file_op e ''read history content preview: '' fs) (\<lambda>fs.
       (let head = safe_utf8_prefix (utf8_lossy (take (PREVIEW_HEAD_BYTES + 4) bytes)) PREVIEW_HEAD_BYTES;
            tail_offset = byte_length - (PREVIEW_TAIL_BYTES + 4);
            tail = safe_utf8_suffix (utf8_lossy (drop tail_offset bytes)) PREVIEW_TAIL_BYTES
        in Inr (preview_text head (byte_length - (length head + length tail)) tail, fs))))))"

text \<open>\<open>sanitize\_id\<close> is the hash \<open>he_sha\<close>.\<close>

definition content_id :: "hist_env \<Rightarrow> string \<Rightarrow> string \<Rightarrow> string \<Rightarrow> string" where
  "content_id e run_id generation_id key =
     he_sha e (run_id @ '':'' @ generation_id @ '':'' @ key)"

definition inline_content :: "string \<Rightarrow> history_content" where
  "inline_content value =
     \<lparr>hc_preview = value, hc_byte_length = length value, hc_truncated = False,
      hc_content_id = None, hc_encoding = ''text''\<rparr>"

definition stored_content :: "string \<Rightarrow> nat \<Rightarrow> string \<Rightarrow> string \<Rightarrow> history_content" where
  "stored_content preview n i encoding =
     \<lparr>hc_preview = preview, hc_byte_length = n, hc_truncated = True, hc_content_id = Some i,
      hc_encoding = encoding\<rparr>"

definition content_from_text ::
  "hist_env \<Rightarrow> string \<Rightarrow> string \<Rightarrow> string \<Rightarrow> string \<Rightarrow> hist_fs \<Rightarrow> string + history_content \<times> hist_fs" where
  "content_from_text e run_id generation_id key value fs =
     (if length value \<le> CONTENT_INLINE_LIMIT then Inr (inline_content value, fs)
      else
        (let i = content_id e run_id generation_id key in
         and_then (file_op e ''write history content: '' fs) (\<lambda>fs.
           (let head = safe_utf8_prefix value PREVIEW_HEAD_BYTES;
                tail_start = max (ceil_char_boundary value (length value - PREVIEW_TAIL_BYTES)) (length head)
            in Inr (stored_content
                      (preview_text head (tail_start - length head) (drop tail_start value))
                      (length value) i ''text'',
                    put_blob i value fs)))))"

definition content_from_spool ::
  "hist_env \<Rightarrow> string \<Rightarrow> string \<Rightarrow> string \<Rightarrow> spool \<Rightarrow> hist_fs \<Rightarrow> string + history_content \<times> hist_fs" where
  "content_from_spool e run_id generation_id key s fs =
     (case sp_file s of
        None \<Rightarrow> content_from_text e run_id generation_id key (sp_inline s) fs
      | Some bytes \<Rightarrow>
          and_then (file_op e ''flush history spool: '' fs) (\<lambda>fs.
          and_then (file_op e ''sync history spool: '' fs) (\<lambda>fs.
          and_then (file_op e ''publish history spool: '' fs) (\<lambda>fs.
            (let i = content_id e run_id generation_id key in
             and_then (preview_file e bytes (sp_byte_length s) (put_blob i bytes fs)) (\<lambda>(preview, fs).
               Inr (stored_content preview (sp_byte_length s) i ''text'', fs)))))))"

definition publish_external_content ::
  "hist_env \<Rightarrow> string \<Rightarrow> string \<Rightarrow> string \<Rightarrow> string \<Rightarrow> nat \<Rightarrow> hist_fs \<Rightarrow> string + history_content \<times> hist_fs" where
  "publish_external_content e run_id generation_id key bytes byte_length fs =
     (let i = content_id e run_id generation_id key in
      and_then (file_op e ''publish history content: '' fs) (\<lambda>fs.
      and_then (preview_file e bytes byte_length (put_blob i bytes fs)) (\<lambda>(preview, fs).
        Inr (stored_content preview byte_length i ''json'', fs))))"

definition truncated_json :: "string \<Rightarrow> json" where
  "truncated_json preview = JObj [(''_truncated'', JBool True), (''preview'', JStr preview)]"

definition bounded_json ::
  "hist_env \<Rightarrow> string \<Rightarrow> string \<Rightarrow> string \<Rightarrow> json \<Rightarrow> hist_fs \<Rightarrow>
     string + (json \<times> history_content option) \<times> hist_fs" where
  "bounded_json e run_id generation_id key value fs =
     (let encoded = jc_text (he_codec e) value in
      if length encoded \<le> CONTENT_INLINE_LIMIT then Inr ((value, None), fs)
      else
        (let i = content_id e run_id generation_id key in
         and_then (file_op e ''write history json content: '' fs) (\<lambda>fs.
           (let preview = safe_utf8_prefix (utf8_lossy encoded) PREVIEW_HEAD_BYTES
            in Inr ((truncated_json preview, Some (stored_content preview (length encoded) i ''json'')),
                    put_blob i encoded fs)))))"

definition bounded_json_spool ::
  "hist_env \<Rightarrow> string \<Rightarrow> string \<Rightarrow> string \<Rightarrow> spool \<Rightarrow> hist_fs \<Rightarrow>
     string + (json \<times> history_content option) \<times> hist_fs" where
  "bounded_json_spool e run_id generation_id key s fs =
     (if sp_file s = None then
        and_then (ok_or (jc_parse (he_codec e) (sp_inline s)) ''parse extracted oversized JSON value'')
          (\<lambda>value. Inr ((value, None), fs))
      else
        and_then (content_from_spool e run_id generation_id key s fs) (\<lambda>(content, fs).
          Inr ((truncated_json (hc_preview content), Some (content\<lparr>hc_encoding := ''json''\<rparr>)), fs)))"

text \<open>The bytes a piece of content stands for.\<close>

definition content_bytes :: "history_content \<Rightarrow> hist_fs \<Rightarrow> string option" where
  "content_bytes c fs =
     (case hc_content_id c of None \<Rightarrow> Some (hc_preview c) | Some i \<Rightarrow> fs_blobs fs i)"

lemma preview_file_blobs: "preview_file e b n fs = Inr (p, fs') \<Longrightarrow> fs_blobs fs' = fs_blobs fs"
  by (auto simp: preview_file_def and_then_Inr_iff file_op_blobs Let_def)

lemma text_content_bytes:
  assumes "content_from_text e run gen key value fs = Inr (c, fs')"
  shows "content_bytes c fs' = Some value" and "hc_byte_length c = length value"
    and "hc_truncated c = (CONTENT_INLINE_LIMIT < length value)"
  using assms
  by (auto simp: content_from_text_def content_bytes_def inline_content_def stored_content_def
      and_then_Inr_iff Let_def split: if_splits)

lemma spool_content_bytes:
  assumes "content_from_spool e run gen key s fs = Inr (c, fs')" and "spool_ok s"
  shows "content_bytes c fs' = Some (spool_text s)" and "hc_byte_length c = length (spool_text s)"
    and "hc_truncated c = (CONTENT_INLINE_LIMIT < length (spool_text s))"
proof -
  show "content_bytes c fs' = Some (spool_text s)"
  proof (cases "sp_file s")
    case None
    with assms(1) have "content_from_text e run gen key (sp_inline s) fs = Inr (c, fs')"
      by (simp add: content_from_spool_def)
    with None text_content_bytes(1) show ?thesis by (simp add: spool_text_def)
  next
    case (Some bytes)
    with assms(1) show ?thesis
      by (auto simp: content_from_spool_def content_bytes_def stored_content_def spool_text_def
          and_then_Inr_iff preview_file_blobs Let_def)
  qed
  show "hc_byte_length c = length (spool_text s)"
    using assms text_content_bytes(2)
    by (auto simp: content_from_spool_def stored_content_def spool_text_def spool_ok_def
        and_then_Inr_iff Let_def split: option.splits)
  show "hc_truncated c = (CONTENT_INLINE_LIMIT < length (spool_text s))"
    using assms text_content_bytes(3)
    by (auto simp: content_from_spool_def stored_content_def spool_text_def spool_ok_def
        and_then_Inr_iff Let_def split: option.splits)
qed

end
