(* ===== verification/History_Timeline.thy ===== *)
theory History_Timeline
  imports History_Content
begin

text \<open>
  A timeline of the history projection (\<open>storage/history.rs\<close>): the page under construction, the
  pages written, the streams of the message in progress and the open tools. The source keeps these
  fields twice, in \<open>BuildState\<close> for the main conversation and in \<open>SubHistoryState\<close> for a sub-agent,
  and has the code that works on them twice; here both extend the record \<open>timeline\<close> and share its
  operations, with what differs (how an entry is pushed, the names of identifiers and content) as
  arguments. A spool's path has no field: a file operation that collides is one that fails.
\<close>

record open_tool =
  ot_page_number :: nat
  ot_input_stream :: "spool option"
  ot_output_stream :: "spool option"

record timeline =
  tl_run_id :: string
  tl_generation_id :: string
  tl_page :: "history_entry list"
  tl_page_bytes :: nat
  tl_page_count :: nat
  tl_last_seq :: nat
  tl_message :: spool
  tl_message_seq :: "nat option"
  tl_thinking :: spool
  tl_thinking_seq :: "nat option"
  tl_open_tools :: "(string \<times> open_tool) list"
  tl_pages :: "nat \<Rightarrow> string option"

type_synonym 'a pusher =
  "'a timeline_scheme \<Rightarrow> history_entry \<Rightarrow> hist_fs \<Rightarrow> string + 'a timeline_scheme \<times> hist_fs"

section \<open>Pages\<close>

definition page_body :: "hist_env \<Rightarrow> history_entry list \<Rightarrow> string" where
  "page_body e xs = ''['' @ str_join '','' (map (he_entry e) xs) @ '']''"

definition flush_entries_page ::
  "hist_env \<Rightarrow> 'a timeline_scheme \<Rightarrow> hist_fs \<Rightarrow> string + 'a timeline_scheme \<times> hist_fs" where
  "flush_entries_page e t fs =
     (if tl_page t = [] then Inr (t, fs)
      else
        (let n = tl_page_count t + 1; body = page_body e (tl_page t) in
         if PAGE_BYTE_LIMIT < length body
         then Inl (''history page exceeds hard limit: '' @ show_nat (length body))
         else and_then (file_op e ''write page: '' fs) (\<lambda>fs.
                Inr (t\<lparr>tl_page := [], tl_page_bytes := 2, tl_page_count := n,
                       tl_pages := (tl_pages t)(n \<mapsto> body)\<rparr>, fs))))"

fun is_tool :: "string \<Rightarrow> history_entry \<Rightarrow> bool" where
  "is_tool i (Tool_Entry b f) = (tf_tool_use_id f = i)"
| "is_tool i _ = False"

fun update_first_tool ::
  "string \<Rightarrow> (history_entry \<Rightarrow> history_entry) \<Rightarrow> history_entry list \<Rightarrow> history_entry list option" where
  "update_first_tool i f [] = None"
| "update_first_tool i f (x # xs) =
     (if is_tool i x then Some (f x # xs) else map_option ((#) x) (update_first_tool i f xs))"

definition update_tool_page ::
  "hist_env \<Rightarrow> nat \<Rightarrow> string \<Rightarrow> (history_entry \<Rightarrow> history_entry) \<Rightarrow> 'a timeline_scheme \<Rightarrow> hist_fs \<Rightarrow>
     string + 'a timeline_scheme \<times> hist_fs" where
  "update_tool_page e n i f t fs =
     and_then (file_op e ''read page: '' fs) (\<lambda>fs.
     and_then (ok_or (tl_pages t n) ''read page: not found'') (\<lambda>body.
       if PAGE_BYTE_LIMIT < length body
       then Inl (''history page exceeds hard limit: '' @ show_nat (length body))
       else
         and_then (he_entries e body) (\<lambda>xs.
         and_then (ok_or (update_first_tool i f xs) (''history tool page is missing tool '' @ i)) (\<lambda>ys.
           (let updated = page_body e ys in
            if PAGE_BYTE_LIMIT < length updated
            then Inl (''history page exceeds hard limit: '' @ show_nat (length updated))
            else
              and_then (file_op e ''write page: '' fs) (\<lambda>fs.
              and_then (file_op e ''replace page: '' fs) (\<lambda>fs.
                Inr (t\<lparr>tl_pages := (tl_pages t)(n \<mapsto> updated)\<rparr>, fs))))))))"

text \<open>The end of both \<open>push\<close> functions: a full page is written before the entry goes on the next.\<close>

definition page_full_for :: "'a timeline_scheme \<Rightarrow> nat \<Rightarrow> bool" where
  "page_full_for t entry_bytes =
     (tl_page t \<noteq> [] \<and>
      (PAGE_ENTRY_LIMIT \<le> length (tl_page t) \<or>
       PAGE_BYTE_LIMIT < tl_page_bytes t + (entry_bytes + 1)))"

definition append_entry ::
  "hist_env \<Rightarrow> history_entry \<Rightarrow> 'a timeline_scheme \<Rightarrow> hist_fs \<Rightarrow> string + 'a timeline_scheme \<times> hist_fs" where
  "append_entry e x t fs =
     (let n = length (he_entry e x) in
      and_then (if page_full_for t n then flush_entries_page e t fs else Inr (t, fs)) (\<lambda>(t, fs).
        Inr (t\<lparr>tl_page_bytes := tl_page_bytes t + (n + 1),
               tl_last_seq := max (tl_last_seq t) (entry_last_seq x),
               tl_page := tl_page t @ [x]\<rparr>, fs)))"

section \<open>Streams\<close>

definition add_message_delta ::
  "hist_env \<Rightarrow> nat \<Rightarrow> json \<Rightarrow> 'a timeline_scheme \<Rightarrow> hist_fs \<Rightarrow> string + 'a timeline_scheme \<times> hist_fs" where
  "add_message_delta e seq event t fs =
     (let t1 = t\<lparr>tl_message_seq := Some (unwrap_or (tl_message_seq t) seq)\<rparr> in
      case get_str event ''text'' of
        None \<Rightarrow> Inr (t1, fs)
      | Some text \<Rightarrow>
          and_then (spool_append e text (tl_message t1) fs) (\<lambda>(s, fs). Inr (t1\<lparr>tl_message := s\<rparr>, fs)))"

definition add_thinking_delta ::
  "hist_env \<Rightarrow> nat \<Rightarrow> json \<Rightarrow> 'a timeline_scheme \<Rightarrow> hist_fs \<Rightarrow> string + 'a timeline_scheme \<times> hist_fs" where
  "add_thinking_delta e seq event t fs =
     (let t1 = t\<lparr>tl_thinking_seq := Some (unwrap_or (tl_thinking_seq t) seq)\<rparr> in
      case get_str event ''text'' of
        None \<Rightarrow> Inr (t1, fs)
      | Some text \<Rightarrow>
          and_then (spool_append e text (tl_thinking t1) fs) (\<lambda>(s, fs). Inr (t1\<lparr>tl_thinking := s\<rparr>, fs)))"

definition reset_pending_streams ::
  "hist_env \<Rightarrow> 'a timeline_scheme \<Rightarrow> hist_fs \<Rightarrow> string + 'a timeline_scheme \<times> hist_fs" where
  "reset_pending_streams e t fs =
     and_then (spool_discard e (tl_message t) fs) (\<lambda>(m, fs).
     and_then (spool_discard e (tl_thinking t) fs) (\<lambda>(k, fs).
       Inr (t\<lparr>tl_message := m, tl_thinking := k, tl_message_seq := None, tl_thinking_seq := None\<rparr>, fs)))"

definition pending_first_seq :: "'a timeline_scheme \<Rightarrow> nat \<Rightarrow> nat" where
  "pending_first_seq t d =
     (case (tl_message_seq t, tl_thinking_seq t) of
        (Some m, Some k) \<Rightarrow> min m k
      | (Some s, None) \<Rightarrow> s
      | (None, Some s) \<Rightarrow> s
      | (None, None) \<Rightarrow> d)"

text \<open>Moving a stream out of the timeline into stored content.\<close>

definition take_message ::
  "hist_env \<Rightarrow> string \<Rightarrow> 'a timeline_scheme \<Rightarrow> hist_fs \<Rightarrow>
     string + history_content \<times> 'a timeline_scheme \<times> hist_fs" where
  "take_message e key t fs =
     and_then (content_from_spool e (tl_run_id t) (tl_generation_id t) key (tl_message t) fs)
       (\<lambda>(c, fs). Inr (c, t\<lparr>tl_message := spool_new\<rparr>, fs))"

definition take_thinking ::
  "hist_env \<Rightarrow> string \<Rightarrow> 'a timeline_scheme \<Rightarrow> hist_fs \<Rightarrow>
     string + history_content option \<times> 'a timeline_scheme \<times> hist_fs" where
  "take_thinking e key t fs =
     (if spool_is_empty (tl_thinking t) then Inr (None, t, fs)
      else and_then (content_from_spool e (tl_run_id t) (tl_generation_id t) key (tl_thinking t) fs)
             (\<lambda>(c, fs). Inr (Some c, t\<lparr>tl_thinking := spool_new\<rparr>, fs)))"

text \<open>\<open>message_complete\<close>: the text of the event, or the streamed text when it has none.\<close>

definition complete_message ::
  "hist_env \<Rightarrow> string \<Rightarrow> string \<Rightarrow> ('a timeline_scheme \<Rightarrow> nat) \<Rightarrow> 'a pusher \<Rightarrow> nat \<Rightarrow> string \<Rightarrow> json \<Rightarrow>
     'a timeline_scheme \<Rightarrow> hist_fs \<Rightarrow> string + 'a timeline_scheme \<times> hist_fs" where
  "complete_message e id_prefix key_prefix first_of push seq ts event t fs =
     (let i = unwrap_or (get_str event ''message_id'') (id_prefix @ show_nat seq) in
      and_then
        (case get_str event ''text'' of
           Some text \<Rightarrow>
             and_then (content_from_text e (tl_run_id t) (tl_generation_id t)
                         (key_prefix @ i @ '':text'') text fs) (\<lambda>(c, fs). Inr (c, t, fs))
         | None \<Rightarrow> take_message e (key_prefix @ i @ '':text'') t fs) (\<lambda>(content, t, fs).
      and_then (take_thinking e (key_prefix @ i @ '':thinking'') t fs) (\<lambda>(thinking, t, fs).
      and_then (push t (Assistant_Entry (base_at i ts (first_of t) seq) content thinking
                          (get_str event ''model'')) fs) (\<lambda>(t, fs).
        reset_pending_streams e t fs))))"

section \<open>Tools\<close>

definition start_tool ::
  "hist_env \<Rightarrow> string \<Rightarrow> string \<Rightarrow> 'a pusher \<Rightarrow> nat \<Rightarrow> string \<Rightarrow> json \<Rightarrow>
     'a timeline_scheme \<Rightarrow> hist_fs \<Rightarrow> string + 'a timeline_scheme \<times> hist_fs" where
  "start_tool e limit_message key_prefix push seq ts event t fs =
     (let i = unwrap_or (get_str event ''tool_use_id'') [] in
      if i = [] then Inr (t, fs)
      else
        and_then (bounded_json e (tl_run_id t) (tl_generation_id t) (key_prefix @ i @ '':input'')
                    (unwrap_or (jget event ''input'') JNull) fs) (\<lambda>((input, input_content), fs).
          if MAX_OPEN_TOOLS \<le> length (tl_open_tools t)
          then Inl (limit_message @ show_nat MAX_OPEN_TOOLS)
          else
            and_then (flush_entries_page e t fs) (\<lambda>(t, fs).
            and_then (push t (Tool_Entry (base_at i ts seq seq)
                        \<lparr>tf_tool_use_id = i,
                         tf_tool_name = unwrap_or (get_str event ''tool_name'') [],
                         tf_status = ''running'', tf_input = input, tf_output = JNull,
                         tf_tool_use_result = None, tf_input_content = input_content,
                         tf_output_content = None, tf_result_content = None,
                         tf_duration_ms = None, tf_sub_history_id = None\<rparr>) fs) (\<lambda>(t, fs).
            and_then (flush_entries_page e t fs) (\<lambda>(t, fs).
              Inr (t\<lparr>tl_open_tools :=
                       hm_insert i \<lparr>ot_page_number = tl_page_count t,
                                    ot_input_stream =
                                      (if unwrap_or (jget event ''input'') JNull = JNull
                                       then Some spool_new else None),
                                    ot_output_stream = None\<rparr> (tl_open_tools t)\<rparr>, fs))))))"

definition add_tool_input ::
  "hist_env \<Rightarrow> json \<Rightarrow> 'a timeline_scheme \<Rightarrow> hist_fs \<Rightarrow> string + 'a timeline_scheme \<times> hist_fs" where
  "add_tool_input e event t fs =
     (let i = unwrap_or (get_str event ''tool_use_id'') [] in
      case map_of (tl_open_tools t) i of
        None \<Rightarrow> Inr (t, fs)
      | Some ot \<Rightarrow>
          (let s = unwrap_or (ot_input_stream ot) spool_new in
           and_then (case get_str event ''partial_json'' of
                       None \<Rightarrow> Inr (s, fs)
                     | Some partial \<Rightarrow> spool_append e partial s fs) (\<lambda>(s, fs).
             Inr (t\<lparr>tl_open_tools := hm_insert i (ot\<lparr>ot_input_stream := Some s\<rparr>) (tl_open_tools t)\<rparr>, fs))))"

definition add_tool_output ::
  "hist_env \<Rightarrow> json \<Rightarrow> 'a timeline_scheme \<Rightarrow> hist_fs \<Rightarrow> string + 'a timeline_scheme \<times> hist_fs" where
  "add_tool_output e event t fs =
     (let i = unwrap_or (get_str event ''tool_use_id'') [] in
      case map_of (tl_open_tools t) i of
        None \<Rightarrow> Inr (t, fs)
      | Some ot \<Rightarrow>
          (let s = unwrap_or (ot_output_stream ot) spool_new in
           and_then (case get_str event ''delta'' of
                       None \<Rightarrow> Inr (s, fs)
                     | Some delta \<Rightarrow> spool_append e delta s fs) (\<lambda>(s, fs).
             Inr (t\<lparr>tl_open_tools := hm_insert i (ot\<lparr>ot_output_stream := Some s\<rparr>) (tl_open_tools t)\<rparr>, fs))))"

text \<open>What a finished tool's entry gets from its streams and from the event.\<close>

definition streamed_input ::
  "hist_env \<Rightarrow> string \<Rightarrow> string \<Rightarrow> string \<Rightarrow> open_tool \<Rightarrow> hist_fs \<Rightarrow>
     string + (json \<times> history_content option) option \<times> hist_fs" where
  "streamed_input e run_id generation_id key ot fs =
     (case opt_filter (\<lambda>s. \<not> spool_is_empty s) (ot_input_stream ot) of
        None \<Rightarrow> Inr (None, fs)
      | Some s \<Rightarrow>
          (let parsed = (if sp_file s = None then jc_parse (he_codec e) (sp_inline s) else None) in
           and_then (content_from_spool e run_id generation_id key s fs) (\<lambda>(content, fs).
             (let content = content\<lparr>hc_encoding := ''json''\<rparr> in
              Inr (Some (unwrap_or parsed (truncated_json (hc_preview content)),
                         if hc_truncated content then Some content else None), fs)))))"

definition ended_output ::
  "hist_env \<Rightarrow> string \<Rightarrow> string \<Rightarrow> string \<Rightarrow> json \<Rightarrow> open_tool \<Rightarrow> hist_fs \<Rightarrow>
     string + (json \<times> history_content option) \<times> hist_fs" where
  "ended_output e run_id generation_id key event ot fs =
     (let output_raw = unwrap_or (jget event ''output'') JNull in
      if output_raw = JNull then
        (case opt_filter (\<lambda>s. \<not> spool_is_empty s) (ot_output_stream ot) of
           None \<Rightarrow> Inr ((JNull, None), fs)
         | Some s \<Rightarrow>
             and_then (content_from_spool e run_id generation_id (key @ '':output-stream'') s fs)
               (\<lambda>(content, fs). Inr ((JStr (hc_preview content),
                                      if hc_truncated content then Some content else None), fs)))
      else bounded_json e run_id generation_id (key @ '':output'') output_raw fs)"

definition ended_result ::
  "hist_env \<Rightarrow> string \<Rightarrow> string \<Rightarrow> string \<Rightarrow> json \<Rightarrow> hist_fs \<Rightarrow>
     string + (json option \<times> history_content option) \<times> hist_fs" where
  "ended_result e run_id generation_id key event fs =
     (case jget event ''tool_use_result'' of
        None \<Rightarrow> Inr ((None, None), fs)
      | Some result \<Rightarrow>
          and_then (bounded_json e run_id generation_id (key @ '':result'') result fs)
            (\<lambda>((v, content), fs). Inr ((Some v, content), fs)))"

fun end_entry ::
  "(json \<times> history_content option) option \<Rightarrow> json \<times> history_content option \<Rightarrow>
     json option \<times> history_content option \<Rightarrow> nat \<Rightarrow> json \<Rightarrow> bool \<Rightarrow> history_entry \<Rightarrow> history_entry" where
  "end_entry streamed (output, output_content) (result, result_content) seq event renames (Tool_Entry b f) =
     Tool_Entry (b\<lparr>eb_last_seq := seq\<rparr>)
       (f\<lparr>tf_input := (case streamed of Some (v, _) \<Rightarrow> v | None \<Rightarrow> tf_input f),
          tf_input_content := (case streamed of Some (_, c) \<Rightarrow> c | None \<Rightarrow> tf_input_content f),
          tf_status := unwrap_or (get_str event ''status'') ''success'',
          tf_output := output, tf_tool_use_result := result,
          tf_output_content := output_content, tf_result_content := result_content,
          tf_duration_ms := get_u64 event ''duration_ms'',
          tf_tool_name :=
            (case get_str event ''tool_name'' of
               Some name \<Rightarrow> if renames \<and> name \<noteq> [] then name else tf_tool_name f
             | None \<Rightarrow> tf_tool_name f)\<rparr>)"
| "end_entry _ _ _ _ _ _ x = x"

definition end_tool ::
  "hist_env \<Rightarrow> string \<Rightarrow> bool \<Rightarrow> nat \<Rightarrow> json \<Rightarrow> string \<Rightarrow> open_tool \<Rightarrow>
     'a timeline_scheme \<Rightarrow> hist_fs \<Rightarrow> string + 'a timeline_scheme \<times> hist_fs" where
  "end_tool e key_prefix renames seq event i ot t fs =
     (let run = tl_run_id t; gen = tl_generation_id t; key = key_prefix @ i in
      and_then (streamed_input e run gen (key @ '':input-stream'') ot fs) (\<lambda>(streamed, fs).
      and_then (ended_output e run gen key event ot fs) (\<lambda>(output, fs).
      and_then (ended_result e run gen key event fs) (\<lambda>(result, fs).
        update_tool_page e (ot_page_number ot) i (end_entry streamed output result seq event renames)
          (t\<lparr>tl_open_tools := hm_remove i (tl_open_tools t)\<rparr>) fs))))"

section \<open>Interrupted work\<close>

definition settle_streams ::
  "hist_env \<Rightarrow> string \<Rightarrow> string \<Rightarrow> 'a pusher \<Rightarrow> nat \<Rightarrow> 'a timeline_scheme \<Rightarrow> hist_fs \<Rightarrow>
     string + 'a timeline_scheme \<times> hist_fs" where
  "settle_streams e id_prefix key_prefix push last_seq t fs =
     (if spool_is_empty (tl_message t) \<and> spool_is_empty (tl_thinking t) then Inr (t, fs)
      else
        (let seq = pending_first_seq t last_seq; i = id_prefix @ show_nat seq in
         and_then (if spool_is_empty (tl_message t) then Inr (inline_content [], t, fs)
                   else take_message e (key_prefix @ i @ '':text'') t fs) (\<lambda>(content, t, fs).
         and_then (take_thinking e (key_prefix @ i @ '':thinking'') t fs) (\<lambda>(thinking, t, fs).
           push (t\<lparr>tl_message_seq := None, tl_thinking_seq := None\<rparr>)
             (Assistant_Entry (base_at i [] seq last_seq) content thinking None) fs))))"

fun interrupt_entry :: "nat \<Rightarrow> string \<Rightarrow> history_entry \<Rightarrow> history_entry" where
  "interrupt_entry last_seq err (Tool_Entry b f) =
     Tool_Entry (b\<lparr>eb_last_seq := last_seq\<rparr>)
       (f\<lparr>tf_status := ''error'', tf_output := JObj [(''error'', JStr err)]\<rparr>)"
| "interrupt_entry _ _ x = x"

fun interrupt_tools ::
  "hist_env \<Rightarrow> nat \<Rightarrow> string \<Rightarrow> (string \<times> open_tool) list \<Rightarrow> 'a timeline_scheme \<Rightarrow> hist_fs \<Rightarrow>
     string + 'a timeline_scheme \<times> hist_fs" where
  "interrupt_tools e last_seq err [] t fs = Inr (t, fs)"
| "interrupt_tools e last_seq err ((i, ot) # ots) t fs =
     and_then (update_tool_page e (ot_page_number ot) i (interrupt_entry last_seq err) t fs)
       (\<lambda>(t, fs). interrupt_tools e last_seq err ots t fs)"

definition settle_tools ::
  "hist_env \<Rightarrow> nat \<Rightarrow> string \<Rightarrow> 'a timeline_scheme \<Rightarrow> hist_fs \<Rightarrow> string + 'a timeline_scheme \<times> hist_fs" where
  "settle_tools e last_seq err t fs =
     interrupt_tools e last_seq err (tl_open_tools t) (t\<lparr>tl_open_tools := []\<rparr>) fs"

text \<open>The tool that owns a sub-agent's history is linked to it.\<close>

fun link_entry :: "string \<Rightarrow> history_entry \<Rightarrow> history_entry" where
  "link_entry child (Tool_Entry b f) = Tool_Entry b (f\<lparr>tf_sub_history_id := Some child\<rparr>)"
| "link_entry _ x = x"

definition link_tool ::
  "hist_env \<Rightarrow> string \<Rightarrow> string \<Rightarrow> 'a timeline_scheme \<Rightarrow> hist_fs \<Rightarrow> string + 'a timeline_scheme \<times> hist_fs" where
  "link_tool e i child t fs =
     (case map_of (tl_open_tools t) i of
        None \<Rightarrow> Inr (t, fs)
      | Some ot \<Rightarrow> update_tool_page e (ot_page_number ot) i (link_entry child) t fs)"

end
