(* ===== verification/History_Builder.thy ===== *)
theory History_Builder
  imports History_Timeline
begin

text \<open>
  The builder of the history projection (\<open>storage/history.rs\<close>): \<open>SubHistoryState\<close>, \<open>BuildState\<close>, and
  the handling of one line of the log, one definition per match arm. The identifiers seen and the
  dropped sub-agents are sets; hash maps whose values are visited are association lists, visited in
  their order.
\<close>

record sub_history = timeline +
  sh_id :: string

record build_state = timeline +
  hb_total_entries :: nat
  hb_total_turns :: nat
  hb_state_events :: "(string \<times> json) list"
  hb_pending_interactions :: "(string \<times> json) list"
  hb_pending_user_inputs :: "(string \<times> nat) list"
  hb_seen_message_ids :: "string set"
  hb_seen_tool_ids :: "string set"
  hb_subhistories :: "(string \<times> sub_history) list"
  hb_dropped_subhistories :: "string set"

type_synonym build_result = "string + build_state \<times> hist_fs"

section \<open>Sub-agents\<close>

definition sub_new :: "hist_env \<Rightarrow> string \<Rightarrow> string \<Rightarrow> string \<Rightarrow> hist_fs \<Rightarrow> string + sub_history \<times> hist_fs" where
  "sub_new e parent_id run_id generation_id fs =
     and_then (file_op e [] fs) (\<lambda>fs.
     and_then (file_op e [] fs) (\<lambda>fs.
       Inr (\<lparr>tl_run_id = run_id, tl_generation_id = generation_id, tl_page = [], tl_page_bytes = 2,
             tl_page_count = 0, tl_last_seq = 0, tl_message = spool_new, tl_message_seq = None,
             tl_thinking = spool_new, tl_thinking_seq = None, tl_open_tools = [],
             tl_pages = Map.empty, sh_id = he_sha e parent_id\<rparr>, fs)))"

definition sub_push :: "hist_env \<Rightarrow> sub_history \<Rightarrow> history_entry \<Rightarrow> hist_fs \<Rightarrow> string + sub_history \<times> hist_fs" where
  "sub_push e s x fs =
     (if ENTRY_BYTE_LIMIT < length (he_entry e x) then Inl ''subhistory entry exceeds hard limit''
      else append_entry e x s fs)"

definition sub_settle ::
  "hist_env \<Rightarrow> nat \<Rightarrow> string \<Rightarrow> sub_history \<Rightarrow> hist_fs \<Rightarrow> string + sub_history \<times> hist_fs" where
  "sub_settle e last_seq err s fs =
     and_then (settle_streams e ''sub-assistant-incomplete-'' (''sub:'' @ sh_id s @ '':'') (sub_push e)
                 last_seq s fs) (\<lambda>(s, fs).
       settle_tools e last_seq err s fs)"

text \<open>The manifest of a sub-agent's history holds the number of its pages.\<close>

definition sub_finish :: "hist_env \<Rightarrow> sub_history \<Rightarrow> hist_fs \<Rightarrow> string + sub_history \<times> hist_fs" where
  "sub_finish e s fs =
     and_then (sub_settle e (tl_last_seq s) ''Session ended before tool result'' s fs) (\<lambda>(s, fs).
     and_then (flush_entries_page e s fs) (\<lambda>(s, fs).
     and_then (file_op e [] fs) (\<lambda>fs. Inr (s, fs))))"

section \<open>The main timeline\<close>

definition build_new :: "hist_env \<Rightarrow> string \<Rightarrow> string \<Rightarrow> hist_fs \<Rightarrow> build_result" where
  "build_new e run_id generation_id fs =
     and_then (file_op e [] fs) (\<lambda>fs.
     and_then (file_op e [] fs) (\<lambda>fs.
     and_then (file_op e [] fs) (\<lambda>fs.
       Inr (\<lparr>tl_run_id = run_id, tl_generation_id = generation_id, tl_page = [], tl_page_bytes = 2,
             tl_page_count = 0, tl_last_seq = 0, tl_message = spool_new, tl_message_seq = None,
             tl_thinking = spool_new, tl_thinking_seq = None, tl_open_tools = [],
             tl_pages = Map.empty, hb_total_entries = 0, hb_total_turns = 0, hb_state_events = [],
             hb_pending_interactions = [], hb_pending_user_inputs = [], hb_seen_message_ids = {},
             hb_seen_tool_ids = {}, hb_subhistories = [], hb_dropped_subhistories = {}\<rparr>, fs))))"

definition placeholder_for :: "hist_env \<Rightarrow> build_state \<Rightarrow> history_entry \<Rightarrow> string \<times> string \<times> history_entry" where
  "placeholder_for e b x =
     (let first_seq = entry_first_seq x; last_seq = entry_last_seq x;
          i = ''oversized-entry-'' @ show_nat first_seq @ ''-'' @ show_nat last_seq;
          ci = content_id e (tl_run_id b) (tl_generation_id b) i;
          encoded = he_entry e x
      in (ci, encoded,
          Placeholder_Entry (base_at i [] first_seq last_seq)
            (stored_content (safe_utf8_prefix (utf8_lossy encoded) PREVIEW_HEAD_BYTES)
               (length encoded) ci ''json'')))"

definition push :: "hist_env \<Rightarrow> build_state \<Rightarrow> history_entry \<Rightarrow> hist_fs \<Rightarrow> build_result" where
  "push e b x fs =
     and_then
       (if ENTRY_BYTE_LIMIT < length (he_entry e x) then
          (case placeholder_for e b x of (ci, encoded, p) \<Rightarrow>
             and_then (file_op e ''write oversized history entry: '' fs) (\<lambda>fs.
               Inr (p, put_blob ci encoded fs)))
        else Inr (x, fs)) (\<lambda>(x, fs).
     and_then (append_entry e x b fs) (\<lambda>(b, fs).
       Inr (b\<lparr>hb_total_entries := hb_total_entries b + 1\<rparr>, fs)))"

fun settle_subs ::
  "hist_env \<Rightarrow> nat \<Rightarrow> string \<Rightarrow> (string \<times> sub_history) list \<Rightarrow> hist_fs \<Rightarrow>
     string + (string \<times> sub_history) list \<times> hist_fs" where
  "settle_subs e last_seq err [] fs = Inr ([], fs)"
| "settle_subs e last_seq err ((p, s) # ss) fs =
     and_then (sub_settle e last_seq err s fs) (\<lambda>(s, fs).
     and_then (settle_subs e last_seq err ss fs) (\<lambda>(ss, fs).
       Inr ((p, s) # ss, fs)))"

definition settle_interrupted_work :: "hist_env \<Rightarrow> nat \<Rightarrow> string \<Rightarrow> build_state \<Rightarrow> hist_fs \<Rightarrow> build_result" where
  "settle_interrupted_work e last_seq err b fs =
     and_then (settle_streams e ''assistant-incomplete-'' [] (push e) last_seq b fs) (\<lambda>(b, fs).
     and_then (settle_tools e last_seq err b fs) (\<lambda>(b, fs).
     and_then (settle_subs e last_seq err (hb_subhistories b) fs) (\<lambda>(ss, fs).
       Inr (b\<lparr>hb_subhistories := ss\<rparr>, fs))))"

text \<open>The sub-agent in which a tool is open, the first one in the order of the map.\<close>

datatype tool_scope = Main_Scope | Sub_Scope string

definition open_tool_scope :: "build_state \<Rightarrow> string \<Rightarrow> tool_scope option" where
  "open_tool_scope b i =
     (if map_of (tl_open_tools b) i \<noteq> None then Some Main_Scope
      else map_option (\<lambda>(p, s). Sub_Scope p)
             (find (\<lambda>(p, s). map_of (tl_open_tools s) i \<noteq> None) (hb_subhistories b)))"

definition open_tool_page :: "build_state \<Rightarrow> tool_scope \<Rightarrow> string \<Rightarrow> nat option" where
  "open_tool_page b scope i =
     map_option ot_page_number
       (case scope of
          Main_Scope \<Rightarrow> map_of (tl_open_tools b) i
        | Sub_Scope p \<Rightarrow> Option.bind (map_of (hb_subhistories b) p) (\<lambda>s. map_of (tl_open_tools s) i))"

definition is_duplicate_identity :: "build_state \<Rightarrow> string \<Rightarrow> json \<Rightarrow> bool" where
  "is_duplicate_identity b kind event =
     (if kind = ''message_complete'' then
        (case get_str event ''message_id'' of None \<Rightarrow> False | Some i \<Rightarrow> i \<noteq> [] \<and> i \<in> hb_seen_message_ids b)
      else if kind = ''tool_start'' then
        (case get_str event ''tool_use_id'' of None \<Rightarrow> False | Some i \<Rightarrow> i \<noteq> [] \<and> i \<in> hb_seen_tool_ids b)
      else False)"

definition record_identity :: "build_state \<Rightarrow> string \<Rightarrow> json \<Rightarrow> bool \<times> build_state" where
  "record_identity b kind event =
     (if kind = ''message_complete'' then
        (case opt_filter (\<lambda>i. i \<noteq> []) (get_str event ''message_id'') of
           None \<Rightarrow> (True, b)
         | Some i \<Rightarrow> (i \<notin> hb_seen_message_ids b,
                      b\<lparr>hb_seen_message_ids := insert i (hb_seen_message_ids b)\<rparr>))
      else if kind = ''tool_start'' then
        (case opt_filter (\<lambda>i. i \<noteq> []) (get_str event ''tool_use_id'') of
           None \<Rightarrow> (True, b)
         | Some i \<Rightarrow> (i \<notin> hb_seen_tool_ids b,
                      b\<lparr>hb_seen_tool_ids := insert i (hb_seen_tool_ids b)\<rparr>))
      else (True, b))"

definition normalized_parent_tool_use_id :: "json \<Rightarrow> string option" where
  "normalized_parent_tool_use_id event =
     opt_filter (\<lambda>i. i \<noteq> []) (get_str event ''parent_tool_use_id'')"

section \<open>An event of a sub-agent\<close>

fun link_in_subs ::
  "hist_env \<Rightarrow> string \<Rightarrow> string \<Rightarrow> (string \<times> sub_history) list \<Rightarrow> hist_fs \<Rightarrow>
     string + (string \<times> sub_history) list \<times> hist_fs" where
  "link_in_subs e i child [] fs = Inr ([], fs)"
| "link_in_subs e i child ((p, s) # ss) fs =
     (if map_of (tl_open_tools s) i \<noteq> None then
        and_then (link_tool e i child s fs) (\<lambda>(s, fs). Inr ((p, s) # ss, fs))
      else and_then (link_in_subs e i child ss fs) (\<lambda>(ss, fs). Inr ((p, s) # ss, fs)))"

definition sub_user_message ::
  "hist_env \<Rightarrow> string \<Rightarrow> nat \<Rightarrow> string \<Rightarrow> json \<Rightarrow> sub_history \<Rightarrow> hist_fs \<Rightarrow> string + sub_history \<times> hist_fs" where
  "sub_user_message e parent_id seq ts event s fs =
     (let i = ''sub-user-'' @ show_nat seq in
      and_then (content_from_text e (tl_run_id s) (tl_generation_id s) (''sub:'' @ parent_id @ '':'' @ i)
                  (unwrap_or (get_str event ''text'') []) fs) (\<lambda>(content, fs).
        sub_push e s (User_Entry (base_at i ts seq seq) content None []) fs))"

definition sub_tool_end ::
  "hist_env \<Rightarrow> string \<Rightarrow> nat \<Rightarrow> json \<Rightarrow> sub_history \<Rightarrow> hist_fs \<Rightarrow> string + sub_history \<times> hist_fs" where
  "sub_tool_end e parent_id seq event s fs =
     (let i = unwrap_or (get_str event ''tool_use_id'') [] in
      case map_of (tl_open_tools s) i of
        None \<Rightarrow> Inr (s, fs)
      | Some ot \<Rightarrow> end_tool e (''sub:'' @ parent_id @ '':'') False seq event i ot s fs)"

definition sub_event ::
  "hist_env \<Rightarrow> string \<Rightarrow> nat \<Rightarrow> string \<Rightarrow> json \<Rightarrow> sub_history \<Rightarrow> hist_fs \<Rightarrow> string + sub_history \<times> hist_fs" where
  "sub_event e parent_id seq ts event s fs =
     (let kind = unwrap_or (get_str event ''type'') []; key = ''sub:'' @ parent_id @ '':'' in
      if kind = ''message_delta'' then add_message_delta e seq event s fs
      else if kind = ''thinking_delta'' then add_thinking_delta e seq event s fs
      else if kind = ''message_complete'' then
        complete_message e ''sub-assistant-'' key (\<lambda>s. unwrap_or (tl_message_seq s) seq) (sub_push e)
          seq ts event s fs
      else if kind = ''tool_start'' then
        start_tool e ''subhistory open tool limit exceeded: '' key (sub_push e) seq ts event s fs
      else if kind = ''tool_input_delta'' then add_tool_input e event s fs
      else if kind = ''tool_output_delta'' then add_tool_output e event s fs
      else if kind = ''tool_end'' then sub_tool_end e parent_id seq event s fs
      else if kind = ''user_message'' then sub_user_message e parent_id seq ts event s fs
      else Inr (s, fs))"

definition handle_subhistory_event ::
  "hist_env \<Rightarrow> string \<Rightarrow> nat \<Rightarrow> string \<Rightarrow> json \<Rightarrow> build_state \<Rightarrow> hist_fs \<Rightarrow> build_result" where
  "handle_subhistory_event e parent_id seq ts event b fs =
     and_then (file_op e [] fs) (\<lambda>fs.
       if map_of (hb_subhistories b) parent_id = None \<and> MAX_SUBHISTORIES \<le> length (hb_subhistories b)
       then Inr (b\<lparr>hb_dropped_subhistories := insert parent_id (hb_dropped_subhistories b)\<rparr>, fs)
       else
         and_then (link_in_subs e parent_id (he_sha e parent_id) (hb_subhistories b) fs) (\<lambda>(ss, fs).
         and_then
           (case map_of ss parent_id of
              Some s \<Rightarrow> Inr (s, fs)
            | None \<Rightarrow> sub_new e parent_id (tl_run_id b) (tl_generation_id b) fs) (\<lambda>(s, fs).
         and_then (link_tool e parent_id (sh_id s) b fs) (\<lambda>(b, fs).
         and_then (sub_event e parent_id seq ts event s fs) (\<lambda>(s, fs).
           Inr (b\<lparr>hb_subhistories := hm_insert parent_id s ss\<rparr>, fs))))))"

end
