(* ===== verification/History_Events.thy ===== *)
theory History_Events
  imports History_Builder
begin

text \<open>
  How the builder of the history projection (\<open>storage/history.rs\<close>) handles one envelope of the
  log: the arms of \<open>handle_event\<close> for the main conversation, the envelopes of older logs
  (\<open>handle_legacy_event\<close>), and the end of a build with its summary (\<open>finish\<close>).
\<close>

section \<open>The main conversation\<close>

definition on_main_user_message :: "hist_env \<Rightarrow> nat \<Rightarrow> string \<Rightarrow> json \<Rightarrow> build_state \<Rightarrow> hist_fs \<Rightarrow> build_result" where
  "on_main_user_message e seq ts event b fs =
     (let b = b\<lparr>hb_total_turns := hb_total_turns b + 1\<rparr>;
          cli_uuid = get_str event ''uuid'';
          i = ''user-'' @ show_nat seq;
          anchor = unwrap_or (or_else cli_uuid (get_str event ''client_uuid'')) i
      in and_then (content_from_text e (tl_run_id b) (tl_generation_id b) (''user:'' @ i)
                     (unwrap_or (get_str event ''text'') []) fs) (\<lambda>(content, fs).
           push e b (User_Entry ((base_at i ts seq seq)\<lparr>eb_anchor_id := anchor\<rparr>) content cli_uuid
                       (unwrap_or (get_array event ''attachments'') [])) fs))"

definition on_main_tool_end :: "hist_env \<Rightarrow> nat \<Rightarrow> json \<Rightarrow> build_state \<Rightarrow> hist_fs \<Rightarrow> build_result" where
  "on_main_tool_end e seq event b fs =
     (let i = unwrap_or (get_str event ''tool_use_id'') [] in
      case map_of (tl_open_tools b) i of
        None \<Rightarrow> Inr (b, fs)
      | Some ot \<Rightarrow>
          and_then (end_tool e ''tool:'' True seq event i ot b fs) (\<lambda>(b, fs).
            if get_str event ''tool_name'' = Some ''AskUserQuestion'' \<and> get_str event ''status'' = Some ''error''
            then
              (if MAX_PENDING_INTERACTIONS \<le> length (hb_pending_user_inputs b)
                  \<and> map_of (hb_pending_user_inputs b) i = None
               then Inl (''history pending user input limit exceeded: '' @ show_nat MAX_PENDING_INTERACTIONS)
               else Inr (b\<lparr>hb_pending_user_inputs :=
                             hm_insert i (ot_page_number ot) (hb_pending_user_inputs b)\<rparr>, fs))
            else Inr (b, fs)))"

definition on_command_output :: "hist_env \<Rightarrow> nat \<Rightarrow> string \<Rightarrow> json \<Rightarrow> build_state \<Rightarrow> hist_fs \<Rightarrow> build_result" where
  "on_command_output e seq ts event b fs =
     and_then (content_from_text e (tl_run_id b) (tl_generation_id b) (''command:'' @ show_nat seq)
                 (unwrap_or (get_str event ''content'') []) fs) (\<lambda>(content, fs).
       push e b (Command_Entry (base_at (''command-'' @ show_nat seq) ts seq seq) content) fs)"

text \<open>The event with its number and time, as it goes into the summary.\<close>

definition stamped :: "nat \<Rightarrow> string \<Rightarrow> json \<Rightarrow> json" where
  "stamped seq ts event = jset ''ts'' (JStr ts) (jset ''_seq'' (jnat seq) event)"

definition on_state_event ::
  "hist_env \<Rightarrow> string \<Rightarrow> nat \<Rightarrow> string \<Rightarrow> json \<Rightarrow> build_state \<Rightarrow> hist_fs \<Rightarrow> build_result" where
  "on_state_event e kind seq ts event b fs =
     (let bounded = stamped seq ts event in
      if length (jc_text (he_codec e) bounded) \<le> CONTENT_INLINE_LIMIT
      then Inr (b\<lparr>hb_state_events := hm_insert kind bounded (hb_state_events b)\<rparr>, fs)
      else Inr (b, fs))"

definition on_prompt ::
  "hist_env \<Rightarrow> string \<Rightarrow> nat \<Rightarrow> string \<Rightarrow> json \<Rightarrow> build_state \<Rightarrow> hist_fs \<Rightarrow> build_result" where
  "on_prompt e kind seq ts event b fs =
     (let request_id = unwrap_or (get_str event ''request_id'') [];
          bounded = stamped seq ts event;
          n = length (jc_text (he_codec e) bounded)
      in if kind = ''hook_callback'' \<and> get_str event ''hook_event'' \<noteq> Some ''PreToolUse'' then Inr (b, fs)
         else if request_id = [] then Inr (b, fs)
         else if CONTENT_INLINE_LIMIT < n
         then Inl (''pending interaction exceeds hard limit: '' @ show_nat n)
         else if MAX_PENDING_INTERACTIONS \<le> length (hb_pending_interactions b)
                 \<and> map_of (hb_pending_interactions b) request_id = None
         then Inl (''history pending interaction limit exceeded: '' @ show_nat MAX_PENDING_INTERACTIONS)
         else Inr (b\<lparr>hb_pending_interactions :=
                       hm_insert request_id bounded (hb_pending_interactions b)\<rparr>, fs))"

text \<open>The status an answered question's tool shows.\<close>

definition answered_status :: "string \<Rightarrow> string" where
  "answered_status kind =
     (if kind = ''interaction_response_started'' then ''response_pending''
      else if kind = ''interaction_response_failed'' then ''response_failed''
      else if kind = ''interaction_resolved'' then ''success'' else ''error'')"

fun set_status :: "string \<Rightarrow> history_entry \<Rightarrow> history_entry" where
  "set_status st (Tool_Entry b f) = Tool_Entry b (f\<lparr>tf_status := st\<rparr>)"
| "set_status st x = x"

definition lifecycle_key :: "string \<Rightarrow> string" where
  "lifecycle_key request_id = ''interaction:'' @ request_id"

text \<open>
  A started or failed answer to a pending prompt is kept next to it; any other fact ends it.
\<close>

definition record_lifecycle ::
  "hist_env \<Rightarrow> string \<Rightarrow> string \<Rightarrow> nat \<Rightarrow> string \<Rightarrow> json \<Rightarrow> build_state \<Rightarrow> string + build_state" where
  "record_lifecycle e kind request_id seq ts event b =
     (if (kind = ''interaction_response_started'' \<or> kind = ''interaction_response_failed'')
         \<and> map_of (hb_pending_interactions b) request_id \<noteq> None then
        (let bounded = stamped seq ts event; n = length (jc_text (he_codec e) bounded) in
         if CONTENT_INLINE_LIMIT < n
         then Inl (''interaction lifecycle event exceeds hard limit: '' @ show_nat n)
         else Inr (b\<lparr>hb_state_events :=
                       hm_insert (lifecycle_key request_id) bounded (hb_state_events b)\<rparr>))
      else
        Inr (b\<lparr>hb_pending_interactions := hm_remove request_id (hb_pending_interactions b),
               hb_state_events := hm_remove (lifecycle_key request_id) (hb_state_events b)\<rparr>))"

definition on_interaction_fact ::
  "hist_env \<Rightarrow> string \<Rightarrow> nat \<Rightarrow> string \<Rightarrow> json \<Rightarrow> build_state \<Rightarrow> hist_fs \<Rightarrow> build_result" where
  "on_interaction_fact e kind seq ts event b fs =
     (case get_str event ''request_id'' of
        None \<Rightarrow> Inr (b, fs)
      | Some request_id \<Rightarrow>
          and_then (record_lifecycle e kind request_id seq ts event b) (\<lambda>b.
            (let page = map_of (hb_pending_user_inputs b) request_id;
                 b1 = (if kind = ''interaction_response_started'' then b
                       else b\<lparr>hb_pending_user_inputs := hm_remove request_id (hb_pending_user_inputs b)\<rparr>)
             in case page of
                  None \<Rightarrow> Inr (b1, fs)
                | Some n \<Rightarrow> update_tool_page e n request_id (set_status (answered_status kind)) b1 fs)))"

definition STATE_EVENTS :: "string list" where
  "STATE_EVENTS =
     [''session_init'', ''run_state'', ''usage_update'', ''compact_boundary'', ''system_status'',
      ''auth_status'', ''rate_limit_event'']"

definition PROMPT_EVENTS :: "string list" where
  "PROMPT_EVENTS = [''permission_prompt'', ''elicitation_prompt'', ''hook_callback'']"

definition INTERACTION_FACTS :: "string list" where
  "INTERACTION_FACTS =
     [''control_cancelled'', ''interaction_response_started'', ''interaction_response_failed'',
      ''interaction_resolved'']"

definition main_event ::
  "hist_env \<Rightarrow> string \<Rightarrow> nat \<Rightarrow> string \<Rightarrow> json \<Rightarrow> build_state \<Rightarrow> hist_fs \<Rightarrow> build_result" where
  "main_event e kind seq ts event b fs =
     (if kind = ''user_message'' then on_main_user_message e seq ts event b fs
      else if kind = ''message_delta'' then add_message_delta e seq event b fs
      else if kind = ''thinking_delta'' then add_thinking_delta e seq event b fs
      else if kind = ''message_complete'' then
        complete_message e ''assistant-'' ''assistant:'' (\<lambda>b. pending_first_seq b seq) (push e)
          seq ts event b fs
      else if kind = ''tool_start'' then
        start_tool e ''history open tool limit exceeded: '' ''tool:'' (push e) seq ts event b fs
      else if kind = ''tool_input_delta'' then add_tool_input e event b fs
      else if kind = ''tool_output_delta'' then add_tool_output e event b fs
      else if kind = ''tool_end'' then on_main_tool_end e seq event b fs
      else if kind = ''command_output'' then on_command_output e seq ts event b fs
      else if kind \<in> set STATE_EVENTS then on_state_event e kind seq ts event b fs
      else if kind \<in> set PROMPT_EVENTS then on_prompt e kind seq ts event b fs
      else if kind \<in> set INTERACTION_FACTS then on_interaction_fact e kind seq ts event b fs
      else Inr (b, fs))"

section \<open>One envelope\<close>

definition SETTLING_STATES :: "string list" where
  "SETTLING_STATES = [''spawning'', ''running'', ''idle'', ''completed'', ''failed'', ''stopped'']"

definition settles_runs :: "json \<Rightarrow> bool" where
  "settles_runs event =
     (case get_str event ''state'' of None \<Rightarrow> False | Some st \<Rightarrow> st \<in> set SETTLING_STATES)"

definition closes_previous_turn :: "string \<Rightarrow> json \<Rightarrow> bool" where
  "closes_previous_turn kind event =
     (kind = ''user_message'' \<and> normalized_parent_tool_use_id event = None \<or>
      kind = ''run_state'' \<and> settles_runs event)"

definition on_duplicate :: "hist_env \<Rightarrow> string \<Rightarrow> json \<Rightarrow> build_state \<Rightarrow> hist_fs \<Rightarrow> build_result" where
  "on_duplicate e kind event b fs =
     (if kind \<noteq> ''message_complete'' then Inr (b, fs)
      else
        (case normalized_parent_tool_use_id event of
           None \<Rightarrow> reset_pending_streams e b fs
         | Some p \<Rightarrow>
             (case map_of (hb_subhistories b) p of
                None \<Rightarrow> Inr (b, fs)
              | Some s \<Rightarrow>
                  and_then (reset_pending_streams e s fs) (\<lambda>(s, fs).
                    Inr (b\<lparr>hb_subhistories := hm_insert p s (hb_subhistories b)\<rparr>, fs)))))"

text \<open>The sub-agent an event belongs to: its parent, or for the end of a tool that names no parent the one that has the tool open.\<close>

definition event_owner :: "build_state \<Rightarrow> string \<Rightarrow> json \<Rightarrow> string option" where
  "event_owner b kind event =
     (case normalized_parent_tool_use_id event of
        Some p \<Rightarrow> Some p
      | None \<Rightarrow>
          (if kind = ''tool_end'' then
             (case open_tool_scope b (unwrap_or (get_str event ''tool_use_id'') []) of
                Some (Sub_Scope p) \<Rightarrow> Some p
              | _ \<Rightarrow> None)
           else None))"

definition handle_bus_event :: "hist_env \<Rightarrow> nat \<Rightarrow> string \<Rightarrow> json \<Rightarrow> build_state \<Rightarrow> hist_fs \<Rightarrow> build_result" where
  "handle_bus_event e seq ts event b fs =
     (let kind = unwrap_or (get_str event ''type'') [];
          b = b\<lparr>tl_last_seq := max (tl_last_seq b) seq\<rparr>
      in and_then
           (if closes_previous_turn kind event
            then settle_interrupted_work e seq ''Turn ended before tool result'' b fs else Inr (b, fs))
           (\<lambda>(b, fs).
              (case record_identity b kind event of
                 (False, b) \<Rightarrow> on_duplicate e kind event b fs
               | (True, b) \<Rightarrow>
                   (case event_owner b kind event of
                      Some p \<Rightarrow> handle_subhistory_event e p seq ts event b fs
                    | None \<Rightarrow> main_event e kind seq ts event b fs))))"

definition handle_legacy_event :: "hist_env \<Rightarrow> json \<Rightarrow> build_state \<Rightarrow> hist_fs \<Rightarrow> build_result" where
  "handle_legacy_event e event b fs =
     (let kind = unwrap_or (get_str event ''type'') [];
          b = (if get_u64 event ''seq'' = None then b\<lparr>tl_last_seq := tl_last_seq b + 1\<rparr> else b);
          seq = unwrap_or (get_u64 event ''seq'') (tl_last_seq b);
          ts = unwrap_or (get_str event ''timestamp'') [];
          text = unwrap_or (Option.bind (Option.bind (jget event ''payload'')
                              (\<lambda>p. or_else (jget p ''text'') (jget p ''message''))) as_str) [];
          i = ''legacy-'' @ kind @ ''-'' @ show_nat seq
      in if kind \<notin> {''user'', ''assistant'', ''stdout'', ''stderr''} \<or> text = [] then Inr (b, fs)
         else
           and_then (content_from_text e (tl_run_id b) (tl_generation_id b) i text fs) (\<lambda>(content, fs).
             if kind = ''user''
             then push e (b\<lparr>hb_total_turns := hb_total_turns b + 1\<rparr>)
                    (User_Entry (base_at i ts seq seq) content None []) fs
             else if kind = ''assistant''
             then push e b (Assistant_Entry (base_at i ts seq seq) content None None) fs
             else push e b (Command_Entry (base_at i ts seq seq) content) fs))"

definition handle_event :: "hist_env \<Rightarrow> json \<Rightarrow> build_state \<Rightarrow> hist_fs \<Rightarrow> build_result" where
  "handle_event e envelope b fs =
     (if get_bool envelope ''_bus'' \<noteq> Some True then handle_legacy_event e envelope b fs
      else
        (case jget envelope ''event'' of
           None \<Rightarrow> Inr (b, fs)
         | Some event \<Rightarrow>
             handle_bus_event e (unwrap_or (get_u64 envelope ''seq'') 0)
               (unwrap_or (get_str envelope ''ts'') []) event b fs))"

section \<open>The end of a build\<close>

record history_summary =
  hs_run_id :: string
  hs_generation_id :: string
  hs_page_count :: nat
  hs_total_entries :: nat
  hs_total_turns :: nat
  hs_last_seq :: nat
  hs_source_size :: nat
  hs_source_mtime_ns :: nat
  hs_latest_cursor :: "string option"
  hs_state_events :: "json list"

record history_manifest =
  hm_format_version :: nat
  hm_builder_version :: nat
  hm_generation_id :: string
  hm_source_size :: nat
  hm_source_mtime_ns :: nat
  hm_source_prefix_hash :: string
  hm_last_seq :: nat
  hm_page_count :: nat
  hm_total_entries :: nat
  hm_total_turns :: nat
  hm_complete :: bool

definition cursor :: "string \<Rightarrow> nat \<Rightarrow> string" where
  "cursor generation_id page = generation_id @ '':'' @ show_nat page"

definition event_seq_key :: "json \<Rightarrow> nat" where
  "event_seq_key event = unwrap_or (get_u64 event ''_seq'') 0"

text \<open>The facts and the prompts, in the order of the log.\<close>

definition summary_events :: "build_state \<Rightarrow> json list" where
  "summary_events b =
     sort_key event_seq_key
       (sort_key event_seq_key (map snd (hb_state_events b))
        @ sort_key event_seq_key (map snd (hb_pending_interactions b)))"

fun finish_subs ::
  "hist_env \<Rightarrow> (string \<times> sub_history) list \<Rightarrow> hist_fs \<Rightarrow> string + (string \<times> sub_history) list \<times> hist_fs" where
  "finish_subs e [] fs = Inr ([], fs)"
| "finish_subs e ((p, s) # ss) fs =
     and_then (sub_finish e s fs) (\<lambda>(s, fs).
     and_then (finish_subs e ss fs) (\<lambda>(ss, fs). Inr ((p, s) # ss, fs)))"

text \<open>
  What a finished build leaves on disk: the pages of the main timeline and of the sub-agents, the
  summary and the manifest. \<open>summary_size\<close> is the encoded size of the summary.
\<close>

definition finish ::
  "hist_env \<Rightarrow> (history_summary \<Rightarrow> nat) \<Rightarrow> nat \<Rightarrow> nat \<Rightarrow> string \<Rightarrow> build_state \<Rightarrow> hist_fs \<Rightarrow>
     string + (history_manifest \<times> history_summary \<times> build_state) \<times> hist_fs" where
  "finish e summary_size source_size source_mtime_ns source_prefix_hash b fs =
     and_then (settle_interrupted_work e (tl_last_seq b) ''Session ended before tool result'' b fs) (\<lambda>(b, fs).
     and_then (finish_subs e (hb_subhistories b) fs) (\<lambda>(ss, fs).
     and_then (flush_entries_page e (b\<lparr>hb_subhistories := ss\<rparr>) fs) (\<lambda>(b, fs).
       (let summary =
              \<lparr>hs_run_id = tl_run_id b, hs_generation_id = tl_generation_id b,
               hs_page_count = tl_page_count b, hs_total_entries = hb_total_entries b,
               hs_total_turns = hb_total_turns b, hs_last_seq = tl_last_seq b,
               hs_source_size = source_size, hs_source_mtime_ns = source_mtime_ns,
               hs_latest_cursor = (if 0 < tl_page_count b
                                   then Some (cursor (tl_generation_id b) (tl_page_count b)) else None),
               hs_state_events = summary_events b\<rparr>;
            manifest =
              \<lparr>hm_format_version = FORMAT_VERSION, hm_builder_version = BUILDER_VERSION,
               hm_generation_id = tl_generation_id b, hm_source_size = source_size,
               hm_source_mtime_ns = source_mtime_ns, hm_source_prefix_hash = source_prefix_hash,
               hm_last_seq = tl_last_seq b, hm_page_count = tl_page_count b,
               hm_total_entries = hb_total_entries b, hm_total_turns = hb_total_turns b,
               hm_complete = True\<rparr>
        in if CONTENT_CHUNK_LIMIT < summary_size summary
           then Inl (''history summary exceeds hard limit: '' @ show_nat (summary_size summary))
           else and_then (file_op e [] fs) (\<lambda>fs. Inr ((manifest, summary, b), fs))))))"

end
