(* ===== verification/History_Scan.thy ===== *)
theory History_Scan
  imports History_Content
begin

text \<open>
  Lines that are too long to parse in memory (\<open>storage/history.rs\<close>): reading a line into memory or
  into a file, the scanner that picks the metadata out of an oversized envelope, and the extraction
  of one string or value of it into a spool.

  The scanner's reader is the list of the bytes not yet read; a byte it puts back is the head of
  that list again. The reader of the log is the list of the chunks its \<open>fill\_buf\<close> hands out.
  Reading the file of a line back is taken to succeed once it is open.
\<close>

abbreviation dquote :: char where "dquote \<equiv> CHR 0x22"
abbreviation backslash :: char where "backslash \<equiv> CHR 0x5C"

section \<open>Reading a line\<close>

datatype scanned_line = Eof_Line | Inline_Line string nat | External_Line string nat nat

definition line_at_eof :: "string \<Rightarrow> string option \<Rightarrow> nat \<Rightarrow> scanned_line" where
  "line_at_eof inl ext n =
     (if n = 0 then Eof_Line
      else (case ext of Some bytes \<Rightarrow> External_Line bytes n n | None \<Rightarrow> Inline_Line inl n))"

definition line_at_newline :: "string \<Rightarrow> string option \<Rightarrow> nat \<Rightarrow> scanned_line" where
  "line_at_newline inl ext n =
     (case ext of Some bytes \<Rightarrow> External_Line bytes n (n + 1) | None \<Rightarrow> Inline_Line (strip_cr inl) (n + 1))"

text \<open>The bytes of one chunk go into memory, or into the file once the line is too long.\<close>

definition take_data ::
  "hist_env \<Rightarrow> string \<Rightarrow> string \<Rightarrow> string option \<Rightarrow> hist_fs \<Rightarrow> string + (string \<times> string option) \<times> hist_fs" where
  "take_data e data inl ext fs =
     and_then
       (if ext = None \<and> PARSE_LINE_LIMIT < length inl + length data then
          and_then (file_op e ''create oversized history event: '' fs) (\<lambda>fs.
          and_then (file_op e [] fs) (\<lambda>fs. Inr (([], Some inl), fs)))
        else Inr ((inl, ext), fs)) (\<lambda>((inl, ext), fs).
       case ext of
         Some bytes \<Rightarrow> and_then (file_op e [] fs) (\<lambda>fs. Inr ((inl, Some (bytes @ data)), fs))
       | None \<Rightarrow> Inr ((inl @ data, None), fs))"

fun read_bounded_line ::
  "hist_env \<Rightarrow> string list \<Rightarrow> string \<Rightarrow> string option \<Rightarrow> nat \<Rightarrow> hist_fs \<Rightarrow>
     string + scanned_line \<times> string list \<times> hist_fs" where
  "read_bounded_line e [] inl ext n fs = Inr (line_at_eof inl ext n, [], fs)"
| "read_bounded_line e (ch # chs) inl ext n fs =
     (if ch = [] then Inr (line_at_eof inl ext n, [], fs)
      else
        and_then (take_data e (first_line ch) inl ext fs) (\<lambda>((inl, ext), fs).
          (let n = n + length (first_line ch) in
           if after_line ch = [] then read_bounded_line e chs inl ext n fs
           else Inr (line_at_newline inl ext n,
                     if tl (after_line ch) = [] then chs else tl (after_line ch) # chs, fs))))"

section \<open>The metadata of an oversized envelope\<close>

text \<open>\<open>non\_whitespace\<close>: the next byte that is not white space, and what follows it.\<close>

definition non_whitespace :: "string \<Rightarrow> (char \<times> string) option" where
  "non_whitespace s = (case dropWhile is_ascii_ws s of [] \<Rightarrow> None | c # r \<Rightarrow> Some (c, r))"

lemma non_whitespace_rest: "non_whitespace s = Some (c, r) \<Longrightarrow> length r < length s"
  using length_dropWhile_le [of is_ascii_ws s] by (auto simp: non_whitespace_def split: list.splits)

lemma ok_or_Inr_iff [simp]: "ok_or v err = Inr x \<longleftrightarrow> v = Some x"
  by (cases v) auto

lemma non_whitespace_step: "ok_or (non_whitespace s) err = Inr (c, r) \<Longrightarrow> length r < length s"
  by (simp add: non_whitespace_rest)

fun take_string :: "string \<Rightarrow> string \<Rightarrow> bool \<Rightarrow> string \<Rightarrow> string + string \<times> string" where
  "take_string label enc escaped [] = Inl (''unterminated oversized JSON '' @ label)"
| "take_string label enc escaped (c # rest) =
     (let enc = enc @ [c] in
      if MAX_JSON_SCALAR_BYTES < length enc
      then Inl (''oversized JSON '' @ label @ '' exceeds hard limit: '' @ show_nat MAX_JSON_SCALAR_BYTES)
      else if escaped then take_string label enc False rest
      else if c = backslash then take_string label enc True rest
      else if c = dquote then Inr (enc, rest)
      else take_string label enc False rest)"

definition scan_string :: "codec \<Rightarrow> string \<Rightarrow> string \<Rightarrow> string + string \<times> string" where
  "scan_string cd label rest =
     and_then (take_string label [dquote] False rest) (\<lambda>(enc, rest).
     and_then (ok_or (Option.bind (jc_parse cd enc) as_str) (''invalid oversized JSON '' @ label)) (\<lambda>s.
       Inr (s, rest)))"

fun skip_string :: "bool \<Rightarrow> string \<Rightarrow> string + string" where
  "skip_string escaped [] = Inl ''unterminated oversized JSON string''"
| "skip_string escaped (c # rest) =
     (if escaped then skip_string False rest
      else if c = backslash then skip_string True rest
      else if c = dquote then Inr rest
      else skip_string False rest)"

definition value_end :: "char \<Rightarrow> bool" where
  "value_end c = (c = CHR '','' \<or> c = CHR ''}'' \<or> c = CHR '']'')"

fun take_scalar :: "string \<Rightarrow> string \<Rightarrow> string + string \<times> string" where
  "take_scalar enc [] = Inr (enc, [])"
| "take_scalar enc (c # rest) =
     (if value_end c then Inr (enc, c # rest)
      else if MAX_JSON_SCALAR_BYTES < length (enc @ [c])
      then Inl (''oversized JSON scalar exceeds hard limit: '' @ show_nat MAX_JSON_SCALAR_BYTES)
      else take_scalar (enc @ [c]) rest)"

definition strip_ascii_ws :: "string \<Rightarrow> string" where
  "strip_ascii_ws s = rev (dropWhile is_ascii_ws (rev s))"

definition scan_scalar :: "codec \<Rightarrow> char \<Rightarrow> string \<Rightarrow> string + json \<times> string" where
  "scan_scalar cd c rest =
     and_then (take_scalar [c] rest) (\<lambda>(enc, rest).
     and_then (ok_or (jc_parse cd (strip_ascii_ws enc)) ''invalid oversized JSON scalar'') (\<lambda>v.
       Inr (v, rest)))"

definition opens :: "char \<Rightarrow> bool" where
  "opens c = (c = CHR ''{'' \<or> c = CHR ''['')"

definition closes :: "char \<Rightarrow> bool" where
  "closes c = (c = CHR ''}'' \<or> c = CHR '']'')"

definition closer :: "char \<Rightarrow> char" where
  "closer c = (if c = CHR ''{'' then CHR ''}'' else CHR '']'')"

definition nesting_error :: string where
  "nesting_error =
     ''oversized JSON metadata nesting exceeds hard limit: '' @ show_nat MAX_JSON_NESTING_DEPTH"

text \<open>
  One byte inside an object or array, where the stack holds the closing bytes still expected: it is
  empty once the value is complete.
\<close>

definition nested_step :: "string \<Rightarrow> bool \<Rightarrow> bool \<Rightarrow> char \<Rightarrow> string + string \<times> bool \<times> bool" where
  "nested_step stack ins escaped c =
     (if ins then
        (if escaped then Inr (stack, True, False)
         else if c = backslash then Inr (stack, True, True)
         else Inr (stack, c \<noteq> dquote, False))
      else if c = dquote then Inr (stack, True, escaped)
      else if opens c then
        (if MAX_JSON_NESTING_DEPTH \<le> length stack then Inl nesting_error
         else Inr (closer c # stack, False, escaped))
      else if closes c then
        (if stack = [] \<or> hd stack \<noteq> c then Inl ''mismatched oversized JSON metadata delimiter''
         else Inr (tl stack, False, escaped))
      else Inr (stack, False, escaped))"

fun skip_nested :: "string \<Rightarrow> bool \<Rightarrow> bool \<Rightarrow> string \<Rightarrow> string + string" where
  "skip_nested stack ins escaped [] = Inl ''unterminated oversized JSON metadata value''"
| "skip_nested stack ins escaped (c # rest) =
     and_then (nested_step stack ins escaped c) (\<lambda>(stack, ins, escaped).
       if stack = [] then Inr rest else skip_nested stack ins escaped rest)"

definition skip_value :: "codec \<Rightarrow> char \<Rightarrow> string \<Rightarrow> string + string" where
  "skip_value cd c rest =
     (if c = dquote then skip_string False rest
      else if \<not> opens c then and_then (scan_scalar cd c rest) (\<lambda>(v, rest). Inr rest)
      else skip_nested [closer c] False False rest)"

definition string_or_skip :: "codec \<Rightarrow> char \<Rightarrow> string \<Rightarrow> string \<Rightarrow> string + string option \<times> string" where
  "string_or_skip cd c label rest =
     (if c = dquote then and_then (scan_string cd label rest) (\<lambda>(s, rest). Inr (Some s, rest))
      else and_then (skip_value cd c rest) (\<lambda>rest. Inr (None, rest)))"

fun take_nested :: "string \<Rightarrow> string \<Rightarrow> string \<Rightarrow> bool \<Rightarrow> bool \<Rightarrow> string \<Rightarrow> string + string \<times> string" where
  "take_nested label enc stack ins escaped [] = Inl (''unterminated oversized JSON '' @ label)"
| "take_nested label enc stack ins escaped (c # rest) =
     (if ENTRY_BYTE_LIMIT < length (enc @ [c])
      then Inl (''oversized JSON '' @ label @ '' exceeds hard limit: '' @ show_nat ENTRY_BYTE_LIMIT)
      else
        and_then (nested_step stack ins escaped c) (\<lambda>(stack, ins, escaped).
          if stack = [] then Inr (enc @ [c], rest)
          else take_nested label (enc @ [c]) stack ins escaped rest))"

definition bounded_value :: "codec \<Rightarrow> char \<Rightarrow> string \<Rightarrow> string \<Rightarrow> string + json \<times> string" where
  "bounded_value cd c label rest =
     (if \<not> opens c then scan_scalar cd c rest
      else
        and_then (take_nested label [c] [closer c] False False rest) (\<lambda>(enc, rest).
        and_then (ok_or (jc_parse cd enc) (''invalid oversized JSON '' @ label)) (\<lambda>v. Inr (v, rest))))"

text \<open>Every part of the scanner reads on.\<close>

lemma take_string_rest: "take_string l enc b s = Inr (enc', r) \<Longrightarrow> length r < length s"
  by (induction l enc b s rule: take_string.induct) (fastforce simp: Let_def split: if_splits)+

lemma scan_string_rest: "scan_string cd l s = Inr (v, r) \<Longrightarrow> length r < length s"
  by (auto simp: scan_string_def and_then_Inr_iff dest: take_string_rest)

lemma skip_string_rest: "skip_string b s = Inr r \<Longrightarrow> length r < length s"
  by (induction b s rule: skip_string.induct) (fastforce split: if_splits)+

lemma take_scalar_rest: "take_scalar enc s = Inr (enc', r) \<Longrightarrow> length r \<le> length s"
  by (induction enc s rule: take_scalar.induct) (fastforce split: if_splits)+

lemma scan_scalar_rest: "scan_scalar cd c s = Inr (v, r) \<Longrightarrow> length r \<le> length s"
  by (auto simp: scan_scalar_def and_then_Inr_iff dest: take_scalar_rest)

lemma skip_nested_rest: "skip_nested st i b s = Inr r \<Longrightarrow> length r < length s"
proof (induction s arbitrary: st i b)
  case (Cons c s)
  then show ?case
    by (auto simp: and_then_Inr_iff split: if_splits) (use less_SucI in blast)+
qed simp

lemma skip_value_rest: "skip_value cd c s = Inr r \<Longrightarrow> length r \<le> length s"
  by (auto simp: skip_value_def and_then_Inr_iff split: if_splits
      dest: skip_string_rest skip_nested_rest scan_scalar_rest)

lemma string_or_skip_rest: "string_or_skip cd c l s = Inr (v, r) \<Longrightarrow> length r \<le> length s"
  by (auto simp: string_or_skip_def and_then_Inr_iff split: if_splits
      dest: scan_string_rest skip_value_rest)

lemma take_nested_rest: "take_nested l enc st i b s = Inr (enc', r) \<Longrightarrow> length r < length s"
proof (induction s arbitrary: enc st i b)
  case (Cons c s)
  then show ?case
    by (auto simp: and_then_Inr_iff split: if_splits) (use less_SucI in blast)+
qed simp

lemma bounded_value_rest: "bounded_value cd c l s = Inr (v, r) \<Longrightarrow> length r \<le> length s"
  by (auto simp: bounded_value_def and_then_Inr_iff split: if_splits
      dest: take_nested_rest scan_scalar_rest)

text \<open>The key of a member and the first byte of its value.\<close>

definition scan_key ::
  "codec \<Rightarrow> string \<Rightarrow> string \<Rightarrow> string \<Rightarrow> string + string \<times> char \<times> string" where
  "scan_key cd label noun rest =
     and_then (scan_string cd label rest) (\<lambda>(key, rest).
     and_then (ok_or (non_whitespace rest) (''invalid oversized event '' @ noun @ '' separator'')) (\<lambda>(c, rest).
       if c \<noteq> CHR '':'' then Inl (''invalid oversized event '' @ noun @ '' separator'')
       else
         and_then (ok_or (non_whitespace rest) (''missing oversized event '' @ noun @ '' value'')) (\<lambda>(v, rest).
           Inr (key, v, rest))))"

lemma scan_key_rest: "scan_key cd l n s = Inr (k, v, r) \<Longrightarrow> length r < length s"
  by (auto simp: scan_key_def and_then_Inr_iff split: if_splits
      dest!: scan_string_rest non_whitespace_rest)

definition METADATA_STRINGS :: "string list" where
  "METADATA_STRINGS =
     [''type'', ''message_id'', ''tool_use_id'', ''tool_name'', ''status'', ''parent_tool_use_id'',
      ''uuid'', ''client_uuid'', ''model'']"

type_synonym metadata = "(string \<times> json) list"

definition event_field ::
  "codec \<Rightarrow> string \<Rightarrow> char \<Rightarrow> string \<Rightarrow> metadata \<Rightarrow> string + metadata \<times> string" where
  "event_field cd key c rest meta =
     (if key \<in> set METADATA_STRINGS then
        and_then (string_or_skip cd c ''event metadata string'' rest) (\<lambda>(v, rest).
          Inr (case v of Some s \<Rightarrow> jinsert key (JStr s) meta | None \<Rightarrow> meta, rest))
      else if key = ''duration_ms'' then
        (if opens c then and_then (skip_value cd c rest) (\<lambda>rest. Inr (meta, rest))
         else
           and_then (scan_scalar cd c rest) (\<lambda>(v, rest).
             Inr (case as_u64 v of Some n \<Rightarrow> jinsert key (jnat n) meta | None \<Rightarrow> meta, rest)))
      else if key = ''attachments'' \<and> c = CHR ''['' then
        and_then (bounded_value cd c ''event attachments'' rest) (\<lambda>(v, rest). Inr (jinsert key v meta, rest))
      else and_then (skip_value cd c rest) (\<lambda>rest. Inr (meta, rest)))"

lemma event_field_rest: "event_field cd k c s m = Inr (m', r) \<Longrightarrow> length r \<le> length s"
  by (auto simp: event_field_def and_then_Inr_iff split: if_splits
      dest: string_or_skip_rest skip_value_rest scan_scalar_rest bounded_value_rest)

function event_members :: "codec \<Rightarrow> string \<Rightarrow> metadata \<Rightarrow> string + metadata \<times> string" where
  "event_members cd s meta =
     and_then (ok_or (non_whitespace s) ''unterminated oversized event object'') (\<lambda>(c, r1).
       if c = CHR ''}'' then Inr (meta, r1)
       else if c \<noteq> dquote then Inl ''invalid oversized event metadata key''
       else
         and_then (scan_key cd ''event metadata key'' ''metadata'' r1) (\<lambda>(key, v, r2).
         and_then (event_field cd key v r2 meta) (\<lambda>(meta, r3).
         and_then (ok_or (non_whitespace r3) ''invalid oversized event metadata delimiter'') (\<lambda>(d, r4).
           if d = CHR '','' then event_members cd r4 meta
           else if d = CHR ''}'' then Inr (meta, r4)
           else Inl ''invalid oversized event metadata delimiter''))))"
  by pat_completeness auto
termination
  by (relation "measure (\<lambda>(cd, s, m). length s)")
    (auto dest!: non_whitespace_rest scan_key_rest event_field_rest)

declare event_members.simps [simp del]

lemma event_members_rest: "event_members cd s m = Inr (m', r) \<Longrightarrow> length r \<le> length s"
proof (induction cd s m rule: event_members.induct)
  case (1 cd s meta)
  from "1.prems" obtain c r1 where c: "non_whitespace s = Some (c, r1)"
    by (auto simp: event_members.simps [of cd s] and_then_Inr_iff)
  then have l: "length r1 < length s" by (rule non_whitespace_rest)
  show ?case
  proof (cases "c = CHR ''}'' \<or> c \<noteq> dquote")
    case True
    with "1.prems" c l show ?thesis by (auto simp: event_members.simps [of cd s] split: if_splits)
  next
    case False
    note unfolded = "1.prems" [unfolded event_members.simps [of cd s]]
    from unfolded c False obtain key v r2 where
      k: "scan_key cd ''event metadata key'' ''metadata'' r1 = Inr (key, v, r2)"
      by (cases "scan_key cd ''event metadata key'' ''metadata'' r1") auto
    from unfolded c False k obtain meta' r3 where f: "event_field cd key v r2 meta = Inr (meta', r3)"
      by (cases "event_field cd key v r2 meta") auto
    from unfolded c False k f obtain d r4 where d: "non_whitespace r3 = Some (d, r4)"
      by (cases "non_whitespace r3") auto
    from unfolded c False k f d have
      res: "(if d = CHR '','' then event_members cd r4 meta' else if d = CHR ''}'' then Inr (meta', r4)
             else Inl ''invalid oversized event metadata delimiter'') = Inr (m', r)"
      by simp
    from k f d l have "length r4 < length s"
      by (auto dest!: non_whitespace_rest scan_key_rest event_field_rest)
    moreover have "length r \<le> length r4"
      using res "1.IH" [of "(c, r1)" c r1 "(key, v, r2)" key "(v, r2)" v r2 "(meta', r3)" meta' r3 "(d, r4)" d r4]
        c k f d False by (auto split: if_splits)
    ultimately show ?thesis by simp
  qed
qed

definition scan_event :: "codec \<Rightarrow> char \<Rightarrow> string \<Rightarrow> metadata \<Rightarrow> string + metadata \<times> string" where
  "scan_event cd c rest meta =
     (if c \<noteq> CHR ''{'' then and_then (skip_value cd c rest) (\<lambda>rest. Inr (meta, rest))
      else event_members cd rest meta)"

definition envelope_field ::
  "codec \<Rightarrow> string \<Rightarrow> char \<Rightarrow> string \<Rightarrow> metadata \<Rightarrow> string + metadata \<times> string" where
  "envelope_field cd key c rest meta =
     (if key = ''seq'' then
        and_then (scan_scalar cd c rest) (\<lambda>(v, rest).
          Inr (case as_u64 v of Some n \<Rightarrow> jinsert ''seq'' (jnat n) meta | None \<Rightarrow> meta, rest))
      else if key = ''ts'' then
        and_then (string_or_skip cd c ''timestamp'' rest) (\<lambda>(v, rest).
          Inr (case v of Some s \<Rightarrow> jinsert ''ts'' (JStr s) meta | None \<Rightarrow> meta, rest))
      else if key = ''event'' then scan_event cd c rest meta
      else and_then (skip_value cd c rest) (\<lambda>rest. Inr (meta, rest)))"

lemma envelope_field_rest: "envelope_field cd k c s m = Inr (m', r) \<Longrightarrow> length r \<le> length s"
  by (auto simp: envelope_field_def scan_event_def and_then_Inr_iff split: if_splits
      dest: string_or_skip_rest skip_value_rest scan_scalar_rest event_members_rest)

function envelope_members :: "codec \<Rightarrow> string \<Rightarrow> metadata \<Rightarrow> string + metadata" where
  "envelope_members cd s meta =
     and_then (ok_or (non_whitespace s) ''unterminated oversized event envelope'') (\<lambda>(c, r1).
       if c = CHR ''}'' then Inr meta
       else if c \<noteq> dquote then Inl ''invalid oversized event envelope key''
       else
         and_then (scan_key cd ''envelope key'' ''envelope'' r1) (\<lambda>(key, v, r2).
         and_then (envelope_field cd key v r2 meta) (\<lambda>(meta, r3).
         and_then (ok_or (non_whitespace r3) ''invalid oversized event envelope delimiter'') (\<lambda>(d, r4).
           if d = CHR '','' then envelope_members cd r4 meta
           else if d = CHR ''}'' then Inr meta
           else Inl ''invalid oversized event envelope delimiter''))))"
  by pat_completeness auto
termination
  by (relation "measure (\<lambda>(cd, s, m). length s)")
    (auto dest!: non_whitespace_rest scan_key_rest envelope_field_rest)

declare envelope_members.simps [simp del]

text \<open>\<open>bytes\<close>: the file of the line.\<close>

definition oversized_metadata :: "hist_env \<Rightarrow> string \<Rightarrow> hist_fs \<Rightarrow> string + json \<times> hist_fs" where
  "oversized_metadata e bytes fs =
     and_then (file_op e [] fs) (\<lambda>fs.
     and_then (ok_or (non_whitespace bytes) ''oversized event envelope must be an object'') (\<lambda>(c, rest).
       if c \<noteq> CHR ''{'' then Inl ''oversized event envelope must be an object''
       else and_then (envelope_members (he_codec e) rest []) (\<lambda>meta. Inr (JObj meta, fs))))"

end
