(* ===== verification/History_Extract.thy ===== *)
theory History_Extract
  imports History_Scan
begin

text \<open>
  Extraction of one field of an oversized envelope into a spool (\<open>storage/history.rs\<close>): the search
  for the key two levels deep, the decoder of a JSON string and the copy of a JSON value. The bytes
  collected are handed to the spool in blocks, as far as they are complete UTF-8.
\<close>

section \<open>UTF-8 in blocks\<close>

definition OUTPUT_BLOCK :: nat where "OUTPUT_BLOCK = 16 * 1024"

definition flush_utf8_bytes ::
  "hist_env \<Rightarrow> bool \<Rightarrow> string \<Rightarrow> spool \<Rightarrow> hist_fs \<Rightarrow> string + (string \<times> spool) \<times> hist_fs" where
  "flush_utf8_bytes e final_chunk out spool fs =
     and_then
       (if utf8_valid out then Inr (length out)
        else if \<not> final_chunk \<and> cut_off (drop (valid_up_to out) out) then Inr (valid_up_to out)
        else Inl ''invalid UTF-8 in oversized JSON string'') (\<lambda>valid.
       if 0 < valid then
         and_then (spool_append e (take valid out) spool fs) (\<lambda>(spool, fs).
           Inr ((drop valid out, spool), fs))
       else Inr ((out, spool), fs))"

section \<open>Decoding a string\<close>

definition hex_value :: "char \<Rightarrow> nat option" where
  "hex_value c =
     (let n = byte c in
      if 48 \<le> n \<and> n \<le> 57 then Some (n - 48)
      else if 65 \<le> n \<and> n \<le> 70 then Some (n - 55)
      else if 97 \<le> n \<and> n \<le> 102 then Some (n - 87) else None)"

fun hex_digits :: "nat \<Rightarrow> string \<Rightarrow> nat option" where
  "hex_digits acc [] = Some acc"
| "hex_digits acc (c # cs) = Option.bind (hex_value c) (\<lambda>d. hex_digits (acc * 16 + d) cs)"

text \<open>\<open>u16::from\_str\_radix(digits, 16)\<close> of four bytes, which may start with a plus sign.\<close>

definition parse_hex4 :: "string \<Rightarrow> nat option" where
  "parse_hex4 s = hex_digits 0 (if s \<noteq> [] \<and> hd s = CHR ''+'' then tl s else s)"

text \<open>\<open>char::encode\_utf8\<close>.\<close>

definition encode_utf8 :: "nat \<Rightarrow> string" where
  "encode_utf8 n =
     map char_of
       (if n < 128 then [n]
        else if n < 2048 then [192 + n div 64, 128 + n mod 64]
        else if n < 65536 then [224 + n div 4096, 128 + n div 64 mod 64, 128 + n mod 64]
        else [240 + n div 262144, 128 + n div 4096 mod 64, 128 + n div 64 mod 64, 128 + n mod 64])"

text \<open>
  The shift and the disjunction of the source are a product and a sum: the ten low bits of the
  shifted part are zero. The scalar is never a surrogate and never above U+10FFFF.
\<close>

definition append_json_utf16_unit ::
  "string \<Rightarrow> nat option \<Rightarrow> nat \<Rightarrow> string + string \<times> nat option" where
  "append_json_utf16_unit out high v =
     (if 0xD800 \<le> v \<and> v \<le> 0xDBFF then
        (if high \<noteq> None then Inl ''consecutive high surrogates in oversized JSON string''
         else Inr (out, Some v))
      else if 0xDC00 \<le> v \<and> v \<le> 0xDFFF then
        (case high of
           None \<Rightarrow> Inl ''unpaired low surrogate in oversized JSON string''
         | Some h \<Rightarrow> Inr (out @ encode_utf8 (0x10000 + ((h - 0xD800) * 1024 + (v - 0xDC00))), None))
      else if high \<noteq> None then Inl ''unpaired high surrogate in oversized JSON string''
      else Inr (out @ encode_utf8 v, None))"

record capture =
  cp_output :: string
  cp_escaped :: bool
  cp_unicode :: "string option"
  cp_high :: "nat option"

text \<open>\<open>byte as char\<close> pushed on a string: a byte from 128 on takes two.\<close>

definition pushed_char :: "char \<Rightarrow> string" where
  "pushed_char c = encode_utf8 (byte c)"

definition unescape :: "char \<Rightarrow> char option" where
  "unescape c =
     (if c = dquote \<or> c = backslash \<or> c = CHR ''/'' then Some c
      else if c = CHR ''b'' then Some (CHR 0x08)
      else if c = CHR ''f'' then Some (CHR 0x0C)
      else if c = CHR ''n'' then Some (CHR 0x0A)
      else if c = CHR ''r'' then Some (CHR 0x0D)
      else if c = CHR ''t'' then Some (CHR 0x09)
      else None)"

definition unpaired_high :: string where
  "unpaired_high = ''unpaired high surrogate in oversized JSON string''"

definition string_closed :: "capture \<Rightarrow> char \<Rightarrow> bool" where
  "string_closed cs c = (cp_unicode cs = None \<and> \<not> cp_escaped cs \<and> c = dquote)"

text \<open>One byte of the string that does not close it.\<close>

definition capture_byte :: "capture \<Rightarrow> char \<Rightarrow> string + capture" where
  "capture_byte cs c =
     (case cp_unicode cs of
        Some digits \<Rightarrow>
          (let digits = digits @ pushed_char c in
           if length digits = 4 then
             and_then (ok_or (parse_hex4 digits) ''decode oversized JSON string'') (\<lambda>v.
             and_then (append_json_utf16_unit (cp_output cs) (cp_high cs) v) (\<lambda>(out, high).
               Inr \<lparr>cp_output = out, cp_escaped = False, cp_unicode = None, cp_high = high\<rparr>))
           else Inr (cs\<lparr>cp_unicode := Some digits\<rparr>))
      | None \<Rightarrow>
          (if cp_escaped cs then
             (if cp_high cs \<noteq> None \<and> c \<noteq> CHR ''u'' then Inl unpaired_high
              else if c = CHR ''u'' then Inr (cs\<lparr>cp_unicode := Some []\<rparr>)
              else
                and_then (ok_or (unescape c) ''invalid escape in oversized JSON string'') (\<lambda>d.
                  Inr (cs\<lparr>cp_output := cp_output cs @ [d], cp_escaped := False\<rparr>)))
           else if c = backslash then Inr (cs\<lparr>cp_escaped := True\<rparr>)
           else if cp_high cs \<noteq> None then Inl unpaired_high
           else Inr (cs\<lparr>cp_output := cp_output cs @ [c]\<rparr>)))"

definition flush_block ::
  "hist_env \<Rightarrow> string \<Rightarrow> spool \<Rightarrow> hist_fs \<Rightarrow> string + (string \<times> spool) \<times> hist_fs" where
  "flush_block e out spool fs =
     (if OUTPUT_BLOCK \<le> length out then flush_utf8_bytes e False out spool fs else Inr ((out, spool), fs))"

fun capture_string ::
  "hist_env \<Rightarrow> capture \<Rightarrow> spool \<Rightarrow> string \<Rightarrow> hist_fs \<Rightarrow> string + spool \<times> hist_fs" where
  "capture_string e cs spool [] fs = Inl ''unterminated oversized JSON string''"
| "capture_string e cs spool (c # rest) fs =
     (if string_closed cs c then
        (if cp_high cs \<noteq> None then Inl unpaired_high
         else and_then (flush_utf8_bytes e True (cp_output cs) spool fs) (\<lambda>((out, spool), fs). Inr (spool, fs)))
      else
        and_then (capture_byte cs c) (\<lambda>cs.
        and_then (flush_block e (cp_output cs) spool fs) (\<lambda>((out, spool), fs).
          capture_string e (cs\<lparr>cp_output := out\<rparr>) spool rest fs)))"

definition capture_json_string :: "hist_env \<Rightarrow> string \<Rightarrow> hist_fs \<Rightarrow> string + spool \<times> hist_fs" where
  "capture_json_string e rest fs =
     capture_string e \<lparr>cp_output = [], cp_escaped = False, cp_unicode = None, cp_high = None\<rparr> spool_new rest fs"

section \<open>Copying a value\<close>

definition validate_json_scalar :: "codec \<Rightarrow> string \<Rightarrow> string + unit" where
  "validate_json_scalar cd bytes =
     (if \<not> utf8_valid bytes then Inl ''invalid UTF-8 in oversized JSON scalar''
      else
        (case jc_parse cd bytes of
           None \<Rightarrow> Inl ''invalid oversized JSON scalar''
         | Some v \<Rightarrow>
             (case v of
                JArr _ \<Rightarrow> Inl ''invalid oversized JSON scalar''
              | JObj _ \<Rightarrow> Inl ''invalid oversized JSON scalar''
              | JStr _ \<Rightarrow> Inl ''invalid oversized JSON scalar''
              | _ \<Rightarrow> Inr ())))"

definition flush_last :: "hist_env \<Rightarrow> string \<Rightarrow> spool \<Rightarrow> hist_fs \<Rightarrow> string + spool \<times> hist_fs" where
  "flush_last e out spool fs =
     and_then (flush_utf8_bytes e True out spool fs) (\<lambda>((out, spool), fs). Inr (spool, fs))"

definition flush_scalar :: "hist_env \<Rightarrow> string \<Rightarrow> spool \<Rightarrow> hist_fs \<Rightarrow> string + spool \<times> hist_fs" where
  "flush_scalar e out spool fs =
     (let out = strip_ascii_ws out in
      and_then (validate_json_scalar (he_codec e) out) (\<lambda>_. flush_last e out spool fs))"

definition value_nesting_error :: string where
  "value_nesting_error = ''oversized JSON value nesting exceeds hard limit: '' @ show_nat MAX_JSON_NESTING_DEPTH"

text \<open>
  The loop of the source keeps the output, the closing bytes expected, whether it is in a string and
  behind a backslash, and counts the bytes of a scalar. A byte continues the value, completes it, or
  completes a scalar that is still to be checked.
\<close>

datatype value_move =
    Continue_Value string string bool bool nat
  | Complete_Value string
  | Complete_Scalar string

definition value_step ::
  "bool \<Rightarrow> string \<Rightarrow> string \<Rightarrow> bool \<Rightarrow> bool \<Rightarrow> nat \<Rightarrow> char \<Rightarrow> string + value_move" where
  "value_step scalar out stack ins escaped n c =
     (if ins then
        (if escaped then Inr (Continue_Value (out @ [c]) stack True False n)
         else if c = backslash then Inr (Continue_Value (out @ [c]) stack True True n)
         else if c = dquote then
           (if stack = [] then Inr (Complete_Value (out @ [c]))
            else Inr (Continue_Value (out @ [c]) stack False False n))
         else Inr (Continue_Value (out @ [c]) stack True False n))
      else if c = dquote then Inr (Continue_Value (out @ [c]) stack True escaped n)
      else if opens c then
        (if MAX_JSON_NESTING_DEPTH \<le> length stack then Inl value_nesting_error
         else Inr (Continue_Value (out @ [c]) (closer c # stack) False escaped n))
      else if closes c then
        (if stack = [] then
           (if scalar then Inr (Complete_Value out) else Inl ''unbalanced oversized JSON value'')
         else if hd stack \<noteq> c then Inl ''mismatched oversized JSON value delimiter''
         else if tl stack = [] then Inr (Complete_Value (out @ [c]))
         else Inr (Continue_Value (out @ [c]) (tl stack) False escaped n))
      else if scalar \<and> c = CHR '','' then Inr (Complete_Scalar out)
      else if scalar \<and> MAX_JSON_SCALAR_BYTES < n + 1
      then Inl (''oversized JSON scalar exceeds hard limit: '' @ show_nat MAX_JSON_SCALAR_BYTES)
      else Inr (Continue_Value (out @ [c]) stack False escaped (if scalar then n + 1 else n)))"

fun capture_value ::
  "hist_env \<Rightarrow> bool \<Rightarrow> string \<Rightarrow> string \<Rightarrow> bool \<Rightarrow> bool \<Rightarrow> nat \<Rightarrow> spool \<Rightarrow> string \<Rightarrow> hist_fs \<Rightarrow>
     string + spool \<times> hist_fs" where
  "capture_value e scalar out stack ins escaped n spool [] fs =
     (if scalar then flush_scalar e out spool fs else Inl ''unterminated oversized JSON value'')"
| "capture_value e scalar out stack ins escaped n spool (c # rest) fs =
     and_then (value_step scalar out stack ins escaped n c) (\<lambda>move.
       case move of
         Complete_Value out \<Rightarrow> flush_last e out spool fs
       | Complete_Scalar out \<Rightarrow> flush_scalar e out spool fs
       | Continue_Value out stack ins escaped n \<Rightarrow>
           and_then (if scalar then Inr ((out, spool), fs) else flush_block e out spool fs)
             (\<lambda>((out, spool), fs). capture_value e scalar out stack ins escaped n spool rest fs))"

definition capture_json_value :: "hist_env \<Rightarrow> char \<Rightarrow> string \<Rightarrow> hist_fs \<Rightarrow> string + spool \<times> hist_fs" where
  "capture_json_value e c rest fs =
     (let stack = (if opens c then [closer c] else []);
          scalar = (\<not> opens c \<and> c \<noteq> dquote)
      in capture_value e scalar [c] stack (c = dquote) False (if scalar then 1 else 0) spool_new rest fs)"

section \<open>Finding the field\<close>

text \<open>
  After the key: the bytes of the value if a colon (and for a string its quotation mark) follows,
  otherwise where the search goes on, with the bytes looked at gone.
\<close>

definition string_start :: "string \<Rightarrow> string + string" where
  "string_start rest =
     (case non_whitespace rest of
        None \<Rightarrow> Inl []
      | Some (c, rest) \<Rightarrow>
          (if c \<noteq> CHR '':'' then (if c = dquote then Inr rest else Inl rest)
           else
             (case non_whitespace rest of
                None \<Rightarrow> Inl []
              | Some (d, rest) \<Rightarrow> (if d = dquote then Inr rest else Inl rest))))"

definition value_start :: "string \<Rightarrow> string + string" where
  "value_start rest =
     (case non_whitespace rest of
        None \<Rightarrow> Inl []
      | Some (c, rest) \<Rightarrow>
          (if c \<noteq> CHR '':'' then Inl rest
           else (case non_whitespace rest of None \<Rightarrow> Inl [] | Some (d, rest) \<Rightarrow> Inr (d # rest))))"

definition field_start :: "bool \<Rightarrow> string \<Rightarrow> string + string" where
  "field_start is_text rest = (if is_text then string_start rest else value_start rest)"

lemma field_start_rest: "field_start t s = Inl r \<Longrightarrow> length r \<le> length s"
  by (auto simp: field_start_def string_start_def value_start_def split: option.splits if_splits
      dest!: non_whitespace_rest)

definition remember_byte :: "string \<Rightarrow> char \<Rightarrow> string" where
  "remember_byte candidate c = (if length candidate < 128 then candidate @ [c] else candidate)"

function find_field ::
  "bool \<Rightarrow> string \<Rightarrow> string \<Rightarrow> bool \<Rightarrow> bool \<Rightarrow> string \<Rightarrow> string \<Rightarrow> string + string option" where
  "find_field t key candidate ins escaped stack [] = Inr None"
| "find_field t key candidate ins escaped stack (c # rest) =
     (if ins then
        (if escaped then find_field t key (remember_byte candidate c) True False stack rest
         else if c = backslash then find_field t key candidate True True stack rest
         else if c = dquote then
           (if length stack = 2 \<and> candidate = key then
              (case field_start t rest of
                 Inr found \<Rightarrow> Inr (Some found)
               | Inl rest \<Rightarrow> find_field t key [] False False stack rest)
            else find_field t key [] False False stack rest)
         else find_field t key (remember_byte candidate c) True False stack rest)
      else if c = dquote then find_field t key [] True escaped stack rest
      else if opens c then
        (if MAX_JSON_NESTING_DEPTH \<le> length stack
         then Inl (''oversized JSON envelope nesting exceeds hard limit: '' @ show_nat MAX_JSON_NESTING_DEPTH)
         else find_field t key candidate False escaped (closer c # stack) rest)
      else if closes c then
        (if stack = [] \<or> hd stack \<noteq> c then Inl ''mismatched oversized JSON envelope delimiter''
         else find_field t key candidate False escaped (tl stack) rest)
      else find_field t key candidate False escaped stack rest)"
  by pat_completeness auto
termination
  by (relation "measure (\<lambda>(t, k, ca, i, es, st, s). length s)") (auto dest: field_start_rest)

definition extract_json_string_field ::
  "hist_env \<Rightarrow> string \<Rightarrow> string \<Rightarrow> hist_fs \<Rightarrow> string + spool option \<times> hist_fs" where
  "extract_json_string_field e key bytes fs =
     and_then (file_op e [] fs) (\<lambda>fs.
     and_then (find_field True key [] False False [] bytes) (\<lambda>found.
       case found of
         None \<Rightarrow> Inr (None, fs)
       | Some rest \<Rightarrow> and_then (capture_json_string e rest fs) (\<lambda>(s, fs). Inr (Some s, fs))))"

definition extract_json_value_field ::
  "hist_env \<Rightarrow> string \<Rightarrow> string \<Rightarrow> hist_fs \<Rightarrow> string + spool option \<times> hist_fs" where
  "extract_json_value_field e key bytes fs =
     and_then (file_op e [] fs) (\<lambda>fs.
     and_then (find_field False key [] False False [] bytes) (\<lambda>found.
       case found of
         Some (c # rest) \<Rightarrow> and_then (capture_json_value e c rest fs) (\<lambda>(s, fs). Inr (Some s, fs))
       | _ \<Rightarrow> Inr (None, fs)))"

end
