(* ===== verification/History_Lines.thy ===== *)
theory History_Lines
  imports History_Events History_Extract
begin

text \<open>
  The lines of a log in the history projection (\<open>storage/history.rs\<close>): an oversized line is
  projected from its metadata and the one field worth keeping, any other line is parsed and handled.
  \<open>project_lines\<close> is the loop of \<open>build_generation\<close>.
\<close>

section \<open>Oversized lines\<close>

text \<open>What an oversized text replaces: the content of the entry just pushed.\<close>

fun replace_content :: "history_content \<Rightarrow> history_entry \<Rightarrow> history_entry option" where
  "replace_content c (Assistant_Entry b _ th m) = Some (Assistant_Entry b c th m)"
| "replace_content c (User_Entry b _ u ats) = Some (User_Entry b c u ats)"
| "replace_content c (Command_Entry b _) = Some (Command_Entry b c)"
| "replace_content c _ = None"

definition replace_last :: "history_content \<Rightarrow> 'a timeline_scheme \<Rightarrow> 'a timeline_scheme option" where
  "replace_last c t =
     (if tl_page t = [] then None
      else map_option (\<lambda>x. t\<lparr>tl_page := butlast (tl_page t) @ [x]\<rparr>) (replace_content c (last (tl_page t))))"

definition replace_target ::
  "string option \<Rightarrow> history_content \<Rightarrow> build_state \<Rightarrow> build_state option" where
  "replace_target parent c b =
     (case parent of
        None \<Rightarrow> replace_last c b
      | Some p \<Rightarrow>
          Option.bind (map_of (hb_subhistories b) p) (\<lambda>s.
            map_option (\<lambda>s. b\<lparr>hb_subhistories := hm_insert p s (hb_subhistories b)\<rparr>) (replace_last c s)))"

definition oversized_text ::
  "hist_env \<Rightarrow> string \<Rightarrow> nat \<Rightarrow> string option \<Rightarrow> json \<Rightarrow> string \<Rightarrow> build_state \<Rightarrow> hist_fs \<Rightarrow> build_result" where
  "oversized_text e kind seq parent envelope bytes b fs =
     (let field = (if kind = ''command_output'' then ''content'' else ''text'') in
      and_then (extract_json_string_field e field bytes fs) (\<lambda>(found, fs).
      and_then (ok_or found (''oversized '' @ kind @ '' is missing '' @ field)) (\<lambda>s.
      and_then (handle_event e envelope b fs) (\<lambda>(b, fs).
      and_then (content_from_spool e (tl_run_id b) (tl_generation_id b)
                  (''oversized:'' @ kind @ '':'' @ show_nat seq @ '':text'') s fs) (\<lambda>(content, fs).
      and_then (ok_or (replace_target parent content b)
                  (''oversized '' @ kind @ '' did not create its semantic entry'')) (\<lambda>b.
      and_then (file_op e [] fs) (\<lambda>fs. Inr (b, fs))))))))"

type_synonym extracted = "(json \<times> history_content option) option"

fun oversized_entry :: "string \<Rightarrow> extracted \<Rightarrow> extracted \<Rightarrow> extracted \<Rightarrow> history_entry \<Rightarrow> history_entry" where
  "oversized_entry kind input output result (Tool_Entry b f) =
     Tool_Entry b
       (if kind = ''tool_start'' then
          (case input of Some (v, c) \<Rightarrow> f\<lparr>tf_input := v, tf_input_content := c\<rparr> | None \<Rightarrow> f)
        else
          (let f = (case output of Some (v, c) \<Rightarrow> f\<lparr>tf_output := v, tf_output_content := c\<rparr> | None \<Rightarrow> f)
           in case result of
                Some (v, c) \<Rightarrow> f\<lparr>tf_tool_use_result := Some v, tf_result_content := c\<rparr>
              | None \<Rightarrow> f))"
| "oversized_entry _ _ _ _ x = x"

definition extract_if ::
  "bool \<Rightarrow> hist_env \<Rightarrow> string \<Rightarrow> string \<Rightarrow> hist_fs \<Rightarrow> string + spool option \<times> hist_fs" where
  "extract_if wanted e key bytes fs =
     (if wanted then extract_json_value_field e key bytes fs else Inr (None, fs))"

definition bound_value ::
  "hist_env \<Rightarrow> build_state \<Rightarrow> string \<Rightarrow> spool option \<Rightarrow> hist_fs \<Rightarrow> string + extracted \<times> hist_fs" where
  "bound_value e b key s fs =
     (case s of
        None \<Rightarrow> Inr (None, fs)
      | Some s \<Rightarrow>
          and_then (bounded_json_spool e (tl_run_id b) (tl_generation_id b) key s fs)
            (\<lambda>(v, fs). Inr (Some v, fs)))"

definition update_scope_page ::
  "hist_env \<Rightarrow> tool_scope option \<Rightarrow> nat \<Rightarrow> string \<Rightarrow> (history_entry \<Rightarrow> history_entry) \<Rightarrow>
     build_state \<Rightarrow> hist_fs \<Rightarrow> build_result" where
  "update_scope_page e scope n i f b fs =
     (case scope of
        Some (Sub_Scope p) \<Rightarrow>
          and_then (ok_or (map_of (hb_subhistories b) p) (''missing subhistory owner: '' @ p)) (\<lambda>s.
          and_then (update_tool_page e n i f s fs) (\<lambda>(s, fs).
            Inr (b\<lparr>hb_subhistories := hm_insert p s (hb_subhistories b)\<rparr>, fs)))
      | _ \<Rightarrow> update_tool_page e n i f b fs)"

definition oversized_tool ::
  "hist_env \<Rightarrow> string \<Rightarrow> nat \<Rightarrow> json \<Rightarrow> json \<Rightarrow> string \<Rightarrow> build_state \<Rightarrow> hist_fs \<Rightarrow> build_result" where
  "oversized_tool e kind seq event envelope bytes b fs =
     and_then (ok_or (get_str event ''tool_use_id'') (''oversized '' @ kind @ '' is missing tool_use_id'')) (\<lambda>i.
     and_then (extract_if (kind = ''tool_start'') e ''input'' bytes fs) (\<lambda>(input, fs).
     and_then (extract_if (kind = ''tool_end'') e ''output'' bytes fs) (\<lambda>(output, fs).
     and_then (extract_if (kind = ''tool_end'') e ''tool_use_result'' bytes fs) (\<lambda>(result, fs).
       (let scope_before = (if kind = ''tool_end'' then open_tool_scope b i else None);
            page_before = Option.bind scope_before (\<lambda>sc. open_tool_page b sc i)
        in and_then (handle_event e envelope b fs) (\<lambda>(b, fs).
             (let scope = or_else scope_before (open_tool_scope b i);
                  page = or_else page_before (Option.bind scope (\<lambda>sc. open_tool_page b sc i));
                  key = (\<lambda>what. ''oversized:'' @ what @ '':'' @ i @ '':'' @ show_nat seq)
              in and_then (ok_or page (''oversized '' @ kind @ '' has no matching tool entry'')) (\<lambda>n.
                 and_then (bound_value e b (key ''input'') input fs) (\<lambda>(input, fs).
                 and_then (bound_value e b (key ''output'') output fs) (\<lambda>(output, fs).
                 and_then (bound_value e b (key ''result'') result fs) (\<lambda>(result, fs).
                 and_then (update_scope_page e scope n i (oversized_entry kind input output result) b fs)
                   (\<lambda>(b, fs).
                 and_then (file_op e [] fs) (\<lambda>fs. Inr (b, fs))))))))))))))"

definition oversized_placeholder ::
  "hist_env \<Rightarrow> nat \<Rightarrow> nat \<Rightarrow> string \<Rightarrow> string \<Rightarrow> nat \<Rightarrow> build_state \<Rightarrow> hist_fs \<Rightarrow> build_result" where
  "oversized_placeholder e line_no seq ts bytes byte_length b fs =
     (let i = ''oversized-line-'' @ show_nat line_no in
      and_then (publish_external_content e (tl_run_id b) (tl_generation_id b) i bytes byte_length fs)
        (\<lambda>(content, fs). push e b (Placeholder_Entry (base_at i ts seq seq) content) fs))"

definition oversized_envelope :: "string \<Rightarrow> nat \<Rightarrow> string \<Rightarrow> json \<Rightarrow> json" where
  "oversized_envelope run_id seq ts meta =
     JObj [(''_bus'', JBool True), (''seq'', jnat seq), (''ts'', JStr ts),
           (''event'', jset ''run_id'' (JStr run_id) meta)]"

definition handle_oversized_event ::
  "hist_env \<Rightarrow> string \<Rightarrow> nat \<Rightarrow> nat \<Rightarrow> build_state \<Rightarrow> hist_fs \<Rightarrow> build_result" where
  "handle_oversized_event e bytes byte_length line_no b fs =
     and_then (oversized_metadata e bytes fs) (\<lambda>(meta, fs).
       (let seq = unwrap_or (get_u64 meta ''seq'') (tl_last_seq b);
            ts = unwrap_or (get_str meta ''ts'') [];
            kind = unwrap_or (get_str meta ''type'') [];
            parent = normalized_parent_tool_use_id meta;
            event = jset ''run_id'' (JStr (tl_run_id b)) meta;
            envelope = oversized_envelope (tl_run_id b) seq ts meta
        in if is_duplicate_identity b kind event then
             and_then (handle_event e envelope b fs) (\<lambda>(b, fs).
             and_then (file_op e [] fs) (\<lambda>fs. Inr (b, fs)))
           else
             and_then
               (if kind = ''message_complete'' \<or> kind = ''user_message'' \<or> kind = ''command_output''
                then oversized_text e kind seq parent envelope bytes b fs
                else if kind = ''tool_start'' \<or> kind = ''tool_end''
                then oversized_tool e kind seq event envelope bytes b fs
                else oversized_placeholder e line_no seq ts bytes byte_length b fs) (\<lambda>(b, fs).
               Inr (b\<lparr>tl_last_seq := max (tl_last_seq b) seq\<rparr>, fs))))"

section \<open>The loop over the lines\<close>

definition project_line ::
  "hist_env \<Rightarrow> nat \<Rightarrow> scanned_line \<Rightarrow> build_state \<Rightarrow> hist_fs \<Rightarrow> build_result" where
  "project_line e line_no l b fs =
     (case l of
        Eof_Line \<Rightarrow> Inr (b, fs)
      | External_Line bytes byte_length _ \<Rightarrow> handle_oversized_event e bytes byte_length line_no b fs
      | Inline_Line data _ \<Rightarrow>
          (if \<not> utf8_valid data then Inr (b, fs)
           else if trim data = [] then Inr (b, fs)
           else
             (case jc_parse (he_codec e) data of
                None \<Rightarrow> Inr (b, fs)
              | Some v \<Rightarrow> handle_event e v b fs)))"

lemma read_bounded_line_shrinks:
  "read_bounded_line e chs inl ext n fs = Inr (l, rest, fs') \<Longrightarrow>
     length (concat rest) \<le> length (concat chs) \<and>
     (l \<noteq> Eof_Line \<longrightarrow> n = 0 \<longrightarrow> length (concat rest) < length (concat chs))"
proof (induction e chs inl ext n fs rule: read_bounded_line.induct)
  case (1 e inl ext n fs)
  then show ?case by (auto simp: line_at_eof_def split: if_splits)
next
  case (2 e ch chs inl ext n fs)
  show ?case
  proof (cases "ch = []")
    case True
    with "2.prems" show ?thesis by (auto simp: line_at_eof_def split: if_splits)
  next
    case ne: False
    with "2.prems" obtain inl' ext' fs1 where t: "take_data e (first_line ch) inl ext fs = Inr ((inl', ext'), fs1)"
      by (cases "take_data e (first_line ch) inl ext fs") auto
    show ?thesis
    proof (cases "after_line ch = []")
      case True
      then have "length (first_line ch) = length ch" using line_parts [of ch] by simp
      moreover from True ne t "2.prems" have
        "read_bounded_line e chs inl' ext' (n + length (first_line ch)) fs1 = Inr (l, rest, fs')"
        by (simp add: Let_def)
      ultimately have "length (concat rest) \<le> length (concat chs)"
        using "2.IH" [OF ne t refl refl refl True] by blast
      then have "length (concat rest) < length (concat (ch # chs))"
        using ne by (cases ch) auto
      then show ?thesis by simp
    next
      case False
      then have "length (tl (after_line ch)) < length ch"
        using after_line_length [of ch] by (cases "after_line ch") auto
      with ne False t "2.prems" show ?thesis by (auto split: if_splits)
    qed
  qed
qed

function project_lines ::
  "hist_env \<Rightarrow> string list \<Rightarrow> nat \<Rightarrow> build_state \<Rightarrow> hist_fs \<Rightarrow> build_result" where
  "project_lines e chs line_no b fs =
     and_then (read_bounded_line e chs [] None 0 fs) (\<lambda>(l, rest, fs).
       if l = Eof_Line then Inr (b, fs)
       else and_then (project_line e line_no l b fs) (\<lambda>(b, fs). project_lines e rest (line_no + 1) b fs))"
  by pat_completeness auto
termination
  by (relation "measure (\<lambda>(e, chs, k, b, fs). length (concat chs))")
    (auto dest: read_bounded_line_shrinks)

declare project_lines.simps [simp del]

end
