(* ===== verification/History_Boundary.thy ===== *)
theory History_Boundary
  imports History_Lines
begin

text \<open>
  Where the projection of an active run may end (\<open>SemanticBoundaryTracker\<close> and
  \<open>safe_projection_size\<close> of \<open>storage/history.rs\<close>): after the last line at which no message is being
  streamed and no tool is open. What follows is left to the catch-up.
\<close>

record tracker =
  tk_streaming_scopes :: "string set"
  tk_open_tools :: "(string \<times> string) set"

definition tracker_start :: tracker where
  "tracker_start = \<lparr>tk_streaming_scopes = {}, tk_open_tools = {}\<rparr>"

definition is_closed :: "tracker \<Rightarrow> bool" where
  "is_closed k = (tk_streaming_scopes k = {} \<and> tk_open_tools k = {})"

definition main_scope :: string where
  "main_scope = ''__main''"

text \<open>An event of the kind \<open>kind\<close> in the scope \<open>scope\<close>.\<close>

definition observe_event :: "string \<Rightarrow> string \<Rightarrow> json \<Rightarrow> tracker \<Rightarrow> tracker" where
  "observe_event kind scope event k =
     (if kind = ''user_message'' \<and> scope = main_scope \<or> kind = ''run_state'' \<and> settles_runs event
      then tracker_start
      else if kind = ''message_delta'' \<or> kind = ''thinking_delta''
      then k\<lparr>tk_streaming_scopes := insert scope (tk_streaming_scopes k)\<rparr>
      else if kind = ''message_complete''
      then k\<lparr>tk_streaming_scopes := tk_streaming_scopes k - {scope}\<rparr>
      else
        (case opt_filter (\<lambda>i. i \<noteq> []) (get_str event ''tool_use_id'') of
           None \<Rightarrow> k
         | Some i \<Rightarrow>
             (if kind = ''tool_start'' then k\<lparr>tk_open_tools := insert (scope, i) (tk_open_tools k)\<rparr>
              else if kind = ''tool_end'' then
                (if (scope, i) \<in> tk_open_tools k
                 then k\<lparr>tk_open_tools := tk_open_tools k - {(scope, i)}\<rparr>
                 else k\<lparr>tk_open_tools := {x \<in> tk_open_tools k. snd x \<noteq> i}\<rparr>)
              else k)))"

definition observe :: "json \<Rightarrow> tracker \<Rightarrow> tracker" where
  "observe envelope k =
     (if get_bool envelope ''_bus'' \<noteq> Some True then k
      else
        (case jget envelope ''event'' of
           None \<Rightarrow> k
         | Some event \<Rightarrow>
             observe_event (unwrap_or (get_str event ''type'') [])
               (unwrap_or (normalized_parent_tool_use_id event) main_scope) event k))"

text \<open>What the tracker sees of a line: a long one only by its metadata.\<close>

definition boundary_value :: "hist_env \<Rightarrow> scanned_line \<Rightarrow> hist_fs \<Rightarrow> string + json option \<times> hist_fs" where
  "boundary_value e l fs =
     (case l of
        Eof_Line \<Rightarrow> Inr (None, fs)
      | Inline_Line data _ \<Rightarrow>
          Inr (if utf8_valid data then jc_parse (he_codec e) data else None, fs)
      | External_Line bytes _ _ \<Rightarrow>
          (case oversized_metadata e bytes fs of
             Inl _ \<Rightarrow> and_then (file_op e [] fs) (\<lambda>fs. Inr (None, fs))
           | Inr (meta, fs) \<Rightarrow>
               and_then (file_op e [] fs) (\<lambda>fs.
                 Inr (Some (JObj [(''_bus'', JBool True), (''seq'', unwrap_or (jget meta ''seq'') JNull),
                                  (''event'', meta)]), fs))))"

fun source_bytes :: "scanned_line \<Rightarrow> nat" where
  "source_bytes Eof_Line = 0"
| "source_bytes (Inline_Line _ n) = n"
| "source_bytes (External_Line _ _ n) = n"

function boundary_loop ::
  "hist_env \<Rightarrow> string list \<Rightarrow> tracker \<Rightarrow> nat \<Rightarrow> nat \<Rightarrow> hist_fs \<Rightarrow> string + nat \<times> hist_fs" where
  "boundary_loop e chs k offset safe fs =
     and_then (read_bounded_line e chs [] None 0 fs) (\<lambda>(l, rest, fs).
       if l = Eof_Line then Inr (safe, fs)
       else
         and_then (boundary_value e l fs) (\<lambda>(v, fs).
           (let offset = offset + source_bytes l;
                k = (case v of Some env \<Rightarrow> observe env k | None \<Rightarrow> k)
            in boundary_loop e rest k offset (if is_closed k then offset else safe) fs)))"
  by pat_completeness auto
termination
  by (relation "measure (\<lambda>(e, chs, k, off, safe, fs). length (concat chs))")
    (auto dest: read_bounded_line_shrinks)

declare boundary_loop.simps [simp del]

definition safe_projection_size :: "hist_env \<Rightarrow> string list \<Rightarrow> hist_fs \<Rightarrow> string + nat \<times> hist_fs" where
  "safe_projection_size e chs fs = boundary_loop e chs tracker_start 0 0 fs"

section \<open>A build\<close>

text \<open>
  \<open>build_generation\<close> up to the publication: the bytes of the log's snapshot, how the buffered reader
  cuts bytes into chunks, whether the run is terminal, and the encoded size of a summary. The result
  is the manifest, the summary and the finished state.
\<close>

definition build_projection ::
  "hist_env \<Rightarrow> (string \<Rightarrow> string list) \<Rightarrow> (history_summary \<Rightarrow> nat) \<Rightarrow> bool \<Rightarrow> string \<Rightarrow> string \<Rightarrow> string \<Rightarrow> nat \<Rightarrow>
     hist_fs \<Rightarrow> string + (history_manifest \<times> history_summary \<times> build_state) \<times> hist_fs" where
  "build_projection e chunks summary_size terminal run_id generation_id bytes mtime fs =
     and_then (build_new e run_id generation_id fs) (\<lambda>(b, fs).
     and_then (if terminal then Inr (length bytes, fs)
               else safe_projection_size e (chunks bytes) fs) (\<lambda>(size, fs).
     and_then (file_op e ''hash event prefix: '' fs) (\<lambda>fs.
     and_then (project_lines e (chunks (take size bytes)) 1 b fs) (\<lambda>(b, fs).
       finish e summary_size size mtime (he_sha e (take size bytes)) b fs))))"

end
