(* ===== verification/History_Store.thy ===== *)
theory History_Store
  imports History_Boundary Models
begin

text \<open>
  The generations of a run's history on disk (\<open>storage/history.rs\<close>): publication of a build, the
  check whether the current generation still fits the log, clean-up, and the reading of summaries,
  pages and stored content by cursor. A file is what it holds once parsed, \<open>None\<close> when it cannot be
  read; a directory of a failed build keeps no content, only its name. Base64 is a parameter.
\<close>

record generation =
  gn_manifest :: "history_manifest option"
  gn_summary :: "(history_summary \<times> nat) option"
  gn_pages :: "nat \<Rightarrow> string option"
  gn_blobs :: "string \<Rightarrow> string option"
  gn_subs :: "string \<Rightarrow> (nat \<times> (nat \<Rightarrow> string option)) option"
  gn_retain :: "string option"

record history_dir =
  hd_current :: "string option"
  hd_generations :: "(string \<times> generation) list"

record source_meta =
  sm_len :: nat
  sm_mtime_ns :: nat

section \<open>Identifiers and cursors\<close>

definition is_ascii_hexdigit :: "char \<Rightarrow> bool" where
  "is_ascii_hexdigit c =
     (let n = byte c in (48 \<le> n \<and> n \<le> 57) \<or> (65 \<le> n \<and> n \<le> 70) \<or> (97 \<le> n \<and> n \<le> 102))"

definition is_hex_id :: "string \<Rightarrow> nat \<Rightarrow> bool" where
  "is_hex_id v n = (length v = n \<and> list_all is_ascii_hexdigit v)"

text \<open>\<open>str::parse::<u64>\<close>, which takes a plus sign.\<close>

definition parse_u64_str :: "string \<Rightarrow> nat option" where
  "parse_u64_str s = parse_u64 (if s \<noteq> [] \<and> hd s = CHR ''+'' then tl s else s)"

definition parse_cursor :: "string \<Rightarrow> string + string \<times> nat" where
  "parse_cursor raw =
     (case str_find raw '':'' of
        None \<Rightarrow> Inl ''invalid history cursor''
      | Some i \<Rightarrow>
          (let generation = take i raw in
           if \<not> is_hex_id generation 32 then Inl ''invalid history cursor generation''
           else
             (case parse_u64_str (drop (i + 1) raw) of
                None \<Rightarrow> Inl ''invalid history cursor page''
              | Some page \<Rightarrow>
                  if page = 0 then Inl ''invalid history cursor page'' else Inr (generation, page))))"

section \<open>Freshness\<close>

definition run_is_terminal :: "run_status option \<Rightarrow> bool" where
  "run_is_terminal st = (st = Some Completed \<or> st = Some Failed \<or> st = Some Stopped)"

text \<open>\<open>meta\<close>: the metadata of the log, \<open>None\<close> when it has none; \<open>bytes\<close>: its content.\<close>

definition manifest_matches_source ::
  "hist_env \<Rightarrow> source_meta option \<Rightarrow> string option \<Rightarrow> history_manifest \<Rightarrow> bool \<Rightarrow> bool" where
  "manifest_matches_source e meta bytes m allow_append =
     (case meta of
        None \<Rightarrow> hm_source_size m = 0
      | Some meta \<Rightarrow>
          \<not> (sm_len meta < hm_source_size m \<or> \<not> allow_append \<and> sm_len meta \<noteq> hm_source_size m) \<and>
          sm_len meta - hm_source_size m \<le> CATCHUP_REBUILD_BYTES \<and>
          \<not> (sm_len meta = hm_source_size m \<and> sm_mtime_ns meta \<noteq> hm_source_mtime_ns m) \<and>
          (case bytes of
             None \<Rightarrow> False
           | Some bs \<Rightarrow> hm_source_size m \<le> length bs \<and>
                        he_sha e (take (hm_source_size m) bs) = hm_source_prefix_hash m))"

definition manifest_matches ::
  "hist_env \<Rightarrow> source_meta option \<Rightarrow> string option \<Rightarrow> run_status option \<Rightarrow> history_manifest \<Rightarrow> bool" where
  "manifest_matches e meta bytes st m =
     (hm_format_version m = FORMAT_VERSION \<and> hm_builder_version m = BUILDER_VERSION \<and> hm_complete m \<and>
      manifest_matches_source e meta bytes m (\<not> run_is_terminal st))"

section \<open>Retention and clean-up\<close>

definition load_manifest :: "history_dir \<Rightarrow> string \<Rightarrow> string + history_manifest" where
  "load_manifest d generation_id =
     (if \<not> is_hex_id generation_id 32 then Inl ''invalid history generation identifier''
      else ok_or (Option.bind (map_of (hd_generations d) generation_id) gn_manifest) ''read manifest'')"

definition retain_generation :: "string \<Rightarrow> string \<Rightarrow> history_dir \<Rightarrow> string + history_dir" where
  "retain_generation process_id generation_id d =
     (case map_of (hd_generations d) generation_id of
        None \<Rightarrow> Inl ''retain history generation''
      | Some g \<Rightarrow>
          Inr (d\<lparr>hd_generations :=
                   hm_insert generation_id (g\<lparr>gn_retain := Some process_id\<rparr>) (hd_generations d)\<rparr>))"

definition should_remove_generation :: "string \<Rightarrow> string option \<Rightarrow> string \<times> generation \<Rightarrow> bool" where
  "should_remove_generation process_id current x =
     (case x of (name, g) \<Rightarrow>
        strip_suffix name ''.build'' \<noteq> None \<or>
        (is_hex_id name 32 \<and> current \<noteq> Some name \<and> gn_retain g \<noteq> Some process_id))"

definition cleanup_history :: "string \<Rightarrow> history_dir \<Rightarrow> history_dir" where
  "cleanup_history process_id d =
     d\<lparr>hd_generations :=
         filter (\<lambda>x. \<not> should_remove_generation process_id (hd_current d) x) (hd_generations d)\<rparr>"

section \<open>Publication\<close>

definition empty_generation :: generation where
  "empty_generation =
     \<lparr>gn_manifest = None, gn_summary = None, gn_pages = Map.empty, gn_blobs = Map.empty,
      gn_subs = Map.empty, gn_retain = None\<rparr>"

definition built_generation ::
  "hist_env \<Rightarrow> (history_summary \<Rightarrow> nat) \<Rightarrow> history_manifest \<Rightarrow> history_summary \<Rightarrow> build_state \<Rightarrow> hist_fs \<Rightarrow>
     generation" where
  "built_generation e summary_size m s b fs =
     \<lparr>gn_manifest = Some m, gn_summary = Some (s, summary_size s), gn_pages = tl_pages b,
      gn_blobs = fs_blobs fs,
      gn_subs = map_of (map (\<lambda>(p, s). (sh_id s, (tl_page_count s, tl_pages s))) (hb_subhistories b)),
      gn_retain = None\<rparr>"

text \<open>
  What a build needs to know of the world: the snapshot of the log, how it is cut into chunks, the
  status of the run, a fresh identifier, and the error of each step of the publication, if it fails.
\<close>

record build_world =
  bw_bytes :: string
  bw_mtime_ns :: nat
  bw_chunks :: "string \<Rightarrow> string list"
  bw_summary_size :: "history_summary \<Rightarrow> nat"
  bw_status :: "run_status option"
  bw_fresh_id :: string
  bw_snapshot :: "string option"
  bw_write_manifest :: "string option"
  bw_rename :: "string option"
  bw_pointer_tmp :: "string option"
  bw_replace_pointer :: "string option"

definition build_generation ::
  "hist_env \<Rightarrow> string \<Rightarrow> build_world \<Rightarrow> string \<Rightarrow> history_dir \<Rightarrow> (string + string) \<times> history_dir" where
  "build_generation e process_id w run_id d =
     (let previous = hd_current d;
          gid = bw_fresh_id w;
          build_name = gid @ ''.build'';
          building = d\<lparr>hd_generations := hm_insert build_name empty_generation (hd_generations d)\<rparr>
      in case bw_snapshot w of Some err \<Rightarrow> (Inl err, building) | None \<Rightarrow>
         case build_projection e (bw_chunks w) (bw_summary_size w) (run_is_terminal (bw_status w)) run_id gid
                (bw_bytes w) (bw_mtime_ns w) \<lparr>fs_ops = 0, fs_blobs = Map.empty\<rparr> of
           Inl err \<Rightarrow> (Inl err, building)
         | Inr ((m, s, b), fs) \<Rightarrow>
             (case bw_write_manifest w of Some err \<Rightarrow> (Inl err, building) | None \<Rightarrow>
              case bw_rename w of Some err \<Rightarrow> (Inl (''publish generation: '' @ err), building) | None \<Rightarrow>
              (let renamed = d\<lparr>hd_generations :=
                     hm_insert gid (built_generation e (bw_summary_size w) m s b fs) (hd_generations d)\<rparr>
               in case bw_pointer_tmp w of Some err \<Rightarrow> (Inl err, renamed) | None \<Rightarrow>
                  case bw_replace_pointer w of
                    Some err \<Rightarrow> (Inl (''publish current pointer: '' @ err), renamed)
                  | None \<Rightarrow>
                      (let pointed = renamed\<lparr>hd_current := Some gid\<rparr>;
                           kept = (case previous of
                                     None \<Rightarrow> Inr pointed
                                   | Some old \<Rightarrow> retain_generation process_id old pointed)
                       in case and_then kept (retain_generation process_id gid) of
                            Inl err \<Rightarrow> (Inl err, pointed)
                          | Inr d' \<Rightarrow> (Inr gid, cleanup_history process_id d')))))"

text \<open>\<open>meta\<close> and \<open>bytes\<close> describe the log when the manifest is checked.\<close>

definition ensure_history_with_refresh ::
  "hist_env \<Rightarrow> string \<Rightarrow> build_world \<Rightarrow> source_meta option \<Rightarrow> string option \<Rightarrow> bool \<Rightarrow> string \<Rightarrow> history_dir \<Rightarrow>
     (string + string) \<times> history_dir" where
  "ensure_history_with_refresh e process_id w meta bytes refresh run_id d0 =
     (let d = cleanup_history process_id d0;
          hit = (if refresh then None
                 else
                   Option.bind (hd_current d) (\<lambda>g.
                     case load_manifest d g of
                       Inl _ \<Rightarrow> None
                     | Inr m \<Rightarrow> if manifest_matches e meta bytes (bw_status w) m then Some g else None))
      in case hit of
           Some g \<Rightarrow>
             (case retain_generation process_id g d of
                Inl err \<Rightarrow> (Inl err, d)
              | Inr d' \<Rightarrow> (Inr g, d'))
         | None \<Rightarrow> build_generation e process_id w run_id d)"

section \<open>Reading\<close>

definition page_file :: "(nat \<Rightarrow> string option) \<Rightarrow> nat \<Rightarrow> string \<Rightarrow> string + string" where
  "page_file pages n too_long =
     and_then (ok_or (pages n) ''read page'') (\<lambda>body.
       if PAGE_BYTE_LIMIT < length body then Inl too_long else Inr body)"

definition read_summary :: "hist_env \<Rightarrow> string \<Rightarrow> history_dir \<Rightarrow> string + history_summary" where
  "read_summary e generation_id d =
     and_then (ok_or (map_of (hd_generations d) generation_id) ''read summary'') (\<lambda>g.
     and_then (ok_or (gn_summary g) ''read summary'') (\<lambda>(s, n).
       if CONTENT_CHUNK_LIMIT < n then Inl ''history summary exceeds hard limit''
       else if 0 < hs_page_count s then
         and_then (page_file (gn_pages g) (hs_page_count s) ''history page exceeds hard limit'') (\<lambda>body.
         and_then (he_entries e body) (\<lambda>_. Inr s))
       else Inr s))"

text \<open>A summary that cannot be read is built anew; \<open>w'\<close> is the world of that second build.\<close>

definition get_summary ::
  "hist_env \<Rightarrow> string \<Rightarrow> build_world \<Rightarrow> build_world \<Rightarrow> source_meta option \<Rightarrow> string option \<Rightarrow> bool \<Rightarrow> string \<Rightarrow>
     history_dir \<Rightarrow> (string + history_summary) \<times> history_dir" where
  "get_summary e process_id w w' meta bytes refresh run_id d0 =
     (case ensure_history_with_refresh e process_id w meta bytes refresh run_id d0 of
        (Inl err, d) \<Rightarrow> (Inl err, d)
      | (Inr g, d) \<Rightarrow>
          (case read_summary e g d of
             Inr s \<Rightarrow> (Inr s, d)
           | Inl _ \<Rightarrow>
               (case build_generation e process_id w' run_id d of
                  (Inl err, d') \<Rightarrow> (Inl err, d')
                | (Inr g', d') \<Rightarrow> (read_summary e g' d', d'))))"

record history_page =
  hp_generation_id :: string
  hp_entries :: "history_entry list"
  hp_page_cursor :: string
  hp_previous_cursor :: "string option"
  hp_has_more :: bool
  hp_first_seq :: nat
  hp_last_seq :: nat

text \<open>The generation and the number of the page that is asked for.\<close>

definition page_wanted :: "history_dir \<Rightarrow> string option \<Rightarrow> string option \<Rightarrow> string \<Rightarrow> string + string \<times> nat" where
  "page_wanted d generation_id before_cursor ensured =
     (case before_cursor of
        Some raw \<Rightarrow>
          and_then (parse_cursor raw) (\<lambda>(g, page).
            if generation_id \<noteq> None \<and> generation_id \<noteq> Some g then Inl ''history cursor generation mismatch''
            else if page = 0 then Inl ''history cursor has no previous page''
            else Inr (g, page - 1))
      | None \<Rightarrow>
          (let g = unwrap_or generation_id ensured in
           and_then (load_manifest d g) (\<lambda>m. Inr (g, hm_page_count m))))"

text \<open>\<open>ensured\<close>: the generation \<open>ensure\_history\<close> returns when none is named.\<close>

definition get_page ::
  "hist_env \<Rightarrow> string \<Rightarrow> string option \<Rightarrow> string option \<Rightarrow> string \<Rightarrow> history_dir \<Rightarrow>
     (string + history_page) \<times> history_dir" where
  "get_page e process_id generation_id before_cursor ensured d =
     (case page_wanted d generation_id before_cursor ensured of
        Inl err \<Rightarrow> (Inl err, d)
      | Inr (g, page) \<Rightarrow>
          (case load_manifest d g of
             Inl err \<Rightarrow> (Inl err, d)
           | Inr m \<Rightarrow>
               (case retain_generation process_id g d of
                  Inl err \<Rightarrow> (Inl err, d)
                | Inr d' \<Rightarrow>
                    (if page = 0 \<or> hm_page_count m < page then Inl ''history page not found''
                     else
                       and_then (ok_or (map_of (hd_generations d') g) ''read page'') (\<lambda>gn.
                       and_then (page_file (gn_pages gn) page ''history page exceeds hard limit'') (\<lambda>body.
                       and_then (he_entries e body) (\<lambda>xs.
                         Inr \<lparr>hp_generation_id = g, hp_entries = xs, hp_page_cursor = cursor g page,
                              hp_previous_cursor = (if 1 < page then Some (cursor g page) else None),
                              hp_has_more = (1 < page),
                              hp_first_seq = (if xs = [] then 0 else entry_first_seq (hd xs)),
                              hp_last_seq = (if xs = [] then 0 else entry_last_seq (last xs))\<rparr>))),
                     d'))))"

record content_chunk =
  cc_offset :: nat
  cc_next_offset :: nat
  cc_total_bytes :: nat
  cc_eof :: bool
  cc_data :: string

definition get_content_chunk ::
  "(string \<Rightarrow> string) \<Rightarrow> string \<Rightarrow> string \<Rightarrow> string \<Rightarrow> nat \<Rightarrow> nat \<Rightarrow> history_dir \<Rightarrow>
     (string + content_chunk) \<times> history_dir" where
  "get_content_chunk base64 process_id generation_id i offset max_bytes d =
     (if \<not> is_hex_id generation_id 32 \<or> \<not> is_hex_id i 64 then (Inl ''invalid history content identifier'', d)
      else
        (case retain_generation process_id generation_id d of
           Inl err \<Rightarrow> (Inl err, d)
         | Inr d' \<Rightarrow>
             (let m = min max_bytes CONTENT_CHUNK_LIMIT in
              (if m = 0 then Inl ''max_bytes must be positive''
               else
                 and_then (ok_or (Option.bind (map_of (hd_generations d') generation_id) (\<lambda>g. gn_blobs g i))
                             ''open history content'') (\<lambda>bytes.
                   if length bytes < offset then Inl ''history content offset out of range''
                   else
                     (let data = take (min m (length bytes - offset)) (drop offset bytes);
                          next_offset = offset + length data
                      in Inr \<lparr>cc_offset = offset, cc_next_offset = next_offset,
                              cc_total_bytes = length bytes, cc_eof = (length bytes \<le> next_offset),
                              cc_data = base64 data\<rparr>)),
               d'))))"

definition get_subhistory_page ::
  "hist_env \<Rightarrow> string \<Rightarrow> string \<Rightarrow> string \<Rightarrow> string option \<Rightarrow> history_dir \<Rightarrow>
     (string + history_entry list \<times> string \<times> string option) \<times> history_dir" where
  "get_subhistory_page e process_id generation_id sub_id before_cursor d =
     (if \<not> is_hex_id generation_id 32 \<or> \<not> is_hex_id sub_id 64 then (Inl ''invalid subhistory identifier'', d)
      else
        (case retain_generation process_id generation_id d of
           Inl err \<Rightarrow> (Inl err, d)
         | Inr d' \<Rightarrow>
             (and_then (ok_or (Option.bind (map_of (hd_generations d') generation_id) (\<lambda>g. gn_subs g sub_id))
                          ''read manifest'') (\<lambda>(page_count, pages).
              and_then
                (case before_cursor of
                   None \<Rightarrow> Inr page_count
                 | Some raw \<Rightarrow>
                     and_then (parse_cursor raw) (\<lambda>(g, page).
                       if g \<noteq> generation_id then Inl ''subhistory cursor generation mismatch''
                       else Inr (page - 1))) (\<lambda>page.
                if page = 0 \<or> page_count < page then Inl ''subhistory page not found''
                else
                  and_then (page_file pages page ''subhistory page exceeds hard limit'') (\<lambda>body.
                  and_then (he_entries e body) (\<lambda>xs.
                    Inr (xs, cursor generation_id page,
                         if 1 < page then Some (cursor generation_id page) else None))))),
              d')))"

end
