(* ===== verification/History_Keeps.thy ===== *)
theory History_Keeps
  imports History_Store
begin

text \<open>
  What every operation of the history builder keeps (\<open>storage/history.rs\<close>). The locale
  \<open>timeline_ops\<close> is the contract between a property of a timeline and the primitive operations:
  pushing an entry, writing a page, updating a tool's page, and changing the fields of streams and
  open tools. Every operation of a timeline then keeps the property. The locale \<open>builder_ops\<close> lifts
  this to the whole builder: the main timeline and the sub-agents.
\<close>

definition keeps_entry_id :: "(history_entry \<Rightarrow> history_entry) \<Rightarrow> bool" where
  "keeps_entry_id f = (\<forall>x. entry_id (f x) = entry_id x)"

lemma entry_updates_keep_identity [simp]:
  "keeps_entry_id (interrupt_entry n err)" "keeps_entry_id (link_entry child)"
  "keeps_entry_id (set_status st)" "keeps_entry_id (oversized_entry kind inp out res)"
proof -
  show "keeps_entry_id (interrupt_entry n err)" unfolding keeps_entry_id_def
    by (intro allI, case_tac x) auto
  show "keeps_entry_id (link_entry child)" unfolding keeps_entry_id_def
    by (intro allI, case_tac x) auto
  show "keeps_entry_id (set_status st)" unfolding keeps_entry_id_def
    by (intro allI, case_tac x) auto
  show "keeps_entry_id (oversized_entry kind inp out res)" unfolding keeps_entry_id_def
    by (intro allI, case_tac x) auto
qed

lemma end_entry_keeps_identity [simp]: "keeps_entry_id (end_entry si out res seq event rn)"
  unfolding keeps_entry_id_def
  by (intro allI, cases out, cases res, case_tac x) auto

locale timeline_ops =
  fixes e :: hist_env
    and push_entry :: "'a pusher"
    and I :: "'a timeline_scheme \<Rightarrow> bool"
  assumes push_keeps: "I t \<Longrightarrow> push_entry t x fs = Inr (t', fs') \<Longrightarrow> I t'"
    and flush_keeps: "I t \<Longrightarrow> flush_entries_page e t fs = Inr (t', fs') \<Longrightarrow> I t'"
    and update_keeps:
      "I t \<Longrightarrow> keeps_entry_id f \<Longrightarrow> update_tool_page e n i f t fs = Inr (t', fs') \<Longrightarrow> I t'"
    and message_field: "I t \<Longrightarrow> I (t\<lparr>tl_message := m\<rparr>)"
    and message_seq_field: "I t \<Longrightarrow> I (t\<lparr>tl_message_seq := s\<rparr>)"
    and thinking_field: "I t \<Longrightarrow> I (t\<lparr>tl_thinking := m\<rparr>)"
    and thinking_seq_field: "I t \<Longrightarrow> I (t\<lparr>tl_thinking_seq := s\<rparr>)"
    and tools_field: "I t \<Longrightarrow> I (t\<lparr>tl_open_tools := ots\<rparr>)"
begin

lemmas fields = message_field message_seq_field thinking_field thinking_seq_field tools_field

lemma add_message_delta_keeps: "I t \<Longrightarrow> add_message_delta e seq event t fs = Inr (t', fs') \<Longrightarrow> I t'"
  by (auto simp: add_message_delta_def Let_def and_then_Inr_iff split: option.splits intro: fields)

lemma add_thinking_delta_keeps: "I t \<Longrightarrow> add_thinking_delta e seq event t fs = Inr (t', fs') \<Longrightarrow> I t'"
  by (auto simp: add_thinking_delta_def Let_def and_then_Inr_iff split: option.splits intro: fields)

lemma reset_keeps: "I t \<Longrightarrow> reset_pending_streams e t fs = Inr (t', fs') \<Longrightarrow> I t'"
  by (auto simp: reset_pending_streams_def and_then_Inr_iff intro: fields)

lemma take_message_keeps: "I t \<Longrightarrow> take_message e k t fs = Inr (c, t', fs') \<Longrightarrow> I t'"
  by (auto simp: take_message_def and_then_Inr_iff intro: fields)

lemma take_thinking_keeps: "I t \<Longrightarrow> take_thinking e k t fs = Inr (c, t', fs') \<Longrightarrow> I t'"
  by (auto simp: take_thinking_def and_then_Inr_iff split: if_splits intro: fields)

lemma complete_message_keeps:
  assumes "I t" and "complete_message e ip kp first_of push_entry seq ts event t fs = Inr (t', fs')"
  shows "I t'"
proof -
  let ?i = "unwrap_or (get_str event ''message_id'') (ip @ show_nat seq)"
  from assms(2) obtain c t1 fs1 th t2 fs2 t3 fs3 where
    1: "(case get_str event ''text'' of
           Some text \<Rightarrow>
             and_then (content_from_text e (tl_run_id t) (tl_generation_id t)
                         (kp @ ?i @ '':text'') text fs) (\<lambda>(c, fs). Inr (c, t, fs))
         | None \<Rightarrow> take_message e (kp @ ?i @ '':text'') t fs) = Inr (c, t1, fs1)" and
    2: "take_thinking e (kp @ ?i @ '':thinking'') t1 fs1 = Inr (th, t2, fs2)" and
    3: "push_entry t2 (Assistant_Entry (base_at ?i ts (first_of t2) seq) c th (get_str event ''model'')) fs2
          = Inr (t3, fs3)" and
    4: "reset_pending_streams e t3 fs3 = Inr (t', fs')"
    by (auto simp: complete_message_def Let_def and_then_Inr_iff)
  from 1 assms(1) have "I t1"
    by (auto simp: and_then_Inr_iff split: option.splits dest: take_message_keeps)
  with 2 3 4 show ?thesis using take_thinking_keeps push_keeps reset_keeps by blast
qed

lemma start_tool_keeps:
  assumes "I t" and "start_tool e l kp push_entry seq ts event t fs = Inr (t', fs')"
  shows "I t'"
  using assms
  by (auto simp: start_tool_def Let_def and_then_Inr_iff split: if_splits
      intro!: tools_field) (blast dest: flush_keeps push_keeps)+

lemma add_tool_input_keeps: "I t \<Longrightarrow> add_tool_input e event t fs = Inr (t', fs') \<Longrightarrow> I t'"
  by (auto simp: add_tool_input_def Let_def and_then_Inr_iff split: option.splits intro: fields)

lemma add_tool_output_keeps: "I t \<Longrightarrow> add_tool_output e event t fs = Inr (t', fs') \<Longrightarrow> I t'"
  by (auto simp: add_tool_output_def Let_def and_then_Inr_iff split: option.splits intro: fields)

lemma end_tool_keeps:
  assumes "I t" and "end_tool e kp rn seq event i ot t fs = Inr (t', fs')"
  shows "I t'"
proof -
  from assms(2) obtain n f fs1 where "keeps_entry_id f" and
    "update_tool_page e n i f (t\<lparr>tl_open_tools := hm_remove i (tl_open_tools t)\<rparr>) fs1 = Inr (t', fs')"
    by (auto simp: end_tool_def Let_def and_then_Inr_iff intro: end_entry_keeps_identity)
  with assms(1) show ?thesis by (blast intro: update_keeps tools_field)
qed

lemma settle_streams_keeps:
  assumes "I t" and "settle_streams e ip kp push_entry seq t fs = Inr (t', fs')"
  shows "I t'"
proof (cases "spool_is_empty (tl_message t) \<and> spool_is_empty (tl_thinking t)")
  case True
  with assms show ?thesis by (simp add: settle_streams_def)
next
  case False
  let ?i = "ip @ show_nat (pending_first_seq t seq)"
  from assms(2) False obtain c t1 fs1 th t2 fs2 where
    1: "(if spool_is_empty (tl_message t) then Inr (inline_content [], t, fs)
         else take_message e (kp @ ?i @ '':text'') t fs) = Inr (c, t1, fs1)" and
    2: "take_thinking e (kp @ ?i @ '':thinking'') t1 fs1 = Inr (th, t2, fs2)" and
    3: "push_entry (t2\<lparr>tl_message_seq := None, tl_thinking_seq := None\<rparr>)
          (Assistant_Entry (base_at ?i [] (pending_first_seq t seq) seq) c th None) fs2 = Inr (t', fs')"
    by (auto simp: settle_streams_def Let_def and_then_Inr_iff)
  from 1 assms(1) have "I t1" by (auto split: if_splits dest: take_message_keeps)
  with 2 have "I (t2\<lparr>tl_message_seq := None, tl_thinking_seq := None\<rparr>)"
    by (blast intro: fields dest: take_thinking_keeps)
  with 3 show ?thesis by (blast dest: push_keeps)
qed

lemma interrupt_tools_keeps: "I t \<Longrightarrow> interrupt_tools e seq err ots t fs = Inr (t', fs') \<Longrightarrow> I t'"
proof (induction ots arbitrary: t fs)
  case (Cons x ots)
  obtain i ot where x: "x = (i, ot)" by (cases x)
  with Cons.prems obtain t1 fs1 where
    "update_tool_page e (ot_page_number ot) i (interrupt_entry seq err) t fs = Inr (t1, fs1)"
    "interrupt_tools e seq err ots t1 fs1 = Inr (t', fs')"
    by (auto simp: and_then_Inr_iff)
  with Cons show ?case using update_keeps entry_updates_keep_identity(1) by blast
qed simp

lemma settle_tools_keeps: "I t \<Longrightarrow> settle_tools e seq err t fs = Inr (t', fs') \<Longrightarrow> I t'"
  using interrupt_tools_keeps [OF tools_field] by (simp add: settle_tools_def)

lemma link_tool_keeps: "I t \<Longrightarrow> link_tool e i child t fs = Inr (t', fs') \<Longrightarrow> I t'"
  by (auto simp: link_tool_def split: option.splits dest: update_keeps [OF _ entry_updates_keep_identity(2)])

end

section \<open>The builder\<close>

locale builder_ops =
  main: timeline_ops e "push e" I + sub: timeline_ops e "sub_push e" S
  for e :: hist_env and I :: "build_state \<Rightarrow> bool" and S :: "sub_history \<Rightarrow> bool" +
  assumes sub_starts: "sub_new e p run gen fs = Inr (s, fs') \<Longrightarrow> S s"
    and subs_of: "I b \<Longrightarrow> \<forall>x\<in>set (hb_subhistories b). S (snd x)"
    and with_subs: "I b \<Longrightarrow> (\<forall>x\<in>set ss. S (snd x)) \<Longrightarrow> I (b\<lparr>hb_subhistories := ss\<rparr>)"
    and last_seq_field: "I b \<Longrightarrow> I (b\<lparr>tl_last_seq := n\<rparr>)"
    and turns_field: "I b \<Longrightarrow> I (b\<lparr>hb_total_turns := n\<rparr>)"
    and state_events_field: "I b \<Longrightarrow> I (b\<lparr>hb_state_events := evs\<rparr>)"
    and interactions_field: "I b \<Longrightarrow> I (b\<lparr>hb_pending_interactions := evs\<rparr>)"
    and user_inputs_field: "I b \<Longrightarrow> I (b\<lparr>hb_pending_user_inputs := ns\<rparr>)"
    and seen_messages_field: "I b \<Longrightarrow> I (b\<lparr>hb_seen_message_ids := is\<rparr>)"
    and seen_tools_field: "I b \<Longrightarrow> I (b\<lparr>hb_seen_tool_ids := is\<rparr>)"
    and dropped_field: "I b \<Longrightarrow> I (b\<lparr>hb_dropped_subhistories := is\<rparr>)"
begin

lemmas builder_fields =
  last_seq_field turns_field state_events_field interactions_field user_inputs_field
  seen_messages_field seen_tools_field dropped_field

lemma sub_settle_keeps: "S s \<Longrightarrow> sub_settle e n err s fs = Inr (s', fs') \<Longrightarrow> S s'"
  by (auto simp: sub_settle_def and_then_Inr_iff dest: sub.settle_streams_keeps sub.settle_tools_keeps)

lemma settle_subs_keeps:
  "\<forall>x\<in>set ss. S (snd x) \<Longrightarrow> settle_subs e n err ss fs = Inr (ss', fs') \<Longrightarrow> \<forall>x\<in>set ss'. S (snd x)"
proof (induction ss arbitrary: fs ss' fs')
  case (Cons x ss)
  obtain p s where x: "x = (p, s)" by (cases x)
  with Cons.prems obtain s1 fs1 ss1 where
    "sub_settle e n err s fs = Inr (s1, fs1)" "settle_subs e n err ss fs1 = Inr (ss1, fs')"
    "ss' = (p, s1) # ss1"
    by (auto simp: and_then_Inr_iff)
  with Cons x show ?case using sub_settle_keeps by fastforce
qed simp

lemma settle_keeps: "I b \<Longrightarrow> settle_interrupted_work e n err b fs = Inr (b', fs') \<Longrightarrow> I b'"
  unfolding settle_interrupted_work_def
  by (elim and_then_pairE, simp only: sum.inject prod.inject)
    (blast intro: with_subs
      dest: main.settle_streams_keeps main.settle_tools_keeps settle_subs_keeps subs_of)

lemma sub_event_keeps:
  assumes "S s" and "sub_event e p seq ts event s fs = Inr (s', fs')"
  shows "S s'"
proof -
  have um: "sub_user_message e p seq ts event s fs = Inr (s', fs') \<Longrightarrow> S s'"
    using assms(1) by (auto simp: sub_user_message_def Let_def and_then_Inr_iff dest: sub.push_keeps)
  have te: "sub_tool_end e p seq event s fs = Inr (s', fs') \<Longrightarrow> S s'"
    using assms(1)
    by (auto simp: sub_tool_end_def Let_def split: option.splits dest: sub.end_tool_keeps)
  from assms(2) show ?thesis
    unfolding sub_event_def Let_def
    by (elim if_InrE)
      ((erule um te sub.add_message_delta_keeps [OF assms(1)]
          sub.add_thinking_delta_keeps [OF assms(1)] sub.complete_message_keeps [OF assms(1)]
          sub.start_tool_keeps [OF assms(1)] sub.add_tool_input_keeps [OF assms(1)]
          sub.add_tool_output_keeps [OF assms(1)]) | use assms(1) in simp)+
qed

lemma link_in_subs_keeps:
  "\<forall>x\<in>set ss. S (snd x) \<Longrightarrow> link_in_subs e i child ss fs = Inr (ss', fs') \<Longrightarrow> \<forall>x\<in>set ss'. S (snd x)"
proof (induction ss arbitrary: ss')
  case (Cons x ss)
  obtain p s where x: "x = (p, s)" by (cases x)
  with Cons.prems(2) consider
      s1 where "link_tool e i child s fs = Inr (s1, fs')" "ss' = (p, s1) # ss"
    | ss1 where "link_in_subs e i child ss fs = Inr (ss1, fs')" "ss' = (p, s) # ss1"
    by (auto simp: and_then_Inr_iff split: if_splits)
  then show ?case
  proof cases
    case 1
    with Cons.prems(1) x show ?thesis using sub.link_tool_keeps by fastforce
  next
    case 2
    with Cons x show ?thesis by fastforce
  qed
qed simp

lemma hm_insert_subs: "\<forall>x\<in>set ss. S (snd x) \<Longrightarrow> S s' \<Longrightarrow> \<forall>x\<in>set (hm_insert p' s' ss). S (snd x)"
  unfolding hm_insert_def by (induction ss) (auto split: if_splits)

lemma handle_subhistory_keeps:
  assumes "I b" and "handle_subhistory_event e p seq ts event b fs = Inr (b', fs')"
  shows "I b'"
proof -
  from assms(2) obtain fs1 where
    step: "(if map_of (hb_subhistories b) p = None \<and> MAX_SUBHISTORIES \<le> length (hb_subhistories b)
       then Inr (b\<lparr>hb_dropped_subhistories := insert p (hb_dropped_subhistories b)\<rparr>, fs1)
       else
         and_then (link_in_subs e p (he_sha e p) (hb_subhistories b) fs1) (\<lambda>(ss, fs).
         and_then
           (case map_of ss p of
              Some s \<Rightarrow> Inr (s, fs)
            | None \<Rightarrow> sub_new e p (tl_run_id b) (tl_generation_id b) fs) (\<lambda>(s, fs).
         and_then (link_tool e p (sh_id s) b fs) (\<lambda>(b, fs).
         and_then (sub_event e p seq ts event s fs) (\<lambda>(s, fs).
           Inr (b\<lparr>hb_subhistories := hm_insert p s ss\<rparr>, fs)))))) = Inr (b', fs')"
    by (auto simp: handle_subhistory_event_def elim: and_then_InrE)
  from step show ?thesis
  proof (elim if_InrE and_then_pairE)
    assume "Inr (b\<lparr>hb_dropped_subhistories := insert p (hb_dropped_subhistories b)\<rparr>, fs1) = Inr (b', fs')"
    with assms(1) show ?thesis by (auto intro: dropped_field)
  next
    fix ss fs2 s fs3 b1 fs4 s1 fs5
    assume 1: "link_in_subs e p (he_sha e p) (hb_subhistories b) fs1 = Inr (ss, fs2)"
      and 2: "(case map_of ss p of Some s \<Rightarrow> Inr (s, fs2)
               | None \<Rightarrow> sub_new e p (tl_run_id b) (tl_generation_id b) fs2) = Inr (s, fs3)"
      and 3: "link_tool e p (sh_id s) b fs3 = Inr (b1, fs4)"
      and 4: "sub_event e p seq ts event s fs4 = Inr (s1, fs5)"
      and 5: "Inr (b1\<lparr>hb_subhistories := hm_insert p s1 ss\<rparr>, fs5) = Inr (b', fs')"
    have ss: "\<forall>x\<in>set ss. S (snd x)" using link_in_subs_keeps [OF subs_of [OF assms(1)] 1] .
    with 2 have "S s" by (force split: option.splits dest: sub_starts map_of_SomeD)
    from sub_event_keeps [OF this 4] have "S s1" .
    with ss have "\<forall>x\<in>set (hm_insert p s1 ss). S (snd x)" by (rule hm_insert_subs)
    moreover have "I b1" using 3 assms(1) by (blast dest: main.link_tool_keeps)
    ultimately show ?thesis using 5 with_subs by auto
  qed
qed

lemma main_event_keeps:
  assumes "I b" and "main_event e kind seq ts event b fs = Inr (b', fs')"
  shows "I b'"
proof -
  have um: "on_main_user_message e seq ts event b fs = Inr (b', fs') \<Longrightarrow> I b'"
    using assms(1)
    by (auto simp: on_main_user_message_def Let_def and_then_Inr_iff dest: main.push_keeps [OF turns_field])
  have te: "on_main_tool_end e seq event b fs = Inr (b', fs') \<Longrightarrow> I b'"
    using assms(1)
    by (auto simp: on_main_tool_end_def Let_def and_then_Inr_iff split: option.splits if_splits
        intro!: user_inputs_field dest: main.end_tool_keeps)
  have co: "on_command_output e seq ts event b fs = Inr (b', fs') \<Longrightarrow> I b'"
    using assms(1) by (auto simp: on_command_output_def and_then_Inr_iff dest: main.push_keeps)
  have st: "on_state_event e kind seq ts event b fs = Inr (b', fs') \<Longrightarrow> I b'"
    using assms(1)
    by (auto simp: on_state_event_def Let_def split: if_splits intro: state_events_field)
  have pr: "on_prompt e kind seq ts event b fs = Inr (b', fs') \<Longrightarrow> I b'"
    using assms(1) by (auto simp: on_prompt_def Let_def split: if_splits intro: interactions_field)
  have lc: "record_lifecycle e kind r seq ts event b = Inr b1 \<Longrightarrow> I b1" for r b1
    using assms(1)
    by (auto simp: record_lifecycle_def Let_def split: if_splits
        intro!: interactions_field state_events_field)
  have fa: "I b'" if fact: "on_interaction_fact e kind seq ts event b fs = Inr (b', fs')"
  proof (cases "get_str event ''request_id''")
    case None
    with fact assms(1) show ?thesis by (simp add: on_interaction_fact_def)
  next
    case (Some r)
    with fact obtain b1 where b1: "record_lifecycle e kind r seq ts event b = Inr b1"
      by (cases "record_lifecycle e kind r seq ts event b") (auto simp: on_interaction_fact_def)
    let ?b = "if kind = ''interaction_response_started'' then b1
              else b1\<lparr>hb_pending_user_inputs := hm_remove r (hb_pending_user_inputs b1)\<rparr>"
    have "I ?b" using lc [OF b1] by (auto intro: user_inputs_field)
    moreover have "(case map_of (hb_pending_user_inputs b1) r of
        None \<Rightarrow> Inr (?b, fs)
      | Some n \<Rightarrow> update_tool_page e n r (set_status (answered_status kind)) ?b fs) = Inr (b', fs')"
      using fact Some b1 by (simp add: on_interaction_fact_def Let_def)
    ultimately show ?thesis
      by (cases "map_of (hb_pending_user_inputs b1) r") (auto dest: main.update_keeps [OF _ entry_updates_keep_identity(3)])
  qed
  from assms(2) show ?thesis
    unfolding main_event_def
    by (elim if_InrE)
      ((erule um te co st pr fa main.add_message_delta_keeps [OF assms(1)]
          main.add_thinking_delta_keeps [OF assms(1)] main.complete_message_keeps [OF assms(1)]
          main.start_tool_keeps [OF assms(1)] main.add_tool_input_keeps [OF assms(1)]
          main.add_tool_output_keeps [OF assms(1)]) | use assms(1) in simp)+
qed

lemma record_identity_keeps: "I b \<Longrightarrow> record_identity b kind event = (fresh, b') \<Longrightarrow> I b'"
  by (auto simp: record_identity_def split: option.splits if_splits
      intro: seen_messages_field seen_tools_field)

lemma on_duplicate_keeps:
  assumes "I b" and "on_duplicate e kind event b fs = Inr (b', fs')"
  shows "I b'"
proof (cases "kind = ''message_complete''")
  case True
  show ?thesis
  proof (cases "normalized_parent_tool_use_id event")
    case None
    with True assms show ?thesis by (auto simp: on_duplicate_def dest: main.reset_keeps)
  next
    case (Some p)
    show ?thesis
    proof (cases "map_of (hb_subhistories b) p")
      case None
      with True Some assms show ?thesis by (simp add: on_duplicate_def)
    next
      case s: (Some s)
      with True Some assms(2) obtain s1 where
        r: "reset_pending_streams e s fs = Inr (s1, fs')" and
        b': "b' = b\<lparr>hb_subhistories := hm_insert p s1 (hb_subhistories b)\<rparr>"
        by (auto simp: on_duplicate_def and_then_Inr_iff)
      from s subs_of [OF assms(1)] have "S s" by (force dest: map_of_SomeD)
      from sub.reset_keeps [OF this r] have "S s1" .
      with b' show ?thesis
        using with_subs [OF assms(1) hm_insert_subs [OF subs_of [OF assms(1)]]] by simp
    qed
  qed
next
  case False
  with assms show ?thesis by (simp add: on_duplicate_def)
qed

lemma handle_bus_event_keeps:
  assumes "I b" and "handle_bus_event e seq ts event b fs = Inr (b', fs')"
  shows "I b'"
proof -
  let ?kind = "unwrap_or (get_str event ''type'') []"
  let ?b = "b\<lparr>tl_last_seq := max (tl_last_seq b) seq\<rparr>"
  from assms(2) obtain b1 fs1 where
    1: "(if closes_previous_turn ?kind event
         then settle_interrupted_work e seq ''Turn ended before tool result'' ?b fs else Inr (?b, fs)) = Inr (b1, fs1)" and
    2: "(case record_identity b1 ?kind event of
           (False, b) \<Rightarrow> on_duplicate e ?kind event b fs1
         | (True, b) \<Rightarrow>
             (case event_owner b ?kind event of
                Some p \<Rightarrow> handle_subhistory_event e p seq ts event b fs1
              | None \<Rightarrow> main_event e ?kind seq ts event b fs1)) = Inr (b', fs')"
    unfolding handle_bus_event_def Let_def by (elim and_then_pairE)
  have "I ?b" using assms(1) by (rule last_seq_field)
  with 1 have "I b1" by (auto split: if_splits dest: settle_keeps)
  obtain fresh b2 where r: "record_identity b1 ?kind event = (fresh, b2)" by (cases "record_identity b1 ?kind event")
  with \<open>I b1\<close> have "I b2" by (rule record_identity_keeps)
  with 2 r show ?thesis
    by (auto split: bool.splits option.splits
        dest: on_duplicate_keeps handle_subhistory_keeps main_event_keeps)
qed

lemma handle_legacy_keeps: "I b \<Longrightarrow> handle_legacy_event e event b fs = Inr (b', fs') \<Longrightarrow> I b'"
  unfolding handle_legacy_event_def Let_def
  by (elim if_InrE and_then_pairE)
    (auto split: if_splits intro: last_seq_field
      dest: main.push_keeps [OF turns_field [OF last_seq_field]] main.push_keeps [OF turns_field]
        main.push_keeps [OF last_seq_field] main.push_keeps)

lemma handle_event_keeps: "I b \<Longrightarrow> handle_event e env b fs = Inr (b', fs') \<Longrightarrow> I b'"
  by (auto simp: handle_event_def split: if_splits option.splits
      dest: handle_legacy_keeps handle_bus_event_keeps)

end

text \<open>
  A line that replaces the content of the entry just pushed asks one more law: the property does not
  depend on the content of the last entry.
\<close>

locale line_ops = builder_ops +
  assumes main_replace: "I b \<Longrightarrow> replace_last c b = Some b' \<Longrightarrow> I b'"
    and sub_replace: "S s \<Longrightarrow> replace_last c s = Some s' \<Longrightarrow> S s'"
begin

lemma replace_target_keeps:
  assumes "I b" and "replace_target parent c b = Some b'"
  shows "I b'"
proof (cases parent)
  case None
  with assms show ?thesis by (simp add: replace_target_def main_replace)
next
  case (Some p)
  with assms(2) obtain s s' where
    s: "map_of (hb_subhistories b) p = Some s" "replace_last c s = Some s'" and
    b': "b' = b\<lparr>hb_subhistories := hm_insert p s' (hb_subhistories b)\<rparr>"
    by (auto simp: replace_target_def bind_eq_Some_conv)
  from s(1) subs_of [OF assms(1)] have "S s" by (force dest: map_of_SomeD)
  from sub_replace [OF this s(2)] have "S s'" .
  with b' show ?thesis using with_subs [OF assms(1) hm_insert_subs [OF subs_of [OF assms(1)]]] by simp
qed

lemma oversized_text_keeps:
  assumes "I b" and "oversized_text e kind seq parent env bytes b fs = Inr (b', fs')"
  shows "I b'"
proof -
  from assms(2) obtain b1 b2 c fs1 fs2 where
    "handle_event e env b fs1 = Inr (b1, fs2)" "replace_target parent c b1 = Some b2" "b' = b2"
    by (auto simp: oversized_text_def Let_def and_then_Inr_iff)
  with assms(1) show ?thesis using handle_event_keeps replace_target_keeps by blast
qed

lemma update_scope_keeps:
  assumes "I b" and f: "keeps_entry_id f" and upd: "update_scope_page e scope n i f b fs = Inr (b', fs')"
  shows "I b'"
proof (cases "\<exists>p. scope = Some (Sub_Scope p)")
  case True
  with upd obtain p s s' where
    s: "map_of (hb_subhistories b) p = Some s" "update_tool_page e n i f s fs = Inr (s', fs')" and
    b': "b' = b\<lparr>hb_subhistories := hm_insert p s' (hb_subhistories b)\<rparr>"
    by (auto simp: update_scope_page_def and_then_Inr_iff)
  from s(1) subs_of [OF assms(1)] have "S s" by (force dest: map_of_SomeD)
  from sub.update_keeps [OF this f s(2)] have "S s'" .
  with b' show ?thesis using with_subs [OF assms(1) hm_insert_subs [OF subs_of [OF assms(1)]]] by simp
next
  case False
  with upd have "update_tool_page e n i f b fs = Inr (b', fs')"
    by (auto simp: update_scope_page_def split: option.splits tool_scope.splits)
  from main.update_keeps [OF assms(1) f this] show ?thesis .
qed

lemma oversized_tool_keeps:
  assumes "I b" and "oversized_tool e kind seq event env bytes b fs = Inr (b', fs')"
  shows "I b'"
  using assms(2) unfolding oversized_tool_def Let_def
  by (elim and_then_pairE and_then_InrE, simp only: sum.inject prod.inject)
    (blast intro: update_scope_keeps [OF _ entry_updates_keep_identity(4)] handle_event_keeps [OF assms(1)])

lemma handle_oversized_keeps:
  assumes "I b" and "handle_oversized_event e bytes n k b fs = Inr (b', fs')"
  shows "I b'"
proof -
  have ph: "I b'" if "oversized_placeholder e k q ts bytes n b fs1 = Inr (b', fs')" for q ts fs1 b' fs'
    using that assms(1)
    by (auto simp: oversized_placeholder_def Let_def and_then_Inr_iff dest: main.push_keeps)
  from assms(2) show ?thesis
    unfolding handle_oversized_event_def Let_def
    by (elim and_then_pairE if_InrE)
      (auto simp: and_then_Inr_iff intro!: last_seq_field
        dest: handle_event_keeps [OF assms(1)] oversized_text_keeps [OF assms(1)]
          oversized_tool_keeps [OF assms(1)] ph)
qed

lemma project_line_keeps: "I b \<Longrightarrow> project_line e k l b fs = Inr (b', fs') \<Longrightarrow> I b'"
  by (auto simp: project_line_def split: scanned_line.splits if_splits option.splits
      dest: handle_event_keeps handle_oversized_keeps)

lemma project_lines_keeps: "I b \<Longrightarrow> project_lines e chs k b fs = Inr (b', fs') \<Longrightarrow> I b'"
proof (induction "length (concat chs)" arbitrary: chs k b fs rule: less_induct)
  case less
  from less.prems(2) obtain l rest fs1 where r: "read_bounded_line e chs [] None 0 fs = Inr (l, rest, fs1)"
    by (auto simp: project_lines.simps [of e chs] and_then_Inr_iff)
  show ?case
  proof (cases "l = Eof_Line")
    case True
    with r less.prems show ?thesis by (simp add: project_lines.simps [of e chs])
  next
    case False
    with r less.prems(2) obtain b1 fs2 where
      l: "project_line e k l b fs1 = Inr (b1, fs2)" and
      n: "project_lines e rest (k + 1) b1 fs2 = Inr (b', fs')"
      by (auto simp: project_lines.simps [of e chs] and_then_Inr_iff)
    from False r have "length (concat rest) < length (concat chs)"
      by (blast dest: read_bounded_line_shrinks)
    from less.hyps [OF this project_line_keeps [OF less.prems(1) l] n] show ?thesis .
  qed
qed

end

text \<open>The end of a build.\<close>

context builder_ops
begin

lemma sub_finish_keeps: "S s \<Longrightarrow> sub_finish e s fs = Inr (s', fs') \<Longrightarrow> S s'"
  unfolding sub_finish_def
  by (elim and_then_pairE and_then_InrE, simp only: sum.inject prod.inject)
    (blast dest: sub_settle_keeps sub.flush_keeps)

lemma finish_subs_keeps:
  "\<forall>x\<in>set ss. S (snd x) \<Longrightarrow> finish_subs e ss fs = Inr (ss', fs') \<Longrightarrow> \<forall>x\<in>set ss'. S (snd x)"
proof (induction ss arbitrary: fs ss' fs')
  case (Cons x ss)
  obtain p s where x: "x = (p, s)" by (cases x)
  with Cons.prems obtain s1 fs1 ss1 where
    "sub_finish e s fs = Inr (s1, fs1)" "finish_subs e ss fs1 = Inr (ss1, fs')" "ss' = (p, s1) # ss1"
    by (auto simp: and_then_Inr_iff)
  with Cons x show ?case using sub_finish_keeps by fastforce
qed simp

lemma finish_keeps:
  assumes "I b" and "finish e sz n m h b fs = Inr ((mf, su, b'), fs')"
  shows "I b'"
proof -
  from assms(2) obtain b1 fs1 ss fs2 fs3 where
    "settle_interrupted_work e (tl_last_seq b) ''Session ended before tool result'' b fs = Inr (b1, fs1)"
    "finish_subs e (hb_subhistories b1) fs1 = Inr (ss, fs2)"
    "flush_entries_page e (b1\<lparr>hb_subhistories := ss\<rparr>) fs2 = Inr (b', fs3)"
    by (auto simp: finish_def Let_def and_then_Inr_iff split: if_splits)
  with assms(1) show ?thesis
    using settle_keeps finish_subs_keeps subs_of with_subs main.flush_keeps by meson
qed

end

end
