(* ===== verification/History_Pages.thy ===== *)
theory History_Pages
  imports History_Keeps
begin

text \<open>
  The pages of a history projection. \<open>timeline_ids\<close> is the whole timeline as one list: the pages in
  order and the page under construction. Every operation of the builder keeps the pages well formed
  and only ever appends to that list; the pages are an invisible cut of it.
\<close>

text \<open>
  What is assumed of the JSON crate: a page is read back as what was written. A tool result that is
  the value \<open>null\<close> is read back as none.
\<close>

fun entry_norm :: "history_entry \<Rightarrow> history_entry" where
  "entry_norm (Tool_Entry b f) =
     Tool_Entry b (f\<lparr>tf_tool_use_result := opt_filter (\<lambda>v. v \<noteq> JNull) (tf_tool_use_result f)\<rparr>)"
| "entry_norm x = x"

definition reads_back :: "hist_env \<Rightarrow> bool" where
  "reads_back e = (\<forall>xs. he_entries e (page_body e xs) = Inr (map entry_norm xs))"

lemma entry_norm_id [simp]: "entry_id (entry_norm x) = entry_id x"
  by (cases x) auto

lemma entry_norm_seqs [simp]:
  "entry_first_seq (entry_norm x) = entry_first_seq x" "entry_last_seq (entry_norm x) = entry_last_seq x"
  by (cases x; simp add: entry_first_seq_def entry_last_seq_def)+

definition page_entries :: "hist_env \<Rightarrow> string option \<Rightarrow> history_entry list" where
  "page_entries e body =
     (case body of
        None \<Rightarrow> []
      | Some b \<Rightarrow> (case he_entries e b of Inl _ \<Rightarrow> [] | Inr xs \<Rightarrow> xs))"

definition ids_of :: "hist_env \<Rightarrow> (nat \<Rightarrow> string option) \<Rightarrow> nat \<Rightarrow> history_entry list \<Rightarrow> string list" where
  "ids_of e pages n page =
     concat (map (\<lambda>k. map entry_id (page_entries e (pages k))) [1..<n + 1]) @ map entry_id page"

definition timeline_ids :: "hist_env \<Rightarrow> 'a timeline_scheme \<Rightarrow> string list" where
  "timeline_ids e t = ids_of e (tl_pages t) (tl_page_count t) (tl_page t)"

definition written_page_ok :: "hist_env \<Rightarrow> string option \<Rightarrow> bool" where
  "written_page_ok e body =
     (\<exists>xs. body = Some (page_body e xs) \<and> xs \<noteq> [] \<and> length xs \<le> PAGE_ENTRY_LIMIT \<and>
           length (page_body e xs) \<le> PAGE_BYTE_LIMIT)"

definition pages_ok :: "hist_env \<Rightarrow> (nat \<Rightarrow> string option) \<Rightarrow> nat \<Rightarrow> history_entry list \<Rightarrow> bool" where
  "pages_ok e pages n page =
     ((\<forall>k\<in>{1..n}. written_page_ok e (pages k)) \<and> (\<forall>k. k \<notin> {1..n} \<longrightarrow> pages k = None) \<and>
      length page \<le> PAGE_ENTRY_LIMIT)"

definition timeline_ok :: "hist_env \<Rightarrow> 'a timeline_scheme \<Rightarrow> bool" where
  "timeline_ok e t = pages_ok e (tl_pages t) (tl_page_count t) (tl_page t)"

section \<open>The primitive operations\<close>

lemma flush_parts:
  assumes "flush_entries_page e t fs = Inr (t', fs')" and "tl_page t \<noteq> []"
  shows "t' = t\<lparr>tl_page := [], tl_page_bytes := 2, tl_page_count := tl_page_count t + 1,
                 tl_pages := (tl_pages t)(tl_page_count t + 1 \<mapsto> page_body e (tl_page t))\<rparr>"
    and "length (page_body e (tl_page t)) \<le> PAGE_BYTE_LIMIT"
  using assms by (auto simp: flush_entries_page_def Let_def and_then_Inr_iff split: if_splits)

lemma flush_nothing: "flush_entries_page e t fs = Inr (t', fs') \<Longrightarrow> tl_page t = [] \<Longrightarrow> t' = t"
  by (simp add: flush_entries_page_def)

lemma flush_empties: "flush_entries_page e t fs = Inr (t', fs') \<Longrightarrow> tl_page t' = []"
  by (cases "tl_page t = []") (auto dest: flush_parts flush_nothing)

lemma flush_ok:
  assumes "timeline_ok e t" and "flush_entries_page e t fs = Inr (t', fs')"
  shows "timeline_ok e t'"
proof (cases "tl_page t = []")
  case True
  with assms show ?thesis by (auto dest: flush_nothing)
next
  case False
  note p = flush_parts [OF assms(2) False]
  have "written_page_ok e (Some (page_body e (tl_page t)))"
    using assms(1) False p(2) unfolding written_page_ok_def timeline_ok_def pages_ok_def by blast
  with assms(1) show ?thesis
    by (auto simp: p(1) timeline_ok_def pages_ok_def le_Suc_eq)
qed

lemma ids_extend:
  "ids_of e (pages(n + 1 \<mapsto> body)) (n + 1) [] =
     ids_of e pages n (page_entries e (Some body))"
proof -
  have "map (\<lambda>k. map entry_id (page_entries e ((pages(n + 1 \<mapsto> body)) k))) [1..<n + 1] =
        map (\<lambda>k. map entry_id (page_entries e (pages k))) [1..<n + 1]"
    by (intro map_cong refl) auto
  moreover have "[1..<n + 1 + 1] = [1..<n + 1] @ [n + 1]" by simp
  ultimately show ?thesis unfolding ids_of_def by (simp only: map_append concat_append) simp
qed

lemma ids_of_cong: "map entry_id xs = map entry_id ys \<Longrightarrow> ids_of e pages n xs = ids_of e pages n ys"
  by (simp add: ids_of_def)

lemma flush_ids:
  assumes "reads_back e" and "flush_entries_page e t fs = Inr (t', fs')"
  shows "timeline_ids e t' = timeline_ids e t"
proof (cases "tl_page t = []")
  case True
  with assms show ?thesis by (auto dest: flush_nothing)
next
  case False
  have "page_entries e (Some (page_body e (tl_page t))) = map entry_norm (tl_page t)"
    using assms(1) by (simp add: page_entries_def reads_back_def)
  then show ?thesis
    using flush_parts(1) [OF assms(2) False] ids_extend [of e "tl_pages t" "tl_page_count t"]
    by (auto simp: timeline_ids_def intro: ids_of_cong)
qed

lemma update_first_tool_ids:
  "update_first_tool i f xs = Some ys \<Longrightarrow> keeps_entry_id f \<Longrightarrow>
     map entry_id ys = map entry_id xs \<and> length ys = length xs"
  by (induction xs arbitrary: ys) (auto simp: keeps_entry_id_def split: if_splits)

lemma update_tool_page_parts:
  assumes "update_tool_page e n i f t fs = Inr (t', fs')"
  obtains body xs ys where
    "tl_pages t n = Some body" "he_entries e body = Inr xs" "update_first_tool i f xs = Some ys"
    "t' = t\<lparr>tl_pages := (tl_pages t)(n \<mapsto> page_body e ys)\<rparr>"
    "length (page_body e ys) \<le> PAGE_BYTE_LIMIT"
  using assms
  by (auto simp: update_tool_page_def Let_def and_then_Inr_iff split: if_splits)

lemma update_tool_page_ok:
  assumes "reads_back e" and "timeline_ok e t" and "keeps_entry_id f"
    and "update_tool_page e n i f t fs = Inr (t', fs')"
  shows "timeline_ok e t' \<and> timeline_ids e t' = timeline_ids e t"
proof -
  from assms(4) obtain body xs ys where
    b: "tl_pages t n = Some body" "he_entries e body = Inr xs" "update_first_tool i f xs = Some ys" and
    t': "t' = t\<lparr>tl_pages := (tl_pages t)(n \<mapsto> page_body e ys)\<rparr>" and
    le: "length (page_body e ys) \<le> PAGE_BYTE_LIMIT"
    by (rule update_tool_page_parts)
  have n: "n \<in> {1..tl_page_count t}"
    using assms(2) b(1) unfolding timeline_ok_def pages_ok_def by fastforce
  then obtain zs where zs: "body = page_body e zs" "zs \<noteq> []" "length zs \<le> PAGE_ENTRY_LIMIT"
    using assms(2) b(1) unfolding timeline_ok_def pages_ok_def written_page_ok_def by force
  with assms(1) b(2) have xs: "xs = map entry_norm zs" by (simp add: reads_back_def)
  note ys = update_first_tool_ids [OF b(3) assms(3)]
  have "written_page_ok e (Some (page_body e ys))"
    unfolding written_page_ok_def using le ys xs zs by (intro exI [of _ ys]) auto
  with assms(2) n have "timeline_ok e t'" by (auto simp: t' timeline_ok_def pages_ok_def)
  moreover have "map entry_id (page_entries e (Some (page_body e ys))) = map entry_id (page_entries e (tl_pages t n))"
    using assms(1) b ys by (simp add: page_entries_def reads_back_def comp_def)
  then have "timeline_ids e t' = timeline_ids e t"
    by (auto simp: t' timeline_ids_def ids_of_def intro!: arg_cong [where f = concat])
  ultimately show ?thesis by blast
qed

lemma append_entry_ok:
  assumes "reads_back e" and "timeline_ok e t" and "append_entry e x t fs = Inr (t', fs')"
  shows "timeline_ok e t' \<and> timeline_ids e t' = timeline_ids e t @ [entry_id x]"
proof -
  from assms(3) obtain t1 fs1 where
    1: "(if page_full_for t (length (he_entry e x)) then flush_entries_page e t fs else Inr (t, fs)) = Inr (t1, fs1)" and
    t': "t' = t1\<lparr>tl_page_bytes := tl_page_bytes t1 + (length (he_entry e x) + 1),
                   tl_last_seq := max (tl_last_seq t1) (entry_last_seq x), tl_page := tl_page t1 @ [x]\<rparr>"
    by (auto simp: append_entry_def Let_def and_then_Inr_iff)
  have "timeline_ok e t1 \<and> timeline_ids e t1 = timeline_ids e t \<and> length (tl_page t1) < PAGE_ENTRY_LIMIT"
  proof (cases "page_full_for t (length (he_entry e x))")
    case True
    with 1 assms(1,2) show ?thesis
      by (auto dest: flush_ok flush_ids flush_empties simp: PAGE_ENTRY_LIMIT_def)
  next
    case False
    with 1 assms(2) show ?thesis
      by (auto simp: page_full_for_def PAGE_ENTRY_LIMIT_def)
  qed
  with t' show ?thesis
    by (auto simp: timeline_ok_def pages_ok_def timeline_ids_def ids_of_def)
qed

section \<open>The builder\<close>

text \<open>The entries counted are those of the main timeline, and \<open>ids\<close> is a beginning of it.\<close>

definition build_ok :: "hist_env \<Rightarrow> string list \<Rightarrow> build_state \<Rightarrow> bool" where
  "build_ok e ids b =
     (reads_back e \<longrightarrow>
        timeline_ok e b \<and> hb_total_entries b = length (timeline_ids e b) \<and>
        prefix ids (timeline_ids e b) \<and> (\<forall>x\<in>set (hb_subhistories b). timeline_ok e (snd x)))"

definition sub_ok :: "hist_env \<Rightarrow> sub_history \<Rightarrow> bool" where
  "sub_ok e s = (reads_back e \<longrightarrow> timeline_ok e s)"

lemma timeline_fields [simp]:
  "timeline_ok e (t\<lparr>tl_message := m\<rparr>) = timeline_ok e t"
  "timeline_ok e (t\<lparr>tl_message_seq := q\<rparr>) = timeline_ok e t"
  "timeline_ok e (t\<lparr>tl_thinking := m\<rparr>) = timeline_ok e t"
  "timeline_ok e (t\<lparr>tl_thinking_seq := q\<rparr>) = timeline_ok e t"
  "timeline_ok e (t\<lparr>tl_open_tools := ots\<rparr>) = timeline_ok e t"
  "timeline_ok e (t\<lparr>tl_last_seq := n\<rparr>) = timeline_ok e t"
  "timeline_ids e (t\<lparr>tl_message := m\<rparr>) = timeline_ids e t"
  "timeline_ids e (t\<lparr>tl_message_seq := q\<rparr>) = timeline_ids e t"
  "timeline_ids e (t\<lparr>tl_thinking := m\<rparr>) = timeline_ids e t"
  "timeline_ids e (t\<lparr>tl_thinking_seq := q\<rparr>) = timeline_ids e t"
  "timeline_ids e (t\<lparr>tl_open_tools := ots\<rparr>) = timeline_ids e t"
  "timeline_ids e (t\<lparr>tl_last_seq := n\<rparr>) = timeline_ids e t"
  by (simp_all add: timeline_ok_def timeline_ids_def)

lemma build_fields [simp]:
  "timeline_ok e (b\<lparr>hb_total_entries := k\<rparr>) = timeline_ok e b"
  "timeline_ids e (b\<lparr>hb_total_entries := k\<rparr>) = timeline_ids e b"
  "timeline_ok e (b\<lparr>hb_subhistories := ss\<rparr>) = timeline_ok e b"
  "timeline_ids e (b\<lparr>hb_subhistories := ss\<rparr>) = timeline_ids e b"
  "timeline_ok e (b\<lparr>hb_total_turns := k\<rparr>) = timeline_ok e b"
  "timeline_ids e (b\<lparr>hb_total_turns := k\<rparr>) = timeline_ids e b"
  "timeline_ok e (b\<lparr>hb_state_events := evs\<rparr>) = timeline_ok e b"
  "timeline_ids e (b\<lparr>hb_state_events := evs\<rparr>) = timeline_ids e b"
  "timeline_ok e (b\<lparr>hb_pending_interactions := evs\<rparr>) = timeline_ok e b"
  "timeline_ids e (b\<lparr>hb_pending_interactions := evs\<rparr>) = timeline_ids e b"
  "timeline_ok e (b\<lparr>hb_pending_user_inputs := ns\<rparr>) = timeline_ok e b"
  "timeline_ids e (b\<lparr>hb_pending_user_inputs := ns\<rparr>) = timeline_ids e b"
  "timeline_ok e (b\<lparr>hb_seen_message_ids := is\<rparr>) = timeline_ok e b"
  "timeline_ids e (b\<lparr>hb_seen_message_ids := is\<rparr>) = timeline_ids e b"
  "timeline_ok e (b\<lparr>hb_seen_tool_ids := is\<rparr>) = timeline_ok e b"
  "timeline_ids e (b\<lparr>hb_seen_tool_ids := is\<rparr>) = timeline_ids e b"
  "timeline_ok e (b\<lparr>hb_dropped_subhistories := is\<rparr>) = timeline_ok e b"
  "timeline_ids e (b\<lparr>hb_dropped_subhistories := is\<rparr>) = timeline_ids e b"
  by (simp_all add: timeline_ok_def timeline_ids_def)

lemma flush_frame:
  "flush_entries_page e b fs = Inr (b', fs') \<Longrightarrow>
     hb_subhistories b' = hb_subhistories b \<and> hb_total_entries b' = hb_total_entries b"
  by (cases "tl_page b = []") (auto dest: flush_parts(1) flush_nothing)

lemma update_frame:
  "update_tool_page e n i f b fs = Inr (b', fs') \<Longrightarrow>
     hb_subhistories b' = hb_subhistories b \<and> hb_total_entries b' = hb_total_entries b"
  by (erule update_tool_page_parts) simp

lemma append_frame:
  "append_entry e x b fs = Inr (b', fs') \<Longrightarrow>
     hb_subhistories b' = hb_subhistories b \<and> hb_total_entries b' = hb_total_entries b"
  by (auto simp: append_entry_def Let_def and_then_Inr_iff split: if_splits dest: flush_frame)

lemma push_parts:
  assumes "push e b x fs = Inr (b', fs')"
  obtains y fs1 b1 where
    "append_entry e y b fs1 = Inr (b1, fs')" "b' = b1\<lparr>hb_total_entries := hb_total_entries b1 + 1\<rparr>"
    "y = x \<or> y = snd (snd (placeholder_for e b x))"
  using assms
  by (auto simp: push_def and_then_Inr_iff split: if_splits prod.splits)

lemma push_build_ok:
  assumes "build_ok e ids b" and "push e b x fs = Inr (b', fs')"
  shows "build_ok e ids b'"
  unfolding build_ok_def
proof (intro impI)
  assume r: "reads_back e"
  from assms(2) obtain y fs1 b1 where
    1: "append_entry e y b fs1 = Inr (b1, fs')" and b': "b' = b1\<lparr>hb_total_entries := hb_total_entries b1 + 1\<rparr>"
    by (rule push_parts)
  with append_entry_ok [OF r _ 1] append_frame [OF 1] assms(1) r
  show "timeline_ok e b' \<and> hb_total_entries b' = length (timeline_ids e b') \<and>
        prefix ids (timeline_ids e b') \<and> (\<forall>x\<in>set (hb_subhistories b'). timeline_ok e (snd x))"
    by (auto simp: build_ok_def intro: prefix_prefix)
qed

lemma replace_last_parts:
  assumes "replace_last c t = Some t'"
  obtains x where "t' = t\<lparr>tl_page := butlast (tl_page t) @ [x]\<rparr>" "tl_page t \<noteq> []"
    "entry_id x = entry_id (last (tl_page t))"
proof -
  from assms obtain x where
    "replace_content c (last (tl_page t)) = Some x" "t' = t\<lparr>tl_page := butlast (tl_page t) @ [x]\<rparr>" "tl_page t \<noteq> []"
    by (auto simp: replace_last_def split: if_splits)
  moreover from this(1) have "entry_id x = entry_id (last (tl_page t))"
    by (cases "last (tl_page t)") auto
  ultimately show thesis using that by blast
qed

lemma replace_last_ok:
  assumes "replace_last c t = Some t'"
  shows "timeline_ok e t' = timeline_ok e t" and "timeline_ids e t' = timeline_ids e t"
proof -
  from assms obtain x where t': "t' = t\<lparr>tl_page := butlast (tl_page t) @ [x]\<rparr>" and ne: "tl_page t \<noteq> []"
    and i: "entry_id x = entry_id (last (tl_page t))"
    by (rule replace_last_parts)
  from ne have l: "length (butlast (tl_page t)) + 1 = length (tl_page t)" by (cases "tl_page t") auto
  have "map entry_id (butlast (tl_page t) @ [x]) = map entry_id (butlast (tl_page t) @ [last (tl_page t)])"
    using i by simp
  also have "\<dots> = map entry_id (tl_page t)" by (simp only: append_butlast_last_id [OF ne])
  finally have m: "map entry_id (butlast (tl_page t) @ [x]) = map entry_id (tl_page t)" .
  show "timeline_ok e t' = timeline_ok e t" using l by (simp add: t' timeline_ok_def pages_ok_def)
  show "timeline_ids e t' = timeline_ids e t" using m by (simp add: t' timeline_ids_def ids_of_def)
qed

lemma replace_last_frame:
  "replace_last c b = Some b' \<Longrightarrow>
     hb_subhistories b' = hb_subhistories b \<and> hb_total_entries b' = hb_total_entries b"
  by (erule replace_last_parts) simp

lemma sub_new_ok: "sub_new e p run gen fs = Inr (s, fs') \<Longrightarrow> timeline_ok e s"
  by (auto simp: sub_new_def and_then_Inr_iff timeline_ok_def pages_ok_def)

lemma flush_build_ok:
  assumes "build_ok e ids b" and "flush_entries_page e b fs = Inr (b', fs')"
  shows "build_ok e ids b'"
  using assms(1) flush_frame [OF assms(2)] flush_ok [OF _ assms(2)] flush_ids [OF _ assms(2)]
  unfolding build_ok_def by metis

lemma update_build_ok:
  assumes "build_ok e ids b" and "keeps_entry_id f" and "update_tool_page e n i f b fs = Inr (b', fs')"
  shows "build_ok e ids b'"
  using assms(1) update_frame [OF assms(3)] update_tool_page_ok [OF _ _ assms(2,3)]
  unfolding build_ok_def by metis

lemma replace_build_ok:
  assumes "build_ok e ids b" and "replace_last c b = Some b'"
  shows "build_ok e ids b'"
  using assms(1) replace_last_frame [OF assms(2)] replace_last_ok [OF assms(2)]
  unfolding build_ok_def by metis

interpretation built: line_ops e "build_ok e ids" "sub_ok e" for e ids
proof (unfold_locales, fact push_build_ok, fact flush_build_ok, fact update_build_ok)
  fix t :: sub_history and x fs t' fs'
  show "sub_ok e t \<Longrightarrow> sub_push e t x fs = Inr (t', fs') \<Longrightarrow> sub_ok e t'"
    by (auto simp: sub_ok_def sub_push_def append_entry_ok split: if_splits)
next
  fix t :: sub_history and n i f fs t' fs'
  show "sub_ok e t \<Longrightarrow> keeps_entry_id f \<Longrightarrow> update_tool_page e n i f t fs = Inr (t', fs') \<Longrightarrow> sub_ok e t'"
    by (auto simp: sub_ok_def update_tool_page_ok)
next
  fix s s' :: sub_history and c
  show "sub_ok e s \<Longrightarrow> replace_last c s = Some s' \<Longrightarrow> sub_ok e s'"
    using replace_last_ok [of c s s'] by (auto simp: sub_ok_def)
next
  fix b b' :: build_state and c
  show "build_ok e ids b \<Longrightarrow> replace_last c b = Some b' \<Longrightarrow> build_ok e ids b'"
    by (rule replace_build_ok)
qed (auto simp: build_ok_def sub_ok_def flush_ok sub_new_ok)

end
