(* ===== verification/History_Demo.thy ===== *)
theory History_Demo
  imports History_Pages
begin

text \<open>
  A concrete instance of the parameters of the history projection, for the witnesses: a prefix code
  for entries that reads back what it writes, and an environment in which no file operation fails.
\<close>

type_synonym 'a reader = "string \<Rightarrow> 'a \<times> string"

definition reads :: "('a \<Rightarrow> string) \<Rightarrow> 'a reader \<Rightarrow> bool" where
  "reads w r = (\<forall>x s. r (w x @ s) = (x, s))"

lemma readsD: "reads w r \<Longrightarrow> r (w x @ s) = (x, s)"
  by (simp add: reads_def)

section \<open>Values\<close>

definition w_nat :: "nat \<Rightarrow> string" where
  "w_nat n = replicate n CHR ''1'' @ ''0''"

definition r_nat :: "nat reader" where
  "r_nat s = (length (takeWhile ((=) CHR ''1'') s), tl (dropWhile ((=) CHR ''1'') s))"

lemma reads_nat: "reads w_nat r_nat"
proof -
  have "takeWhile ((=) CHR ''1'') (replicate n CHR ''1'' @ CHR ''0'' # s) = replicate n CHR ''1''"
    "dropWhile ((=) CHR ''1'') (replicate n CHR ''1'' @ CHR ''0'' # s) = CHR ''0'' # s" for n s
    by (induction n) auto
  then show ?thesis by (simp add: reads_def w_nat_def r_nat_def)
qed

definition w_str :: "string \<Rightarrow> string" where
  "w_str t = w_nat (length t) @ t"

definition r_str :: "string reader" where
  "r_str s = (case r_nat s of (n, s) \<Rightarrow> (take n s, drop n s))"

lemma reads_str: "reads w_str r_str"
  using reads_nat by (simp add: reads_def w_str_def r_str_def)

definition w_bool :: "bool \<Rightarrow> string" where
  "w_bool b = (if b then ''t'' else ''f'')"

definition r_bool :: "bool reader" where
  "r_bool s = (hd s = CHR ''t'', tl s)"

lemma reads_bool: "reads w_bool r_bool"
  by (simp add: reads_def w_bool_def r_bool_def)

fun w_opt :: "('a \<Rightarrow> string) \<Rightarrow> 'a option \<Rightarrow> string" where
  "w_opt w None = ''n''"
| "w_opt w (Some x) = ''s'' @ w x"

definition r_opt :: "'a reader \<Rightarrow> 'a option reader" where
  "r_opt r s = (if hd s = CHR ''n'' then (None, tl s) else (case r (tl s) of (x, s) \<Rightarrow> (Some x, s)))"

lemma reads_opt:
  assumes "reads w r" shows "reads (w_opt w) (r_opt r)"
  unfolding reads_def
proof (intro allI)
  fix x s show "r_opt r (w_opt w x @ s) = (x, s)"
    using assms by (cases x) (simp_all add: r_opt_def reads_def)
qed

fun r_list :: "'a reader \<Rightarrow> nat \<Rightarrow> 'a list reader" where
  "r_list r 0 s = ([], s)"
| "r_list r (Suc n) s = (case r s of (x, s) \<Rightarrow> (case r_list r n s of (xs, s) \<Rightarrow> (x # xs, s)))"

lemma r_list_reads:
  assumes "\<And>x s. x \<in> set xs \<Longrightarrow> r (w x @ s) = (x, s)"
  shows "r_list r (length xs) (concat (map w xs) @ s) = (xs, s)"
  using assms by (induction xs) auto

definition w_list :: "('a \<Rightarrow> string) \<Rightarrow> 'a list \<Rightarrow> string" where
  "w_list w xs = w_nat (length xs) @ concat (map w xs)"

lemma w_list_cong [fundef_cong]:
  "xs = ys \<Longrightarrow> (\<And>x. x \<in> set ys \<Longrightarrow> w x = w' x) \<Longrightarrow> w_list w xs = w_list w' ys"
  by (auto simp: w_list_def intro!: arg_cong [where f = concat])

definition r_lst :: "'a reader \<Rightarrow> 'a list reader" where
  "r_lst r s = (case r_nat s of (n, s) \<Rightarrow> r_list r n s)"

lemma reads_list_on:
  assumes "\<And>x s. x \<in> set xs \<Longrightarrow> r (w x @ s) = (x, s)"
  shows "r_lst r (w_list w xs @ s) = (xs, s)"
  using reads_nat r_list_reads [of xs r w s] assms by (simp add: reads_def r_lst_def w_list_def)

section \<open>JSON\<close>

definition w_int :: "int \<Rightarrow> string" where
  "w_int i = w_bool (0 \<le> i) @ w_nat (nat \<bar>i\<bar>)"

definition r_int :: "int reader" where
  "r_int s = (case r_bool s of (p, s) \<Rightarrow> (case r_nat s of (n, s) \<Rightarrow> (if p then int n else - int n, s)))"

lemma reads_int: "reads w_int r_int"
  using readsD [OF reads_bool] readsD [OF reads_nat] by (simp add: reads_def w_int_def r_int_def)

fun w_num :: "json_num \<Rightarrow> string" where
  "w_num (PosInt n) = ''p'' @ w_nat n"
| "w_num (NegInt i) = ''m'' @ w_int i"
| "w_num (Flt q) = ''q'' @ w_int (fst (quotient_of q)) @ w_int (snd (quotient_of q))"

definition r_num :: "json_num reader" where
  "r_num s =
     (if hd s = CHR ''p'' then (case r_nat (tl s) of (n, s) \<Rightarrow> (PosInt n, s))
      else if hd s = CHR ''m'' then (case r_int (tl s) of (i, s) \<Rightarrow> (NegInt i, s))
      else (case r_int (tl s) of (a, s) \<Rightarrow> (case r_int s of (b, s) \<Rightarrow> (Flt (of_int a / of_int b), s))))"

lemma reads_num: "reads w_num r_num"
  unfolding reads_def
proof (intro allI)
  fix x s show "r_num (w_num x @ s) = (x, s)"
  proof (cases x)
    case (Flt q)
    have "of_int (fst (quotient_of q)) / of_int (snd (quotient_of q)) = q"
      using quotient_of_div [of q "fst (quotient_of q)" "snd (quotient_of q)"] by simp
    with Flt show ?thesis by (simp add: r_num_def readsD [OF reads_int])
  qed (simp_all add: r_num_def readsD [OF reads_nat] readsD [OF reads_int])
qed

fun w_json :: "json \<Rightarrow> string" where
  "w_json JNull = ''0''"
| "w_json (JBool b) = ''1'' @ w_bool b"
| "w_json (JNum n) = ''2'' @ w_num n"
| "w_json (JStr t) = ''3'' @ w_str t"
| "w_json (JArr xs) = ''4'' @ w_list w_json xs"
| "w_json (JObj kvs) = ''5'' @ w_list (\<lambda>(k, v). w_str k @ w_json v) kvs"

text \<open>The reader descends at most as deep as the text is long.\<close>

fun r_json :: "nat \<Rightarrow> json reader" where
  "r_json 0 s = (JNull, s)"
| "r_json (Suc d) s =
     (let c = hd s; s = tl s in
      if c = CHR ''0'' then (JNull, s)
      else if c = CHR ''1'' then (case r_bool s of (b, s) \<Rightarrow> (JBool b, s))
      else if c = CHR ''2'' then (case r_num s of (n, s) \<Rightarrow> (JNum n, s))
      else if c = CHR ''3'' then (case r_str s of (t, s) \<Rightarrow> (JStr t, s))
      else if c = CHR ''4'' then (case r_lst (r_json d) s of (xs, s) \<Rightarrow> (JArr xs, s))
      else (case r_lst (\<lambda>s. case r_str s of (k, s) \<Rightarrow> (case r_json d s of (v, s) \<Rightarrow> ((k, v), s))) s of
              (kvs, s) \<Rightarrow> (JObj kvs, s)))"

lemma w_list_member: "x \<in> set xs \<Longrightarrow> length (w x) < length (w_list w xs)"
proof (induction xs)
  case (Cons y ys)
  then show ?case by (cases "x = y") (auto simp: w_list_def w_nat_def)
qed simp

lemma r_json_w_json: "length (w_json v) \<le> d \<Longrightarrow> r_json d (w_json v @ s) = (v, s)"
proof (induction v arbitrary: d s)
  case (JArr xs)
  then obtain d' where d: "d = Suc d'" by (cases d) auto
  have "r_json d' (w_json x @ s) = (x, s)" if "x \<in> set xs" for x s
    using JArr.IH [OF that] JArr.prems w_list_member [OF that, of w_json] d by simp
  then show ?case using d reads_list_on [of xs "r_json d'" w_json s] by simp
next
  case (JObj kvs)
  then obtain d' where d: "d = Suc d'" by (cases d) auto
  let ?w = "\<lambda>(k, v). w_str k @ w_json v"
  let ?r = "\<lambda>s. case r_str s of (k, s) \<Rightarrow> (case r_json d' s of (v, s) \<Rightarrow> ((k, v), s))"
  have "?r (?w x @ s) = (x, s)" if x: "x \<in> set kvs" for x s
  proof -
    obtain k v where kv: "x = (k, v)" by (cases x)
    have "length (?w x) < length (w_list ?w kvs)" using x by (rule w_list_member)
    with JObj.prems d kv have "length (w_json v) \<le> d'" by simp
    with JObj.IH [of x v] x kv have "r_json d' (w_json v @ s) = (v, s)" for s by (simp add: prod_set_simps)
    with kv show ?thesis by (simp add: readsD [OF reads_str])
  qed
  then show ?case using d reads_list_on [of kvs ?r ?w s] by simp
qed (case_tac d; simp add: Let_def readsD [OF reads_bool] readsD [OF reads_num] readsD [OF reads_str])+

definition r_value :: "json reader" where
  "r_value s = r_json (length s) s"

lemma reads_value: "reads w_json r_value"
  by (simp add: reads_def r_value_def r_json_w_json)

section \<open>Entries\<close>

definition w_content :: "history_content \<Rightarrow> string" where
  "w_content c = w_str (hc_preview c) @ w_nat (hc_byte_length c) @ w_bool (hc_truncated c) @
     w_opt w_str (hc_content_id c) @ w_str (hc_encoding c)"

definition r_content :: "history_content reader" where
  "r_content s =
     (case r_str s of (p, s) \<Rightarrow> case r_nat s of (n, s) \<Rightarrow> case r_bool s of (t, s) \<Rightarrow>
      case r_opt r_str s of (i, s) \<Rightarrow> case r_str s of (k, s) \<Rightarrow>
        (\<lparr>hc_preview = p, hc_byte_length = n, hc_truncated = t, hc_content_id = i, hc_encoding = k\<rparr>, s))"

lemmas reads_parts = readsD [OF reads_nat] readsD [OF reads_str] readsD [OF reads_bool]
  readsD [OF reads_value] readsD [OF reads_opt [OF reads_str]] readsD [OF reads_opt [OF reads_nat]]
  readsD [OF reads_opt [OF reads_value]]

lemma reads_content: "reads w_content r_content"
  unfolding reads_def
proof (intro allI)
  fix c s show "r_content (w_content c @ s) = (c, s)"
    by (cases c) (simp add: w_content_def r_content_def reads_parts)
qed

definition w_base :: "entry_base \<Rightarrow> string" where
  "w_base b = w_str (eb_id b) @ w_str (eb_anchor_id b) @ w_str (eb_ts b) @ w_nat (eb_first_seq b) @
     w_nat (eb_last_seq b)"

definition r_base :: "entry_base reader" where
  "r_base s =
     (case r_str s of (i, s) \<Rightarrow> case r_str s of (a, s) \<Rightarrow> case r_str s of (t, s) \<Rightarrow>
      case r_nat s of (m, s) \<Rightarrow> case r_nat s of (n, s) \<Rightarrow>
        (\<lparr>eb_id = i, eb_anchor_id = a, eb_ts = t, eb_first_seq = m, eb_last_seq = n\<rparr>, s))"

lemma reads_base: "reads w_base r_base"
  unfolding reads_def
proof (intro allI)
  fix b s show "r_base (w_base b @ s) = (b, s)"
    by (cases b) (simp add: w_base_def r_base_def reads_parts)
qed

definition w_fields :: "tool_fields \<Rightarrow> string" where
  "w_fields f = w_str (tf_tool_use_id f) @ w_str (tf_tool_name f) @ w_str (tf_status f) @
     w_json (tf_input f) @ w_json (tf_output f) @ w_opt w_json (tf_tool_use_result f) @
     w_opt w_content (tf_input_content f) @ w_opt w_content (tf_output_content f) @
     w_opt w_content (tf_result_content f) @ w_opt w_nat (tf_duration_ms f) @
     w_opt w_str (tf_sub_history_id f)"

definition r_fields :: "tool_fields reader" where
  "r_fields s =
     (case r_str s of (i, s) \<Rightarrow> case r_str s of (n, s) \<Rightarrow> case r_str s of (st, s) \<Rightarrow>
      case r_value s of (inp, s) \<Rightarrow> case r_value s of (out, s) \<Rightarrow> case r_opt r_value s of (res, s) \<Rightarrow>
      case r_opt r_content s of (ic, s) \<Rightarrow> case r_opt r_content s of (oc, s) \<Rightarrow>
      case r_opt r_content s of (rc, s) \<Rightarrow> case r_opt r_nat s of (d, s) \<Rightarrow> case r_opt r_str s of (sub, s) \<Rightarrow>
        (\<lparr>tf_tool_use_id = i, tf_tool_name = n, tf_status = st, tf_input = inp, tf_output = out,
          tf_tool_use_result = opt_filter (\<lambda>v. v \<noteq> JNull) res, tf_input_content = ic,
          tf_output_content = oc, tf_result_content = rc, tf_duration_ms = d, tf_sub_history_id = sub\<rparr>, s))"

lemma reads_fields:
  "r_fields (w_fields f @ s) =
     (f\<lparr>tf_tool_use_result := opt_filter (\<lambda>v. v \<noteq> JNull) (tf_tool_use_result f)\<rparr>, s)"
  by (cases f)
    (simp add: w_fields_def r_fields_def reads_parts readsD [OF reads_opt [OF reads_content]])

fun w_entry :: "history_entry \<Rightarrow> string" where
  "w_entry (User_Entry b c u ats) = ''u'' @ w_base b @ w_content c @ w_opt w_str u @ w_list w_json ats"
| "w_entry (Assistant_Entry b c th m) = ''a'' @ w_base b @ w_content c @ w_opt w_content th @ w_opt w_str m"
| "w_entry (Tool_Entry b f) = ''t'' @ w_base b @ w_fields f"
| "w_entry (Command_Entry b c) = ''c'' @ w_base b @ w_content c"
| "w_entry (Placeholder_Entry b c) = ''p'' @ w_base b @ w_content c"

definition r_entry :: "history_entry reader" where
  "r_entry s =
     (let k = hd s in
      case r_base (tl s) of (b, s) \<Rightarrow>
        if k = CHR ''t'' then (case r_fields s of (f, s) \<Rightarrow> (Tool_Entry b f, s))
        else
          (case r_content s of (c, s) \<Rightarrow>
             if k = CHR ''c'' then (Command_Entry b c, s)
             else if k = CHR ''p'' then (Placeholder_Entry b c, s)
             else if k = CHR ''a'' then
               (case r_opt r_content s of (th, s) \<Rightarrow> case r_opt r_str s of (m, s) \<Rightarrow>
                  (Assistant_Entry b c th m, s))
             else
               (case r_opt r_str s of (u, s) \<Rightarrow> case r_lst r_value s of (ats, s) \<Rightarrow>
                  (User_Entry b c u ats, s))))"

lemma r_entry_w_entry: "r_entry (w_entry x @ s) = (entry_norm x, s)"
proof (cases x)
  case (User_Entry b c u ats)
  have "r_lst r_value (w_list w_json ats @ s) = (ats, s)"
    by (rule reads_list_on) (simp add: readsD [OF reads_value])
  with User_Entry show ?thesis
    by (simp add: r_entry_def readsD [OF reads_base] readsD [OF reads_content] reads_parts)
qed (simp_all add: r_entry_def readsD [OF reads_base] readsD [OF reads_content] reads_parts reads_fields
    readsD [OF reads_opt [OF reads_content]])

lemma w_entry_starts: "w_entry x \<noteq> []" "hd (w_entry x @ s) \<noteq> CHR '']''"
  by (cases x; simp)+

text \<open>A page: entries between brackets, separated by commas.\<close>

fun r_entries :: "nat \<Rightarrow> history_entry list reader" where
  "r_entries 0 s = ([], s)"
| "r_entries (Suc d) s =
     (if hd s = CHR '']'' then ([], s)
      else
        (case r_entry s of (x, s) \<Rightarrow>
           (case r_entries d (if hd s = CHR '','' then tl s else s) of (xs, s) \<Rightarrow> (x # xs, s))))"

lemma str_join_Cons: "str_join sep (x # xs) = x @ (if xs = [] then [] else sep @ str_join sep xs)"
  by (cases xs) simp_all

lemma r_entries_join:
  "length xs < d \<Longrightarrow> fst (r_entries d (str_join '','' (map w_entry xs) @ '']'')) = map entry_norm xs"
proof (induction xs arbitrary: d)
  case Nil
  then show ?case by (cases d) auto
next
  case (Cons x xs)
  then obtain d' where d: "d = Suc d'" by (cases d) auto
  let ?rest = "if xs = [] then [] else '','' @ str_join '','' (map w_entry xs)"
  have j: "str_join '','' (map w_entry (x # xs)) @ '']'' = w_entry x @ ?rest @ '']''"
    by (simp add: str_join_Cons)
  have t: "(if hd (?rest @ '']'') = CHR '','' then tl (?rest @ '']'') else ?rest @ '']'')
      = str_join '','' (map w_entry xs) @ '']''"
    by simp
  from Cons.IH [of d'] Cons.prems d
  have ih: "fst (r_entries d' (str_join '','' (map w_entry xs) @ '']'')) = map entry_norm xs" by simp
  show ?case
    unfolding j d r_entries.simps r_entry_w_entry prod.case t
    using ih w_entry_starts(2) [of x "?rest @ '']''"]
    by (cases "r_entries d' (str_join '','' (map w_entry xs) @ '']'')") simp
qed

definition demo_entries :: "string \<Rightarrow> string + history_entry list" where
  "demo_entries body = Inr (fst (r_entries (length body) (tl body)))"

lemma str_join_length: "(\<And>x. x \<in> set xs \<Longrightarrow> x \<noteq> []) \<Longrightarrow> length xs \<le> length (str_join sep xs)"
proof (induction xs)
  case (Cons x xs)
  from Cons.prems [of x] have "1 \<le> length x" by (cases x) auto
  moreover from Cons have "length xs \<le> length (str_join sep xs)" by simp
  ultimately show ?case by (auto simp: str_join_Cons)
qed simp

text \<open>
  The hash is the text itself, folded to an identifier of the length SHA-256 has; the JSON parser
  knows the lines it is told.
\<close>

definition demo_sha :: "string \<Rightarrow> string" where
  "demo_sha t = take 64 (filter is_ascii_hexdigit t @ replicate 64 CHR ''0'')"

definition demo_env :: "(string \<times> json) list \<Rightarrow> hist_env" where
  "demo_env known =
     \<lparr>he_codec = \<lparr>jc_parse = map_of known, jc_text = w_json, jc_complete = (\<lambda>_. True)\<rparr>, he_sha = demo_sha,
      he_entry = w_entry, he_entries = demo_entries, he_fault = (\<lambda>_. None)\<rparr>"

lemma demo_env_sel [simp]:
  "he_codec (demo_env known) = \<lparr>jc_parse = map_of known, jc_text = w_json, jc_complete = (\<lambda>_. True)\<rparr>"
  "he_sha (demo_env known) = demo_sha" "he_entry (demo_env known) = w_entry"
  "he_entries (demo_env known) = demo_entries" "he_fault (demo_env known) = (\<lambda>_. None)"
  by (simp_all add: demo_env_def)

lemma demo_reads_back: "reads_back (demo_env known)"
  unfolding reads_back_def
proof
  fix xs
  have "length (map w_entry xs) \<le> length (str_join '','' (map w_entry xs))"
    by (intro str_join_length) (auto simp: w_entry_starts)
  then show "he_entries (demo_env known) (page_body (demo_env known) xs) = Inr (map entry_norm xs)"
    using r_entries_join [of xs "length (page_body (demo_env known) xs)"]
    by (simp add: demo_entries_def page_body_def del: r_entries.simps)
qed

section \<open>A build of one line\<close>

text \<open>The log is the line \<open>a\<close>, which the parser knows as a message of the user.\<close>

definition demo_user :: json where
  "demo_user = JObj [(''_bus'', JBool True), (''seq'', jnat 1), (''ts'', JStr ''t''),
     (''event'', JObj [(''type'', JStr ''user_message''), (''text'', JStr ''hi'')])]"

definition demo_log :: string where
  "demo_log = [CHR ''a'', nl]"

definition one_line :: hist_env where
  "one_line = demo_env [(''a'', demo_user)]"

definition demo_gid :: string where
  "demo_gid = replicate 32 CHR ''a''"

lemma one_line_reads_back: "reads_back one_line"
  by (simp add: one_line_def demo_reads_back)

lemma one_line_op: "file_op one_line w fs = Inr (fs\<lparr>fs_ops := Suc (fs_ops fs)\<rparr>)"
  by (simp add: file_op_def one_line_def)

definition demo_entry :: history_entry where
  "demo_entry = User_Entry (base_at ''user-1'' ''t'' 1 1) (inline_content ''hi'') None []"

lemma demo_entry_fold:
  "User_Entry (base_at ''user-1'' ''t'' (Suc 0) (Suc 0)\<lparr>eb_anchor_id := ''user-1''\<rparr>)
     (inline_content ''hi'') None [] = demo_entry"
  by (simp add: demo_entry_def base_at_def)

lemma demo_entry_last: "entry_last_seq demo_entry = 1"
  by (simp add: demo_entry_def entry_last_seq_def)

lemma demo_entry_length: "length (w_entry demo_entry) \<le> 100"
  by (simp add: demo_entry_def base_at_def inline_content_def w_base_def w_content_def w_str_def
      w_nat_def w_list_def w_bool_def)

lemma demo_entry_small: "\<not> 262144 < length (he_entry one_line demo_entry)"
  using demo_entry_length by (simp add: one_line_def)

lemma demo_page_small: "\<not> 1048576 < length (page_body one_line [demo_entry])"
  using demo_entry_length by (simp add: page_body_def one_line_def)

definition fresh_state :: "nat \<Rightarrow> build_state" where
  "fresh_state n =
     \<lparr>tl_run_id = ''r'', tl_generation_id = demo_gid, tl_page = [], tl_page_bytes = 2,
      tl_page_count = 0, tl_last_seq = n, tl_message = spool_new, tl_message_seq = None,
      tl_thinking = spool_new, tl_thinking_seq = None, tl_open_tools = [],
      tl_pages = Map.empty, hb_total_entries = 0, hb_total_turns = 0, hb_state_events = [],
      hb_pending_interactions = [], hb_pending_user_inputs = [], hb_seen_message_ids = {},
      hb_seen_tool_ids = {}, hb_subhistories = [], hb_dropped_subhistories = {}\<rparr>"

definition demo_state :: build_state where
  "demo_state =
     (fresh_state 1)\<lparr>tl_page := [demo_entry], tl_page_bytes := 2 + (length (he_entry one_line demo_entry) + 1),
       hb_total_entries := 1, hb_total_turns := 1\<rparr>"

lemma show_nat_1: "show_nat (Suc 0) = ''1''"
  by code_simp

lemma demo_text: "content_from_text e a b c ''hi'' fs = Inr (inline_content ''hi'', fs)"
  by (simp add: content_from_text_def CONTENT_INLINE_LIMIT_def)

lemma demo_handle: "handle_event one_line demo_user (fresh_state 0) fs = Inr (demo_state, fs)"
  using demo_entry_small
  by (simp add: handle_event_def demo_user_def get_str_def get_u64_def get_bool_def get_array_def jnat_def
      handle_bus_event_def closes_previous_turn_def fresh_state_def normalized_parent_tool_use_id_def
      opt_filter_def settle_interrupted_work_def settle_streams_def settle_tools_def
      record_identity_def event_owner_def main_event_def on_main_user_message_def demo_text push_def
      append_entry_def page_full_for_def ENTRY_BYTE_LIMIT_def or_else_def demo_entry_fold show_nat_1
      demo_entry_last demo_state_def Let_def del: show_nat.simps)

lemma demo_read:
  "read_bounded_line one_line [demo_log] [] None 0 fs = Inr (Inline_Line ''a'' 2, [], fs)"
  "read_bounded_line one_line [] [] None 0 fs = Inr (Eof_Line, [], fs)"
  by (simp_all add: demo_log_def first_line_def after_line_def take_data_def PARSE_LINE_LIMIT_def
      line_at_newline_def line_at_eof_def strip_cr_def Let_def)

lemma demo_project: "project_lines one_line [demo_log] n (fresh_state 0) fs = Inr (demo_state, fs)"
proof -
  have "utf8_valid ''a''" "trim ''a'' = ''a''" by code_simp+
  moreover have "jc_parse (he_codec one_line) ''a'' = Some demo_user" by (simp add: one_line_def)
  ultimately show ?thesis
    by (simp add: project_lines.simps demo_read project_line_def demo_handle del: read_bounded_line.simps)
qed

definition demo_finished :: build_state where
  "demo_finished =
     demo_state\<lparr>tl_page := [], tl_page_bytes := 2, tl_page_count := 1,
       tl_pages := [1 \<mapsto> page_body one_line [demo_entry]]\<rparr>"

definition demo_manifest :: history_manifest where
  "demo_manifest =
     \<lparr>hm_format_version = FORMAT_VERSION, hm_builder_version = BUILDER_VERSION,
      hm_generation_id = demo_gid, hm_source_size = 2, hm_source_mtime_ns = 0,
      hm_source_prefix_hash = he_sha one_line demo_log, hm_last_seq = 1, hm_page_count = 1,
      hm_total_entries = 1, hm_total_turns = 1, hm_complete = True\<rparr>"

definition demo_summary :: history_summary where
  "demo_summary =
     \<lparr>hs_run_id = ''r'', hs_generation_id = demo_gid, hs_page_count = 1, hs_total_entries = 1,
      hs_total_turns = 1, hs_last_seq = 1, hs_source_size = 2, hs_source_mtime_ns = 0,
      hs_latest_cursor = Some (cursor demo_gid 1), hs_state_events = []\<rparr>"

definition demo_fs :: hist_fs where
  "demo_fs = \<lparr>fs_ops = 6, fs_blobs = Map.empty\<rparr>"

lemma demo_finish:
  "finish one_line (\<lambda>_. 10) 2 0 (he_sha one_line demo_log) demo_state \<lparr>fs_ops = 4, fs_blobs = Map.empty\<rparr>
     = Inr ((demo_manifest, demo_summary, demo_finished), demo_fs)"
  using demo_page_small
  by (simp add: finish_def settle_interrupted_work_def settle_streams_def settle_tools_def demo_state_def
      fresh_state_def demo_finished_def demo_manifest_def demo_summary_def demo_fs_def one_line_op
      flush_entries_page_def PAGE_BYTE_LIMIT_def CONTENT_CHUNK_LIMIT_def summary_events_def Let_def)

lemma demo_new:
  "build_new one_line ''r'' demo_gid fs = Inr (fresh_state 0, fs\<lparr>fs_ops := fs_ops fs + 3\<rparr>)"
  by (simp add: build_new_def one_line_op fresh_state_def)

lemma demo_build:
  "build_projection one_line (\<lambda>s. [s]) (\<lambda>_. 10) True ''r'' demo_gid demo_log 0
     \<lparr>fs_ops = 0, fs_blobs = Map.empty\<rparr> = Inr ((demo_manifest, demo_summary, demo_finished), demo_fs)"
proof -
  have "length demo_log = 2" "take 2 demo_log = demo_log" by (simp_all add: demo_log_def)
  then show ?thesis
    using demo_finish by (simp add: build_projection_def demo_new one_line_op demo_project)
qed

end
