(* ===== verification/History_Cursors.thy ===== *)
theory History_Cursors
  imports History_Demo
begin

text \<open>
  Cursors and generations of the history store (\<open>storage/history.rs\<close>): a cursor is parsed back as
  what it was made from, clean-up and retention leave the content of a generation alone, and a page
  of a readable generation is read as what it holds.
\<close>

section \<open>Numbers and cursors\<close>

lemma parse_shown:
  assumes "n < 2 ^ 64"
  shows "parse_u64_str (show_nat n) = Some n"
proof -
  have "hd (show_nat n) \<noteq> CHR ''+''"
    using show_nat_digits [of n] by (cases "show_nat n") (auto simp: is_ascii_digit_def byte_def)
  then show ?thesis
    using show_nat_digits [of n] assms
    by (simp add: parse_u64_str_def parse_u64_def digits_value_def Let_def)
qed

lemma parse_shown_only: "parse_u64_str (show_nat n) = Some k \<Longrightarrow> k = n"
proof -
  assume p: "parse_u64_str (show_nat n) = Some k"
  have "hd (show_nat n) \<noteq> CHR ''+''"
    using show_nat_digits [of n] by (cases "show_nat n") (auto simp: is_ascii_digit_def byte_def)
  with p show "k = n"
    using show_nat_digits [of n]
    by (auto simp: parse_u64_str_def parse_u64_def digits_value_def Let_def split: if_splits)
qed

lemma find_colon: "CHR '':'' \<notin> set g \<Longrightarrow> str_find (g @ CHR '':'' # s) '':'' = Some (length g)"
  by (induction g) (auto simp: starts_with_def)

lemma hex_no_colon: "is_hex_id g n \<Longrightarrow> CHR '':'' \<notin> set g \<and> CHR ''.'' \<notin> set g"
proof -
  assume "is_hex_id g n"
  then have *: "is_ascii_hexdigit c" if "c \<in> set g" for c
    using that by (simp add: is_hex_id_def list_all_iff)
  have "\<not> is_ascii_hexdigit CHR '':''" "\<not> is_ascii_hexdigit CHR ''.''" by code_simp+
  with * show ?thesis by blast
qed

lemma parse_cursor_cursor:
  assumes "is_hex_id g 32" and "0 < n" and "n < 2 ^ 64"
  shows "parse_cursor (cursor g n) = Inr (g, n)"
  using assms hex_no_colon [OF assms(1)]
  by (simp add: parse_cursor_def cursor_def find_colon parse_shown)

lemma hex_not_build: "is_hex_id g n \<Longrightarrow> strip_suffix g ''.build'' = None"
proof (rule ccontr)
  assume h: "is_hex_id g n" and "strip_suffix g ''.build'' \<noteq> None"
  then obtain k where "drop k g = ''.build''"
    by (auto simp: strip_suffix_def split: if_splits)
  then have "CHR ''.'' \<in> set g" using in_set_dropD [of "CHR ''.''" k g] by simp
  with hex_no_colon [OF h] show False by blast
qed

section \<open>Directories\<close>

lemma map_of_filter_keep: "map_of xs k = Some v \<Longrightarrow> P (k, v) \<Longrightarrow> map_of (filter P xs) k = Some v"
  by (induction xs) (auto split: if_splits)

lemma map_of_filter_Some: "distinct (map fst xs) \<Longrightarrow> map_of (filter P xs) k = Some v \<Longrightarrow> map_of xs k = Some v"
  by (induction xs) (auto split: if_splits dest: map_of_SomeD simp: rev_image_eqI)

text \<open>A generation this process may still be asked for.\<close>

definition kept :: "string \<Rightarrow> history_dir \<Rightarrow> string \<Rightarrow> generation \<Rightarrow> bool" where
  "kept pid d g gn =
     (is_hex_id g 32 \<and> map_of (hd_generations d) g = Some gn \<and>
      (hd_current d = Some g \<or> gn_retain gn = Some pid))"

lemma cleanup_kept: "kept pid d g gn \<Longrightarrow> kept pid (cleanup_history pid d) g gn"
  by (auto simp: kept_def cleanup_history_def should_remove_generation_def hex_not_build
      intro!: map_of_filter_keep)

lemma retain_ok:
  assumes "map_of (hd_generations d) g = Some gn"
  shows "retain_generation pid g d =
    Inr (d\<lparr>hd_generations := hm_insert g (gn\<lparr>gn_retain := Some pid\<rparr>) (hd_generations d)\<rparr>)"
  using assms by (simp add: retain_generation_def)

lemma retain_Inr:
  assumes "retain_generation pid g d = Inr d'"
  obtains gn where "map_of (hd_generations d) g = Some gn"
    "d' = d\<lparr>hd_generations := hm_insert g (gn\<lparr>gn_retain := Some pid\<rparr>) (hd_generations d)\<rparr>"
  using assms by (auto simp: retain_generation_def split: option.splits)

section \<open>Reading a page\<close>

definition page_entries_of :: "hist_env \<Rightarrow> generation \<Rightarrow> nat \<Rightarrow> history_entry list" where
  "page_entries_of e gn k = page_entries e (gn_pages gn k)"

text \<open>Every page the manifest counts can be read.\<close>

definition gen_readable :: "hist_env \<Rightarrow> generation \<Rightarrow> history_manifest \<Rightarrow> bool" where
  "gen_readable e gn m =
     (gn_manifest gn = Some m \<and>
      (\<forall>k. 1 \<le> k \<and> k \<le> hm_page_count m \<longrightarrow>
         (\<exists>body. gn_pages gn k = Some body \<and> length body \<le> PAGE_BYTE_LIMIT \<and>
                 he_entries e body = Inr (page_entries_of e gn k))))"

lemma gen_readable_retained [simp]: "gen_readable e (gn\<lparr>gn_retain := r\<rparr>) m = gen_readable e gn m"
  by (simp add: gen_readable_def page_entries_of_def)

definition page_at :: "hist_env \<Rightarrow> string \<Rightarrow> generation \<Rightarrow> nat \<Rightarrow> history_page" where
  "page_at e g gn k =
     (let xs = page_entries_of e gn k in
      \<lparr>hp_generation_id = g, hp_entries = xs, hp_page_cursor = cursor g k,
       hp_previous_cursor = (if 1 < k then Some (cursor g k) else None), hp_has_more = (1 < k),
       hp_first_seq = (if xs = [] then 0 else entry_first_seq (hd xs)),
       hp_last_seq = (if xs = [] then 0 else entry_last_seq (last xs))\<rparr>)"

lemma page_at_retained [simp]: "page_at e g (gn\<lparr>gn_retain := r\<rparr>) k = page_at e g gn k"
  by (simp add: page_at_def page_entries_of_def)

definition retained_dir :: "string \<Rightarrow> string \<Rightarrow> generation \<Rightarrow> history_dir \<Rightarrow> history_dir" where
  "retained_dir pid g gn d =
     d\<lparr>hd_generations := hm_insert g (gn\<lparr>gn_retain := Some pid\<rparr>) (hd_generations d)\<rparr>"

lemma retained_dir_sel [simp]:
  "map_of (hd_generations (retained_dir pid g gn d)) h =
     (if h = g then Some (gn\<lparr>gn_retain := Some pid\<rparr>) else map_of (hd_generations d) h)"
  "hd_current (retained_dir pid g gn d) = hd_current d"
  by (simp_all add: retained_dir_def)

lemma get_page_at:
  assumes "is_hex_id g 32" and "map_of (hd_generations d) g = Some gn" and "gen_readable e gn m"
    and "page_wanted d (Some g) c en = Inr (g, k)" and "1 \<le> k" and "k \<le> hm_page_count m"
  shows "get_page e pid (Some g) c en d = (Inr (page_at e g gn k), retained_dir pid g gn d)"
proof -
  from assms(3,5,6) obtain body where
    b: "gn_pages gn k = Some body" "length body \<le> PAGE_BYTE_LIMIT" "he_entries e body = Inr (page_entries_of e gn k)"
    by (auto simp: gen_readable_def)
  have "load_manifest d g = Inr m"
    using assms(1-3) by (simp add: load_manifest_def gen_readable_def)
  with assms b show ?thesis
    by (simp add: get_page_def retain_ok page_file_def page_at_def retained_dir_def Let_def)
qed

lemma wanted_latest:
  assumes "is_hex_id g 32" and "map_of (hd_generations d) g = Some gn" and "gen_readable e gn m"
  shows "page_wanted d (Some g) None en = Inr (g, hm_page_count m)"
  using assms by (simp add: page_wanted_def load_manifest_def gen_readable_def)

lemma wanted_before:
  assumes "is_hex_id g 32" and "0 < k" and "k < 2 ^ 64"
  shows "page_wanted d (Some g) (Some (cursor g k)) en = Inr (g, k - 1)"
  using assms by (simp add: page_wanted_def parse_cursor_cursor)

section \<open>A small world\<close>

definition demo_build_world :: build_world where
  "demo_build_world =
     \<lparr>bw_bytes = demo_log, bw_mtime_ns = 0, bw_chunks = (\<lambda>s. [s]), bw_summary_size = (\<lambda>_. 10),
      bw_status = Some Completed, bw_fresh_id = demo_gid, bw_snapshot = None,
      bw_write_manifest = None, bw_rename = None, bw_pointer_tmp = None, bw_replace_pointer = None\<rparr>"

definition empty_history :: history_dir where
  "empty_history = \<lparr>hd_current = None, hd_generations = []\<rparr>"

lemma demo_gid_hex: "is_hex_id demo_gid 32"
  by code_simp

lemma padded_hex: "is_hex_id (take n (filter is_ascii_hexdigit t @ replicate n CHR ''0'')) n"
proof -
  let ?s = "filter is_ascii_hexdigit t @ replicate n CHR ''0''"
  have "is_ascii_hexdigit CHR ''0''" by code_simp
  then have "list_all is_ascii_hexdigit ?s" by (auto simp: list_all_iff)
  then have "list_all is_ascii_hexdigit (take n ?s)"
    by (metis append_take_drop_id list_all_append)
  then show ?thesis by (simp add: is_hex_id_def)
qed

lemma one_line_sha: "is_hex_id (he_sha one_line t) 64"
  using padded_hex [of 64 t] by (simp only: one_line_def demo_env_sel demo_sha_def)

lemma demo_built:
  "build_generation one_line ''p'' demo_build_world ''r'' empty_history =
     (Inr demo_gid,
      cleanup_history ''p'' \<lparr>hd_current = Some demo_gid, hd_generations =
        [(demo_gid, (built_generation one_line (\<lambda>_. 10) demo_manifest demo_summary demo_finished demo_fs)
            \<lparr>gn_retain := Some ''p''\<rparr>)]\<rparr>)"
  using demo_build
  by (simp add: build_generation_def demo_build_world_def empty_history_def run_is_terminal_def hm_insert_def
      retain_generation_def Let_def)

lemma demo_ensure:
  obtains d where "ensure_history_with_refresh one_line ''p'' demo_build_world None None False ''r'' empty_history
      = (Inr demo_gid, d)" "hd_current d = Some demo_gid" "fst ` set (hd_generations d) = {demo_gid}"
proof -
  have "strip_suffix demo_gid ''.build'' = None" using demo_gid_hex by (rule hex_not_build)
  with demo_built show thesis
    by (intro that) (auto simp: ensure_history_with_refresh_def cleanup_history_def empty_history_def
        should_remove_generation_def Let_def)
qed

end
