(* ===== verification/History_Pages_Props.thy ===== *)
theory History_Pages_Props
  imports History_Demo
begin

text \<open>
  The properties of the pages a history build writes (\<open>storage/history.rs\<close>): what every line of the
  log keeps, and what a finished build leaves on disk.
\<close>

lemma build_new_ok: "build_new e run gen fs = Inr (b, fs') \<Longrightarrow> build_ok e [] b"
  by (auto simp: build_new_def and_then_Inr_iff build_ok_def timeline_ok_def pages_ok_def
      timeline_ids_def ids_of_def)

lemma build_okD:
  assumes "build_ok e ids b" and "reads_back e"
  shows "timeline_ok e b" and "hb_total_entries b = length (timeline_ids e b)"
    and "prefix ids (timeline_ids e b)" and "x \<in> set (hb_subhistories b) \<Longrightarrow> timeline_ok e (snd x)"
  using assms by (auto simp: build_ok_def)

lemma finish_parts:
  assumes "finish e sz n mt h b fs = Inr ((m, s, b'), fs')"
  obtains b1 fs1 ss fs2 fs3 where
    "settle_interrupted_work e (tl_last_seq b) ''Session ended before tool result'' b fs = Inr (b1, fs1)"
    "finish_subs e (hb_subhistories b1) fs1 = Inr (ss, fs2)"
    "flush_entries_page e (b1\<lparr>hb_subhistories := ss\<rparr>) fs2 = Inr (b', fs3)"
    "hm_page_count m = tl_page_count b'" "hm_total_entries m = hb_total_entries b'"
    "hs_page_count s = tl_page_count b'" "hs_total_entries s = hb_total_entries b'"
    "hm_generation_id m = tl_generation_id b'" "hs_generation_id s = tl_generation_id b'"
    "sz s \<le> CONTENT_CHUNK_LIMIT" "hm_complete m" "hm_source_size m = n" "hm_source_prefix_hash m = h"
    "hm_source_mtime_ns m = mt"
    "hm_format_version m = FORMAT_VERSION" "hm_builder_version m = BUILDER_VERSION"
  using assms by (auto simp: finish_def Let_def and_then_Inr_iff split: if_splits)

lemma build_projection_parts:
  assumes "build_projection e chunks sz terminal run gen bytes mt fs = Inr ((m, s, b), fs')"
  obtains b0 fs1 size fs2 fs3 b1 fs4 where
    "build_new e run gen fs = Inr (b0, fs1)"
    "(if terminal then Inr (length bytes, fs1) else safe_projection_size e (chunks bytes) fs1) = Inr (size, fs2)"
    "project_lines e (chunks (take size bytes)) 1 b0 fs3 = Inr (b1, fs4)"
    "finish e sz size mt (he_sha e (take size bytes)) b1 fs4 = Inr ((m, s, b), fs')"
  using assms by (auto simp: build_projection_def and_then_Inr_iff)

text \<open>A finished sub-agent has no page left to write.\<close>

lemma finish_subs_flushed:
  "finish_subs e ss fs = Inr (ss', fs') \<Longrightarrow> x \<in> set ss' \<Longrightarrow> tl_page (snd x) = []"
proof (induction ss arbitrary: fs ss' fs')
  case (Cons y ss)
  obtain p s where y: "y = (p, s)" by (cases y)
  with Cons.prems(1) obtain s1 fs1 ss1 where
    "sub_finish e s fs = Inr (s1, fs1)" "finish_subs e ss fs1 = Inr (ss1, fs')" "ss' = (p, s1) # ss1"
    by (auto simp: and_then_Inr_iff)
  moreover from this(1) have "tl_page s1 = []"
    by (auto simp: sub_finish_def and_then_Inr_iff dest: flush_empties)
  ultimately show ?case using Cons.IH Cons.prems(2) by auto
qed simp

lemma finished_build_ok:
  assumes "build_projection e chunks sz terminal run gen bytes mt fs = Inr ((m, s, b), fs')"
  shows "build_ok e [] b" and "tl_page b = []" and "hm_page_count m = tl_page_count b"
    and "hm_total_entries m = hb_total_entries b"
    and "x \<in> set (hb_subhistories b) \<Longrightarrow> tl_page (snd x) = []"
proof -
  from assms obtain b0 fs1 size fs2 fs3 b1 fs4 where
    new: "build_new e run gen fs = Inr (b0, fs1)" and
    lines: "project_lines e (chunks (take size bytes)) 1 b0 fs3 = Inr (b1, fs4)" and
    fin: "finish e sz size mt (he_sha e (take size bytes)) b1 fs4 = Inr ((m, s, b), fs')"
    by (rule build_projection_parts)
  from built.project_lines_keeps [OF build_new_ok [OF new] lines]
  show "build_ok e [] b" by (rule built.finish_keeps [OF _ fin])
  from fin obtain b2 ss fs5 fs6 fs7 where
    p: "finish_subs e (hb_subhistories b2) fs5 = Inr (ss, fs6)"
       "flush_entries_page e (b2\<lparr>hb_subhistories := ss\<rparr>) fs6 = Inr (b, fs7)"
       "hm_page_count m = tl_page_count b" "hm_total_entries m = hb_total_entries b"
    by (rule finish_parts)
  from p(2) show "tl_page b = []" by (rule flush_empties)
  from p(3,4) show "hm_page_count m = tl_page_count b" "hm_total_entries m = hb_total_entries b" .
  from flush_frame [OF p(2)] have "hb_subhistories b = ss" by simp
  with finish_subs_flushed [OF p(1)] show "x \<in> set (hb_subhistories b) \<Longrightarrow> tl_page (snd x) = []" by blast
qed

text \<open>The number of entries of a timeline whose pages are all written.\<close>

lemma ids_of_length:
  "length (ids_of e pages n []) = (\<Sum>k = 1..n. length (page_entries e (pages k)))"
proof (induction n)
  case 0
  then show ?case by (simp add: ids_of_def)
next
  case (Suc n)
  have "[1..<Suc n + 1] = [1..<n + 1] @ [n + 1]" by simp
  then show ?case using Suc unfolding ids_of_def by (simp only: map_append concat_append) simp
qed

section \<open>The properties\<close>

text \<open>C17: What a finished history build leaves on disk is well formed. The pages of the main
conversation are numbered from 1 to the manifest's page count without a gap and there is no other;
each holds between 1 and 100 entries, is at most 1 MiB, and reads back; together they hold exactly
as many entries as the manifest says. The pages of every sub-agent are well formed in the same way,
and nothing is left over in memory.\<close>

theorem finished_pages:
  assumes "reads_back e"
    and "build_projection e chunks sz terminal run gen bytes mt fs = Inr ((m, s, b), fs')"
  shows "(\<forall>k. if 1 \<le> k \<and> k \<le> hm_page_count m then written_page_ok e (tl_pages b k) else tl_pages b k = None) \<and>
    hm_total_entries m = (\<Sum>k = 1..hm_page_count m. length (page_entries e (tl_pages b k))) \<and>
    tl_page b = [] \<and>
    (\<forall>(p, sub) \<in> set (hb_subhistories b). tl_page sub = [] \<and>
       (\<forall>k. if 1 \<le> k \<and> k \<le> tl_page_count sub then written_page_ok e (tl_pages sub k) else tl_pages sub k = None))"
proof (intro conjI)
  note f = finished_build_ok [OF assms(2)] and ok = build_okD [OF finished_build_ok(1) [OF assms(2)] assms(1)]
  show "\<forall>k. if 1 \<le> k \<and> k \<le> hm_page_count m then written_page_ok e (tl_pages b k) else tl_pages b k = None"
    using ok(1) f(3) by (simp add: timeline_ok_def pages_ok_def)
  show "hm_total_entries m = (\<Sum>k = 1..hm_page_count m. length (page_entries e (tl_pages b k)))"
    using ok(2) f(2-4) by (simp add: timeline_ids_def ids_of_length)
  show "tl_page b = []" by (fact f(2))
  show "\<forall>(p, sub) \<in> set (hb_subhistories b). tl_page sub = [] \<and>
           (\<forall>k. if 1 \<le> k \<and> k \<le> tl_page_count sub then written_page_ok e (tl_pages sub k) else tl_pages sub k = None)"
    using f(5) ok(4) by (auto simp: timeline_ok_def pages_ok_def)
qed

theorem finished_pages_witness:
  "written_page_ok one_line (tl_pages demo_finished 1) \<and> tl_pages demo_finished 2 = None \<and>
   hm_page_count demo_manifest = 1 \<and> hm_total_entries demo_manifest = 1 \<and> tl_page demo_finished = []"
proof -
  note c = finished_pages [OF one_line_reads_back demo_build]
  have n: "hm_page_count demo_manifest = 1" "hm_total_entries demo_manifest = 1"
    by (simp_all add: demo_manifest_def)
  from c n have "written_page_ok one_line (tl_pages demo_finished 1)" "tl_pages demo_finished 2 = None"
    "tl_page demo_finished = []"
    by (metis le_refl, metis Suc_1 Suc_n_not_le_n One_nat_def, blast)
  with n show ?thesis by blast
qed

text \<open>C14: The history only grows. Projecting a line of the log keeps the pages well formed, keeps the
count of entries equal to the entries there are, and leaves every entry written before where it was,
in the same order and under the same identifier; a line can only add entries at the end.\<close>

theorem lines_only_append:
  assumes "reads_back e" and "build_ok e [] b" and "project_line e n l b fs = Inr (b', fs')"
  shows "build_ok e [] b' \<and> prefix (timeline_ids e b) (timeline_ids e b')"
proof -
  from assms(2) have "build_ok e (timeline_ids e b) b" by (simp add: build_ok_def)
  from built.project_line_keeps [OF this assms(3)] assms(1) show ?thesis
    by (simp add: build_ok_def)
qed

theorem lines_only_append_witness:
  "build_ok one_line [] demo_state \<and> timeline_ids one_line demo_state = [''user-1''] \<and>
   prefix (timeline_ids one_line (fresh_state 0)) (timeline_ids one_line demo_state)"
proof -
  let ?fs = "\<lparr>fs_ops = 0, fs_blobs = Map.empty\<rparr>"
  have "utf8_valid ''a''" "trim ''a'' = ''a''" by code_simp+
  then have "project_line one_line 1 (Inline_Line ''a'' 2) (fresh_state 0) ?fs = Inr (demo_state, ?fs)"
    using demo_handle by (simp add: project_line_def one_line_def)
  note c = lines_only_append [OF one_line_reads_back build_new_ok [OF demo_new] this]
  have "timeline_ids one_line demo_state = [''user-1'']"
    by (simp add: timeline_ids_def ids_of_def demo_state_def fresh_state_def demo_entry_def)
  with c show ?thesis by blast
qed

end
