(* ===== verification/History_Store_Props.thy ===== *)
theory History_Store_Props
  imports History_Cursors History_Pages_Props
begin

text \<open>
  The properties of the history store (\<open>storage/history.rs\<close>): a reader that follows the cursors of a
  published generation sees the whole projection, and a generation that was handed out stays.
\<close>

section \<open>Scrolling back\<close>

text \<open>
  A client that asks for the latest page of a generation and follows the cursor of each page to the
  one before it. The fuel is the number of pages it is willing to ask for.
\<close>

fun scroll_back ::
  "hist_env \<Rightarrow> string \<Rightarrow> string \<Rightarrow> string option \<Rightarrow> nat \<Rightarrow> history_dir \<Rightarrow>
     (string + history_page list) \<times> history_dir" where
  "scroll_back e pid g c 0 d = (Inl ''out of fuel'', d)"
| "scroll_back e pid g c (Suc n) d =
     (case get_page e pid (Some g) c [] d of
        (Inl err, d) \<Rightarrow> (Inl err, d)
      | (Inr p, d) \<Rightarrow>
          (case hp_previous_cursor p of
             None \<Rightarrow> (Inr [p], d)
           | Some c' \<Rightarrow>
               (case scroll_back e pid g (Some c') n d of
                  (Inl err, d) \<Rightarrow> (Inl err, d)
                | (Inr ps, d) \<Rightarrow> (Inr (p # ps), d))))"

lemma scroll_from:
  assumes "is_hex_id g 32" and "gen_readable e gn m" and "map_of (hd_generations d) g = Some gn"
    and "page_wanted d (Some g) c [] = Inr (g, k)" and "1 \<le> k" and "k \<le> hm_page_count m"
    and "hm_page_count m < 2 ^ 64"
  shows "fst (scroll_back e pid g c k d) = Inr (map (page_at e g gn) (rev [1..<k + 1]))"
  using assms
proof (induction k arbitrary: c d gn)
  case (Suc k)
  note page = get_page_at [OF Suc.prems(1,3,2,4,5,6), of pid]
  show ?case
  proof (cases "k = 0")
    case True
    with page show ?thesis by (simp add: page_at_def Let_def)
  next
    case False
    let ?gn = "gn\<lparr>gn_retain := Some pid\<rparr>" and ?d = "retained_dir pid g gn d"
    have prev: "hp_previous_cursor (page_at e g gn (Suc k)) = Some (cursor g (Suc k))"
      using False by (simp add: page_at_def Let_def)
    have "page_wanted ?d (Some g) (Some (cursor g (Suc k))) [] = Inr (g, k)"
      using wanted_before [OF Suc.prems(1), of "Suc k"] Suc.prems(6,7) by simp
    with Suc.IH [of ?gn ?d "Some (cursor g (Suc k))"] Suc.prems False
    have "fst (scroll_back e pid g (Some (cursor g (Suc k))) k ?d) =
        Inr (map (page_at e g ?gn) (rev [1..<k + 1]))"
      by simp
    then obtain d' where "scroll_back e pid g (Some (cursor g (Suc k))) k ?d =
        (Inr (map (page_at e g ?gn) (rev [1..<k + 1])), d')"
      by (metis prod.collapse)
    moreover have "page_at e g ?gn = page_at e g gn" by (rule ext) simp
    ultimately show ?thesis using page prev False by simp
  qed
qed simp

section \<open>A published build\<close>

lemma build_generation_parts:
  assumes "build_generation e pid w run d = (Inr g, d')" and hex: "is_hex_id (bw_fresh_id w) 32"
  obtains m s b fs gn where
    "g = bw_fresh_id w"
    "build_projection e (bw_chunks w) (bw_summary_size w) (run_is_terminal (bw_status w)) run g
       (bw_bytes w) (bw_mtime_ns w) \<lparr>fs_ops = 0, fs_blobs = Map.empty\<rparr> = Inr ((m, s, b), fs)"
    "gn = (built_generation e (bw_summary_size w) m s b fs)\<lparr>gn_retain := Some pid\<rparr>"
    "hd_current d' = Some g"
    "map_of (hd_generations d') g = Some gn"
proof -
  let ?g = "bw_fresh_id w"
  from assms(1) obtain m s b fs where
    bp: "build_projection e (bw_chunks w) (bw_summary_size w) (run_is_terminal (bw_status w)) run ?g
       (bw_bytes w) (bw_mtime_ns w) \<lparr>fs_ops = 0, fs_blobs = Map.empty\<rparr> = Inr ((m, s, b), fs)"
    by (cases "build_projection e (bw_chunks w) (bw_summary_size w) (run_is_terminal (bw_status w)) run ?g
         (bw_bytes w) (bw_mtime_ns w) \<lparr>fs_ops = 0, fs_blobs = Map.empty\<rparr>")
      (auto simp: build_generation_def Let_def split: option.splits)
  let ?gn = "built_generation e (bw_summary_size w) m s b fs"
  let ?pointed = "d\<lparr>hd_generations := hm_insert ?g ?gn (hd_generations d), hd_current := Some ?g\<rparr>"
  let ?kept = "case hd_current d of None \<Rightarrow> Inr ?pointed | Some old \<Rightarrow> retain_generation pid old ?pointed"
  from assms(1) bp obtain d2 where
    d2: "and_then ?kept (retain_generation pid ?g) = Inr d2" and
    d': "d' = cleanup_history pid d2" and g: "g = ?g"
    unfolding build_generation_def Let_def bp
    by (simp split: option.splits sum.splits prod.splits)
  from d2 obtain d1 where k1: "?kept = Inr d1" and k2: "retain_generation pid ?g d1 = Inr d2"
    by (elim and_then_InrE)
  from k1 have c1: "hd_current d1 = Some ?g"
    by (auto simp: retain_generation_def split: option.splits)
  from k1 obtain gn1 where gn1: "map_of (hd_generations d1) ?g = Some gn1"
    "gn1\<lparr>gn_retain := Some pid\<rparr> = ?gn\<lparr>gn_retain := Some pid\<rparr>"
    by (auto simp: retain_generation_def split: option.splits if_splits)
  with k2 have d2': "map_of (hd_generations d2) ?g = Some (?gn\<lparr>gn_retain := Some pid\<rparr>)" "hd_current d2 = Some ?g"
    using c1 by (auto elim!: retain_Inr)
  have "map_of (hd_generations d') ?g = Some (?gn\<lparr>gn_retain := Some pid\<rparr>)"
    using cleanup_kept [of pid d2 ?g] d2' hex by (simp add: kept_def d')
  moreover have "hd_current d' = Some ?g" using d2'(2) by (simp add: d' cleanup_history_def)
  ultimately show thesis using that [OF g _ refl] bp g by simp
qed

lemma built_readable:
  assumes "reads_back e"
    and bp: "build_projection e chunks sz terminal run g bytes mt fs0 = Inr ((m, s, b), fs)"
  shows "gen_readable e (built_generation e sz2 m s2 b fs2) m"
proof -
  note f = finished_build_ok [OF bp] and ok = build_okD [OF finished_build_ok(1) [OF bp] assms(1)]
  have "\<exists>body. tl_pages b k = Some body \<and> length body \<le> PAGE_BYTE_LIMIT \<and>
          he_entries e body = Inr (page_entries e (tl_pages b k))" if "1 \<le> k" "k \<le> hm_page_count m" for k
  proof -
    have "written_page_ok e (tl_pages b k)"
      using ok(1) that f(3) by (simp add: timeline_ok_def pages_ok_def)
    with assms(1) show ?thesis by (auto simp: written_page_ok_def reads_back_def page_entries_def)
  qed
  then show ?thesis by (simp add: gen_readable_def built_generation_def page_entries_of_def)
qed

lemma build_counts:
  assumes "build_projection e chunks sz terminal run g bytes mt fs0 = Inr ((m, s, b), fs)"
  shows "hs_page_count s = tl_page_count b \<and> hs_total_entries s = hb_total_entries b \<and>
         sz s \<le> CONTENT_CHUNK_LIMIT"
proof -
  from assms obtain n h b1 fs1 where "finish e sz n mt h b1 fs1 = Inr ((m, s, b), fs)"
    by (auto elim: build_projection_parts)
  then show ?thesis by (rule finish_parts) simp
qed

lemma built_summary_reads:
  assumes "reads_back e"
    and bp: "build_projection e chunks sz terminal run g bytes mt fs0 = Inr ((m, s, b), fs)"
    and at: "map_of (hd_generations d) g = Some ((built_generation e sz m s b fs2)\<lparr>gn_retain := r\<rparr>)"
  shows "read_summary e g d = Inr s"
proof (cases "hm_page_count m = 0")
  case True
  with build_counts [OF bp] finished_build_ok(3) [OF bp] at show ?thesis
    by (simp add: read_summary_def built_generation_def)
next
  case False
  let ?gn = "built_generation e sz m s b fs2"
  from built_readable [OF assms(1,2)] False
  obtain body where "gn_pages ?gn (hm_page_count m) = Some body" "length body \<le> PAGE_BYTE_LIMIT"
    "he_entries e body = Inr (page_entries_of e ?gn (hm_page_count m))"
    unfolding gen_readable_def by (metis One_nat_def Suc_leI le_refl neq0_conv)
  with False build_counts [OF bp] finished_build_ok(3) [OF bp] at show ?thesis
    by (simp add: read_summary_def built_generation_def page_file_def)
qed

lemma length_concat_rev: "length (concat (map f (rev xs))) = length (concat (map f xs))"
  by (induction xs) auto

lemma concat_ids:
  "concat (map (\<lambda>k. map entry_id (page_entries e (pages k))) [1..<n + 1]) = ids_of e pages n []"
  by (simp add: ids_of_def)

text \<open>C13: A published history is read back whole. After a successful build its summary can be read,
and a client that asks for the latest page and follows the cursor of each page to the one before
gets, within as many requests as there are pages, every page exactly once, from the last to the
first; put in order they hold exactly the entries of the projection, under the same identifiers, and
as many as the summary and the manifest say.\<close>

theorem history_read_back:
  assumes "reads_back e" and "is_hex_id (bw_fresh_id w) 32"
    and "build_generation e pid w run d = (Inr g, d')"
  shows "\<exists>m s b fs.
    build_projection e (bw_chunks w) (bw_summary_size w) (run_is_terminal (bw_status w)) run g
      (bw_bytes w) (bw_mtime_ns w) \<lparr>fs_ops = 0, fs_blobs = Map.empty\<rparr> = Inr ((m, s, b), fs) \<and>
    read_summary e g d' = Inr s \<and> load_manifest d' g = Inr m \<and>
    hs_page_count s = hm_page_count m \<and> hs_total_entries s = hm_total_entries m \<and>
    (0 < hm_page_count m \<and> hm_page_count m < 2 ^ 64 \<longrightarrow>
      (\<exists>ps. fst (scroll_back e pid g None (hm_page_count m) d') = Inr ps \<and>
        map hp_page_cursor ps = map (cursor g) (rev [1..<hm_page_count m + 1]) \<and>
        map entry_id (concat (map hp_entries (rev ps))) = timeline_ids e b \<and>
        length (concat (map hp_entries ps)) = hm_total_entries m))"
proof -
  obtain m s b fs gn where g: "g = bw_fresh_id w" and
    bp: "build_projection e (bw_chunks w) (bw_summary_size w) (run_is_terminal (bw_status w)) run g
      (bw_bytes w) (bw_mtime_ns w) \<lparr>fs_ops = 0, fs_blobs = Map.empty\<rparr> = Inr ((m, s, b), fs)" and
    gn: "gn = (built_generation e (bw_summary_size w) m s b fs)\<lparr>gn_retain := Some pid\<rparr>" and
    at: "map_of (hd_generations d') g = Some gn"
    by (rule build_generation_parts [OF assms(3,2)])
  have hex: "is_hex_id g 32" using assms(2) g by simp
  note f = finished_build_ok [OF bp] and ok = build_okD [OF finished_build_ok(1) [OF bp] assms(1)]
  have r: "gen_readable e gn m" using built_readable [OF assms(1) bp] gn by simp
  note counts = build_counts [OF bp]
  have lm: "load_manifest d' g = Inr m" using at hex r by (simp add: load_manifest_def gen_readable_def)
  have rs: "read_summary e g d' = Inr s"
    using built_summary_reads [OF assms(1) bp] at gn by blast
  have walk: "\<exists>ps. fst (scroll_back e pid g None (hm_page_count m) d') = Inr ps \<and>
        map hp_page_cursor ps = map (cursor g) (rev [1..<hm_page_count m + 1]) \<and>
        map entry_id (concat (map hp_entries (rev ps))) = timeline_ids e b \<and>
        length (concat (map hp_entries ps)) = hm_total_entries m"
    if pos: "0 < hm_page_count m" "hm_page_count m < 2 ^ 64"
  proof (intro exI conjI)
    let ?ps = "map (page_at e g gn) (rev [1..<hm_page_count m + 1])"
    show "fst (scroll_back e pid g None (hm_page_count m) d') = Inr ?ps"
      using scroll_from [OF hex r at wanted_latest [OF hex at r]] pos by simp
    show "map hp_page_cursor ?ps = map (cursor g) (rev [1..<hm_page_count m + 1])"
      by (simp add: page_at_def Let_def)
    have en: "hp_entries (page_at e g gn k) = page_entries e (tl_pages b k)" for k
      by (simp add: page_at_def page_entries_of_def gn built_generation_def Let_def)
    have "rev ?ps = map (page_at e g gn) [1..<hm_page_count m + 1]"
      by (simp only: rev_map rev_rev_ident)
    then have "map entry_id (concat (map hp_entries (rev ?ps))) =
        concat (map (\<lambda>k. map entry_id (page_entries e (tl_pages b k))) [1..<hm_page_count m + 1])"
      by (simp only: map_concat map_map comp_def en)
    then show ids: "map entry_id (concat (map hp_entries (rev ?ps))) = timeline_ids e b"
      using f(2,3) by (simp only: concat_ids) (simp add: timeline_ids_def)
    have "length (concat (map hp_entries ?ps)) = length (concat (map hp_entries (rev ?ps)))"
      by (rule length_concat_rev [symmetric])
    also have "\<dots> = length (timeline_ids e b)" using arg_cong [OF ids, of length] by (simp only: length_map)
    finally show "length (concat (map hp_entries ?ps)) = hm_total_entries m"
      using ok(2) f(4) by simp
  qed
  show ?thesis
    using bp rs lm counts f(3,4) walk
    by (intro exI [of _ m] exI [of _ s] exI [of _ b] exI [of _ fs]) simp
qed

theorem history_read_back_witness:
  "\<exists>d' m s ps. build_generation one_line ''p'' demo_build_world ''r'' empty_history = (Inr demo_gid, d') \<and>
     load_manifest d' demo_gid = Inr m \<and> read_summary one_line demo_gid d' = Inr s \<and>
     fst (scroll_back one_line ''p'' demo_gid None 1 d') = Inr ps \<and>
     map entry_id (concat (map hp_entries (rev ps))) = [''user-1'']"
proof -
  obtain d' where b: "build_generation one_line ''p'' demo_build_world ''r'' empty_history = (Inr demo_gid, d')"
    using demo_built by blast
  have w: "bw_fresh_id demo_build_world = demo_gid" "bw_chunks demo_build_world = (\<lambda>s. [s])"
    "bw_summary_size demo_build_world = (\<lambda>_. 10)" "run_is_terminal (bw_status demo_build_world)"
    "bw_bytes demo_build_world = demo_log" "bw_mtime_ns demo_build_world = 0"
    by (simp_all add: demo_build_world_def run_is_terminal_def)
  have hex: "is_hex_id (bw_fresh_id demo_build_world) 32" using demo_gid_hex w by simp
  from history_read_back [OF one_line_reads_back hex b] demo_build
  obtain ps where "read_summary one_line demo_gid d' = Inr demo_summary"
    "load_manifest d' demo_gid = Inr demo_manifest"
    "fst (scroll_back one_line ''p'' demo_gid None 1 d') = Inr ps"
    "map entry_id (concat (map hp_entries (rev ps))) = timeline_ids one_line demo_finished"
    by (auto simp: w demo_manifest_def)
  moreover have "timeline_ids one_line demo_finished = [''user-1'']"
    using one_line_reads_back
    by (simp add: timeline_ids_def ids_of_def demo_finished_def demo_state_def page_entries_def
        reads_back_def demo_entry_def)
  ultimately show ?thesis using b by metis
qed

end
