(* ===== verification/History_Moves.thy ===== *)
theory History_Moves
  imports History_Store_Props
begin

text \<open>
  What any sequence of requests does to the generations of a run (\<open>storage/history.rs\<close>): a
  generation this process has handed out stays as it is, and the current pointer names a generation
  that can be read, whatever builds succeed or fail in between.
\<close>

text \<open>The identifier of a build is a UUID in simple form that names no directory yet.\<close>

definition fresh_world :: "build_world \<Rightarrow> history_dir \<Rightarrow> bool" where
  "fresh_world w d =
     (is_hex_id (bw_fresh_id w) 32 \<and> map_of (hd_generations d) (bw_fresh_id w) = None)"

inductive history_move :: "hist_env \<Rightarrow> string \<Rightarrow> history_dir \<Rightarrow> history_dir \<Rightarrow> bool" for e pid where
  move_cleanup: "history_move e pid d (cleanup_history pid d)"
| move_build: "fresh_world w d \<Longrightarrow> history_move e pid d (snd (build_generation e pid w run d))"
| move_ensure: "fresh_world w (cleanup_history pid d) \<Longrightarrow>
    history_move e pid d (snd (ensure_history_with_refresh e pid w meta bytes refresh run d))"
| move_page: "history_move e pid d (snd (get_page e pid gen c en d))"
| move_chunk: "history_move e pid d (snd (get_content_chunk b64 pid gen i off n d))"
| move_sub: "history_move e pid d (snd (get_subhistory_page e pid gen i c d))"

text \<open>
  The contract of a property of the directory: it survives clean-up, retention, a new build
  directory, and the publication of a generation that can be read under a fresh name.
\<close>

locale dir_ops =
  fixes e :: hist_env and pid :: string and I :: "history_dir \<Rightarrow> bool"
  assumes cleanup_I: "I d \<Longrightarrow> I (cleanup_history pid d)"
    and retain_I: "I d \<Longrightarrow> retain_generation pid g d = Inr d' \<Longrightarrow> I d'"
    and building_I: "I d \<Longrightarrow> I (d\<lparr>hd_generations := hm_insert (g @ ''.build'') x (hd_generations d)\<rparr>)"
    and renamed_I: "I d \<Longrightarrow> fresh_world w d \<Longrightarrow>
      I (d\<lparr>hd_generations := hm_insert (bw_fresh_id w) gn (hd_generations d)\<rparr>)"
    and pointed_I: "I d \<Longrightarrow> fresh_world w d \<Longrightarrow>
      build_projection e (bw_chunks w) sz tm run (bw_fresh_id w) (bw_bytes w) mt fs0 = Inr ((m, s, b), fs) \<Longrightarrow>
      I (d\<lparr>hd_generations := hm_insert (bw_fresh_id w) (built_generation e sz m s b fs) (hd_generations d),
           hd_current := Some (bw_fresh_id w)\<rparr>)"
begin

lemma build_I:
  assumes "I d" and "fresh_world w d"
  shows "I (snd (build_generation e pid w run d))"
proof -
  let ?g = "bw_fresh_id w"
  let ?building = "d\<lparr>hd_generations := hm_insert (?g @ ''.build'') empty_generation (hd_generations d)\<rparr>"
  have b: "I ?building" using assms(1) by (rule building_I)
  show ?thesis
  proof (cases "build_projection e (bw_chunks w) (bw_summary_size w) (run_is_terminal (bw_status w)) run ?g
       (bw_bytes w) (bw_mtime_ns w) \<lparr>fs_ops = 0, fs_blobs = Map.empty\<rparr>")
    case (Inl err)
    with b show ?thesis by (auto simp: build_generation_def Let_def split: option.splits)
  next
    case (Inr r)
    then obtain m s bs fs where
      bp: "build_projection e (bw_chunks w) (bw_summary_size w) (run_is_terminal (bw_status w)) run ?g
        (bw_bytes w) (bw_mtime_ns w) \<lparr>fs_ops = 0, fs_blobs = Map.empty\<rparr> = Inr ((m, s, bs), fs)"
      by (cases r) auto
    let ?gn = "built_generation e (bw_summary_size w) m s bs fs"
    let ?renamed = "d\<lparr>hd_generations := hm_insert ?g ?gn (hd_generations d)\<rparr>"
    let ?pointed = "d\<lparr>hd_generations := hm_insert ?g ?gn (hd_generations d), hd_current := Some ?g\<rparr>"
    let ?kept = "case hd_current d of None \<Rightarrow> Inr ?pointed | Some old \<Rightarrow> retain_generation pid old ?pointed"
    have r: "I ?renamed" using assms by (rule renamed_I)
    have p: "I ?pointed" using assms bp by (rule pointed_I)
    have k: "I d'" if "?kept = Inr d'" for d'
      using that p by (auto split: option.splits intro: retain_I)
    have fin: "I (case and_then ?kept (retain_generation pid ?g) of
        Inl err \<Rightarrow> ?pointed | Inr d' \<Rightarrow> cleanup_history pid d')"
    proof (cases "and_then ?kept (retain_generation pid ?g)")
      case Inl
      with p show ?thesis by simp
    next
      case (Inr d2)
      then obtain d1 where "?kept = Inr d1" "retain_generation pid ?g d1 = Inr d2" by (rule and_then_InrE)
      with k have "I d2" by (blast intro: retain_I)
      with Inr show ?thesis by (simp add: cleanup_I)
    qed
    have s: "snd (case x of Inl err \<Rightarrow> (Inl err, u) | Inr v \<Rightarrow> (Inr g, f v)) =
        (case x of Inl err \<Rightarrow> u | Inr v \<Rightarrow> f v)" for x :: "string + history_dir" and u f and g :: string
      by (cases x) auto
    from fin b r show ?thesis
      unfolding build_generation_def Let_def bp by (simp add: s split: option.splits)
  qed
qed

lemma ensure_I:
  assumes "I d" and "fresh_world w (cleanup_history pid d)"
  shows "I (snd (ensure_history_with_refresh e pid w meta bytes refresh run d))"
  using cleanup_I [OF assms(1)] build_I [OF cleanup_I [OF assms(1)] assms(2)]
  by (auto simp: ensure_history_with_refresh_def Let_def split: option.splits sum.splits intro: retain_I)

lemma move_I:
  assumes "history_move e pid d d'" and "I d"
  shows "I d'"
  using assms
proof cases
  case (move_page gen c en)
  with assms(2) show ?thesis
    by (auto simp: get_page_def split: sum.splits prod.splits intro: retain_I)
next
  case (move_chunk b64 gen i off n)
  with assms(2) show ?thesis
    by (auto simp: get_content_chunk_def Let_def split: sum.splits intro: retain_I)
next
  case (move_sub gen i c)
  with assms(2) show ?thesis
    by (auto simp: get_subhistory_page_def split: sum.splits intro: retain_I)
qed (auto intro: cleanup_I build_I ensure_I)

end

section \<open>A generation that was handed out\<close>

definition handed_out :: "string \<Rightarrow> string \<Rightarrow> generation \<Rightarrow> history_dir \<Rightarrow> bool" where
  "handed_out pid g gn d =
     (is_hex_id g 32 \<and> map_of (hd_generations d) g = Some gn \<and> gn_retain gn = Some pid)"

interpretation handed: dir_ops e pid "handed_out pid g gn" for e pid g gn
proof unfold_locales
  fix d
  assume "handed_out pid g gn d"
  then show "handed_out pid g gn (cleanup_history pid d)"
    using cleanup_kept [of pid d g gn] by (auto simp: handed_out_def kept_def)
next
  fix d h d'
  assume "handed_out pid g gn d" "retain_generation pid h d = Inr d'"
  then show "handed_out pid g gn d'" by (auto simp: handed_out_def elim!: retain_Inr)
next
  fix d h x
  assume h: "handed_out pid g gn d"
  then have "g \<noteq> h @ ''.build''" using hex_no_colon [of g 32] by (auto simp: handed_out_def)
  with h show "handed_out pid g gn (d\<lparr>hd_generations := hm_insert (h @ ''.build'') x (hd_generations d)\<rparr>)"
    by (simp add: handed_out_def)
qed (auto simp: handed_out_def fresh_world_def)

interpretation handed_runs: invariant_system "handed_out pid g gn" "history_move e pid" "handed_out pid g gn"
    for e pid g gn
  by unfold_locales (auto intro: handed.move_I)

lemma ensured_is_handed_out:
  assumes "ensure_history_with_refresh e pid w meta bytes refresh run d = (Inr g, d')"
    and "fresh_world w (cleanup_history pid d)"
  obtains gn where "handed_out pid g gn d'"
proof -
  let ?d = "cleanup_history pid d"
  let ?hit = "if refresh then None
              else Option.bind (hd_current ?d) (\<lambda>g. case load_manifest ?d g of
                Inl _ \<Rightarrow> None
              | Inr m \<Rightarrow> if manifest_matches e meta bytes (bw_status w) m then Some g else None)"
  show thesis
  proof (cases ?hit)
    case None
    with assms(1) have "build_generation e pid w run ?d = (Inr g, d')"
      by (simp add: ensure_history_with_refresh_def Let_def)
    then obtain m s b fs gn where
      "g = bw_fresh_id w" "gn = (built_generation e (bw_summary_size w) m s b fs)\<lparr>gn_retain := Some pid\<rparr>"
      "map_of (hd_generations d') g = Some gn"
      by (rule build_generation_parts) (use assms(2) in \<open>auto simp: fresh_world_def\<close>)
    with that assms(2) show thesis by (simp add: handed_out_def fresh_world_def)
  next
    case (Some h)
    with assms(1) have r: "retain_generation pid h ?d = Inr d'" "h = g"
      by (auto simp: ensure_history_with_refresh_def Let_def split: sum.splits)
    from Some have "is_hex_id h 32"
      by (auto simp: load_manifest_def bind_eq_Some_conv split: if_splits sum.splits)
    with r that show thesis by (auto simp: handed_out_def elim!: retain_Inr)
  qed
qed

text \<open>What is read of a generation depends on its content alone.\<close>

lemma reads_alike:
  assumes "handed_out pid g gn d" and "handed_out pid g gn d'"
  shows "fst (get_page e pid (Some g) None en d) = fst (get_page e pid (Some g) None en d')"
    and "parse_cursor c = Inr (g, n) \<Longrightarrow>
      fst (get_page e pid (Some g) (Some c) en d) = fst (get_page e pid (Some g) (Some c) en d')"
    and "fst (get_content_chunk b64 pid g i off m d) = fst (get_content_chunk b64 pid g i off m d')"
    and "fst (get_subhistory_page e pid g i sc d) = fst (get_subhistory_page e pid g i sc d')"
    and "read_summary e g d = read_summary e g d'"
proof -
  have at: "map_of (hd_generations d) g = Some gn" "map_of (hd_generations d') g = Some gn"
    using assms by (simp_all add: handed_out_def)
  then have lm: "load_manifest d g = load_manifest d' g" by (simp add: load_manifest_def)
  note ret = retain_ok [OF at(1)] retain_ok [OF at(2)]
  have wanted: "fst (case x of Inl err \<Rightarrow> (Inl err, d) | Inr (h, k) \<Rightarrow> f h k d) =
      fst (case x of Inl err \<Rightarrow> (Inl err, d') | Inr (h, k) \<Rightarrow> f h k d')"
    if "\<And>h k. x = Inr (h, k) \<Longrightarrow> h = g" "\<And>k. fst (f g k d) = fst (f g k d')"
    for x :: "string + string \<times> nat" and f :: "string \<Rightarrow> nat \<Rightarrow> history_dir \<Rightarrow> (string + history_page) \<times> history_dir"
    using that by (cases x) auto
  have page: "fst (get_page e pid (Some g) c en d) = fst (get_page e pid (Some g) c en d')"
    if w: "page_wanted d (Some g) c en = page_wanted d' (Some g) c en"
      and g: "\<And>h k. page_wanted d' (Some g) c en = Inr (h, k) \<Longrightarrow> h = g" for c
    unfolding get_page_def w
    by (rule wanted [OF g], assumption) (simp add: lm ret split: sum.split)
  show "fst (get_page e pid (Some g) None en d) = fst (get_page e pid (Some g) None en d')"
    by (rule page) (auto simp: page_wanted_def lm and_then_Inr_iff)
  show "parse_cursor c = Inr (g, n) \<Longrightarrow>
      fst (get_page e pid (Some g) (Some c) en d) = fst (get_page e pid (Some g) (Some c) en d')"
    by (rule page) (auto simp: page_wanted_def split: if_splits)
  show "fst (get_content_chunk b64 pid g i off m d) = fst (get_content_chunk b64 pid g i off m d')"
    by (auto simp: get_content_chunk_def ret at Let_def)
  show "fst (get_subhistory_page e pid g i sc d) = fst (get_subhistory_page e pid g i sc d')"
    by (simp add: get_subhistory_page_def ret at)
  show "read_summary e g d = read_summary e g d'"
    by (simp add: read_summary_def at)
qed

section \<open>The current pointer\<close>

definition pointer_ok :: "hist_env \<Rightarrow> history_dir \<Rightarrow> bool" where
  "pointer_ok e d =
     (reads_back e \<longrightarrow>
        (\<forall>g. hd_current d = Some g \<longrightarrow>
           (\<exists>gn m s. is_hex_id g 32 \<and> map_of (hd_generations d) g = Some gn \<and>
              gen_readable e gn m \<and> read_summary e g d = Inr s)))"

lemma pointer_okI:
  assumes "pointer_ok e d"
    and "hd_current d' = hd_current d"
    and "\<And>g gn. hd_current d = Some g \<Longrightarrow> is_hex_id g 32 \<Longrightarrow> map_of (hd_generations d) g = Some gn \<Longrightarrow>
      \<exists>r. map_of (hd_generations d') g = Some (gn\<lparr>gn_retain := r\<rparr>)"
  shows "pointer_ok e d'"
  unfolding pointer_ok_def
proof (intro impI allI)
  fix g assume "reads_back e" and "hd_current d' = Some g"
  with assms(1,2) obtain gn m s where
    gn: "is_hex_id g 32" "map_of (hd_generations d) g = Some gn" "gen_readable e gn m" "read_summary e g d = Inr s"
    unfolding pointer_ok_def by metis
  with assms(2,3) \<open>hd_current d' = Some g\<close> obtain r where
    r: "map_of (hd_generations d') g = Some (gn\<lparr>gn_retain := r\<rparr>)" by metis
  have "read_summary e g d' = Inr s"
    using gn(2,4) r by (cases "gn_summary gn") (auto simp: read_summary_def)
  with gn r show "\<exists>gn m s. is_hex_id g 32 \<and> map_of (hd_generations d') g = Some gn \<and>
      gen_readable e gn m \<and> read_summary e g d' = Inr s"
    by (intro exI [of _ "gn\<lparr>gn_retain := r\<rparr>"] exI [of _ m] exI [of _ s]) simp
qed

interpretation pointed: dir_ops e pid "pointer_ok e" for e pid
proof unfold_locales
  fix d assume "pointer_ok e d"
  then show "pointer_ok e (cleanup_history pid d)"
  proof (rule pointer_okI)
    fix g gn assume "hd_current d = Some g" "is_hex_id g 32" "map_of (hd_generations d) g = Some gn"
    then have "kept pid (cleanup_history pid d) g gn" by (intro cleanup_kept) (simp add: kept_def)
    then show "\<exists>r. map_of (hd_generations (cleanup_history pid d)) g = Some (gn\<lparr>gn_retain := r\<rparr>)"
      by (intro exI [of _ "gn_retain gn"]) (simp add: kept_def)
  qed (simp add: cleanup_history_def)
next
  fix d h d' assume p: "pointer_ok e d" and r: "retain_generation pid h d = Inr d'"
  from p show "pointer_ok e d'"
  proof (rule pointer_okI)
    fix g gn assume "map_of (hd_generations d) g = Some gn"
    with r show "\<exists>r. map_of (hd_generations d') g = Some (gn\<lparr>gn_retain := r\<rparr>)"
      by (cases "h = g") (auto elim!: retain_Inr intro: exI [of _ "gn_retain gn"])
  qed (use r in \<open>auto elim: retain_Inr\<close>)
next
  fix d h x assume "pointer_ok e d"
  then show "pointer_ok e (d\<lparr>hd_generations := hm_insert (h @ ''.build'') x (hd_generations d)\<rparr>)"
  proof (rule pointer_okI)
    fix g gn assume "is_hex_id g 32" "map_of (hd_generations d) g = Some gn"
    moreover from this(1) have "g \<noteq> h @ ''.build''" using hex_no_colon [of g 32] by auto
    ultimately show "\<exists>r. map_of (hd_generations (d\<lparr>hd_generations :=
        hm_insert (h @ ''.build'') x (hd_generations d)\<rparr>)) g = Some (gn\<lparr>gn_retain := r\<rparr>)"
      by (intro exI [of _ "gn_retain gn"]) simp
  qed simp
next
  fix d w gn' assume p: "pointer_ok e d" and f: "fresh_world w d"
  from p show "pointer_ok e (d\<lparr>hd_generations := hm_insert (bw_fresh_id w) gn' (hd_generations d)\<rparr>)"
  proof (rule pointer_okI)
    fix g gn assume "map_of (hd_generations d) g = Some gn"
    with f show "\<exists>r. map_of (hd_generations (d\<lparr>hd_generations :=
        hm_insert (bw_fresh_id w) gn' (hd_generations d)\<rparr>)) g = Some (gn\<lparr>gn_retain := r\<rparr>)"
      by (intro exI [of _ "gn_retain gn"]) (auto simp: fresh_world_def)
  qed simp
next
  fix d w sz tm run mt fs0 m s b fs
  assume f: "fresh_world w d"
    and bp: "build_projection e (bw_chunks w) sz tm run (bw_fresh_id w) (bw_bytes w) mt fs0 = Inr ((m, s, b), fs)"
  let ?d = "d\<lparr>hd_generations := hm_insert (bw_fresh_id w) (built_generation e sz m s b fs) (hd_generations d),
              hd_current := Some (bw_fresh_id w)\<rparr>"
  show "pointer_ok e ?d"
    unfolding pointer_ok_def
  proof (intro impI allI)
    fix g assume r: "reads_back e" and "hd_current ?d = Some g"
    then have g: "g = bw_fresh_id w" by simp
    have "read_summary e (bw_fresh_id w) ?d = Inr s"
      by (rule built_summary_reads [where ?fs2.0 = fs and r = "gn_retain (built_generation e sz m s b fs)", OF r bp]) simp
    with f g built_readable [OF r bp, of sz s fs]
    show "\<exists>gn m s. is_hex_id g 32 \<and> map_of (hd_generations ?d) g = Some gn \<and> gen_readable e gn m \<and>
        read_summary e g ?d = Inr s"
      by (intro exI [of _ "built_generation e sz m s b fs"] exI [of _ m] exI [of _ s]) (simp add: fresh_world_def)
  qed
qed

interpretation pointed_runs: invariant_system "\<lambda>d. hd_current d = None" "history_move e pid" "pointer_ok e"
    for e pid
  by unfold_locales (simp add: pointer_ok_def, rule pointed.move_I)

end
