(* ===== verification/History_Reader_Props.thy ===== *)
theory History_Reader_Props
  imports History_Moves
begin

text \<open>
  The properties of the history store that hold along any sequence of requests, and the content read
  back in chunks (\<open>storage/history.rs\<close>).
\<close>

section \<open>Content in chunks\<close>

text \<open>A client that reads content chunk by chunk and puts the decoded chunks together.\<close>

fun fetch_content ::
  "(string \<Rightarrow> string) \<Rightarrow> (string \<Rightarrow> string) \<Rightarrow> string \<Rightarrow> string \<Rightarrow> string \<Rightarrow> nat \<Rightarrow> nat \<Rightarrow> nat \<Rightarrow> history_dir \<Rightarrow>
     string + string" where
  "fetch_content b64 unb64 pid g i m 0 off d = Inl ''out of fuel''"
| "fetch_content b64 unb64 pid g i m (Suc n) off d =
     (case get_content_chunk b64 pid g i off m d of
        (Inl err, d) \<Rightarrow> Inl err
      | (Inr c, d) \<Rightarrow>
          (if cc_eof c then Inr (unb64 (cc_data c))
           else and_then (fetch_content b64 unb64 pid g i m n (cc_next_offset c) d)
                  (\<lambda>rest. Inr (unb64 (cc_data c) @ rest))))"

lemma chunk_at:
  assumes "is_hex_id g 32" and "is_hex_id i 64" and "map_of (hd_generations d) g = Some gn"
    and "gn_blobs gn i = Some bytes" and "off \<le> length bytes" and "0 < m"
  shows "get_content_chunk b64 pid g i off m d =
    (let k = min (min m CONTENT_CHUNK_LIMIT) (length bytes - off)
     in (Inr \<lparr>cc_offset = off, cc_next_offset = off + k, cc_total_bytes = length bytes,
              cc_eof = (length bytes \<le> off + k), cc_data = b64 (take k (drop off bytes))\<rparr>,
         retained_dir pid g gn d))"
proof -
  have "min m CONTENT_CHUNK_LIMIT \<noteq> 0" using assms(6) by (simp add: CONTENT_CHUNK_LIMIT_def)
  moreover have "length (take k (drop off bytes)) = k" if "k \<le> length bytes - off" for k
    using that by simp
  ultimately show ?thesis
    using assms by (simp add: get_content_chunk_def retain_ok retained_dir_def Let_def)
qed

lemma fetch_from:
  assumes "is_hex_id g 32" and "is_hex_id i 64" and "map_of (hd_generations d) g = Some gn"
    and "gn_blobs gn i = Some bytes" and "off \<le> length bytes" and "0 < m"
    and "\<And>x. unb64 (b64 x) = x" and "length bytes - off < n"
  shows "fetch_content b64 unb64 pid g i m n off d = Inr (drop off bytes)"
  using assms
proof (induction n arbitrary: off d gn)
  case (Suc n)
  let ?k = "min (min m CONTENT_CHUNK_LIMIT) (length bytes - off)"
  note c = chunk_at [OF Suc.prems(1-6), of b64 pid, unfolded Let_def]
  show ?case
  proof (cases "length bytes \<le> off + ?k")
    case True
    then have "length bytes - off \<le> ?k" by linarith
    then have "take ?k (drop off bytes) = drop off bytes" by (intro take_all) (simp only: length_drop)
    with True show ?thesis using Suc.prems(7) by (simp add: c)
  next
    case False
    have "0 < ?k" using False Suc.prems(6) by (simp add: CONTENT_CHUNK_LIMIT_def)
    then have "fetch_content b64 unb64 pid g i m n (off + ?k) (retained_dir pid g gn d) =
        Inr (drop (off + ?k) bytes)"
      using Suc.prems False by (intro Suc.IH [of _ "gn\<lparr>gn_retain := Some pid\<rparr>"]) auto
    moreover have "take ?k (drop off bytes) @ drop (off + ?k) bytes = drop off bytes"
      by (metis append_take_drop_id drop_drop add.commute)
    ultimately show ?thesis using False Suc.prems(7) by (simp add: c)
  qed
qed simp

text \<open>The parts of a stream, appended in order.\<close>

fun spool_all :: "hist_env \<Rightarrow> string list \<Rightarrow> spool \<Rightarrow> hist_fs \<Rightarrow> string + spool \<times> hist_fs" where
  "spool_all e [] s fs = Inr (s, fs)"
| "spool_all e (v # vs) s fs = and_then (spool_append e v s fs) (\<lambda>(s, fs). spool_all e vs s fs)"

lemma spool_all_text:
  "spool_all e vs s fs = Inr (s', fs') \<Longrightarrow> spool_ok s \<Longrightarrow> spool_ok s' \<and> spool_text s' = spool_text s @ concat vs"
proof (induction vs arbitrary: s fs)
  case (Cons v vs)
  then obtain s1 fs1 where "spool_append e v s fs = Inr (s1, fs1)" "spool_all e vs s1 fs1 = Inr (s', fs')"
    by (auto simp: and_then_Inr_iff)
  with Cons.IH [of s1 fs1] Cons.prems(2) spool_append_ok(1,2) show ?case by fastforce
qed simp

section \<open>The properties\<close>

text \<open>C18: Streamed text survives the history. The parts of a message, appended to a spool one after the
other and stored at its end, are kept in the entry itself when they have at most 64 KiB in all, and
otherwise a client that reads the stored content of the generation in chunks of any positive size
gets back exactly the parts put together, within as many requests as there are bytes and one. Base64
is only assumed to decode what it encodes, and the hash to have the length of SHA-256.\<close>

theorem streamed_text_read_back:
  assumes "spool_all e vs spool_new fs0 = Inr (s, fs1)"
    and "content_from_spool e run gen key s fs1 = Inr (c, fs2)"
    and "is_hex_id g 32" and "\<And>x. is_hex_id (he_sha e x) 64"
    and "map_of (hd_generations d) g = Some gn" and "gn_blobs gn = fs_blobs fs2"
    and "0 < m" and "\<And>x. unb64 (b64 x) = x"
  shows "(case hc_content_id c of
            None \<Rightarrow> hc_preview c = concat vs \<and> length (concat vs) \<le> CONTENT_INLINE_LIMIT
          | Some i \<Rightarrow>
              CONTENT_INLINE_LIMIT < length (concat vs) \<and>
              fetch_content b64 unb64 pid g i m (length (concat vs) + 1) 0 d = Inr (concat vs))
         \<and> hc_byte_length c = length (concat vs)"
proof -
  have s: "spool_ok s" "spool_text s = concat vs" using spool_all_text [OF assms(1)] by simp_all
  note b = spool_content_bytes [OF assms(2) s(1)]
  have "(hc_content_id c = None) = (\<not> hc_truncated c) \<and>
      (hc_content_id c \<noteq> None \<longrightarrow> is_hex_id (the (hc_content_id c)) 64)"
    using assms(2,4)
    by (auto simp: content_from_spool_def content_from_text_def inline_content_def stored_content_def
        content_id_def and_then_Inr_iff Let_def split: option.splits if_splits)
  moreover have "fetch_content b64 unb64 pid g i m (length bytes + 1) 0 d = Inr bytes"
    if "is_hex_id i 64" "fs_blobs fs2 i = Some bytes" for i bytes
    using fetch_from [OF assms(3) that(1) assms(5), of bytes 0 m unb64 b64 "length bytes + 1" pid]
      that assms(6-8) by simp
  ultimately show ?thesis
    using b s by (auto simp: content_bytes_def split: option.splits)
qed

theorem streamed_text_read_back_witness:
  "\<exists>s fs1 c fs2 i. spool_all one_line [replicate 70000 CHR ''x''] spool_new demo_fs = Inr (s, fs1) \<and>
     content_from_spool one_line ''r'' demo_gid ''k'' s fs1 = Inr (c, fs2) \<and> hc_content_id c = Some i \<and>
     fetch_content (\<lambda>x. x) (\<lambda>x. x) ''p'' demo_gid i 1000 70001 0
       \<lparr>hd_current = None, hd_generations = [(demo_gid, empty_generation\<lparr>gn_blobs := fs_blobs fs2\<rparr>)]\<rparr>
       = Inr (replicate 70000 CHR ''x'')"
proof -
  let ?t = "replicate 70000 CHR ''x''"
  obtain s fs1 where s: "spool_all one_line [?t] spool_new demo_fs = Inr (s, fs1)"
    by (simp add: spool_append_def spool_new_def CONTENT_INLINE_LIMIT_def one_line_op)
  obtain c fs2 where c: "content_from_spool one_line ''r'' demo_gid ''k'' s fs1 = Inr (c, fs2)"
    using s by (auto simp: spool_append_def spool_new_def CONTENT_INLINE_LIMIT_def one_line_op
        content_from_spool_def preview_file_def Let_def)
  let ?d = "\<lparr>hd_current = None, hd_generations = [(demo_gid, empty_generation\<lparr>gn_blobs := fs_blobs fs2\<rparr>)]\<rparr>"
  have "case hc_content_id c of
      None \<Rightarrow> hc_preview c = concat [?t] \<and> length (concat [?t]) \<le> CONTENT_INLINE_LIMIT
    | Some i \<Rightarrow> CONTENT_INLINE_LIMIT < length (concat [?t]) \<and>
        fetch_content (\<lambda>x. x) (\<lambda>x. x) ''p'' demo_gid i 1000 (length (concat [?t]) + 1) 0 ?d = Inr (concat [?t])"
    using streamed_text_read_back [OF s c demo_gid_hex one_line_sha, of ?d "empty_generation\<lparr>gn_blobs := fs_blobs fs2\<rparr>" 1000 "\<lambda>x. x" "\<lambda>x. x" "''p''"]
    by simp
  then obtain i where "hc_content_id c = Some i"
    "fetch_content (\<lambda>x. x) (\<lambda>x. x) ''p'' demo_gid i 1000 70001 0 ?d = Inr ?t"
    by (auto simp: CONTENT_INLINE_LIMIT_def split: option.splits)
  with s c show ?thesis by blast
qed

text \<open>C15: A generation that was handed out stays. Once the process has handed out a generation of a
run's history, no sequence of later requests (builds that succeed or fail at any step, clean-ups,
refreshes and reads, under any status of the run) changes what it answers: its latest page, the page
before any cursor of it, its stored content, the pages of its sub-agents and its summary.\<close>

theorem handed_out_stays:
  assumes "ensure_history_with_refresh e pid w meta bytes refresh run d = (Inr g, d1)"
    and "fresh_world w (cleanup_history pid d)"
    and "(history_move e pid)\<^sup>*\<^sup>* d1 d2"
  shows "fst (get_page e pid (Some g) None en d2) = fst (get_page e pid (Some g) None en d1) \<and>
    fst (get_page e pid (Some g) (Some (cursor g n)) en d2) =
      fst (get_page e pid (Some g) (Some (cursor g n)) en d1) \<and>
    fst (get_content_chunk b64 pid g i off m d2) = fst (get_content_chunk b64 pid g i off m d1) \<and>
    fst (get_subhistory_page e pid g i sc d2) = fst (get_subhistory_page e pid g i sc d1) \<and>
    read_summary e g d2 = read_summary e g d1"
proof -
  obtain gn where h: "handed_out pid g gn d1" by (rule ensured_is_handed_out [OF assms(1,2)])
  have h2: "handed_out pid g gn d2" by (rule handed_runs.inv_reach [OF assms(3) h])
  note same = reads_alike [OF h2 h]
  have "k = n" if "parse_u64_str (show_nat n) = Some k" for k
    using that parse_shown_only by blast
  then have "parse_cursor (cursor g n) = Inr (g, n) \<or> (\<exists>err. parse_cursor (cursor g n) = Inl err)"
    using h hex_no_colon [of g 32] by (auto simp: parse_cursor_def cursor_def find_colon handed_out_def
        split: option.splits)
  then have "fst (get_page e pid (Some g) (Some (cursor g n)) en d2) =
      fst (get_page e pid (Some g) (Some (cursor g n)) en d1)"
    using same(2) [of "cursor g n" n] by (auto simp: get_page_def page_wanted_def)
  with same show ?thesis by blast
qed

theorem handed_out_stays_witness:
  "\<exists>d1. ensure_history_with_refresh one_line ''p'' demo_build_world None None False ''r'' empty_history
      = (Inr demo_gid, d1) \<and>
    (let d2 = snd (build_generation one_line ''p'' (demo_build_world\<lparr>bw_fresh_id := replicate 32 CHR ''b'',
                     bw_rename := Some ''full''\<rparr>) ''r'' d1)
     in fst (get_page one_line ''p'' (Some demo_gid) None [] d2) =
        fst (get_page one_line ''p'' (Some demo_gid) None [] d1))"
proof -
  let ?w = "demo_build_world\<lparr>bw_fresh_id := replicate 32 CHR ''b'', bw_rename := Some ''full''\<rparr>"
  obtain d1 where d1: "ensure_history_with_refresh one_line ''p'' demo_build_world None None False ''r'' empty_history
      = (Inr demo_gid, d1)" and names: "fst ` set (hd_generations d1) = {demo_gid}"
    by (rule demo_ensure)
  have f: "fresh_world demo_build_world (cleanup_history ''p'' empty_history)"
    using demo_gid_hex by (simp add: fresh_world_def cleanup_history_def empty_history_def demo_build_world_def)
  have "replicate 32 CHR ''b'' \<noteq> demo_gid" "is_hex_id (replicate 32 CHR ''b'') 32" by code_simp+
  with names have "fresh_world ?w d1" by (simp add: fresh_world_def map_of_eq_None_iff)
  then have "(history_move one_line ''p'')\<^sup>*\<^sup>* d1 (snd (build_generation one_line ''p'' ?w ''r'' d1))"
    by (intro r_into_rtranclp move_build)
  from handed_out_stays [OF d1 f this] d1 show ?thesis by (simp add: Let_def)
qed

text \<open>C16: The published history is always readable. Starting from a run without history, along any
sequence of requests, builds that fail included, whenever the current pointer names a generation,
its manifest and its summary can be read: the pointer is only moved to a generation that is complete,
and clean-up never removes what it names.\<close>

theorem current_stays_readable:
  assumes "reads_back e" and "hd_current d0 = None" and "(history_move e pid)\<^sup>*\<^sup>* d0 d"
    and "hd_current d = Some g"
  shows "\<exists>m s. load_manifest d g = Inr m \<and> read_summary e g d = Inr s"
proof -
  have "pointer_ok e d" by (rule pointed_runs.inv_from_start [OF assms(2,3)])
  with assms(1,4) show ?thesis by (fastforce simp: pointer_ok_def load_manifest_def gen_readable_def)
qed

theorem current_stays_readable_witness:
  "\<exists>d m s. ensure_history_with_refresh one_line ''p'' demo_build_world None None False ''r'' empty_history
      = (Inr demo_gid, d) \<and> hd_current d = Some demo_gid \<and>
    load_manifest d demo_gid = Inr m \<and> read_summary one_line demo_gid d = Inr s"
proof -
  obtain d where d: "ensure_history_with_refresh one_line ''p'' demo_build_world None None False ''r'' empty_history
      = (Inr demo_gid, d)" and c: "hd_current d = Some demo_gid"
    by (rule demo_ensure)
  have f: "fresh_world demo_build_world (cleanup_history ''p'' empty_history)"
    using demo_gid_hex by (simp add: fresh_world_def cleanup_history_def empty_history_def demo_build_world_def)
  have "history_move one_line ''p'' empty_history
      (snd (ensure_history_with_refresh one_line ''p'' demo_build_world None None False ''r'' empty_history))"
    using f by (rule move_ensure)
  then have "(history_move one_line ''p'')\<^sup>*\<^sup>* empty_history d" using d by (simp add: r_into_rtranclp)
  from current_stays_readable [OF one_line_reads_back _ this c] c d show ?thesis
    by (auto simp: empty_history_def)
qed

end
