(* ===== verification/Pipe_Parser.thy ===== *)
theory Pipe_Parser
  imports Codex_Events "HOL-Library.Word"
begin

text \<open>
  The parser of the one-shot Codex transport (\<open>src-tauri/src/agent/pipe\_parser.rs\<close>): one NDJSON
  line of \<open>codex exec\<close> to bus events. The parser keeps the number of its process within the run and
  counts the turns, so that item ids, which start again in every turn, are unique in the run. Both
  counters are 32-bit words and the turn counter wraps, as in a release build.

  \<open>human\_error\_message\<close> parses text as JSON: the parser is the argument \<open>parse\<close>. The first key of
  a JSON object is the first of its entry list.
\<close>

section \<open>Shapes of wire values\<close>

definition pipe_mcp_tool_name :: "json \<Rightarrow> string" where
  "pipe_mcp_tool_name item = str_or item ''server'' ''mcp'' @ '':'' @ str_or item ''tool'' ''unknown''"

fun first_change :: "json \<Rightarrow> string option \<times> string option" where
  "first_change (JArr (c # cs)) = (get_str c ''path'', get_str c ''kind'')"
| "first_change (JObj ((k, v) # kvs)) = (Some k, None)"
| "first_change _ = (None, None)"

definition file_change_input :: "json \<Rightarrow> json" where
  "file_change_input item =
     (let changes = unwrap_or (jget item ''changes'') (JArr []) in
      case first_change changes of
        (Some path, kind) \<Rightarrow>
          JObj [(''file_path'', JStr path), (''kind'', jopt_str kind), (''changes'', changes)]
      | (None, _) \<Rightarrow> JObj [(''changes'', changes)])"

definition new_todo_status :: "json \<Rightarrow> string" where
  "new_todo_status item =
     (let other = (if get_bool item ''completed'' = Some True then ''completed'' else ''pending'') in
      case get_str item ''status'' of
        None \<Rightarrow> other
      | Some s \<Rightarrow>
          if s = ''in_progress'' \<or> s = ''in-progress'' then ''in_progress''
          else if s = ''completed'' \<or> s = ''complete'' \<or> s = ''done'' then ''completed''
          else if s = ''pending'' then ''pending''
          else other)"

definition todo_item_to_new_todo :: "json \<Rightarrow> json" where
  "todo_item_to_new_todo item =
     (let content = unwrap_or (or_else (get_str item ''text'')
                      (or_else (get_str item ''content'') (get_str item ''title''))) [] in
      JObj [(''content'', JStr content), (''status'', JStr (new_todo_status item)),
            (''activeForm'', JStr content)])"

text \<open>What a JSON error blob says: \<open>error.message\<close>, or else \<open>message\<close>.\<close>

definition blob_message :: "json \<Rightarrow> string option" where
  "blob_message v =
     or_else (Option.bind (jget_opt (jget v ''error'') ''message'') as_str) (get_str v ''message'')"

fun drill_message :: "(string \<Rightarrow> json option) \<Rightarrow> nat \<Rightarrow> string \<Rightarrow> string" where
  "drill_message parse 0 current = current"
| "drill_message parse (Suc n) current =
     (case parse current of
        None \<Rightarrow> current
      | Some v \<Rightarrow>
          (case blob_message v of
             None \<Rightarrow> current
           | Some s \<Rightarrow> if s \<noteq> current then drill_message parse n s else current))"

definition human_error_message :: "(string \<Rightarrow> json option) \<Rightarrow> string \<Rightarrow> string" where
  "human_error_message parse raw = drill_message parse 3 raw"

section \<open>The parser\<close>

record codex_stdout_parser =
  px_process_seq :: "32 word"
  px_turn_counter :: "32 word"

definition new_codex_stdout_parser :: "32 word \<Rightarrow> codex_stdout_parser" where
  "new_codex_stdout_parser seq = \<lparr>px_process_seq = seq, px_turn_counter = 0\<rparr>"

definition scoped_id :: "codex_stdout_parser \<Rightarrow> string \<Rightarrow> string" where
  "scoped_id p item_id =
     ''codex-'' @ show_nat (unat (px_process_seq p)) @ ''-'' @
     show_nat (unat (px_turn_counter p)) @ ''-'' @ item_id"

definition started_tool :: "codex_tool_kind \<Rightarrow> json \<Rightarrow> string \<times> json" where
  "started_tool kind item =
     (case kind of
        Command \<Rightarrow> (''Bash'', JObj [(''command'', JStr (str_or item ''command'' []))])
      | FileChange \<Rightarrow> (''Edit'', file_change_input item)
      | McpToolCall \<Rightarrow> (pipe_mcp_tool_name item, unwrap_or (jget item ''arguments'') (JObj []))
      | WebSearch \<Rightarrow>
          (''WebSearch'', JObj ((''query'', JStr (str_or item ''query'' []))
                                # opt_entry ''action'' (jget item ''action'')))
      | CollabToolCall \<Rightarrow>
          (''Agent'', JObj [(''codexCollab'', JBool True),
                            (''operation'', JStr (str_or item ''tool'' ''unknown'')),
                            (''prompt'', JStr (str_or item ''prompt'' []))]))"

definition map_item_started :: "string \<Rightarrow> json \<Rightarrow> codex_stdout_parser \<Rightarrow> bus_event list" where
  "map_item_started run_id raw p =
     (case jget raw ''item'' of
        None \<Rightarrow> []
      | Some item \<Rightarrow>
          (case from_item_type (str_or item ''type'' []) of
             None \<Rightarrow> []
           | Some kind \<Rightarrow>
               (case started_tool kind item of (tool_name, input) \<Rightarrow>
                  [ToolStart run_id (scoped_id p (str_or item ''id'' ''unknown'')) tool_name input None])))"

definition map_todo_list :: "string \<Rightarrow> json \<Rightarrow> codex_stdout_parser \<Rightarrow> bus_event list" where
  "map_todo_list run_id item p =
     (let tool_use_id = scoped_id p (str_or item ''id'' ''todo'');
          new_todos = JArr (map todo_item_to_new_todo (unwrap_or (get_array item ''items'') [])) in
      [ToolStart run_id tool_use_id ''TodoWrite'' (JObj [(''todos'', new_todos)]) None,
       ToolEnd run_id tool_use_id ''TodoWrite'' (JObj []) ''success'' None None
         (Some (JObj [(''newTodos'', new_todos)]))])"

definition collab_payload :: "json \<Rightarrow> json" where
  "collab_payload item =
     JObj [(''codexCollab'', JBool True),
           (''operation'', JStr (str_or item ''tool'' ''collab'')),
           (''status'', jopt_str (get_str item ''status'')),
           (''agents_states'', unwrap_or (jget item ''agents_states'') (JObj []))]"

definition map_item_completed :: "string \<Rightarrow> json \<Rightarrow> codex_stdout_parser \<Rightarrow> bus_event list" where
  "map_item_completed run_id raw p =
     (case jget raw ''item'' of
        None \<Rightarrow> []
      | Some item \<Rightarrow>
          let item_type = str_or item ''type'' [];
              tool_use_id = scoped_id p (str_or item ''id'' ''unknown'');
              status = codex_normalize_status (str_or item ''status'' ''completed'');
              tool_end = (\<lambda>name output result.
                            [ToolEnd run_id tool_use_id name output status None None result]) in
          if item_type = ''agent_message'' then
            [MessageComplete run_id tool_use_id (str_or item ''text'' []) None None None None]
          else if item_type = ''command_execution'' then
            tool_end ''Bash''
              (JObj [(''content'', JStr (str_or item ''aggregated_output'' []))]) None
          else if item_type = ''file_change'' then
            tool_end ''Edit'' (unwrap_or (jget item ''changes'') (JObj [])) None
          else if item_type = ''mcp_tool_call'' then
            tool_end (pipe_mcp_tool_name item) (unwrap_or (jget item ''result'') (JObj [])) None
          else if item_type = ''web_search'' then
            tool_end ''WebSearch'' (unwrap_or (jget item ''action'') (JObj [])) None
          else if item_type = ''collab_tool_call'' then
            tool_end ''Agent'' (JObj [(''content'', collab_payload item)]) (Some (collab_payload item))
          else if item_type = ''todo_list'' then map_todo_list run_id item p
          else if item_type = ''error'' then
            [CommandOutput run_id (''[error] '' @ str_or item ''message'' ''unknown error'')]
          else if item_type = ''reasoning'' then
            (let t = str_or item ''text'' [] in
             if t = [] then [] else [ThinkingDelta run_id t None])
          else [])"

text \<open>\<open>u64::saturating\_add\<close>.\<close>

definition saturating_add_u64 :: "nat \<Rightarrow> nat \<Rightarrow> nat" where
  "saturating_add_u64 a b = (if a + b \<le> U64_MAX then a + b else U64_MAX)"

definition map_turn_completed :: "string \<Rightarrow> json \<Rightarrow> codex_stdout_parser \<Rightarrow> bus_event list" where
  "map_turn_completed run_id raw p =
     (case jget raw ''usage'' of
        None \<Rightarrow> []
      | Some usage \<Rightarrow>
          let cached = unwrap_or (get_u64 usage ''cached_input_tokens'') 0 in
          [UsageUpdate
             \<lparr>us_run_id = run_id,
              us_input_tokens = unwrap_or (get_u64 usage ''input_tokens'') 0,
              us_output_tokens = saturating_add_u64 (unwrap_or (get_u64 usage ''output_tokens'') 0)
                                   (unwrap_or (get_u64 usage ''reasoning_output_tokens'') 0),
              us_cache_read_tokens = (if 0 < cached then Some cached else None),
              us_cache_write_tokens = None, us_total_cost_usd = 0,
              us_turn_index = Some (unat (px_turn_counter p)),
              us_model_usage = None, us_duration_api_ms = None, us_duration_ms = None,
              us_num_turns = None, us_stop_reason = None, us_service_tier = None, us_speed = None,
              us_web_fetch_requests = None, us_cache_creation_5m = None,
              us_cache_creation_1h = None\<rparr>])"

definition map_turn_failed :: "(string \<Rightarrow> json option) \<Rightarrow> string \<Rightarrow> json \<Rightarrow> bus_event list" where
  "map_turn_failed parse run_id raw =
     [RunState run_id ''failed'' None
        (Some (human_error_message parse
           (unwrap_or (Option.bind (jget_opt (jget raw ''error'') ''message'') as_str)
              ''turn failed'')))]"

definition map_error :: "(string \<Rightarrow> json option) \<Rightarrow> string \<Rightarrow> json \<Rightarrow> bus_event list" where
  "map_error parse run_id raw =
     [CommandOutput run_id (''[codex error] '' @ human_error_message parse
        (unwrap_or (or_else (get_str raw ''message'') (get_str raw ''error'')) ''unknown error''))]"

definition map_item_updated :: "string \<Rightarrow> json \<Rightarrow> codex_stdout_parser \<Rightarrow> bus_event list" where
  "map_item_updated run_id raw p =
     (case jget raw ''item'' of
        None \<Rightarrow> []
      | Some item \<Rightarrow>
          if str_or item ''type'' [] = ''todo_list'' then map_todo_list run_id item p
          else [Raw run_id ''codex_item_updated_unknown'' item])"

definition pipe_parse_line ::
  "(string \<Rightarrow> json option) \<Rightarrow> string \<Rightarrow> json \<Rightarrow> codex_stdout_parser \<Rightarrow>
     codex_stdout_parser \<times> bus_event list" where
  "pipe_parse_line parse run_id raw p =
     (let type_str = str_or raw ''type'' [] in
      if type_str = ''turn.started'' then
        (p\<lparr>px_turn_counter := px_turn_counter p + 1\<rparr>, [])
      else if type_str = ''item.started'' then (p, map_item_started run_id raw p)
      else if type_str = ''item.completed'' then (p, map_item_completed run_id raw p)
      else if type_str = ''item.updated'' then (p, map_item_updated run_id raw p)
      else if type_str = ''turn.completed'' then (p, map_turn_completed run_id raw p)
      else if type_str = ''turn.failed'' then (p, map_turn_failed parse run_id raw)
      else if type_str = ''error'' then (p, map_error parse run_id raw)
      else (p, []))"

end
