(* ===== verification/Pipe_Transport.thy ===== *)
theory Pipe_Transport
  imports Pipe_Parser Runs_Store Event_Log
begin

text \<open>
  One run of a one-shot agent (\<open>src-tauri/src/agent/stream.rs\<close>): the child is started with its
  prompt, a task reads its stdout, another its stderr, and when both have ended \<open>run\_agent\<close> waits for
  the child, settles the run's status and reports. A stop by the user takes the child out of the map
  of processes at any time.

  What the run does to the outside is the list \<open>pr_effects\<close>, oldest first: records appended to the
  event log, bus events, messages to the window, and the two ways a child is killed. The metadata
  store is the field \<open>pr_store\<close>; each input carries the answers of the file system it meets. The
  tasks interleave input by input.
\<close>

section \<open>State\<close>

datatype pipe_effect =
    Append_Event run_event_type json
  | Emit_Run_Event string string
      \<comment> \<open>the window's run-event: type and text\<close>
  | Emit_Chat_Delta string
  | Emit_Chat_Done bool int
  | Persist_And_Emit bus_event
  | Idle_Kill
  | Stop_Kill

record pipe_run =
  pr_run_id :: string
  pr_is_codex :: bool
  pr_has_emitter :: bool
  pr_parser :: codex_stdout_parser
  pr_leftover :: string
  pr_assistant :: string
  pr_child :: bool
  pr_timed_out :: bool
  pr_stdout_open :: bool
  pr_stderr_open :: bool
  pr_ended :: bool
  pr_store :: meta_store
  pr_effects :: "pipe_effect list"

definition pr_emit :: "pipe_effect \<Rightarrow> pipe_run \<Rightarrow> pipe_run" where
  "pr_emit x p = p\<lparr>pr_effects := pr_effects p @ [x]\<rparr>"

definition ui_chat :: "string \<Rightarrow> string \<Rightarrow> json" where
  "ui_chat k t = JObj [(k, JStr t), (''source'', JStr ''ui_chat'')]"

text \<open>The bus event of a task that has the emitter.\<close>

definition emit_bus :: "bus_event \<Rightarrow> pipe_run \<Rightarrow> pipe_run" where
  "emit_bus ev p = (if pr_has_emitter p then pr_emit (Persist_And_Emit ev) p else p)"

definition CODEX_IDLE_TIMEOUT :: nat where "CODEX_IDLE_TIMEOUT = 1800"

section \<open>Start\<close>

datatype spawn_error = Spawn_Not_Found | Spawn_Failed string

definition spawn_message :: "string \<Rightarrow> string \<Rightarrow> spawn_error \<Rightarrow> string" where
  "spawn_message cmd agent e =
     (case e of
        Spawn_Not_Found \<Rightarrow> ''Command '' @ [CHR 0x22] @ cmd @ [CHR 0x22] @ '' not found. Is '' @ agent
                           @ '' CLI installed and in your PATH?''
      | Spawn_Failed t \<Rightarrow> t)"

definition new_pipe_run :: "string \<Rightarrow> string \<Rightarrow> bool \<Rightarrow> nat \<Rightarrow> meta_store \<Rightarrow> pipe_run" where
  "new_pipe_run run_id agent has_emitter seq st =
     \<lparr>pr_run_id = run_id, pr_is_codex = (agent = ''codex''), pr_has_emitter = has_emitter,
      pr_parser = new_codex_stdout_parser (of_nat seq), pr_leftover = [], pr_assistant = [],
      pr_child = False, pr_timed_out = False, pr_stdout_open = False, pr_stderr_open = False,
      pr_ended = False, pr_store = st, pr_effects = []\<rparr>"

definition start_agent ::
  "save_env \<Rightarrow> spawn_error option \<Rightarrow> string \<Rightarrow> string \<Rightarrow> string list \<Rightarrow> string \<Rightarrow> bool \<Rightarrow> meta_store \<Rightarrow>
     (string + unit) \<times> pipe_run" where
  "start_agent se spawned run_id cmd args agent has_emitter st =
     (case (if agent = ''codex'' \<and> has_emitter then next_codex_process_seq se run_id st
            else (Inr 0, st)) of
        (Inl e, st') \<Rightarrow> (Inl e, new_pipe_run run_id agent has_emitter 0 st')
      | (Inr seq, st') \<Rightarrow>
          let p = pr_emit (Append_Event EvSystem
                     (ui_chat ''message'' (''Started '' @ cmd @ '' '' @ str_join '' '' args)))
                     (new_pipe_run run_id agent has_emitter seq st') in
          case spawned of
            Some e \<Rightarrow> (Inl (spawn_message cmd agent e), p)
          | None \<Rightarrow> (Inr (), p\<lparr>pr_child := True, pr_stdout_open := True, pr_stderr_open := True\<rparr>))"

section \<open>The stdout of Codex\<close>

definition save_thread :: "save_env \<Rightarrow> json \<Rightarrow> pipe_run \<Rightarrow> pipe_run" where
  "save_thread se payload p =
     (case get_str payload ''thread_id'' of
        None \<Rightarrow> p
      | Some tid \<Rightarrow>
          p\<lparr>pr_store := snd (with_meta se (pr_run_id p)
              (\<lambda>m. m\<lparr>m_conversation_ref := Some (CodexThread tid)\<rparr>) (pr_store p))\<rparr>)"

definition codex_event :: "bus_event \<Rightarrow> pipe_run \<Rightarrow> pipe_run" where
  "codex_event ev p =
     (let p1 = emit_bus ev p in
      case ev of
        MessageComplete _ _ t _ _ _ _ \<Rightarrow>
          pr_emit (Emit_Chat_Delta t) (p1\<lparr>pr_assistant := pr_assistant p1 @ t\<rparr>)
      | _ \<Rightarrow> p1)"

definition log_stdout_line :: "string \<Rightarrow> pipe_run \<Rightarrow> pipe_run" where
  "log_stdout_line line p =
     pr_emit (Emit_Run_Event ''stdout'' line)
       (pr_emit (Append_Event EvStdout (ui_chat ''text'' line)) p)"

definition codex_payload ::
  "(string \<Rightarrow> json option) \<Rightarrow> save_env \<Rightarrow> json \<Rightarrow> pipe_run \<Rightarrow> pipe_run" where
  "codex_payload parse se payload p =
     (let p1 = (if str_or payload ''type'' [] = ''thread.started''
                then save_thread se payload p else p) in
      case pipe_parse_line parse (pr_run_id p1) payload (pr_parser p1) of
        (parser, events) \<Rightarrow> fold codex_event events (p1\<lparr>pr_parser := parser\<rparr>))"

definition pipe_codex_line ::
  "(string \<Rightarrow> json option) \<Rightarrow> save_env \<Rightarrow> string \<Rightarrow> pipe_run \<Rightarrow> pipe_run" where
  "pipe_codex_line parse se line p =
     (let p1 = log_stdout_line line p; trimmed = trim line in
      if trimmed = [] then p1
      else case parse trimmed of
        None \<Rightarrow> p1
      | Some payload \<Rightarrow> codex_payload parse se payload p1)"

text \<open>Silent for half an hour: the child is taken out of the map and killed.\<close>

definition codex_idle :: "pipe_run \<Rightarrow> pipe_run" where
  "codex_idle p =
     (let p1 = p\<lparr>pr_timed_out := True, pr_stdout_open := False\<rparr> in
      if pr_child p1 then pr_emit Idle_Kill (p1\<lparr>pr_child := False\<rparr>) else p1)"

section \<open>The stdout of Claude\<close>

definition emit_claude_stdout :: "string \<Rightarrow> pipe_run \<Rightarrow> pipe_run" where
  "emit_claude_stdout t p =
     pr_emit (Emit_Chat_Delta t) (pr_emit (Emit_Run_Event ''stdout'' t)
       (pr_emit (Append_Event EvStdout (ui_chat ''text'' t))
         (p\<lparr>pr_assistant := pr_assistant p @ t\<rparr>)))"

definition decode_utf8_chunk :: "string \<Rightarrow> string \<Rightarrow> string \<times> string" where
  "decode_utf8_chunk leftover chunk =
     (let combined = leftover @ chunk; n = valid_up_to combined in
      if utf8_valid combined then (combined, [])
      else if cut_off (drop n combined) then (take n combined, drop n combined)
      else (utf8_lossy combined, []))"

definition claude_chunk :: "string \<Rightarrow> pipe_run \<Rightarrow> pipe_run" where
  "claude_chunk chunk p =
     (case decode_utf8_chunk (pr_leftover p) chunk of
        (t, leftover) \<Rightarrow>
          (let p1 = p\<lparr>pr_leftover := leftover\<rparr> in
           if t = [] then p1 else emit_claude_stdout t p1))"

text \<open>The end of the stream; a read error ends the task without flushing the rest.\<close>

definition stdout_eof :: "pipe_run \<Rightarrow> pipe_run" where
  "stdout_eof p =
     (let p1 = (if \<not> pr_is_codex p \<and> pr_leftover p \<noteq> []
                then emit_claude_stdout (utf8_lossy (pr_leftover p)) (p\<lparr>pr_leftover := []\<rparr>) else p) in
      p1\<lparr>pr_stdout_open := False\<rparr>)"

definition stdout_error :: "pipe_run \<Rightarrow> pipe_run" where
  "stdout_error p = p\<lparr>pr_stdout_open := False\<rparr>"

section \<open>Stderr\<close>

definition is_benign_codex_stderr :: "string \<Rightarrow> bool" where
  "is_benign_codex_stderr line =
     (trim line = [] \<or> trim line = ''Reading additional input from stdin...'')"

definition stderr_line :: "string \<Rightarrow> pipe_run \<Rightarrow> pipe_run" where
  "stderr_line line p =
     (let p1 = pr_emit (Emit_Run_Event ''stderr'' line)
                 (pr_emit (Append_Event EvStderr (ui_chat ''text'' line)) p) in
      if pr_is_codex p \<and> is_benign_codex_stderr line then p1
      else emit_bus (CommandOutput (pr_run_id p) (''[stderr] '' @ line)) p1)"

definition stderr_end :: "pipe_run \<Rightarrow> pipe_run" where
  "stderr_end p = p\<lparr>pr_stderr_open := False\<rparr>"

section \<open>Stop and end\<close>

definition stop_process :: "pipe_run \<Rightarrow> bool \<times> pipe_run" where
  "stop_process p =
     (if pr_child p then (True, pr_emit Stop_Kill (p\<lparr>pr_child := False\<rparr>)) else (False, p))"

text \<open>\<open>code\<close>: what waiting for the child gives, \<open>None\<close> for a signal or an error.\<close>

definition pipe_exit_code :: "int option \<Rightarrow> pipe_run \<Rightarrow> int" where
  "pipe_exit_code code p =
     (if pr_child p then unwrap_or code 1 else if pr_timed_out p then -2 else -1)"

definition timeout_msg :: string where
  "timeout_msg = ''Codex timed out: no output for '' @ show_nat CODEX_IDLE_TIMEOUT @ ''s''"

definition exit_message :: "int \<Rightarrow> string" where
  "exit_message code = ''Exit code '' @ show_int code"

definition final_status :: "int \<Rightarrow> run_status \<times> int option \<times> string option" where
  "final_status code =
     (if code = 0 then (Completed, Some 0, None)
      else if code = -1 then (Stopped, None, Some ''Stopped by user'')
      else if code = -2 then (Failed, None, Some timeout_msg)
      else (Failed, Some code, Some (exit_message code)))"

definition final_state :: "bool \<Rightarrow> int \<Rightarrow> string" where
  "final_state has_ref code =
     (if code = 0 then if has_ref then ''idle'' else ''completed''
      else if code = -1 then ''stopped'' else ''failed'')"

definition final_error :: "int \<Rightarrow> string option" where
  "final_error code =
     (if code = -2 then Some timeout_msg
      else if code \<noteq> 0 \<and> code \<noteq> -1 then Some (exit_message code) else None)"

definition finish_agent :: "int option \<Rightarrow> save_env \<Rightarrow> string \<Rightarrow> pipe_run \<Rightarrow> pipe_run" where
  "finish_agent waited se now p =
     (let code = pipe_exit_code waited p;
          answer = trim (pr_assistant p);
          p1 = p\<lparr>pr_child := False, pr_ended := True\<rparr>;
          p2 = (if answer = [] then p1
                else pr_emit (Append_Event EvAssistant (ui_chat ''text'' answer)) p1);
          p3 = (case final_status code of (status, c, err) \<Rightarrow>
                  p2\<lparr>pr_store := snd (update_status se now (pr_run_id p) status c err (pr_store p2))\<rparr>);
          has_ref = (pr_is_codex p \<and>
                     (case get_run (pr_store p3) (pr_run_id p) of
                        None \<Rightarrow> False | Some m \<Rightarrow> m_conversation_ref m \<noteq> None));
          p4 = emit_bus (RunState (pr_run_id p) (final_state has_ref code) (Some code)
                           (final_error code)) p3;
          p5 = pr_emit (Append_Event EvSystem
                 (ui_chat ''message'' (''Process exited with code '' @ show_int code))) p4
      in pr_emit (Emit_Chat_Done (code = 0) code) p5)"

section \<open>The tasks interleaved\<close>

datatype pipe_input =
    Out_Line string save_env
  | Out_Chunk string
  | Out_Idle
  | Out_Eof
  | Out_Error
  | Err_Line string
  | Err_End
  | Stop_Run
  | Waited "int option" save_env string

inductive pipe_step ::
  "(string \<Rightarrow> json option) \<Rightarrow> pipe_input \<Rightarrow> pipe_run \<Rightarrow> pipe_run \<Rightarrow> bool" for parse where
  out_line: "pr_stdout_open p \<Longrightarrow> pr_is_codex p \<Longrightarrow>
    pipe_step parse (Out_Line line se) p (pipe_codex_line parse se line p)"
| out_chunk: "pr_stdout_open p \<Longrightarrow> \<not> pr_is_codex p \<Longrightarrow> chunk \<noteq> [] \<Longrightarrow>
    pipe_step parse (Out_Chunk chunk) p (claude_chunk chunk p)"
| out_idle: "pr_stdout_open p \<Longrightarrow> pr_is_codex p \<Longrightarrow> pipe_step parse Out_Idle p (codex_idle p)"
| out_eof: "pr_stdout_open p \<Longrightarrow> pipe_step parse Out_Eof p (stdout_eof p)"
| out_error: "pr_stdout_open p \<Longrightarrow> pipe_step parse Out_Error p (stdout_error p)"
| err_line: "pr_stderr_open p \<Longrightarrow> pipe_step parse (Err_Line line) p (stderr_line line p)"
| err_end: "pr_stderr_open p \<Longrightarrow> pipe_step parse Err_End p (stderr_end p)"
| stop: "pipe_step parse Stop_Run p (snd (stop_process p))"
| ended: "\<not> pr_stdout_open p \<Longrightarrow> \<not> pr_stderr_open p \<Longrightarrow> \<not> pr_ended p \<Longrightarrow>
    pipe_step parse (Waited waited se now) p (finish_agent waited se now p)"

inductive_cases pipe_stepE: "pipe_step parse i p q"

end
