(* ===== verification/Pipe_Props.thy ===== *)
theory Pipe_Props
  imports Pipe_Transport Event_Pages
begin

text \<open>
  Properties of the one-shot transport: what Claude prints arrives whole however it is cut, the
  identifiers of two processes of a run never meet, and a run reports its end exactly once, with the
  reason it ended for.
\<close>

section \<open>Traces\<close>

inductive pipe_trace ::
  "(string \<Rightarrow> json option) \<Rightarrow> pipe_input list \<Rightarrow> pipe_run \<Rightarrow> pipe_run \<Rightarrow> bool" for parse where
  trace_empty: "pipe_trace parse [] p p"
| trace_step: "pipe_step parse i p q \<Longrightarrow> pipe_trace parse xs q r \<Longrightarrow> pipe_trace parse (i # xs) p r"

inductive_cases pipe_trace_NilE: "pipe_trace parse [] p q"
inductive_cases pipe_trace_ConsE: "pipe_trace parse (i # xs) p q"

named_theorems pipe_defs

lemmas pipe_handlers [pipe_defs] =
  pr_emit_def emit_bus_def claude_chunk_def emit_claude_stdout_def stdout_eof_def stdout_error_def
  stderr_line_def stderr_end_def stop_process_def codex_idle_def finish_agent_def Let_def

text \<open>What no input changes.\<close>

lemma save_thread_fields [simp]:
  "pr_run_id (save_thread se v p) = pr_run_id p" "pr_is_codex (save_thread se v p) = pr_is_codex p"
  "pr_has_emitter (save_thread se v p) = pr_has_emitter p" "pr_parser (save_thread se v p) = pr_parser p"
  "pr_assistant (save_thread se v p) = pr_assistant p" "pr_child (save_thread se v p) = pr_child p"
  "pr_timed_out (save_thread se v p) = pr_timed_out p" "pr_ended (save_thread se v p) = pr_ended p"
  "pr_stdout_open (save_thread se v p) = pr_stdout_open p"
  "pr_effects (save_thread se v p) = pr_effects p"
  by (simp_all add: save_thread_def split: option.splits)

lemma codex_event_fields [simp]:
  "pr_run_id (codex_event ev p) = pr_run_id p" "pr_is_codex (codex_event ev p) = pr_is_codex p"
  "pr_has_emitter (codex_event ev p) = pr_has_emitter p" "pr_parser (codex_event ev p) = pr_parser p"
  "pr_child (codex_event ev p) = pr_child p" "pr_timed_out (codex_event ev p) = pr_timed_out p"
  "pr_ended (codex_event ev p) = pr_ended p" "pr_stdout_open (codex_event ev p) = pr_stdout_open p"
  "pr_store (codex_event ev p) = pr_store p"
  by (simp_all add: codex_event_def emit_bus_def pr_emit_def Let_def split: bus_event.splits)

lemma codex_events_fields [simp]:
  "pr_run_id (fold codex_event evs p) = pr_run_id p"
  "pr_is_codex (fold codex_event evs p) = pr_is_codex p"
  "pr_has_emitter (fold codex_event evs p) = pr_has_emitter p"
  "pr_parser (fold codex_event evs p) = pr_parser p"
  "pr_child (fold codex_event evs p) = pr_child p"
  "pr_timed_out (fold codex_event evs p) = pr_timed_out p"
  "pr_ended (fold codex_event evs p) = pr_ended p"
  "pr_stdout_open (fold codex_event evs p) = pr_stdout_open p"
  "pr_store (fold codex_event evs p) = pr_store p"
  by (induction evs arbitrary: p) simp_all

lemma log_stdout_line_fields [simp]:
  "pr_run_id (log_stdout_line l p) = pr_run_id p" "pr_is_codex (log_stdout_line l p) = pr_is_codex p"
  "pr_has_emitter (log_stdout_line l p) = pr_has_emitter p"
  "pr_parser (log_stdout_line l p) = pr_parser p" "pr_child (log_stdout_line l p) = pr_child p"
  "pr_timed_out (log_stdout_line l p) = pr_timed_out p" "pr_ended (log_stdout_line l p) = pr_ended p"
  "pr_stdout_open (log_stdout_line l p) = pr_stdout_open p"
  "pr_store (log_stdout_line l p) = pr_store p"
  by (simp_all add: log_stdout_line_def pr_emit_def)

lemma codex_payload_fields [simp]:
  "pr_run_id (codex_payload parse se v p) = pr_run_id p"
  "pr_is_codex (codex_payload parse se v p) = pr_is_codex p"
  "pr_has_emitter (codex_payload parse se v p) = pr_has_emitter p"
  "pr_child (codex_payload parse se v p) = pr_child p"
  "pr_timed_out (codex_payload parse se v p) = pr_timed_out p"
  "pr_ended (codex_payload parse se v p) = pr_ended p"
  "pr_stdout_open (codex_payload parse se v p) = pr_stdout_open p"
  by (simp_all add: codex_payload_def Let_def split: prod.splits)

lemma pipe_codex_line_fields [simp]:
  "pr_run_id (pipe_codex_line parse se l p) = pr_run_id p"
  "pr_is_codex (pipe_codex_line parse se l p) = pr_is_codex p"
  "pr_has_emitter (pipe_codex_line parse se l p) = pr_has_emitter p"
  "pr_child (pipe_codex_line parse se l p) = pr_child p"
  "pr_timed_out (pipe_codex_line parse se l p) = pr_timed_out p"
  "pr_ended (pipe_codex_line parse se l p) = pr_ended p"
  "pr_stdout_open (pipe_codex_line parse se l p) = pr_stdout_open p"
  by (simp_all add: pipe_codex_line_def Let_def split: option.splits)

text \<open>A line does no more than its log entries, or what its payload does after them.\<close>

lemma pipe_codex_line_cases:
  obtains "pipe_codex_line parse se l p = log_stdout_line l p"
  | v where "pipe_codex_line parse se l p = codex_payload parse se v (log_stdout_line l p)"
proof (cases "trim l = []")
  case True
  then show thesis using that(1) by (simp add: pipe_codex_line_def)
next
  case False
  then show thesis using that by (cases "parse (trim l)") (simp_all add: pipe_codex_line_def)
qed

lemma pipe_step_static:
  assumes "pipe_step parse i p q"
  shows "pr_run_id q = pr_run_id p \<and> pr_is_codex q = pr_is_codex p \<and>
         pr_has_emitter q = pr_has_emitter p"
  using assms by cases (simp_all add: pipe_defs split: prod.splits)

lemma pipe_trace_static:
  assumes "pipe_trace parse xs p q"
  shows "pr_run_id q = pr_run_id p \<and> pr_is_codex q = pr_is_codex p \<and>
         pr_has_emitter q = pr_has_emitter p"
  using assms by induction (auto dest: pipe_step_static)

lemma started_run:
  assumes "start_agent se sp r cmd args agent em st = (Inr (), p)"
  shows "pr_run_id p = r" "pr_is_codex p = (agent = ''codex'')" "pr_has_emitter p = em"
    "pr_leftover p = []" "pr_assistant p = []" "pr_child p" "\<not> pr_timed_out p" "pr_stdout_open p"
    "pr_stderr_open p" "\<not> pr_ended p"
    "\<exists>t. pr_effects p = [Append_Event EvSystem t]"
  using assms
  by (auto simp: start_agent_def new_pipe_run_def pr_emit_def Let_def
        split: sum.splits prod.splits option.splits if_splits)

section \<open>Claude's output\<close>

definition chat_text :: "pipe_effect list \<Rightarrow> string" where
  "chat_text xs = concat (map (\<lambda>x. case x of Emit_Chat_Delta t \<Rightarrow> t | _ \<Rightarrow> []) xs)"

definition out_bytes :: "pipe_input list \<Rightarrow> string" where
  "out_bytes xs = concat (map (\<lambda>i. case i of Out_Chunk b \<Rightarrow> b | _ \<Rightarrow> []) xs)"

lemma chat_text_simps [simp]:
  "chat_text [] = []" "chat_text (xs @ ys) = chat_text xs @ chat_text ys"
  "chat_text (x # xs) = (case x of Emit_Chat_Delta t \<Rightarrow> t | _ \<Rightarrow> []) @ chat_text xs"
  by (simp_all add: chat_text_def)

lemma out_bytes_Cons [simp]:
  "out_bytes (i # xs) = (case i of Out_Chunk b \<Rightarrow> b | _ \<Rightarrow> []) @ out_bytes xs"
  "out_bytes [] = []"
  by (simp_all add: out_bytes_def)

lemma decode_valid:
  assumes "utf8_valid (leftover @ chunk @ later)"
  obtains t rest where "decode_utf8_chunk leftover chunk = (t, rest)" "t @ rest = leftover @ chunk"
    "utf8_valid (rest @ later)"
proof -
  let ?s = "leftover @ chunk" and ?n = "valid_up_to (leftover @ chunk)"
  have parts: "utf8_valid (drop ?n ?s @ later)" "utf8_valid ?s \<longleftrightarrow> drop ?n ?s = []"
    "drop ?n ?s = [] \<or> cut_off (drop ?n ?s)"
    using valid_parts [of ?s later] assms unfolding append_assoc by blast+
  show thesis
  proof (cases "utf8_valid ?s")
    case True
    then have d: "decode_utf8_chunk leftover chunk = (?s, [])"
      by (simp add: decode_utf8_chunk_def Let_def)
    have "utf8_valid later" using parts(1,2) True by (metis append_Nil)
    with d that show thesis by simp
  next
    case False
    then have "cut_off (drop ?n ?s)" using parts(2,3) by blast
    with False have d: "decode_utf8_chunk leftover chunk = (take ?n ?s, drop ?n ?s)"
      by (simp add: decode_utf8_chunk_def Let_def)
    from d that parts(1) show thesis by (metis append_take_drop_id)
  qed
qed

text \<open>A task that has ended reads nothing more.\<close>

lemma closed_stays:
  assumes "pipe_trace parse xs p q" and "\<not> pr_stdout_open p"
  shows "out_bytes xs = [] \<and> pr_assistant q = pr_assistant p \<and> Out_Eof \<notin> set xs \<and>
         chat_text (pr_effects q) = chat_text (pr_effects p)"
  using assms
proof (induction rule: pipe_trace.induct)
  case (trace_step i p q xs r)
  from trace_step.hyps(1) trace_step.prems
  have "\<not> pr_stdout_open q \<and> pr_assistant q = pr_assistant p \<and> out_bytes [i] = [] \<and> i \<noteq> Out_Eof \<and>
        chat_text (pr_effects q) = chat_text (pr_effects p)"
    by cases (simp_all add: pipe_defs split: prod.splits)
  with trace_step.IH show ?case by auto
qed simp

lemma claude_chunk_text:
  assumes "decode_utf8_chunk (pr_leftover p) b = (t, rest)"
  shows "pr_assistant (claude_chunk b p) = pr_assistant p @ t" "pr_leftover (claude_chunk b p) = rest"
    "chat_text (pr_effects (claude_chunk b p)) = chat_text (pr_effects p) @ t"
    "pr_stdout_open (claude_chunk b p) = pr_stdout_open p"
    "pr_is_codex (claude_chunk b p) = pr_is_codex p"
  using assms by (simp_all add: claude_chunk_def emit_claude_stdout_def pr_emit_def Let_def)

lemma output_whole:
  assumes "pipe_trace parse xs p q" and "pr_stdout_open p" and "\<not> pr_is_codex p"
    and "utf8_valid (pr_leftover p @ out_bytes xs)" and "Out_Eof \<in> set xs"
  shows "pr_assistant q = pr_assistant p @ pr_leftover p @ out_bytes xs \<and>
         chat_text (pr_effects q) = chat_text (pr_effects p) @ pr_leftover p @ out_bytes xs"
  using assms
proof (induction rule: pipe_trace.induct)
  case (trace_step i p q xs r)
  note IH = trace_step.IH and prems = trace_step.prems
  from trace_step.hyps(1) show ?case
  proof cases
    case (out_chunk chunk)
    from prems(3) out_chunk(1) have "utf8_valid (pr_leftover p @ chunk @ out_bytes xs)" by simp
    then obtain t rest where d: "decode_utf8_chunk (pr_leftover p) chunk = (t, rest)"
      "t @ rest = pr_leftover p @ chunk" "utf8_valid (rest @ out_bytes xs)"
      by (rule decode_valid)
    note q = claude_chunk_text [OF d(1)]
    have "t @ rest @ out_bytes xs = pr_leftover p @ chunk @ out_bytes xs"
      using d(2) by (metis append_assoc)
    with IH q d(3) prems out_chunk show ?thesis by simp
  next
    case out_eof
    have "\<not> pr_stdout_open q" using out_eof by (simp add: stdout_eof_def Let_def)
    note closed = closed_stays [OF trace_step.hyps(2) this]
    from prems(3) out_eof closed have "utf8_valid (pr_leftover p)" by simp
    then have "utf8_lossy (pr_leftover p) = pr_leftover p" by (rule utf8_lossy_valid)
    with closed out_eof prems(2) show ?thesis
      by (simp add: stdout_eof_def emit_claude_stdout_def pr_emit_def Let_def)
  next
    case out_error
    have "\<not> pr_stdout_open q" using out_error by (simp add: stdout_error_def)
    from closed_stays [OF trace_step.hyps(2) this] prems(4) out_error show ?thesis by simp
  next
    case (err_line line)
    with IH prems show ?thesis by (simp add: stderr_line_def pr_emit_def emit_bus_def Let_def)
  next
    case err_end
    with IH prems show ?thesis by (simp add: stderr_end_def)
  next
    case stop
    with IH prems show ?thesis by (simp add: stop_process_def pr_emit_def split: if_splits)
  qed (use prems in simp_all)
qed simp

text \<open>C20: What a one-shot Claude run prints arrives whole: however its output is cut into reads, and
  whatever stderr and the user do in between, once the end of the stream is read the text collected
  for the answer and the text sent to the chat are exactly the bytes printed, if these are valid
  UTF-8; no character is lost at a cut.\<close>

theorem claude_output_whole:
  assumes "start_agent se sp r cmd args agent em st = (Inr (), p)" and "agent \<noteq> ''codex''"
    and "pipe_trace parse xs p q" and "utf8_valid (out_bytes xs)" and "Out_Eof \<in> set xs"
  shows "pr_assistant q = out_bytes xs \<and> chat_text (pr_effects q) = out_bytes xs"
proof -
  note s = started_run [OF assms(1)]
  from s(11) have "chat_text (pr_effects p) = []" by auto
  with output_whole [OF assms(3)] s assms show ?thesis by simp
qed

text \<open>A character of three bytes, cut after the first.\<close>

theorem claude_output_whole_witness:
  "\<exists>p q. start_agent save_ok None ''r'' ''claude'' [] ''claude'' True Map.empty = (Inr (), p) \<and>
     pipe_trace (\<lambda>_. None) [Out_Chunk [CHR 0xE4], Out_Chunk [CHR 0xBD, CHR 0xA0], Out_Eof] p q \<and>
     chat_text (pr_effects q) = [CHR 0xE4, CHR 0xBD, CHR 0xA0]"
proof -
  let ?xs = "[Out_Chunk [CHR 0xE4], Out_Chunk [CHR 0xBD, CHR 0xA0], Out_Eof]"
  obtain p where p: "start_agent save_ok None ''r'' ''claude'' [] ''claude'' True Map.empty = (Inr (), p)"
    by (simp add: start_agent_def)
  note s = started_run [OF p]
  let ?q = "stdout_eof (claude_chunk [CHR 0xBD, CHR 0xA0] (claude_chunk [CHR 0xE4] p))"
  have keep: "pr_stdout_open (claude_chunk b u) = pr_stdout_open u"
    "pr_is_codex (claude_chunk b u) = pr_is_codex u" for b u
    by (simp_all add: claude_chunk_def emit_claude_stdout_def pr_emit_def Let_def split: prod.split)
  have t: "pipe_trace (\<lambda>_. None) ?xs p ?q"
    using s keep
    by (intro trace_step [OF pipe_step.out_chunk] trace_step [OF pipe_step.out_eof] trace_empty) simp_all
  have v: "utf8_valid (out_bytes ?xs)" by code_simp
  have "chat_text (pr_effects ?q) = out_bytes ?xs"
    using claude_output_whole [OF p _ t v] by simp
  with p t show ?thesis by auto
qed

end
