(* ===== verification/Pipe_Runs.thy ===== *)
theory Pipe_Runs
  imports Pipe_Props Store_Props
begin

text \<open>
  A one-shot run together with the metadata store: the number of its process in the store scopes the
  identifiers it emits, and its end is reported once.
\<close>

section \<open>Identifiers\<close>

fun event_key :: "bus_event \<Rightarrow> string option" where
  "event_key (MessageComplete _ i _ _ _ _ _) = Some i"
| "event_key (ToolStart _ i _ _ _) = Some i"
| "event_key (ToolEnd _ i _ _ _ _ _ _) = Some i"
| "event_key _ = None"

definition run_keys :: "pipe_run \<Rightarrow> string set" where
  "run_keys p = {i. \<exists>ev. Persist_And_Emit ev \<in> set (pr_effects p) \<and> event_key ev = Some i}"

definition of_process :: "32 word \<Rightarrow> string \<Rightarrow> bool" where
  "of_process n i = (\<exists>x. i = ''codex-'' @ show_nat (unat n) @ CHR ''-'' # x)"

lemma of_process_unique: "of_process m i \<Longrightarrow> of_process n i \<Longrightarrow> m = n"
  by (auto simp: of_process_def is_ascii_digit_def byte_def word_unat_eq_iff dest!: show_nat_split)

lemma scoped_of_process [simp]: "of_process (px_process_seq p) (scoped_id p i)"
  by (simp add: of_process_def scoped_id_def)

lemma scoped_id_inj:
  assumes "scoped_id p i = scoped_id q j"
  shows "px_process_seq p = px_process_seq q \<and> px_turn_counter p = px_turn_counter q \<and> i = j"
proof -
  have dash: "\<not> is_ascii_digit (CHR ''-'')" by (simp add: is_ascii_digit_def byte_def)
  from assms have "show_nat (unat (px_process_seq p)) @ CHR ''-'' # show_nat (unat (px_turn_counter p)) @ CHR ''-'' # i
      = show_nat (unat (px_process_seq q)) @ CHR ''-'' # show_nat (unat (px_turn_counter q)) @ CHR ''-'' # j"
    by (simp add: scoped_id_def)
  from show_nat_split [OF this dash]
  have 1: "unat (px_process_seq p) = unat (px_process_seq q)"
    and 2: "show_nat (unat (px_turn_counter p)) @ CHR ''-'' # i
      = show_nat (unat (px_turn_counter q)) @ CHR ''-'' # j"
    by blast+
  from 1 show_nat_split [OF 2 dash] show ?thesis by (simp add: word_unat_eq_iff)
qed

text \<open>Every event of a line that has an identifier has one of the parser's process.\<close>

definition keys_ok :: "codex_stdout_parser \<Rightarrow> bus_event list \<Rightarrow> bool" where
  "keys_ok p evs = (\<forall>ev\<in>set evs. \<forall>i. event_key ev = Some i \<longrightarrow> of_process (px_process_seq p) i)"

lemma keys_ok_simps [simp]:
  "keys_ok p []"
  "keys_ok p (ev # evs) \<longleftrightarrow>
     (\<forall>i. event_key ev = Some i \<longrightarrow> of_process (px_process_seq p) i) \<and> keys_ok p evs"
  by (auto simp: keys_ok_def)

lemma map_keys_ok:
  "keys_ok p (map_todo_list r item p)"
  "keys_ok p (map_item_started r raw p)"
  "keys_ok p (map_item_updated r raw p)"
  "keys_ok p (map_turn_completed r raw p)"
  "keys_ok p (map_turn_failed parse r raw)"
  "keys_ok p (map_error parse r raw)"
proof -
  show todo: "keys_ok p (map_todo_list r item p)" for item by (simp add: map_todo_list_def Let_def)
  then show "keys_ok p (map_item_updated r raw p)" by (simp add: map_item_updated_def split: option.split)
  show "keys_ok p (map_item_started r raw p)"
    by (simp add: map_item_started_def split: option.split prod.split)
qed (simp_all add: map_turn_completed_def map_turn_failed_def map_error_def Let_def split: option.split)

lemma map_item_completed_keys_ok: "keys_ok p (map_item_completed r raw p)"
  using map_keys_ok(1) by (simp add: map_item_completed_def Let_def split: option.split)

lemma pipe_parse_line_keys:
  assumes "pipe_parse_line parse r raw p = (p', evs)"
  shows "keys_ok p evs \<and> px_process_seq p' = px_process_seq p"
  using assms map_keys_ok map_item_completed_keys_ok
  by (auto simp: pipe_parse_line_def Let_def split: if_splits)

definition keyed_run :: "32 word \<Rightarrow> pipe_run \<Rightarrow> bool" where
  "keyed_run n p = (px_process_seq (pr_parser p) = n \<and> (\<forall>i\<in>run_keys p. of_process n i))"

lemma run_keys_more:
  "pr_effects q = pr_effects p @ xs \<Longrightarrow>
     run_keys q = run_keys p \<union> {i. \<exists>ev. Persist_And_Emit ev \<in> set xs \<and> event_key ev = Some i}"
  by (auto simp: run_keys_def)

lemma codex_event_keys:
  "run_keys (codex_event ev p) \<subseteq> run_keys p \<union> {i. event_key ev = Some i}"
  by (auto simp: codex_event_def emit_bus_def pr_emit_def run_keys_def Let_def split: bus_event.splits if_splits)

lemma codex_events_keyed:
  assumes "keyed_run n p" and "\<forall>ev\<in>set evs. \<forall>i. event_key ev = Some i \<longrightarrow> of_process n i"
  shows "keyed_run n (fold codex_event evs p)"
  using assms
proof (induction evs arbitrary: p)
  case (Cons ev evs)
  have "keyed_run n (codex_event ev p)"
    using Cons.prems codex_event_keys [of ev p] by (fastforce simp: keyed_run_def)
  with Cons show ?case by simp
qed simp

lemma codex_payload_keyed:
  assumes "keyed_run n p"
  shows "keyed_run n (codex_payload parse se v p)"
proof -
  define p1 where "p1 = (if str_or v ''type'' [] = ''thread.started'' then save_thread se v p else p)"
  have p1: "keyed_run n p1" using assms by (simp add: p1_def keyed_run_def run_keys_def)
  obtain ps evs where ps: "pipe_parse_line parse (pr_run_id p1) v (pr_parser p1) = (ps, evs)"
    by (cases "pipe_parse_line parse (pr_run_id p1) v (pr_parser p1)")
  have "codex_payload parse se v p = fold codex_event evs (p1\<lparr>pr_parser := ps\<rparr>)"
    unfolding codex_payload_def Let_def p1_def [symmetric] ps by simp
  moreover have "keyed_run n (p1\<lparr>pr_parser := ps\<rparr>)"
    "\<forall>ev\<in>set evs. \<forall>i. event_key ev = Some i \<longrightarrow> of_process n i"
    using pipe_parse_line_keys [OF ps] p1 by (auto simp: keyed_run_def run_keys_def keys_ok_def)
  ultimately show ?thesis using codex_events_keyed by metis
qed

lemma log_stdout_line_keyed: "keyed_run n p \<Longrightarrow> keyed_run n (log_stdout_line l p)"
  by (simp add: keyed_run_def run_keys_def log_stdout_line_def pr_emit_def)

lemma pipe_codex_line_keyed: "keyed_run n p \<Longrightarrow> keyed_run n (pipe_codex_line parse se l p)"
  by (rule pipe_codex_line_cases [of parse se l p])
     (simp_all add: codex_payload_keyed log_stdout_line_keyed)

lemma pipe_step_keyed:
  assumes "keyed_run n p" and "pipe_step parse i p q"
  shows "keyed_run n q"
  using assms(2)
proof cases
  case (out_line line se)
  with assms(1) show ?thesis by (simp add: pipe_codex_line_keyed)
qed (use assms(1) in \<open>auto simp: keyed_run_def run_keys_def pipe_defs split: prod.splits if_splits\<close>)

section \<open>The store\<close>

text \<open>An input changes at most the run's own record, and not its identity or process number.\<close>

definition harmless :: "(run_meta \<Rightarrow> run_meta) \<Rightarrow> bool" where
  "harmless f = (keeps_identity f \<and> (\<forall>m. m_codex_process_seq (f m) = m_codex_process_seq m))"

definition touches :: "string \<Rightarrow> meta_store \<Rightarrow> meta_store \<Rightarrow> bool" where
  "touches r st st' = (st' = st \<or> (\<exists>se f. harmless f \<and> st' = snd (with_meta se r f st)))"

lemma touches_refl [simp]: "touches r st st"
  by (simp add: touches_def)

lemma harmless_status [simp]: "harmless (status_update now s c e)"
  by (simp add: harmless_def keeps_identity_def status_update_def Let_def)

lemma save_thread_touches: "touches (pr_run_id p) (pr_store p) (pr_store (save_thread se v p))"
proof (cases "get_str v ''thread_id''")
  case (Some t)
  have "harmless (\<lambda>m. m\<lparr>m_conversation_ref := Some (CodexThread t)\<rparr>)"
    by (simp add: harmless_def keeps_identity_def)
  then show ?thesis using Some by (auto simp: save_thread_def touches_def)
qed (simp add: save_thread_def)

lemma codex_payload_touches:
  "touches (pr_run_id p) (pr_store p) (pr_store (codex_payload parse se v p))"
  using save_thread_touches [of p se v] by (simp add: codex_payload_def Let_def split: prod.split)

lemma pipe_step_touches:
  assumes "pipe_step parse i p q"
  shows "touches (pr_run_id p) (pr_store p) (pr_store q)"
  using assms
proof cases
  case (out_line line se)
  then show ?thesis
    using codex_payload_touches [of "log_stdout_line line p" parse se]
    by (cases rule: pipe_codex_line_cases [of parse se line p]) simp_all
next
  case (ended waited se now)
  then show ?thesis
    by (auto simp: touches_def pipe_defs update_status_def split: prod.splits intro: harmless_status)
qed (simp_all add: pipe_defs split: prod.splits)

definition run_seq :: "meta_store \<Rightarrow> string \<Rightarrow> nat option" where
  "run_seq st r = Option.bind (get_run st r) m_codex_process_seq"

lemma touches_keeps:
  assumes "touches r st st'" and "store_ok st"
  shows "store_ok st' \<and> run_seq st' r = run_seq st r \<and> (get_run st' r = None) = (get_run st r = None)"
proof (cases "st' = st")
  case False
  then obtain se f where f: "harmless f" "st' = snd (with_meta se r f st)"
    using assms(1) by (auto simp: touches_def)
  then have k: "keeps_identity f" by (simp add: harmless_def)
  have "store_ok st'" "(get_run st' r = None) = (get_run st r = None)"
    using metas.put_keeps_ok [OF assms(2) k] metas.put_domain [OF assms(2) k] f(2) by simp_all
  moreover have "run_seq st' r = run_seq st r"
    using metas.put_cases [OF assms(2) k, of se r] f
    by (cases "get_run st r"; cases "fst (with_meta se r f st)")
       (simp_all add: run_seq_def harmless_def)
  ultimately show ?thesis by simp
qed (use assms in simp)

lemma pipe_trace_store:
  assumes "pipe_trace parse xs p q" and "store_ok (pr_store p)"
  shows "store_ok (pr_store q) \<and> run_seq (pr_store q) (pr_run_id p) = run_seq (pr_store p) (pr_run_id p)
    \<and> (get_run (pr_store q) (pr_run_id p) = None) = (get_run (pr_store p) (pr_run_id p) = None)"
  using assms
proof (induction rule: pipe_trace.induct)
  case (trace_step i p q xs r)
  from trace_step.hyps(1) have "pr_run_id q = pr_run_id p" by (simp add: pipe_step_static)
  with touches_keeps [OF pipe_step_touches [OF trace_step.hyps(1)]] trace_step show ?case by simp
qed simp

lemma pipe_trace_keyed: "pipe_trace parse xs p q \<Longrightarrow> keyed_run n p \<Longrightarrow> keyed_run n q"
  by (induction rule: pipe_trace.induct) (auto intro: pipe_step_keyed)

section \<open>Processes of one run\<close>

lemma next_seq:
  assumes "next_codex_process_seq se r st = (Inr n, st')" and "store_ok st"
  shows "store_ok st' \<and> run_seq st' r = Some n \<and> n = Suc (unwrap_or (run_seq st r) 0)"
proof -
  let ?f = "\<lambda>m. m\<lparr>m_codex_process_seq := Some (Suc (unwrap_or (m_codex_process_seq m) 0))\<rparr>"
  have k: "keeps_identity ?f" by (simp add: keeps_identity_def)
  from assms(1) obtain u where w: "with_meta se r ?f st = (Inr u, st')"
    and n: "n = (case get_run st r of None \<Rightarrow> 0 | Some m \<Rightarrow> Suc (unwrap_or (m_codex_process_seq m) 0))"
    by (auto simp: next_codex_process_seq_def Let_def split: prod.splits sum.splits)
  from w metas.put_done [OF assms(2) k, of se r st'] obtain m
    where "get_run st r = Some m" "get_run st' r = Some (?f m)" by auto
  with n w metas.put_keeps_ok [OF assms(2) k, of se r] show ?thesis by (simp add: run_seq_def)
qed

lemma started_process:
  assumes "start_agent se sp r cmd args ''codex'' True st = (Inr (), p)" and "store_ok st"
  obtains n where "keyed_run (of_nat n) p" "store_ok (pr_store p)" "run_seq (pr_store p) r = Some n"
    "n = Suc (unwrap_or (run_seq st r) 0)"
proof -
  from assms(1) obtain n st' where n: "next_codex_process_seq se r st = (Inr n, st')"
    by (auto simp: start_agent_def split: prod.splits sum.splits)
  have "keyed_run (of_nat n) p" "pr_store p = st'"
    using assms(1) n
    by (auto simp: start_agent_def new_pipe_run_def new_codex_stdout_parser_def pr_emit_def
          keyed_run_def run_keys_def Let_def split: option.splits)
  with next_seq [OF n assms(2)] that show thesis by metis
qed

text \<open>C19: No identifier is used by two processes of a run: when a Codex run is resumed by a later
  process, whatever happened to its record in between short of lowering its process number, no
  message or tool event of the new process carries an identifier that the earlier one has emitted,
  although Codex numbers its items from the start in every process (up to 2^32 processes of one
  run).\<close>

theorem resumed_keys_fresh:
  assumes "start_agent se sp r cmd args ''codex'' True st = (Inr (), p)" and "store_ok st"
    and "pipe_trace parse xs p q"
    and "run_seq (pr_store q) r = Some n" and "run_seq st2 r = Some k" and "n \<le> k"
    and "store_ok st2" and "Suc k < 2 ^ 32"
    and "start_agent se2 sp2 r cmd2 args2 ''codex'' True st2 = (Inr (), p2)"
    and "pipe_trace parse2 ys p2 q2"
  shows "run_keys q \<inter> run_keys q2 = {}"
proof -
  obtain a where a: "keyed_run (of_nat a) p" "store_ok (pr_store p)" "run_seq (pr_store p) r = Some a"
    using assms(1,2) by (rule started_process)
  obtain b where b: "keyed_run (of_nat b) p2" "b = Suc (unwrap_or (run_seq st2 r) 0)"
    using assms(9,7) by (rule started_process)
  from started_run(1) [OF assms(1)] pipe_trace_store [OF assms(3) a(2)] a(3) assms(4)
  have "a = n" by simp
  moreover from b(2) assms(5) have "b = Suc k" by simp
  ultimately have "a < b" "b < 2 ^ 32" using assms(6,8) by simp_all
  then have "(of_nat a :: 32 word) \<noteq> of_nat b" by (simp add: word_unat_eq_iff unat_of_nat)
  moreover have "keyed_run (of_nat a) q" "keyed_run (of_nat b) q2"
    using pipe_trace_keyed assms(3,10) a(1) b(1) by blast+
  ultimately show ?thesis unfolding keyed_run_def using of_process_unique by blast
qed

text \<open>A run whose two processes print one message each, both for item 0 of their first turn.\<close>

definition pipe_message :: json where
  "pipe_message = JObj [(''type'', JStr ''item.completed''),
     (''item'', JObj [(''type'', JStr ''agent_message''), (''id'', JStr ''item_0''), (''text'', JStr ''hi'')])]"

definition pipe_start :: "meta_store \<Rightarrow> (string + unit) \<times> pipe_run" where
  "pipe_start st = start_agent save_ok None ''r1'' ''codex'' [] ''codex'' True st"

definition pipe_line :: "pipe_run \<Rightarrow> pipe_run" where
  "pipe_line p = pipe_codex_line (\<lambda>_. Some pipe_message) save_ok ''x'' p"

lemma pipe_process:
  assumes "get_run st ''r1'' = Some m" and "store_ok st"
  obtains p where "pipe_start st = (Inr (), p)"
    "pipe_trace (\<lambda>_. Some pipe_message) [Out_Line ''x'' save_ok] p (pipe_line p)"
    "pr_store (pipe_line p) = st(''r1'' \<mapsto> m\<lparr>m_codex_process_seq := Some (Suc (unwrap_or (m_codex_process_seq m) 0))\<rparr>)"
    "run_keys (pipe_line p) \<noteq> {}"
proof -
  have id: "m_id m = ''r1''" using assms get_run_ok by blast
  obtain p where p: "pipe_start st = (Inr (), p)"
    "pr_store p = st(''r1'' \<mapsto> m\<lparr>m_codex_process_seq := Some (Suc (unwrap_or (m_codex_process_seq m) 0))\<rparr>)"
    using assms(1) id
    by (simp add: pipe_start_def start_agent_def next_codex_process_seq_def with_meta_def save_meta_def
        save_ok_def numeral_3_eq_3 new_pipe_run_def pr_emit_def Let_def)
  note s = started_run [OF p(1) [unfolded pipe_start_def]]
  have trim_x: "trim ''x'' = ''x''" by code_simp
  have line: "pipe_line p = codex_payload (\<lambda>_. Some pipe_message) save_ok pipe_message (log_stdout_line ''x'' p)"
    using trim_x by (simp add: pipe_line_def pipe_codex_line_def)
  show thesis
  proof (rule that [OF p(1)])
    show "pipe_trace (\<lambda>_. Some pipe_message) [Out_Line ''x'' save_ok] p (pipe_line p)"
      unfolding pipe_line_def using s by (auto intro!: trace_step trace_empty pipe_step.out_line)
  next
    show "pr_store (pipe_line p) = st(''r1'' \<mapsto> m\<lparr>m_codex_process_seq := Some (Suc (unwrap_or (m_codex_process_seq m) 0))\<rparr>)"
      using p(2) by (simp add: line codex_payload_def pipe_message_def str_or_def get_str_def Let_def
          split: prod.split)
  next
    show "run_keys (pipe_line p) \<noteq> {}"
      using s by (simp add: line codex_payload_def pipe_message_def pipe_parse_line_def
          map_item_completed_def str_or_def get_str_def codex_event_def emit_bus_def pr_emit_def
          log_stdout_line_def run_keys_def Let_def) auto
  qed
qed

theorem resumed_keys_fresh_witness:
  "\<exists>p q p2 q2. pipe_start example_store = (Inr (), p) \<and> pipe_start (pr_store q) = (Inr (), p2) \<and>
     run_keys q \<noteq> {} \<and> run_keys q2 \<noteq> {} \<and> run_keys q \<inter> run_keys q2 = {}"
proof -
  have g: "get_run example_store ''r1'' = Some (example_meta ''r1'' Running)"
    by (simp add: get_run_def get_run_raw_def example_store_def example_meta_def)
  obtain p where p: "pipe_start example_store = (Inr (), p)"
    "pipe_trace (\<lambda>_. Some pipe_message) [Out_Line ''x'' save_ok] p (pipe_line p)"
    "pr_store (pipe_line p) = example_store(''r1'' \<mapsto> (example_meta ''r1'' Running)\<lparr>m_codex_process_seq := Some 1\<rparr>)"
    "run_keys (pipe_line p) \<noteq> {}"
    by (rule pipe_process [OF g example_store_ok]) (simp add: example_meta_def)
  define q where "q = pipe_line p"
  have ok: "store_ok (pr_store q)"
    using p(3) example_store_ok by (auto simp: q_def store_ok_def example_meta_def)
  have g2: "get_run (pr_store q) ''r1'' = Some ((example_meta ''r1'' Running)\<lparr>m_codex_process_seq := Some 1\<rparr>)"
    using p(3) by (simp add: q_def get_run_def get_run_raw_def example_meta_def)
  obtain p2 where p2: "pipe_start (pr_store q) = (Inr (), p2)"
    "pipe_trace (\<lambda>_. Some pipe_message) [Out_Line ''x'' save_ok] p2 (pipe_line p2)"
    "run_keys (pipe_line p2) \<noteq> {}"
    by (rule pipe_process [OF g2 ok])
  have "run_seq (pr_store q) ''r1'' = Some 1" using g2 by (simp add: run_seq_def)
  from resumed_keys_fresh [OF p(1) [unfolded pipe_start_def] example_store_ok p(2) [folded q_def]
      this this order_refl ok _ p2(1) [unfolded pipe_start_def] p2(2)]
  have "run_keys q \<inter> run_keys (pipe_line p2) = {}" by simp
  with p p2 show ?thesis unfolding q_def by blast
qed

end
