(* ===== verification/Pipe_Report.thy ===== *)
theory Pipe_Report
  imports Pipe_Runs
begin

text \<open>
  The end of a one-shot run: whoever takes the child out of the map of processes decides how the run
  is said to have ended, and it is said once.
\<close>

section \<open>Who took the child\<close>

definition is_kill :: "pipe_effect \<Rightarrow> bool" where
  "is_kill x = (x = Idle_Kill \<or> x = Stop_Kill)"

fun is_report :: "pipe_effect \<Rightarrow> bool" where
  "is_report (Emit_Chat_Done _ _) = True"
| "is_report _ = False"

fun is_waited :: "pipe_input \<Rightarrow> bool" where
  "is_waited (Waited _ _ _) = True"
| "is_waited _ = False"

text \<open>Effects that neither kill nor report.\<close>

definition plain_effects :: "pipe_run \<Rightarrow> pipe_run \<Rightarrow> bool" where
  "plain_effects p q =
     (\<exists>xs. pr_effects q = pr_effects p @ xs \<and> (\<forall>x\<in>set xs. \<not> is_kill x \<and> \<not> is_report x))"

lemma plain_refl [simp]: "plain_effects p p"
  by (simp add: plain_effects_def)

lemma plain_trans: "plain_effects p q \<Longrightarrow> plain_effects q r \<Longrightarrow> plain_effects p r"
  unfolding plain_effects_def by (metis (no_types, lifting) UnE append_assoc set_append)

lemma plain_emit:
  "\<not> is_kill x \<Longrightarrow> \<not> is_report x \<Longrightarrow> plain_effects p q \<Longrightarrow> plain_effects p (pr_emit x q)"
  by (rule plain_trans, assumption) (auto simp: plain_effects_def pr_emit_def)

lemma plain_fields:
  "pr_effects q = pr_effects q' \<Longrightarrow> plain_effects p q \<Longrightarrow> plain_effects p q'"
  by (simp add: plain_effects_def)

lemma plain_bus: "plain_effects p q \<Longrightarrow> plain_effects p (emit_bus ev q)"
  by (simp add: emit_bus_def plain_emit is_kill_def)

lemma plain_codex_event: "plain_effects p q \<Longrightarrow> plain_effects p (codex_event ev q)"
  unfolding codex_event_def Let_def
  by (cases ev) (auto simp: is_kill_def intro!: plain_bus plain_emit intro: plain_fields [OF _ plain_bus])

lemma plain_codex_events: "plain_effects p q \<Longrightarrow> plain_effects p (fold codex_event evs q)"
  by (induction evs arbitrary: q) (simp_all add: plain_codex_event)

lemma plain_log_line: "plain_effects p (log_stdout_line l p)"
  by (simp add: log_stdout_line_def plain_emit is_kill_def)

lemma plain_payload: "plain_effects p (codex_payload parse se v p)"
proof -
  have "plain_effects p (q\<lparr>pr_parser := ps\<rparr>)" if "pr_effects q = pr_effects p" for q ps
    using that by (simp add: plain_effects_def)
  then show ?thesis by (simp add: codex_payload_def plain_codex_events Let_def split: prod.split)
qed

lemma plain_codex_line: "plain_effects p (pipe_codex_line parse se l p)"
  by (rule pipe_codex_line_cases [of parse se l p])
     (metis plain_log_line, metis plain_log_line plain_payload plain_trans)

text \<open>What an input other than the end of the child does to it.\<close>

definition child_after :: "pipe_input \<Rightarrow> pipe_run \<Rightarrow> pipe_run \<Rightarrow> bool" where
  "child_after i p q =
     (pr_child q = (pr_child p \<and> i \<noteq> Stop_Run \<and> i \<noteq> Out_Idle) \<and>
      pr_timed_out q = (pr_timed_out p \<or> i = Out_Idle) \<and> pr_ended q = pr_ended p \<and>
      (\<exists>xs. pr_effects q = pr_effects p @ xs \<and> (\<forall>x\<in>set xs. \<not> is_report x) \<and>
            length (filter is_kill xs) = (if pr_child p \<and> \<not> pr_child q then 1 else 0)))"

lemma plain_child_after:
  assumes "plain_effects p q" and "pr_child q = pr_child p" "pr_timed_out q = pr_timed_out p"
    "pr_ended q = pr_ended p" and "i \<noteq> Stop_Run" "i \<noteq> Out_Idle"
  shows "child_after i p q"
proof -
  from assms(1) obtain xs where xs: "pr_effects q = pr_effects p @ xs"
    "\<forall>x\<in>set xs. \<not> is_kill x \<and> \<not> is_report x" by (auto simp: plain_effects_def)
  then have "length (filter is_kill xs) = 0" by simp
  with xs assms show ?thesis by (auto simp: child_after_def)
qed

lemma pipe_step_child:
  assumes "pipe_step parse i p q" and "\<not> is_waited i"
  shows "child_after i p q"
  using assms(1)
proof cases
  case (out_line line se)
  then show ?thesis by (simp add: plain_child_after plain_codex_line)
next
  case (out_chunk chunk)
  have "plain_effects p (claude_chunk chunk p)"
    by (auto simp: claude_chunk_def emit_claude_stdout_def pr_emit_def plain_effects_def is_kill_def
        Let_def split: prod.split)
  with out_chunk show ?thesis
    by (auto intro!: plain_child_after simp: claude_chunk_def emit_claude_stdout_def pr_emit_def Let_def
        split: prod.split)
next
  case out_eof
  have "plain_effects p (stdout_eof p)"
    by (auto simp: stdout_eof_def emit_claude_stdout_def pr_emit_def plain_effects_def is_kill_def Let_def)
  with out_eof show ?thesis
    by (auto intro!: plain_child_after simp: stdout_eof_def emit_claude_stdout_def pr_emit_def Let_def)
next
  case (err_line line)
  have "plain_effects p (stderr_line line p)"
    by (auto simp: stderr_line_def Let_def is_kill_def intro!: plain_emit plain_bus)
  with err_line show ?thesis
    by (auto intro!: plain_child_after simp: stderr_line_def emit_bus_def pr_emit_def Let_def)
next
  case (ended waited se now)
  with assms(2) show ?thesis by simp
qed (auto simp: child_after_def pipe_defs is_kill_def)

section \<open>Up to the end and after it\<close>

lemma ended_stays: "pipe_trace parse xs p q \<Longrightarrow> pr_ended p \<Longrightarrow> pr_ended q"
proof (induction rule: pipe_trace.induct)
  case (trace_step i p q xs r)
  have "pr_ended q"
  proof (cases "is_waited i")
    case True
    with trace_step.hyps(1) trace_step.prems show ?thesis by cases simp_all
  next
    case False
    with pipe_step_child [OF trace_step.hyps(1)] trace_step.prems show ?thesis
      by (simp add: child_after_def)
  qed
  with trace_step.IH show ?case by simp
qed








section \<open>The report\<close>












end
