(* ===== verification/Spec2Isabelle.thy ===== *)
theory Spec2Isabelle
  imports Pricing Text_Props Store_Props Driver_Props Protocol_Props
    Session_Props Permission_Props Interaction_Props Parser_Total Event_Pages_Props Run_Usage
    Web_Auth_Runs Web_Delivery_Props History_Reader_Props Pipe_Report
begin

text \<open>
  The backend core of CoVibeCode (\<open>src-tauri/src\<close>): a desktop shell that runs coding agents as
  child processes and turns their output into a durable stream of events, which the desktop window
  and the clients of a web server read.

  \<^bold>\<open>The parts and how they interact.\<close> A session is an actor (\<open>agent/session\_actor.rs\<close>) that owns one
  child process. Commands of the user interface, lines of the child's stdout and stderr, a timer
  and a cancellation token are the branches of its loop. A line of the Claude CLI goes through the
  stream-json protocol (\<open>agent/claude\_protocol.rs\<close>), a line of the Codex app-server through the
  driver (\<open>agent/codex\_appserver.rs\<close>, with the items of \<open>agent/codex\_parser.rs\<close>); both return bus
  events (\<open>models.rs\<close>) that the actor persists in the run's event log (\<open>storage/events.rs\<close>) and
  emits (\<open>web\_server/broadcaster.rs\<close>). User messages are turns (\<open>agent/turn\_engine.rs\<close>) that run
  one at a time. The status of a run is a metadata record on disk (\<open>storage/runs.rs\<close>); the cost of a
  turn comes from a price table (\<open>pricing.rs\<close>). A client of the web server signs in
  (\<open>web\_server/auth.rs\<close>) and subscribes to runs over a WebSocket (\<open>web\_server/ws.rs\<close>), which
  replays the log and then follows the broadcasts. A long run is read through its history
  (\<open>storage/history.rs\<close>), a projection of the log into pages of entries.

  \<^bold>\<open>Theories.\<close>
  \<^item> \<open>Prelude\<close>, \<open>Json_Value\<close>, \<open>Text_Lines\<close>: strings as UTF-8 bytes, the library string operations,
    hash maps as association lists, JSON values with the accessors of \<open>serde\_json\<close>, lines and
    decoding of bytes, and the locale \<open>invariant_system\<close> of step relations with an invariant.
  \<^item> \<open>Models\<close>, \<open>Pricing\<close>, \<open>Turn_Engine\<close>: the data types, the price table, turns and timeouts.
  \<^item> \<open>Claude_Protocol\<close>: the accumulator state and \<open>map_event\<close>, one definition per match arm.
  \<^item> \<open>Runs_Store\<close>: saving, read-modify-write, status, restart recovery, deletion with rollback. The
    disk is a map from run ids to records; the outcome of each file operation is an argument.
  \<^item> \<open>Codex_Driver\<close>, \<open>Codex_Events\<close>, \<open>Codex_Parser\<close>: the Codex driver. Frames, tracked requests and
    the bounded buffer of messages of unclaimed threads; the events of items; \<open>parse_line\<close> with its
    notification and request handlers and the replay of buffered messages. \<open>Parser_Frames\<close>,
    \<open>Parser_Relation\<close>, \<open>Parser_Total\<close>, \<open>Parser_Isolation\<close> and \<open>Parser_Props\<close> say what every handler
    keeps: the bounds and order of the buffer, the session's own thread, the pending requests.
  \<^item> \<open>Pipe_Parser\<close>, \<open>Pipe_Transport\<close>: the one-shot transport, the stateful parser of Codex lines
    (\<open>agent/pipe\_parser.rs\<close>) and a whole run (\<open>agent/stream.rs\<close>) whose tasks on stdout and stderr
    interleave with stops by the user. \<open>Pipe_Props\<close>, \<open>Pipe_Runs\<close> and \<open>Pipe_Report\<close>: output cut
    anywhere, identifiers of resumed runs, the report of the end.
  \<^item> \<open>Actor_State\<close>, \<open>Actor_Effects\<close>, \<open>Actor_Turns\<close>, \<open>Actor_Control\<close>, \<open>Actor_Stdout\<close>,
    \<open>Actor_Loop\<close>: the actor. Its record has the fields of the source's struct and, prefixed with
    \<open>x\<close>, the log of its effects. The record \<open>world\<close> holds what the environment decides (JSON text,
    UUIDs, outcomes of writes, times as text). \<open>actor_step\<close> is the loop as a step relation whose
    input is arbitrary at every step, and \<open>run_schedule\<close> the same loop on a list of timed inputs.
    A line of the Codex driver reaches the actor as the driver's answer, whatever that is.
  \<^item> \<open>Actor_Frames\<close> to \<open>Actor_Codex\<close>: the invariants of the actor, each proved through every
    handler and interpreted as an \<open>invariant_system\<close>: the turn engine (\<open>turns\<close>), the
    deduplicated run states, the reply channels, the service of queued messages (\<open>service\<close>) and
    the Ralph loop on Codex (\<open>codex_ralph\<close>).
  \<^item> \<open>Event_Log\<close>: the writer of the log, with the answers of the file system (\<open>disk\<close>) and the JSON
    crate (\<open>codec\<close>) as arguments; \<open>Event_Repair\<close> and \<open>Event_Writer\<close> prove what repair, the seeding of
    the counter and each operation do, on every such answer; \<open>Event_Log_Runs\<close> runs them in any order
    with restarts. \<open>Event_Pages\<close>: the bounded catch-up pages, proved in \<open>Event_Pages_Props\<close> against
    the list of all events. \<open>Run_Usage\<close>: the usage and message counts read off a log.
  \<^item> \<open>Web_Auth\<close>, \<open>Web_Auth_Runs\<close>: cookies, logins, rotations of the token and the heartbeat of a
    connection, interleaved. \<open>Web_Session\<close>, \<open>Web_Delivery\<close>, \<open>Web_Delivery_Acts\<close>,
    \<open>Web_Delivery_Runs\<close>, \<open>Web_Delivery_Props\<close>: one connection, whose two tasks are lists of atomic
    actions that interleave, with the log it reads and a channel of bounded capacity that may drop
    messages. One emitter per run persists and broadcasts in order; a closed connection takes no
    step; a client subscribes from a number the server told it, or from 0.
  \<^item> \<open>History_Types\<close>, \<open>History_Content\<close>, \<open>History_Timeline\<close>, \<open>History_Builder\<close>, \<open>History_Events\<close>,
    \<open>History_Scan\<close>, \<open>History_Extract\<close>, \<open>History_Lines\<close>, \<open>History_Boundary\<close>, \<open>History_Store\<close>: the
    history projection from the bytes of a line to the generations on disk. \<open>History_Keeps\<close> states
    once, as locales, what a property of the pages must satisfy to be kept by the whole builder;
    \<open>History_Pages\<close> and \<open>History_Moves\<close> interpret them; \<open>History_Pages_Props\<close>,
    \<open>History_Store_Props\<close> and \<open>History_Reader_Props\<close> hold the properties and \<open>History_Demo\<close> the
    concrete JSON code at which they are applied.
  \<^item> \<open>Protocol_Props\<close>, \<open>Store_Props\<close>, \<open>Driver_Props\<close>, \<open>Text_Props\<close>,
    \<open>Actor_Props\<close>, \<open>Session_Props\<close>, \<open>Permission_Props\<close>, \<open>Interaction_Props\<close>: the properties of the
    core, with their locales (streams, record stores, evictors) and the concrete session of
    \<open>Actor_Props\<close> at which they are applied.

  \<^bold>\<open>What the lemmas show.\<close> Every command of the actor is answered once, messages are served in order,
  a hung turn is killed, tools run only as the user allowed. The event log only grows, under
  increasing numbers, through crashes and forks, and its readers agree. No thread of a Codex
  server that is not the session's steers it, and every line is parsed. A rotation of the web
  token ends the sessions before it, and an idle client has every event of its runs. A history once
  handed out stays readable, its pages are within their limits and hold exactly what was projected.
  Some lemmas show where the code falls short of this, with the run in which it happens.

  \<^bold>\<open>Conventions.\<close> A \<open>String\<close> is its list of bytes; doubles are exact rationals; instants are
  milliseconds; counters are unbounded naturals, except where the source's width matters (the
  sequence numbers of the buffer, the counters of the pipe parser). A handler runs without
  interruption and sees one instant. A panic ends the actor's task without its cleanup and is the
  flag \<open>x_panicked\<close>. A oneshot channel is a number, and sending on it is an entry of a log. The JSON
  crate, SHA-256, base64 and UUIDs are parameters; what a property needs of them is a hypothesis,
  and its witness instantiates it.

  \<^bold>\<open>Fuel and bounds.\<close> The eviction loops of the buffer get one unit of fuel per stored message plus
  one, and every iteration removes a message. The nested replays of the Codex driver get one unit
  per thread in the buffer plus one, and each takes a thread out of it. A client walking the
  catch-up pages gets one request per line of the log plus one, each page but the last taking a
  line; one scrolling back through a history gets one per page; one fetching stored content gets
  one per byte plus one. The properties show that none of them runs out. The retry loop of a rename
  has the three attempts of the source. In a history build \<open>he_fault n\<close> is the outcome of the
  \<open>n\<close>-th file operation: any failure ends the build, at any place.

  \<^bold>\<open>Not modelled.\<close> Spawning child processes, SSH and the command lines of the tools; the search
  indexes and usage statistics, which are derived from the stores; the import of transcripts of the
  command line tools; settings, plugins and registries; the HTTP router and the command layer: file,
  process and network plumbing around the core. Within the modelled parts: the directory a run's
  files are in, the file operations of a history's clean-up, retention and reading, which are taken
  to succeed, the socket of a connection, and the ports of the web server. Logging, desktop
  notifications and the waits for a child to exit have no effect on the modelled state.
\<close>

end
